(* ===== verification/Pj_Prelude.thy ===== *)
theory Pj_Prelude
  imports Main "HOL-Library.Word"
begin

text \<open>
  Shared base of the development: the status codes of \<^verbatim>\<open>pj/errno.h\<close>, the build switch that
  decides what \<^verbatim>\<open>PJ_ASSERT_RETURN\<close> does, \<^verbatim>\<open>pj_time_val\<close> with its comparison and arithmetic
  macros (\<^verbatim>\<open>pj/types.h\<close>, \<^verbatim>\<open>pj/types.c\<close>), and the list lemmas used by the array models.
\<close>

named_theorems pj_unfold \<open>defining equations of small wrappers, unfolded by simp add\<close>

section \<open>Status codes and assertions\<close>

text \<open>
  Every \<^verbatim>\<open>pj_status_t\<close> the modelled code tests or returns; \<open>PJ_OTHER n\<close> stands for the
  operating system and resolver codes that only pass through.
\<close>

datatype pj_status =
    PJ_SUCCESS | PJ_EUNKNOWN | PJ_EPENDING | PJ_EINVAL | PJ_ENOTFOUND | PJ_ENOMEM | PJ_EBUG
  | PJ_ETOOMANY | PJ_EBUSY | PJ_EINVALIDOP | PJ_EEXISTS | PJ_ERESOLVE | PJ_ETOOSMALL
  | PJSIP_ENOTREQUESTMSG | PJSIP_ENOTRESPONSEMSG | PJSIP_EMISSINGHDR | PJSIP_EINVALIDHDR
  | PJSIP_EINVALIDMETHOD | PJSIP_ETSXDESTROYED | PJLIB_UTIL_EDNS_NXDOMAIN
  | PJMEDIA_RTP_EINPACK | PJMEDIA_RTP_EINVER | PJMEDIA_RTP_EINLEN
  | PJMEDIA_SDP_EINSDP | PJMEDIA_SDP_EINVER | PJMEDIA_SDP_EINTIME | PJMEDIA_SDP_EINBANDW | PJMEDIA_SDP_EINRTCP
  | PJMEDIA_SDP_ERTPMAPTOOLONG | PJMEDIA_SDP_EINATTR | PJMEDIA_SDP_EINRTPMAP | PJMEDIA_SDP_EINFMTP | PJMEDIA_SDP_EINORIGIN
  | PJMEDIA_SDP_EINNAME | PJMEDIA_SDP_EINCONN | PJMEDIA_SDP_EINMEDIA | PJMEDIA_SDP_ENOFMT | PJMEDIA_SDP_EINPT
  | PJMEDIA_SDP_EMISSINGCONN | PJMEDIA_SDP_EMISSINGRTPMAP | PJMEDIA_SDP_ETPORTNOTEQUAL
  | PJMEDIA_SDP_EFORMATNOTEQUAL | PJMEDIA_SDPNEG_EINSTATE | PJMEDIA_SDPNEG_ENOACTIVE | PJMEDIA_SDPNEG_ENOINITIAL
  | PJMEDIA_SDPNEG_ENONEG | PJMEDIA_SDPNEG_ENOMEDIA | PJMEDIA_SDPNEG_EINVANSMEDIA | PJMEDIA_SDPNEG_EINVANSTP
  | PJMEDIA_SDPNEG_EANSNOMEDIA | PJMEDIA_SDPNEG_NOANSCODEC | PJMEDIA_SDPNEG_NOANSUNKNOWN
  | PJSIP_ESESSIONTERMINATED | PJSIP_EINVALIDURI | PJSIP_ERRNO_FROM_SIP_STATUS nat | PJNATH_EINSTUNMSGTYPE | PJNATH_ESTUNTIMEDOUT | PJNATH_ESTUNDESTROYED | PJ_STATUS_FROM_STUN_CODE int | PJ_OTHER int

text \<open>
  \<^verbatim>\<open>config_site.h\<close> of this build sets \<^verbatim>\<open>PJ_ENABLE_EXTRA_CHECK\<close> to 0, so that
  \<^verbatim>\<open>PJ_ASSERT_RETURN\<close> is a plain \<^verbatim>\<open>pj_assert\<close>, which a release build compiles to nothing.
  The models keep every such guard under this switch.
\<close>

definition PJ_ENABLE_EXTRA_CHECK :: bool where
  "PJ_ENABLE_EXTRA_CHECK = False"

definition assert_fails :: "bool \<Rightarrow> bool" where
  "assert_fails expr = (PJ_ENABLE_EXTRA_CHECK \<and> \<not> expr)"

lemma assert_fails_off [simp]: "\<not> assert_fails expr"
  by (simp add: assert_fails_def PJ_ENABLE_EXTRA_CHECK_def)

section \<open>Time values\<close>

datatype pj_time_val = Time_val (sec: int) (msec: int)

definition PJ_TIME_VAL_EQ :: "pj_time_val \<Rightarrow> pj_time_val \<Rightarrow> bool" where
  "PJ_TIME_VAL_EQ t1 t2 = (sec t1 = sec t2 \<and> msec t1 = msec t2)"

definition PJ_TIME_VAL_GT :: "pj_time_val \<Rightarrow> pj_time_val \<Rightarrow> bool" where
  "PJ_TIME_VAL_GT t1 t2 = (sec t1 > sec t2 \<or> (sec t1 = sec t2 \<and> msec t1 > msec t2))"

definition PJ_TIME_VAL_GTE :: "pj_time_val \<Rightarrow> pj_time_val \<Rightarrow> bool" where
  "PJ_TIME_VAL_GTE t1 t2 = (PJ_TIME_VAL_GT t1 t2 \<or> PJ_TIME_VAL_EQ t1 t2)"

definition PJ_TIME_VAL_LT :: "pj_time_val \<Rightarrow> pj_time_val \<Rightarrow> bool" where
  "PJ_TIME_VAL_LT t1 t2 = (\<not> PJ_TIME_VAL_GTE t1 t2)"

definition PJ_TIME_VAL_LTE :: "pj_time_val \<Rightarrow> pj_time_val \<Rightarrow> bool" where
  "PJ_TIME_VAL_LTE t1 t2 = (\<not> PJ_TIME_VAL_GT t1 t2)"

instantiation pj_time_val :: linorder
begin

definition less_eq_pj_time_val :: "pj_time_val \<Rightarrow> pj_time_val \<Rightarrow> bool" where
  "t1 \<le> t2 \<longleftrightarrow> sec t1 < sec t2 \<or> (sec t1 = sec t2 \<and> msec t1 \<le> msec t2)"

definition less_pj_time_val :: "pj_time_val \<Rightarrow> pj_time_val \<Rightarrow> bool" where
  "t1 < t2 \<longleftrightarrow> sec t1 < sec t2 \<or> (sec t1 = sec t2 \<and> msec t1 < msec t2)"

instance
  by standard (auto simp: less_eq_pj_time_val_def less_pj_time_val_def pj_time_val.expand)

end

text \<open>The comparison macros are that linear order.\<close>

lemma PJ_TIME_VAL_LT_iff [simp]: "PJ_TIME_VAL_LT t1 t2 \<longleftrightarrow> t1 < t2"
  by (auto simp: PJ_TIME_VAL_LT_def PJ_TIME_VAL_GTE_def PJ_TIME_VAL_GT_def PJ_TIME_VAL_EQ_def
      less_pj_time_val_def)

lemma PJ_TIME_VAL_GTE_iff [simp]: "PJ_TIME_VAL_GTE t1 t2 \<longleftrightarrow> t2 \<le> t1"
  by (auto simp: PJ_TIME_VAL_GTE_def PJ_TIME_VAL_GT_def PJ_TIME_VAL_EQ_def
      less_eq_pj_time_val_def)

lemma PJ_TIME_VAL_LTE_iff [simp]: "PJ_TIME_VAL_LTE t1 t2 \<longleftrightarrow> t1 \<le> t2"
  by (auto simp: PJ_TIME_VAL_LTE_def PJ_TIME_VAL_GT_def less_eq_pj_time_val_def)

text \<open>
  \<^verbatim>\<open>pj_time_val_normalize\<close>: C division and remainder truncate, but the first branch only sees
  a positive \<^verbatim>\<open>msec\<close>, where they agree with \<open>div\<close> and \<open>mod\<close>. The do-while of the second
  branch is \<open>borrow_sec\<close>.
\<close>

function borrow_sec :: "int \<Rightarrow> int \<Rightarrow> int \<times> int" where
  "borrow_sec s ms =
     (let s' = s - 1; ms' = ms + 1000
      in if ms' \<le> -1000 then borrow_sec s' ms' else (s', ms'))"
  by pat_completeness auto
termination
  by (relation "measure (\<lambda>(s, ms). nat (- ms))") auto

declare borrow_sec.simps [simp del]

definition pj_time_val_normalize :: "pj_time_val \<Rightarrow> pj_time_val" where
  "pj_time_val_normalize t =
     (let (s, ms) =
        (if msec t \<ge> 1000 then (sec t + msec t div 1000, msec t mod 1000)
         else if msec t \<le> -1000 then borrow_sec (sec t) (msec t)
         else (sec t, msec t))
      in if s \<ge> 1 \<and> ms < 0 then Time_val (s - 1) (ms + 1000)
         else if s < 0 \<and> ms > 0 then Time_val (s + 1) (ms - 1000)
         else Time_val s ms)"

definition PJ_TIME_VAL_ADD :: "pj_time_val \<Rightarrow> pj_time_val \<Rightarrow> pj_time_val" where
  "PJ_TIME_VAL_ADD t1 t2 = pj_time_val_normalize (Time_val (sec t1 + sec t2) (msec t1 + msec t2))"

definition PJ_TIME_VAL_SUB :: "pj_time_val \<Rightarrow> pj_time_val \<Rightarrow> pj_time_val" where
  "PJ_TIME_VAL_SUB t1 t2 = pj_time_val_normalize (Time_val (sec t1 - sec t2) (msec t1 - msec t2))"

definition PJ_TIME_VAL_MSEC :: "pj_time_val \<Rightarrow> int" where
  "PJ_TIME_VAL_MSEC t = sec t * 1000 + msec t"

lemma borrow_sec_value:
  "fst (borrow_sec s ms) * 1000 + snd (borrow_sec s ms) = s * 1000 + ms"
  by (induction s ms rule: borrow_sec.induct) (subst (1 2) borrow_sec.simps, simp add: Let_def)

lemma borrow_sec_range:
  "ms \<le> -1000 \<Longrightarrow> -1000 < snd (borrow_sec s ms) \<and> snd (borrow_sec s ms) \<le> 0"
  by (induction s ms rule: borrow_sec.induct) (subst (1 2) borrow_sec.simps, simp add: Let_def)

definition carry_msec :: "pj_time_val \<Rightarrow> int \<times> int" where
  "carry_msec t =
     (if msec t \<ge> 1000 then (sec t + msec t div 1000, msec t mod 1000)
      else if msec t \<le> -1000 then borrow_sec (sec t) (msec t)
      else (sec t, msec t))"

lemma carry_msec_value:
  "fst (carry_msec t) * 1000 + snd (carry_msec t) = PJ_TIME_VAL_MSEC t"
  using borrow_sec_value [of "sec t" "msec t"]
  by (simp add: carry_msec_def PJ_TIME_VAL_MSEC_def algebra_simps)

lemma carry_msec_range: "-1000 < snd (carry_msec t) \<and> snd (carry_msec t) < 1000"
  using borrow_sec_range [of "msec t" "sec t"] pos_mod_bound [of 1000 "msec t"]
    pos_mod_sign [of 1000 "msec t"]
  by (auto simp: carry_msec_def)

lemma normalize_carry:
  "pj_time_val_normalize t =
     (let (s, ms) = carry_msec t
      in if s \<ge> 1 \<and> ms < 0 then Time_val (s - 1) (ms + 1000)
         else if s < 0 \<and> ms > 0 then Time_val (s + 1) (ms - 1000)
         else Time_val s ms)"
  by (simp only: pj_time_val_normalize_def carry_msec_def)

lemma normalize_value: "PJ_TIME_VAL_MSEC (pj_time_val_normalize t) = PJ_TIME_VAL_MSEC t"
  unfolding normalize_carry
  using carry_msec_value [of t]
  by (cases "carry_msec t") (simp add: PJ_TIME_VAL_MSEC_def)

lemma normalize_range:
  "-1000 < msec (pj_time_val_normalize t) \<and> msec (pj_time_val_normalize t) < 1000"
  unfolding normalize_carry
  using carry_msec_range [of t]
  by (cases "carry_msec t") simp

text \<open>A normal form of a non-negative time is its decimal split, so comparing normal forms
  compares milliseconds.\<close>

lemma normalize_nonneg:
  assumes "0 \<le> PJ_TIME_VAL_MSEC t"
  shows "0 \<le> sec (pj_time_val_normalize t) \<and> 0 \<le> msec (pj_time_val_normalize t)"
proof -
  obtain s ms where c: "carry_msec t = (s, ms)" by fastforce
  have "0 \<le> s * 1000 + ms" "-1000 < ms" "ms < 1000"
    using carry_msec_value [of t] carry_msec_range [of t] assms c by auto
  then show ?thesis by (auto simp: normalize_carry c)
qed

section \<open>Lists as arrays\<close>

lemma nth_list_update_if:
  "i < length xs \<Longrightarrow> xs[i := x] ! j = (if i = j then x else xs ! j)"
  by simp

lemma set_take_conv_nth: "n \<le> length xs \<Longrightarrow> set (take n xs) = (\<lambda>i. xs ! i) ` {..<n}"
  by (simp add: nth_image lessThan_atLeast0)

lemma lessThan_Suc_minus [simp]: "{..<Suc n} - {n} = {..<n}"
  by auto

end
