(* ===== verification/Timer_Heap.thy ===== *)
theory Timer_Heap
  imports Pj_Prelude
begin

text \<open>
  The timer heap of \<^verbatim>\<open>pjlib/src/pj/timer.c\<close>: an array binary heap of timer entries ordered by
  expiry time, and the parallel array \<open>timer_ids\<close> that maps the id of a scheduled entry to its
  heap slot and threads the unused ids as a free list of negated indices.

  Timer entries are C structs owned by the callers; \<open>nodes\<close> is the memory that holds them, indexed
  by address. \<^verbatim>\<open>pj_pool_alloc\<close> does not clear memory: a fresh heap cell holds an arbitrary address
  in C, here 0, and no cell at or above \<open>cur_size\<close> is read. Pool exhaustion raises an exception in
  pjlib and is not modelled.
\<close>

section \<open>Data\<close>

record pj_timer_entry =
  te_id :: int
  te_cb :: "nat option"
  timer_id :: int
  timer_value :: pj_time_val

record pj_timer_heap_t =
  max_size :: nat
  cur_size :: nat
  max_entries_per_poll :: nat
  heap_lock :: "nat option"
  auto_delete_lock :: bool
  heap :: "nat list"
  timer_ids :: "int list"
  timer_ids_freelist :: int
  nodes :: "nat \<Rightarrow> pj_timer_entry"

definition HEAP_PARENT :: "nat \<Rightarrow> nat" where
  "HEAP_PARENT x = (if x = 0 then 0 else (x - 1) div 2)"

definition HEAP_LEFT :: "nat \<Rightarrow> nat" where
  "HEAP_LEFT x = x + x + 1"

definition DEFAULT_MAX_TIMED_OUT_PER_POLL :: nat where
  "DEFAULT_MAX_TIMED_OUT_PER_POLL = 64"

text \<open>The time of the entry in a heap slot, as the macros read it.\<close>

abbreviation slot_value :: "pj_timer_heap_t \<Rightarrow> nat \<Rightarrow> pj_time_val" where
  "slot_value ht i \<equiv> timer_value (nodes ht (heap ht ! i))"

abbreviation slot_id :: "pj_timer_heap_t \<Rightarrow> nat \<Rightarrow> int" where
  "slot_id ht i \<equiv> timer_id (nodes ht (heap ht ! i))"

section \<open>Heap surgery\<close>

definition copy_node :: "pj_timer_heap_t \<Rightarrow> nat \<Rightarrow> nat \<Rightarrow> pj_timer_heap_t" where
  "copy_node ht slot moved_node =
     ht\<lparr>heap := (heap ht)[slot := moved_node],
        timer_ids := (timer_ids ht)[nat (timer_id (nodes ht moved_node)) := int slot]\<rparr>"

definition pop_freelist :: "pj_timer_heap_t \<Rightarrow> pj_timer_heap_t \<times> int" where
  "pop_freelist ht =
     (let new_id = timer_ids_freelist ht
      in (ht\<lparr>timer_ids_freelist := - (timer_ids ht ! nat (timer_ids_freelist ht))\<rparr>, new_id))"

definition push_freelist :: "pj_timer_heap_t \<Rightarrow> int \<Rightarrow> pj_timer_heap_t" where
  "push_freelist ht old_id =
     ht\<lparr>timer_ids := (timer_ids ht)[nat old_id := - timer_ids_freelist ht],
        timer_ids_freelist := old_id\<rparr>"

lemma copy_node_simps [simp]:
  "max_size (copy_node ht s m) = max_size ht"
  "cur_size (copy_node ht s m) = cur_size ht"
  "max_entries_per_poll (copy_node ht s m) = max_entries_per_poll ht"
  "heap (copy_node ht s m) = (heap ht)[s := m]"
  "timer_ids (copy_node ht s m) = (timer_ids ht)[nat (timer_id (nodes ht m)) := int s]"
  "timer_ids_freelist (copy_node ht s m) = timer_ids_freelist ht"
  "nodes (copy_node ht s m) = nodes ht"
  by (simp_all add: copy_node_def)

text \<open>
  \<^verbatim>\<open>reheap_down\<close>: the loop runs while \<open>child\<close> is in range, and \<open>child\<close> grows at every turn.
\<close>

function reheap_down :: "pj_timer_heap_t \<Rightarrow> nat \<Rightarrow> nat \<Rightarrow> nat \<Rightarrow> pj_timer_heap_t" where
  "reheap_down ht moved_node slot child =
     (if child < cur_size ht then
        let child = (if child + 1 < cur_size ht
                        \<and> PJ_TIME_VAL_LT (slot_value ht (child + 1)) (slot_value ht child)
                     then child + 1 else child)
        in if PJ_TIME_VAL_LT (slot_value ht child) (timer_value (nodes ht moved_node))
           then reheap_down (copy_node ht slot (heap ht ! child)) moved_node child (HEAP_LEFT child)
           else copy_node ht slot moved_node
      else copy_node ht slot moved_node)"
  by pat_completeness auto
termination
  by (relation "measure (\<lambda>(ht, m, s, c). cur_size ht - c)") (auto simp: HEAP_LEFT_def)

text \<open>
  \<^verbatim>\<open>reheap_up\<close>: \<open>slot\<close> takes the old \<open>parent\<close>, and from then on \<open>parent\<close> is the parent of
  \<open>slot\<close>.
\<close>

function reheap_up :: "pj_timer_heap_t \<Rightarrow> nat \<Rightarrow> nat \<Rightarrow> nat \<Rightarrow> pj_timer_heap_t" where
  "reheap_up ht moved_node slot parent =
     (if 0 < slot \<and> PJ_TIME_VAL_LT (timer_value (nodes ht moved_node)) (slot_value ht parent)
      then reheap_up (copy_node ht slot (heap ht ! parent)) moved_node parent (HEAP_PARENT parent)
      else copy_node ht slot moved_node)"
  by pat_completeness auto
termination
  by (relation "measure (\<lambda>(ht, m, s, p). if s = 0 then 0 else p + 1)")
    (auto simp: HEAP_PARENT_def)

declare reheap_down.simps [simp del] reheap_up.simps [simp del]

definition remove_node :: "pj_timer_heap_t \<Rightarrow> nat \<Rightarrow> pj_timer_heap_t \<times> nat" where
  "remove_node ht slot =
     (let removed_node = heap ht ! slot;
          ht = push_freelist ht (timer_id (nodes ht removed_node));
          ht = ht\<lparr>cur_size := cur_size ht - 1\<rparr>;
          ht = ht\<lparr>nodes := (nodes ht)(removed_node := (nodes ht removed_node)\<lparr>timer_id := -1\<rparr>)\<rparr>
      in if slot < cur_size ht then
           let moved_node = heap ht ! cur_size ht;
               ht = copy_node ht slot moved_node;
               parent = HEAP_PARENT slot
           in if PJ_TIME_VAL_GTE (timer_value (nodes ht moved_node)) (slot_value ht parent)
              then (reheap_down ht moved_node slot (HEAP_LEFT slot), removed_node)
              else (reheap_up ht moved_node slot parent, removed_node)
         else (ht, removed_node))"

definition grow_heap :: "pj_timer_heap_t \<Rightarrow> pj_timer_heap_t" where
  "grow_heap ht =
     (let new_size = max_size ht * 2
      in ht\<lparr>heap := take (max_size ht) (heap ht) @ replicate (new_size - max_size ht) 0,
            timer_ids := take (max_size ht) (timer_ids ht)
                           @ map (\<lambda>i. - (int i + 1)) [max_size ht..<new_size],
            max_size := new_size\<rparr>)"

definition insert_node :: "pj_timer_heap_t \<Rightarrow> nat \<Rightarrow> pj_timer_heap_t" where
  "insert_node ht new_node =
     (let ht = (if cur_size ht + 2 \<ge> max_size ht then grow_heap ht else ht);
          ht = reheap_up ht new_node (cur_size ht) (HEAP_PARENT (cur_size ht))
      in ht\<lparr>cur_size := cur_size ht + 1\<rparr>)"

definition schedule_entry :: "pj_timer_heap_t \<Rightarrow> nat \<Rightarrow> pj_time_val \<Rightarrow> pj_timer_heap_t \<times> int" where
  "schedule_entry ht entry future_time =
     (if cur_size ht < max_size ht then
        let (ht, new_id) = pop_freelist ht;
            ht = ht\<lparr>nodes := (nodes ht)(entry := (nodes ht entry)\<lparr>timer_id := new_id,
                                                              timer_value := future_time\<rparr>)\<rparr>
        in (insert_node ht entry, 0)
      else (ht, -1))"

text \<open>
  \<^verbatim>\<open>cancel\<close>: the second result is the return value, the third tells whether the close hook of the
  heap is called.
\<close>

definition cancel :: "pj_timer_heap_t \<Rightarrow> nat \<Rightarrow> int \<Rightarrow> pj_timer_heap_t \<times> int \<times> bool" where
  "cancel ht entry dont_call =
     (let tid = timer_id (nodes ht entry)
      in if tid < 0 \<or> nat tid > max_size ht then (ht, 0, False)
         else
           let timer_node_slot = timer_ids ht ! nat tid
           in if timer_node_slot < 0 then (ht, 0, False)
              else if entry \<noteq> heap ht ! nat timer_node_slot then (ht, 0, False)
              else (fst (remove_node ht (nat timer_node_slot)), 1, dont_call = 0))"

section \<open>Interface\<close>

text \<open>\<open>szs\<close> are the platform sizes of the heap struct, of a pointer and of a timer id.\<close>

definition pj_timer_heap_mem_size :: "nat \<times> nat \<times> nat \<Rightarrow> nat \<Rightarrow> nat" where
  "pj_timer_heap_mem_size szs count =
     (let (sz_heap, sz_ptr, sz_id) = szs in sz_heap + (count + 2) * (sz_ptr + sz_id) + 132)"

definition pj_timer_heap_create :: "(nat \<Rightarrow> pj_timer_entry) \<Rightarrow> nat \<Rightarrow> pj_timer_heap_t" where
  "pj_timer_heap_create mem size0 =
     (let size0 = size0 + 2
      in \<lparr>max_size = size0, cur_size = 0,
          max_entries_per_poll = DEFAULT_MAX_TIMED_OUT_PER_POLL,
          heap_lock = None, auto_delete_lock = False,
          heap = replicate size0 0,
          timer_ids = map (\<lambda>i. - (int i + 1)) [0..<size0],
          timer_ids_freelist = 1, nodes = mem\<rparr>)"

text \<open>The lock that is destroyed, if any, is the second result.\<close>

definition pj_timer_heap_destroy :: "pj_timer_heap_t \<Rightarrow> pj_timer_heap_t \<times> nat option" where
  "pj_timer_heap_destroy ht =
     (if heap_lock ht \<noteq> None \<and> auto_delete_lock ht
      then (ht\<lparr>heap_lock := None\<rparr>, heap_lock ht)
      else (ht, None))"

definition pj_timer_heap_set_lock ::
    "pj_timer_heap_t \<Rightarrow> nat option \<Rightarrow> bool \<Rightarrow> pj_timer_heap_t \<times> nat option" where
  "pj_timer_heap_set_lock ht lock auto_del =
     (ht\<lparr>heap_lock := lock, auto_delete_lock := auto_del\<rparr>,
      if heap_lock ht \<noteq> None \<and> auto_delete_lock ht then heap_lock ht else None)"

definition pj_timer_heap_set_max_timed_out_per_poll ::
    "pj_timer_heap_t \<Rightarrow> nat \<Rightarrow> pj_timer_heap_t \<times> nat" where
  "pj_timer_heap_set_max_timed_out_per_poll ht count =
     (ht\<lparr>max_entries_per_poll := count\<rparr>, max_entries_per_poll ht)"

definition pj_timer_entry_init ::
    "pj_timer_heap_t \<Rightarrow> nat \<Rightarrow> int \<Rightarrow> nat option \<Rightarrow> pj_timer_heap_t" where
  "pj_timer_entry_init ht entry i cb =
     ht\<lparr>nodes := (nodes ht)(entry := (nodes ht entry)\<lparr>timer_id := -1, te_id := i, te_cb := cb\<rparr>)\<rparr>"

text \<open>\<open>ticks\<close> is what \<^verbatim>\<open>pj_gettickcount\<close> returns.\<close>

definition pj_timer_heap_schedule ::
    "pj_timer_heap_t \<Rightarrow> pj_time_val \<Rightarrow> nat \<Rightarrow> pj_time_val \<Rightarrow> pj_timer_heap_t \<times> pj_status" where
  "pj_timer_heap_schedule ht ticks entry delay =
     (if assert_fails (te_cb (nodes ht entry) \<noteq> None) then (ht, PJ_EINVAL)
      else if assert_fails (timer_id (nodes ht entry) < 1) then (ht, PJ_EINVALIDOP)
      else
        let expires = PJ_TIME_VAL_ADD ticks delay;
            (ht', status) = schedule_entry ht entry expires
        in (ht', if status = 0 then PJ_SUCCESS else PJ_OTHER status))"

definition pj_timer_heap_cancel :: "pj_timer_heap_t \<Rightarrow> nat \<Rightarrow> pj_timer_heap_t \<times> int" where
  "pj_timer_heap_cancel ht entry =
     (let (ht', count, _) = cancel ht entry 1 in (ht', count))"

text \<open>
  The polling loop. A callback runs with the heap unlocked and may schedule, cancel or change the
  limit, so the loop need not stop for an arbitrary \<open>cb\<close>: the result is \<open>None\<close> then. \<open>fired\<close> is the
  list of entries whose callback ran, most recent first; its length is the C variable \<open>count\<close>.
\<close>

partial_function (option) poll_loop ::
    "(pj_timer_heap_t \<Rightarrow> nat \<Rightarrow> pj_timer_heap_t) \<Rightarrow> pj_time_val \<Rightarrow> pj_timer_heap_t \<Rightarrow> nat list
     \<Rightarrow> (pj_timer_heap_t \<times> nat list) option" where
  "poll_loop cb now ht fired =
     (if cur_size ht \<noteq> 0 \<and> PJ_TIME_VAL_LTE (slot_value ht 0) now
          \<and> length fired < max_entries_per_poll ht
      then poll_loop cb now
             (if te_cb (nodes (fst (remove_node ht 0)) (snd (remove_node ht 0))) \<noteq> None
              then cb (fst (remove_node ht 0)) (snd (remove_node ht 0))
              else fst (remove_node ht 0))
             (snd (remove_node ht 0) # fired)
      else Some (ht, fired))"

declare poll_loop.simps [code]

definition PJ_MAXINT32 :: int where
  "PJ_MAXINT32 = 0x7FFFFFFF"

definition next_delay_of :: "pj_timer_heap_t \<Rightarrow> pj_time_val \<Rightarrow> pj_time_val" where
  "next_delay_of ht now =
     (if cur_size ht \<noteq> 0 then
        let d = PJ_TIME_VAL_SUB (slot_value ht 0) now
        in if sec d < 0 \<or> msec d < 0 then Time_val 0 0 else d
      else Time_val PJ_MAXINT32 PJ_MAXINT32)"

text \<open>
  \<^verbatim>\<open>pj_timer_heap_poll\<close> with a non-NULL \<open>next_delay\<close>; its results are the heap, the fired entries in
  order and the delay reported to the caller.
\<close>

definition pj_timer_heap_poll ::
    "(pj_timer_heap_t \<Rightarrow> nat \<Rightarrow> pj_timer_heap_t) \<Rightarrow> pj_time_val \<Rightarrow> pj_timer_heap_t
     \<Rightarrow> (pj_timer_heap_t \<times> nat list \<times> pj_time_val) option" where
  "pj_timer_heap_poll cb now ht =
     (if cur_size ht = 0 then Some (ht, [], Time_val PJ_MAXINT32 PJ_MAXINT32)
      else map_option (\<lambda>(ht', fired). (ht', rev fired, next_delay_of ht' now))
             (poll_loop cb now ht []))"

definition pj_timer_heap_count :: "pj_timer_heap_t \<Rightarrow> nat" where
  "pj_timer_heap_count ht = cur_size ht"

definition pj_timer_heap_earliest_time :: "pj_timer_heap_t \<Rightarrow> pj_status \<times> pj_time_val option" where
  "pj_timer_heap_earliest_time ht =
     (if cur_size ht = 0 then (PJ_ENOTFOUND, None) else (PJ_SUCCESS, Some (slot_value ht 0)))"

end
