(* ===== verification/Timer_Heap_Inv.thy ===== *)
theory Timer_Heap_Inv
  imports Timer_Heap
begin

text \<open>
  Correctness of the sift loops of the timer heap. The order argument is about functions from
  slots to times; the linking argument is about the two parallel arrays with one hole, the slot
  that still waits for the moved entry. Both loops share the hole lemmas.
\<close>

section \<open>Order on an almost ordered heap\<close>

definition heap_ordered :: "(nat \<Rightarrow> 'a::linorder) \<Rightarrow> nat \<Rightarrow> bool" where
  "heap_ordered f n \<longleftrightarrow> (\<forall>i<n. 0 < i \<longrightarrow> f (HEAP_PARENT i) \<le> f i)"

text \<open>Only the edge into \<open>s\<close>, respectively the edges out of \<open>s\<close>, may be wrong.\<close>

definition up_hole :: "(nat \<Rightarrow> 'a::linorder) \<Rightarrow> nat \<Rightarrow> nat \<Rightarrow> bool" where
  "up_hole f n s \<longleftrightarrow>
     (\<forall>i<n. 0 < i \<longrightarrow> i \<noteq> s \<longrightarrow> f (HEAP_PARENT i) \<le> f i) \<and>
     (\<forall>i<n. 0 < i \<longrightarrow> HEAP_PARENT i = s \<longrightarrow> 0 < s \<longrightarrow> f (HEAP_PARENT s) \<le> f i)"

definition down_hole :: "(nat \<Rightarrow> 'a::linorder) \<Rightarrow> nat \<Rightarrow> nat \<Rightarrow> bool" where
  "down_hole f n s \<longleftrightarrow>
     (\<forall>i<n. 0 < i \<longrightarrow> HEAP_PARENT i \<noteq> s \<longrightarrow> f (HEAP_PARENT i) \<le> f i) \<and>
     (\<forall>i<n. 0 < i \<longrightarrow> HEAP_PARENT i = s \<longrightarrow> 0 < s \<longrightarrow> f (HEAP_PARENT s) \<le> f i)"

lemma HEAP_PARENT_0 [simp]: "HEAP_PARENT 0 = 0"
  by (simp add: HEAP_PARENT_def)

lemma HEAP_PARENT_less [simp]: "0 < i \<Longrightarrow> HEAP_PARENT i < i"
  by (simp add: HEAP_PARENT_def)

lemma HEAP_PARENT_neq [simp]: "0 < i \<Longrightarrow> HEAP_PARENT i \<noteq> i"
  using HEAP_PARENT_less [of i] by linarith

lemma HEAP_PARENT_le: "HEAP_PARENT i \<le> i"
  by (cases "i = 0") (auto intro: less_imp_le)

lemma HEAP_PARENT_below [simp]: "i < n \<Longrightarrow> HEAP_PARENT i < n"
  using HEAP_PARENT_le [of i] by linarith

lemma HEAP_PARENT2_neq [simp]: "0 < i \<Longrightarrow> HEAP_PARENT (HEAP_PARENT i) \<noteq> i"
  using HEAP_PARENT_le [of "HEAP_PARENT i"] HEAP_PARENT_less [of i] by linarith

lemma HEAP_PARENT_LEFT [simp]:
  "HEAP_PARENT (HEAP_LEFT s) = s" "HEAP_PARENT (Suc (HEAP_LEFT s)) = s"
  by (simp_all add: HEAP_PARENT_def HEAP_LEFT_def)

lemma HEAP_LEFT_greater [simp]: "s < HEAP_LEFT s" "0 < HEAP_LEFT s"
  by (simp_all add: HEAP_LEFT_def)

lemma children_cases:
  "0 < c \<Longrightarrow> HEAP_PARENT c = s \<Longrightarrow> c = HEAP_LEFT s \<or> c = Suc (HEAP_LEFT s)"
  unfolding HEAP_PARENT_def HEAP_LEFT_def by presburger

lemma up_hole_done:
  "up_hole f n s \<Longrightarrow> s = 0 \<or> f (HEAP_PARENT s) \<le> f s \<Longrightarrow> heap_ordered f n"
  by (auto simp: up_hole_def heap_ordered_def)

lemma down_hole_done:
  assumes "down_hole f n s"
    and "HEAP_LEFT s < n \<longrightarrow> f s \<le> f (HEAP_LEFT s)"
    and "Suc (HEAP_LEFT s) < n \<longrightarrow> f s \<le> f (Suc (HEAP_LEFT s))"
  shows "heap_ordered f n"
  using assms unfolding down_hole_def heap_ordered_def by (metis children_cases)

lemma up_hole_step:
  assumes hole: "up_hole f n s" and s: "0 < s" "s < n" and lt: "f s < f (HEAP_PARENT s)"
  shows "up_hole (f(s := f (HEAP_PARENT s), HEAP_PARENT s := f s)) n (HEAP_PARENT s)"
proof -
  let ?p = "HEAP_PARENT s"
  have edge: "\<And>i. i < n \<Longrightarrow> 0 < i \<Longrightarrow> i \<noteq> s \<Longrightarrow> f (HEAP_PARENT i) \<le> f i"
    and child: "\<And>i. i < n \<Longrightarrow> 0 < i \<Longrightarrow> HEAP_PARENT i = s \<Longrightarrow> f ?p \<le> f i"
    using hole s(1) by (auto simp: up_hole_def)
  have p: "?p < n" "?p \<noteq> s"
    using less_trans [OF HEAP_PARENT_less [OF s(1)] s(2)] HEAP_PARENT_neq [OF s(1)] by auto
  have grand: "0 < ?p \<Longrightarrow> f (HEAP_PARENT ?p) \<le> f ?p"
    using edge [of ?p] p by simp
  have gp: "0 < ?p \<Longrightarrow> HEAP_PARENT ?p \<noteq> ?p \<and> HEAP_PARENT ?p \<noteq> s"
    using s by simp
  have sib: "\<And>i. i < n \<Longrightarrow> 0 < i \<Longrightarrow> i \<noteq> s \<Longrightarrow> HEAP_PARENT i = ?p \<Longrightarrow> f ?p \<le> f i"
    using edge by fastforce
  show ?thesis
    unfolding up_hole_def
  proof (intro conjI allI impI)
    fix i assume i: "i < n" "0 < i" "i \<noteq> ?p"
    show "(f(s := f ?p, ?p := f s)) (HEAP_PARENT i) \<le> (f(s := f ?p, ?p := f s)) i"
      using i edge [of i] child [of i] sib [of i] lt p
      by (auto dest: order.strict_implies_order)
  next
    fix i assume i: "i < n" "0 < i" "HEAP_PARENT i = ?p" "0 < ?p"
    then have "i \<noteq> ?p" by auto
    then show "(f(s := f ?p, ?p := f s)) (HEAP_PARENT ?p) \<le> (f(s := f ?p, ?p := f s)) i"
      using i p gp grand sib [of i] by (auto intro: order.trans)
  qed
qed

lemma down_hole_step:
  assumes hole: "down_hole f n s" and c: "c < n" "0 < c" "HEAP_PARENT c = s"
    and lt: "f c < f s"
    and least: "\<And>d. d < n \<Longrightarrow> 0 < d \<Longrightarrow> HEAP_PARENT d = s \<Longrightarrow> f c \<le> f d"
  shows "down_hole (f(s := f c, c := f s)) n c"
proof -
  have cs: "c \<noteq> s" using c HEAP_PARENT_neq [of c] by metis
  have edge: "\<And>i. i < n \<Longrightarrow> 0 < i \<Longrightarrow> HEAP_PARENT i \<noteq> s \<Longrightarrow> f (HEAP_PARENT i) \<le> f i"
    and child: "\<And>i. i < n \<Longrightarrow> 0 < i \<Longrightarrow> HEAP_PARENT i = s \<Longrightarrow> 0 < s \<Longrightarrow> f (HEAP_PARENT s) \<le> f i"
    using hole by (auto simp: down_hole_def)
  have sp: "0 < s \<Longrightarrow> HEAP_PARENT s \<noteq> s \<and> HEAP_PARENT s \<noteq> c"
    using c HEAP_PARENT2_neq [of c] HEAP_PARENT_neq [of s] by metis
  show ?thesis
    unfolding down_hole_def
  proof (intro conjI allI impI)
    fix i assume i: "i < n" "0 < i" "HEAP_PARENT i \<noteq> c"
    show "(f(s := f c, c := f s)) (HEAP_PARENT i) \<le> (f(s := f c, c := f s)) i"
      using i edge [of i] child [of c] c least [of i] lt cs sp
      by (auto dest: order.strict_implies_order)
  next
    fix i assume i: "i < n" "0 < i" "HEAP_PARENT i = c" "0 < c"
    then have "i \<noteq> s" "i \<noteq> c" using c HEAP_PARENT_less [of i] HEAP_PARENT_less [of c] by auto
    then show "(f(s := f c, c := f s)) (HEAP_PARENT c) \<le> (f(s := f c, c := f s)) i"
      using i c cs edge [of i] by auto
  qed
qed

section \<open>Linking of the two arrays around a hole\<close>

definition slots :: "pj_timer_heap_t \<Rightarrow> nat set \<Rightarrow> nat set" where
  "slots ht I = (\<lambda>i. heap ht ! i) ` I"

definition linked :: "pj_timer_heap_t \<Rightarrow> nat set \<Rightarrow> bool" where
  "linked ht I \<longleftrightarrow>
     (\<forall>i\<in>I. 0 < slot_id ht i \<and> slot_id ht i < int (max_size ht)
            \<and> timer_ids ht ! nat (slot_id ht i) = int i)"

lemma linkedD:
  assumes "linked ht I" "i \<in> I"
  shows "0 < slot_id ht i" "slot_id ht i < int (max_size ht)" "nat (slot_id ht i) < max_size ht"
    "timer_ids ht ! nat (slot_id ht i) = int i"
  using assms by (auto simp: linked_def nat_less_iff)

definition hole :: "pj_timer_heap_t \<Rightarrow> nat \<Rightarrow> nat \<Rightarrow> nat \<Rightarrow> bool" where
  "hole ht n s m \<longleftrightarrow>
     length (heap ht) = max_size ht \<and> length (timer_ids ht) = max_size ht \<and>
     n \<le> max_size ht \<and> s < n \<and> linked ht ({..<n} - {s}) \<and>
     0 < timer_id (nodes ht m) \<and> timer_id (nodes ht m) < int (max_size ht) \<and>
     (\<forall>i\<in>{..<n} - {s}. slot_id ht i \<noteq> timer_id (nodes ht m))"

lemma holeD:
  assumes "hole ht n s m" "i < n" "i \<noteq> s"
  shows "0 < slot_id ht i" "slot_id ht i < int (max_size ht)"
    "nat (slot_id ht i) < length (timer_ids ht)"
    "timer_ids ht ! nat (slot_id ht i) = int i"
    "nat (slot_id ht i) \<noteq> nat (timer_id (nodes ht m))"
proof -
  have i: "i \<in> {..<n} - {s}" using assms by simp
  then show ids: "0 < slot_id ht i" "slot_id ht i < int (max_size ht)"
    "timer_ids ht ! nat (slot_id ht i) = int i"
    using assms(1) by (auto simp only: hole_def linked_def)
  then show "nat (slot_id ht i) < length (timer_ids ht)"
    using assms(1) by (simp add: hole_def)
  show "nat (slot_id ht i) \<noteq> nat (timer_id (nodes ht m))"
  proof -
    have "slot_id ht i \<noteq> timer_id (nodes ht m)" "0 < timer_id (nodes ht m)"
      using assms(1) i unfolding hole_def by blast+
    with ids(1) show ?thesis by (simp add: eq_nat_nat_iff)
  qed
qed

text \<open>What the sift loops leave behind.\<close>

definition sifted :: "pj_timer_heap_t \<Rightarrow> nat \<Rightarrow> nat \<Rightarrow> nat \<Rightarrow> pj_timer_heap_t \<Rightarrow> bool" where
  "sifted ht n s m ht' \<longleftrightarrow>
     ht' = ht\<lparr>heap := heap ht', timer_ids := timer_ids ht'\<rparr> \<and>
     length (heap ht') = length (heap ht) \<and> length (timer_ids ht') = length (timer_ids ht) \<and>
     linked ht' {..<n} \<and> slots ht' {..<n} = insert m (slots ht ({..<n} - {s})) \<and>
     (\<forall>k. k \<noteq> nat (timer_id (nodes ht m)) \<longrightarrow> (\<forall>i\<in>{..<n} - {s}. nat (slot_id ht i) \<noteq> k) \<longrightarrow>
          timer_ids ht' ! k = timer_ids ht ! k)"

lemma hole_move:
  assumes h: "hole ht n s m" and p: "p < n" "p \<noteq> s"
  shows "hole (copy_node ht s (heap ht ! p)) n p m"
    and "slots (copy_node ht s (heap ht ! p)) ({..<n} - {p}) = slots ht ({..<n} - {s})"
proof -
  have s: "s < length (heap ht)" using h by (simp add: hole_def)
  note ids = holeD [OF h]
  have apart: "nat (slot_id ht i) \<noteq> nat (slot_id ht p)" if "i < n" "i \<noteq> s" "i \<noteq> p" for i
    using ids(4) [of i] ids(4) [of p] p that by auto
  have "linked (copy_node ht s (heap ht ! p)) ({..<n} - {p})"
    using p ids ids [of p] apart apart [symmetric] s by (auto simp: linked_def nth_list_update)
  then show "hole (copy_node ht s (heap ht ! p)) n p m"
    using h p s by (auto simp: hole_def nth_list_update)
  show "slots (copy_node ht s (heap ht ! p)) ({..<n} - {p}) = slots ht ({..<n} - {s})"
    using p s h unfolding slots_def hole_def
    by (auto simp: nth_list_update image_iff)
qed

lemma sifted_fill:
  assumes h: "hole ht n s m"
  shows "sifted ht n s m (copy_node ht s m)"
proof -
  have s: "s < length (heap ht)" "nat (timer_id (nodes ht m)) < length (timer_ids ht)"
    using h by (auto simp: hole_def)
  have "linked (copy_node ht s m) {..<n}"
    using h s holeD [OF h] holeD(5) [OF h, symmetric]
    by (auto simp: linked_def nth_list_update hole_def)
  moreover have "slots (copy_node ht s m) {..<n} = insert m (slots ht ({..<n} - {s}))"
    using h s by (auto simp: hole_def slots_def nth_list_update image_iff)
  ultimately show ?thesis
    using s by (auto simp: sifted_def copy_node_def)
qed

lemma sifted_move:
  assumes h: "hole ht n s m" and p: "p < n" "p \<noteq> s"
    and rest: "sifted (copy_node ht s (heap ht ! p)) n p m ht'"
  shows "sifted ht n s m ht'"
proof -
  let ?c = "copy_node ht s (heap ht ! p)"
  have s: "s < length (heap ht)" using h by (simp add: hole_def)
  have frame: "timer_ids ht' ! k = timer_ids ht ! k"
    if k: "k \<noteq> nat (timer_id (nodes ht m))" "\<forall>i\<in>{..<n} - {s}. nat (slot_id ht i) \<noteq> k" for k
  proof -
    have "\<forall>i\<in>{..<n} - {p}. nat (slot_id ?c i) \<noteq> k"
      using k(2) p s by (auto simp: nth_list_update)
    then have "timer_ids ht' ! k = timer_ids ?c ! k"
      using rest k(1) by (auto simp: sifted_def)
    also have "\<dots> = timer_ids ht ! k" using k(2) p by auto
    finally show ?thesis .
  qed
  show ?thesis
    using rest hole_move(2) [OF h p] frame
    by (auto simp: sifted_def copy_node_def)
qed

section \<open>The two sift loops\<close>

lemma hole_value_move:
  assumes h: "hole ht n s m" and p: "p \<noteq> s" and f: "f = (slot_value ht)(s := timer_value (nodes ht m))"
  shows "(slot_value (copy_node ht s (heap ht ! p)))
           (p := timer_value (nodes (copy_node ht s (heap ht ! p)) m)) = f(s := f p, p := f s)"
  using h p by (auto simp: hole_def f fun_eq_iff nth_list_update)

lemma hole_value_fill:
  assumes h: "hole ht n s m"
  shows "slot_value (copy_node ht s m) = (slot_value ht)(s := timer_value (nodes ht m))"
  using h by (auto simp: hole_def fun_eq_iff nth_list_update)

lemma reheap_up_sifted:
  "hole ht n s m \<Longrightarrow> p = HEAP_PARENT s \<Longrightarrow> sifted ht n s m (reheap_up ht m s p)"
proof (induction ht m s p rule: reheap_up.induct)
  case (1 ht m s p)
  show ?case
  proof (cases "0 < s \<and> PJ_TIME_VAL_LT (timer_value (nodes ht m)) (slot_value ht p)")
    case True
    then have p: "p < n" "p \<noteq> s"
      using "1.prems" HEAP_PARENT_less [of s] by (auto simp: hole_def)
    show ?thesis
      using True "1.IH" [OF True hole_move(1) [OF "1.prems"(1) p] refl]
        sifted_move [OF "1.prems"(1) p]
      by (subst reheap_up.simps) simp
  next
    case False
    then show ?thesis
      using sifted_fill [OF "1.prems"(1)] by (subst reheap_up.simps) auto
  qed
qed

lemma reheap_up_ordered:
  "hole ht n s m \<Longrightarrow> p = HEAP_PARENT s \<Longrightarrow>
   up_hole ((slot_value ht)(s := timer_value (nodes ht m))) n s \<Longrightarrow>
   heap_ordered (slot_value (reheap_up ht m s p)) n"
proof (induction ht m s p rule: reheap_up.induct)
  case (1 ht m s p)
  let ?f = "(slot_value ht)(s := timer_value (nodes ht m))"
  have sn: "s < n" using "1.prems"(1) by (simp add: hole_def)
  show ?case
  proof (cases "0 < s \<and> PJ_TIME_VAL_LT (timer_value (nodes ht m)) (slot_value ht p)")
    case True
    then have p: "p < n" "p \<noteq> s"
      using "1.prems"(2) sn HEAP_PARENT_less [of s] by auto
    define f where f: "f = ?f"
    have "up_hole f n s" using "1.prems"(3) by (simp only: f)
    moreover have "f s < f (HEAP_PARENT s)" using True p "1.prems"(2) by (simp add: f)
    ultimately have "up_hole (f(s := f p, p := f s)) n p"
      using up_hole_step [OF _ _ sn] True "1.prems"(2) by simp
    then have "up_hole ((slot_value (copy_node ht s (heap ht ! p)))
        (p := timer_value (nodes (copy_node ht s (heap ht ! p)) m))) n p"
      by (simp only: hole_value_move [OF "1.prems"(1) p(2) f])
    from "1.IH" [OF True hole_move(1) [OF "1.prems"(1) p] refl this] True
    show ?thesis by (simp only: reheap_up.simps [of ht m s p] if_True simp_thms)
  next
    case False
    then have "s = 0 \<or> ?f (HEAP_PARENT s) \<le> ?f s"
      using "1.prems"(2) by (auto simp: not_less)
    then have "heap_ordered ?f n" by (rule up_hole_done [OF "1.prems"(3)])
    moreover have "reheap_up ht m s p = copy_node ht s m"
      using False by (simp only: reheap_up.simps [of ht m s p] if_False)
    ultimately show ?thesis
      by (simp only: hole_value_fill [OF "1.prems"(1)])
  qed
qed

text \<open>The child \<open>reheap_down\<close> compares with: the smaller of the two.\<close>

definition least_child :: "pj_timer_heap_t \<Rightarrow> nat \<Rightarrow> nat" where
  "least_child ht child =
     (if child + 1 < cur_size ht \<and> PJ_TIME_VAL_LT (slot_value ht (child + 1)) (slot_value ht child)
      then child + 1 else child)"

lemma reheap_down_unfold:
  "reheap_down ht m s child =
     (if child < cur_size ht
          \<and> PJ_TIME_VAL_LT (slot_value ht (least_child ht child)) (timer_value (nodes ht m))
      then reheap_down (copy_node ht s (heap ht ! least_child ht child)) m
             (least_child ht child) (HEAP_LEFT (least_child ht child))
      else copy_node ht s m)"
  by (subst reheap_down.simps) (simp add: least_child_def Let_def)

lemma least_child:
  assumes "child < cur_size ht" "child = HEAP_LEFT s"
  shows "least_child ht child < cur_size ht" "s < least_child ht child" "0 < least_child ht child"
    "HEAP_PARENT (least_child ht child) = s"
    "\<And>d. d < cur_size ht \<Longrightarrow> 0 < d \<Longrightarrow> HEAP_PARENT d = s \<Longrightarrow>
       slot_value ht (least_child ht child) \<le> slot_value ht d"
  using assms less_SucI [OF HEAP_LEFT_greater(1) [of s]]
  by (auto simp: least_child_def not_less dest!: children_cases)

lemma least_child_induct [case_names Move Fill]:
  assumes move: "\<And>ht s. HEAP_LEFT s < cur_size ht \<Longrightarrow>
        PJ_TIME_VAL_LT (slot_value ht (least_child ht (HEAP_LEFT s))) (timer_value (nodes ht m)) \<Longrightarrow>
        P (copy_node ht s (heap ht ! least_child ht (HEAP_LEFT s))) (least_child ht (HEAP_LEFT s))
          \<Longrightarrow> P ht s"
    and fill: "\<And>ht s. \<not> (HEAP_LEFT s < cur_size ht \<and>
        PJ_TIME_VAL_LT (slot_value ht (least_child ht (HEAP_LEFT s))) (timer_value (nodes ht m))) \<Longrightarrow> P ht s"
  shows "P ht s"
proof -
  have "\<And>ht s. cur_size ht - s = k \<Longrightarrow> P ht s" for k
  proof (induction k rule: less_induct)
    case (less k)
    show ?case
    proof (cases "HEAP_LEFT s < cur_size ht \<and>
        PJ_TIME_VAL_LT (slot_value ht (least_child ht (HEAP_LEFT s))) (timer_value (nodes ht m))")
      case True
      then have "cur_size ht - least_child ht (HEAP_LEFT s) < k"
        using less.prems least_child(1,2) [of "HEAP_LEFT s" ht s] by simp
      then show ?thesis using move True less.IH by simp
    next
      case False
      then show ?thesis by (rule fill)
    qed
  qed
  then show ?thesis by blast
qed

lemma reheap_down_sifted:
  "hole ht n s m \<Longrightarrow> n = cur_size ht \<Longrightarrow> sifted ht n s m (reheap_down ht m s (HEAP_LEFT s))"
proof (induction ht s rule: least_child_induct [where m = m])
  case (Move ht s)
  note c = least_child [OF Move.hyps(1) refl]
  have "least_child ht (HEAP_LEFT s) \<noteq> s" using c(2) by simp
  then show ?case
    using Move c(1) hole_move(1) [OF Move.prems(1)] sifted_move [OF Move.prems(1)]
    by (subst reheap_down_unfold) simp
next
  case (Fill ht s)
  then show ?case using sifted_fill by (subst reheap_down_unfold) auto
qed

lemma reheap_down_ordered:
  "hole ht n s m \<Longrightarrow> n = cur_size ht \<Longrightarrow>
   down_hole ((slot_value ht)(s := timer_value (nodes ht m))) n s \<Longrightarrow>
   heap_ordered (slot_value (reheap_down ht m s (HEAP_LEFT s))) n"
proof (induction ht s rule: least_child_induct [where m = m])
  case (Move ht s)
  let ?c = "least_child ht (HEAP_LEFT s)"
  let ?f = "(slot_value ht)(s := timer_value (nodes ht m))"
  note c = least_child [OF Move.hyps(1) refl]
  have ne: "?c \<noteq> s" using c(2) by simp
  have "down_hole (?f(s := ?f ?c, ?c := ?f s)) n ?c"
  proof (rule down_hole_step [OF Move.prems(3)])
    show "?f ?c < ?f s" using Move.hyps(2) ne by simp
    show "?f ?c \<le> ?f d" if "d < n" "0 < d" "HEAP_PARENT d = s" for d
    proof -
      have "d \<noteq> s" using that HEAP_PARENT_neq [of d] by metis
      then show ?thesis using c(5) [of d] that ne Move.prems(2) by simp
    qed
  qed (use c Move.prems(2) in simp_all)
  then have "down_hole ((slot_value (copy_node ht s (heap ht ! ?c)))
      (?c := timer_value (nodes (copy_node ht s (heap ht ! ?c)) m))) n ?c"
    by (simp only: hole_value_move [OF Move.prems(1) ne refl])
  moreover have "hole (copy_node ht s (heap ht ! ?c)) n ?c m"
    using hole_move(1) [OF Move.prems(1) _ ne] c(1) Move.prems(2) by simp
  moreover have "n = cur_size (copy_node ht s (heap ht ! ?c))"
    using Move.prems(2) by simp
  ultimately have "heap_ordered (slot_value (reheap_down (copy_node ht s (heap ht ! ?c)) m ?c
      (HEAP_LEFT ?c))) n"
    by (intro Move.IH)
  then show ?case
    using Move.hyps by (simp only: reheap_down_unfold [of ht m s] if_True simp_thms)
next
  case (Fill ht s)
  let ?f = "(slot_value ht)(s := timer_value (nodes ht m))"
  have "heap_ordered ?f n"
  proof (rule down_hole_done [OF Fill.prems(3)])
    show "HEAP_LEFT s < n \<longrightarrow> ?f s \<le> ?f (HEAP_LEFT s)"
      using Fill.hyps Fill.prems(2) HEAP_LEFT_greater(1) [of s]
      by (auto simp: least_child_def not_less split: if_splits)
    show "Suc (HEAP_LEFT s) < n \<longrightarrow> ?f s \<le> ?f (Suc (HEAP_LEFT s))"
      using Fill.hyps Fill.prems(2) less_SucI [OF HEAP_LEFT_greater(1) [of s]]
      by (auto simp: least_child_def not_less split: if_splits)
  qed
  moreover have "reheap_down ht m s (HEAP_LEFT s) = copy_node ht s m"
    using Fill.hyps by (simp only: reheap_down_unfold [of ht m s] if_False)
  ultimately show ?case
    by (simp only: hole_value_fill [OF Fill.prems(1)])
qed

section \<open>The invariant\<close>

text \<open>
  \<open>free_chain ids f xs e\<close>: following the negated links from \<open>f\<close> visits \<open>xs\<close> and arrives at \<open>e\<close>.
\<close>

fun free_chain :: "int list \<Rightarrow> int \<Rightarrow> int list \<Rightarrow> int \<Rightarrow> bool" where
  "free_chain ids f [] e = (f = e)"
| "free_chain ids f (x # xs) e = (f = x \<and> free_chain ids (- (ids ! nat x)) xs e)"

definition used_ids :: "pj_timer_heap_t \<Rightarrow> int set" where
  "used_ids ht = (\<lambda>i. slot_id ht i) ` {..<cur_size ht}"

definition free_list :: "pj_timer_heap_t \<Rightarrow> int list \<Rightarrow> bool" where
  "free_list ht fl \<longleftrightarrow>
     free_chain (timer_ids ht) (timer_ids_freelist ht) fl (int (max_size ht)) \<and>
     distinct fl \<and> set fl = {1..<int (max_size ht)} - used_ids ht"

text \<open>An entry is pending exactly when its id is positive; id 0 is never handed out.\<close>

definition pending :: "pj_timer_heap_t \<Rightarrow> nat \<Rightarrow> bool" where
  "pending ht e \<longleftrightarrow> 0 < timer_id (nodes ht e)"

definition th_inv :: "pj_timer_heap_t \<Rightarrow> bool" where
  "th_inv ht \<longleftrightarrow>
     length (heap ht) = max_size ht \<and> length (timer_ids ht) = max_size ht \<and>
     cur_size ht + 1 < max_size ht \<and> timer_ids ht ! 0 < 0 \<and>
     linked ht {..<cur_size ht} \<and> {e. pending ht e} = slots ht {..<cur_size ht} \<and>
     heap_ordered (slot_value ht) (cur_size ht) \<and> (\<exists>fl. free_list ht fl)"

text \<open>The abstract heap: which entries are pending, and when they expire.\<close>

definition th_view :: "pj_timer_heap_t \<Rightarrow> nat \<Rightarrow> pj_time_val option" where
  "th_view ht e = (if pending ht e then Some (timer_value (nodes ht e)) else None)"

lemma th_view_simps [simp]:
  "th_view ht e = None \<longleftrightarrow> \<not> pending ht e"
  "(\<exists>t. th_view ht e = Some t) \<longleftrightarrow> pending ht e"
  by (simp_all add: th_view_def)

lemma free_chain_cong:
  "(\<And>x. x \<in> set xs \<Longrightarrow> ids ! nat x = ids' ! nat x) \<Longrightarrow>
   free_chain ids f xs e = free_chain ids' f xs e"
  by (induction xs arbitrary: f) auto

lemma free_chain_append:
  "free_chain ids f (xs @ ys) e \<longleftrightarrow> (\<exists>m. free_chain ids f xs m \<and> free_chain ids m ys e)"
  by (induction xs arbitrary: f) auto

lemma free_chain_upto:
  "(\<And>i. m \<le> i \<Longrightarrow> i < n \<Longrightarrow> ids ! i = - (int i + 1)) \<Longrightarrow> m \<le> n \<Longrightarrow>
   free_chain ids (int m) (map int [m..<n]) (int n)"
proof (induction "n - m" arbitrary: m)
  case 0
  then show ?case by simp
next
  case (Suc k)
  then have "m < n" by simp
  then have split: "[m..<n] = m # [Suc m..<n]" by (rule upt_conv_Cons)
  have "free_chain ids (int (Suc m)) (map int [Suc m..<n]) (int n)"
    using Suc by (intro Suc.hyps(1)) auto
  then show ?case using Suc.prems(1) [of m] \<open>m < n\<close> by (simp add: split add.commute)
qed

section \<open>Creation and growth\<close>

lemma free_list_create:
  "free_list (pj_timer_heap_create mem n) (map int [1..<n + 2])"
proof -
  let ?ht = "pj_timer_heap_create mem n"
  have "free_chain (timer_ids ?ht) (int 1) (map int [1..<n + 2]) (int (n + 2))"
    by (rule free_chain_upto)
      (auto simp: pj_timer_heap_create_def Let_def simp del: upt_Suc replicate.simps)
  moreover have "set (map int [1..<n + 2]) = {1..<int (n + 2)}"
    by (simp add: image_int_atLeastLessThan del: upt_Suc)
  ultimately show ?thesis
    by (auto simp: free_list_def used_ids_def pj_timer_heap_create_def Let_def distinct_map
        simp del: upt_Suc)
qed

lemma th_inv_create:
  assumes "\<And>e. timer_id (mem e) < 1"
  shows "th_inv (pj_timer_heap_create mem n)"
proof -
  let ?ht = "pj_timer_heap_create mem n"
  have "timer_ids ?ht ! 0 < 0"
    by (simp add: pj_timer_heap_create_def Let_def upt_rec)
  moreover have "{e. pending ?ht e} = {}"
    using assms by (auto simp: pending_def pj_timer_heap_create_def Let_def not_less)
      (metis not_less zle_add1_eq_le add.left_neutral)
  ultimately show ?thesis
    using free_list_create [of mem n]
    by (auto simp: th_inv_def linked_def slots_def heap_ordered_def pj_timer_heap_create_def Let_def)
qed

end
