(* ===== verification/Timer_Heap_Ops.thy ===== *)
theory Timer_Heap_Ops
  imports Timer_Heap_Inv
begin

text \<open>
  What the operations of the timer heap do to the abstract map \<open>th_view\<close> of pending entries, and
  that they keep \<open>th_inv\<close>; the interface \<open>timer_service\<close> the SIP transactions rely on, and its
  interpretation on this heap.
\<close>

section \<open>Growth\<close>

definition room :: "pj_timer_heap_t \<Rightarrow> pj_timer_heap_t" where
  "room ht = (if cur_size ht + 2 \<ge> max_size ht then grow_heap ht else ht)"

lemma room_simps [simp]:
  "cur_size (room ht) = cur_size ht" "nodes (room ht) = nodes ht"
  "timer_ids_freelist (room ht) = timer_ids_freelist ht"
  "max_entries_per_poll (room ht) = max_entries_per_poll ht"
  "heap_lock (room ht) = heap_lock ht" "auto_delete_lock (room ht) = auto_delete_lock ht"
  by (simp_all add: room_def grow_heap_def Let_def)

lemma room_arrays:
  assumes "length (heap ht) = max_size ht" "length (timer_ids ht) = max_size ht"
    "cur_size ht + 1 < max_size ht"
  shows "length (heap (room ht)) = max_size (room ht)"
    "length (timer_ids (room ht)) = max_size (room ht)"
    "cur_size ht + 2 < max_size (room ht)" "max_size ht \<le> max_size (room ht)"
    "i < max_size ht \<Longrightarrow> heap (room ht) ! i = heap ht ! i"
    "i < max_size ht \<Longrightarrow> timer_ids (room ht) ! i = timer_ids ht ! i"
    "max_size ht \<le> i \<Longrightarrow> i < max_size (room ht) \<Longrightarrow> timer_ids (room ht) ! i = - (int i + 1)"
  using assms by (auto simp: room_def grow_heap_def Let_def nth_append not_le)

lemma room_chain:
  assumes arrays: "length (heap ht) = max_size ht" "length (timer_ids ht) = max_size ht"
      "cur_size ht + 1 < max_size ht"
    and chain: "free_chain (timer_ids ht) f fl (int (max_size ht))"
    and range: "set fl \<subseteq> {1..<int (max_size ht)}"
  shows "free_chain (timer_ids (room ht)) f (fl @ map int [max_size ht..<max_size (room ht)])
           (int (max_size (room ht)))"
proof -
  note room = room_arrays [OF arrays]
  have "free_chain (timer_ids (room ht)) f fl (int (max_size ht))"
    using chain range room(6)
    by (subst free_chain_cong [where ids' = "timer_ids ht"]) (auto simp: nat_less_iff)
  moreover have "free_chain (timer_ids (room ht)) (int (max_size ht))
      (map int [max_size ht..<max_size (room ht)]) (int (max_size (room ht)))"
    using room(4,7) by (intro free_chain_upto) auto
  ultimately show ?thesis by (auto simp: free_chain_append)
qed

section \<open>Insertion\<close>

text \<open>The state between taking an id for \<open>e\<close> and linking it: everything but the slot is in place.\<close>

definition insertable :: "pj_timer_heap_t \<Rightarrow> nat \<Rightarrow> int list \<Rightarrow> bool" where
  "insertable ht e fl \<longleftrightarrow>
     length (heap ht) = max_size ht \<and> length (timer_ids ht) = max_size ht \<and>
     cur_size ht + 1 < max_size ht \<and> timer_ids ht ! 0 < 0 \<and>
     linked ht {..<cur_size ht} \<and> heap_ordered (slot_value ht) (cur_size ht) \<and>
     {x. pending ht x} = insert e (slots ht {..<cur_size ht}) \<and>
     0 < timer_id (nodes ht e) \<and> timer_id (nodes ht e) < int (max_size ht) \<and>
     timer_id (nodes ht e) \<notin> used_ids ht \<and>
     free_chain (timer_ids ht) (timer_ids_freelist ht) fl (int (max_size ht)) \<and> distinct fl \<and>
     set fl = {1..<int (max_size ht)} - insert (timer_id (nodes ht e)) (used_ids ht)"

lemma used_ids_slots: "used_ids ht = (\<lambda>x. timer_id (nodes ht x)) ` slots ht {..<cur_size ht}"
  by (auto simp: used_ids_def slots_def image_iff)

lemma insertable_room:
  assumes ins: "insertable ht e fl"
  shows "insertable (room ht) e (fl @ map int [max_size ht..<max_size (room ht)])"
proof -
  have arrays: "length (heap ht) = max_size ht" "length (timer_ids ht) = max_size ht"
    "cur_size ht + 1 < max_size ht"
    using ins by (simp_all add: insertable_def)
  note room = room_arrays [OF arrays]
  have same: "\<And>i. i < cur_size ht \<Longrightarrow> heap (room ht) ! i = heap ht ! i"
    using room(5) arrays(3) by simp
  have slots: "slots (room ht) {..<cur_size ht} = slots ht {..<cur_size ht}"
    using same by (auto simp: slots_def)
  have used: "used_ids (room ht) = used_ids ht"
    by (simp add: used_ids_slots slots)
  have "0 < slot_id ht i \<and> slot_id ht i < int (max_size ht)" if "i < cur_size ht" for i
    using ins that by (simp add: insertable_def linked_def)
  then have below: "used_ids ht \<subseteq> {1..<int (max_size ht)}"
    by (auto simp: used_ids_def int_one_le_iff_zero_less)
  have chain: "free_chain (timer_ids (room ht)) (timer_ids_freelist ht)
      (fl @ map int [max_size ht..<max_size (room ht)]) (int (max_size (room ht)))"
    using ins by (intro room_chain [OF arrays]) (auto simp: insertable_def)
  have old: "linked ht {..<cur_size ht}" using ins by (simp add: insertable_def)
  have linked: "linked (room ht) {..<cur_size ht}"
  proof -
    have "slot_id ht i < int (max_size (room ht))" if "i < cur_size ht" for i
      using linkedD(2) [OF old, of i] room(4) that by simp
    then show ?thesis
      unfolding linked_def using linkedD [OF old] same room(6) by auto
  qed
  have ordered: "heap_ordered (slot_value (room ht)) (cur_size ht)"
    using ins same by (auto simp: insertable_def heap_ordered_def)
  have zero: "timer_ids (room ht) ! 0 < 0"
    using ins room(6) [of 0] arrays(3) by (simp add: insertable_def)
  have pend: "{x. pending (room ht) x} = insert e (slots ht {..<cur_size ht})"
    using ins by (simp add: insertable_def pending_def)
  have set: "set (fl @ map int [max_size ht..<max_size (room ht)]) =
      {1..<int (max_size (room ht))} - insert (timer_id (nodes ht e)) (used_ids ht)"
    using ins room(4) below arrays(3)
    by (auto simp: insertable_def image_int_atLeastLessThan)
  have dist: "distinct (fl @ map int [max_size ht..<max_size (room ht)])"
    using ins by (auto simp: insertable_def distinct_map)
  show ?thesis
    using ins room chain linked ordered zero pend set dist slots used
    unfolding insertable_def by auto
qed

lemma insertable_hole:
  assumes ins: "insertable ht e fl"
  shows "hole ht (cur_size ht + 1) (cur_size ht) e"
    and "up_hole ((slot_value ht)(cur_size ht := timer_value (nodes ht e))) (cur_size ht + 1)
           (cur_size ht)"
proof -
  have less: "i < cur_size ht" if "i \<in> {..<cur_size ht + 1} - {cur_size ht}" for i
    using that by auto
  have "timer_id (nodes ht e) \<notin> used_ids ht" using ins by (simp add: insertable_def)
  then have apart: "slot_id ht i \<noteq> timer_id (nodes ht e)" if "i < cur_size ht" for i
    using that by (metis used_ids_def imageI lessThan_iff)
  have "linked ht {..<cur_size ht}" using ins by (simp add: insertable_def)
  then have "linked ht ({..<cur_size ht + 1} - {cur_size ht})"
    using less by (simp add: linked_def)
  then show "hole ht (cur_size ht + 1) (cur_size ht) e"
    using ins less apart by (simp add: insertable_def hole_def)
  have "HEAP_PARENT i \<noteq> cur_size ht" if "0 < i" "i < cur_size ht + 1" for i
    using HEAP_PARENT_less [of i] that by linarith
  moreover have "HEAP_PARENT i < cur_size ht" if "i < cur_size ht" for i
    using HEAP_PARENT_le [of i] that by linarith
  ultimately show "up_hole ((slot_value ht)(cur_size ht := timer_value (nodes ht e)))
      (cur_size ht + 1) (cur_size ht)"
    using ins by (auto simp: insertable_def up_hole_def heap_ordered_def less_Suc_eq)
qed

lemma insert_node_room:
  "insert_node ht e =
     (let ht' = reheap_up (room ht) e (cur_size ht) (HEAP_PARENT (cur_size ht))
      in ht'\<lparr>cur_size := cur_size ht' + 1\<rparr>)"
  by (simp add: insert_node_def room_def Let_def) (simp add: grow_heap_def Let_def)

lemma sifted_simps:
  assumes "sifted ht n s m ht'"
  shows "max_size ht' = max_size ht" "cur_size ht' = cur_size ht" "nodes ht' = nodes ht"
    "max_entries_per_poll ht' = max_entries_per_poll ht"
    "timer_ids_freelist ht' = timer_ids_freelist ht"
    "heap_lock ht' = heap_lock ht" "auto_delete_lock ht' = auto_delete_lock ht"
    "length (heap ht') = length (heap ht)" "length (timer_ids ht') = length (timer_ids ht)"
    "linked ht' {..<n}" "slots ht' {..<n} = insert m (slots ht ({..<n} - {s}))"
proof -
  have eq: "ht' = ht\<lparr>heap := heap ht', timer_ids := timer_ids ht'\<rparr>"
    using assms by (simp add: sifted_def)
  show "max_size ht' = max_size ht" "cur_size ht' = cur_size ht" "nodes ht' = nodes ht"
    "max_entries_per_poll ht' = max_entries_per_poll ht"
    "timer_ids_freelist ht' = timer_ids_freelist ht"
    "heap_lock ht' = heap_lock ht" "auto_delete_lock ht' = auto_delete_lock ht"
    by (subst eq, simp)+
qed (use assms in \<open>simp_all add: sifted_def\<close>)

text \<open>The ids outside those in use, 0 and the free list among them, keep their links.\<close>

lemma sifted_frame:
  assumes "sifted ht n s m ht'"
    and "k \<noteq> nat (timer_id (nodes ht m))"
    and "\<And>x. x \<in> slots ht ({..<n} - {s}) \<Longrightarrow> nat (timer_id (nodes ht x)) \<noteq> k"
  shows "timer_ids ht' ! k = timer_ids ht ! k"
  using assms unfolding sifted_def slots_def by blast

lemma sifted_inv:
  assumes hole: "hole ht n s m" and sift: "sifted ht n s m ht'"
    and ordered: "heap_ordered (slot_value ht') n"
    and size: "n + 1 < max_size ht" and zero: "timer_ids ht ! 0 < 0"
    and pend: "{x. pending ht x} = insert m (slots ht ({..<n} - {s}))"
    and fl: "free_chain (timer_ids ht) (timer_ids_freelist ht) fl (int (max_size ht))" "distinct fl"
      "set fl = {1..<int (max_size ht)} -
         (\<lambda>x. timer_id (nodes ht x)) ` insert m (slots ht ({..<n} - {s}))"
  shows "th_inv (ht'\<lparr>cur_size := n\<rparr>)"
proof -
  note [simp] = sifted_simps [OF sift]
  let ?in = "insert m (slots ht ({..<n} - {s}))"
  have pos: "0 < timer_id (nodes ht x)" if "x \<in> ?in" for x
    using that pend by (auto simp: pending_def)
  have frame: "timer_ids ht' ! k = timer_ids ht ! k"
    if "\<And>x. x \<in> ?in \<Longrightarrow> nat (timer_id (nodes ht x)) \<noteq> k" for k
    using sifted_frame [OF sift, of k] that by auto
  have "timer_ids ht' ! 0 = timer_ids ht ! 0"
    using pos by (intro frame) fastforce
  moreover have "timer_ids ht' ! nat x = timer_ids ht ! nat x" if "x \<in> set fl" for x
    using that fl(3) pos by (intro frame) (auto simp: eq_nat_nat_iff less_imp_le)
  then have "free_chain (timer_ids ht') (timer_ids_freelist ht) fl (int (max_size ht))"
    using fl(1) by (subst free_chain_cong [where ids' = "timer_ids ht"]) auto
  moreover have "used_ids (ht'\<lparr>cur_size := n\<rparr>) = (\<lambda>x. timer_id (nodes ht x)) ` ?in"
    using sifted_simps(11) [OF sift] by (simp add: used_ids_slots slots_def image_image)
  ultimately have "free_list (ht'\<lparr>cur_size := n\<rparr>) fl"
    using fl by (simp add: free_list_def)
  then have "\<exists>fl. free_list (ht'\<lparr>cur_size := n\<rparr>) fl" by blast
  moreover have "slots (ht'\<lparr>cur_size := n\<rparr>) {..<n} = ?in"
    using sifted_simps(11) [OF sift] by (simp add: slots_def)
  moreover have "linked (ht'\<lparr>cur_size := n\<rparr>) {..<n}"
    using sifted_simps(10) [OF sift] by (simp add: linked_def)
  ultimately show ?thesis
    using hole size zero ordered pend \<open>timer_ids ht' ! 0 = timer_ids ht ! 0\<close>
    by (auto simp: th_inv_def hole_def pending_def)
qed

lemma insert_node_inv:
  assumes ins: "insertable ht e fl"
  shows "th_inv (insert_node ht e)" "nodes (insert_node ht e) = nodes ht"
    "max_entries_per_poll (insert_node ht e) = max_entries_per_poll ht"
    "cur_size (insert_node ht e) = cur_size ht + 1"
proof -
  let ?r = "room ht"
  let ?n = "cur_size ?r"
  define fl' where "fl' = fl @ map int [max_size ht..<max_size ?r]"
  define ht' where "ht' = reheap_up ?r e ?n (HEAP_PARENT ?n)"
  have ready: "insertable ?r e fl'" unfolding fl'_def by (rule insertable_room [OF ins])
  note hole = insertable_hole [OF ready]
  have sift: "sifted ?r (?n + 1) ?n e ht'"
    unfolding ht'_def by (rule reheap_up_sifted [OF hole(1) refl])
  have "heap_ordered (slot_value ht') (?n + 1)"
    unfolding ht'_def by (rule reheap_up_ordered [OF hole(1) refl hole(2)])
  moreover have "?n + 2 < max_size ?r"
    using ins room_arrays(3) [of ht] by (simp add: insertable_def)
  ultimately have "th_inv (ht'\<lparr>cur_size := ?n + 1\<rparr>)"
    using ready unfolding insertable_def
    by (intro sifted_inv [OF hole(1) sift, where fl = fl'])
      (simp_all add: used_ids_slots del: room_simps)
  then show "th_inv (insert_node ht e)" "nodes (insert_node ht e) = nodes ht"
    "max_entries_per_poll (insert_node ht e) = max_entries_per_poll ht"
    "cur_size (insert_node ht e) = cur_size ht + 1"
    using sifted_simps [OF sift]
    by (simp_all add: insert_node_room Let_def ht'_def)
qed

section \<open>Scheduling\<close>

lemma free_list_nonempty:
  assumes inv: "th_inv ht" and fl: "free_list ht fl"
  shows "fl \<noteq> []"
proof
  assume "fl = []"
  then have "{1..<int (max_size ht)} \<subseteq> used_ids ht" using fl by (auto simp: free_list_def)
  then have "card {1..<int (max_size ht)} \<le> card (used_ids ht)"
    by (intro card_mono) (auto simp: used_ids_def)
  also have "\<dots> \<le> cur_size ht"
    using card_image_le [of "{..<cur_size ht}" "slot_id ht"] by (simp add: used_ids_def)
  finally show False using inv by (auto simp: th_inv_def)
qed

lemma free_list_head:
  assumes "free_list ht (x # fl)"
  shows "timer_ids_freelist ht = x" "0 < x" "x < int (max_size ht)" "x \<notin> used_ids ht"
proof -
  have "x \<in> {1..<int (max_size ht)} - used_ids ht"
    using assms list.set_intros(1) [of x fl] unfolding free_list_def by metis
  then show "0 < x" "x < int (max_size ht)" "x \<notin> used_ids ht" by auto
  show "timer_ids_freelist ht = x" using assms by (simp add: free_list_def)
qed

lemma schedule_insertable:
  assumes inv: "th_inv ht" and fresh: "\<not> pending ht e" and fl: "free_list ht (x # fl)"
  shows "insertable (ht\<lparr>timer_ids_freelist := - (timer_ids ht ! nat (timer_ids_freelist ht)),
           nodes := (nodes ht)(e := (nodes ht e)\<lparr>timer_id := timer_ids_freelist ht,
                                                timer_value := t\<rparr>)\<rparr>) e fl"
    (is "insertable ?ht e fl")
proof -
  note x = free_list_head [OF fl]
  have old: "{a. pending ht a} = slots ht {..<cur_size ht}" "linked ht {..<cur_size ht}"
    using inv by (simp_all add: th_inv_def)
  then have "e \<notin> slots ht {..<cur_size ht}" using fresh by auto
  then have other: "heap ht ! i \<noteq> e" if "i < cur_size ht" for i
    using that by (auto simp: slots_def)
  then have "linked ?ht {..<cur_size ht}"
    using old(2) by (simp add: linked_def)
  moreover have "used_ids ?ht = used_ids ht"
    using other by (auto simp: used_ids_def)
  moreover have "heap_ordered (slot_value ?ht) (cur_size ht)"
    using inv other by (auto simp: th_inv_def heap_ordered_def)
  moreover have "{a. pending ?ht a} = insert e (slots ?ht {..<cur_size ht})"
    using old(1) x by (auto simp: pending_def slots_def)
  ultimately show ?thesis
    using inv fl x by (auto simp: insertable_def th_inv_def free_list_def)
qed

text \<open>The new content of an entry's struct after scheduling: only id and time change.\<close>

lemma schedule_entry_inv:
  assumes inv: "th_inv ht" and fresh: "\<not> pending ht e"
  shows "snd (schedule_entry ht e t) = 0" "th_inv (fst (schedule_entry ht e t))"
    "cur_size (fst (schedule_entry ht e t)) = cur_size ht + 1"
    "max_entries_per_poll (fst (schedule_entry ht e t)) = max_entries_per_poll ht"
    "\<exists>i>0. nodes (fst (schedule_entry ht e t)) =
       (nodes ht)(e := (nodes ht e)\<lparr>timer_id := i, timer_value := t\<rparr>)"
proof -
  obtain fl where fl: "free_list ht fl" using inv by (auto simp: th_inv_def)
  with free_list_nonempty [OF inv] obtain x fl' where xfl: "free_list ht (x # fl')"
    by (metis neq_Nil_conv)
  then have x: "0 < timer_ids_freelist ht" using free_list_head [OF xfl] by simp
  have "cur_size ht < max_size ht" using inv by (simp add: th_inv_def)
  then have eq: "schedule_entry ht e t =
      (insert_node (ht\<lparr>timer_ids_freelist := - (timer_ids ht ! nat (timer_ids_freelist ht)),
           nodes := (nodes ht)(e := (nodes ht e)\<lparr>timer_id := timer_ids_freelist ht,
                                                timer_value := t\<rparr>)\<rparr>) e, 0)"
    by (simp add: schedule_entry_def pop_freelist_def Let_def)
  note ins = insert_node_inv [OF schedule_insertable [OF inv fresh xfl]]
  show "snd (schedule_entry ht e t) = 0" "th_inv (fst (schedule_entry ht e t))"
    "cur_size (fst (schedule_entry ht e t)) = cur_size ht + 1"
    "max_entries_per_poll (fst (schedule_entry ht e t)) = max_entries_per_poll ht"
    "\<exists>i>0. nodes (fst (schedule_entry ht e t)) =
       (nodes ht)(e := (nodes ht e)\<lparr>timer_id := i, timer_value := t\<rparr>)"
    using x by (auto simp: eq ins)
qed

section \<open>Removal\<close>

text \<open>
  The state of \<^verbatim>\<open>remove_node\<close> once the id is back on the free list, the size is reduced and the
  id of the removed entry is cleared.
\<close>

definition unlinked :: "pj_timer_heap_t \<Rightarrow> nat \<Rightarrow> pj_timer_heap_t" where
  "unlinked ht slot =
     (let r = heap ht ! slot; ht = push_freelist ht (timer_id (nodes ht r))
      in ht\<lparr>cur_size := cur_size ht - 1,
            nodes := (nodes ht)(r := (nodes ht r)\<lparr>timer_id := -1\<rparr>)\<rparr>)"

lemma remove_node_unlinked:
  "remove_node ht slot =
     (let u = unlinked ht slot
      in if slot < cur_size u then
           let m = heap u ! cur_size u; c = copy_node u slot m
           in if PJ_TIME_VAL_GTE (timer_value (nodes c m)) (slot_value c (HEAP_PARENT slot))
              then (reheap_down c m slot (HEAP_LEFT slot), heap ht ! slot)
              else (reheap_up c m slot (HEAP_PARENT slot), heap ht ! slot)
         else (u, heap ht ! slot))"
  by (simp add: remove_node_def unlinked_def push_freelist_def Let_def)

lemma unlinked_simps [simp]:
  "cur_size (unlinked ht slot) = cur_size ht - 1" "max_size (unlinked ht slot) = max_size ht"
  "heap (unlinked ht slot) = heap ht"
  "length (timer_ids (unlinked ht slot)) = length (timer_ids ht)"
  "timer_value (nodes (unlinked ht slot) x) = timer_value (nodes ht x)"
  "max_entries_per_poll (unlinked ht slot) = max_entries_per_poll ht"
  "nodes (unlinked ht slot) =
     (nodes ht)(heap ht ! slot := (nodes ht (heap ht ! slot))\<lparr>timer_id := -1\<rparr>)"
  "timer_ids_freelist (unlinked ht slot) = slot_id ht slot"
  "timer_ids (unlinked ht slot) =
     (timer_ids ht)[nat (slot_id ht slot) := - timer_ids_freelist ht]"
  by (simp_all add: unlinked_def push_freelist_def Let_def)

lemma linked_inj: "linked ht I \<Longrightarrow> inj_on (\<lambda>i. heap ht ! i) I"
  by (rule inj_onI) (metis linkedD(4) of_nat_eq_iff)

text \<open>Everything but the freed slot is still in place.\<close>

lemma unlinked_inv:
  assumes inv: "th_inv ht" and slot: "slot < cur_size ht"
  defines "I \<equiv> {..<cur_size ht} - {slot}" and "u \<equiv> unlinked ht slot"
  shows "timer_ids u ! 0 < 0" "linked u I" "{x. pending u x} = slots u I"
    "\<exists>fl. free_chain (timer_ids u) (timer_ids_freelist u) fl (int (max_size u)) \<and> distinct fl \<and>
       set fl = {1..<int (max_size u)} - (\<lambda>x. timer_id (nodes u x)) ` slots u I"
proof -
  have linked: "linked ht {..<cur_size ht}" and lens: "length (timer_ids ht) = max_size ht"
    and zero: "timer_ids ht ! 0 < 0" and pend: "{e. pending ht e} = slots ht {..<cur_size ht}"
    using inv by (simp_all add: th_inv_def)
  let ?r = "heap ht ! slot" let ?id = "slot_id ht slot"
  have r: "0 < ?id" "?id < int (max_size ht)" "nat ?id < max_size ht"
    "timer_ids ht ! nat ?id = int slot"
    using linkedD [OF linked, of slot] slot by auto
  have other: "heap ht ! i \<noteq> ?r" if "i \<in> I" for i
    using inj_onD [OF linked_inj [OF linked], of i slot] that slot by (auto simp: I_def)
  have other_id: "nat (slot_id ht i) \<noteq> nat ?id" "slot_id ht i \<noteq> ?id" if "i \<in> I" for i
    using linkedD(4) [OF linked, of i] r(4) that by (auto simp: I_def)
  show "timer_ids u ! 0 < 0" using zero r by (simp add: u_def nth_list_update)
  show "linked u I"
    unfolding linked_def using linkedD [OF linked] other other_id(1) [symmetric]
    by (auto simp: u_def I_def)
  have "slots ht {..<cur_size ht} = insert ?r (slots ht I)"
    using slot by (auto simp: slots_def I_def)
  moreover have "?r \<notin> slots ht I" using other [symmetric] by (auto simp: slots_def)
  moreover have "{x. pending u x} = {x. pending ht x} - {?r}"
    by (auto simp: pending_def u_def)
  moreover have "slots u I = slots ht I" by (simp add: slots_def u_def)
  ultimately show "{x. pending u x} = slots u I"
    using pend by auto
  have used: "used_ids ht = insert ?id ((\<lambda>x. timer_id (nodes u x)) ` slots u I)"
    using slot other by (auto simp: used_ids_def slots_def u_def I_def image_iff)
  have not_in: "?id \<notin> (\<lambda>x. timer_id (nodes u x)) ` slots u I"
  proof
    assume "?id \<in> (\<lambda>x. timer_id (nodes u x)) ` slots u I"
    then obtain i where i: "i \<in> I" "?id = timer_id (nodes u (heap ht ! i))"
      by (auto simp: slots_def u_def)
    then have "?id = slot_id ht i" using other [OF i(1)] by (simp add: u_def)
    then show False using other_id(2) [OF i(1)] by simp
  qed
  obtain fl where fl: "free_list ht fl" using inv by (auto simp: th_inv_def)
  then have chain: "free_chain (timer_ids ht) (timer_ids_freelist ht) fl (int (max_size ht))"
    and fresh: "set fl = {1..<int (max_size ht)} - used_ids ht" and "distinct fl"
    by (simp_all add: free_list_def)
  have "timer_ids u ! nat x = timer_ids ht ! nat x" if "x \<in> set fl" for x
    using that fresh used r by (auto simp: u_def nth_list_update eq_nat_nat_iff)
  then have "free_chain (timer_ids u) (timer_ids_freelist ht) fl (int (max_size u))"
    using chain by (subst free_chain_cong [where ids' = "timer_ids ht"]) (auto simp: u_def)
  then have "free_chain (timer_ids u) (timer_ids_freelist u) (?id # fl) (int (max_size u))"
    using r lens by (simp add: u_def)
  moreover have "distinct (?id # fl)" using \<open>distinct fl\<close> fresh used by simp
  moreover have "set (?id # fl) = {1..<int (max_size u)} - (\<lambda>x. timer_id (nodes u x)) ` slots u I"
    using fresh used not_in r by (auto simp: u_def)
  ultimately show "\<exists>fl. free_chain (timer_ids u) (timer_ids_freelist u) fl (int (max_size u)) \<and>
      distinct fl \<and>
      set fl = {1..<int (max_size u)} - (\<lambda>x. timer_id (nodes u x)) ` slots u I"
    by blast
qed

text \<open>Filling the freed slot with the last entry leaves a hole the sift loops can close.\<close>

lemma refill_hole:
  assumes inv: "th_inv ht" and slot: "slot < cur_size ht - 1"
  defines "n \<equiv> cur_size ht - 1"
  defines "u \<equiv> unlinked ht slot" and "m \<equiv> heap ht ! n"
  defines "c \<equiv> copy_node u slot m"
  shows "hole c n slot m" "insert m (slots c ({..<n} - {slot})) = slots u ({..<cur_size ht} - {slot})"
    "timer_ids c ! 0 < 0" "{x. pending c x} = insert m (slots c ({..<n} - {slot}))"
    "\<exists>fl. free_chain (timer_ids c) (timer_ids_freelist c) fl (int (max_size c)) \<and> distinct fl \<and>
       set fl = {1..<int (max_size c)} -
         (\<lambda>x. timer_id (nodes c x)) ` insert m (slots c ({..<n} - {slot}))"
proof -
  have lens: "length (heap ht) = max_size ht" "length (timer_ids ht) = max_size ht"
    "cur_size ht < max_size ht"
    using inv by (simp_all add: th_inv_def)
  have slot': "slot < cur_size ht" "slot < n" "n < cur_size ht" "cur_size ht = Suc n"
    using slot by (auto simp: n_def)
  note u = unlinked_inv [OF inv slot'(1), folded u_def]
  have lens_u [simp]: "max_size u = max_size ht" "heap u = heap ht" "length (timer_ids u) = max_size ht"
    using lens by (simp_all add: u_def)
  let ?I = "{..<cur_size ht} - {slot}"
  have m_in: "n \<in> ?I" using slot' by simp
  have m: "0 < timer_id (nodes u m)" "timer_id (nodes u m) < int (max_size ht)"
    "nat (timer_id (nodes u m)) < max_size ht" "timer_ids u ! nat (timer_id (nodes u m)) = int n"
    using linkedD [OF u(2) m_in] by (simp_all add: m_def)
  have apart: "nat (timer_id (nodes u m)) \<noteq> nat (slot_id u i)"
    "slot_id u i \<noteq> timer_id (nodes u m)" if "i \<in> {..<n} - {slot}" for i
    using linkedD(4) [OF u(2), of i] m(4) that slot' by auto
  have sub: "{..<n} - {slot} \<subseteq> ?I" using slot' by auto
  have "linked c ({..<n} - {slot})"
    unfolding linked_def using linkedD [OF u(2)] sub apart(1) by (auto simp: c_def)
  then show "hole c n slot m"
    using m apart(2) slot' lens by (auto simp: hole_def c_def)
  have "?I = insert n ({..<n} - {slot})" using slot' by auto
  then show eq: "insert m (slots c ({..<n} - {slot})) = slots u ?I"
    by (auto simp: slots_def c_def m_def)
  show "timer_ids c ! 0 < 0" using u(1) m by (simp add: c_def nth_list_update)
  show "{x. pending c x} = insert m (slots c ({..<n} - {slot}))"
    unfolding eq using u(3) by (simp add: pending_def c_def)
  obtain fl where fl: "free_chain (timer_ids u) (timer_ids_freelist u) fl (int (max_size u))"
    "distinct fl" "set fl = {1..<int (max_size u)} - (\<lambda>x. timer_id (nodes u x)) ` slots u ?I"
    using u(4) by blast
  have "timer_id (nodes u m) \<in> (\<lambda>x. timer_id (nodes u x)) ` slots u ?I"
    using m_in by (auto simp: slots_def m_def)
  then have "x \<noteq> timer_id (nodes u m)" "0 < x" if "x \<in> set fl" for x
    using that fl(3) by (metis Diff_iff, simp)
  then have "nat (timer_id (nodes u m)) \<noteq> nat x" if "x \<in> set fl" for x
    using that m(1) by (metis eq_nat_nat_iff less_imp_le)
  then have "timer_ids c ! nat x = timer_ids u ! nat x" if "x \<in> set fl" for x
    using that by (simp add: c_def)
  then have "free_chain (timer_ids c) (timer_ids_freelist c) fl (int (max_size c))"
    using fl(1) by (subst free_chain_cong [where ids' = "timer_ids u"]) (auto simp: c_def)
  with fl show "\<exists>fl. free_chain (timer_ids c) (timer_ids_freelist c) fl (int (max_size c)) \<and>
      distinct fl \<and> set fl = {1..<int (max_size c)} -
        (\<lambda>x. timer_id (nodes c x)) ` insert m (slots c ({..<n} - {slot}))"
    unfolding eq by (auto simp: c_def)
qed

text \<open>Which edge may be wrong depends on how the last entry compares with the parent.\<close>

lemma refill_order:
  assumes ord: "heap_ordered f (Suc n)" and slot: "slot < n"
  defines "g \<equiv> f(slot := f n)"
  shows "g (HEAP_PARENT slot) \<le> g slot \<Longrightarrow> down_hole g n slot"
    and "g slot < g (HEAP_PARENT slot) \<Longrightarrow> up_hole g n slot"
proof -
  have edge: "f (HEAP_PARENT i) \<le> f i" if "0 < i" "i \<le> n" for i
    using ord that by (simp add: heap_ordered_def)
  have grand: "g (HEAP_PARENT slot) \<le> g i"
    if "i < n" "0 < i" "HEAP_PARENT i = slot" "0 < slot" for i
    using edge [of slot] edge [of i] that slot HEAP_PARENT_neq [of i] by (auto simp: g_def)
  show "g (HEAP_PARENT slot) \<le> g slot \<Longrightarrow> down_hole g n slot"
    using edge grand by (auto simp: down_hole_def g_def)
  assume lt: "g slot < g (HEAP_PARENT slot)"
  then have pos: "0 < slot" by (cases slot) auto
  have "f n \<le> f i" if "i < n" "0 < i" "HEAP_PARENT i = slot" for i
  proof -
    have "i \<noteq> slot" using that HEAP_PARENT_neq [of i] by metis
    then show ?thesis using lt grand [OF that pos] by (simp add: g_def)
  qed
  then show "up_hole g n slot"
    using edge grand by (auto simp: up_hole_def g_def)
qed

lemma remove_node_inv:
  assumes inv: "th_inv ht" and slot: "slot < cur_size ht"
  shows "snd (remove_node ht slot) = heap ht ! slot" "th_inv (fst (remove_node ht slot))"
    "cur_size (fst (remove_node ht slot)) = cur_size ht - 1"
    "max_entries_per_poll (fst (remove_node ht slot)) = max_entries_per_poll ht"
    "nodes (fst (remove_node ht slot)) =
       (nodes ht)(heap ht ! slot := (nodes ht (heap ht ! slot))\<lparr>timer_id := -1\<rparr>)"
proof -
  let ?u = "unlinked ht slot" let ?n = "cur_size ht - 1" let ?r = "remove_node ht slot"
  have arrays: "length (heap ht) = max_size ht" "length (timer_ids ht) = max_size ht"
    "cur_size ht + 1 < max_size ht" "heap_ordered (slot_value ht) (cur_size ht)"
    using inv by (simp_all add: th_inv_def)
  have all: "snd ?r = heap ht ! slot \<and> th_inv (fst ?r) \<and> cur_size (fst ?r) = ?n \<and>
      max_entries_per_poll (fst ?r) = max_entries_per_poll ht \<and> nodes (fst ?r) = nodes ?u"
  proof (cases "slot < ?n")
    case False
    then have last: "slot = ?n" using slot by simp
    then have I: "{..<cur_size ht} - {slot} = {..<?n}" using slot by auto
    note u = unlinked_inv [OF inv slot, unfolded I]
    have "heap_ordered (slot_value ?u) ?n"
      using arrays(4) by (simp add: heap_ordered_def del: unlinked_simps(7))
    then have "th_inv ?u"
      using u arrays by (auto simp: th_inv_def free_list_def used_ids_slots simp del: unlinked_simps(7-9))
    moreover have "remove_node ht slot = (?u, heap ht ! slot)"
      using last by (simp add: remove_node_unlinked Let_def)
    ultimately show ?thesis by simp
  next
    case True
    define m where "m = heap ht ! ?n"
    define c where "c = copy_node ?u slot m"
    note hole = refill_hole [OF inv True, folded m_def, folded c_def]
    have c: "cur_size c = ?n" "max_size c = max_size ht" "nodes c = nodes ?u"
      "max_entries_per_poll c = max_entries_per_poll ht"
      by (simp_all add: c_def)
    define f where "f = (slot_value ht)(slot := slot_value ht ?n)"
    have value_c: "slot_value c = f"
      using True arrays by (auto simp: c_def m_def f_def fun_eq_iff nth_list_update)
    have value_hole: "(slot_value c)(slot := timer_value (nodes c m)) = f"
      unfolding value_c by (simp add: c_def m_def f_def fun_eq_iff)
    have "heap_ordered (slot_value ht) (Suc ?n)" using arrays(4) slot by simp
    note order = refill_order [OF this True, folded f_def]
    have m_f: "timer_value (nodes c m) = f slot" by (simp add: c_def m_def f_def)
    have "?r = (if PJ_TIME_VAL_GTE (timer_value (nodes c m)) (slot_value c (HEAP_PARENT slot))
        then (reheap_down c m slot (HEAP_LEFT slot), heap ht ! slot)
        else (reheap_up c m slot (HEAP_PARENT slot), heap ht ! slot))"
      unfolding remove_node_unlinked Let_def
      using True by (simp only: unlinked_simps(1,3) if_True m_def [symmetric] c_def [symmetric])
    then have remove: "?r = (if f (HEAP_PARENT slot) \<le> f slot
        then reheap_down c m slot (HEAP_LEFT slot) else reheap_up c m slot (HEAP_PARENT slot),
        heap ht ! slot)"
      by (auto simp only: m_f fun_cong [OF value_c] PJ_TIME_VAL_GTE_iff split: if_split)
    obtain fl where fl: "free_chain (timer_ids c) (timer_ids_freelist c) fl (int (max_size c))"
      "distinct fl" "set fl = {1..<int (max_size c)} -
         (\<lambda>x. timer_id (nodes c x)) ` insert m (slots c ({..<?n} - {slot}))"
      using hole(5) by blast
    have finish: ?thesis if h: "?r = (ht', heap ht ! slot)" and sift: "sifted c ?n slot m ht'"
      and ord: "heap_ordered (slot_value ht') ?n" for ht'
    proof -
      have same: "ht'\<lparr>cur_size := ?n\<rparr> = ht'"
        using sifted_simps(2) [OF sift] c(1) by simp
      have "th_inv (ht'\<lparr>cur_size := ?n\<rparr>)"
        using arrays(3) c(2) by (intro sifted_inv [OF hole(1) sift ord _ hole(3,4) fl]) simp
      then have "th_inv ht'" by (simp only: same)
      then show ?thesis
        using h sifted_simps [OF sift] c by simp
    qed
    show ?thesis
    proof (cases "f (HEAP_PARENT slot) \<le> f slot")
      case True
      then show ?thesis
        using remove reheap_down_sifted [OF hole(1)] reheap_down_ordered [OF hole(1)]
          order(1) value_hole c(1) by (intro finish) simp_all
    next
      case False
      then show ?thesis
        using remove reheap_up_sifted [OF hole(1) refl] reheap_up_ordered [OF hole(1) refl]
          order(2) value_hole by (intro finish) simp_all
    qed
  qed
  then show "snd ?r = heap ht ! slot" "th_inv (fst ?r)" "cur_size (fst ?r) = cur_size ht - 1"
    "max_entries_per_poll (fst ?r) = max_entries_per_poll ht"
    "nodes (fst ?r) = (nodes ht)(heap ht ! slot := (nodes ht (heap ht ! slot))\<lparr>timer_id := -1\<rparr>)"
    by simp_all
qed

lemma th_inv_slot:
  assumes inv: "th_inv ht" and pend: "pending ht e"
  obtains i where "i < cur_size ht" "heap ht ! i = e" "timer_id (nodes ht e) < int (max_size ht)"
    "timer_ids ht ! nat (timer_id (nodes ht e)) = int i"
proof -
  have "e \<in> slots ht {..<cur_size ht}" "linked ht {..<cur_size ht}"
    using inv pend by (auto simp: th_inv_def)
  then obtain i where "i < cur_size ht" "heap ht ! i = e" by (auto simp: slots_def)
  then show ?thesis using that linkedD [of ht "{..<cur_size ht}" i] \<open>linked ht _\<close> by auto
qed

lemma cancel_pending:
  assumes inv: "th_inv ht" and pend: "pending ht e"
  shows "fst (snd (cancel ht e d)) = 1" "th_inv (fst (cancel ht e d))"
    "cur_size (fst (cancel ht e d)) = cur_size ht - 1"
    "max_entries_per_poll (fst (cancel ht e d)) = max_entries_per_poll ht"
    "nodes (fst (cancel ht e d)) = (nodes ht)(e := (nodes ht e)\<lparr>timer_id := -1\<rparr>)"
proof -
  obtain i where i: "i < cur_size ht" "heap ht ! i = e" "timer_id (nodes ht e) < int (max_size ht)"
    "timer_ids ht ! nat (timer_id (nodes ht e)) = int i"
    by (rule th_inv_slot [OF inv pend])
  have "nat (timer_id (nodes ht e)) \<le> max_size ht" using i(3) by linarith
  then have "cancel ht e d = (fst (remove_node ht i), 1, d = 0)"
    using i pend by (simp add: cancel_def Let_def pending_def)
  then show "fst (snd (cancel ht e d)) = 1" "th_inv (fst (cancel ht e d))"
    "cur_size (fst (cancel ht e d)) = cur_size ht - 1"
    "max_entries_per_poll (fst (cancel ht e d)) = max_entries_per_poll ht"
    "nodes (fst (cancel ht e d)) = (nodes ht)(e := (nodes ht e)\<lparr>timer_id := -1\<rparr>)"
    using remove_node_inv [OF inv i(1)] i(2) by simp_all
qed

lemma cancel_idle:
  assumes inv: "th_inv ht" and idle: "\<not> pending ht e"
  shows "cancel ht e d = (ht, 0, False)"
proof (cases "timer_id (nodes ht e) < 0")
  case False
  then have "timer_id (nodes ht e) = 0" using idle by (simp add: pending_def)
  then show ?thesis using inv by (simp add: cancel_def th_inv_def)
qed (simp add: cancel_def)

section \<open>The timer service\<close>

text \<open>
  What a client of the timer heap relies on: scheduling an idle entry arms it at the current time
  plus the delay, cancelling disarms it, nothing else moves, and the caller's own field \<open>id\<close> of
  the entry is the caller's to write.
\<close>

locale timer_service =
  fixes sched :: "'h \<Rightarrow> pj_time_val \<Rightarrow> 'e \<Rightarrow> pj_time_val \<Rightarrow> 'h"
    and stop :: "'h \<Rightarrow> 'e \<Rightarrow> 'h"
    and view :: "'h \<Rightarrow> 'e \<Rightarrow> pj_time_val option"
    and get_id :: "'h \<Rightarrow> 'e \<Rightarrow> int"
    and set_id :: "'h \<Rightarrow> 'e \<Rightarrow> int \<Rightarrow> 'h"
    and ok :: "'h \<Rightarrow> bool"
  assumes ok_sched: "ok h \<Longrightarrow> view h e = None \<Longrightarrow> ok (sched h now e d)"
    and view_sched: "ok h \<Longrightarrow> view h e = None \<Longrightarrow>
      view (sched h now e d) = (view h)(e \<mapsto> PJ_TIME_VAL_ADD now d)"
    and id_sched: "ok h \<Longrightarrow> view h e = None \<Longrightarrow> get_id (sched h now e d) = get_id h"
    and ok_stop: "ok h \<Longrightarrow> ok (stop h e)"
    and view_stop: "ok h \<Longrightarrow> view (stop h e) = (view h)(e := None)"
    and id_stop: "ok h \<Longrightarrow> get_id (stop h e) = get_id h"
    and ok_set_id: "ok h \<Longrightarrow> ok (set_id h e i)"
    and view_set_id: "view (set_id h e i) = view h"
    and id_set_id: "get_id (set_id h e i) = (get_id h)(e := i)"
begin

text \<open>Cancelling first makes scheduling safe whatever the entry was doing.\<close>

lemma rearm:
  assumes "ok h"
  shows "ok (sched (stop h e) now e d)"
    "view (sched (stop h e) now e d) = (view h)(e \<mapsto> PJ_TIME_VAL_ADD now d)"
    "get_id (sched (stop h e) now e d) = get_id h"
  using assms ok_stop [OF assms, of e] view_stop [OF assms, of e]
    ok_sched [of "stop h e" e now d] view_sched [of "stop h e" e now d]
    id_sched [of "stop h e" e now d] id_stop [OF assms, of e]
  by simp_all

lemma stop_stop: "ok h \<Longrightarrow> view (stop (stop h e) e) = view (stop h e)"
  by (simp add: view_stop ok_stop fun_eq_iff)

lemmas service_simps =
  ok_sched view_sched id_sched ok_stop view_stop id_stop ok_set_id view_set_id id_set_id

end

definition set_te_id :: "pj_timer_heap_t \<Rightarrow> nat \<Rightarrow> int \<Rightarrow> pj_timer_heap_t" where
  "set_te_id ht e i = ht\<lparr>nodes := (nodes ht)(e := (nodes ht e)\<lparr>te_id := i\<rparr>)\<rparr>"

text \<open>Writing \<open>id\<close> or the callback of an entry does not concern the heap.\<close>

lemma th_inv_cong:
  assumes "\<And>e. timer_id (nodes' e) = timer_id (nodes ht e)"
    "\<And>e. timer_value (nodes' e) = timer_value (nodes ht e)"
  shows "th_inv (ht\<lparr>nodes := nodes'\<rparr>) = th_inv ht"
    "th_view (ht\<lparr>nodes := nodes'\<rparr>) = th_view ht"
  by (simp_all add: assms th_inv_def linked_def slots_def free_list_def used_ids_def pending_def
      th_view_def fun_eq_iff)

lemma th_view_nodes:
  assumes "nodes ht' = (nodes ht)(e := n)"
  shows "th_view ht' = (th_view ht)(e := (if 0 < timer_id n then Some (timer_value n) else None))"
  using assms by (simp add: th_view_def pending_def fun_eq_iff)

lemma schedule_is_entry:
  "pj_timer_heap_schedule ht now e d =
     (fst (schedule_entry ht e (PJ_TIME_VAL_ADD now d)),
      if snd (schedule_entry ht e (PJ_TIME_VAL_ADD now d)) = 0 then PJ_SUCCESS
      else PJ_OTHER (snd (schedule_entry ht e (PJ_TIME_VAL_ADD now d))))"
  by (simp add: pj_timer_heap_schedule_def split: prod.splits)

lemma cancel_is_cancel:
  "pj_timer_heap_cancel ht e = (fst (cancel ht e 1), fst (snd (cancel ht e 1)))"
  by (simp add: pj_timer_heap_cancel_def split: prod.splits)

lemma schedule_view:
  assumes inv: "th_inv ht" and idle: "\<not> pending ht e"
  shows "snd (pj_timer_heap_schedule ht now e d) = PJ_SUCCESS"
    "th_inv (fst (pj_timer_heap_schedule ht now e d))"
    "th_view (fst (pj_timer_heap_schedule ht now e d))
       = (th_view ht)(e \<mapsto> PJ_TIME_VAL_ADD now d)"
    "te_id (nodes (fst (pj_timer_heap_schedule ht now e d)) x) = te_id (nodes ht x)"
    "te_cb (nodes (fst (pj_timer_heap_schedule ht now e d)) x) = te_cb (nodes ht x)"
proof -
  note res = schedule_entry_inv [OF inv idle, of "PJ_TIME_VAL_ADD now d"]
  obtain i where i: "0 < i" and nodes: "nodes (fst (pj_timer_heap_schedule ht now e d)) =
      (nodes ht)(e := (nodes ht e)\<lparr>timer_id := i, timer_value := PJ_TIME_VAL_ADD now d\<rparr>)"
    using res(5) by (auto simp: schedule_is_entry)
  show "snd (pj_timer_heap_schedule ht now e d) = PJ_SUCCESS"
    "th_inv (fst (pj_timer_heap_schedule ht now e d))"
    using res(1,2) by (simp_all add: schedule_is_entry)
  show "th_view (fst (pj_timer_heap_schedule ht now e d))
       = (th_view ht)(e \<mapsto> PJ_TIME_VAL_ADD now d)"
    using i th_view_nodes [OF nodes] by simp
  show "te_id (nodes (fst (pj_timer_heap_schedule ht now e d)) x) = te_id (nodes ht x)"
    "te_cb (nodes (fst (pj_timer_heap_schedule ht now e d)) x) = te_cb (nodes ht x)"
    by (simp_all add: nodes)
qed

lemma cancel_view:
  assumes inv: "th_inv ht"
  shows "snd (pj_timer_heap_cancel ht e) = (if pending ht e then 1 else 0)"
    "th_inv (fst (pj_timer_heap_cancel ht e))"
    "th_view (fst (pj_timer_heap_cancel ht e)) = (th_view ht)(e := None)"
    "te_id (nodes (fst (pj_timer_heap_cancel ht e)) x) = te_id (nodes ht x)"
    "te_cb (nodes (fst (pj_timer_heap_cancel ht e)) x) = te_cb (nodes ht x)"
proof -
  have idle: "pj_timer_heap_cancel ht e = (ht, 0)" if "\<not> pending ht e"
    by (simp add: cancel_is_cancel cancel_idle [OF inv that])
  have nodes: "nodes (fst (pj_timer_heap_cancel ht e)) =
      (nodes ht)(e := (nodes ht e)\<lparr>timer_id := -1\<rparr>)" if "pending ht e"
    using cancel_pending(5) [OF inv that] by (simp add: cancel_is_cancel)
  show "snd (pj_timer_heap_cancel ht e) = (if pending ht e then 1 else 0)"
    "th_inv (fst (pj_timer_heap_cancel ht e))"
    using idle inv cancel_pending(1,2) [OF inv, of e 1]
    by (cases "pending ht e"; simp add: cancel_is_cancel)+
  show "th_view (fst (pj_timer_heap_cancel ht e)) = (th_view ht)(e := None)"
  proof (cases "pending ht e")
    case True
    then show ?thesis using th_view_nodes [OF nodes] by simp
  next
    case False
    then show ?thesis using idle by (simp add: fun_eq_iff)
  qed
  show "te_id (nodes (fst (pj_timer_heap_cancel ht e)) x) = te_id (nodes ht x)"
    "te_cb (nodes (fst (pj_timer_heap_cancel ht e)) x) = te_cb (nodes ht x)"
    using idle nodes by (cases "pending ht e"; simp)+
qed

interpretation ts: timer_service
  "\<lambda>h now e d. fst (pj_timer_heap_schedule h now e d)"
  "\<lambda>h e. fst (pj_timer_heap_cancel h e)" th_view
  "\<lambda>h e. te_id (nodes h e)" set_te_id th_inv
  by unfold_locales
    (auto simp: schedule_view cancel_view set_te_id_def th_inv_cong fun_eq_iff)

section \<open>Fresh entries\<close>

text \<open>Memory that holds no pending entry may be written, as creating a client does.\<close>

lemma th_inv_idle:
  assumes h: "th_inv h" and e: "\<not> pending h e" and n: "timer_id n \<le> 0"
  shows "th_inv (h\<lparr>nodes := (nodes h)(e := n)\<rparr>)" "th_view (h\<lparr>nodes := (nodes h)(e := n)\<rparr>) = th_view h"
proof -
  let ?h = "h\<lparr>nodes := (nodes h)(e := n)\<rparr>"
  have ne: "heap h ! i \<noteq> e" if "i < cur_size h" for i
  proof
    assume "heap h ! i = e"
    then have "e \<in> slots h {..<cur_size h}" using that by (auto simp: slots_def)
    then show False using h e by (auto simp: th_inv_def)
  qed
  have s: "slot_id ?h i = slot_id h i" "slot_value ?h i = slot_value h i" if "i < cur_size h" for i
    using ne [OF that] by simp_all
  have p: "pending ?h x = pending h x" for x using e n by (simp add: pending_def)
  have "linked ?h {..<cur_size h} = linked h {..<cur_size h}" using s by (simp add: linked_def)
  moreover have "used_ids ?h = used_ids h" using s by (simp add: used_ids_def)
  moreover have "heap_ordered (slot_value ?h) (cur_size h) = heap_ordered (slot_value h) (cur_size h)"
  proof -
    have "HEAP_PARENT i < cur_size h" if "i < cur_size h" "0 < i" for i
      using HEAP_PARENT_below [of i] that by simp
    then show ?thesis using s unfolding heap_ordered_def by simp
  qed
  ultimately show "th_inv ?h" using h by (simp add: th_inv_def slots_def p free_list_def)
  show "th_view ?h = th_view h" using e n by (auto simp: th_view_def pending_def fun_eq_iff)
qed

lemma th_inv_idle2:
  assumes h: "th_inv h" and r: "\<not> pending h r" "\<not> pending h t" and n: "timer_id n \<le> 0" "timer_id m \<le> 0"
  shows "th_inv (h\<lparr>nodes := (nodes h)(r := n, t := m)\<rparr>)" "th_view (h\<lparr>nodes := (nodes h)(r := n, t := m)\<rparr>) = th_view h"
proof -
  note a = th_inv_idle [OF h r(1) n(1)]
  have "\<not> pending (h\<lparr>nodes := (nodes h)(r := n)\<rparr>) t" using r(2) n(1) by (simp add: pending_def)
  from th_inv_idle [OF a(1) this n(2)]
  show "th_inv (h\<lparr>nodes := (nodes h)(r := n, t := m)\<rparr>)" "th_view (h\<lparr>nodes := (nodes h)(r := n, t := m)\<rparr>) = th_view h"
    using a(2) by simp_all
qed

end
