(* ===== verification/Timer_Heap_Poll.thy ===== *)
theory Timer_Heap_Poll
  imports Timer_Heap_Ops
begin

text \<open>
  Polling the timer heap: the entry at the root is the earliest, \<^verbatim>\<open>pj_timer_heap_poll\<close> fires due
  entries in the order of their times, and it returns whenever the callbacks keep the heap intact
  and do not raise the limit of the poll.
\<close>

section \<open>The root\<close>

lemma heap_ordered_root:
  "heap_ordered f n \<Longrightarrow> i < n \<Longrightarrow> f 0 \<le> f i"
proof (induction i rule: less_induct)
  case (less i)
  show ?case
  proof (cases "i = 0")
    case False
    then have "f 0 \<le> f (HEAP_PARENT i)" using less by (simp add: HEAP_PARENT_below)
    also have "\<dots> \<le> f i" using less False by (simp add: heap_ordered_def)
    finally show ?thesis .
  qed simp
qed

lemma root_pending:
  assumes "th_inv ht" "cur_size ht \<noteq> 0"
  shows "pending ht (heap ht ! 0)" "th_view ht (heap ht ! 0) = Some (slot_value ht 0)"
proof -
  have "heap ht ! 0 \<in> slots ht {..<cur_size ht}" using assms by (auto simp: slots_def)
  then show "pending ht (heap ht ! 0)" using assms(1) by (auto simp: th_inv_def)
  then show "th_view ht (heap ht ! 0) = Some (slot_value ht 0)" by (simp add: th_view_def)
qed

lemma root_least:
  assumes "th_inv ht" "th_view ht e = Some t"
  shows "cur_size ht \<noteq> 0" "slot_value ht 0 \<le> t"
proof -
  have e: "pending ht e" "t = timer_value (nodes ht e)"
    using assms(2) by (auto simp: th_view_def split: if_splits)
  obtain i where i: "i < cur_size ht" "heap ht ! i = e"
    by (rule th_inv_slot [OF assms(1) e(1)])
  then show "cur_size ht \<noteq> 0" by simp
  have "heap_ordered (slot_value ht) (cur_size ht)" using assms(1) by (simp add: th_inv_def)
  then show "slot_value ht 0 \<le> t" using heap_ordered_root i e(2) by blast
qed

lemma count_pending:
  assumes "th_inv ht"
  shows "card {e. pending ht e} = cur_size ht"
proof -
  have "{e. pending ht e} = (\<lambda>i. heap ht ! i) ` {..<cur_size ht}"
    using assms by (simp add: th_inv_def slots_def)
  moreover have "inj_on (\<lambda>i. heap ht ! i) {..<cur_size ht}"
    using assms by (intro linked_inj) (simp add: th_inv_def)
  ultimately show ?thesis by (simp add: card_image)
qed

lemma remove_root:
  assumes "th_inv ht" "cur_size ht \<noteq> 0"
  shows "snd (remove_node ht 0) = heap ht ! 0" "th_inv (fst (remove_node ht 0))"
    "cur_size (fst (remove_node ht 0)) = cur_size ht - 1"
    "max_entries_per_poll (fst (remove_node ht 0)) = max_entries_per_poll ht"
    "th_view (fst (remove_node ht 0)) = (th_view ht)(heap ht ! 0 := None)"
  using remove_node_inv [OF assms(1), of 0] assms(2)
    th_view_nodes [of "fst (remove_node ht 0)" ht "heap ht ! 0"]
  by simp_all

section \<open>The loop\<close>

text \<open>
  One turn of the loop, and the condition under which it turns. \<open>keeps\<close> is what polling needs of a
  callback: the heap stays well formed and the limit of the poll is not raised.
\<close>

definition poll_due :: "pj_time_val \<Rightarrow> pj_timer_heap_t \<Rightarrow> nat \<Rightarrow> bool" where
  "poll_due now ht n \<longleftrightarrow> cur_size ht \<noteq> 0 \<and> slot_value ht 0 \<le> now \<and> n < max_entries_per_poll ht"

definition poll_turn ::
    "(pj_timer_heap_t \<Rightarrow> nat \<Rightarrow> pj_timer_heap_t) \<Rightarrow> pj_timer_heap_t \<Rightarrow> pj_timer_heap_t" where
  "poll_turn cb ht =
     (let r = remove_node ht 0
      in if te_cb (nodes (fst r) (snd r)) \<noteq> None then cb (fst r) (snd r) else fst r)"

definition keeps :: "(pj_timer_heap_t \<Rightarrow> nat \<Rightarrow> pj_timer_heap_t) \<Rightarrow> bool" where
  "keeps cb \<longleftrightarrow> (\<forall>ht e. th_inv ht \<longrightarrow>
     th_inv (cb ht e) \<and> max_entries_per_poll (cb ht e) \<le> max_entries_per_poll ht)"

lemma poll_loop_turn:
  assumes "th_inv ht"
  shows "poll_loop cb now ht fired =
     (if poll_due now ht (length fired) then poll_loop cb now (poll_turn cb ht) (heap ht ! 0 # fired)
      else Some (ht, fired))"
  using remove_root(1) [OF assms]
  by (subst poll_loop.simps) (auto simp: poll_due_def poll_turn_def Let_def)

lemma poll_turn_keeps:
  assumes "keeps cb" "th_inv ht" "cur_size ht \<noteq> 0"
  shows "th_inv (poll_turn cb ht)" "max_entries_per_poll (poll_turn cb ht) \<le> max_entries_per_poll ht"
  using assms(1) remove_root [OF assms(2,3)]
  by (auto simp: keeps_def poll_turn_def Let_def)

text \<open>Induction over the turns of a poll: the turns left are bounded by the limit.\<close>

lemma poll_induct [consumes 2, case_names Turn Stop]:
  assumes "keeps cb" "th_inv ht"
    and turn: "\<And>ht fired. th_inv ht \<Longrightarrow> poll_due now ht (length fired) \<Longrightarrow>
      th_inv (poll_turn cb ht) \<Longrightarrow> P (poll_turn cb ht) (heap ht ! 0 # fired) \<Longrightarrow> P ht fired"
    and stop: "\<And>ht fired. th_inv ht \<Longrightarrow> \<not> poll_due now ht (length fired) \<Longrightarrow> P ht fired"
  shows "P ht fired"
  using assms(2)
proof (induction "max_entries_per_poll ht - length fired" arbitrary: ht fired rule: less_induct)
  case less
  show ?case
  proof (cases "poll_due now ht (length fired)")
    case True
    then have ne: "cur_size ht \<noteq> 0" "length fired < max_entries_per_poll ht"
      by (simp_all add: poll_due_def)
    note k = poll_turn_keeps [OF assms(1) less.prems ne(1)]
    have "P (poll_turn cb ht) (heap ht ! 0 # fired)"
      using k ne(2) by (intro less.hyps) auto
    then show ?thesis using turn less.prems True k by blast
  qed (use stop less.prems in blast)
qed

lemma poll_loop_returns:
  assumes "keeps cb" "th_inv ht"
  shows "\<exists>ht' more. poll_loop cb now ht fired = Some (ht', more @ fired) \<and> th_inv ht' \<and>
    (length (more @ fired) \<le> max (length fired) (max_entries_per_poll ht)) \<and>
    \<not> poll_due now ht' (length (more @ fired))"
  using assms
proof (induction ht fired rule: poll_induct [where now = now])
  case (Turn ht fired)
  then obtain ht' more where "poll_loop cb now (poll_turn cb ht) (heap ht ! 0 # fired) =
      Some (ht', more @ heap ht ! 0 # fired)" "th_inv ht'"
    "length (more @ heap ht ! 0 # fired)
       \<le> max (length (heap ht ! 0 # fired)) (max_entries_per_poll (poll_turn cb ht))"
    "\<not> poll_due now ht' (length (more @ heap ht ! 0 # fired))" by blast
  moreover have "max_entries_per_poll (poll_turn cb ht) \<le> max_entries_per_poll ht"
    using poll_turn_keeps(2) [OF assms(1) Turn(1)] Turn(2) by (simp add: poll_due_def)
  ultimately show ?case
    using Turn(1,2) by (intro exI [of _ ht'] exI [of _ "more @ [heap ht ! 0]"])
      (auto simp: poll_loop_turn poll_due_def)
qed (auto simp: poll_loop_turn intro: exI [of _ "[]"])

section \<open>Callbacks that leave the heap alone\<close>

text \<open>
  With callbacks that do not touch the heap, what fires is what was due, in the order of the expiry
  times.
\<close>

lemma poll_turn_id: "poll_turn (\<lambda>h e. h) ht = fst (remove_node ht 0)"
  by (simp add: poll_turn_def Let_def)

lemma keeps_id: "keeps (\<lambda>h e. h)"
  by (simp add: keeps_def)

lemma poll_id_order:
  assumes inv: "th_inv ht" and "\<And>e t x. th_view ht e = Some t \<Longrightarrow> x \<in> set fired \<Longrightarrow> time x \<le> t"
    and "\<And>e t. th_view ht e = Some t \<Longrightarrow> time e = t" and "\<And>x. x \<in> set fired \<Longrightarrow> time x \<le> now"
    and "sorted (map time (rev fired))" and "distinct fired"
    and "\<And>x. x \<in> set fired \<Longrightarrow> th_view ht x = None"
    and "poll_loop (\<lambda>h e. h) now ht fired = Some (ht', fired')"
  shows "sorted (map time (rev fired')) \<and> distinct fired' \<and> (\<forall>x\<in>set fired'. time x \<le> now) \<and>
     th_view ht' = (th_view ht) |` (- set fired') \<and> (set fired' - set fired) \<subseteq> dom (th_view ht)"
  using keeps_id assms
proof (induction ht fired rule: poll_induct [where now = now])
  case (Turn ht fired)
  let ?e = "heap ht ! 0"
  have ne: "cur_size ht \<noteq> 0" and due: "slot_value ht 0 \<le> now" using Turn(2) by (simp_all add: poll_due_def)
  note root = root_pending [OF Turn(1) ne] remove_root [OF Turn(1) ne]
  have view: "th_view (poll_turn (\<lambda>h e. h) ht) = (th_view ht)(?e := None)"
    by (simp add: poll_turn_id root)
  have time: "time ?e = slot_value ht 0" using Turn(6) root(2) by simp
  have least: "time ?e \<le> t" if "th_view ht e = Some t" for e t
    using root_least [OF Turn(1) that] by (simp add: time)
  have new: "?e \<notin> set fired" using Turn(10) root(2) by fastforce
  have "sorted (map time (rev fired')) \<and> distinct fired' \<and> (\<forall>x\<in>set fired'. time x \<le> now) \<and>
     th_view ht' = (th_view (poll_turn (\<lambda>h e. h) ht)) |` (- set fired') \<and>
     set fired' - set (?e # fired) \<subseteq> dom (th_view (poll_turn (\<lambda>h e. h) ht))"
  proof (rule Turn(4))
    show "time x \<le> t"
      if "th_view (poll_turn (\<lambda>h e. h) ht) e = Some t" "x \<in> set (?e # fired)" for e t x
      using that Turn(5) least by (auto simp: view split: if_splits)
    show "time e = t" if "th_view (poll_turn (\<lambda>h e. h) ht) e = Some t" for e t
      using that Turn(6) by (auto simp: view split: if_splits)
    show "time x \<le> now" if "x \<in> set (?e # fired)" for x
      using that Turn(7) due by (auto simp: time)
    show "sorted (map time (rev (?e # fired)))"
      using Turn(8) Turn(5) [OF root(2)] by (auto simp: sorted_append time)
    show "distinct (?e # fired)" using Turn(9) new by simp
    show "th_view (poll_turn (\<lambda>h e. h) ht) x = None" if "x \<in> set (?e # fired)" for x
      using that Turn(10) by (auto simp: view)
    show "poll_loop (\<lambda>h e. h) now (poll_turn (\<lambda>h e. h) ht) (?e # fired) = Some (ht', fired')"
      using Turn(11) Turn(2) by (simp add: poll_loop_turn [OF Turn(1)])
  qed
  moreover have "?e \<in> set fired'"
    using poll_loop_returns [OF keeps_id Turn(3), of now "?e # fired"] Turn(11) Turn(2)
    by (auto simp: poll_loop_turn [OF Turn(1)])
  ultimately show ?case
    using root(2) by (auto simp: view restrict_map_def fun_eq_iff)
next
  case (Stop ht fired)
  then have "ht' = ht" "fired' = fired" by (simp_all add: poll_loop_turn)
  then show ?case using Stop by (auto simp: restrict_map_def fun_eq_iff)
qed

end
