(* ===== verification/Timer_Heap_Props.thy ===== *)
theory Timer_Heap_Props
  imports Timer_Heap_Poll
begin

text \<open>
  What the timer heap promises its callers: it is a map from entries to expiry times, its root is
  the minimum, and a poll fires what is due.
\<close>

definition heap_mem :: "nat \<Rightarrow> pj_timer_entry" where
  "heap_mem a = \<lparr>te_id = 0, te_cb = Some 1, timer_id = 0, timer_value = Time_val 0 0\<rparr>"

lemma heap_mem_inv: "th_inv (pj_timer_heap_create heap_mem n)"
  by (rule th_inv_create) (simp add: heap_mem_def)

lemma heap_mem_idle: "\<not> pending (pj_timer_heap_create heap_mem n) e"
  by (simp add: pending_def pj_timer_heap_create_def heap_mem_def Let_def)

lemma empty_view: "th_inv ht \<Longrightarrow> cur_size ht = 0 \<Longrightarrow> th_view ht = Map.empty"
  using root_least(1) by (metis ext not_Some_eq)

text \<open>C1: scheduling an idle entry succeeds whatever the load of the heap (the arrays grow), keeps the
  heap order, the id table and the free list, and has exactly the effect of arming this one entry at
  the current time plus the delay.\<close>

theorem schedule_arms:
  assumes "th_inv ht" "\<not> pending ht e"
  shows "snd (pj_timer_heap_schedule ht now e d) = PJ_SUCCESS \<and>
    th_inv (fst (pj_timer_heap_schedule ht now e d)) \<and>
    th_view (fst (pj_timer_heap_schedule ht now e d)) = (th_view ht)(e \<mapsto> PJ_TIME_VAL_ADD now d) \<and>
    pj_timer_heap_count (fst (pj_timer_heap_schedule ht now e d)) = pj_timer_heap_count ht + 1"
  using schedule_view [OF assms] schedule_entry_inv(3) [OF assms]
  by (simp add: pj_timer_heap_count_def schedule_is_entry)

theorem schedule_arms_witness:
  "th_view (fst (pj_timer_heap_schedule (pj_timer_heap_create heap_mem 0) (Time_val 5 900) 7
     (Time_val 1 200))) 7 = Some (Time_val 7 100)"
  using schedule_arms [OF heap_mem_inv [of 0] heap_mem_idle, where e = 7 and now = "Time_val 5 900"
      and d = "Time_val 1 200"]
  by (simp add: PJ_TIME_VAL_ADD_def pj_time_val_normalize_def borrow_sec.simps)

text \<open>C2: cancelling returns how many entries it removed, 1 for a pending entry and 0 for any other,
  keeps the heap well formed, and disarms exactly that entry.\<close>

theorem cancel_disarms:
  assumes "th_inv ht"
  shows "snd (pj_timer_heap_cancel ht e) = (if th_view ht e = None then 0 else 1) \<and>
    th_inv (fst (pj_timer_heap_cancel ht e)) \<and>
    th_view (fst (pj_timer_heap_cancel ht e)) = (th_view ht)(e := None)"
  using cancel_view [OF assms, of e] by simp

theorem cancel_disarms_witness:
  "th_view (fst (pj_timer_heap_cancel (fst (pj_timer_heap_schedule (pj_timer_heap_create heap_mem 0)
     (Time_val 5 900) 7 (Time_val 1 200))) 7)) 7 = None"
  using cancel_disarms [OF schedule_view(2) [OF heap_mem_inv [of 0] heap_mem_idle], where e = 7]
  by simp

text \<open>The time \<^verbatim>\<open>pj_timer_heap_earliest_time\<close> reports is armed and no armed entry is earlier;
  it reports PJ_ENOTFOUND exactly when nothing is armed.\<close>

theorem earliest_is_minimum:
  assumes "th_inv ht"
  shows "case pj_timer_heap_earliest_time ht of
      (st, None) \<Rightarrow> st = PJ_ENOTFOUND \<and> th_view ht = Map.empty
    | (st, Some t) \<Rightarrow> st = PJ_SUCCESS \<and> t \<in> ran (th_view ht) \<and> (\<forall>t'\<in>ran (th_view ht). t \<le> t')"
proof (cases "cur_size ht = 0")
  case True
  then show ?thesis using empty_view [OF assms True] by (simp add: pj_timer_heap_earliest_time_def)
next
  case False
  then show ?thesis
    using root_pending(2) [OF assms False] root_least(2) [OF assms]
    by (auto simp: pj_timer_heap_earliest_time_def ran_def)
qed

theorem earliest_is_minimum_witness:
  "snd (pj_timer_heap_earliest_time (fst (pj_timer_heap_schedule (pj_timer_heap_create heap_mem 0)
     (Time_val 5 900) 7 (Time_val 1 200)))) \<noteq> None"
proof -
  let ?h = "fst (pj_timer_heap_schedule (pj_timer_heap_create heap_mem 0) (Time_val 5 900) 7
    (Time_val 1 200))"
  have "th_view ?h 7 = Some (PJ_TIME_VAL_ADD (Time_val 5 900) (Time_val 1 200))"
    using schedule_view(3) [OF heap_mem_inv [of 0] heap_mem_idle, where e = 7] by (simp only: fun_upd_same)
  then have "th_view ?h \<noteq> Map.empty" by (metis option.distinct(1))
  then show ?thesis
    using earliest_is_minimum [of ?h] schedule_view(2) [OF heap_mem_inv [of 0] heap_mem_idle, where e = 7]
    by (cases "snd (pj_timer_heap_earliest_time ?h)") (auto split: prod.splits)
qed

text \<open>C4: whatever the callbacks do, as long as they leave the heap well formed and do not raise the
  limit of the poll, \<^verbatim>\<open>pj_timer_heap_poll\<close> returns, has run at most \<open>max_entries_per_poll\<close> entries,
  and stops early only when no entry is due any more.\<close>

theorem poll_returns:
  assumes "keeps cb" "th_inv ht"
  shows "\<exists>ht' fired d. pj_timer_heap_poll cb now ht = Some (ht', fired, d) \<and> th_inv ht' \<and>
    length fired \<le> max_entries_per_poll ht \<and>
    (length fired < max_entries_per_poll ht' \<longrightarrow>
      (\<forall>e t. th_view ht' e = Some t \<longrightarrow> now < t))"
proof (cases "cur_size ht = 0")
  case True
  then show ?thesis
    using empty_view [OF assms(2) True] assms(2) by (simp add: pj_timer_heap_poll_def)
next
  case False
  obtain ht' more where r: "poll_loop cb now ht [] = Some (ht', more @ [])" "th_inv ht'"
    "length (more @ []) \<le> max (length ([]::nat list)) (max_entries_per_poll ht)"
    "\<not> poll_due now ht' (length (more @ []))"
    using poll_loop_returns [OF assms, of now "[]"] by blast
  have "now < t" if "length more < max_entries_per_poll ht'" "th_view ht' e = Some t" for e t
    using root_least [OF r(2) that(2)] r(4) that(1) by (auto simp: poll_due_def)
  then show ?thesis using r False by (auto simp: pj_timer_heap_poll_def)
qed

theorem poll_returns_witness:
  "pj_timer_heap_poll (\<lambda>h e. fst (pj_timer_heap_cancel h 3)) (Time_val 9 0)
     (fst (pj_timer_heap_schedule (pj_timer_heap_create heap_mem 0) (Time_val 5 900) 7
       (Time_val 1 200))) \<noteq> None"
proof -
  have "max_entries_per_poll (fst (pj_timer_heap_cancel h 3)) = max_entries_per_poll h"
    if "th_inv h" for h
    using cancel_pending(4) [OF that] cancel_idle [OF that]
    by (cases "pending h 3") (simp_all add: cancel_is_cancel)
  then have "keeps (\<lambda>h e. fst (pj_timer_heap_cancel h 3))"
    using cancel_view(2) by (simp add: keeps_def)
  from poll_returns [OF this schedule_view(2) [OF heap_mem_inv [of 0] heap_mem_idle]]
  show ?thesis by (metis option.distinct(1))
qed

text \<open>C3: when the callbacks leave the heap alone, a poll fires armed entries in the order of their
  times, each once, none before its time, and removes exactly those; it fires every due entry unless
  it reaches the limit.\<close>

theorem poll_fires_in_order:
  assumes "th_inv ht" and "pj_timer_heap_poll (\<lambda>h e. h) now ht = Some (ht', fired, d)"
  shows "sorted (map (\<lambda>e. the (th_view ht e)) fired) \<and> distinct fired \<and>
    (\<forall>e\<in>set fired. \<exists>t\<le>now. th_view ht e = Some t) \<and>
    th_view ht' = (th_view ht) |` (- set fired) \<and>
    (length fired < max_entries_per_poll ht \<longrightarrow> set fired = {e. \<exists>t\<le>now. th_view ht e = Some t})"
proof (cases "cur_size ht = 0")
  case True
  then show ?thesis
    using empty_view [OF assms(1) True] assms(2) by (auto simp: pj_timer_heap_poll_def)
next
  case False
  then have loop: "poll_loop (\<lambda>h e. h) now ht [] = Some (ht', rev fired)"
    using assms(2) by (auto simp: pj_timer_heap_poll_def)
  have lim: "\<exists>ht' more. poll_loop (\<lambda>h e. h) now ht fired = Some (ht', more) \<and>
      max_entries_per_poll ht' = max_entries_per_poll ht" if "th_inv ht" for ht fired
    using keeps_id that
  proof (induction ht fired rule: poll_induct [where now = now])
    case (Turn ht fired)
    then show ?case
      using remove_root(4) [of ht] by (auto simp: poll_loop_turn poll_due_def poll_turn_id)
  qed (simp add: poll_loop_turn)
  have res: "sorted (map (\<lambda>e. the (th_view ht e)) fired) \<and> distinct fired \<and>
      (\<forall>x\<in>set fired. the (th_view ht x) \<le> now) \<and> th_view ht' = (th_view ht) |` (- set fired) \<and>
      set fired \<subseteq> dom (th_view ht)"
    using poll_id_order [OF assms(1), of "[]" "\<lambda>e. the (th_view ht e)" now ht' "rev fired"] loop by auto
  have "now < t" if "length fired < max_entries_per_poll ht" "th_view ht' e = Some t" for e t
    using poll_loop_returns [OF keeps_id assms(1), of now "[]"] lim [OF assms(1), of "[]"] that
      root_least [of ht' e t] by (auto simp: loop poll_due_def)
  then have "set fired = {e. \<exists>t\<le>now. th_view ht e = Some t}"
    if "length fired < max_entries_per_poll ht"
    using res that by (force simp: restrict_map_def not_less split: if_splits)
  then show ?thesis using res by force
qed

theorem poll_fires_in_order_witness:
  "\<exists>h. map_option (\<lambda>(h, fired, d). fired) (pj_timer_heap_poll (\<lambda>h e. h) (Time_val 9 0) h) = Some [7] \<and>
     th_view h 7 = Some (Time_val 7 100)"
proof -
  let ?h = "fst (pj_timer_heap_schedule (pj_timer_heap_create heap_mem 0) (Time_val 5 900) 7
    (Time_val 1 200))"
  have fired: "map_option (\<lambda>(h, fired, d). fired)
      (pj_timer_heap_poll (\<lambda>h e. h) (Time_val 9 0) ?h) = Some [7]" by code_simp
  then obtain h' d where "pj_timer_heap_poll (\<lambda>h e. h) (Time_val 9 0) ?h = Some (h', [7], d)"
    by auto
  from poll_fires_in_order [OF schedule_view(2) [OF heap_mem_inv [of 0] heap_mem_idle] this]
  have "\<exists>t. th_view ?h 7 = Some t" by fastforce
  then have "th_view ?h 7 \<noteq> None" by (simp only: not_None_eq)
  moreover have "timer_value (nodes ?h 7) = Time_val 7 100" by code_simp
  ultimately have "th_view ?h 7 = Some (Time_val 7 100)"
    by (cases "pending ?h 7") (simp_all add: th_view_def)
  then show ?thesis using fired by blast
qed

text \<open>Scheduling an entry that is still pending is the caller's error, and the guard against it is
  a debug assertion: with the extra checks compiled out the call succeeds and the heap lists the
  entry twice, so that after one cancel the entry still sits at the root, unarmed by its own record.\<close>

theorem double_schedule_corrupts:
  "let h1 = fst (pj_timer_heap_schedule (pj_timer_heap_create heap_mem 0) (Time_val 0 0) 7 (Time_val 1 0));
       r2 = pj_timer_heap_schedule h1 (Time_val 0 0) 7 (Time_val 2 0);
       h3 = fst (pj_timer_heap_cancel (fst r2) 7)
   in snd r2 = PJ_SUCCESS \<and> \<not> th_inv h3 \<and> pj_timer_heap_count h3 = 1 \<and> heap h3 ! 0 = 7 \<and>
      th_view h3 7 = None \<and> pj_timer_heap_cancel h3 7 = (h3, 0)"
proof -
  let ?h1 = "fst (pj_timer_heap_schedule (pj_timer_heap_create heap_mem 0) (Time_val 0 0) 7 (Time_val 1 0))"
  let ?r2 = "pj_timer_heap_schedule ?h1 (Time_val 0 0) 7 (Time_val 2 0)"
  let ?h3 = "fst (pj_timer_heap_cancel (fst ?r2) 7)"
  have st: "snd ?r2 = PJ_SUCCESS" by code_simp
  have h3: "pj_timer_heap_count ?h3 = 1 \<and> heap ?h3 ! 0 = 7 \<and> timer_id (nodes ?h3 7) = -1"
    by code_simp
  then have "7 \<in> slots ?h3 {..<cur_size ?h3}" "\<not> pending ?h3 7"
    by (auto simp: slots_def pj_timer_heap_count_def pending_def)
  then have "\<not> th_inv ?h3" by (auto simp: th_inv_def)
  moreover have "pj_timer_heap_cancel ?h3 7 = (?h3, 0)"
    using h3 by (simp add: cancel_is_cancel cancel_def)
  ultimately show ?thesis
    using st h3 \<open>\<not> pending ?h3 7\<close> by (simp only: Let_def) simp
qed

end
