(* ===== verification/Hash_Table.thy ===== *)
theory Hash_Table
  imports Pj_Prelude "HOL-Library.Word"
begin

text \<open>
  The chained hash table of \<^verbatim>\<open>pjlib/src/pj/hash.c\<close>. A bucket is the list of the entries chained from
  it, a pointer to a link of the chain is a position in that list (the end of the list is the NULL
  link), and an iterator's entry pointer is the rest of its chain. A key is the memory it points to
  and a length; entries made through a pool own a copy of the key bytes, the others share the
  caller's, which has to stay unchanged while the entry lives. A value is never NULL inside the
  table; NULL, as an argument or a result, is \<open>None\<close>.
\<close>

unbundle bit_operations_syntax

section \<open>Hashing\<close>

definition PJ_HASH_MULTIPLIER :: "32 word" where
  "PJ_HASH_MULTIPLIER = 33"

definition PJ_HASH_KEY_STRING :: "32 word" where
  "PJ_HASH_KEY_STRING = 0xFFFFFFFF"

text \<open>The bytes a key and a length denote.\<close>

definition key_bytes :: "8 word list \<Rightarrow> 32 word \<Rightarrow> 8 word list" where
  "key_bytes key keylen =
     (if keylen = PJ_HASH_KEY_STRING then takeWhile (\<lambda>p. p \<noteq> 0) key else take (unat keylen) key)"

fun hash_bytes :: "32 word \<Rightarrow> 8 word list \<Rightarrow> 32 word" where
  "hash_bytes hash [] = hash"
| "hash_bytes hash (p # ps) = hash_bytes (hash * PJ_HASH_MULTIPLIER + ucast p) ps"

definition pj_hash_calc :: "32 word \<Rightarrow> 8 word list \<Rightarrow> 32 word \<Rightarrow> 32 word" where
  "pj_hash_calc hash key keylen = hash_bytes hash (key_bytes key keylen)"

definition pj_tolower :: "8 word \<Rightarrow> 8 word" where
  "pj_tolower c = (if 65 \<le> c \<and> c \<le> 90 then c + 32 else c)"

text \<open>
  Plain \<open>char\<close> is signed on some targets, and the hash adds the \<open>char\<close>, not the byte.
\<close>

definition char_value :: "bool \<Rightarrow> 8 word \<Rightarrow> 32 word" where
  "char_value char_signed c = (if char_signed then scast c else ucast c)"

fun pj_hash_calc_tolower :: "bool \<Rightarrow> 32 word \<Rightarrow> 8 word list \<Rightarrow> 32 word \<times> 8 word list" where
  "pj_hash_calc_tolower char_signed hval [] = (hval, [])"
| "pj_hash_calc_tolower char_signed hval (c # cs) =
     (let r = pj_tolower c;
          (hval, result) =
            pj_hash_calc_tolower char_signed (hval * PJ_HASH_MULTIPLIER + char_value char_signed r) cs
      in (hval, r # result))"

section \<open>The table\<close>

record 'v pj_hash_entry =
  he_key :: "8 word list"
  he_hash :: "32 word"
  he_value :: 'v

record 'v pj_hash_table_t =
  ht_table :: "'v pj_hash_entry list list"
  ht_count :: nat
  ht_rows :: "32 word"

text \<open>
  The size loop of \<^verbatim>\<open>pj_hash_create\<close> shifts a 32-bit word: it need not end for a size above
  \<open>2 ^ 31\<close>, where the shift reaches 0.
\<close>

partial_function (option) round_size :: "32 word \<Rightarrow> 32 word \<Rightarrow> 32 word option" where
  "round_size table_size sz =
     (let table_size = push_bit 1 table_size
      in if table_size < sz then round_size table_size sz else Some table_size)"

declare round_size.simps [code]

definition pj_hash_create :: "32 word \<Rightarrow> 'v pj_hash_table_t option" where
  "pj_hash_create sz =
     map_option (\<lambda>table_size.
         \<lparr>ht_table = replicate (unat (table_size - 1) + 1) [], ht_count = 0,
          ht_rows = table_size - 1\<rparr>)
       (round_size 8 sz)"

text \<open>The scan of a chain stops at the entry or at the NULL link.\<close>

fun scan_chain :: "32 word \<Rightarrow> 8 word list \<Rightarrow> 'v pj_hash_entry list \<Rightarrow> nat" where
  "scan_chain hash key [] = 0"
| "scan_chain hash key (e # es) =
     (if he_hash e = hash \<and> length (he_key e) = length key \<and> he_key e = key then 0
      else Suc (scan_chain hash key es))"

text \<open>
  \<^verbatim>\<open>find_entry\<close>: the table, the link found (bucket and position) and the hash reported back. A
  missing entry is created when a value is given.
\<close>

definition find_entry ::
    "'v pj_hash_table_t \<Rightarrow> 8 word list \<Rightarrow> 32 word \<Rightarrow> 'v option \<Rightarrow> 32 word
     \<Rightarrow> 'v pj_hash_table_t \<times> nat \<times> nat \<times> 32 word" where
  "find_entry ht mem keylen val hval =
     (let key = key_bytes mem keylen;
          hash = (if hval \<noteq> 0 then hval else hash_bytes 0 key);
          b = unat (hash AND ht_rows ht);
          chain = ht_table ht ! b;
          i = scan_chain hash key chain
      in if i < length chain \<or> val = None then (ht, b, i, hash)
         else (ht\<lparr>ht_table := (ht_table ht)
                    [b := chain @ [\<lparr>he_key = key, he_hash = hash, he_value = the val\<rparr>]],
                  ht_count := ht_count ht + 1\<rparr>, b, i, hash))"

definition pj_hash_get ::
    "'v pj_hash_table_t \<Rightarrow> 8 word list \<Rightarrow> 32 word \<Rightarrow> 32 word \<Rightarrow> 'v option \<times> 32 word" where
  "pj_hash_get ht mem keylen hval =
     (let (ht', b, i, hash) = find_entry ht mem keylen None hval;
          chain = ht_table ht' ! b
      in (if i < length chain then Some (he_value (chain ! i)) else None, hash))"

definition pj_hash_set ::
    "'v pj_hash_table_t \<Rightarrow> 8 word list \<Rightarrow> 32 word \<Rightarrow> 32 word \<Rightarrow> 'v option \<Rightarrow> 'v pj_hash_table_t" where
  "pj_hash_set ht mem keylen hval val =
     (let (ht, b, i, hash) = find_entry ht mem keylen val hval;
          chain = ht_table ht ! b
      in if i < length chain then
           (case val of
              None \<Rightarrow> ht\<lparr>ht_table := (ht_table ht)[b := take i chain @ drop (Suc i) chain],
                         ht_count := ht_count ht - 1\<rparr>
            | Some v \<Rightarrow> ht\<lparr>ht_table := (ht_table ht)[b := chain[i := (chain ! i)\<lparr>he_value := v\<rparr>]]\<rparr>)
         else ht)"

text \<open>The no-pool variant differs in where the entry and its key live.\<close>

definition pj_hash_set_np ::
    "'v pj_hash_table_t \<Rightarrow> 8 word list \<Rightarrow> 32 word \<Rightarrow> 32 word \<Rightarrow> 'v option \<Rightarrow> 'v pj_hash_table_t" where
  "pj_hash_set_np ht mem keylen hval val =
     (let (ht, b, i, hash) = find_entry ht mem keylen val hval;
          chain = ht_table ht ! b
      in if i < length chain then
           (case val of
              None \<Rightarrow> ht\<lparr>ht_table := (ht_table ht)[b := take i chain @ drop (Suc i) chain],
                         ht_count := ht_count ht - 1\<rparr>
            | Some v \<Rightarrow> ht\<lparr>ht_table := (ht_table ht)[b := chain[i := (chain ! i)\<lparr>he_value := v\<rparr>]]\<rparr>)
         else ht)"

definition pj_hash_count :: "'v pj_hash_table_t \<Rightarrow> nat" where
  "pj_hash_count ht = ht_count ht"

section \<open>Iteration\<close>

record 'v pj_hash_iterator_t =
  it_index :: nat
  it_entry :: "'v pj_hash_entry list"

text \<open>The bucket loop shared by \<^verbatim>\<open>pj_hash_first\<close> and \<^verbatim>\<open>pj_hash_next\<close>.\<close>

function first_from :: "'v pj_hash_table_t \<Rightarrow> nat \<Rightarrow> 'v pj_hash_iterator_t option" where
  "first_from ht index =
     (if index \<le> unat (ht_rows ht) then
        if ht_table ht ! index \<noteq> [] then Some \<lparr>it_index = index, it_entry = ht_table ht ! index\<rparr>
        else first_from ht (index + 1)
      else None)"
  by pat_completeness auto
termination
  by (relation "measure (\<lambda>(ht, i). Suc (unat (ht_rows ht)) - i)") auto

declare first_from.simps [simp del]

definition pj_hash_first :: "'v pj_hash_table_t \<Rightarrow> 'v pj_hash_iterator_t option" where
  "pj_hash_first ht = first_from ht 0"

definition pj_hash_next ::
    "'v pj_hash_table_t \<Rightarrow> 'v pj_hash_iterator_t \<Rightarrow> 'v pj_hash_iterator_t option" where
  "pj_hash_next ht it =
     (if tl (it_entry it) \<noteq> [] then Some (it\<lparr>it_entry := tl (it_entry it)\<rparr>)
      else first_from ht (it_index it + 1))"

definition pj_hash_this :: "'v pj_hash_iterator_t \<Rightarrow> 'v" where
  "pj_hash_this it = he_value (hd (it_entry it))"

section \<open>Invariant and abstract map\<close>

text \<open>
  A table is well formed when there is one chain per row, every entry sits in the row of the hash of
  its own key, no chain repeats a key, and \<open>count\<close> counts the entries.
\<close>

definition ht_inv :: "'v pj_hash_table_t \<Rightarrow> bool" where
  "ht_inv ht \<longleftrightarrow>
     length (ht_table ht) = unat (ht_rows ht) + 1 \<and>
     ht_count ht = sum_list (map length (ht_table ht)) \<and>
     (\<forall>b<length (ht_table ht). distinct (map he_key (ht_table ht ! b)) \<and>
        (\<forall>e\<in>set (ht_table ht ! b). he_hash e = hash_bytes 0 (he_key e) \<and>
           unat (he_hash e AND ht_rows ht) = b))"

definition row_of :: "'v pj_hash_table_t \<Rightarrow> 8 word list \<Rightarrow> nat" where
  "row_of ht k = unat (hash_bytes 0 k AND ht_rows ht)"

definition ht_view :: "'v pj_hash_table_t \<Rightarrow> 8 word list \<Rightarrow> 'v option" where
  "ht_view ht k = map_of (map (\<lambda>e. (he_key e, he_value e)) (ht_table ht ! row_of ht k)) k"

text \<open>A caller passes either 0 or the hash of the key.\<close>

definition hval_ok :: "8 word list \<Rightarrow> 32 word \<Rightarrow> bool" where
  "hval_ok k hval \<longleftrightarrow> hval = 0 \<or> hval = hash_bytes 0 k"

lemma row_of_bound:
  assumes "ht_inv ht"
  shows "row_of ht k < length (ht_table ht)"
proof -
  have "hash_bytes 0 k AND ht_rows ht \<le> ht_rows ht" by (rule word_and_le1)
  then show ?thesis using assms by (simp add: ht_inv_def row_of_def word_le_nat_alt)
qed

lemma chain_inv:
  assumes "ht_inv ht"
  shows "distinct (map he_key (ht_table ht ! row_of ht k))"
    "e \<in> set (ht_table ht ! row_of ht k) \<Longrightarrow> he_hash e = hash_bytes 0 (he_key e)"
    "e \<in> set (ht_table ht ! row_of ht k) \<Longrightarrow> row_of ht (he_key e) = row_of ht k"
proof -
  have chain: "distinct (map he_key (ht_table ht ! row_of ht k)) \<and>
      (\<forall>e\<in>set (ht_table ht ! row_of ht k). he_hash e = hash_bytes 0 (he_key e) \<and>
         unat (he_hash e AND ht_rows ht) = row_of ht k)"
    using assms row_of_bound [OF assms, of k] unfolding ht_inv_def by blast
  then show "distinct (map he_key (ht_table ht ! row_of ht k))" by blast
  show "he_hash e = hash_bytes 0 (he_key e)" if "e \<in> set (ht_table ht ! row_of ht k)"
    using chain that by blast
  then show "row_of ht (he_key e) = row_of ht k" if "e \<in> set (ht_table ht ! row_of ht k)"
    using chain that by (fastforce simp: row_of_def [of ht "he_key e"])
qed

lemma scan_chain_le: "scan_chain h k es \<le> length es"
  by (induction es) auto

lemma scan_chain_found:
  "scan_chain h k es < length es \<Longrightarrow>
     he_hash (es ! scan_chain h k es) = h \<and> he_key (es ! scan_chain h k es) = k"
  by (induction es) (auto split: if_splits)

lemma scan_chain_absent:
  "(\<forall>e\<in>set es. he_hash e = hash_bytes 0 (he_key e)) \<Longrightarrow>
     scan_chain (hash_bytes 0 k) k es = length es \<longleftrightarrow> k \<notin> he_key ` set es"
  by (induction es) auto

lemma find_entry_eq:
  assumes "hval_ok (key_bytes mem keylen) hval"
  shows "find_entry ht mem keylen val hval =
     (let k = key_bytes mem keylen; b = row_of ht k; chain = ht_table ht ! b;
          i = scan_chain (hash_bytes 0 k) k chain
      in if i < length chain \<or> val = None then (ht, b, i, hash_bytes 0 k)
         else (ht\<lparr>ht_table := (ht_table ht)
                 [b := chain @ [\<lparr>he_key = k, he_hash = hash_bytes 0 k, he_value = the val\<rparr>]],
               ht_count := ht_count ht + 1\<rparr>, b, i, hash_bytes 0 k))"
proof -
  have "(if hval \<noteq> 0 then hval else hash_bytes 0 (key_bytes mem keylen))
      = hash_bytes 0 (key_bytes mem keylen)"
    using assms by (auto simp: hval_ok_def)
  then show ?thesis by (simp add: find_entry_def row_of_def Let_def)
qed

lemma map_of_absent:
  "k \<notin> he_key ` set es \<Longrightarrow> map_of (map (\<lambda>e. (he_key e, he_value e)) es) k = None"
  by (induction es) auto

lemma map_of_found:
  "distinct (map he_key es) \<Longrightarrow> i < length es \<Longrightarrow>
     map_of (map (\<lambda>e. (he_key e, he_value e)) es) (he_key (es ! i)) = Some (he_value (es ! i))"
  by (induction es arbitrary: i)
    (auto simp: nth_Cons split: nat.splits dest!: nth_mem, metis image_eqI)

text \<open>Where a key is, or that it is nowhere.\<close>

lemma chain_cases [consumes 1, case_names Found Absent]:
  assumes inv: "ht_inv ht"
  obtains i where "scan_chain (hash_bytes 0 k) k (ht_table ht ! row_of ht k) = i"
      "i < length (ht_table ht ! row_of ht k)" "he_key (ht_table ht ! row_of ht k ! i) = k"
      "ht_view ht k = Some (he_value (ht_table ht ! row_of ht k ! i))"
  | "scan_chain (hash_bytes 0 k) k (ht_table ht ! row_of ht k) = length (ht_table ht ! row_of ht k)"
      "k \<notin> he_key ` set (ht_table ht ! row_of ht k)" "ht_view ht k = None"
proof (cases "scan_chain (hash_bytes 0 k) k (ht_table ht ! row_of ht k)
    < length (ht_table ht ! row_of ht k)")
  case True
  have key: "he_key (ht_table ht ! row_of ht k
      ! scan_chain (hash_bytes 0 k) k (ht_table ht ! row_of ht k)) = k"
    using scan_chain_found [OF True] by simp
  then show ?thesis
    using that(1) True map_of_found [OF chain_inv(1) [OF inv] True] by (simp add: ht_view_def)
next
  case False
  then have full: "scan_chain (hash_bytes 0 k) k (ht_table ht ! row_of ht k)
      = length (ht_table ht ! row_of ht k)"
    using scan_chain_le [of "hash_bytes 0 k" k "ht_table ht ! row_of ht k"] by simp
  then have absent: "k \<notin> he_key ` set (ht_table ht ! row_of ht k)"
    using scan_chain_absent [of "ht_table ht ! row_of ht k" k] chain_inv(2) [OF inv] by simp
  show ?thesis using that(2) [OF full absent] map_of_absent [OF absent] by (simp add: ht_view_def)
qed

end
