(* ===== verification/Hash_Table_Ops.thy ===== *)
theory Hash_Table_Ops
  imports Hash_Table
begin

text \<open>
  The hash table implements a finite map: creation gives the empty map, lookup reads it, setting a
  value updates it and setting NULL deletes, \<open>count\<close> is the number of keys and iteration visits
  every entry once. The interface its clients use is the locale \<open>registry\<close>.
\<close>

section \<open>Creation\<close>

lemma round_size_step:
  "round_size t sz =
     (if push_bit 1 t < sz then round_size (push_bit 1 t) sz else Some (push_bit 1 t))"
  by (subst round_size.simps) (simp add: Let_def)

lemma push_pow: "push_bit 1 (2 ^ k :: 32 word) = 2 ^ Suc k"
  by (simp add: push_bit_eq_mult)

text \<open>Up to \<open>2 ^ 31\<close> the loop ends, at a power of two.\<close>

lemma round_size_returns:
  assumes "sz \<le> 2 ^ 31" "3 \<le> k" "k < 31"
  shows "\<exists>n. 4 \<le> n \<and> n \<le> 31 \<and> round_size (2 ^ k) sz = Some (2 ^ n) \<and> sz \<le> 2 ^ n"
  using assms(2,3)
proof (induction "31 - k" arbitrary: k rule: less_induct)
  case less
  show ?case
  proof (cases "(2 ^ Suc k :: 32 word) < sz")
    case True
    have "Suc k < 31"
    proof (rule ccontr)
      assume "\<not> Suc k < 31"
      then have "Suc k = 31" using less.prems by simp
      then show False using True assms(1) by simp
    qed
    then have "\<exists>n. 4 \<le> n \<and> n \<le> 31 \<and> round_size (2 ^ Suc k) sz = Some (2 ^ n) \<and> sz \<le> 2 ^ n"
      using less.prems by (intro less.hyps) auto
    then show ?thesis
      using True by (subst round_size_step) (simp only: push_pow if_True)
  next
    case False
    then have "round_size (2 ^ k) sz = Some (2 ^ Suc k)"
      by (subst round_size_step) (simp only: push_pow if_False)
    then show ?thesis using False less.prems by (intro exI [of _ "Suc k"]) auto
  qed
qed

lemma create_inv:
  assumes "sz \<le> 2 ^ 31"
  obtains ht n where "pj_hash_create sz = Some ht" "ht_inv ht" "ht_view ht = Map.empty"
    "ht_rows ht = mask n" "sz \<le> 2 ^ n" "4 \<le> n" "n \<le> 31"
proof -
  obtain n where n: "4 \<le> n" "n \<le> 31" "round_size (2 ^ 3) sz = Some (2 ^ n)" "sz \<le> 2 ^ n"
    using round_size_returns [OF assms, of 3] by auto
  let ?ht = "\<lparr>ht_table = replicate (unat (2 ^ n - 1 :: 32 word) + 1) [], ht_count = 0,
    ht_rows = 2 ^ n - 1\<rparr> :: 'a pj_hash_table_t"
  have eq: "pj_hash_create sz = Some ?ht" using n(3) by (simp add: pj_hash_create_def)
  have inv: "ht_inv ?ht"
    by (simp add: ht_inv_def sum_list_replicate nth_replicate del: replicate_Suc)
  moreover have "ht_view ?ht k = None" for k
    using row_of_bound [OF inv, of k] by (simp add: ht_view_def nth_replicate del: replicate_Suc)
  ultimately show ?thesis using that [of ?ht n] eq n by (simp add: mask_eq_decr_exp fun_eq_iff)
qed

section \<open>Lookup and update\<close>

text \<open>Replacing one chain by another with the same hash discipline keeps the table well formed.\<close>

lemma sum_list_length_update:
  "b < length xss \<Longrightarrow>
     sum_list (map length (xss[b := ys])) + length (xss ! b) = sum_list (map length xss) + length ys"
  by (induction xss arbitrary: b) (auto split: nat.splits)

lemma ht_inv_update:
  assumes inv: "ht_inv ht" and b: "b < length (ht_table ht)"
    and count: "c + length (ht_table ht ! b) = ht_count ht + length ys"
    and dist: "distinct (map he_key ys)"
    and hash: "\<And>e. e \<in> set ys \<Longrightarrow> he_hash e = hash_bytes 0 (he_key e) \<and> row_of ht (he_key e) = b"
  shows "ht_inv (ht\<lparr>ht_table := (ht_table ht)[b := ys], ht_count := c\<rparr>)"
proof -
  have "c = sum_list (map length ((ht_table ht)[b := ys]))"
    using inv count sum_list_length_update [OF b, of ys] by (simp add: ht_inv_def)
  moreover have "unat (he_hash e AND ht_rows ht) = b" if "e \<in> set ys" for e
    using hash [OF that] by (simp add: row_of_def)
  moreover have "distinct (map he_key ((ht_table ht)[b := ys] ! i)) \<and>
      (\<forall>e\<in>set ((ht_table ht)[b := ys] ! i). he_hash e = hash_bytes 0 (he_key e) \<and>
         unat (he_hash e AND ht_rows ht) = i)" if "i < length (ht_table ht)" for i
  proof (cases "i = b")
    case True
    then show ?thesis using that dist hash calculation(2) by simp
  next
    case False
    then have same: "(ht_table ht)[b := ys] ! i = ht_table ht ! i" by simp
    show ?thesis unfolding same using that inv unfolding ht_inv_def by blast
  qed
  moreover have proj: "ht_table (ht\<lparr>ht_table := (ht_table ht)[b := ys], ht_count := c\<rparr>) = (ht_table ht)[b := ys]"
    "ht_count (ht\<lparr>ht_table := (ht_table ht)[b := ys], ht_count := c\<rparr>) = c"
    "ht_rows (ht\<lparr>ht_table := (ht_table ht)[b := ys], ht_count := c\<rparr>) = ht_rows ht"
    by simp_all
  moreover have "length (ht_table ht) = unat (ht_rows ht) + 1" using inv unfolding ht_inv_def by blast
  ultimately show ?thesis unfolding ht_inv_def proj length_list_update by blast
qed

abbreviation pairs :: "'v pj_hash_entry list \<Rightarrow> (8 word list \<times> 'v) list" where
  "pairs es \<equiv> map (\<lambda>e. (he_key e, he_value e)) es"

lemma ht_view_update:
  assumes inv: "ht_inv ht"
    and ys: "map_of (pairs ys) = (map_of (pairs (ht_table ht ! row_of ht k)))(k := v)"
  shows "ht_view (ht\<lparr>ht_table := (ht_table ht)[row_of ht k := ys], ht_count := c\<rparr>)
    = (ht_view ht)(k := v)"
proof
  fix k'
  have row: "row_of (ht\<lparr>ht_table := (ht_table ht)[row_of ht k := ys], ht_count := c\<rparr>) k' = row_of ht k'"
    by (simp add: row_of_def)
  show "ht_view (ht\<lparr>ht_table := (ht_table ht)[row_of ht k := ys], ht_count := c\<rparr>) k'
      = ((ht_view ht)(k := v)) k'"
  proof (cases "row_of ht k' = row_of ht k")
    case True
    then show ?thesis using row_of_bound [OF inv, of k] ys by (simp add: ht_view_def row)
  next
    case False
    then show ?thesis by (auto simp: ht_view_def row)
  qed
qed

lemma get_view:
  assumes "ht_inv ht" "hval_ok (key_bytes mem keylen) hval"
  shows "pj_hash_get ht mem keylen hval = (ht_view ht (key_bytes mem keylen), hash_bytes 0 (key_bytes mem keylen))"
  using assms(1)
  by (cases rule: chain_cases [where k = "key_bytes mem keylen"])
    (simp_all add: pj_hash_get_def find_entry_eq [OF assms(2)] Let_def)

lemma set_absent:
  assumes "ht_inv ht" "hval_ok (key_bytes mem keylen) hval" "ht_view ht (key_bytes mem keylen) = None"
  shows "pj_hash_set ht mem keylen hval val =
    (case val of None \<Rightarrow> ht
     | Some v \<Rightarrow> (let k = key_bytes mem keylen; b = row_of ht k
         in ht\<lparr>ht_table := (ht_table ht)[b := ht_table ht ! b
                   @ [\<lparr>he_key = k, he_hash = hash_bytes 0 k, he_value = v\<rparr>]],
               ht_count := ht_count ht + 1\<rparr>))"
  using assms(1)
proof (cases rule: chain_cases [where k = "key_bytes mem keylen"])
  case (Found i)
  then show ?thesis using assms(3) by simp
next
  case Absent
  then show ?thesis
    using row_of_bound [OF assms(1), of "key_bytes mem keylen"]
    by (simp add: pj_hash_set_def find_entry_eq [OF assms(2)] Let_def list_update_append
        split: option.split)
qed

lemma drop_one: "i < length es \<Longrightarrow> es = take i es @ es ! i # drop (Suc i) es"
  by (simp add: Cons_nth_drop_Suc)

lemma map_of_delete:
  assumes "distinct (map f es)" "i < length es"
  shows "map_of (map (\<lambda>e. (f e, g e)) (take i es @ drop (Suc i) es))
    = (map_of (map (\<lambda>e. (f e, g e)) es))(f (es ! i) := None)"
proof -
  have eq: "es = take i es @ es ! i # drop (Suc i) es" by (rule drop_one [OF assms(2)])
  have d: "distinct (map f (take i es @ es ! i # drop (Suc i) es))"
    using assms(1) eq by simp
  have a: "map_of (map (\<lambda>e. (f e, g e)) xs) (f x) = None" if "f x \<notin> f ` set xs" for xs x
    using that by (induction xs) auto
  show ?thesis
    by (subst (3) eq) (use d a in \<open>auto simp: fun_eq_iff map_add_def split: option.splits\<close>)
qed

lemma map_of_overwrite:
  assumes "distinct (map f es)" "i < length es" "f e' = f (es ! i)"
  shows "map_of (map (\<lambda>e. (f e, g e)) (es[i := e'])) = (map_of (map (\<lambda>e. (f e, g e)) es))(f e' \<mapsto> g e')"
  using assms
proof (induction es arbitrary: i)
  case (Cons x es)
  show ?case
  proof (cases i)
    case (Suc n)
    have "es ! n \<in> set es" "f x \<notin> f ` set es" using Cons.prems Suc by simp_all
    then have "f (es ! n) \<noteq> f x" by (metis image_eqI)
    then have "f e' \<noteq> f x" using Cons.prems Suc by simp
    then show ?thesis using Cons Suc by (auto simp: fun_eq_iff)
  qed (use Cons.prems in \<open>auto simp: fun_eq_iff\<close>)
qed simp

lemma set_delete:
  assumes inv: "ht_inv ht" and hv: "hval_ok (key_bytes mem keylen) hval"
  shows "ht_inv (pj_hash_set ht mem keylen hval None)"
    "ht_view (pj_hash_set ht mem keylen hval None) = (ht_view ht)(key_bytes mem keylen := None)"
proof -
  let ?k = "key_bytes mem keylen"
  let ?es = "ht_table ht ! row_of ht ?k"
  note b = row_of_bound [OF inv, of ?k] and chain = chain_inv [OF inv, where k = ?k]
  have "ht_inv (pj_hash_set ht mem keylen hval None) \<and>
    ht_view (pj_hash_set ht mem keylen hval None) = (ht_view ht)(?k := None)"
    using inv
  proof (cases rule: chain_cases [where k = ?k])
    case (Found i)
    let ?ys = "take i ?es @ drop (Suc i) ?es"
    have eq: "pj_hash_set ht mem keylen hval None =
        ht\<lparr>ht_table := (ht_table ht)[row_of ht ?k := ?ys], ht_count := ht_count ht - 1\<rparr>"
      using Found by (simp add: pj_hash_set_def find_entry_eq [OF hv] Let_def)
    have "length ?es \<le> ht_count ht"
      using inv b member_le_sum_list [of "length ?es" "map length (ht_table ht)"]
      by (simp add: ht_inv_def)
    then have count: "ht_count ht - 1 + length ?es = ht_count ht + length ?ys"
      using Found(2) by simp
    have "distinct (map he_key (take i ?es @ ?es ! i # drop (Suc i) ?es))"
      using chain(1) drop_one [OF Found(2)] by simp
    then have dist: "distinct (map he_key ?ys)" by simp
    have "set ?ys \<subseteq> set ?es" by (auto dest: in_set_takeD in_set_dropD)
    then have "ht_inv (ht\<lparr>ht_table := (ht_table ht)[row_of ht ?k := ?ys], ht_count := ht_count ht - 1\<rparr>)"
      using chain(2,3) by (intro ht_inv_update [OF inv b count dist]) blast
    moreover have "map_of (pairs ?ys) = (map_of (pairs ?es))(?k := None)"
      using map_of_delete [OF chain(1) Found(2), of he_value] Found(3) by simp
    ultimately show ?thesis unfolding eq using ht_view_update [OF inv] by blast
  next
    case Absent
    then show ?thesis using set_absent [OF inv hv Absent(3)] inv by (auto simp: fun_eq_iff)
  qed
  then show "ht_inv (pj_hash_set ht mem keylen hval None)"
    "ht_view (pj_hash_set ht mem keylen hval None) = (ht_view ht)(?k := None)"
    by simp_all
qed

lemma set_insert:
  assumes inv: "ht_inv ht" and hv: "hval_ok (key_bytes mem keylen) hval"
  shows "ht_inv (pj_hash_set ht mem keylen hval (Some v))"
    "ht_view (pj_hash_set ht mem keylen hval (Some v)) = (ht_view ht)(key_bytes mem keylen \<mapsto> v)"
proof -
  let ?k = "key_bytes mem keylen"
  let ?es = "ht_table ht ! row_of ht ?k"
  note b = row_of_bound [OF inv, of ?k] and chain = chain_inv [OF inv, where k = ?k]
  have "ht_inv (pj_hash_set ht mem keylen hval (Some v)) \<and>
    ht_view (pj_hash_set ht mem keylen hval (Some v)) = (ht_view ht)(?k \<mapsto> v)"
    using inv
  proof (cases rule: chain_cases [where k = ?k])
    case (Found i)
    let ?e = "(?es ! i)\<lparr>he_value := v\<rparr>"
    have eq: "pj_hash_set ht mem keylen hval (Some v) =
        ht\<lparr>ht_table := (ht_table ht)[row_of ht ?k := ?es[i := ?e]], ht_count := ht_count ht\<rparr>"
      using Found by (simp add: pj_hash_set_def find_entry_eq [OF hv] Let_def)
    have keys: "map he_key (?es[i := ?e]) = map he_key ?es"
      using Found(2) by (simp add: map_update list_update_same_conv)
    have new: "he_hash ?e = hash_bytes 0 (he_key ?e) \<and> row_of ht (he_key ?e) = row_of ht ?k"
      using chain(2,3) nth_mem [OF Found(2)] by simp
    have "ht_inv (ht\<lparr>ht_table := (ht_table ht)[row_of ht ?k := ?es[i := ?e]], ht_count := ht_count ht\<rparr>)"
    proof (rule ht_inv_update [OF inv b])
      show "he_hash e = hash_bytes 0 (he_key e) \<and> row_of ht (he_key e) = row_of ht ?k"
        if "e \<in> set (?es[i := ?e])" for e
        using that set_update_subset_insert [of ?es i ?e] new chain(2,3) by blast
    qed (use chain(1) keys in simp_all)
    moreover have "map_of (pairs (?es[i := ?e])) = (map_of (pairs ?es))(?k \<mapsto> v)"
      using map_of_overwrite [OF chain(1) Found(2), of ?e he_value] Found(3) by simp
    ultimately show ?thesis unfolding eq using ht_view_update [OF inv] by blast
  next
    case Absent
    let ?e = "\<lparr>he_key = ?k, he_hash = hash_bytes 0 ?k, he_value = v\<rparr>"
    have eq: "pj_hash_set ht mem keylen hval (Some v) =
        ht\<lparr>ht_table := (ht_table ht)[row_of ht ?k := ?es @ [?e]], ht_count := ht_count ht + 1\<rparr>"
      using set_absent [OF inv hv Absent(3), of "Some v"] by (simp add: Let_def)
    have "ht_inv (ht\<lparr>ht_table := (ht_table ht)[row_of ht ?k := ?es @ [?e]], ht_count := ht_count ht + 1\<rparr>)"
    proof (rule ht_inv_update [OF inv b])
      show "he_hash e = hash_bytes 0 (he_key e) \<and> row_of ht (he_key e) = row_of ht ?k"
        if "e \<in> set (?es @ [?e])" for e
        using that chain(2,3) by auto
    qed (use chain(1) Absent(2) in simp_all)
    moreover have "map_of (pairs (?es @ [?e])) = (map_of (pairs ?es))(?k \<mapsto> v)"
      using map_of_absent [OF Absent(2)]
      by (auto simp: fun_eq_iff map_add_def split: option.splits)
    ultimately show ?thesis unfolding eq using ht_view_update [OF inv] by blast
  qed
  then show "ht_inv (pj_hash_set ht mem keylen hval (Some v))"
    "ht_view (pj_hash_set ht mem keylen hval (Some v)) = (ht_view ht)(?k \<mapsto> v)"
    by simp_all
qed

lemma set_view:
  assumes "ht_inv ht" "hval_ok (key_bytes mem keylen) hval"
  shows "ht_inv (pj_hash_set ht mem keylen hval val)"
    "ht_view (pj_hash_set ht mem keylen hval val) = (ht_view ht)(key_bytes mem keylen := val)"
  using set_delete [OF assms] set_insert [OF assms] by (cases val; simp)+


section \<open>The registry interface\<close>

text \<open>
  What the users of the table rely on: a keyed store read by \<open>get\<close> and written by \<open>store\<close>, where
  \<open>store\<close> with no value deletes. \<open>good\<close> are the keys the provider accepts.
\<close>

locale registry =
  fixes get :: "'h \<Rightarrow> 'k \<Rightarrow> 'v option"
    and store :: "'h \<Rightarrow> 'k \<Rightarrow> 'v option \<Rightarrow> 'h"
    and view :: "'h \<Rightarrow> 'k \<Rightarrow> 'v option"
    and ok :: "'h \<Rightarrow> bool"
    and good :: "'k \<Rightarrow> bool"
  assumes get_is_view: "ok h \<Longrightarrow> good k \<Longrightarrow> get h k = view h k"
    and ok_store: "ok h \<Longrightarrow> good k \<Longrightarrow> ok (store h k v)"
    and view_store: "ok h \<Longrightarrow> good k \<Longrightarrow> view (store h k v) = (view h)(k := v)"
begin

lemma get_store:
  "ok h \<Longrightarrow> good k \<Longrightarrow> good k' \<Longrightarrow> get (store h k v) k' = (if k' = k then v else get h k')"
  by (simp add: get_is_view ok_store view_store)

lemma store_then_delete:
  assumes "ok h" "good k" "get h k = None"
  shows "view (store (store h k v) k None) = view h"
  using assms by (simp add: get_is_view view_store ok_store fun_eq_iff)

lemma delete_idle:
  assumes "ok h" "good k" "get h k = None"
  shows "view (store h k None) = view h"
  using assms by (simp add: get_is_view view_store fun_eq_iff)

lemmas registry_simps = get_is_view ok_store view_store

end

text \<open>
  The clients' keys are byte lists whose length fits the length word and is not the string marker.
\<close>

definition key_len :: "8 word list \<Rightarrow> 32 word" where
  "key_len k = of_nat (length k)"

definition key_fits :: "8 word list \<Rightarrow> bool" where
  "key_fits k \<longleftrightarrow> length k < 2 ^ 32 - 1"

lemma key_bytes_fits:
  assumes "key_fits k"
  shows "key_bytes k (key_len k) = k"
proof -
  have "length k < 4294967295" using assms by (simp add: key_fits_def)
  then have u: "unat (key_len k) = length k"
    by (simp add: key_len_def unat_of_nat take_bit_eq_mod)
  have "unat PJ_HASH_KEY_STRING = 4294967295" by (simp add: PJ_HASH_KEY_STRING_def)
  then have "key_len k \<noteq> PJ_HASH_KEY_STRING"
    using u \<open>length k < 4294967295\<close> by (metis less_irrefl)
  then show ?thesis by (simp add: key_bytes_def u)
qed

text \<open>Lookup computes the hash, an update brings it along: both ways of calling agree.\<close>

interpretation hreg: registry
  "\<lambda>ht k. fst (pj_hash_get ht k (key_len k) 0)"
  "\<lambda>ht k v. pj_hash_set ht k (key_len k) (hash_bytes 0 k) v"
  ht_view ht_inv key_fits
  by unfold_locales (simp_all add: get_view set_view key_bytes_fits hval_ok_def)

section \<open>Counting and iterating\<close>

text \<open>The entries of all chains, in row order.\<close>

definition ht_entries :: "'v pj_hash_table_t \<Rightarrow> 'v pj_hash_entry list" where
  "ht_entries ht = concat (ht_table ht)"

lemma count_entries: "ht_inv ht \<Longrightarrow> pj_hash_count ht = length (ht_entries ht)"
  by (simp add: pj_hash_count_def ht_inv_def ht_entries_def length_concat)

text \<open>Walking the table with \<^verbatim>\<open>pj_hash_first\<close> and \<^verbatim>\<open>pj_hash_next\<close>; \<open>n\<close> bounds the steps.\<close>

fun ht_walk :: "'v pj_hash_table_t \<Rightarrow> nat \<Rightarrow> 'v pj_hash_iterator_t option \<Rightarrow> 'v list" where
  "ht_walk ht 0 it = []"
| "ht_walk ht (Suc n) None = []"
| "ht_walk ht (Suc n) (Some it) = pj_hash_this it # ht_walk ht n (pj_hash_next ht it)"

lemma first_from_cases:
  assumes "length (ht_table ht) = unat (ht_rows ht) + 1"
  shows "case first_from ht i of
      None \<Rightarrow> concat (drop i (ht_table ht)) = []
    | Some it \<Rightarrow> it_entry it \<noteq> [] \<and> i \<le> it_index it \<and> it_index it < length (ht_table ht) \<and>
        concat (drop i (ht_table ht)) = it_entry it @ concat (drop (it_index it + 1) (ht_table ht))"
  using assms
proof (induction ht i rule: first_from.induct)
  case (1 ht i)
  show ?case
  proof (cases "i \<le> unat (ht_rows ht)")
    case True
    then have d: "drop i (ht_table ht) = ht_table ht ! i # drop (i + 1) (ht_table ht)"
      using 1 by (simp add: Cons_nth_drop_Suc)
    show ?thesis
    proof (cases "ht_table ht ! i = []")
      case True
      then have "first_from ht i = first_from ht (i + 1)"
        using \<open>i \<le> _\<close> by (subst first_from.simps) simp
      then show ?thesis
        using 1 True \<open>i \<le> _\<close> by (auto simp: d split: option.splits)
    next
      case False
      then show ?thesis using True 1 by (subst first_from.simps) (simp add: d)
    qed
  next
    case False
    then show ?thesis using 1 by (subst first_from.simps) simp
  qed
qed

lemma walk_from:
  assumes "length (ht_table ht) = unat (ht_rows ht) + 1" "it_entry it \<noteq> []"
    "length (it_entry it @ concat (drop (it_index it + 1) (ht_table ht))) \<le> n"
  shows "ht_walk ht n (Some it) =
    map he_value (it_entry it @ concat (drop (it_index it + 1) (ht_table ht)))"
  using assms(2,3)
proof (induction n arbitrary: it)
  case (Suc n)
  obtain e es where it: "it_entry it = e # es" using Suc.prems(1) by (cases "it_entry it") auto
  show ?case
  proof (cases "es = []")
    case False
    then show ?thesis
      using Suc.IH [of "it\<lparr>it_entry := es\<rparr>"] Suc.prems it
      by (simp add: pj_hash_next_def pj_hash_this_def)
  next
    case True
    note ff = first_from_cases [OF assms(1), of "it_index it + 1"]
    show ?thesis
    proof (cases "first_from ht (it_index it + 1)")
      case None
      then show ?thesis
        using ff it True by (cases n) (simp_all add: pj_hash_next_def pj_hash_this_def)
    next
      case (Some it')
      then show ?thesis
        using ff it True Suc.IH [of it'] Suc.prems
        by (simp add: pj_hash_next_def pj_hash_this_def)
    qed
  qed
qed simp

lemma walk_all:
  assumes "ht_inv ht"
  shows "ht_walk ht (pj_hash_count ht) (pj_hash_first ht) = map he_value (ht_entries ht)"
proof -
  have len: "length (ht_table ht) = unat (ht_rows ht) + 1" using assms unfolding ht_inv_def by blast
  note count = count_entries [OF assms]
  show ?thesis
  proof (cases "pj_hash_first ht")
    case None
    then have "ht_entries ht = []"
      using first_from_cases [OF len, of 0] by (simp add: pj_hash_first_def ht_entries_def)
    then show ?thesis using count by simp
  next
    case (Some it)
    then have "it_entry it \<noteq> []"
      "ht_entries ht = it_entry it @ concat (drop (it_index it + 1) (ht_table ht))"
      using first_from_cases [OF len, of 0] by (simp_all add: pj_hash_first_def ht_entries_def)
    then show ?thesis using walk_from [OF len, of it "pj_hash_count ht"] count Some by simp
  qed
qed

text \<open>Every entry is a key of the map, and every key has one entry.\<close>

lemma entries_row:
  assumes "ht_inv ht" "e \<in> set (ht_entries ht)"
  shows "e \<in> set (ht_table ht ! row_of ht (he_key e))"
proof -
  obtain c where "c \<in> set (ht_table ht)" "e \<in> set c"
    using assms(2) by (auto simp: ht_entries_def)
  then obtain b where b: "b < length (ht_table ht)" "e \<in> set (ht_table ht ! b)"
    by (metis in_set_conv_nth)
  then have "he_hash e = hash_bytes 0 (he_key e)" "unat (he_hash e AND ht_rows ht) = b"
    using assms(1) unfolding ht_inv_def by blast+
  then show ?thesis using b by (simp add: row_of_def)
qed

lemma entries_view:
  assumes "ht_inv ht"
  shows "set (map (\<lambda>e. (he_key e, he_value e)) (ht_entries ht)) = {(k, v). ht_view ht k = Some v}"
proof -
  have "ht_view ht (he_key e) = Some (he_value e)" if e: "e \<in> set (ht_entries ht)" for e
  proof -
    obtain i where "i < length (ht_table ht ! row_of ht (he_key e))"
      "ht_table ht ! row_of ht (he_key e) ! i = e"
      using entries_row [OF assms e] by (auto simp: in_set_conv_nth)
    then show ?thesis
      using map_of_found [OF chain_inv(1) [OF assms, of "he_key e"]] by (fastforce simp: ht_view_def)
  qed
  moreover have "\<exists>e\<in>set (ht_entries ht). he_key e = k \<and> he_value e = v" if "ht_view ht k = Some v" for k v
  proof -
    have "(k, v) \<in> set (pairs (ht_table ht ! row_of ht k))"
      using that by (auto simp: ht_view_def dest: map_of_SomeD)
    then show ?thesis
      using row_of_bound [OF assms, of k] by (auto simp: ht_entries_def)
  qed
  ultimately show ?thesis by force
qed

lemma distinct_concat_disjoint:
  "(\<And>i. i < length xss \<Longrightarrow> distinct (xss ! i)) \<Longrightarrow>
   (\<And>i j. i < j \<Longrightarrow> j < length xss \<Longrightarrow> set (xss ! i) \<inter> set (xss ! j) = {}) \<Longrightarrow>
   distinct (concat xss)"
proof (induction xss)
  case (Cons xs xss)
  have "distinct (concat xss)"
    using Cons.prems(1) [of "Suc i" for i] Cons.prems(2) [of "Suc i" "Suc j" for i j]
    by (intro Cons.IH) auto
  moreover have "set xs \<inter> set ys = {}" if "ys \<in> set xss" for ys
    using that Cons.prems(2) [of 0 "Suc j" for j] by (auto simp: in_set_conv_nth)
  ultimately show ?case using Cons.prems(1) [of 0] by auto
qed simp

lemma distinct_entries:
  assumes inv: "ht_inv ht"
  shows "distinct (map he_key (ht_entries ht))"
proof -
  have "distinct (concat (map (map he_key) (ht_table ht)))"
  proof (rule distinct_concat_disjoint)
    show "distinct (map (map he_key) (ht_table ht) ! i)" if "i < length (map (map he_key) (ht_table ht))" for i
      using that inv unfolding ht_inv_def by simp
    show "set (map (map he_key) (ht_table ht) ! i) \<inter> set (map (map he_key) (ht_table ht) ! j) = {}"
      if ij: "i < j" "j < length (map (map he_key) (ht_table ht))" for i j
    proof -
      have row: "row_of ht (he_key e) = b" if "b < length (ht_table ht)" "e \<in> set (ht_table ht ! b)" for b e
        using that inv unfolding ht_inv_def row_of_def by metis
      show ?thesis using ij row [of i] row [of j] by fastforce
    qed
  qed
  then show ?thesis by (simp add: ht_entries_def map_concat)
qed

end
