(* ===== verification/Hash_Table_Props.thy ===== *)
theory Hash_Table_Props
  imports Hash_Table_Ops
begin

text \<open>
  What the hash table promises its callers, over byte keys of any length or NUL-terminated strings.
\<close>

text \<open>Creating a table for up to \<open>2 ^ 31\<close> entries returns; the table is empty, has a power of two
  of rows, at least 16 of them and at least as many as asked for.\<close>

theorem hash_create_returns:
  assumes "sz \<le> 2 ^ 31"
  shows "\<exists>(ht :: nat pj_hash_table_t) n. pj_hash_create sz = Some ht \<and> ht_inv ht \<and>
    ht_view ht = Map.empty \<and> pj_hash_count ht = 0 \<and>
    ht_rows ht = mask n \<and> 4 \<le> n \<and> n \<le> 31 \<and> sz \<le> 2 ^ n"
proof -
  obtain ht :: "nat pj_hash_table_t" and n where "pj_hash_create sz = Some ht" "ht_inv ht"
    "ht_view ht = Map.empty" "ht_rows ht = mask n" "sz \<le> 2 ^ n" "4 \<le> n" "n \<le> 31"
    by (rule create_inv [OF assms])
  moreover have "pj_hash_count ht = 0"
  proof -
    have "set (map (\<lambda>e. (he_key e, he_value e)) (ht_entries ht)) = {}"
      using entries_view [OF \<open>ht_inv ht\<close>] \<open>ht_view ht = Map.empty\<close> by simp
    then show ?thesis using count_entries [OF \<open>ht_inv ht\<close>] by simp
  qed
  ultimately show ?thesis by blast
qed

theorem hash_create_returns_witness:
  "pj_hash_create 31 \<noteq> (None :: nat pj_hash_table_t option)"
proof -
  have "(31 :: 32 word) \<le> 2 ^ 31" by simp
  from hash_create_returns [OF this] show ?thesis by auto
qed

text \<open>C5: \<^verbatim>\<open>pj_hash_set\<close> is the update of the abstract map at the key, for an insertion, an overwrite
  and, with NULL, a deletion; it keeps the table well formed, and \<^verbatim>\<open>pj_hash_get\<close> reads the map, whether
  the caller brings the hash along or passes 0.\<close>

theorem hash_set_get_refines:
  assumes "ht_inv ht" "hval_ok (key_bytes mem keylen) hval"
  shows "ht_inv (pj_hash_set ht mem keylen hval val) \<and>
    ht_view (pj_hash_set ht mem keylen hval val) = (ht_view ht)(key_bytes mem keylen := val) \<and>
    pj_hash_get ht mem keylen hval =
      (ht_view ht (key_bytes mem keylen), pj_hash_calc 0 mem keylen)"
  using set_view [OF assms] get_view [OF assms] by (simp add: pj_hash_calc_def)

theorem hash_set_get_refines_witness:
  "fst (pj_hash_get (pj_hash_set (\<lparr>ht_table = replicate 16 [], ht_count = 0, ht_rows = 15\<rparr>
      :: nat pj_hash_table_t) [97, 98, 0, 7] PJ_HASH_KEY_STRING 0 (Some 5)) [97, 98] 2 0) = Some 5"
proof -
  let ?h = "\<lparr>ht_table = replicate 16 [], ht_count = 0, ht_rows = 15\<rparr> :: nat pj_hash_table_t"
  have inv: "ht_inv ?h"
    by (simp add: ht_inv_def sum_list_replicate nth_replicate del: replicate_Suc)
  have k: "key_bytes [97, 98, 0, 7] PJ_HASH_KEY_STRING = [97, 98]" "key_bytes [97, 98] 2 = [97, 98]"
    by (simp_all add: key_bytes_def PJ_HASH_KEY_STRING_def)
  have hv: "hval_ok k 0" for k by (simp add: hval_ok_def)
  note s = hash_set_get_refines [OF inv hv, of "[97, 98, 0, 7]" PJ_HASH_KEY_STRING "Some 5"]
  have "pj_hash_get (pj_hash_set ?h [97, 98, 0, 7] PJ_HASH_KEY_STRING 0 (Some 5)) [97, 98] 2 0 =
      (ht_view (pj_hash_set ?h [97, 98, 0, 7] PJ_HASH_KEY_STRING 0 (Some 5)) [97, 98],
       pj_hash_calc 0 [97, 98] 2)"
    using hash_set_get_refines [OF _ hv, of "pj_hash_set ?h [97, 98, 0, 7] PJ_HASH_KEY_STRING 0 (Some 5)"
        "[97, 98]" 2] s by (simp add: k)
  then show ?thesis using s by (simp add: k)
qed

text \<open>\<^verbatim>\<open>pj_hash_count\<close> is the number of keys, and walking the table from \<^verbatim>\<open>pj_hash_first\<close> with
  \<^verbatim>\<open>pj_hash_next\<close> visits the value of every key, one visit per key.\<close>

theorem hash_iteration_complete:
  assumes "ht_inv ht"
  shows "length (ht_walk ht (pj_hash_count ht) (pj_hash_first ht)) = card (dom (ht_view ht)) \<and>
    pj_hash_count ht = card (dom (ht_view ht)) \<and>
    set (ht_walk ht (pj_hash_count ht) (pj_hash_first ht)) = ran (ht_view ht)"
proof -
  note view = entries_view [OF assms]
  have dom: "he_key ` set (ht_entries ht) = dom (ht_view ht)"
    using view by (force simp: dom_def set_eq_iff)
  have ran: "he_value ` set (ht_entries ht) = ran (ht_view ht)"
    using view by (force simp: ran_def set_eq_iff)
  have "card (he_key ` set (ht_entries ht)) = length (ht_entries ht)"
    using distinct_entries [OF assms] distinct_card by force
  then show ?thesis
    using walk_all [OF assms] count_entries [OF assms] dom ran by simp
qed

theorem hash_iteration_complete_witness:
  "pj_hash_count (pj_hash_set (\<lparr>ht_table = replicate 16 [], ht_count = 0, ht_rows = 15\<rparr>
      :: nat pj_hash_table_t) [97, 98] 2 0 (Some 5)) = card {[97, 98 :: 8 word]}"
proof -
  let ?h = "\<lparr>ht_table = replicate 16 [], ht_count = 0, ht_rows = 15\<rparr> :: nat pj_hash_table_t"
  have inv: "ht_inv ?h"
    by (simp add: ht_inv_def sum_list_replicate nth_replicate del: replicate_Suc)
  have hv: "hval_ok (key_bytes [97, 98] 2) 0" by (simp add: hval_ok_def)
  have "ht_view ?h k = None" for k
    using row_of_bound [OF inv, of k]
    by (simp add: ht_view_def nth_replicate del: replicate_Suc)
  then have "dom (ht_view (pj_hash_set ?h [97, 98] 2 0 (Some 5))) = {[97, 98]}"
    using set_view(2) [OF inv hv, of "Some 5"] by (auto simp: key_bytes_def PJ_HASH_KEY_STRING_def)
  then show ?thesis
    using hash_iteration_complete [OF set_view(1) [OF inv hv, of "Some 5"]] by simp
qed

lemma scast_small: "scast c = (ucast c :: 32 word)" if "c < 128" for c :: "8 word"
proof -
  have "uint c < 128" using that by (simp add: word_less_def)
  moreover have "- 128 \<le> uint c" using uint_ge_0 [of c] by linarith
  ultimately have "sint c = uint c" by (simp add: sint_uint signed_take_bit_int_eq_self_iff)
  then show ?thesis by (simp only: scast_eq ucast_eq)
qed

text \<open>Hashing a key while lowering its case gives the hash of the lowered key when \<open>char\<close> is
  unsigned; with a signed \<open>char\<close> the two agree on ASCII and differ on a key with a byte above 127.\<close>

theorem hash_tolower_agrees:
  "(\<not> char_signed \<or> (\<forall>c\<in>set key. c < 128) \<longrightarrow>
     pj_hash_calc_tolower char_signed hval key = (hash_bytes hval (map pj_tolower key), map pj_tolower key))
   \<and> fst (pj_hash_calc_tolower True 0 [200]) \<noteq> hash_bytes 0 [200]"
proof -
  have low: "pj_tolower c < 128" if "c < 128" for c :: "8 word"
    using that by (auto simp: pj_tolower_def word_less_nat_alt word_le_nat_alt unat_word_ariths)
  have char: "char_value char_signed (pj_tolower c) = ucast (pj_tolower c)"
    if "\<not> char_signed \<or> c < 128" for c
    using that scast_small [OF low] by (auto simp: char_value_def)
  have "pj_hash_calc_tolower char_signed hval key = (hash_bytes hval (map pj_tolower key), map pj_tolower key)"
    if "\<not> char_signed \<or> (\<forall>c\<in>set key. c < 128)"
    using that
  proof (induction key arbitrary: hval)
    case (Cons c key)
    then show ?case using char [of c] by (auto simp: Let_def)
  qed simp
  moreover have "fst (pj_hash_calc_tolower True 0 [200]) \<noteq> hash_bytes 0 [200]" by code_simp
  ultimately show ?thesis by blast
qed

theorem hash_tolower_agrees_witness:
  "pj_hash_calc_tolower True 0 [83, 73, 80] = (hash_bytes 0 [115, 105, 112], [115, 105, 112])"
proof -
  have "\<forall>c\<in>set [83, 73, 80 :: 8 word]. c < 128" by simp
  then show ?thesis
    using hash_tolower_agrees [of True "[83, 73, 80]" 0] by (simp add: pj_tolower_def)
qed

end
