(* ===== verification/Tsx_Key.thy ===== *)
theory Tsx_Key
  imports Hash_Table_Ops "HOL-Library.Sublist"
begin

text \<open>
  Methods, the parts of a received message the transaction layer reads, and the construction of
  transaction keys (\<^verbatim>\<open>create_tsx_key_2543\<close>, \<^verbatim>\<open>create_tsx_key_3261\<close>, \<^verbatim>\<open>pjsip_tsx_create_key\<close> of
  \<^verbatim>\<open>pjsip/src/pjsip/sip_transaction.c\<close>). A \<open>pj_str_t\<close> is the list of its bytes. The key builders
  write through a pointer into a buffer of computed length: the model returns the bytes written and
  the length allocated, so that staying inside the buffer is a property and not an assumption.
\<close>

section \<open>Messages\<close>

datatype pjsip_role_e = PJSIP_ROLE_UAC | PJSIP_ROLE_UAS

datatype pjsip_method_e =
  PJSIP_INVITE_METHOD | PJSIP_CANCEL_METHOD | PJSIP_ACK_METHOD | PJSIP_BYE_METHOD
| PJSIP_REGISTER_METHOD | PJSIP_OPTIONS_METHOD | PJSIP_OTHER_METHOD

record pjsip_method =
  method_id :: pjsip_method_e
  method_name :: "8 word list"

definition pjsip_method_cmp :: "pjsip_method \<Rightarrow> pjsip_method \<Rightarrow> bool" where
  "pjsip_method_cmp m1 m2 =
     (method_id m1 = method_id m2 \<and>
      (method_id m1 \<noteq> PJSIP_OTHER_METHOD \<or> method_name m1 = method_name m2))"

datatype pjsip_msg_type_e = PJSIP_REQUEST_MSG | PJSIP_RESPONSE_MSG

record pjsip_via_hdr =
  via_host :: "8 word list"
  via_port :: nat
  branch_param :: "8 word list"

record pjsip_cseq_hdr =
  cseq_num :: nat
  cseq_method :: pjsip_method

text \<open>
  What the transaction layer reads of a received message. A header the parser did not find is
  \<open>None\<close>.
\<close>

record pjsip_rx_data =
  rx_type :: pjsip_msg_type_e
  rx_method :: pjsip_method
  rx_code :: nat
  rx_via :: "pjsip_via_hdr option"
  rx_cseq :: "pjsip_cseq_hdr option"
  rx_from_tag :: "8 word list"
  rx_call_id :: "8 word list"

section \<open>Keys\<close>

definition SEPARATOR :: "8 word" where
  "SEPARATOR = 36"

text \<open>\<open>z9hG4bK\<close>\<close>

definition PJSIP_RFC3261_BRANCH_ID :: "8 word list" where
  "PJSIP_RFC3261_BRANCH_ID = [122, 57, 104, 71, 52, 98, 75]"

definition PJSIP_RFC3261_BRANCH_LEN :: nat where
  "PJSIP_RFC3261_BRANCH_LEN = 7"

text \<open>\<^verbatim>\<open>pj_utoa\<close>: least digit first, then the buffer is reversed.\<close>

fun utoa_digits :: "nat \<Rightarrow> 8 word list" where
  "utoa_digits val =
     (let digval = of_nat (val mod 10) + 48
      in if val div 10 > 0 then digval # utoa_digits (val div 10) else [digval])"

declare utoa_digits.simps [simp del]

definition pj_utoa :: "nat \<Rightarrow> 8 word list" where
  "pj_utoa val = rev (utoa_digits val)"

definition role_byte :: "pjsip_role_e \<Rightarrow> 8 word" where
  "role_byte role = (if role = PJSIP_ROLE_UAC then 99 else 115)"

text \<open>The method part of a key: INVITE and ACK leave it out, so that an ACK finds its INVITE.\<close>

definition method_part :: "pjsip_method \<Rightarrow> 8 word list" where
  "method_part method =
     (if method_id method \<noteq> PJSIP_INVITE_METHOD \<and> method_id method \<noteq> PJSIP_ACK_METHOD
      then method_name method @ [SEPARATOR] else [])"

text \<open>The bytes written, the NUL included, and the length allocated for them.\<close>

definition create_tsx_key_2543 ::
    "pjsip_role_e \<Rightarrow> pjsip_method \<Rightarrow> pjsip_via_hdr \<Rightarrow> pjsip_cseq_hdr \<Rightarrow> pjsip_rx_data
     \<Rightarrow> 8 word list \<times> nat" where
  "create_tsx_key_2543 role method via cseq rdata =
     (let host = via_host via;
          len_required = 9 + length (rx_from_tag rdata) + length (rx_call_id rdata) + length host + 9 + 16
      in ([role_byte role, SEPARATOR]
          @ method_part method
          @ pj_utoa (cseq_num cseq) @ [SEPARATOR]
          @ rx_from_tag rdata @ [SEPARATOR]
          @ rx_call_id rdata @ [SEPARATOR]
          @ host @ [58]
          @ pj_utoa (via_port via) @ [SEPARATOR]
          @ [0], len_required))"

definition create_tsx_key_3261 ::
    "pjsip_role_e \<Rightarrow> pjsip_method \<Rightarrow> 8 word list \<Rightarrow> 8 word list \<times> nat" where
  "create_tsx_key_3261 role method branch =
     ([role_byte role, SEPARATOR] @ method_part method @ branch,
      length branch + length (method_name method) + 4)"

definition pj_strncmp_eq :: "8 word list \<Rightarrow> 8 word list \<Rightarrow> nat \<Rightarrow> bool" where
  "pj_strncmp_eq s1 s2 n \<longleftrightarrow> take n s1 = take n s2"

text \<open>
  The missing-header checks of the RFC 2543 branch are assertions the release build drops; a missing
  Via is dereferenced before them. Received messages carry all five headers (the parser and
  \<^verbatim>\<open>pjsip_tpmgr_receive_packet\<close> drop the others), so the headers are arguments here.
\<close>

definition pjsip_tsx_create_key ::
    "pjsip_role_e \<Rightarrow> pjsip_method \<Rightarrow> pjsip_via_hdr \<Rightarrow> pjsip_cseq_hdr \<Rightarrow> pjsip_rx_data
     \<Rightarrow> 8 word list \<times> nat" where
  "pjsip_tsx_create_key role method via cseq rdata =
     (if pj_strncmp_eq (branch_param via) PJSIP_RFC3261_BRANCH_ID PJSIP_RFC3261_BRANCH_LEN
      then create_tsx_key_3261 role method (branch_param via)
      else create_tsx_key_2543 role method via cseq rdata)"

section \<open>Facts\<close>

lemma role_byte_inj [simp]: "role_byte r = role_byte r' \<longleftrightarrow> r = r'"
  by (cases r; cases r') (simp_all add: role_byte_def)

lemma utoa_digits_length: "0 < k \<Longrightarrow> n < 10 ^ k \<Longrightarrow> length (utoa_digits n) \<le> k"
proof (induction k arbitrary: n)
  case (Suc k)
  show ?case
  proof (cases "n div 10 > 0")
    case True
    then have "n div 10 < 10 ^ k" using Suc.prems by (simp add: less_mult_imp_div_less mult.commute)
    moreover have "0 < k" using True \<open>n div 10 < 10 ^ k\<close> by (cases k) auto
    ultimately have "length (utoa_digits (n div 10)) \<le> k" using Suc.IH by blast
    then show ?thesis using True by (subst utoa_digits.simps) (simp add: Let_def)
  qed (subst utoa_digits.simps, simp add: Let_def)
qed simp

lemma pj_utoa_length: "0 < k \<Longrightarrow> n < 10 ^ k \<Longrightarrow> length (pj_utoa n) \<le> k"
  by (simp add: pj_utoa_def utoa_digits_length)

lemma utoa_digits_value: "foldr (\<lambda>d n. (unat d - 48) + 10 * n) (utoa_digits n) 0 = n"
proof (induction n rule: utoa_digits.induct)
  case (1 n)
  have d: "unat (of_nat (n mod 10) + 48 :: 8 word) = n mod 10 + 48"
  proof -
    have "n mod 10 < 10" by simp
    then have "n mod 10 + 48 < 256" by linarith
    moreover have eq: "(of_nat (n mod 10) + 48 :: 8 word) = of_nat (n mod 10 + 48)"
      by (simp only: of_nat_add of_nat_numeral)
    ultimately show ?thesis unfolding eq unat_of_nat take_bit_eq_mod by simp
  qed
  show ?case
  proof (cases "n div 10 > 0")
    case True
    have "utoa_digits n = (of_nat (n mod 10) + 48) # utoa_digits (n div 10)"
      using True by (subst utoa_digits.simps) (simp add: Let_def)
    then have "foldr (\<lambda>d n. (unat d - 48) + 10 * n) (utoa_digits n) 0 = n mod 10 + 10 * (n div 10)"
      using 1 [OF refl True] d by simp
    then show ?thesis by simp
  next
    case False
    have "utoa_digits n = [of_nat (n mod 10) + 48]"
      using False by (subst utoa_digits.simps) (simp add: Let_def)
    moreover have "n < 10" using False by (simp add: div_eq_0_iff)
    ultimately show ?thesis using d by simp
  qed
qed

lemma separator_split:
  assumes "SEPARATOR \<notin> set xs" "SEPARATOR \<notin> set ys"
    "xs @ SEPARATOR # as = ys @ SEPARATOR # bs"
  shows "xs = ys \<and> as = bs"
  using assms
proof (induction xs arbitrary: ys)
  case Nil
  then show ?case by (cases ys) auto
next
  case (Cons x xs)
  then show ?case by (cases ys) auto
qed

lemma branch_no_separator: "SEPARATOR \<notin> set PJSIP_RFC3261_BRANCH_ID"
  by (simp add: SEPARATOR_def PJSIP_RFC3261_BRANCH_ID_def)

text \<open>Methods that name the same transaction.\<close>

definition same_key_method :: "pjsip_method \<Rightarrow> pjsip_method \<Rightarrow> bool" where
  "same_key_method m m' \<longleftrightarrow> method_part m = method_part m'"

text \<open>A method token is not empty, contains no separator and does not look like a branch.\<close>

definition method_token :: "pjsip_method \<Rightarrow> bool" where
  "method_token m \<longleftrightarrow> SEPARATOR \<notin> set (method_name m) \<and>
     take 7 (method_name m) \<noteq> PJSIP_RFC3261_BRANCH_ID"

definition rfc3261_branch :: "8 word list \<Rightarrow> bool" where
  "rfc3261_branch b \<longleftrightarrow> take 7 b = PJSIP_RFC3261_BRANCH_ID"

lemma method_part_branch:
  assumes "method_token m" "method_token m'" "rfc3261_branch b" "rfc3261_branch b'"
    "method_part m @ b = method_part m' @ b'"
  shows "method_part m = method_part m' \<and> b = b'"
proof -
  have clash: False
    if "method_token n" "rfc3261_branch c" "c = method_name n @ SEPARATOR # c'" for n c c'
  proof (cases "length (method_name n) < 7")
    case True
    have "PJSIP_RFC3261_BRANCH_ID = take 7 (method_name n @ SEPARATOR # c')"
      using that by (simp add: rfc3261_branch_def)
    then have "PJSIP_RFC3261_BRANCH_ID
        = method_name n @ SEPARATOR # take (6 - length (method_name n)) c'"
      using True by (simp add: take_Cons')
    then have "SEPARATOR \<in> set PJSIP_RFC3261_BRANCH_ID" by (metis in_set_conv_decomp)
    then show False using branch_no_separator by simp
  next
    case False
    then have "take 7 c = take 7 (method_name n)" using that(3) by simp
    then show False using that(1,2) by (simp add: method_token_def rfc3261_branch_def)
  qed
  have part: "method_part n = method_name n @ [SEPARATOR]" if "method_part n \<noteq> []" for n
    using that by (simp add: method_part_def split: if_splits)
  consider "method_part m = []" "method_part m' = []"
    | "method_part m \<noteq> []" "method_part m' \<noteq> []"
    | "method_part m \<noteq> []" "method_part m' = []"
    | "method_part m = []" "method_part m' \<noteq> []" by blast
  then show ?thesis
  proof cases
    case 1
    then show ?thesis using assms(5) by simp
  next
    case 2
    then have "method_name m @ SEPARATOR # b = method_name m' @ SEPARATOR # b'"
      using assms(5) part [OF 2(1)] part [OF 2(2)] by (metis append_Cons append_Nil append_assoc)
    with assms(1,2) have "method_name m = method_name m' \<and> b = b'"
      by (intro separator_split) (simp_all add: method_token_def)
    then show ?thesis using part [OF 2(1)] part [OF 2(2)] by simp
  next
    case 3
    then have "b' = method_name m @ SEPARATOR # b"
      using assms(5) part [OF 3(1)] by (metis append_Cons append_Nil append_assoc)
    then show ?thesis using clash [OF assms(1,4)] by blast
  next
    case 4
    then have "b = method_name m' @ SEPARATOR # b'"
      using assms(5) part [OF 4(2)] by (metis append_Cons append_Nil append_assoc)
    then show ?thesis using clash [OF assms(2,3)] by blast
  qed
qed

end
