(* ===== verification/Tsx_Key_Props.thy ===== *)
theory Tsx_Key_Props
  imports Tsx_Key
begin

text \<open>What transaction keys distinguish and whether they fit their buffer.\<close>

text \<open>C6: two RFC 3261 keys are equal exactly when the role, the branch and the method part agree, for
  methods that are separator-free tokens not starting with the branch cookie. INVITE and ACK share a
  key, so an ACK reaches the INVITE transaction; CANCEL and INVITE never do.\<close>

theorem key_3261_identifies:
  assumes "method_token m" "method_token m'" "rfc3261_branch b" "rfc3261_branch b'"
  shows "(fst (create_tsx_key_3261 r m b) = fst (create_tsx_key_3261 r' m' b') \<longleftrightarrow>
      r = r' \<and> same_key_method m m' \<and> b = b') \<and>
    (method_id m = PJSIP_INVITE_METHOD \<and> method_id m' = PJSIP_ACK_METHOD \<longrightarrow> same_key_method m m') \<and>
    (method_id m = PJSIP_INVITE_METHOD \<and> method_id m' = PJSIP_CANCEL_METHOD \<longrightarrow> \<not> same_key_method m m')"
  using method_part_branch [OF assms]
  by (auto simp: create_tsx_key_3261_def same_key_method_def method_part_def)

theorem key_3261_identifies_witness:
  "fst (create_tsx_key_3261 PJSIP_ROLE_UAS \<lparr>method_id = PJSIP_INVITE_METHOD, method_name = [73]\<rparr>
      (PJSIP_RFC3261_BRANCH_ID @ [49])) =
   fst (create_tsx_key_3261 PJSIP_ROLE_UAS \<lparr>method_id = PJSIP_ACK_METHOD, method_name = [65]\<rparr>
      (PJSIP_RFC3261_BRANCH_ID @ [49]))"
proof -
  have "method_token \<lparr>method_id = PJSIP_INVITE_METHOD, method_name = [73]\<rparr>"
    "method_token \<lparr>method_id = PJSIP_ACK_METHOD, method_name = [65]\<rparr>"
    "rfc3261_branch (PJSIP_RFC3261_BRANCH_ID @ [49])"
    by (simp_all add: method_token_def rfc3261_branch_def PJSIP_RFC3261_BRANCH_ID_def SEPARATOR_def)
  then show ?thesis
    using key_3261_identifies [of "\<lparr>method_id = PJSIP_INVITE_METHOD, method_name = [73]\<rparr>"
        "\<lparr>method_id = PJSIP_ACK_METHOD, method_name = [65]\<rparr>" "PJSIP_RFC3261_BRANCH_ID @ [49]"
        "PJSIP_RFC3261_BRANCH_ID @ [49]" PJSIP_ROLE_UAS PJSIP_ROLE_UAS]
    by simp
qed

text \<open>The RFC 3261 key always fits its buffer. The RFC 2543 key fits for methods up to ten bytes
  (the port being below 100000 and the CSeq number 32 bits), and for INVITE and ACK of any length;
  the length computed leaves the method name out, so a longer method is written past the end.\<close>

theorem key_buffer_bounds:
  assumes "cseq_num cseq < 2 ^ 32" "via_port via < 100000"
  shows "length (fst (create_tsx_key_3261 r m b)) \<le> snd (create_tsx_key_3261 r m b) \<and>
    (length (method_part m) \<le> 11 \<longrightarrow>
      length (fst (create_tsx_key_2543 r m via cseq rd)) \<le> snd (create_tsx_key_2543 r m via cseq rd)) \<and>
    (26 < length (method_part m) \<longrightarrow>
      snd (create_tsx_key_2543 r m via cseq rd) < length (fst (create_tsx_key_2543 r m via cseq rd)))"
proof -
  have "cseq_num cseq < 10 ^ 10" using assms(1) by simp
  then have c: "length (pj_utoa (cseq_num cseq)) \<le> 10" by (intro pj_utoa_length) simp_all
  have "via_port via < 10 ^ 5" using assms(2) by simp
  then have p: "length (pj_utoa (via_port via)) \<le> 5" by (intro pj_utoa_length) simp_all
  have ne: "1 \<le> length (pj_utoa n)" for n
    by (simp add: pj_utoa_def utoa_digits.simps [of n] Let_def)
  show ?thesis
    using c p ne [of "cseq_num cseq"] ne [of "via_port via"]
    by (auto simp: create_tsx_key_3261_def create_tsx_key_2543_def Let_def method_part_def)
qed

definition empty_request :: pjsip_rx_data where
  "empty_request = \<lparr>rx_type = PJSIP_REQUEST_MSG,
     rx_method = \<lparr>method_id = PJSIP_OTHER_METHOD, method_name = replicate 30 65\<rparr>, rx_code = 0,
     rx_via = None, rx_cseq = None, rx_from_tag = [], rx_call_id = [97]\<rparr>"

theorem key_buffer_bounds_witness:
  "snd (create_tsx_key_2543 PJSIP_ROLE_UAS
      \<lparr>method_id = PJSIP_OTHER_METHOD, method_name = replicate 30 65\<rparr>
      \<lparr>via_host = [104], via_port = 5060, branch_param = []\<rparr>
      \<lparr>cseq_num = 1, cseq_method = \<lparr>method_id = PJSIP_OTHER_METHOD, method_name = replicate 30 65\<rparr>\<rparr> empty_request)
   < length (fst (create_tsx_key_2543 PJSIP_ROLE_UAS
      \<lparr>method_id = PJSIP_OTHER_METHOD, method_name = replicate 30 65\<rparr>
      \<lparr>via_host = [104], via_port = 5060, branch_param = []\<rparr>
      \<lparr>cseq_num = 1, cseq_method = \<lparr>method_id = PJSIP_OTHER_METHOD, method_name = replicate 30 65\<rparr>\<rparr> empty_request))"
proof -
  let ?m = "\<lparr>method_id = PJSIP_OTHER_METHOD, method_name = replicate 30 (65 :: 8 word)\<rparr>"
  have "cseq_num \<lparr>cseq_num = 1, cseq_method = ?m\<rparr> < 2 ^ 32"
    "via_port \<lparr>via_host = [104 :: 8 word], via_port = 5060, branch_param = []\<rparr> < 100000" by simp_all
  moreover have "26 < length (method_part ?m)" by (simp add: method_part_def)
  ultimately show ?thesis using key_buffer_bounds by blast
qed

end
