(* ===== verification/Tsx_World.thy ===== *)
theory Tsx_World
  imports Tsx_Key Timer_Heap_Ops
begin

text \<open>
  The state a SIP transaction works on (\<^verbatim>\<open>pjsip/include/pjsip/sip_transaction.h\<close>,
  \<^verbatim>\<open>pjsip/src/pjsip/sip_transaction.c\<close>) and the operations its handlers are built from. A world
  holds the transaction in focus, the endpoint's timer heap, the transaction layer's hash table, the
  transmit buffers and transports by address, the stack of lock records of the calling thread, and
  a trace of what leaves the transaction. The mutexes are recorded as a depth: the model is
  sequential. Status texts, pools and logging are left out.
\<close>

section \<open>States and events\<close>

datatype pjsip_tsx_state_e =
  PJSIP_TSX_STATE_NULL | PJSIP_TSX_STATE_CALLING | PJSIP_TSX_STATE_TRYING
| PJSIP_TSX_STATE_PROCEEDING | PJSIP_TSX_STATE_COMPLETED | PJSIP_TSX_STATE_CONFIRMED
| PJSIP_TSX_STATE_TERMINATED | PJSIP_TSX_STATE_DESTROYED

fun state_num :: "pjsip_tsx_state_e \<Rightarrow> nat" where
  "state_num PJSIP_TSX_STATE_NULL = 0"
| "state_num PJSIP_TSX_STATE_CALLING = 1"
| "state_num PJSIP_TSX_STATE_TRYING = 2"
| "state_num PJSIP_TSX_STATE_PROCEEDING = 3"
| "state_num PJSIP_TSX_STATE_COMPLETED = 4"
| "state_num PJSIP_TSX_STATE_CONFIRMED = 5"
| "state_num PJSIP_TSX_STATE_TERMINATED = 6"
| "state_num PJSIP_TSX_STATE_DESTROYED = 7"

lemma state_num_inj: "state_num s = state_num s' \<longleftrightarrow> s = s'"
  by (cases s; cases s') simp_all

text \<open>The code compares states as integers.\<close>

instantiation pjsip_tsx_state_e :: linorder
begin

definition less_eq_pjsip_tsx_state_e :: "pjsip_tsx_state_e \<Rightarrow> pjsip_tsx_state_e \<Rightarrow> bool" where
  "s \<le> s' \<longleftrightarrow> state_num s \<le> state_num s'"

definition less_pjsip_tsx_state_e :: "pjsip_tsx_state_e \<Rightarrow> pjsip_tsx_state_e \<Rightarrow> bool" where
  "s < s' \<longleftrightarrow> state_num s < state_num s'"

instance
  by standard (auto simp: less_eq_pjsip_tsx_state_e_def less_pjsip_tsx_state_e_def
      state_num_inj [symmetric])

end

lemmas state_order = less_eq_pjsip_tsx_state_e_def less_pjsip_tsx_state_e_def

text \<open>An event and its source; a timer event carries the address of the entry.\<close>

datatype pjsip_event =
  PJSIP_EVENT_UNKNOWN
| PJSIP_EVENT_TIMER nat
| PJSIP_EVENT_TX_MSG nat
| PJSIP_EVENT_RX_MSG pjsip_rx_data
| PJSIP_EVENT_TRANSPORT_ERROR "nat option"
| PJSIP_EVENT_USER

datatype tsx_flag =
  TSX_HAS_PENDING_TRANSPORT | TSX_HAS_PENDING_RESCHED | TSX_HAS_PENDING_SEND
| TSX_HAS_PENDING_DESTROY | TSX_HAS_RESOLVED_SERVER

datatype tsx_handler =
  tsx_on_state_null_h | tsx_on_state_calling_h | tsx_on_state_trying_h
| tsx_on_state_proceeding_uas_h | tsx_on_state_proceeding_uac_h
| tsx_on_state_completed_uas_h | tsx_on_state_completed_uac_h
| tsx_on_state_confirmed_h | tsx_on_state_terminated_h | tsx_on_state_destroyed_h

text \<open>The handler tables; a NULL slot is \<open>None\<close>.\<close>

fun tsx_state_handler_uac :: "pjsip_tsx_state_e \<Rightarrow> tsx_handler option" where
  "tsx_state_handler_uac PJSIP_TSX_STATE_NULL = Some tsx_on_state_null_h"
| "tsx_state_handler_uac PJSIP_TSX_STATE_CALLING = Some tsx_on_state_calling_h"
| "tsx_state_handler_uac PJSIP_TSX_STATE_TRYING = None"
| "tsx_state_handler_uac PJSIP_TSX_STATE_PROCEEDING = Some tsx_on_state_proceeding_uac_h"
| "tsx_state_handler_uac PJSIP_TSX_STATE_COMPLETED = Some tsx_on_state_completed_uac_h"
| "tsx_state_handler_uac PJSIP_TSX_STATE_CONFIRMED = Some tsx_on_state_confirmed_h"
| "tsx_state_handler_uac PJSIP_TSX_STATE_TERMINATED = Some tsx_on_state_terminated_h"
| "tsx_state_handler_uac PJSIP_TSX_STATE_DESTROYED = Some tsx_on_state_destroyed_h"

fun tsx_state_handler_uas :: "pjsip_tsx_state_e \<Rightarrow> tsx_handler option" where
  "tsx_state_handler_uas PJSIP_TSX_STATE_NULL = Some tsx_on_state_null_h"
| "tsx_state_handler_uas PJSIP_TSX_STATE_CALLING = None"
| "tsx_state_handler_uas PJSIP_TSX_STATE_TRYING = Some tsx_on_state_trying_h"
| "tsx_state_handler_uas PJSIP_TSX_STATE_PROCEEDING = Some tsx_on_state_proceeding_uas_h"
| "tsx_state_handler_uas PJSIP_TSX_STATE_COMPLETED = Some tsx_on_state_completed_uas_h"
| "tsx_state_handler_uas PJSIP_TSX_STATE_CONFIRMED = Some tsx_on_state_confirmed_h"
| "tsx_state_handler_uas PJSIP_TSX_STATE_TERMINATED = Some tsx_on_state_terminated_h"
| "tsx_state_handler_uas PJSIP_TSX_STATE_DESTROYED = Some tsx_on_state_destroyed_h"

section \<open>The structures\<close>

text \<open>
  \<open>tsx_user\<close> tells whether the transaction still has a user (NULL after a refused destruction);
  \<open>transport_flag\<close> is the set of bits that are on. The two timers are addresses of timer entries.
  \<open>util_data\<close> is the slot of \<open>mod_data\<close> that belongs to \<^verbatim>\<open>mod_stateful_util\<close>. Of a transmit
  buffer, \<open>tx_mod_data\<close> is the transaction layer's slot, and \<open>tx_branch\<close> the branch of the top Via,
  empty when there is none.
\<close>

record pjsip_transaction =
  tsx_addr :: nat
  tsx_user :: bool
  role :: pjsip_role_e
  tsx_method :: pjsip_method
  cseq :: nat
  transaction_key :: "8 word list"
  hashed_key :: "32 word"
  branch :: "8 word list"
  status_code :: nat
  state :: pjsip_tsx_state_e
  handle_200resp :: bool
  state_handler :: "tsx_handler option"
  transport :: "nat option"
  is_reliable :: bool
  addr_len :: nat
  res_addr_transport :: "nat option"
  res_addr_len :: nat
  transport_flag :: "tsx_flag set"
  transport_err :: pj_status
  tp_sel :: "nat option"
  pending_tx :: "nat option"
  last_tx :: "nat option"
  retransmit_count :: nat
  retransmit_timer :: nat
  timeout_timer :: nat
  util_data :: "nat option"
  tsx_mutex :: int
  tsx_alive :: bool

record pjsip_tx_data =
  tx_type :: pjsip_msg_type_e
  tx_method :: pjsip_method
  tx_code :: nat
  tx_cseq :: "pjsip_cseq_hdr option"
  tx_branch :: "8 word list"
  tx_ref_cnt :: int
  tx_mod_data :: "nat option"
  tx_tp_sel :: "nat option"

record pjsip_transport =
  tp_ref_cnt :: int
  tp_reliable :: bool
  tp_listeners :: "nat list"

datatype tsx_action =
  Act_sent nat nat
| Act_stateless nat
| Act_rx_response nat
| Act_state pjsip_tsx_state_e pjsip_tsx_state_e
| Act_destroyed

record tsx_world =
  tsx :: pjsip_transaction
  theap :: pj_timer_heap_t
  now :: pj_time_val
  htable :: "nat pj_hash_table_t"
  layer_registered :: bool
  tdatas :: "nat \<Rightarrow> pjsip_tx_data"
  tps :: "nat \<Rightarrow> pjsip_transport"
  tls :: "(nat \<times> bool) list"
  trace :: "tsx_action list"

text \<open>Updates of the transaction in focus.\<close>

abbreviation upd_tsx :: "(pjsip_transaction \<Rightarrow> pjsip_transaction) \<Rightarrow> tsx_world \<Rightarrow> tsx_world" where
  "upd_tsx f w \<equiv> w\<lparr>tsx := f (tsx w)\<rparr>"

definition emit :: "tsx_action \<Rightarrow> tsx_world \<Rightarrow> tsx_world" where
  "emit a w = w\<lparr>trace := a # trace w\<rparr>"

definition set_flag :: "tsx_flag \<Rightarrow> tsx_world \<Rightarrow> tsx_world" where
  "set_flag f w = upd_tsx (\<lambda>t. t\<lparr>transport_flag := insert f (transport_flag t)\<rparr>) w"

definition clear_flag :: "tsx_flag \<Rightarrow> tsx_world \<Rightarrow> tsx_world" where
  "clear_flag f w = upd_tsx (\<lambda>t. t\<lparr>transport_flag := transport_flag t - {f}\<rparr>) w"

abbreviation has_flag :: "tsx_world \<Rightarrow> tsx_flag \<Rightarrow> bool" where
  "has_flag w f \<equiv> f \<in> transport_flag (tsx w)"

section \<open>The environment\<close>

text \<open>
  One attempt of the stateless layer to send, as it is reported to \<^verbatim>\<open>send_msg_callback\<close>: the bytes
  sent or the error, the transport used, and whether it goes on with another server.
\<close>

record send_attempt =
  at_sent :: "nat + pj_status"
  at_transport :: "nat option"
  at_cont :: bool
  at_addr_len :: nat

text \<open>
  What the transaction calls: the transport's send, the stateless send (the attempts it reports
  before it returns, and its status), the construction of the ACK, and the transaction user's two
  callbacks, which run in the middle of a state change and may call back into the transaction. The
  timer values are \<^verbatim>\<open>pjsip_cfg()->tsx\<close>, in milliseconds.
\<close>

record tsx_env =
  cfg_t1 :: nat
  cfg_t2 :: nat
  cfg_t4 :: nat
  cfg_td :: nat
  transport_send :: "tsx_world \<Rightarrow> nat \<Rightarrow> nat \<Rightarrow> pj_status"
  send_stateless :: "tsx_world \<Rightarrow> nat \<Rightarrow> send_attempt list \<times> pj_status"
  create_ack :: "tsx_world \<Rightarrow> nat option \<Rightarrow> pjsip_rx_data \<Rightarrow> pj_status \<times> nat \<times> pjsip_tx_data"
  on_rx_response :: "(pjsip_rx_data \<Rightarrow> tsx_world \<Rightarrow> tsx_world) option"
  on_tsx_state :: "(pjsip_tsx_state_e \<Rightarrow> pjsip_event \<Rightarrow> tsx_world \<Rightarrow> tsx_world) option"

definition t1_timer_val :: pj_time_val where
  "t1_timer_val = Time_val 0 200"

definition t2_timer_val :: "tsx_env \<Rightarrow> pj_time_val" where
  "t2_timer_val E = Time_val (int (cfg_t2 E div 1000)) (int (cfg_t2 E mod 1000))"

definition t4_timer_val :: "tsx_env \<Rightarrow> pj_time_val" where
  "t4_timer_val E = Time_val (int (cfg_t4 E div 1000)) (int (cfg_t4 E mod 1000))"

definition td_timer_val :: "tsx_env \<Rightarrow> pj_time_val" where
  "td_timer_val E = Time_val (int (cfg_td E div 1000)) (int (cfg_td E mod 1000))"

definition timeout_timer_val :: "tsx_env \<Rightarrow> pj_time_val" where
  "timeout_timer_val E = td_timer_val E"

definition PJSIP_TSX_1XX_RETRANS_DELAY :: nat where
  "PJSIP_TSX_1XX_RETRANS_DELAY = 60"

definition PJSIP_SC_TSX_TIMEOUT :: nat where
  "PJSIP_SC_TSX_TIMEOUT = 408"

definition PJSIP_SC_BAD_GATEWAY :: nat where
  "PJSIP_SC_BAD_GATEWAY = 502"

definition PJSIP_SC_TSX_TRANSPORT_ERROR :: nat where
  "PJSIP_SC_TSX_TRANSPORT_ERROR = 503"

definition PJSIP_SC_SERVICE_UNAVAILABLE :: nat where
  "PJSIP_SC_SERVICE_UNAVAILABLE = 503"

definition PJSIP_IS_STATUS_IN_CLASS :: "nat \<Rightarrow> nat \<Rightarrow> bool" where
  "PJSIP_IS_STATUS_IN_CLASS code cls \<longleftrightarrow> code div 100 = cls div 100"

section \<open>Timers\<close>

definition TIMER_INACTIVE :: int where "TIMER_INACTIVE = 0"
definition TIMER_ACTIVE :: int where "TIMER_ACTIVE = 1"

abbreviation entry_id :: "tsx_world \<Rightarrow> nat \<Rightarrow> int" where
  "entry_id w e \<equiv> te_id (nodes (theap w) e)"

definition set_entry_id :: "nat \<Rightarrow> int \<Rightarrow> tsx_world \<Rightarrow> tsx_world" where
  "set_entry_id e i w = w\<lparr>theap := set_te_id (theap w) e i\<rparr>"

definition pjsip_endpt_schedule_timer :: "nat \<Rightarrow> pj_time_val \<Rightarrow> tsx_world \<Rightarrow> tsx_world" where
  "pjsip_endpt_schedule_timer e delay w =
     w\<lparr>theap := fst (pj_timer_heap_schedule (theap w) (now w) e delay)\<rparr>"

definition pjsip_endpt_cancel_timer :: "nat \<Rightarrow> tsx_world \<Rightarrow> tsx_world" where
  "pjsip_endpt_cancel_timer e w = w\<lparr>theap := fst (pj_timer_heap_cancel (theap w) e)\<rparr>"

text \<open>The two sequences the handlers repeat: mark and schedule, and cancel if marked.\<close>

definition start_timer :: "nat \<Rightarrow> pj_time_val \<Rightarrow> tsx_world \<Rightarrow> tsx_world" where
  "start_timer e delay w = pjsip_endpt_schedule_timer e delay (set_entry_id e TIMER_ACTIVE w)"

definition stop_timer :: "nat \<Rightarrow> tsx_world \<Rightarrow> tsx_world" where
  "stop_timer e w =
     (if entry_id w e \<noteq> 0 then set_entry_id e 0 (pjsip_endpt_cancel_timer e w) else w)"

section \<open>References\<close>

definition pjsip_transport_add_ref :: "nat \<Rightarrow> tsx_world \<Rightarrow> tsx_world" where
  "pjsip_transport_add_ref tp w =
     w\<lparr>tps := (tps w)(tp := (tps w tp)\<lparr>tp_ref_cnt := tp_ref_cnt (tps w tp) + 1\<rparr>)\<rparr>"

definition pjsip_transport_dec_ref :: "nat \<Rightarrow> tsx_world \<Rightarrow> tsx_world" where
  "pjsip_transport_dec_ref tp w =
     w\<lparr>tps := (tps w)(tp := (tps w tp)\<lparr>tp_ref_cnt := tp_ref_cnt (tps w tp) - 1\<rparr>)\<rparr>"

definition pjsip_transport_add_state_listener :: "nat \<Rightarrow> nat \<Rightarrow> tsx_world \<Rightarrow> tsx_world" where
  "pjsip_transport_add_state_listener tp t w =
     w\<lparr>tps := (tps w)(tp := (tps w tp)\<lparr>tp_listeners := tp_listeners (tps w tp) @ [t]\<rparr>)\<rparr>"

definition pjsip_transport_remove_state_listener :: "nat \<Rightarrow> nat \<Rightarrow> tsx_world \<Rightarrow> tsx_world" where
  "pjsip_transport_remove_state_listener tp t w =
     w\<lparr>tps := (tps w)(tp := (tps w tp)\<lparr>tp_listeners := remove1 t (tp_listeners (tps w tp))\<rparr>)\<rparr>"

text \<open>A transport selector is a transport or nothing.\<close>

definition pjsip_tpselector_add_ref :: "nat option \<Rightarrow> tsx_world \<Rightarrow> tsx_world" where
  "pjsip_tpselector_add_ref sel w = (case sel of Some tp \<Rightarrow> pjsip_transport_add_ref tp w | None \<Rightarrow> w)"

definition pjsip_tpselector_dec_ref :: "nat option \<Rightarrow> tsx_world \<Rightarrow> tsx_world" where
  "pjsip_tpselector_dec_ref sel w = (case sel of Some tp \<Rightarrow> pjsip_transport_dec_ref tp w | None \<Rightarrow> w)"

definition upd_tdata :: "nat \<Rightarrow> (pjsip_tx_data \<Rightarrow> pjsip_tx_data) \<Rightarrow> tsx_world \<Rightarrow> tsx_world" where
  "upd_tdata td f w = w\<lparr>tdatas := (tdatas w)(td := f (tdatas w td))\<rparr>"

definition pjsip_tx_data_add_ref :: "nat \<Rightarrow> tsx_world \<Rightarrow> tsx_world" where
  "pjsip_tx_data_add_ref td w = upd_tdata td (\<lambda>d. d\<lparr>tx_ref_cnt := tx_ref_cnt d + 1\<rparr>) w"

definition pjsip_tx_data_dec_ref :: "nat \<Rightarrow> tsx_world \<Rightarrow> tsx_world" where
  "pjsip_tx_data_dec_ref td w =
     (let w = upd_tdata td (\<lambda>d. d\<lparr>tx_ref_cnt := tx_ref_cnt d - 1\<rparr>) w
      in if tx_ref_cnt (tdatas w td) \<le> 0 then pjsip_tpselector_dec_ref (tx_tp_sel (tdatas w td)) w
         else w)"

definition pjsip_tx_data_set_transport :: "nat \<Rightarrow> nat option \<Rightarrow> tsx_world \<Rightarrow> tsx_world" where
  "pjsip_tx_data_set_transport td sel w =
     pjsip_tpselector_add_ref sel
       (upd_tdata td (\<lambda>d. d\<lparr>tx_tp_sel := sel\<rparr>)
         (pjsip_tpselector_dec_ref (tx_tp_sel (tdatas w td)) w))"

section \<open>Locking\<close>

definition lock_tsx :: "tsx_world \<Rightarrow> tsx_world" where
  "lock_tsx w =
     (upd_tsx (\<lambda>t. t\<lparr>tsx_mutex := tsx_mutex t + 1\<rparr>) w)\<lparr>tls := (tsx_addr (tsx w), True) # tls w\<rparr>"

definition unlock_tsx :: "tsx_world \<Rightarrow> tsx_world \<times> pj_status" where
  "unlock_tsx w =
     (let is_alive = snd (hd (tls w));
          w' = w\<lparr>tls := tl (tls w)\<rparr>
      in (if is_alive then upd_tsx (\<lambda>t. t\<lparr>tsx_mutex := tsx_mutex t - 1\<rparr>) w' else w',
          if is_alive then PJ_SUCCESS else PJSIP_ETSXDESTROYED))"

section \<open>Transport, destruction, state change\<close>

definition tsx_update_transport :: "nat option \<Rightarrow> tsx_world \<Rightarrow> tsx_world" where
  "tsx_update_transport tp w =
     (let w = (case transport (tsx w) of
                 Some old \<Rightarrow>
                   upd_tsx (\<lambda>t. t\<lparr>transport := None\<rparr>)
                     (pjsip_transport_dec_ref old
                       (pjsip_transport_remove_state_listener old (tsx_addr (tsx w)) w))
               | None \<Rightarrow> w)
      in case tp of
           Some new \<Rightarrow>
             pjsip_transport_add_state_listener new (tsx_addr (tsx w))
               (pjsip_transport_add_ref new (upd_tsx (\<lambda>t. t\<lparr>transport := Some new\<rparr>) w))
         | None \<Rightarrow> w)"

definition mod_tsx_layer_unregister_tsx :: "tsx_world \<Rightarrow> tsx_world" where
  "mod_tsx_layer_unregister_tsx w =
     (if \<not> layer_registered w then w
      else w\<lparr>htable := pj_hash_set (htable w) (transaction_key (tsx w))
               (key_len (transaction_key (tsx w))) (hashed_key (tsx w)) None\<rparr>)"

definition drop_last_tx :: "tsx_world \<Rightarrow> tsx_world" where
  "drop_last_tx w =
     (case last_tx (tsx w) of
        Some td \<Rightarrow> upd_tsx (\<lambda>t. t\<lparr>last_tx := None\<rparr>) (pjsip_tx_data_dec_ref td w)
      | None \<Rightarrow> w)"

definition tsx_destroy :: "tsx_world \<Rightarrow> tsx_world \<times> pj_status" where
  "tsx_destroy w =
     (let w = tsx_update_transport None w;
          w = pjsip_tpselector_dec_ref (tp_sel (tsx w)) w;
          w = drop_last_tx w;
          w = stop_timer (timeout_timer (tsx w)) w;
          w = stop_timer (retransmit_timer (tsx w)) w;
          w = clear_flag TSX_HAS_PENDING_RESCHED (clear_flag TSX_HAS_PENDING_SEND w)
      in if has_flag w TSX_HAS_PENDING_TRANSPORT then
           (upd_tsx (\<lambda>t. t\<lparr>tsx_user := False\<rparr>) (set_flag TSX_HAS_PENDING_DESTROY w), PJ_EBUSY)
         else
           (emit Act_destroyed
              (upd_tsx (\<lambda>t. t\<lparr>tsx_alive := False\<rparr>)
                (w\<lparr>tls := map (\<lambda>(a, alive). (a, if a = tsx_addr (tsx w) then False else alive)) (tls w)\<rparr>)),
            PJ_SUCCESS))"

definition handler_of :: "pjsip_role_e \<Rightarrow> pjsip_tsx_state_e \<Rightarrow> tsx_handler option" where
  "handler_of r s = (if r = PJSIP_ROLE_UAC then tsx_state_handler_uac s else tsx_state_handler_uas s)"

text \<open>The notifications of the transaction user during a state change.\<close>

definition tell_rx :: "tsx_env \<Rightarrow> pjsip_event \<Rightarrow> tsx_world \<Rightarrow> tsx_world" where
  "tell_rx E ev w =
     (case ev of
        PJSIP_EVENT_RX_MSG rdata \<Rightarrow>
          if tsx_user (tsx w) \<and> rx_type rdata = PJSIP_RESPONSE_MSG then
            (case on_rx_response E of Some f \<Rightarrow> f rdata (emit (Act_rx_response (rx_code rdata)) w) | None \<Rightarrow> w)
          else w
      | _ \<Rightarrow> w)"

definition tell_state :: "tsx_env \<Rightarrow> pjsip_tsx_state_e \<Rightarrow> pjsip_event \<Rightarrow> tsx_world \<Rightarrow> tsx_world" where
  "tell_state E prev_state ev w =
     (if tsx_user (tsx w) then
        (case on_tsx_state E of
           Some f \<Rightarrow> f prev_state ev (emit (Act_state prev_state (state (tsx w))) w)
         | None \<Rightarrow> w)
      else w)"

text \<open>What entering Terminated does besides the notification.\<close>

definition detach_pending :: "tsx_world \<Rightarrow> tsx_world" where
  "detach_pending w =
     (if has_flag w TSX_HAS_PENDING_TRANSPORT then
        clear_flag TSX_HAS_PENDING_TRANSPORT
          (case pending_tx (tsx w) of
             Some td \<Rightarrow> upd_tsx (\<lambda>t. t\<lparr>pending_tx := None\<rparr>)
                         (upd_tdata td (\<lambda>d. d\<lparr>tx_mod_data := None\<rparr>) w)
           | None \<Rightarrow> w)
      else w)"

definition enter_terminated :: "tsx_world \<Rightarrow> tsx_world" where
  "enter_terminated w =
     (let w = detach_pending w;
          w = stop_timer (timeout_timer (tsx w)) w
      in start_timer (timeout_timer (tsx w)) (Time_val 0 0) w)"

definition tsx_set_state :: "tsx_env \<Rightarrow> pjsip_tsx_state_e \<Rightarrow> pjsip_event \<Rightarrow> tsx_world \<Rightarrow> tsx_world" where
  "tsx_set_state E st ev w =
     (let prev_state = state (tsx w);
          w = upd_tsx (\<lambda>t. t\<lparr>state := st, state_handler := handler_of (role t) st\<rparr>) w;
          w = tell_rx E ev w;
          w = tell_state E prev_state ev w
      in if st = PJSIP_TSX_STATE_TERMINATED then enter_terminated w
         else if st = PJSIP_TSX_STATE_DESTROYED then fst (tsx_destroy (mod_tsx_layer_unregister_tsx w))
         else w)"

definition tsx_set_status_code :: "nat \<Rightarrow> tsx_world \<Rightarrow> tsx_world" where
  "tsx_set_status_code code w = upd_tsx (\<lambda>t. t\<lparr>status_code := code\<rparr>) w"

end
