(* ===== verification/Tsx_Send.thy ===== *)
theory Tsx_Send
  imports Tsx_World
begin

text \<open>
  Sending and retransmitting (\<^verbatim>\<open>tsx_send_msg\<close>, \<^verbatim>\<open>send_msg_callback\<close>, \<^verbatim>\<open>transport_callback\<close>,
  \<^verbatim>\<open>tsx_tp_state_callback\<close>, \<^verbatim>\<open>tsx_resched_retransmission\<close>, \<^verbatim>\<open>tsx_retransmit\<close>). \<^verbatim>\<open>tsx_send_msg\<close> hands
  a message to the stateless layer, which reports to \<^verbatim>\<open>send_msg_callback\<close>, which may send again:
  the two bodies are written over the call they make, and tied together at the end. The inner send
  cannot reach the stateless layer again, because the callback has just marked the server as
  resolved; \<open>send_knot\<close> in \<^verbatim>\<open>Tsx_Props\<close> shows that the tie is the recursion of the code.
  Reading \<open>the None\<close> is the dereference of a NULL pointer.
\<close>

section \<open>Sending\<close>

text \<open>Failure of the message once the server is resolved: the transaction ends.\<close>

definition transport_error :: "tsx_env \<Rightarrow> pjsip_event \<Rightarrow> tsx_world \<Rightarrow> tsx_world" where
  "transport_error E ev w =
     tsx_set_state E PJSIP_TSX_STATE_TERMINATED ev
       (tsx_set_status_code PJSIP_SC_TSX_TRANSPORT_ERROR w)"

text \<open>The part of \<^verbatim>\<open>tsx_send_msg\<close> that resolves the destination.\<close>

definition send_by_resolving ::
    "(nat \<Rightarrow> tsx_world \<Rightarrow> tsx_world \<times> pj_status) \<Rightarrow> nat \<Rightarrow> tsx_world \<Rightarrow> tsx_world \<times> pj_status" where
  "send_by_resolving stateless td w =
     (let w = pjsip_tx_data_add_ref td w;
          w = upd_tdata td (\<lambda>d. d\<lparr>tx_mod_data := Some (tsx_addr (tsx w))\<rparr>) w;
          w = upd_tsx (\<lambda>t. t\<lparr>pending_tx := Some td\<rparr>) w;
          w = set_flag TSX_HAS_PENDING_TRANSPORT w;
          (w, status) = stateless td w;
          status = (if status = PJ_EPENDING then PJ_SUCCESS else status);
          w = (if status \<noteq> PJ_SUCCESS then
                 upd_tsx (\<lambda>t. t\<lparr>pending_tx := None\<rparr>)
                   (upd_tdata td (\<lambda>d. d\<lparr>tx_mod_data := None\<rparr>) (pjsip_tx_data_dec_ref td w))
               else w)
      in (w, if status = PJ_SUCCESS \<and> state (tsx w) = PJSIP_TSX_STATE_TERMINATED
             then transport_err (tsx w) else status))"

definition tsx_send_msg_via ::
    "tsx_env \<Rightarrow> (nat \<Rightarrow> tsx_world \<Rightarrow> tsx_world \<times> pj_status)
     \<Rightarrow> nat \<Rightarrow> tsx_world \<Rightarrow> tsx_world \<times> pj_status" where
  "tsx_send_msg_via E stateless td w =
     (if has_flag w TSX_HAS_PENDING_TRANSPORT then (set_flag TSX_HAS_PENDING_SEND w, PJ_SUCCESS)
      else
        let (w, status, sent) =
          (case transport (tsx w) of
             Some tp \<Rightarrow>
               (let status = transport_send E w tp td;
                    w = emit (Act_sent tp td) w
                in if status = PJ_SUCCESS \<or> status = PJ_EPENDING then (w, PJ_SUCCESS, True)
                   else (upd_tsx (\<lambda>t. t\<lparr>addr_len := 0, res_addr_transport := None, res_addr_len := 0\<rparr>)
                           (tsx_update_transport None w), status, False))
           | None \<Rightarrow> (w, PJ_SUCCESS, False))
        in if sent then (w, PJ_SUCCESS)
           else if has_flag w TSX_HAS_RESOLVED_SERVER then
             (let status = (if status = PJ_SUCCESS then PJ_EUNKNOWN else status)
              in (transport_error E (PJSIP_EVENT_TRANSPORT_ERROR None) w, status))
           else send_by_resolving stateless td w)"

section \<open>Retransmission timer\<close>

text \<open>
  The time to the next retransmission. \<^verbatim>\<open>config_site.h\<close> of this tree defines \<^verbatim>\<open>PJSIP_EXTEND_ZZY\<close>,
  which replaces whatever was computed by 500 ms. The shift is on a 32-bit unsigned.
\<close>

definition PJSIP_EXTEND_ZZY :: bool where
  "PJSIP_EXTEND_ZZY = True"

definition retransmit_msec :: "tsx_env \<Rightarrow> pjsip_transaction \<Rightarrow> nat" where
  "retransmit_msec E t =
     (let msec_time = (if role t = PJSIP_ROLE_UAC \<and> status_code t \<ge> 100 then cfg_t2 E
                       else (2 ^ retransmit_count t * cfg_t1 E) mod 2 ^ 32)
      in if role t = PJSIP_ROLE_UAC then
           (if msec_time > cfg_t2 E \<and> method_id (tsx_method t) \<noteq> PJSIP_INVITE_METHOD then cfg_t2 E
            else msec_time)
         else if status_code t < 200 then PJSIP_TSX_1XX_RETRANS_DELAY * 1000
         else if msec_time > cfg_t2 E then cfg_t2 E else msec_time)"

definition tsx_resched_retransmission :: "tsx_env \<Rightarrow> tsx_world \<Rightarrow> tsx_world" where
  "tsx_resched_retransmission E w =
     (let msec_time = retransmit_msec E (tsx w)
      in if msec_time \<noteq> 0 then
           let msec_time = (if PJSIP_EXTEND_ZZY then 500 else msec_time)
           in start_timer (retransmit_timer (tsx w))
                (Time_val (int (msec_time div 1000)) (int (msec_time mod 1000))) w
         else w)"

section \<open>Callbacks\<close>

definition clear_pending :: "tsx_world \<Rightarrow> tsx_world" where
  "clear_pending w = set_flag TSX_HAS_RESOLVED_SERVER (clear_flag TSX_HAS_PENDING_TRANSPORT w)"

text \<open>The three branches of \<^verbatim>\<open>send_msg_callback\<close>, between locking and unlocking.\<close>

definition callback_adopt :: "send_attempt \<Rightarrow> tsx_world \<Rightarrow> tsx_world" where
  "callback_adopt a w =
     (if transport (tsx w) \<noteq> at_transport a then
        let w = tsx_update_transport (at_transport a) w
        in upd_tsx (\<lambda>t. t\<lparr>addr_len := at_addr_len a,
             is_reliable := tp_reliable (tps w (the (transport t)))\<rparr>) w
      else w)"

definition callback_resume ::
    "tsx_env \<Rightarrow> (nat \<Rightarrow> tsx_world \<Rightarrow> tsx_world \<times> pj_status) \<Rightarrow> tsx_world \<Rightarrow> tsx_world" where
  "callback_resume E send w =
     (let w = (if has_flag w TSX_HAS_PENDING_SEND then
                 (let w = clear_flag TSX_HAS_PENDING_SEND w in fst (send (the (last_tx (tsx w))) w))
               else w)
      in if has_flag w TSX_HAS_PENDING_RESCHED then
           (let w = clear_flag TSX_HAS_PENDING_RESCHED w
            in if \<not> is_reliable (tsx w) then tsx_resched_retransmission E w else w)
         else w)"

definition callback_sent ::
    "tsx_env \<Rightarrow> (nat \<Rightarrow> tsx_world \<Rightarrow> tsx_world \<times> pj_status) \<Rightarrow> send_attempt \<Rightarrow> tsx_world \<Rightarrow> tsx_world" where
  "callback_sent E send a w =
     (let w = clear_pending (callback_adopt a w)
      in if has_flag w TSX_HAS_PENDING_DESTROY
         then tsx_set_state E PJSIP_TSX_STATE_DESTROYED PJSIP_EVENT_UNKNOWN w
         else callback_resume E send w)"

definition callback_failed :: "tsx_env \<Rightarrow> pj_status \<Rightarrow> nat \<Rightarrow> tsx_world \<Rightarrow> tsx_world" where
  "callback_failed E err td w =
     (let w = upd_tsx (\<lambda>t. t\<lparr>transport_err := err\<rparr>) w;
          w = clear_pending w;
          sc = (if err = PJ_ERESOLVE \<or> err = PJLIB_UTIL_EDNS_NXDOMAIN then PJSIP_SC_BAD_GATEWAY
                else PJSIP_SC_TSX_TRANSPORT_ERROR);
          w = tsx_set_status_code sc w
      in if state (tsx w) \<noteq> PJSIP_TSX_STATE_TERMINATED \<and> state (tsx w) \<noteq> PJSIP_TSX_STATE_DESTROYED
         then tsx_set_state E PJSIP_TSX_STATE_TERMINATED (PJSIP_EVENT_TRANSPORT_ERROR (Some td)) w
         else if has_flag w TSX_HAS_PENDING_DESTROY
         then tsx_set_state E PJSIP_TSX_STATE_DESTROYED (PJSIP_EVENT_TRANSPORT_ERROR (Some td)) w
         else w)"

definition callback_next_server :: "tsx_env \<Rightarrow> nat \<Rightarrow> tsx_world \<Rightarrow> tsx_world" where
  "callback_next_server E td w =
     (let w = upd_tsx (\<lambda>t. t\<lparr>retransmit_count := 0\<rparr>) w;
          e = timeout_timer (tsx w);
          w = (if entry_id w e \<noteq> 0 then
                 start_timer e (timeout_timer_val E)
                   (set_entry_id e TIMER_INACTIVE (pjsip_endpt_cancel_timer e w))
               else w);
          w = upd_tdata td (\<lambda>d. d\<lparr>tx_mod_data := Some (tsx_addr (tsx w))\<rparr>) w
      in upd_tsx (\<lambda>t. t\<lparr>pending_tx := Some td\<rparr>) w)"

definition send_msg_callback_via ::
    "tsx_env \<Rightarrow> (nat \<Rightarrow> tsx_world \<Rightarrow> tsx_world \<times> pj_status) \<Rightarrow> nat \<Rightarrow> send_attempt \<Rightarrow> tsx_world \<Rightarrow> tsx_world" where
  "send_msg_callback_via E send td a w =
     (if tx_mod_data (tdatas w td) = None then w
      else
        let w = upd_tdata td (\<lambda>d. d\<lparr>tx_mod_data := None\<rparr>) w;
            w = upd_tsx (\<lambda>t. t\<lparr>pending_tx := None\<rparr>) w;
            w = lock_tsx w;
            w = (case at_sent a of
                   Inl _ \<Rightarrow> callback_sent E send a w
                 | Inr err \<Rightarrow>
                     (let w = (if at_transport a = transport (tsx w) then tsx_update_transport None w else w)
                      in if \<not> at_cont a \<or> has_flag w TSX_HAS_PENDING_DESTROY
                         then callback_failed E err td w
                         else callback_next_server E td w))
        in fst (unlock_tsx w))"

section \<open>The tie\<close>

text \<open>The inner send: the stateless layer is out of reach.\<close>

definition tsx_send_msg_inner :: "tsx_env \<Rightarrow> nat \<Rightarrow> tsx_world \<Rightarrow> tsx_world \<times> pj_status" where
  "tsx_send_msg_inner E = tsx_send_msg_via E (\<lambda>td w. (w, PJ_EBUG))"

definition send_msg_callback :: "tsx_env \<Rightarrow> nat \<Rightarrow> send_attempt \<Rightarrow> tsx_world \<Rightarrow> tsx_world" where
  "send_msg_callback E = send_msg_callback_via E (tsx_send_msg_inner E)"

text \<open>The stateless layer's attempts that end before it returns.\<close>

fun run_attempts :: "tsx_env \<Rightarrow> nat \<Rightarrow> send_attempt list \<Rightarrow> tsx_world \<Rightarrow> tsx_world" where
  "run_attempts E td [] w = w"
| "run_attempts E td (a # as) w = run_attempts E td as (send_msg_callback E td a w)"

definition call_stateless :: "tsx_env \<Rightarrow> nat \<Rightarrow> tsx_world \<Rightarrow> tsx_world \<times> pj_status" where
  "call_stateless E td w =
     (let (attempts, status) = send_stateless E w td
      in (run_attempts E td attempts (emit (Act_stateless td) w), status))"

definition tsx_send_msg :: "tsx_env \<Rightarrow> nat \<Rightarrow> tsx_world \<Rightarrow> tsx_world \<times> pj_status" where
  "tsx_send_msg E = tsx_send_msg_via E (call_stateless E)"

section \<open>The other callbacks, and retransmission\<close>

definition transport_callback :: "tsx_env \<Rightarrow> nat \<Rightarrow> nat + pj_status \<Rightarrow> tsx_world \<Rightarrow> tsx_world" where
  "transport_callback E td sent w =
     (case sent of
        Inl _ \<Rightarrow> w
      | Inr err \<Rightarrow>
          (let w = upd_tsx (\<lambda>t. t\<lparr>transport_err := err\<rparr>) w;
               w = lock_tsx w;
               w = tsx_update_transport None w
           in fst (unlock_tsx (transport_error E (PJSIP_EVENT_TRANSPORT_ERROR (Some td)) w))))"

definition tsx_tp_state_callback :: "tsx_env \<Rightarrow> bool \<Rightarrow> tsx_world \<Rightarrow> tsx_world" where
  "tsx_tp_state_callback E disconnected w =
     (if disconnected then
        (let w = lock_tsx w
         in fst (unlock_tsx
              (if state (tsx w) < PJSIP_TSX_STATE_TERMINATED
               then transport_error E (PJSIP_EVENT_TRANSPORT_ERROR None) w else w)))
      else w)"

definition tsx_retransmit :: "tsx_env \<Rightarrow> bool \<Rightarrow> tsx_world \<Rightarrow> tsx_world \<times> pj_status" where
  "tsx_retransmit E resched w =
     (if assert_fails (last_tx (tsx w) \<noteq> None) then (w, PJ_EBUG)
      else
          (let w = upd_tsx (\<lambda>t. t\<lparr>retransmit_count := retransmit_count t + 1\<rparr>) w;
               w = (if resched then
                      (if has_flag w TSX_HAS_PENDING_TRANSPORT then set_flag TSX_HAS_PENDING_RESCHED w
                       else tsx_resched_retransmission E w)
                    else w)
           in tsx_send_msg E (the (last_tx (tsx w))) w))"

end
