(* ===== verification/Tsx_Handlers.thy ===== *)
theory Tsx_Handlers
  imports Tsx_Send
begin

text \<open>
  The state handlers of \<^verbatim>\<open>sip_transaction.c\<close>, their dispatch, and the operations a transaction user,
  the transport and the timer call. Checks the code makes by \<^verbatim>\<open>PJ_ASSERT_RETURN\<close> go through
  \<open>assert_fails\<close>; debug assertions have no effect and are left out. An event of another kind than a
  handler reads from its union gives an unspecified buffer.
\<close>

fun ev_tdata :: "pjsip_event \<Rightarrow> nat" where
  "ev_tdata (PJSIP_EVENT_TX_MSG td) = td"

section \<open>Null\<close>

definition keep_last_tx :: "nat \<Rightarrow> tsx_world \<Rightarrow> tsx_world" where
  "keep_last_tx td w =
     (if last_tx (tsx w) \<noteq> Some td
      then pjsip_tx_data_add_ref td (upd_tsx (\<lambda>t. t\<lparr>last_tx := Some td\<rparr>) w) else w)"

definition discard_last_tx :: "nat \<Rightarrow> tsx_world \<Rightarrow> tsx_world" where
  "discard_last_tx td w = (if last_tx (tsx w) \<noteq> Some td then drop_last_tx w else w)"

text \<open>Starting a retransmission timer waits until the transport is known.\<close>

definition start_retransmit :: "pj_time_val \<Rightarrow> tsx_world \<Rightarrow> tsx_world" where
  "start_retransmit delay w =
     (let w = upd_tsx (\<lambda>t. t\<lparr>retransmit_count := 0\<rparr>) w
      in if has_flag w TSX_HAS_PENDING_TRANSPORT then set_flag TSX_HAS_PENDING_RESCHED w
         else start_timer (retransmit_timer (tsx w)) delay w)"

definition tsx_on_state_null :: "tsx_env \<Rightarrow> pjsip_event \<Rightarrow> tsx_world \<Rightarrow> tsx_world \<times> pj_status" where
  "tsx_on_state_null E ev w =
     (if role (tsx w) = PJSIP_ROLE_UAS then (tsx_set_state E PJSIP_TSX_STATE_TRYING ev w, PJ_SUCCESS)
      else if assert_fails (case ev of PJSIP_EVENT_TX_MSG _ \<Rightarrow> True | _ \<Rightarrow> False) then (w, PJ_EBUG)
      else
        let td = ev_tdata ev;
            w = keep_last_tx td (discard_last_tx td w);
            (w, status) = tsx_send_msg E td w
        in if status \<noteq> PJ_SUCCESS then (w, status)
           else
             let w = start_timer (timeout_timer (tsx w)) (timeout_timer_val E) w;
                 w = (if \<not> is_reliable (tsx w) then start_retransmit t1_timer_val w else w)
             in (tsx_set_state E PJSIP_TSX_STATE_CALLING (PJSIP_EVENT_TX_MSG td) w, PJ_SUCCESS))"

section \<open>Proceeding, client\<close>

text \<open>The delay of timer D or K.\<close>

definition timer_d_or_k :: "tsx_env \<Rightarrow> pjsip_transaction \<Rightarrow> pj_time_val" where
  "timer_d_or_k E t =
     (if \<not> is_reliable t then
        (if method_id (tsx_method t) = PJSIP_INVITE_METHOD then td_timer_val E else t4_timer_val E)
      else Time_val 0 0)"

definition uac_success :: "tsx_env \<Rightarrow> pjsip_event \<Rightarrow> tsx_world \<Rightarrow> tsx_world \<times> pj_status" where
  "uac_success E ev w =
     (let w = pjsip_endpt_cancel_timer (timeout_timer (tsx w)) w
      in if method_id (tsx_method (tsx w)) = PJSIP_INVITE_METHOD
         then (tsx_set_state E PJSIP_TSX_STATE_TERMINATED ev w, PJ_SUCCESS)
         else
           let w = start_timer (timeout_timer (tsx w)) (timer_d_or_k E (tsx w)) w;
               w = stop_timer (retransmit_timer (tsx w)) w
           in (tsx_set_state E PJSIP_TSX_STATE_COMPLETED ev w, PJ_SUCCESS))"

text \<open>The ACK: its creation puts the new buffer, with one reference, at the address given.\<close>

definition send_ack :: "tsx_env \<Rightarrow> pjsip_rx_data \<Rightarrow> tsx_world \<Rightarrow> tsx_world \<times> pj_status \<times> nat" where
  "send_ack E rdata w =
     (let (status, ack, d) = create_ack E w (last_tx (tsx w)) rdata
      in if status \<noteq> PJ_SUCCESS then (w, status, ack)
         else
           let w = upd_tdata ack (\<lambda>_. d) w;
               (w, status) = tsx_send_msg E ack w
           in (w, status, ack))"

definition uac_failure :: "tsx_env \<Rightarrow> pjsip_rx_data \<Rightarrow> tsx_world \<Rightarrow> tsx_world \<times> pj_status" where
  "uac_failure E rdata w =
     (let invite = (method_id (tsx_method (tsx w)) = PJSIP_INVITE_METHOD);
          w = stop_timer (retransmit_timer (tsx w)) w;
          w = pjsip_endpt_cancel_timer (timeout_timer (tsx w)) (set_entry_id (timeout_timer (tsx w)) 0 w);
          (w, status, ack) = (if invite then send_ack E rdata w else (w, PJ_SUCCESS, 0))
      in if status \<noteq> PJ_SUCCESS then (w, status)
         else
           let w = tsx_set_state E PJSIP_TSX_STATE_COMPLETED (PJSIP_EVENT_RX_MSG rdata) w;
               w = (if invite \<and> last_tx (tsx w) \<noteq> Some ack
                    then upd_tsx (\<lambda>t. t\<lparr>last_tx := Some ack\<rparr>)
                           (pjsip_tx_data_dec_ref (the (last_tx (tsx w))) w)
                    else w);
               timeout = timer_d_or_k E (tsx w);
               e = timeout_timer (tsx w);
               w = (if entry_id w e \<noteq> 0 then pjsip_endpt_cancel_timer e w else w)
           in (start_timer e timeout w, PJ_SUCCESS))"

text \<open>The common tail, on the status code just stored.\<close>

definition uac_dispatch :: "tsx_env \<Rightarrow> pjsip_event \<Rightarrow> tsx_world \<Rightarrow> tsx_world \<times> pj_status" where
  "uac_dispatch E ev w =
     (if PJSIP_IS_STATUS_IN_CLASS (status_code (tsx w)) 100
      then (tsx_set_state E PJSIP_TSX_STATE_PROCEEDING ev w, PJ_SUCCESS)
      else if PJSIP_IS_STATUS_IN_CLASS (status_code (tsx w)) 200 then uac_success E ev w
      else if ev = PJSIP_EVENT_TIMER (timeout_timer (tsx w))
      then (tsx_set_state E PJSIP_TSX_STATE_TERMINATED ev w, PJ_SUCCESS)
      else
        (case ev of
           PJSIP_EVENT_RX_MSG rdata \<Rightarrow>
             if 300 \<le> status_code (tsx w) \<and> status_code (tsx w) \<le> 699 then uac_failure E rdata w
             else (w, PJ_EBUG)
         | _ \<Rightarrow> (w, PJ_EBUG)))"

definition tsx_on_state_proceeding_uac ::
    "tsx_env \<Rightarrow> pjsip_event \<Rightarrow> tsx_world \<Rightarrow> tsx_world \<times> pj_status" where
  "tsx_on_state_proceeding_uac E ev w =
     (case ev of
        PJSIP_EVENT_TIMER e \<Rightarrow>
          if e = retransmit_timer (tsx w) then tsx_retransmit E True w
          else uac_dispatch E ev (tsx_set_status_code PJSIP_SC_TSX_TIMEOUT w)
      | PJSIP_EVENT_RX_MSG rdata \<Rightarrow>
          if rx_type rdata \<noteq> PJSIP_RESPONSE_MSG then (w, PJSIP_ENOTRESPONSEMSG)
          else uac_dispatch E ev (tsx_set_status_code (rx_code rdata) w)
      | _ \<Rightarrow> (w, PJ_EINVALIDOP))"

section \<open>Calling\<close>

definition calling_timeout :: "tsx_env \<Rightarrow> tsx_world \<Rightarrow> tsx_world" where
  "calling_timeout E w =
     (let w = stop_timer (retransmit_timer (tsx w)) w;
          w = clear_flag TSX_HAS_PENDING_RESCHED w;
          w = tsx_set_status_code PJSIP_SC_TSX_TIMEOUT w
      in tsx_set_state E PJSIP_TSX_STATE_TERMINATED (PJSIP_EVENT_TIMER (timeout_timer (tsx w))) w)"

text \<open>What the first response does to the timers, before it is processed as in Proceeding.\<close>

definition calling_timers :: "tsx_env \<Rightarrow> nat \<Rightarrow> tsx_world \<Rightarrow> tsx_world" where
  "calling_timers E code w =
     (let w = stop_timer (retransmit_timer (tsx w)) w;
          w = (if code \<ge> 200 then stop_timer (timeout_timer (tsx w)) w
               else if method_id (tsx_method (tsx w)) = PJSIP_INVITE_METHOD
               then pjsip_endpt_cancel_timer (timeout_timer (tsx w)) w
               else if \<not> is_reliable (tsx w)
               then start_timer (retransmit_timer (tsx w)) (t2_timer_val E) w
               else w)
      in clear_flag TSX_HAS_PENDING_RESCHED w)"

definition tsx_on_state_calling :: "tsx_env \<Rightarrow> pjsip_event \<Rightarrow> tsx_world \<Rightarrow> tsx_world \<times> pj_status" where
  "tsx_on_state_calling E ev w =
     (case ev of
        PJSIP_EVENT_TIMER e \<Rightarrow>
          if e = retransmit_timer (tsx w) then tsx_retransmit E True w
          else if e = timeout_timer (tsx w) then (calling_timeout E w, PJ_SUCCESS)
          else (w, PJ_EBUG)
      | PJSIP_EVENT_RX_MSG rdata \<Rightarrow>
          if rx_type rdata \<noteq> PJSIP_RESPONSE_MSG then (w, PJSIP_ENOTRESPONSEMSG)
          else (fst (tsx_on_state_proceeding_uac E ev (calling_timers E (rx_code rdata) w)), PJ_SUCCESS)
      | _ \<Rightarrow> (w, PJ_EBUG))"

section \<open>Trying and Proceeding, server\<close>

definition uas_provisional :: "tsx_env \<Rightarrow> nat \<Rightarrow> tsx_world \<Rightarrow> tsx_world" where
  "uas_provisional E td w =
     (let w = keep_last_tx td w;
          w = tsx_set_state E PJSIP_TSX_STATE_PROCEEDING (PJSIP_EVENT_TX_MSG td) w
      in if PJSIP_TSX_1XX_RETRANS_DELAY > 0 \<and> method_id (tsx_method (tsx w)) = PJSIP_INVITE_METHOD
           \<and> status_code (tsx w) > 100
         then start_retransmit (Time_val (int PJSIP_TSX_1XX_RETRANS_DELAY) 0)
                (stop_timer (retransmit_timer (tsx w)) w)
         else w)"

definition timer_h_or_j :: "tsx_env \<Rightarrow> pjsip_transaction \<Rightarrow> pj_time_val" where
  "timer_h_or_j E t =
     (if method_id (tsx_method t) = PJSIP_INVITE_METHOD \<or> \<not> is_reliable t then timeout_timer_val E
      else Time_val 0 0)"

definition uas_success :: "tsx_env \<Rightarrow> nat \<Rightarrow> tsx_world \<Rightarrow> tsx_world" where
  "uas_success E td w =
     (let w = stop_timer (retransmit_timer (tsx w)) w
      in if method_id (tsx_method (tsx w)) = PJSIP_INVITE_METHOD \<and> \<not> handle_200resp (tsx w)
         then tsx_set_state E PJSIP_TSX_STATE_TERMINATED (PJSIP_EVENT_TX_MSG td) w
         else
           let w = (if method_id (tsx_method (tsx w)) = PJSIP_INVITE_METHOD
                    then start_retransmit t1_timer_val w else w);
               w = keep_last_tx td w;
               w = start_timer (timeout_timer (tsx w)) (timer_h_or_j E (tsx w)) w
           in tsx_set_state E PJSIP_TSX_STATE_COMPLETED (PJSIP_EVENT_TX_MSG td) w)"

definition uas_failure :: "tsx_env \<Rightarrow> nat \<Rightarrow> tsx_world \<Rightarrow> tsx_world" where
  "uas_failure E td w =
     (let w = stop_timer (retransmit_timer (tsx w)) w;
          w = keep_last_tx td w;
          w = start_timer (timeout_timer (tsx w)) (timer_h_or_j E (tsx w)) w;
          w = (if \<not> is_reliable (tsx w) \<and> method_id (cseq_method (the (tx_cseq (tdatas w td)))) = PJSIP_INVITE_METHOD
               then start_retransmit t1_timer_val w else w)
      in tsx_set_state E PJSIP_TSX_STATE_COMPLETED (PJSIP_EVENT_TX_MSG td) w)"

text \<open>A status below 100 only fails an assertion.\<close>

definition uas_respond :: "tsx_env \<Rightarrow> nat \<Rightarrow> tsx_world \<Rightarrow> tsx_world \<times> pj_status" where
  "uas_respond E td w =
     (if assert_fails (tx_type (tdatas w td) = PJSIP_RESPONSE_MSG) then (w, PJSIP_ENOTRESPONSEMSG)
      else
        let w = tsx_set_status_code (tx_code (tdatas w td)) w;
            w = discard_last_tx td w;
            (w, status) = tsx_send_msg E td w
        in if status \<noteq> PJ_SUCCESS then (w, status)
           else
             (if PJSIP_IS_STATUS_IN_CLASS (status_code (tsx w)) 100 then uas_provisional E td w
              else if PJSIP_IS_STATUS_IN_CLASS (status_code (tsx w)) 200 then uas_success E td w
              else if status_code (tsx w) \<ge> 300 then uas_failure E td w
              else w, PJ_SUCCESS))"

definition uas_resend :: "tsx_env \<Rightarrow> tsx_world \<Rightarrow> tsx_world \<times> pj_status" where
  "uas_resend E w =
     (if assert_fails (last_tx (tsx w) \<noteq> None) then (w, PJ_EBUG)
      else if has_flag w TSX_HAS_PENDING_TRANSPORT then (set_flag TSX_HAS_PENDING_SEND w, PJ_SUCCESS)
      else tsx_send_msg E (the (last_tx (tsx w))) w)"

definition tsx_on_state_proceeding_uas ::
    "tsx_env \<Rightarrow> pjsip_event \<Rightarrow> tsx_world \<Rightarrow> tsx_world \<times> pj_status" where
  "tsx_on_state_proceeding_uas E ev w =
     (case ev of
        PJSIP_EVENT_RX_MSG _ \<Rightarrow> uas_resend E w
      | PJSIP_EVENT_TX_MSG td \<Rightarrow> uas_respond E td w
      | PJSIP_EVENT_TIMER e \<Rightarrow>
          if e = retransmit_timer (tsx w) then tsx_retransmit E True w
          else if e = timeout_timer (tsx w) then
            (tsx_set_state E PJSIP_TSX_STATE_TERMINATED (PJSIP_EVENT_TIMER (timeout_timer (tsx w)))
               (tsx_set_status_code PJSIP_SC_TSX_TIMEOUT w), PJ_EBUG)
          else (w, PJ_EBUG)
      | _ \<Rightarrow> (w, PJ_EBUG))"

definition tsx_on_state_trying :: "tsx_env \<Rightarrow> pjsip_event \<Rightarrow> tsx_world \<Rightarrow> tsx_world \<times> pj_status" where
  "tsx_on_state_trying E ev w =
     (case ev of
        PJSIP_EVENT_TX_MSG td \<Rightarrow>
          (let (w, status) = tsx_on_state_proceeding_uas E ev w
           in (if status = PJ_SUCCESS \<and> state (tsx w) = PJSIP_TSX_STATE_TRYING
               then tsx_set_state E PJSIP_TSX_STATE_PROCEEDING (PJSIP_EVENT_TX_MSG td) w
               else w, status))
      | _ \<Rightarrow> (w, PJ_SUCCESS))"

section \<open>Completed, Confirmed, Terminated\<close>

text \<open>The delay the code gives timer I.\<close>

definition timer_i :: "tsx_env \<Rightarrow> pjsip_transaction \<Rightarrow> pj_time_val" where
  "timer_i E t = (if \<not> is_reliable t then Time_val 0 0 else t4_timer_val E)"

definition uas_ack :: "tsx_env \<Rightarrow> pjsip_event \<Rightarrow> tsx_world \<Rightarrow> tsx_world \<times> pj_status" where
  "uas_ack E ev w =
     (if method_id (tsx_method (tsx w)) \<noteq> PJSIP_INVITE_METHOD then (w, PJSIP_EINVALIDMETHOD)
      else
        let w = stop_timer (retransmit_timer (tsx w)) w;
            w = clear_flag TSX_HAS_PENDING_RESCHED w;
            w = pjsip_endpt_cancel_timer (timeout_timer (tsx w)) w;
            w = start_timer (timeout_timer (tsx w)) (timer_i E (tsx w)) w
        in (tsx_set_state E PJSIP_TSX_STATE_CONFIRMED ev w, PJ_SUCCESS))"

definition completed_timeout :: "tsx_env \<Rightarrow> tsx_world \<Rightarrow> tsx_world" where
  "completed_timeout E w =
     tsx_set_state E PJSIP_TSX_STATE_TERMINATED (PJSIP_EVENT_TIMER (timeout_timer (tsx w)))
       (if method_id (tsx_method (tsx w)) = PJSIP_INVITE_METHOD
        then tsx_set_status_code PJSIP_SC_TSX_TIMEOUT w else w)"

definition tsx_on_state_completed_uas ::
    "tsx_env \<Rightarrow> pjsip_event \<Rightarrow> tsx_world \<Rightarrow> tsx_world \<times> pj_status" where
  "tsx_on_state_completed_uas E ev w =
     (case ev of
        PJSIP_EVENT_RX_MSG rdata \<Rightarrow>
          if rx_type rdata \<noteq> PJSIP_REQUEST_MSG then (w, PJSIP_ENOTREQUESTMSG)
          else if method_id (rx_method rdata) \<noteq> PJSIP_ACK_METHOD then tsx_retransmit E False w
          else uas_ack E ev w
      | PJSIP_EVENT_TIMER e \<Rightarrow>
          if e = retransmit_timer (tsx w) then tsx_retransmit E True w
          else (completed_timeout E w, PJ_SUCCESS)
      | _ \<Rightarrow>
          (w, if assert_fails (case ev of PJSIP_EVENT_TX_MSG td \<Rightarrow> last_tx (tsx w) = Some td | _ \<Rightarrow> False)
              then PJ_EINVALIDOP else PJ_SUCCESS))"

definition tsx_on_state_completed_uac ::
    "tsx_env \<Rightarrow> pjsip_event \<Rightarrow> tsx_world \<Rightarrow> tsx_world \<times> pj_status" where
  "tsx_on_state_completed_uac E ev w =
     (case ev of
        PJSIP_EVENT_TIMER _ \<Rightarrow> (tsx_set_state E PJSIP_TSX_STATE_TERMINATED ev w, PJ_SUCCESS)
      | PJSIP_EVENT_RX_MSG rdata \<Rightarrow>
          if method_id (tsx_method (tsx w)) = PJSIP_INVITE_METHOD
             \<and> rx_type rdata = PJSIP_RESPONSE_MSG \<and> rx_code rdata \<ge> 200
          then tsx_retransmit E False w
          else (w, PJ_SUCCESS)
      | _ \<Rightarrow> (w, PJ_EINVALIDOP))"

definition tsx_on_state_confirmed :: "tsx_env \<Rightarrow> pjsip_event \<Rightarrow> tsx_world \<Rightarrow> tsx_world \<times> pj_status" where
  "tsx_on_state_confirmed E ev w =
     (case ev of
        PJSIP_EVENT_RX_MSG rdata \<Rightarrow>
          (w, if rx_type rdata \<noteq> PJSIP_REQUEST_MSG then PJSIP_ENOTREQUESTMSG else PJ_SUCCESS)
      | PJSIP_EVENT_TIMER _ \<Rightarrow>
          (tsx_set_state E PJSIP_TSX_STATE_TERMINATED (PJSIP_EVENT_TIMER (timeout_timer (tsx w))) w,
           PJ_SUCCESS)
      | _ \<Rightarrow> (w, PJ_EBUG))"

definition tsx_on_state_terminated :: "tsx_env \<Rightarrow> pjsip_event \<Rightarrow> tsx_world \<Rightarrow> tsx_world \<times> pj_status" where
  "tsx_on_state_terminated E ev w = (tsx_set_state E PJSIP_TSX_STATE_DESTROYED ev w, PJ_SUCCESS)"

definition tsx_on_state_destroyed :: "tsx_env \<Rightarrow> pjsip_event \<Rightarrow> tsx_world \<Rightarrow> tsx_world \<times> pj_status" where
  "tsx_on_state_destroyed E ev w = (w, PJ_EBUG)"

section \<open>Dispatch\<close>

fun run_handler :: "tsx_handler \<Rightarrow> tsx_env \<Rightarrow> pjsip_event \<Rightarrow> tsx_world \<Rightarrow> tsx_world \<times> pj_status" where
  "run_handler tsx_on_state_null_h = tsx_on_state_null"
| "run_handler tsx_on_state_calling_h = tsx_on_state_calling"
| "run_handler tsx_on_state_trying_h = tsx_on_state_trying"
| "run_handler tsx_on_state_proceeding_uas_h = tsx_on_state_proceeding_uas"
| "run_handler tsx_on_state_proceeding_uac_h = tsx_on_state_proceeding_uac"
| "run_handler tsx_on_state_completed_uas_h = tsx_on_state_completed_uas"
| "run_handler tsx_on_state_completed_uac_h = tsx_on_state_completed_uac"
| "run_handler tsx_on_state_confirmed_h = tsx_on_state_confirmed"
| "run_handler tsx_on_state_terminated_h = tsx_on_state_terminated"
| "run_handler tsx_on_state_destroyed_h = tsx_on_state_destroyed"

text \<open>\<^verbatim>\<open>(*tsx->state_handler)(tsx, &event)\<close>: a NULL handler is called through \<open>the None\<close>.\<close>

definition call_handler :: "tsx_env \<Rightarrow> pjsip_event \<Rightarrow> tsx_world \<Rightarrow> tsx_world \<times> pj_status" where
  "call_handler E ev w = run_handler (the (state_handler (tsx w))) E ev w"

definition tsx_timer_callback :: "tsx_env \<Rightarrow> nat \<Rightarrow> tsx_world \<Rightarrow> tsx_world" where
  "tsx_timer_callback E entry w =
     (let w = set_entry_id entry 0 w;
          w = lock_tsx w
      in fst (unlock_tsx (fst (call_handler E (PJSIP_EVENT_TIMER entry) w))))"

definition pjsip_tsx_send_msg :: "tsx_env \<Rightarrow> nat option \<Rightarrow> tsx_world \<Rightarrow> tsx_world \<times> pj_status" where
  "pjsip_tsx_send_msg E tdata w =
     (let tdata = (if tdata = None then last_tx (tsx w) else tdata)
      in if assert_fails (tdata \<noteq> None) then (w, PJ_EINVALIDOP)
         else
           let td = the tdata;
               w = lock_tsx w;
               w = pjsip_tx_data_set_transport td (tp_sel (tsx w)) w;
               (w, status) = call_handler E (PJSIP_EVENT_TX_MSG td) w;
               w = fst (unlock_tsx w)
           in (if status = PJ_SUCCESS then pjsip_tx_data_dec_ref td w else w, status))"

definition pjsip_tsx_recv_msg :: "tsx_env \<Rightarrow> pjsip_rx_data \<Rightarrow> tsx_world \<Rightarrow> tsx_world" where
  "pjsip_tsx_recv_msg E rdata w =
     (let w = lock_tsx w
      in fst (unlock_tsx (fst (call_handler E (PJSIP_EVENT_RX_MSG rdata) w))))"

definition pjsip_tsx_terminate :: "tsx_env \<Rightarrow> nat \<Rightarrow> tsx_world \<Rightarrow> tsx_world \<times> pj_status" where
  "pjsip_tsx_terminate E code w =
     (if assert_fails (code \<ge> 200) then (w, PJ_EINVAL)
      else if state (tsx w) \<ge> PJSIP_TSX_STATE_TERMINATED then (w, PJ_SUCCESS)
      else
        let w = lock_tsx w;
            w = tsx_set_status_code code w;
            w = tsx_set_state E PJSIP_TSX_STATE_TERMINATED PJSIP_EVENT_USER w
        in (fst (unlock_tsx w), PJ_SUCCESS))"

definition pjsip_tsx_stop_retransmit :: "tsx_world \<Rightarrow> tsx_world \<times> pj_status" where
  "pjsip_tsx_stop_retransmit w =
     (if assert_fails (role (tsx w) = PJSIP_ROLE_UAC \<and> method_id (tsx_method (tsx w)) = PJSIP_INVITE_METHOD)
      then (w, PJ_EINVALIDOP)
      else (let w = lock_tsx w
            in fst (unlock_tsx (stop_timer (retransmit_timer (tsx w)) w)), PJ_SUCCESS))"

definition pjsip_tsx_set_timeout :: "nat \<Rightarrow> tsx_world \<Rightarrow> tsx_world \<times> pj_status" where
  "pjsip_tsx_set_timeout millisec w =
     (if assert_fails (role (tsx w) = PJSIP_ROLE_UAC \<and> method_id (tsx_method (tsx w)) = PJSIP_INVITE_METHOD)
      then (w, PJ_EINVALIDOP)
      else if status_code (tsx w) \<ge> 200 \<and> entry_id w (timeout_timer (tsx w)) \<noteq> 0 then (w, PJ_EEXISTS)
      else
        let w = stop_timer (timeout_timer (tsx w)) w
        in (start_timer (timeout_timer (tsx w))
              (pj_time_val_normalize (Time_val 0 (int millisec))) w, PJ_SUCCESS))"

definition pjsip_tsx_set_transport :: "nat option \<Rightarrow> tsx_world \<Rightarrow> tsx_world \<times> pj_status" where
  "pjsip_tsx_set_transport sel w =
     (let w = lock_tsx w;
          w = pjsip_tpselector_dec_ref (tp_sel (tsx w)) w;
          w = upd_tsx (\<lambda>t. t\<lparr>tp_sel := sel\<rparr>) w;
          w = pjsip_tpselector_add_ref sel w
      in (fst (unlock_tsx w), PJ_SUCCESS))"

definition pjsip_tsx_retransmit_no_state ::
    "tsx_env \<Rightarrow> nat option \<Rightarrow> tsx_world \<Rightarrow> tsx_world \<times> pj_status" where
  "pjsip_tsx_retransmit_no_state E tdata w =
     (let w = lock_tsx w;
          td = the (if tdata = None then last_tx (tsx w) else tdata);
          (w, status) = tsx_send_msg E td w;
          w = fst (unlock_tsx w)
      in (if status = PJ_SUCCESS then pjsip_tx_data_dec_ref td w else w, status))"

end
