(* ===== verification/Tsx_Layer.thy ===== *)
theory Tsx_Layer
  imports Tsx_Handlers
begin

text \<open>
  The transaction layer: creation and registration of transactions, routing of received messages,
  shutdown (\<^verbatim>\<open>sip_transaction.c\<close>), and the statefull utilities that use it
  (\<^verbatim>\<open>sip_util_statefull.c\<close>). The layer keeps every transaction by address; an operation on one of
  them brings it into the focus of the world.
\<close>

section \<open>Creation\<close>

text \<open>A zeroed structure at address \<open>a\<close> with its two timers, and the defaults \<^verbatim>\<open>tsx_create\<close> sets.\<close>

definition tsx_new :: "nat \<Rightarrow> nat \<Rightarrow> nat \<Rightarrow> bool \<Rightarrow> pjsip_transaction" where
  "tsx_new a rt tt user =
     \<lparr>tsx_addr = a, tsx_user = user, role = PJSIP_ROLE_UAC,
      tsx_method = \<lparr>method_id = PJSIP_INVITE_METHOD, method_name = []\<rparr>, cseq = 0,
      transaction_key = [], hashed_key = 0, branch = [], status_code = 0,
      state = PJSIP_TSX_STATE_NULL, handle_200resp = True, state_handler = None,
      transport = None, is_reliable = False, addr_len = 0, res_addr_transport = None,
      res_addr_len = 0, transport_flag = {}, transport_err = PJ_SUCCESS, tp_sel = None,
      pending_tx = None, last_tx = None, retransmit_count = 0, retransmit_timer = rt,
      timeout_timer = tt, util_data = None, tsx_mutex = 0, tsx_alive = True\<rparr>"

definition zero_entry :: pj_timer_entry where
  "zero_entry = \<lparr>te_id = 0, te_cb = Some 1, timer_id = 0, timer_value = Time_val 0 0\<rparr>"

text \<open>What the allocator hands out, and whether it and the mutexes succeeded.\<close>

record tsx_alloc =
  al_status :: pj_status
  al_addr :: nat
  al_rt :: nat
  al_tt :: nat

definition tsx_create :: "tsx_alloc \<Rightarrow> bool \<Rightarrow> tsx_world \<Rightarrow> tsx_world \<times> pj_status" where
  "tsx_create al user w =
     (if al_status al \<noteq> PJ_SUCCESS then (w, al_status al)
      else
        (w\<lparr>tsx := tsx_new (al_addr al) (al_rt al) (al_tt al) user,
           theap := (theap w)\<lparr>nodes := (nodes (theap w))(al_rt al := zero_entry, al_tt al := zero_entry)\<rparr>\<rparr>,
         PJ_SUCCESS))"

definition mod_tsx_layer_register_tsx :: "tsx_world \<Rightarrow> tsx_world \<times> pj_status" where
  "mod_tsx_layer_register_tsx w =
     (let k = transaction_key (tsx w)
      in if fst (pj_hash_get (htable w) k (key_len k) 0) \<noteq> None then (w, PJ_EEXISTS)
         else (w\<lparr>htable := pj_hash_set (htable w) k (key_len k) (hashed_key (tsx w))
                  (Some (tsx_addr (tsx w)))\<rparr>, PJ_SUCCESS))"

text \<open>Leaving with an error: unlock, destroy, report.\<close>

definition give_up :: "pj_status \<Rightarrow> tsx_world \<Rightarrow> tsx_world \<times> pj_status" where
  "give_up status w = (fst (tsx_destroy (fst (unlock_tsx w))), status)"

text \<open>
  The branch generated for a request without one: the cookie, two bytes, and the unique string the
  platform returns.
\<close>

definition new_branch :: "8 word list \<Rightarrow> 8 word list" where
  "new_branch unique = PJSIP_RFC3261_BRANCH_ID @ [80, 106] @ unique"

definition finish_create :: "tsx_world \<Rightarrow> tsx_world \<times> pj_status" where
  "finish_create w =
     (let (w, status) = mod_tsx_layer_register_tsx w
      in if status \<noteq> PJ_SUCCESS then give_up status w else (fst (unlock_tsx w), PJ_SUCCESS))"

definition uac_setup :: "8 word list \<Rightarrow> nat \<Rightarrow> tsx_world \<Rightarrow> tsx_world" where
  "uac_setup unique td w =
     (let d = tdatas w td;
          b = (if tx_branch d = [] then new_branch unique else tx_branch d);
          k = fst (create_tsx_key_3261 PJSIP_ROLE_UAC (tx_method d) b);
          w = upd_tdata td (\<lambda>d. d\<lparr>tx_branch := b\<rparr>) w;
          w = upd_tsx (\<lambda>t. t\<lparr>role := PJSIP_ROLE_UAC, tsx_method := tx_method d,
                cseq := cseq_num (the (tx_cseq d)), branch := b, transaction_key := k,
                hashed_key := pj_hash_calc 0 k (key_len k), state := PJSIP_TSX_STATE_NULL,
                state_handler := Some tsx_on_state_null_h, last_tx := Some td\<rparr>) w
      in pjsip_tx_data_add_ref td w)"

text \<open>\<open>dest\<close> is what \<^verbatim>\<open>pjsip_get_request_dest\<close> reports: its status and the reliability flag.\<close>

definition pjsip_tsx_create_uac ::
    "tsx_alloc \<Rightarrow> 8 word list \<Rightarrow> pj_status \<times> bool \<Rightarrow> bool \<Rightarrow> nat \<Rightarrow> tsx_world \<Rightarrow> tsx_world \<times> pj_status" where
  "pjsip_tsx_create_uac al unique dest user td w =
     (let d = tdatas w td
      in if assert_fails (tx_type d = PJSIP_REQUEST_MSG) then (w, PJSIP_ENOTREQUESTMSG)
         else if assert_fails (method_id (tx_method d) \<noteq> PJSIP_ACK_METHOD) then (w, PJ_EINVALIDOP)
         else if tx_cseq d = None then (w, PJSIP_EMISSINGHDR)
         else
           let (w, status) = tsx_create al user w
           in if status \<noteq> PJ_SUCCESS then (w, status)
              else
                let w = uac_setup unique td (lock_tsx w)
                in if fst dest \<noteq> PJ_SUCCESS then give_up (fst dest) w
                   else finish_create (upd_tsx (\<lambda>t. t\<lparr>is_reliable := snd dest\<rparr>) w))"

text \<open>\<^verbatim>\<open>pjsip_get_response_addr\<close>: status, the transport to reuse, address length, reliability.\<close>

record response_addr =
  ra_status :: pj_status
  ra_transport :: "nat option"
  ra_addr_len :: nat
  ra_reliable :: bool

definition uas_setup :: "pjsip_via_hdr \<Rightarrow> pjsip_cseq_hdr \<Rightarrow> pjsip_rx_data \<Rightarrow> tsx_world \<Rightarrow> tsx_world" where
  "uas_setup via hdr rdata w =
     (let k = fst (pjsip_tsx_create_key PJSIP_ROLE_UAS (rx_method rdata) via hdr rdata)
      in upd_tsx (\<lambda>t. t\<lparr>role := PJSIP_ROLE_UAS, tsx_method := rx_method rdata, cseq := cseq_num hdr,
            transaction_key := k, hashed_key := pj_hash_calc 0 k (key_len k),
            branch := branch_param via, state := PJSIP_TSX_STATE_NULL,
            state_handler := Some tsx_on_state_null_h\<rparr>) w)"

definition uas_adopt_addr :: "response_addr \<Rightarrow> tsx_world \<Rightarrow> tsx_world" where
  "uas_adopt_addr ra w =
     (let w = upd_tsx (\<lambda>t. t\<lparr>res_addr_transport := ra_transport ra, res_addr_len := ra_addr_len ra\<rparr>) w
      in case ra_transport ra of
           Some tp \<Rightarrow>
             (let w = tsx_update_transport (Some tp) w
              in upd_tsx (\<lambda>t. t\<lparr>addr_len := ra_addr_len ra, is_reliable := tp_reliable (tps w tp)\<rparr>) w)
         | None \<Rightarrow> upd_tsx (\<lambda>t. t\<lparr>is_reliable := ra_reliable ra\<rparr>) w)"

definition pjsip_tsx_create_uas ::
    "tsx_alloc \<Rightarrow> response_addr \<Rightarrow> bool \<Rightarrow> pjsip_rx_data \<Rightarrow> tsx_world \<Rightarrow> tsx_world \<times> pj_status" where
  "pjsip_tsx_create_uas al ra user rdata w =
     (if assert_fails (rx_type rdata = PJSIP_REQUEST_MSG) then (w, PJSIP_ENOTREQUESTMSG)
      else if assert_fails (method_id (rx_method rdata) \<noteq> PJSIP_ACK_METHOD) then (w, PJ_EINVALIDOP)
      else
        case (rx_cseq rdata, rx_via rdata) of
          (Some hdr, Some via) \<Rightarrow>
            if \<not> pjsip_method_cmp (rx_method rdata) (cseq_method hdr) then (w, PJSIP_EINVALIDHDR)
            else
              (let (w, status) = tsx_create al user w
               in if status \<noteq> PJ_SUCCESS then (w, status)
                  else
                    let w = uas_setup via hdr rdata (lock_tsx w)
                    in if ra_status ra \<noteq> PJ_SUCCESS then give_up (ra_status ra) w
                       else finish_create (uas_adopt_addr ra w))
        | _ \<Rightarrow> (w, PJSIP_EMISSINGHDR))"

section \<open>The layer\<close>

record mod_tsx_layer =
  ml_world :: tsx_world
  ml_tsxs :: "nat \<Rightarrow> pjsip_transaction"

text \<open>Bring the transaction at \<open>a\<close> into focus, run, and store it back.\<close>

definition with_tsx :: "nat \<Rightarrow> (tsx_world \<Rightarrow> tsx_world) \<Rightarrow> mod_tsx_layer \<Rightarrow> mod_tsx_layer" where
  "with_tsx a f l =
     (let w = f ((ml_world l)\<lparr>tsx := ml_tsxs l a\<rparr>)
      in \<lparr>ml_world = w, ml_tsxs = (ml_tsxs l)(a := tsx w)\<rparr>)"

definition pjsip_tsx_layer_get_tsx_count :: "mod_tsx_layer \<Rightarrow> nat" where
  "pjsip_tsx_layer_get_tsx_count l = pj_hash_count (htable (ml_world l))"

definition pjsip_tsx_layer_find_tsx :: "8 word list \<Rightarrow> mod_tsx_layer \<Rightarrow> nat option" where
  "pjsip_tsx_layer_find_tsx key l = fst (pj_hash_get (htable (ml_world l)) key (key_len key) 0)"

definition route :: "tsx_env \<Rightarrow> pjsip_role_e \<Rightarrow> pjsip_rx_data \<Rightarrow> mod_tsx_layer \<Rightarrow> mod_tsx_layer \<times> bool" where
  "route E r rdata l =
     (let hdr = the (rx_cseq rdata);
          key = fst (pjsip_tsx_create_key r (cseq_method hdr) (the (rx_via rdata)) hdr rdata)
      in case fst (pj_hash_get (htable (ml_world l)) key (key_len key) 0) of
           None \<Rightarrow> (l, False)
         | Some a \<Rightarrow>
             if state (ml_tsxs l a) = PJSIP_TSX_STATE_TERMINATED then (l, False)
             else (with_tsx a (pjsip_tsx_recv_msg E rdata) l, True))"

definition mod_tsx_layer_on_rx_request ::
    "tsx_env \<Rightarrow> pjsip_rx_data \<Rightarrow> mod_tsx_layer \<Rightarrow> mod_tsx_layer \<times> bool" where
  "mod_tsx_layer_on_rx_request E rdata l = route E PJSIP_ROLE_UAS rdata l"

definition mod_tsx_layer_on_rx_response ::
    "tsx_env \<Rightarrow> pjsip_rx_data \<Rightarrow> mod_tsx_layer \<Rightarrow> mod_tsx_layer \<times> bool" where
  "mod_tsx_layer_on_rx_response E rdata l = route E PJSIP_ROLE_UAC rdata l"

text \<open>Shutdown walks the table, taking the successor of an entry before it unlinks the entry.\<close>

definition stop_one :: "tsx_env \<Rightarrow> nat \<Rightarrow> mod_tsx_layer \<Rightarrow> mod_tsx_layer" where
  "stop_one E a =
     with_tsx a (\<lambda>w. fst (tsx_destroy (mod_tsx_layer_unregister_tsx
       (fst (pjsip_tsx_terminate E PJSIP_SC_SERVICE_UNAVAILABLE w)))))"

partial_function (option) stop_loop ::
    "tsx_env \<Rightarrow> mod_tsx_layer \<Rightarrow> nat pj_hash_iterator_t option \<Rightarrow> mod_tsx_layer option" where
  "stop_loop E l it =
     (case it of
        None \<Rightarrow> Some l
      | Some i \<Rightarrow>
          stop_loop E (stop_one E (pj_hash_this i) l) (pj_hash_next (htable (ml_world l)) i))"

declare stop_loop.simps [code]

definition mod_tsx_layer_stop :: "tsx_env \<Rightarrow> mod_tsx_layer \<Rightarrow> mod_tsx_layer option" where
  "mod_tsx_layer_stop E l = stop_loop E l (pj_hash_first (htable (ml_world l)))"

definition mod_tsx_layer_unload :: "mod_tsx_layer \<Rightarrow> pj_status" where
  "mod_tsx_layer_unload l = (if pj_hash_count (htable (ml_world l)) \<noteq> 0 then PJ_EBUSY else PJ_SUCCESS)"

section \<open>Statefull utilities\<close>

text \<open>
  The transaction user of \<^verbatim>\<open>pjsip_endpt_send_request\<close>: it calls the application once, on the first
  notification with a final status. \<open>cb\<close> is the application's callback.
\<close>

definition mod_util_on_tsx_state ::
    "(nat \<Rightarrow> tsx_world \<Rightarrow> tsx_world) option \<Rightarrow> pjsip_tsx_state_e \<Rightarrow> pjsip_event \<Rightarrow> tsx_world \<Rightarrow> tsx_world" where
  "mod_util_on_tsx_state cb prev_state ev w =
     (case util_data (tsx w) of
        None \<Rightarrow> w
      | Some token \<Rightarrow>
          if status_code (tsx w) < 200 then w
          else
            let w = upd_tsx (\<lambda>t. t\<lparr>util_data := None\<rparr>) w
            in case cb of Some f \<Rightarrow> f token w | None \<Rightarrow> w)"

definition pjsip_endpt_send_request ::
    "tsx_env \<Rightarrow> tsx_alloc \<Rightarrow> 8 word list \<Rightarrow> pj_status \<times> bool \<Rightarrow> nat \<Rightarrow> nat \<Rightarrow> tsx_world
     \<Rightarrow> tsx_world \<times> pj_status" where
  "pjsip_endpt_send_request E al unique dest td token w =
     (let (w, status) = pjsip_tsx_create_uac al unique dest True td w
      in if status \<noteq> PJ_SUCCESS then (pjsip_tx_data_dec_ref td w, status)
         else
           let w = fst (pjsip_tsx_set_transport (tx_tp_sel (tdatas w td)) w);
               w = upd_tsx (\<lambda>t. t\<lparr>util_data := Some token\<rparr>) w;
               (w, status) = pjsip_tsx_send_msg E None w
           in (if status \<noteq> PJ_SUCCESS then pjsip_tx_data_dec_ref td w else w, status))"

text \<open>
  \<open>resp\<close> is the outcome of \<^verbatim>\<open>pjsip_endpt_create_response\<close>, \<open>body_ok\<close> that of cloning the body. A
  failed clone returns the status of the creation, which is success.
\<close>

definition pjsip_endpt_respond ::
    "tsx_env \<Rightarrow> tsx_alloc \<Rightarrow> response_addr \<Rightarrow> bool \<Rightarrow> pj_status \<times> nat \<times> pjsip_tx_data \<Rightarrow> bool
     \<Rightarrow> pjsip_rx_data \<Rightarrow> tsx_world \<Rightarrow> tsx_world \<times> pj_status \<times> nat option" where
  "pjsip_endpt_respond E al ra user resp body_ok rdata w =
     (let (status, td, d) = resp
      in if status \<noteq> PJ_SUCCESS then (w, status, None)
         else
           let w = upd_tdata td (\<lambda>_. d) w
           in if \<not> body_ok then (pjsip_tx_data_dec_ref td w, status, None)
              else
                let (w, status) = pjsip_tsx_create_uas al ra user rdata w
                in if status \<noteq> PJ_SUCCESS then (pjsip_tx_data_dec_ref td w, status, None)
                   else
                     let w = pjsip_tsx_recv_msg E rdata w;
                         (w, status) = pjsip_tsx_send_msg E (Some td) w
                     in if status \<noteq> PJ_SUCCESS then (pjsip_tx_data_dec_ref td w, status, None)
                        else (w, status, Some (tsx_addr (tsx w))))"

end
