(* ===== verification/Tsx_Core.thy ===== *)
theory Tsx_Core
  imports Tsx_Layer Timer_Heap_Poll
begin

text \<open>
  The invariant of a transaction speaks of part of the world only: the heap and its two timers, the
  hash table and the key, the state with its handler, and the flags. That part is the \<open>core\<close> of a
  world; this theory says what every primitive does to it.
\<close>

record tsx_core =
  c_heap :: pj_timer_heap_t
  c_tab :: "nat pj_hash_table_t"
  c_addr :: nat
  c_role :: pjsip_role_e
  c_method :: pjsip_method
  c_key :: "8 word list"
  c_hash :: "32 word"
  c_state :: pjsip_tsx_state_e
  c_handler :: "tsx_handler option"
  c_flags :: "tsx_flag set"
  c_err :: pj_status
  c_rt :: nat
  c_to :: nat
  c_mod :: "nat \<Rightarrow> nat option"
  c_reg :: bool

definition core :: "tsx_world \<Rightarrow> tsx_core" where
  "core w = \<lparr>c_heap = theap w, c_tab = htable w, c_addr = tsx_addr (tsx w), c_role = role (tsx w),
     c_method = tsx_method (tsx w), c_key = transaction_key (tsx w), c_hash = hashed_key (tsx w),
     c_state = state (tsx w), c_handler = state_handler (tsx w), c_flags = transport_flag (tsx w),
     c_err = transport_err (tsx w), c_rt = retransmit_timer (tsx w), c_to = timeout_timer (tsx w),
     c_mod = (\<lambda>td. tx_mod_data (tdatas w td)), c_reg = layer_registered w\<rparr>"

text \<open>Reading a world through its core.\<close>

lemma core_fold:
  "theap w = c_heap (core w)" "htable w = c_tab (core w)" "tsx_addr (tsx w) = c_addr (core w)"
  "role (tsx w) = c_role (core w)" "tsx_method (tsx w) = c_method (core w)"
  "transaction_key (tsx w) = c_key (core w)" "hashed_key (tsx w) = c_hash (core w)"
  "state (tsx w) = c_state (core w)" "state_handler (tsx w) = c_handler (core w)"
  "transport_flag (tsx w) = c_flags (core w)" "transport_err (tsx w) = c_err (core w)"
  "retransmit_timer (tsx w) = c_rt (core w)" "timeout_timer (tsx w) = c_to (core w)"
  "tx_mod_data (tdatas w td) = c_mod (core w) td" "layer_registered w = c_reg (core w)"
  by (simp_all add: core_def)

declare th_view_simps [simp del]

section \<open>Heap operations of the handlers\<close>

abbreviation ids :: "pj_timer_heap_t \<Rightarrow> nat \<Rightarrow> int" where
  "ids h \<equiv> \<lambda>e. te_id (nodes h e)"

definition heap_cancel :: "nat \<Rightarrow> pj_timer_heap_t \<Rightarrow> pj_timer_heap_t" where
  "heap_cancel e h = fst (pj_timer_heap_cancel h e)"

definition heap_start :: "pj_time_val \<Rightarrow> nat \<Rightarrow> pj_time_val \<Rightarrow> pj_timer_heap_t \<Rightarrow> pj_timer_heap_t" where
  "heap_start nw e d h = fst (pj_timer_heap_schedule (set_te_id h e TIMER_ACTIVE) nw e d)"

definition heap_stop :: "nat \<Rightarrow> pj_timer_heap_t \<Rightarrow> pj_timer_heap_t" where
  "heap_stop e h = (if ids h e \<noteq> 0 then set_te_id (heap_cancel e h) e 0 else h)"

lemma pending_view: "pending h e \<longleftrightarrow> th_view h e \<noteq> None"
  by (simp add: th_view_def)

lemma heap_cancel:
  assumes "th_inv h"
  shows "th_inv (heap_cancel e h)" "th_view (heap_cancel e h) = (th_view h)(e := None)"
    "ids (heap_cancel e h) x = ids h x" "pending (heap_cancel e h) x \<longleftrightarrow> x \<noteq> e \<and> pending h x"
  using ts.ok_stop [OF assms, of e] ts.view_stop [OF assms, of e]
    fun_cong [OF ts.id_stop [OF assms, of e], of x]
  by (simp_all add: heap_cancel_def pending_view)

lemma heap_set_id:
  assumes "th_inv h"
  shows "th_inv (set_te_id h e i)" "th_view (set_te_id h e i) = th_view h"
    "ids (set_te_id h e i) x = (if x = e then i else ids h x)"
    "pending (set_te_id h e i) x = pending h x"
  using ts.ok_set_id [OF assms, of e i] ts.view_set_id [of h e i] fun_cong [OF ts.id_set_id [of h e i], of x]
  by (simp_all add: pending_view)

lemma heap_start:
  assumes "th_inv h" "\<not> pending h e"
  shows "th_inv (heap_start nw e d h)"
    "th_view (heap_start nw e d h) = (th_view h)(e \<mapsto> PJ_TIME_VAL_ADD nw d)"
    "ids (heap_start nw e d h) x = (if x = e then 1 else ids h x)"
    "pending (heap_start nw e d h) x \<longleftrightarrow> x = e \<or> pending h x"
proof -
  let ?h = "set_te_id h e TIMER_ACTIVE"
  note a = heap_set_id [OF assms(1), of e TIMER_ACTIVE]
  have n: "th_view ?h e = None" using a(4) [of e] assms(2) by (simp add: pending_view)
  show v: "th_view (heap_start nw e d h) = (th_view h)(e \<mapsto> PJ_TIME_VAL_ADD nw d)"
    using ts.view_sched [OF a(1) n, of nw d] a(2) by (simp add: heap_start_def)
  show "th_inv (heap_start nw e d h)"
    using ts.ok_sched [OF a(1) n, of nw d] by (simp add: heap_start_def)
  show "ids (heap_start nw e d h) x = (if x = e then 1 else ids h x)"
    using fun_cong [OF ts.id_sched [OF a(1) n, of nw d], of x] a(3) [of x]
    by (simp add: heap_start_def TIMER_ACTIVE_def)
  show "pending (heap_start nw e d h) x \<longleftrightarrow> x = e \<or> pending h x"
    by (simp add: pending_view v)
qed

lemma heap_stop:
  assumes "th_inv h" "pending h e \<Longrightarrow> ids h e \<noteq> 0"
  shows "th_inv (heap_stop e h)" "ids (heap_stop e h) x = (if x = e then 0 else ids h x)"
    "pending (heap_stop e h) x \<longleftrightarrow> x \<noteq> e \<and> pending h x"
  using heap_cancel [OF assms(1)] heap_set_id [OF heap_cancel(1) [OF assms(1)]] assms
  by (auto simp: heap_stop_def)

section \<open>Primitives on the core\<close>

lemma core_flag [simp]:
  "core (set_flag f w) = (core w)\<lparr>c_flags := insert f (c_flags (core w))\<rparr>"
  "core (clear_flag f w) = (core w)\<lparr>c_flags := c_flags (core w) - {f}\<rparr>"
  by (simp_all add: core_def set_flag_def clear_flag_def)

lemma core_timer [simp]:
  "core (set_entry_id e i w) = (core w)\<lparr>c_heap := set_te_id (c_heap (core w)) e i\<rparr>"
  "core (pjsip_endpt_cancel_timer e w) = (core w)\<lparr>c_heap := heap_cancel e (c_heap (core w))\<rparr>"
  "core (start_timer e d w) = (core w)\<lparr>c_heap := heap_start (now w) e d (c_heap (core w))\<rparr>"
  "core (stop_timer e w) = (core w)\<lparr>c_heap := heap_stop e (c_heap (core w))\<rparr>"
  by (simp_all add: core_def set_entry_id_def pjsip_endpt_cancel_timer_def heap_cancel_def
      start_timer_def stop_timer_def pjsip_endpt_schedule_timer_def heap_start_def heap_stop_def)

lemma core_refs [simp]:
  "core (emit a w) = core w"
  "core (pjsip_transport_add_ref tp w) = core w"
  "core (pjsip_transport_dec_ref tp w) = core w"
  "core (pjsip_transport_add_state_listener tp t w) = core w"
  "core (pjsip_transport_remove_state_listener tp t w) = core w"
  "core (pjsip_tpselector_add_ref sel w) = core w"
  "core (pjsip_tpselector_dec_ref sel w) = core w"
  "core (lock_tsx w) = core w"
  "core (tsx_set_status_code c w) = core w"
  by (simp_all add: core_def emit_def pjsip_transport_add_ref_def pjsip_transport_dec_ref_def
      pjsip_transport_add_state_listener_def pjsip_transport_remove_state_listener_def
      pjsip_tpselector_add_ref_def pjsip_tpselector_dec_ref_def lock_tsx_def tsx_set_status_code_def
      split: option.splits)

lemma core_unlock [simp]: "core (fst (unlock_tsx w)) = core w"
  by (simp add: core_def unlock_tsx_def Let_def)

lemma core_transport [simp]: "core (tsx_update_transport tp w) = core w"
  by (simp add: core_def tsx_update_transport_def pjsip_transport_add_ref_def
      pjsip_transport_dec_ref_def pjsip_transport_add_state_listener_def
      pjsip_transport_remove_state_listener_def Let_def split: option.splits)

text \<open>Buffers: only the back pointer is part of the core.\<close>

lemma core_tdata:
  assumes "\<And>d. tx_mod_data (f d) = tx_mod_data d"
  shows "core (upd_tdata td f w) = core w"
  using assms by (simp add: core_def upd_tdata_def fun_eq_iff)

lemma core_buffers [simp]:
  "core (pjsip_tx_data_add_ref td w) = core w"
  "core (pjsip_tx_data_dec_ref td w) = core w"
  "core (pjsip_tx_data_set_transport td sel w) = core w"
  by (simp_all add: pjsip_tx_data_add_ref_def pjsip_tx_data_dec_ref_def
      pjsip_tx_data_set_transport_def core_tdata Let_def)

lemma core_mod_data [simp]:
  "core (upd_tdata td (\<lambda>d. d\<lparr>tx_mod_data := m\<rparr>) w) = (core w)\<lparr>c_mod := (c_mod (core w))(td := m)\<rparr>"
  by (simp add: core_def upd_tdata_def fun_eq_iff)

lemma core_tsx_fields [simp]:
  "core (w\<lparr>tsx := (tsx w)\<lparr>pending_tx := p\<rparr>\<rparr>) = core w"
  "core (w\<lparr>tsx := (tsx w)\<lparr>last_tx := l\<rparr>\<rparr>) = core w"
  "core (w\<lparr>tsx := (tsx w)\<lparr>retransmit_count := n\<rparr>\<rparr>) = core w"
  "core (w\<lparr>tsx := (tsx w)\<lparr>tsx_user := u\<rparr>\<rparr>) = core w"
  "core (w\<lparr>tsx := (tsx w)\<lparr>tsx_alive := u\<rparr>\<rparr>) = core w"
  "core (w\<lparr>tsx := (tsx w)\<lparr>tp_sel := s\<rparr>\<rparr>) = core w"
  "core (w\<lparr>tsx := (tsx w)\<lparr>util_data := x\<rparr>\<rparr>) = core w"
  "core (w\<lparr>tsx := (tsx w)\<lparr>is_reliable := r\<rparr>\<rparr>) = core w"
  "core (w\<lparr>tsx := (tsx w)\<lparr>is_reliable := r, addr_len := n\<rparr>\<rparr>) = core w"
  "core (w\<lparr>tsx := (tsx w)\<lparr>addr_len := n, is_reliable := r\<rparr>\<rparr>) = core w"
  "core (w\<lparr>tsx := (tsx w)\<lparr>addr_len := n, res_addr_transport := t, res_addr_len := m\<rparr>\<rparr>) = core w"
  "core (w\<lparr>tsx := (tsx w)\<lparr>transport_err := er\<rparr>\<rparr>) = (core w)\<lparr>c_err := er\<rparr>"
  "core (w\<lparr>tsx := (tsx w)\<lparr>state := st, state_handler := h\<rparr>\<rparr>) = (core w)\<lparr>c_state := st, c_handler := h\<rparr>"
  "core (w\<lparr>tls := ls\<rparr>) = core w"
  by (simp_all add: core_def)

lemma core_last_tx [simp]:
  "core (drop_last_tx w) = core w"
  "core (keep_last_tx td w) = core w"
  "core (discard_last_tx td w) = core w"
proof -
  show d: "core (drop_last_tx w) = core w" for w
  proof (cases "last_tx (tsx w)")
    case (Some td)
    have "core (pjsip_tx_data_dec_ref td w) = core w" by simp
    then show ?thesis by (simp only: drop_last_tx_def Some option.case core_tsx_fields)
  qed (simp add: drop_last_tx_def)
  show "core (keep_last_tx td w) = core w" by (simp add: keep_last_tx_def)
  show "core (discard_last_tx td w) = core w" by (simp add: discard_last_tx_def d)
qed

end
