(* ===== verification/Tsx_Inv.thy ===== *)
theory Tsx_Inv
  imports Tsx_Core
begin

text \<open>
  The invariant of a transaction, the contract of its user, and what a state change keeps.

  The timer heap corrupts itself when a pending entry is scheduled again (the guard against it is
  compiled out), so every place that schedules one of the two timers must know that it is idle: that
  is what most of the invariant is for.
\<close>

section \<open>The invariant\<close>

definition tables_ok :: "tsx_core \<Rightarrow> bool" where
  "tables_ok c \<longleftrightarrow> th_inv (c_heap c) \<and> ht_inv (c_tab c) \<and> key_fits (c_key c) \<and>
     c_hash c = hash_bytes 0 (c_key c) \<and> c_rt c \<noteq> c_to c"

text \<open>A pending timer is marked, so that the cancellations guarded by the mark never miss it.\<close>

definition marked :: "tsx_core \<Rightarrow> nat \<Rightarrow> bool" where
  "marked c e \<longleftrightarrow> (pending (c_heap c) e \<longrightarrow> ids (c_heap c) e \<noteq> 0)"

text \<open>The flags of a running transaction: deferred work waits for a pending transport.\<close>

definition flags_ok :: "tsx_core \<Rightarrow> bool" where
  "flags_ok c \<longleftrightarrow> (c_state c < PJSIP_TSX_STATE_TERMINATED \<longrightarrow>
     TSX_HAS_PENDING_DESTROY \<notin> c_flags c \<and>
     (TSX_HAS_PENDING_SEND \<in> c_flags c \<longrightarrow> TSX_HAS_PENDING_TRANSPORT \<in> c_flags c) \<and>
     (TSX_HAS_PENDING_RESCHED \<in> c_flags c \<longrightarrow>
        TSX_HAS_PENDING_TRANSPORT \<in> c_flags c \<and> \<not> pending (c_heap c) (c_rt c)))"

definition handled :: "pjsip_role_e \<Rightarrow> pjsip_tsx_state_e \<Rightarrow> bool" where
  "handled r st \<longleftrightarrow> handler_of r st \<noteq> None"

definition handler_ok :: "tsx_core \<Rightarrow> bool" where
  "handler_ok c \<longleftrightarrow> c_handler c = handler_of (c_role c) (c_state c) \<and> handled (c_role c) (c_state c)"

definition tsx_base :: "tsx_core \<Rightarrow> bool" where
  "tsx_base c \<longleftrightarrow> tables_ok c \<and> marked c (c_rt c) \<and> marked c (c_to c) \<and> flags_ok c \<and> handler_ok c"

text \<open>
  Timers that have not been started yet: none before the first request is sent, and no timeout
  before a server sends its final response.
\<close>

definition calm :: "tsx_core \<Rightarrow> bool" where
  "calm c \<longleftrightarrow>
     (c_state c = PJSIP_TSX_STATE_NULL \<longrightarrow>
        \<not> pending (c_heap c) (c_rt c) \<and> ids (c_heap c) (c_to c) = 0 \<and>
        TSX_HAS_PENDING_RESCHED \<notin> c_flags c) \<and>
     (c_role c = PJSIP_ROLE_UAS \<and> c_state c \<le> PJSIP_TSX_STATE_PROCEEDING \<longrightarrow>
        ids (c_heap c) (c_to c) = 0)"

definition tsx_inv :: "tsx_world \<Rightarrow> bool" where
  "tsx_inv w \<longleftrightarrow> tsx_base (core w) \<and> calm (core w)"

section \<open>What one step may change\<close>

definition same_tsx :: "tsx_core \<Rightarrow> tsx_core \<Rightarrow> bool" where
  "same_tsx c c' \<longleftrightarrow> c_addr c' = c_addr c \<and> c_role c' = c_role c \<and> c_method c' = c_method c \<and>
     c_key c' = c_key c \<and> c_hash c' = c_hash c \<and> c_rt c' = c_rt c \<and> c_to c' = c_to c \<and>
     c_reg c' = c_reg c"

definition advances :: "tsx_core \<Rightarrow> tsx_core \<Rightarrow> bool" where
  "advances c c' \<longleftrightarrow> same_tsx c c' \<and> c_state c \<le> c_state c'"

text \<open>
  A callback of the user may in addition not destroy the transaction it is called for, and once the
  transaction is terminated it starts or plans no retransmission, sends nothing and reports no error on it.
\<close>

definition modest :: "tsx_core \<Rightarrow> tsx_core \<Rightarrow> bool" where
  "modest c c' \<longleftrightarrow> advances c c' \<and>
     (c_state c < PJSIP_TSX_STATE_DESTROYED \<longrightarrow> c_state c' < PJSIP_TSX_STATE_DESTROYED) \<and>
     (PJSIP_TSX_STATE_TERMINATED \<le> c_state c \<longrightarrow>
        (pending (c_heap c') (c_rt c) \<longrightarrow> pending (c_heap c) (c_rt c)) \<and>
        (TSX_HAS_PENDING_RESCHED \<in> c_flags c' \<longrightarrow> TSX_HAS_PENDING_RESCHED \<in> c_flags c) \<and>
        c_err c' = c_err c \<and> (\<forall>td. c_mod c td = None \<longrightarrow> c_mod c' td = None))"

lemma advances_refl [simp]: "advances c c"
  by (simp add: advances_def same_tsx_def)

lemma advances_trans [trans]: "advances c c' \<Longrightarrow> advances c' c'' \<Longrightarrow> advances c c''"
  unfolding advances_def same_tsx_def by auto

lemma modest_refl [simp]: "modest c c"
  by (simp add: modest_def)

lemma modest_trans [trans]:
  assumes "modest c c'" "modest c' c''"
  shows "modest c c''"
proof -
  have "PJSIP_TSX_STATE_TERMINATED \<le> c_state c'" if "PJSIP_TSX_STATE_TERMINATED \<le> c_state c"
    using assms(1) that by (auto simp: modest_def advances_def)
  then show ?thesis
    using assms advances_trans [of c c' c''] unfolding modest_def
    by (auto simp: advances_def same_tsx_def)
qed

lemma modestD:
  assumes "modest c c'"
  shows "advances c c'" "c_state c \<le> c_state c'" "same_tsx c c'"
  using assms by (simp_all add: modest_def advances_def)

section \<open>The user's contract\<close>

definition well_behaved :: "(tsx_world \<Rightarrow> tsx_world) \<Rightarrow> bool" where
  "well_behaved f \<longleftrightarrow> (\<forall>w. tsx_inv w \<longrightarrow> tsx_inv (f w) \<and> modest (core w) (core (f w)))"

locale tsx_user_module =
  fixes E :: tsx_env
  assumes rx_behaves: "on_rx_response E = Some f \<Longrightarrow> well_behaved (f rdata)"
    and state_behaves: "on_tsx_state E = Some g \<Longrightarrow> well_behaved (g prev ev)"
begin

lemma tell_rx_ok:
  assumes "tsx_inv w"
  shows "tsx_inv (tell_rx E ev w) \<and> modest (core w) (core (tell_rx E ev w))"
proof -
  have "tsx_inv (emit a w)" for a using assms by (simp add: tsx_inv_def)
  then show ?thesis
    using assms rx_behaves
    by (force simp: tell_rx_def well_behaved_def split: pjsip_event.split option.split)
qed

lemma tell_state_ok:
  assumes "tsx_inv w"
  shows "tsx_inv (tell_state E prev ev w) \<and> modest (core w) (core (tell_state E prev ev w))"
proof -
  have "tsx_inv (emit a w)" for a using assms by (simp add: tsx_inv_def)
  then show ?thesis
    using assms state_behaves
    by (force simp: tell_state_def well_behaved_def split: option.split)
qed

lemma tell_ok:
  assumes "tsx_inv w"
  shows "tsx_inv (tell_state E prev ev (tell_rx E ev w))"
    "modest (core w) (core (tell_state E prev ev (tell_rx E ev w)))"
  using tell_rx_ok [OF assms, of ev] tell_state_ok [of "tell_rx E ev w" prev ev] modest_trans
  by blast+

end

section \<open>Small steps\<close>

named_theorems tsx_defs

lemmas [tsx_defs] = tsx_base_def tables_ok_def marked_def flags_ok_def handler_ok_def calm_def

lemma same_tsxD:
  assumes "same_tsx c c'"
  shows "c_addr c' = c_addr c" "c_role c' = c_role c" "c_method c' = c_method c" "c_key c' = c_key c"
    "c_hash c' = c_hash c" "c_rt c' = c_rt c" "c_to c' = c_to c" "c_reg c' = c_reg c"
  using assms by (simp_all add: same_tsx_def)

lemma same_tsx_updates [simp]:
  "same_tsx c (c'\<lparr>c_heap := h\<rparr>) = same_tsx c c'" "same_tsx c (c'\<lparr>c_flags := f\<rparr>) = same_tsx c c'"
  "same_tsx c (c'\<lparr>c_tab := t\<rparr>) = same_tsx c c'" "same_tsx c (c'\<lparr>c_err := e\<rparr>) = same_tsx c c'"
  "same_tsx c (c'\<lparr>c_mod := m\<rparr>) = same_tsx c c'"
  "same_tsx c (c'\<lparr>c_state := s, c_handler := hn\<rparr>) = same_tsx c c'" "same_tsx c c"
  "same_tsx (c\<lparr>c_heap := h\<rparr>) c' = same_tsx c c'" "same_tsx (c\<lparr>c_flags := f\<rparr>) c' = same_tsx c c'"
  "same_tsx (c\<lparr>c_tab := t\<rparr>) c' = same_tsx c c'" "same_tsx (c\<lparr>c_err := e\<rparr>) c' = same_tsx c c'"
  "same_tsx (c\<lparr>c_mod := m\<rparr>) c' = same_tsx c c'"
  "same_tsx (c\<lparr>c_state := s, c_handler := hn\<rparr>) c' = same_tsx c c'"
  by (auto simp: same_tsx_def)

text \<open>Stopping a timer, and starting an idle one, are safe.\<close>

lemma base_heap:
  assumes "tsx_base c" "th_inv h"
    "pending h (c_rt c) \<Longrightarrow> ids h (c_rt c) \<noteq> 0"
    "pending h (c_to c) \<Longrightarrow> ids h (c_to c) \<noteq> 0"
    "c_state c < PJSIP_TSX_STATE_TERMINATED \<Longrightarrow> TSX_HAS_PENDING_RESCHED \<in> c_flags c \<Longrightarrow>
       \<not> pending h (c_rt c)"
  shows "tsx_base (c\<lparr>c_heap := h\<rparr>)"
  using assms unfolding tsx_base_def tables_ok_def marked_def flags_ok_def handler_ok_def by simp

lemma baseD:
  assumes "tsx_base c"
  shows "th_inv (c_heap c)" "c_rt c \<noteq> c_to c" "c_to c \<noteq> c_rt c"
    "pending (c_heap c) (c_rt c) \<Longrightarrow> ids (c_heap c) (c_rt c) \<noteq> 0"
    "pending (c_heap c) (c_to c) \<Longrightarrow> ids (c_heap c) (c_to c) \<noteq> 0"
    "c_state c < PJSIP_TSX_STATE_TERMINATED \<Longrightarrow> TSX_HAS_PENDING_RESCHED \<in> c_flags c \<Longrightarrow>
       \<not> pending (c_heap c) (c_rt c)"
    "handler_ok c"
  using assms by (auto simp: tsx_base_def tables_ok_def marked_def flags_ok_def)

text \<open>The heap after the timer operations of the handlers, on one of the two timers.\<close>

lemma base_stop:
  assumes b: "tsx_base c" and e: "e = c_rt c \<or> e = c_to c"
  shows "tsx_base (c\<lparr>c_heap := heap_stop e (c_heap c)\<rparr>)"
    "ids (heap_stop e (c_heap c)) x = (if x = e then 0 else ids (c_heap c) x)"
    "pending (heap_stop e (c_heap c)) x \<longleftrightarrow> x \<noteq> e \<and> pending (c_heap c) x"
proof -
  have m: "pending (c_heap c) e \<Longrightarrow> ids (c_heap c) e \<noteq> 0"
    using e baseD(4,5) [OF b] by blast
  note s = heap_stop [OF baseD(1) [OF b] m]
  show "ids (heap_stop e (c_heap c)) x = (if x = e then 0 else ids (c_heap c) x)"
    "pending (heap_stop e (c_heap c)) x \<longleftrightarrow> x \<noteq> e \<and> pending (c_heap c) x" by (simp_all add: s)
  show "tsx_base (c\<lparr>c_heap := heap_stop e (c_heap c)\<rparr>)"
    using baseD [OF b] by (intro base_heap [OF b s(1)]) (simp_all add: s split: if_splits)
qed

lemma base_cancel:
  assumes b: "tsx_base c"
  shows "tsx_base (c\<lparr>c_heap := heap_cancel e (c_heap c)\<rparr>)"
    "ids (heap_cancel e (c_heap c)) x = ids (c_heap c) x"
    "pending (heap_cancel e (c_heap c)) x \<longleftrightarrow> x \<noteq> e \<and> pending (c_heap c) x"
proof -
  note s = heap_cancel [OF baseD(1) [OF b], of e]
  show "ids (heap_cancel e (c_heap c)) x = ids (c_heap c) x"
    "pending (heap_cancel e (c_heap c)) x \<longleftrightarrow> x \<noteq> e \<and> pending (c_heap c) x" by (rule s)+
  show "tsx_base (c\<lparr>c_heap := heap_cancel e (c_heap c)\<rparr>)"
    using baseD [OF b] by (intro base_heap [OF b s(1)]) (simp_all add: s)
qed

lemma base_start:
  assumes b: "tsx_base c" and idle: "\<not> pending (c_heap c) e"
    and r: "e = c_rt c \<Longrightarrow> c_state c < PJSIP_TSX_STATE_TERMINATED \<Longrightarrow>
      TSX_HAS_PENDING_RESCHED \<notin> c_flags c"
  shows "tsx_base (c\<lparr>c_heap := heap_start nw e d (c_heap c)\<rparr>)"
    "ids (heap_start nw e d (c_heap c)) x = (if x = e then 1 else ids (c_heap c) x)"
    "pending (heap_start nw e d (c_heap c)) x \<longleftrightarrow> x = e \<or> pending (c_heap c) x"
proof -
  note s = heap_start [OF baseD(1) [OF b] idle, of nw d]
  show "ids (heap_start nw e d (c_heap c)) x = (if x = e then 1 else ids (c_heap c) x)"
    "pending (heap_start nw e d (c_heap c)) x \<longleftrightarrow> x = e \<or> pending (c_heap c) x" by (rule s)+
  show "tsx_base (c\<lparr>c_heap := heap_start nw e d (c_heap c)\<rparr>)"
    using baseD [OF b] r by (intro base_heap [OF b s(1)]) (auto simp: s)
qed

end
