(* ===== verification/Tsx_Steps.thy ===== *)
theory Tsx_Steps
  imports Tsx_Inv
begin

text \<open>
  What the state change and the send operations keep of the invariant. A send either leaves the
  transaction as it was (\<open>quiet\<close>), or ends it and reports an error: no handler goes on with a
  transaction that ended under it.
\<close>

section \<open>Flags\<close>

lemma base_flags:
  assumes "tsx_base c"
    and "c_state c < PJSIP_TSX_STATE_TERMINATED \<Longrightarrow> TSX_HAS_PENDING_DESTROY \<notin> f \<and>
      (TSX_HAS_PENDING_SEND \<in> f \<longrightarrow> TSX_HAS_PENDING_TRANSPORT \<in> f) \<and>
      (TSX_HAS_PENDING_RESCHED \<in> f \<longrightarrow>
         TSX_HAS_PENDING_TRANSPORT \<in> f \<and> \<not> pending (c_heap c) (c_rt c))"
  shows "tsx_base (c\<lparr>c_flags := f\<rparr>)"
  using assms unfolding tsx_base_def tables_ok_def marked_def flags_ok_def handler_ok_def by simp

lemma flagsD:
  assumes "tsx_base c" "c_state c < PJSIP_TSX_STATE_TERMINATED"
  shows "TSX_HAS_PENDING_DESTROY \<notin> c_flags c"
    "TSX_HAS_PENDING_SEND \<in> c_flags c \<Longrightarrow> TSX_HAS_PENDING_TRANSPORT \<in> c_flags c"
    "TSX_HAS_PENDING_RESCHED \<in> c_flags c \<Longrightarrow> TSX_HAS_PENDING_TRANSPORT \<in> c_flags c"
    "TSX_HAS_PENDING_RESCHED \<in> c_flags c \<Longrightarrow> \<not> pending (c_heap c) (c_rt c)"
  using assms by (auto simp: tsx_base_def flags_ok_def)

lemma base_mod_err [simp]:
  "tsx_base (c\<lparr>c_mod := m\<rparr>) = tsx_base c" "tsx_base (c\<lparr>c_err := e\<rparr>) = tsx_base c"
  "calm (c\<lparr>c_mod := m\<rparr>) = calm c" "calm (c\<lparr>c_err := e\<rparr>) = calm c"
  unfolding tsx_base_def tables_ok_def marked_def flags_ok_def handler_ok_def calm_def by simp_all

section \<open>State change\<close>

lemma calm_late [simp]:
  "PJSIP_TSX_STATE_COMPLETED \<le> c_state c \<Longrightarrow> calm c"
  by (auto simp: calm_def state_order)

lemma now_simps [simp]:
  "now (stop_timer e w) = now w" "now (clear_flag g w) = now w" "now (upd_tdata td f w) = now w"
  by (simp_all add: stop_timer_def set_entry_id_def pjsip_endpt_cancel_timer_def clear_flag_def
      upd_tdata_def)

lemma core_detach:
  "\<exists>m f. core (detach_pending w) = (core w)\<lparr>c_mod := m, c_flags := f\<rparr> \<and> f \<subseteq> c_flags (core w) \<and>
     (\<forall>td. c_mod (core w) td = None \<longrightarrow> m td = None) \<and> now (detach_pending w) = now w"
proof (cases "has_flag w TSX_HAS_PENDING_TRANSPORT")
  case False
  then have "detach_pending w = w" by (simp add: detach_pending_def)
  then show ?thesis
    by (intro exI [of _ "c_mod (core w)"] exI [of _ "c_flags (core w)"]) simp
next
  case True
  let ?f = "c_flags (core w) - {TSX_HAS_PENDING_TRANSPORT}"
  show ?thesis
  proof (cases "pending_tx (tsx w)")
    case None
    then have "detach_pending w = clear_flag TSX_HAS_PENDING_TRANSPORT w"
      using True by (simp add: detach_pending_def)
    then show ?thesis by (intro exI [of _ "c_mod (core w)"] exI [of _ ?f]) simp
  next
    case (Some td)
    then have "detach_pending w = clear_flag TSX_HAS_PENDING_TRANSPORT
        (upd_tsx (\<lambda>t. t\<lparr>pending_tx := None\<rparr>) (upd_tdata td (\<lambda>d. d\<lparr>tx_mod_data := None\<rparr>) w))"
      using True by (simp add: detach_pending_def)
    then show ?thesis by (intro exI [of _ "(c_mod (core w))(td := None)"] exI [of _ ?f]) simp
  qed
qed

lemma enter_terminated_ok:
  assumes b: "tsx_base (core w)" and st: "state (tsx w) = PJSIP_TSX_STATE_TERMINATED"
  shows "tsx_base (core (enter_terminated w))" "modest (core w) (core (enter_terminated w))"
    "pending (theap (enter_terminated w)) (timeout_timer (tsx w))"
    "state (tsx (enter_terminated w)) = PJSIP_TSX_STATE_TERMINATED"
proof -
  let ?c = "core w"
  have st': "c_state ?c = PJSIP_TSX_STATE_TERMINATED" using st by (simp add: core_def)
  obtain m f where d: "core (detach_pending w) = ?c\<lparr>c_mod := m, c_flags := f\<rparr>"
    and f: "f \<subseteq> c_flags ?c" and m: "\<And>td. c_mod ?c td = None \<Longrightarrow> m td = None" and n: "now (detach_pending w) = now w"
    using core_detach [of w] by blast
  have e: "core (enter_terminated w) =
      ?c\<lparr>c_mod := m, c_flags := f,
         c_heap := heap_start (now w) (c_to ?c) (Time_val 0 0) (heap_stop (c_to ?c) (c_heap ?c))\<rparr>"
    by (simp add: enter_terminated_def Let_def n d core_fold)
  have b1: "tsx_base (?c\<lparr>c_mod := m, c_flags := f\<rparr>)"
    using b st' by (intro base_flags) (simp_all add: state_order)
  note s = base_stop [OF b1, of "c_to ?c", simplified]
  have "tsx_base (core (enter_terminated w))"
    and h: "pending (c_heap (core (enter_terminated w))) x \<longleftrightarrow> x = c_to ?c \<or> pending (c_heap ?c) x" for x
    using base_start [OF s(1), of "c_to ?c" "now w" "Time_val 0 0"] s(3) baseD(3) [OF b]
    by (auto simp: e)
  then show "tsx_base (core (enter_terminated w))"
    "pending (theap (enter_terminated w)) (timeout_timer (tsx w))"
    by (simp_all add: core_fold)
  show "modest ?c (core (enter_terminated w))"
    using m h [of "c_rt ?c"] baseD(2) [OF b] st' f
    by (auto simp: e modest_def advances_def)
  show "state (tsx (enter_terminated w)) = PJSIP_TSX_STATE_TERMINATED"
    by (simp add: core_fold e st')
qed

lemma base_moved:
  assumes "tsx_base c" "c_state c \<le> st" "handled (c_role c) st"
  shows "tsx_base (c\<lparr>c_state := st, c_handler := handler_of (c_role c) st\<rparr>)"
proof -
  have "c_state c < PJSIP_TSX_STATE_TERMINATED" if "st < PJSIP_TSX_STATE_TERMINATED"
    using assms(2) that by simp
  then show ?thesis
    using assms unfolding tsx_base_def tables_ok_def marked_def flags_ok_def handler_ok_def by simp
qed

lemma calm_handler [simp]: "calm (c\<lparr>c_handler := h\<rparr>) = calm c"
  by (simp add: calm_def)

lemma calm_moved [simp]:
  "calm (c\<lparr>c_state := st, c_handler := h\<rparr>) = calm (c\<lparr>c_state := st\<rparr>)"
  by (simp add: calm_def)

lemma handled_terminated [simp]: "handled r PJSIP_TSX_STATE_TERMINATED"
  by (simp add: handled_def handler_of_def)

text \<open>Everything but the flags; a transaction that ends needs no more.\<close>

definition tsx_rest :: "tsx_core \<Rightarrow> bool" where
  "tsx_rest c \<longleftrightarrow> tables_ok c \<and> marked c (c_rt c) \<and> marked c (c_to c) \<and> handler_ok c"

lemma base_rest: "tsx_base c \<Longrightarrow> tsx_rest c"
  by (simp add: tsx_base_def tsx_rest_def)

lemma rest_updates [simp]:
  "tsx_rest (c\<lparr>c_flags := f\<rparr>) = tsx_rest c" "tsx_rest (c\<lparr>c_mod := m\<rparr>) = tsx_rest c"
  "tsx_rest (c\<lparr>c_err := e\<rparr>) = tsx_rest c"
  unfolding tsx_rest_def tables_ok_def marked_def handler_ok_def by simp_all

lemma rest_base:
  "tsx_rest c \<Longrightarrow> TSX_HAS_PENDING_DESTROY \<notin> c_flags c \<Longrightarrow> TSX_HAS_PENDING_SEND \<notin> c_flags c \<Longrightarrow>
     TSX_HAS_PENDING_RESCHED \<notin> c_flags c \<Longrightarrow> tsx_base c"
  by (simp add: tsx_base_def tsx_rest_def flags_ok_def)

lemma rest_moved:
  assumes "tsx_rest c" "r = c_role c"
  shows "tsx_base (c\<lparr>c_state := PJSIP_TSX_STATE_TERMINATED,
    c_handler := handler_of r PJSIP_TSX_STATE_TERMINATED\<rparr>)"
  using assms unfolding tsx_base_def tsx_rest_def tables_ok_def marked_def flags_ok_def handler_ok_def
  by simp

text \<open>What leads from a world to one whose transaction just ended.\<close>

definition ends :: "tsx_core \<Rightarrow> tsx_core \<Rightarrow> bool" where
  "ends c c' \<longleftrightarrow> same_tsx c c' \<and> c_state c' = PJSIP_TSX_STATE_TERMINATED \<and>
     (pending (c_heap c') (c_rt c) \<longrightarrow> pending (c_heap c) (c_rt c)) \<and>
     (TSX_HAS_PENDING_RESCHED \<in> c_flags c' \<longrightarrow> TSX_HAS_PENDING_RESCHED \<in> c_flags c) \<and>
     c_err c' = c_err c \<and> (\<forall>td. c_mod c td = None \<longrightarrow> c_mod c' td = None)"

lemma terminated_only:
  "modest c c' \<Longrightarrow> c_state c = PJSIP_TSX_STATE_TERMINATED \<Longrightarrow> c_state c' = PJSIP_TSX_STATE_TERMINATED"
  by (cases "c_state c'") (auto simp: modest_def advances_def state_order)

context tsx_user_module
begin

lemma moved_tell:
  assumes b: "tsx_base ((core w)\<lparr>c_state := st, c_handler := handler_of (role (tsx w)) st\<rparr>)"
    and calm: "calm ((core w)\<lparr>c_state := st\<rparr>)"
    and w1: "w1 = upd_tsx (\<lambda>t. t\<lparr>state := st, state_handler := handler_of (role t) st\<rparr>) w"
  shows "tsx_inv (tell_state E prev ev (tell_rx E ev w1))"
    "modest ((core w)\<lparr>c_state := st, c_handler := handler_of (role (tsx w)) st\<rparr>)
       (core (tell_state E prev ev (tell_rx E ev w1)))"
proof -
  have c1: "core w1 = (core w)\<lparr>c_state := st, c_handler := handler_of (role (tsx w)) st\<rparr>"
    by (simp add: w1 core_def)
  have "tsx_inv w1"
    using b calm by (simp add: tsx_inv_def c1)
  then show "tsx_inv (tell_state E prev ev (tell_rx E ev w1))"
    "modest ((core w)\<lparr>c_state := st, c_handler := handler_of (role (tsx w)) st\<rparr>)
       (core (tell_state E prev ev (tell_rx E ev w1)))"
    using tell_ok [of w1] by (simp_all add: c1)
qed

lemma set_state_ok:
  assumes b: "tsx_base (core w)" and le: "state (tsx w) \<le> st" and h: "handled (role (tsx w)) st"
    and calm: "calm ((core w)\<lparr>c_state := st\<rparr>)" and st: "st < PJSIP_TSX_STATE_TERMINATED"
  shows "tsx_inv (tsx_set_state E st ev w)" "advances (core w) (core (tsx_set_state E st ev w))"
    "st \<le> state (tsx (tsx_set_state E st ev w))"
    "state (tsx (tsx_set_state E st ev w)) < PJSIP_TSX_STATE_DESTROYED"
proof -
  have eq: "tsx_set_state E st ev w = tell_state E (state (tsx w)) ev (tell_rx E ev
      (upd_tsx (\<lambda>t. t\<lparr>state := st, state_handler := handler_of (role t) st\<rparr>) w))"
    using st by (auto simp: tsx_set_state_def Let_def state_order)
  have bm: "tsx_base ((core w)\<lparr>c_state := st, c_handler := handler_of (role (tsx w)) st\<rparr>)"
    using base_moved [OF b, of st] le h by (simp add: core_fold)
  note m = moved_tell [OF bm calm refl, of "state (tsx w)" ev]
  show "tsx_inv (tsx_set_state E st ev w)" using m(1) by (simp add: eq)
  have "c_state (core w) \<le> st" using le by (simp add: core_fold)
  then show "advances (core w) (core (tsx_set_state E st ev w))"
    "st \<le> state (tsx (tsx_set_state E st ev w))"
    using modestD [OF m(2)] by (auto simp: eq advances_def core_fold same_tsx_def)
  have "st < PJSIP_TSX_STATE_DESTROYED" using st by (simp add: state_order)
  then show "state (tsx (tsx_set_state E st ev w)) < PJSIP_TSX_STATE_DESTROYED"
    using m(2) by (simp add: eq modest_def core_fold)
qed

lemma terminate_ok:
  assumes b: "tsx_rest (core w)" and le: "state (tsx w) \<le> PJSIP_TSX_STATE_TERMINATED"
    and w'_def: "w' = tsx_set_state E PJSIP_TSX_STATE_TERMINATED ev w"
  shows "tsx_inv w'" "ends (core w) (core w')" "advances (core w) (core w')"
    "pending (theap w') (timeout_timer (tsx w))"
proof -
  define w2 where "w2 = tell_state E (state (tsx w)) ev (tell_rx E ev
      (upd_tsx (\<lambda>t. t\<lparr>state := PJSIP_TSX_STATE_TERMINATED,
         state_handler := handler_of (role t) PJSIP_TSX_STATE_TERMINATED\<rparr>) w))"
  have eq: "w' = enter_terminated w2" by (simp add: w'_def tsx_set_state_def Let_def w2_def)
  have "calm ((core w)\<lparr>c_state := PJSIP_TSX_STATE_TERMINATED\<rparr>)" by (simp add: state_order)
  note m = moved_tell [OF rest_moved [OF b, of "role (tsx w)", unfolded core_fold, OF refl, folded core_fold] this refl, of "state (tsx w)" ev, folded w2_def]
  have st2: "state (tsx w2) = PJSIP_TSX_STATE_TERMINATED"
    using terminated_only [OF m(2)] by (simp add: core_fold)
  note t = enter_terminated_ok [OF _ st2]
  have b2: "tsx_base (core w2)" using m(1) by (simp add: tsx_inv_def)
  show "tsx_inv w'" using t(1,4) [OF b2] by (simp add: tsx_inv_def eq state_order core_fold)
  note mm = modest_trans [OF m(2) t(2) [OF b2]]
  show "ends (core w) (core w')"
    using mm t(4) [OF b2] unfolding ends_def modest_def advances_def same_tsx_def
    by (simp add: eq core_fold)
  show "advances (core w) (core w')"
    using modestD(3) [OF mm] le t(4) [OF b2] by (simp add: advances_def same_tsx_def eq core_fold)
  have "timeout_timer (tsx w2) = timeout_timer (tsx w)"
    using same_tsxD(7) [OF modestD(3) [OF m(2)]] by (simp add: core_fold)
  then show "pending (theap w') (timeout_timer (tsx w))" using t(3) [OF b2] by (simp add: eq)
qed

end

end
