(* ===== verification/Tsx_Send_Inv.thy ===== *)
theory Tsx_Send_Inv
  imports Tsx_Steps
begin

text \<open>
  Sending keeps the invariant. A send in a running transaction is \<open>quiet\<close> or ends the transaction
  with an error status; so is the report of an attempt, unless deferred work is resumed.
\<close>

section \<open>Quiet steps\<close>

definition quiet :: "tsx_core \<Rightarrow> tsx_core \<Rightarrow> bool" where
  "quiet c c' \<longleftrightarrow> same_tsx c c' \<and> c_state c' = c_state c \<and>
     (pending (c_heap c') (c_rt c) \<longleftrightarrow> pending (c_heap c) (c_rt c)) \<and>
     ids (c_heap c') (c_rt c) = ids (c_heap c) (c_rt c) \<and>
     (ids (c_heap c) (c_to c) = 0 \<longrightarrow> ids (c_heap c') (c_to c) = 0) \<and>
     (TSX_HAS_PENDING_RESCHED \<in> c_flags c' \<longrightarrow> TSX_HAS_PENDING_RESCHED \<in> c_flags c)"

lemma quiet_refl [simp]: "quiet c c"
  by (simp add: quiet_def)

lemma quiet_trans: "quiet c c' \<Longrightarrow> quiet c' c'' \<Longrightarrow> quiet c c''"
  by (auto simp: quiet_def same_tsx_def)

lemma quiet_updates [simp]:
  "quiet c (c'\<lparr>c_mod := m\<rparr>) = quiet c c'" "quiet c (c'\<lparr>c_err := e\<rparr>) = quiet c c'"
  by (simp_all add: quiet_def)

lemma quiet_calm: "quiet c c' \<Longrightarrow> calm c \<Longrightarrow> calm c'"
  by (auto simp: quiet_def calm_def same_tsx_def)

lemma quiet_advances: "quiet c c' \<Longrightarrow> advances c c'"
  by (simp add: quiet_def advances_def)

text \<open>The transaction ended, and its retransmission timer was not started by that.\<close>

definition ended :: "tsx_core \<Rightarrow> tsx_core \<Rightarrow> bool" where
  "ended c c' \<longleftrightarrow> same_tsx c c' \<and> c_state c' = PJSIP_TSX_STATE_TERMINATED \<and>
     (pending (c_heap c') (c_rt c) \<longrightarrow> pending (c_heap c) (c_rt c)) \<and>
     (TSX_HAS_PENDING_RESCHED \<in> c_flags c' \<longrightarrow> TSX_HAS_PENDING_RESCHED \<in> c_flags c)"

lemma ends_ended: "ends c c' \<Longrightarrow> ended c c'"
  by (simp add: ends_def ended_def)

lemma quiet_ended: "quiet c c' \<Longrightarrow> ended c' c'' \<Longrightarrow> ended c c''"
  by (auto simp: quiet_def ended_def same_tsx_def)

lemma ended_updates [simp]:
  "ended c (c'\<lparr>c_mod := m\<rparr>) = ended c c'" "ended c (c'\<lparr>c_err := e\<rparr>) = ended c c'"
  by (simp_all add: ended_def)

lemma ended_advances: "ended c c' \<Longrightarrow> c_state c < PJSIP_TSX_STATE_TERMINATED \<Longrightarrow> advances c c'"
  by (auto simp: ended_def advances_def)

lemma ended_calm: "ended c c' \<Longrightarrow> calm c'"
  by (intro calm_late) (simp add: ended_def state_order)

text \<open>The two outcomes of a send.\<close>

definition sent_ok :: "tsx_core \<Rightarrow> tsx_core \<Rightarrow> pj_status \<Rightarrow> bool" where
  "sent_ok c c' st \<longleftrightarrow> tsx_base c' \<and> (quiet c c' \<or> ended c c' \<and> st \<noteq> PJ_SUCCESS)"

lemma sent_okD:
  assumes "sent_ok c c' st" "c_state c < PJSIP_TSX_STATE_TERMINATED"
  shows "tsx_base c'" "advances c c'" "st = PJ_SUCCESS \<Longrightarrow> quiet c c'"
    "calm c \<Longrightarrow> calm c'" "c_state c' < PJSIP_TSX_STATE_DESTROYED"
proof -
  show "tsx_base c'" "advances c c'" "st = PJ_SUCCESS \<Longrightarrow> quiet c c'" "calm c \<Longrightarrow> calm c'"
    using assms quiet_advances quiet_calm ended_advances ended_calm by (auto simp: sent_ok_def)
  show "c_state c' < PJSIP_TSX_STATE_DESTROYED"
    using assms by (auto simp: sent_ok_def quiet_def ended_def state_order)
qed

section \<open>Reports of attempts\<close>

lemma core_clear_pending [simp]:
  "core (clear_pending w) = (core w)\<lparr>c_flags :=
     insert TSX_HAS_RESOLVED_SERVER (c_flags (core w) - {TSX_HAS_PENDING_TRANSPORT})\<rparr>"
  by (simp add: clear_pending_def)

lemma core_adopt [simp]: "core (callback_adopt a w) = core w"
  by (simp add: callback_adopt_def Let_def)

text \<open>Trying the next server restarts the timeout timer if it runs.\<close>

lemma next_server_ok:
  assumes b: "tsx_base (core w)"
  shows "tsx_base (core (callback_next_server E td w))"
    "quiet (core w) (core (callback_next_server E td w))"
    "c_flags (core (callback_next_server E td w)) = c_flags (core w)"
proof -
  let ?c = "core w" and ?w = "upd_tsx (\<lambda>t. t\<lparr>retransmit_count := 0\<rparr>) w"
  have cw: "core ?w = ?c" by simp
  show "tsx_base (core (callback_next_server E td w))"
    "quiet ?c (core (callback_next_server E td w))"
    "c_flags (core (callback_next_server E td w)) = c_flags ?c"
  proof -
    have e: "entry_id ?w (timeout_timer (tsx ?w)) = ids (c_heap ?c) (c_to ?c)"
      by (simp add: core_def)
    have t: "timeout_timer (tsx ?w) = c_to ?c" by (simp add: core_def)
    have "tsx_base (core (callback_next_server E td w)) \<and>
      quiet ?c (core (callback_next_server E td w)) \<and>
      c_flags (core (callback_next_server E td w)) = c_flags ?c"
    proof (cases "ids (c_heap ?c) (c_to ?c) = 0")
      case True
      then have "core (callback_next_server E td w) = ?c\<lparr>c_mod := (c_mod ?c)(td := Some (c_addr ?c))\<rparr>"
        using e by (simp add: callback_next_server_def Let_def core_fold)
      then show ?thesis using b by simp
    next
      case False
      let ?h = "heap_cancel (c_to ?c) (c_heap ?c)"
      have eq: "\<exists>nw d m. core (callback_next_server E td w) =
          ?c\<lparr>c_heap := heap_start nw (c_to ?c) d (set_te_id ?h (c_to ?c) TIMER_INACTIVE), c_mod := m\<rparr>"
        using False e by (auto simp: callback_next_server_def Let_def t cw core_fold)
      note k = base_cancel [OF b, of "c_to ?c"]
      note i = heap_set_id [OF baseD(1) [OF k(1), simplified], of "c_to ?c" TIMER_INACTIVE]
      have b2: "tsx_base (?c\<lparr>c_heap := set_te_id ?h (c_to ?c) TIMER_INACTIVE\<rparr>)"
        using baseD [OF b] by (intro base_heap [OF b i(1)]) (simp_all add: i k)
      note s = base_start [OF b2, of "c_to ?c", simplified]
      show ?thesis
        using eq s baseD(2,3) [OF b] False by (auto simp: quiet_def i k)
    qed
    then show "tsx_base (core (callback_next_server E td w))"
      "quiet ?c (core (callback_next_server E td w))"
      "c_flags (core (callback_next_server E td w)) = c_flags ?c" by simp_all
  qed
qed

locale tsx_environment = tsx_user_module +
  assumes attempts_fail: "a \<in> set (fst (send_stateless E w td)) \<Longrightarrow> at_sent a = Inr err \<Longrightarrow> err \<noteq> PJ_SUCCESS"
begin

lemma transport_error_ok:
  assumes "tsx_rest (core w)" "state (tsx w) \<le> PJSIP_TSX_STATE_TERMINATED"
  shows "tsx_base (core (transport_error E ev w))" "ends (core w) (core (transport_error E ev w))"
  using terminate_ok [of "tsx_set_status_code PJSIP_SC_TSX_TRANSPORT_ERROR w" _ ev] assms
  by (simp_all add: transport_error_def tsx_inv_def core_fold)

text \<open>The final failure of a send: the error is kept and the transaction ends.\<close>

lemma callback_failed_ok:
  assumes b: "tsx_rest (core w)" and st: "state (tsx w) < PJSIP_TSX_STATE_TERMINATED"
  shows "tsx_base (core (callback_failed E err td w))"
    "ended (core w) (core (callback_failed E err td w))"
    "c_err (core (callback_failed E err td w)) = err"
    "c_mod (core w) d = None \<Longrightarrow> c_mod (core (callback_failed E err td w)) d = None"
proof -
  define sc where "sc = (if err = PJ_ERESOLVE \<or> err = PJLIB_UTIL_EDNS_NXDOMAIN
    then PJSIP_SC_BAD_GATEWAY else PJSIP_SC_TSX_TRANSPORT_ERROR)"
  have "c_state (core w) \<noteq> PJSIP_TSX_STATE_TERMINATED" "c_state (core w) \<noteq> PJSIP_TSX_STATE_DESTROYED"
    using st by (auto simp: core_fold state_order)
  then have sc: "callback_failed E err td w = tsx_set_state E PJSIP_TSX_STATE_TERMINATED
      (PJSIP_EVENT_TRANSPORT_ERROR (Some td))
      (tsx_set_status_code sc (clear_pending (upd_tsx (\<lambda>t. t\<lparr>transport_err := err\<rparr>) w)))"
    unfolding callback_failed_def Let_def sc_def by (simp add: core_fold)
  let ?w = "tsx_set_status_code sc (clear_pending (upd_tsx (\<lambda>t. t\<lparr>transport_err := err\<rparr>) w))"
  have "tsx_rest (core ?w)" "state (tsx ?w) \<le> PJSIP_TSX_STATE_TERMINATED"
    using b st by (simp_all add: core_fold)
  note t = terminate_ok [OF this refl, of "PJSIP_EVENT_TRANSPORT_ERROR (Some td)"]
  show "tsx_base (core (callback_failed E err td w))"
    using t(1) by (simp add: tsx_inv_def sc)
  show "ended (core w) (core (callback_failed E err td w))"
    "c_err (core (callback_failed E err td w)) = err"
    "c_mod (core w) d = None \<Longrightarrow> c_mod (core (callback_failed E err td w)) d = None"
    using t(2) by (auto simp: sc ended_def ends_def same_tsx_def)
qed

text \<open>The send from within a report: the server is resolved, nothing is pending.\<close>

lemma inner_send_ok:
  assumes b: "tsx_rest (core w)" and st: "state (tsx w) < PJSIP_TSX_STATE_TERMINATED"
    and f: "\<not> has_flag w TSX_HAS_PENDING_TRANSPORT" "has_flag w TSX_HAS_RESOLVED_SERVER"
    and w'_def: "w' = fst (tsx_send_msg_via E stateless td w)"
  shows "core w' = core w \<or> tsx_base (core w') \<and> ends (core w) (core w')"
proof -
  have fin: "tsx_base (core (transport_error E ev v)) \<and> ends (core w) (core (transport_error E ev v))"
    if "core v = core w" for ev v
    using transport_error_ok [of v ev] that b st by (simp add: core_fold)
  show ?thesis
  proof (cases "transport (tsx w)")
    case None
    then have "w' = transport_error E (PJSIP_EVENT_TRANSPORT_ERROR None) w"
      using f by (simp add: w'_def tsx_send_msg_via_def Let_def)
    then show ?thesis using fin by blast
  next
    case (Some tp)
    let ?v = "upd_tsx (\<lambda>t. t\<lparr>addr_len := 0, res_addr_transport := None, res_addr_len := 0\<rparr>)
        (tsx_update_transport None (emit (Act_sent tp td) w))"
    have v: "core ?v = core w" by simp
    have r: "has_flag ?v TSX_HAS_RESOLVED_SERVER" using f(2) by (simp only: core_fold v)
    show ?thesis
    proof (cases "transport_send E w tp td = PJ_SUCCESS \<or> transport_send E w tp td = PJ_EPENDING")
      case True
      then have "w' = emit (Act_sent tp td) w"
        using f(1) Some by (auto simp: w'_def tsx_send_msg_via_def Let_def)
      then show ?thesis by simp
    next
      case False
      then have "w' = transport_error E (PJSIP_EVENT_TRANSPORT_ERROR None) ?v"
        using f(1) Some r by (auto simp: w'_def tsx_send_msg_via_def Let_def)
      then show ?thesis using fin [OF v] by blast
    qed
  qed
qed

text \<open>Resuming deferred work after a send.\<close>

lemma resched_ok:
  assumes b: "tsx_base (core w)" and idle: "\<not> pending (theap w) (retransmit_timer (tsx w))"
    and f: "state (tsx w) < PJSIP_TSX_STATE_TERMINATED \<Longrightarrow> \<not> has_flag w TSX_HAS_PENDING_RESCHED"
  shows "tsx_base (core (tsx_resched_retransmission E w))"
    "\<exists>h. core (tsx_resched_retransmission E w) = (core w)\<lparr>c_heap := h\<rparr> \<and>
       ids h (c_to (core w)) = ids (c_heap (core w)) (c_to (core w))"
proof -
  have "\<exists>d. tsx_resched_retransmission E w = w \<or>
      tsx_resched_retransmission E w = start_timer (retransmit_timer (tsx w)) d w"
    unfolding tsx_resched_retransmission_def Let_def by (cases "retransmit_msec E (tsx w) = 0") auto
  then obtain d where d: "tsx_resched_retransmission E w = w \<or>
      tsx_resched_retransmission E w = start_timer (retransmit_timer (tsx w)) d w" by blast
  note s = base_start [OF b, of "c_rt (core w)" "now w" d]
  have i: "\<not> pending (c_heap (core w)) (c_rt (core w))" using idle by (simp add: core_fold)
  have "tsx_base (core (tsx_resched_retransmission E w)) \<and>
    (\<exists>h. core (tsx_resched_retransmission E w) = (core w)\<lparr>c_heap := h\<rparr> \<and>
       ids h (c_to (core w)) = ids (c_heap (core w)) (c_to (core w)))"
    using d
  proof
    assume "tsx_resched_retransmission E w = w"
    then show ?thesis using b by (intro conjI exI [of _ "c_heap (core w)"]) simp_all
  next
    assume r: "tsx_resched_retransmission E w = start_timer (retransmit_timer (tsx w)) d w"
    have eq: "core (tsx_resched_retransmission E w) =
        (core w)\<lparr>c_heap := heap_start (now w) (c_rt (core w)) d (c_heap (core w))\<rparr>"
      by (simp add: r core_fold)
    show ?thesis
      using s i f baseD(2,3) [OF b]
      by (intro conjI exI [of _ "heap_start (now w) (c_rt (core w)) d (c_heap (core w))"])
        (simp_all add: eq core_fold)
  qed
  then show "tsx_base (core (tsx_resched_retransmission E w))"
    "\<exists>h. core (tsx_resched_retransmission E w) = (core w)\<lparr>c_heap := h\<rparr> \<and>
       ids h (c_to (core w)) = ids (c_heap (core w)) (c_to (core w))"
    by blast+
qed

lemma resume_ok:
  assumes b: "tsx_rest (core w)" and st: "state (tsx w) < PJSIP_TSX_STATE_TERMINATED"
    and f: "\<not> has_flag w TSX_HAS_PENDING_TRANSPORT" "has_flag w TSX_HAS_RESOLVED_SERVER"
      "\<not> has_flag w TSX_HAS_PENDING_DESTROY"
    and idle: "has_flag w TSX_HAS_PENDING_RESCHED \<Longrightarrow> \<not> pending (theap w) (retransmit_timer (tsx w))"
    and w': "w' = callback_resume E (tsx_send_msg_inner E) w"
  shows "tsx_base (core w') \<and> advances (core w) (core w') \<and>
    (calm (core w) \<longrightarrow> calm (core w')) \<and> c_state (core w') < PJSIP_TSX_STATE_DESTROYED"
proof -
  define w1 where "w1 = (if has_flag w TSX_HAS_PENDING_SEND then
      (let w = clear_flag TSX_HAS_PENDING_SEND w in fst (tsx_send_msg_inner E (the (last_tx (tsx w))) w))
      else w)"
  have st': "c_state (core w) < PJSIP_TSX_STATE_TERMINATED" using st by (simp add: core_fold)
  have one: "core w1 = (core w)\<lparr>c_flags := c_flags (core w) - {TSX_HAS_PENDING_SEND}\<rparr> \<or>
      tsx_base (core w1) \<and> ends (core w) (core w1)"
  proof (cases "has_flag w TSX_HAS_PENDING_SEND")
    case False
    then show ?thesis by (simp add: w1_def core_fold)
  next
    case True
    let ?v = "clear_flag TSX_HAS_PENDING_SEND w"
    have w1: "w1 = fst (tsx_send_msg_via E (\<lambda>td w. (w, PJ_EBUG)) (the (last_tx (tsx ?v))) ?v)"
      using True by (simp add: w1_def tsx_send_msg_inner_def Let_def)
    have "core w1 = core ?v \<or> tsx_base (core w1) \<and> ends (core ?v) (core w1)"
      using inner_send_ok [OF _ _ _ _ w1] b st f(1,2) by (simp add: core_fold)
    then show ?thesis by (auto simp: ends_def)
  qed
  have w'1: "w' = (if has_flag w1 TSX_HAS_PENDING_RESCHED then
      (if \<not> is_reliable (tsx (clear_flag TSX_HAS_PENDING_RESCHED w1))
       then tsx_resched_retransmission E (clear_flag TSX_HAS_PENDING_RESCHED w1)
       else clear_flag TSX_HAS_PENDING_RESCHED w1) else w1)"
    by (simp add: w' callback_resume_def w1_def Let_def)
  let ?v = "clear_flag TSX_HAS_PENDING_RESCHED w1"
  have adv: "advances (core w) (core w1)" "c_state (core w1) < PJSIP_TSX_STATE_DESTROYED"
    using one st' by (auto simp: ends_def advances_def state_order)
  have resc: "\<not> pending (c_heap (core w1)) (c_rt (core w1))" if "has_flag w1 TSX_HAS_PENDING_RESCHED"
    using one that idle by (auto simp: core_fold ends_def same_tsx_def)
  have bv: "tsx_base (core ?v)"
    using one
  proof
    assume e: "core w1 = (core w)\<lparr>c_flags := c_flags (core w) - {TSX_HAS_PENDING_SEND}\<rparr>"
    show ?thesis using b f by (intro rest_base) (simp_all add: e core_fold)
  next
    assume e: "tsx_base (core w1) \<and> ends (core w) (core w1)"
    then have "\<not> c_state (core w1) < PJSIP_TSX_STATE_TERMINATED" by (simp add: ends_def)
    then show ?thesis using e by (simp add: base_flags)
  qed
  show ?thesis
  proof (cases "has_flag w1 TSX_HAS_PENDING_RESCHED")
    case False
    then have eq: "w' = w1" by (simp add: w'1)
    have "tsx_base (core w1)"
      using one
    proof
      assume e: "core w1 = (core w)\<lparr>c_flags := c_flags (core w) - {TSX_HAS_PENDING_SEND}\<rparr>"
      show ?thesis
        using b f False by (intro rest_base) (simp_all add: e core_fold)
    qed blast
    moreover have "calm (core w1)" if "calm (core w)"
      using one that by (auto simp: calm_def ends_def state_order)
    ultimately show ?thesis using adv by (simp add: eq)
  next
    case True
    have i: "\<not> pending (theap ?v) (retransmit_timer (tsx ?v))" using resc [OF True] by (simp add: core_fold)
    note r = resched_ok [OF bv i]
    have nn: "c_state (core w) \<noteq> PJSIP_TSX_STATE_NULL" if "calm (core w)"
      using that True one by (auto simp: calm_def core_fold ends_def)
    have cal: "calm ((core ?v)\<lparr>c_heap := h\<rparr>)"
      if "calm (core w)" "ids h (c_to (core ?v)) = ids (c_heap (core ?v)) (c_to (core ?v))" for h
      using one that nn by (auto simp: calm_def ends_def state_order)
    have fin: "tsx_base (core w') \<and> (\<exists>h. core w' = (core ?v)\<lparr>c_heap := h\<rparr> \<and>
        ids h (c_to (core ?v)) = ids (c_heap (core ?v)) (c_to (core ?v)))"
    proof (cases "is_reliable (tsx ?v)")
      case rel: True
      then have "w' = ?v" using True by (simp add: w'1)
      then show ?thesis using bv by (intro conjI exI [of _ "c_heap (core ?v)"]) simp_all
    next
      case rel: False
      then have "w' = tsx_resched_retransmission E ?v" using True by (simp add: w'1)
      then show ?thesis using r by (simp add: core_fold)
    qed
    then obtain h where h: "core w' = (core ?v)\<lparr>c_heap := h\<rparr>"
      "ids h (c_to (core ?v)) = ids (c_heap (core ?v)) (c_to (core ?v))" by blast
    show ?thesis
      using fin adv cal [OF _ h(2)] by (simp add: h(1) advances_def)
  qed
qed

section \<open>The report\<close>

lemma callback_sent_ok:
  assumes b: "tsx_base (core w)" and st: "state (tsx w) < PJSIP_TSX_STATE_TERMINATED"
    and w': "w' = callback_sent E (tsx_send_msg_inner E) a w"
  shows "tsx_base (core w')" "advances (core w) (core w')" "calm (core w) \<Longrightarrow> calm (core w')"
    "c_state (core w') < PJSIP_TSX_STATE_DESTROYED"
    "\<not> has_flag w TSX_HAS_PENDING_SEND \<Longrightarrow> \<not> has_flag w TSX_HAS_PENDING_RESCHED \<Longrightarrow>
      core w' = (core w)\<lparr>c_flags := insert TSX_HAS_RESOLVED_SERVER
        (c_flags (core w) - {TSX_HAS_PENDING_TRANSPORT})\<rparr>"
proof -
  have st': "c_state (core w) < PJSIP_TSX_STATE_TERMINATED" using st by (simp add: core_fold)
  let ?v = "clear_pending (callback_adopt a w)"
  note fl = flagsD [OF b st']
  have eq: "w' = callback_resume E (tsx_send_msg_inner E) ?v"
    using fl(1) by (simp add: w' callback_sent_def Let_def core_fold)
  have "tsx_base (core w') \<and> advances (core ?v) (core w') \<and>
    (calm (core ?v) \<longrightarrow> calm (core w')) \<and> c_state (core w') < PJSIP_TSX_STATE_DESTROYED"
    using base_rest [OF b] st' fl by (intro resume_ok [OF _ _ _ _ _ _ eq]) (simp_all add: core_fold)
  then show "tsx_base (core w')" "advances (core w) (core w')" "calm (core w) \<Longrightarrow> calm (core w')"
    "c_state (core w') < PJSIP_TSX_STATE_DESTROYED"
    by (auto simp: advances_def calm_def)
  show "core w' = (core w)\<lparr>c_flags := insert TSX_HAS_RESOLVED_SERVER
        (c_flags (core w) - {TSX_HAS_PENDING_TRANSPORT})\<rparr>"
    if "\<not> has_flag w TSX_HAS_PENDING_SEND" "\<not> has_flag w TSX_HAS_PENDING_RESCHED"
  proof -
    have "w' = ?v" using that by (simp add: eq callback_resume_def core_fold)
    then show ?thesis by simp
  qed
qed

text \<open>The world in which a report is handled: the buffer is detached and the lock taken.\<close>

lemma callback_unfold:
  assumes "tx_mod_data (tdatas w td) = Some x"
  obtains v where "core v = (core w)\<lparr>c_mod := (c_mod (core w))(td := None)\<rparr>"
    "\<And>n. at_sent a = Inl n \<Longrightarrow>
       core (send_msg_callback E td a w) = core (callback_sent E (tsx_send_msg_inner E) a v)"
    "\<And>err. at_sent a = Inr err \<Longrightarrow> \<not> at_cont a \<or> has_flag v TSX_HAS_PENDING_DESTROY \<Longrightarrow>
       core (send_msg_callback E td a w) = core (callback_failed E err td v)"
    "\<And>err. at_sent a = Inr err \<Longrightarrow> at_cont a \<Longrightarrow> \<not> has_flag v TSX_HAS_PENDING_DESTROY \<Longrightarrow>
       core (send_msg_callback E td a w) = core (callback_next_server E td v)"
proof -
  let ?v0 = "lock_tsx (upd_tsx (\<lambda>t. t\<lparr>pending_tx := None\<rparr>) (upd_tdata td (\<lambda>d. d\<lparr>tx_mod_data := None\<rparr>) w))"
  let ?v = "case at_sent a of Inl _ \<Rightarrow> ?v0
    | Inr err \<Rightarrow> if at_transport a = transport (tsx ?v0) then tsx_update_transport None ?v0 else ?v0"
  have core_v: "core ?v = (core w)\<lparr>c_mod := (c_mod (core w))(td := None)\<rparr>"
    by (simp split: sum.split)
  note ne = assms
  show ?thesis
  proof (rule that [OF core_v])
    show "core (send_msg_callback E td a w) = core (callback_sent E (tsx_send_msg_inner E) a ?v)"
      if "at_sent a = Inl n" for n
      using that ne unfolding send_msg_callback_def send_msg_callback_via_def Let_def by simp
    show "core (send_msg_callback E td a w) = core (callback_failed E err td ?v)"
      if "at_sent a = Inr err" "\<not> at_cont a \<or> has_flag ?v TSX_HAS_PENDING_DESTROY" for err
      using that ne unfolding send_msg_callback_def send_msg_callback_via_def Let_def by simp
    show "core (send_msg_callback E td a w) = core (callback_next_server E td ?v)"
      if "at_sent a = Inr err" "at_cont a" "\<not> has_flag ?v TSX_HAS_PENDING_DESTROY" for err
      using that ne unfolding send_msg_callback_def send_msg_callback_via_def Let_def by simp
  qed
qed

lemma callback_ignored: "tx_mod_data (tdatas w td) = None \<Longrightarrow> send_msg_callback E td a w = w"
  by (simp add: send_msg_callback_def send_msg_callback_via_def)

lemma callback_ok:
  assumes b: "tsx_base (core w)" and st: "state (tsx w) < PJSIP_TSX_STATE_TERMINATED"
    and w': "w' = send_msg_callback E td a w"
  shows "tsx_base (core w')" "advances (core w) (core w')" "calm (core w) \<Longrightarrow> calm (core w')"
    "c_state (core w') < PJSIP_TSX_STATE_DESTROYED"
proof -
  have st': "c_state (core w) < PJSIP_TSX_STATE_TERMINATED" using st by (simp add: core_fold)
  have "tsx_base (core w') \<and> advances (core w) (core w') \<and> (calm (core w) \<longrightarrow> calm (core w')) \<and>
    c_state (core w') < PJSIP_TSX_STATE_DESTROYED"
  proof (cases "tx_mod_data (tdatas w td)")
    case None
    then show ?thesis using b st' by (simp add: w' callback_ignored state_order)
  next
    case (Some x)
    then obtain v where v: "core v = (core w)\<lparr>c_mod := (c_mod (core w))(td := None)\<rparr>"
      "\<And>n. at_sent a = Inl n \<Longrightarrow>
         core (send_msg_callback E td a w) = core (callback_sent E (tsx_send_msg_inner E) a v)"
      "\<And>err. at_sent a = Inr err \<Longrightarrow> \<not> at_cont a \<or> has_flag v TSX_HAS_PENDING_DESTROY \<Longrightarrow>
         core (send_msg_callback E td a w) = core (callback_failed E err td v)"
      "\<And>err. at_sent a = Inr err \<Longrightarrow> at_cont a \<Longrightarrow> \<not> has_flag v TSX_HAS_PENDING_DESTROY \<Longrightarrow>
         core (send_msg_callback E td a w) = core (callback_next_server E td v)"
      by (rule callback_unfold [where a = a]) blast
    have bv: "tsx_base (core v)" "state (tsx v) < PJSIP_TSX_STATE_TERMINATED"
      "calm (core w) = calm (core v)" "\<And>c. advances (core v) c = advances (core w) c"
      using b st' by (simp_all add: v(1) core_fold advances_def)
    have d: "\<not> has_flag v TSX_HAS_PENDING_DESTROY"
      using flagsD(1) [OF b st'] by (simp add: v(1) core_fold)
    show ?thesis
    proof (cases "at_sent a")
      case (Inl n)
      show ?thesis
        using callback_sent_ok(1-4) [OF bv(1,2) refl, of a] bv(3,4) by (simp add: w' v(2) [OF Inl])
    next
      case (Inr err)
      show ?thesis
      proof (cases "at_cont a")
        case False
        note f = callback_failed_ok [OF base_rest [OF bv(1)] bv(2), where err = err and td = td]
        show ?thesis
          using f(1) ended_advances [OF f(2)] ended_calm [OF f(2)] bv f(2) st' False
          by (simp add: w' v(3) [OF Inr] ended_def state_order core_fold)
      next
        case True
        note n = next_server_ok [OF bv(1), of E td]
        show ?thesis
          using n quiet_advances [OF n(2)] quiet_calm [OF n(2)] bv
          by (auto simp: w' v(4) [OF Inr True d] quiet_def core_fold state_order)
      qed
    qed
  qed
  then show "tsx_base (core w')" "advances (core w) (core w')" "calm (core w) \<Longrightarrow> calm (core w')"
    "c_state (core w') < PJSIP_TSX_STATE_DESTROYED" by simp_all
qed

section \<open>Sending\<close>

text \<open>
  The two phases of a run of attempts: the transaction is as it was and nothing is deferred, or it
  ended with an error and further reports are ignored.
\<close>

definition run_phase :: "tsx_core \<Rightarrow> nat \<Rightarrow> tsx_core \<Rightarrow> bool" where
  "run_phase c0 td c \<longleftrightarrow> tsx_base c \<and>
     (quiet c0 c \<and> TSX_HAS_PENDING_SEND \<notin> c_flags c \<and> TSX_HAS_PENDING_RESCHED \<notin> c_flags c \<or>
      ended c0 c \<and> c_err c \<noteq> PJ_SUCCESS \<and> c_mod c td = None)"

lemma attempt_phase:
  assumes c0: "c_state c0 < PJSIP_TSX_STATE_TERMINATED" and ph: "run_phase c0 td (core w)"
    and err: "\<And>err. at_sent a = Inr err \<Longrightarrow> err \<noteq> PJ_SUCCESS"
  shows "run_phase c0 td (core (send_msg_callback E td a w))"
proof (cases "tx_mod_data (tdatas w td)")
  case None
  then show ?thesis using ph by (simp add: callback_ignored)
next
  case (Some x)
  then have ph': "tsx_base (core w)" "quiet c0 (core w)" "TSX_HAS_PENDING_SEND \<notin> c_flags (core w)"
    "TSX_HAS_PENDING_RESCHED \<notin> c_flags (core w)"
    using ph by (auto simp: run_phase_def core_fold)
  then have st: "c_state (core w) < PJSIP_TSX_STATE_TERMINATED" using c0 by (simp add: quiet_def)
  from Some obtain v where v: "core v = (core w)\<lparr>c_mod := (c_mod (core w))(td := None)\<rparr>"
    "\<And>n. at_sent a = Inl n \<Longrightarrow>
       core (send_msg_callback E td a w) = core (callback_sent E (tsx_send_msg_inner E) a v)"
    "\<And>err. at_sent a = Inr err \<Longrightarrow> \<not> at_cont a \<or> has_flag v TSX_HAS_PENDING_DESTROY \<Longrightarrow>
       core (send_msg_callback E td a w) = core (callback_failed E err td v)"
    "\<And>err. at_sent a = Inr err \<Longrightarrow> at_cont a \<Longrightarrow> \<not> has_flag v TSX_HAS_PENDING_DESTROY \<Longrightarrow>
       core (send_msg_callback E td a w) = core (callback_next_server E td v)"
    by (rule callback_unfold [where a = a]) blast
  have bv: "tsx_base (core v)" "state (tsx v) < PJSIP_TSX_STATE_TERMINATED" "quiet c0 (core v)"
    "\<not> has_flag v TSX_HAS_PENDING_SEND" "\<not> has_flag v TSX_HAS_PENDING_RESCHED"
    "\<not> has_flag v TSX_HAS_PENDING_DESTROY"
    using ph' st flagsD(1) [OF ph'(1) st] by (simp_all add: v(1) core_fold)
  show ?thesis
  proof (cases "at_sent a")
    case (Inl n)
    note s = callback_sent_ok(1,5) [OF bv(1,2) refl, where a = a]
    show ?thesis
      using s(1) s(2) [OF bv(4,5)] bv(3-5) by (simp add: run_phase_def v(2) [OF Inl] quiet_def core_fold)
  next
    case (Inr e)
    show ?thesis
    proof (cases "at_cont a")
      case False
      note f = callback_failed_ok [OF base_rest [OF bv(1)] bv(2), where err = e and td = td]
      have "c_mod (core v) td = None" by (simp add: v(1))
      then show ?thesis
        using f(1,3) f(4) [of td] quiet_ended [OF bv(3) f(2)] err [OF Inr] False
        by (simp add: run_phase_def v(3) [OF Inr])
    next
      case True
      note n = next_server_ok [OF bv(1), of E td]
      show ?thesis
        using n quiet_trans [OF bv(3) n(2)] bv(4,5)
        by (simp add: run_phase_def v(4) [OF Inr True bv(6)] core_fold)
    qed
  qed
qed

lemma run_phase_run:
  assumes "c_state c0 < PJSIP_TSX_STATE_TERMINATED" "run_phase c0 td (core w)"
    "\<And>a err. a \<in> set as \<Longrightarrow> at_sent a = Inr err \<Longrightarrow> err \<noteq> PJ_SUCCESS"
  shows "run_phase c0 td (core (run_attempts E td as w))"
  using assms(2,3)
proof (induction as arbitrary: w)
  case (Cons a as)
  have "run_phase c0 td (core (send_msg_callback E td a w))"
    using Cons.prems(2) [of a] by (intro attempt_phase [OF assms(1) Cons.prems(1)]) simp
  then have "run_phase c0 td (core (run_attempts E td as (send_msg_callback E td a w)))"
    by (rule Cons.IH) (rule Cons.prems(2), auto)
  then show ?case by simp
qed simp

lemma resolving_ok:
  assumes b: "tsx_base (core w)" and st: "state (tsx w) < PJSIP_TSX_STATE_TERMINATED"
    and f: "\<not> has_flag w TSX_HAS_PENDING_TRANSPORT"
    and r: "send_by_resolving (call_stateless E) td w = (w', status)"
  shows "sent_ok (core w) (core w') status"
proof -
  let ?c = "core w"
  have st': "c_state ?c < PJSIP_TSX_STATE_TERMINATED" using st by (simp add: core_fold)
  have fl: "TSX_HAS_PENDING_SEND \<notin> c_flags ?c" "TSX_HAS_PENDING_RESCHED \<notin> c_flags ?c"
    "TSX_HAS_PENDING_DESTROY \<notin> c_flags ?c"
    using flagsD(1-3) [OF b st'] f by (auto simp: core_fold)
  define v where "v = set_flag TSX_HAS_PENDING_TRANSPORT (upd_tsx (\<lambda>t. t\<lparr>pending_tx := Some td\<rparr>)
    (upd_tdata td (\<lambda>d. d\<lparr>tx_mod_data := Some (tsx_addr (tsx (pjsip_tx_data_add_ref td w)))\<rparr>)
      (pjsip_tx_data_add_ref td w)))"
  have cv: "run_phase ?c td (core (emit a v))" for a
    using b fl by (simp add: v_def run_phase_def quiet_def base_flags)
  define w2 where "w2 = run_attempts E td (fst (send_stateless E v td)) (emit (Act_stateless td) v)"
  have ph: "run_phase ?c td (core w2)"
    unfolding w2_def using attempts_fail by (intro run_phase_run [OF st' cv]) blast
  define s0 where "s0 = snd (send_stateless E v td)"
  define s1 where "s1 = (if s0 = PJ_EPENDING then PJ_SUCCESS else s0)"
  define w3 where "w3 = (if s1 \<noteq> PJ_SUCCESS then upd_tsx (\<lambda>t. t\<lparr>pending_tx := None\<rparr>)
    (upd_tdata td (\<lambda>d. d\<lparr>tx_mod_data := None\<rparr>) (pjsip_tx_data_dec_ref td w2)) else w2)"
  have "call_stateless E td v = (w2, s0)"
    by (simp add: call_stateless_def w2_def s0_def split: prod.split)
  then have "(w', status) = (w3, if s1 = PJ_SUCCESS \<and> state (tsx w3) = PJSIP_TSX_STATE_TERMINATED
      then transport_err (tsx w3) else s1)"
    using r [symmetric] unfolding send_by_resolving_def Let_def v_def [symmetric]
    by (simp only: s1_def w3_def prod.case)
  then have res: "w' = w3" "status = (if s1 = PJ_SUCCESS \<and> state (tsx w3) = PJSIP_TSX_STATE_TERMINATED
      then transport_err (tsx w3) else s1)" by blast+
  have ph3: "run_phase ?c td (core w3)" using ph by (auto simp: w3_def run_phase_def)
  have "tsx_base (core w3)" using ph3 by (simp add: run_phase_def)
  moreover have "status \<noteq> PJ_SUCCESS" if "ended ?c (core w3)" "c_err (core w3) \<noteq> PJ_SUCCESS"
    using that res by (simp add: core_fold ended_def)
  ultimately show ?thesis
    using ph3 res by (auto simp: sent_ok_def run_phase_def)
qed

lemma send_msg_ok:
  assumes b: "tsx_base (core w)" and st: "state (tsx w) < PJSIP_TSX_STATE_TERMINATED"
    and r: "tsx_send_msg E td w = (w', status)"
  shows "sent_ok (core w) (core w') status"
proof (cases "has_flag w TSX_HAS_PENDING_TRANSPORT")
  case True
  then have "w' = set_flag TSX_HAS_PENDING_SEND w"
    using r by (simp add: tsx_send_msg_def tsx_send_msg_via_def)
  moreover have "c_state (core w) < PJSIP_TSX_STATE_TERMINATED" using st by (simp add: core_fold)
  ultimately show ?thesis
    using b True flagsD [OF b] by (auto simp: sent_ok_def quiet_def core_fold intro!: base_flags)
next
  case False
  have st': "c_state (core w) < PJSIP_TSX_STATE_TERMINATED" using st by (simp add: core_fold)
  have err: "sent_ok (core w) (core (transport_error E ev v)) s"
    if "core v = core w" "s \<noteq> PJ_SUCCESS" for v ev s
    using transport_error_ok [of v ev] that base_rest [OF b] st'
    by (simp add: core_fold sent_ok_def ends_ended)
  have res: "sent_ok (core w) (core w') s" if "core v = core w"
    "send_by_resolving (call_stateless E) td v = (w', s)" for v s
    using resolving_ok [OF _ _ _ that(2)] that(1) b st' False by (simp add: core_fold)
  show ?thesis
  proof (cases "transport (tsx w)")
    case None
    then show ?thesis
      using r False err [of w] res [of w]
      by (auto simp: tsx_send_msg_def tsx_send_msg_via_def Let_def split: if_splits)
  next
    case (Some tp)
    let ?v = "upd_tsx (\<lambda>t. t\<lparr>addr_len := 0, res_addr_transport := None, res_addr_len := 0\<rparr>)
        (tsx_update_transport None (emit (Act_sent tp td) w))"
    have v: "core ?v = core w" by simp
    show ?thesis
    proof (cases "transport_send E w tp td = PJ_SUCCESS \<or> transport_send E w tp td = PJ_EPENDING")
      case True
      then have "w' = emit (Act_sent tp td) w"
        using r False Some by (auto simp: tsx_send_msg_def tsx_send_msg_via_def Let_def)
      then show ?thesis using b by (simp add: sent_ok_def)
    next
      case no: False
      then have "w' = transport_error E (PJSIP_EVENT_TRANSPORT_ERROR None) ?v \<and>
          status = transport_send E w tp td \<or>
        send_by_resolving (call_stateless E) td ?v = (w', status)"
        using r False Some unfolding tsx_send_msg_def tsx_send_msg_via_def Let_def
        by (auto split: if_splits)
      then show ?thesis
        using err [OF v] res [OF v] no by blast
    qed
  qed
qed

end

end
