(* ===== verification/Tsx_Handler_Inv.thy ===== *)
theory Tsx_Handler_Inv
  imports Tsx_Send_Inv
begin

text \<open>
  Every state handler keeps the invariant and moves the state forward only. A timer event is handled
  with its entry already taken from the heap.
\<close>

section \<open>Steps\<close>

definition step :: "tsx_core \<Rightarrow> tsx_world \<Rightarrow> bool" where
  "step c w \<longleftrightarrow> tsx_inv w \<and> advances c (core w)"

definition event_ok :: "tsx_core \<Rightarrow> pjsip_event \<Rightarrow> bool" where
  "event_ok c ev \<longleftrightarrow> (case ev of
     PJSIP_EVENT_TIMER e \<Rightarrow> (e = c_rt c \<or> e = c_to c) \<and> \<not> pending (c_heap c) e
   | _ \<Rightarrow> True)"

lemma step_self: "tsx_inv w \<Longrightarrow> step (core w) w"
  by (simp add: step_def)

lemma step_core: "tsx_inv w \<Longrightarrow> core v = core w \<Longrightarrow> step (core w) v"
  by (simp add: step_def tsx_inv_def)

lemma step_trans: "step c v \<Longrightarrow> step (core v) w \<Longrightarrow> step c w"
  unfolding step_def using advances_trans by blast

text \<open>Destruction: both timers are stopped and the key leaves the table.\<close>

lemma base_tab:
  assumes "tsx_base c" "ht_inv t"
  shows "tsx_base (c\<lparr>c_tab := t\<rparr>)"
  using assms unfolding tsx_base_def tables_ok_def marked_def flags_ok_def handler_ok_def by simp

lemma core_destroyed [simp]: "core (w\<lparr>tsx := (tsx w)\<lparr>tsx_alive := a\<rparr>, tls := l\<rparr>) = core w"
  "core (w\<lparr>tls := l, tsx := (tsx w)\<lparr>tsx_alive := a\<rparr>\<rparr>) = core w"
  by (simp_all add: core_def)

lemma core_destroy:
  obtains g where "core (fst (tsx_destroy w)) = (core w)\<lparr>
      c_heap := heap_stop (c_rt (core w)) (heap_stop (c_to (core w)) (c_heap (core w))), c_flags := g\<rparr>"
    "g \<subseteq> insert TSX_HAS_PENDING_DESTROY
       (c_flags (core w) - {TSX_HAS_PENDING_RESCHED, TSX_HAS_PENDING_SEND})"
proof -
  define v where "v = clear_flag TSX_HAS_PENDING_RESCHED (clear_flag TSX_HAS_PENDING_SEND
      (let w = drop_last_tx (pjsip_tpselector_dec_ref (tp_sel (tsx (tsx_update_transport None w)))
             (tsx_update_transport None w));
           w = stop_timer (timeout_timer (tsx w)) w
       in stop_timer (retransmit_timer (tsx w)) w))"
  have v: "core v = (core w)\<lparr>
      c_heap := heap_stop (c_rt (core w)) (heap_stop (c_to (core w)) (c_heap (core w))),
      c_flags := c_flags (core w) - {TSX_HAS_PENDING_SEND} - {TSX_HAS_PENDING_RESCHED}\<rparr>"
    by (simp add: v_def Let_def core_fold)
  have d: "tsx_destroy w = (if has_flag v TSX_HAS_PENDING_TRANSPORT then
           (upd_tsx (\<lambda>t. t\<lparr>tsx_user := False\<rparr>) (set_flag TSX_HAS_PENDING_DESTROY v), PJ_EBUSY)
         else
           (emit Act_destroyed
              (upd_tsx (\<lambda>t. t\<lparr>tsx_alive := False\<rparr>)
                (v\<lparr>tls := map (\<lambda>(a, alive). (a, if a = tsx_addr (tsx v) then False else alive)) (tls v)\<rparr>)),
            PJ_SUCCESS))"
    unfolding tsx_destroy_def v_def Let_def ..
  show ?thesis
  proof (cases "has_flag v TSX_HAS_PENDING_TRANSPORT")
    case True
    then show ?thesis
      by (intro that [of "insert TSX_HAS_PENDING_DESTROY (c_flags (core v))"]) (auto simp: d v)
  next
    case False
    then show ?thesis by (intro that [of "c_flags (core v)"]) (auto simp: d v)
  qed
qed

lemma core_unregister:
  "core (mod_tsx_layer_unregister_tsx w) = (core w)\<lparr>c_tab :=
     if layer_registered w then pj_hash_set (c_tab (core w)) (c_key (core w)) (key_len (c_key (core w)))
       (c_hash (core w)) None else c_tab (core w)\<rparr>"
  by (simp add: mod_tsx_layer_unregister_tsx_def core_def)

lemma unregister_ok:
  assumes "tsx_base (core w)"
  shows "tsx_base (core (mod_tsx_layer_unregister_tsx w))"
proof -
  have t: "ht_inv (c_tab (core w))" "key_fits (c_key (core w))"
    "c_hash (core w) = hash_bytes 0 (c_key (core w))"
    using assms by (simp_all add: tsx_base_def tables_ok_def)
  show ?thesis
    using t assms by (auto simp: core_unregister intro!: base_tab hreg.ok_store)
qed

lemma c_tab_unregister:
  assumes "tsx_base (core w)" "layer_registered w"
  shows "ht_view (c_tab (core (mod_tsx_layer_unregister_tsx w))) = (ht_view (c_tab (core w)))(c_key (core w) := None)"
  using assms by (simp add: core_unregister tsx_base_def tables_ok_def hreg.view_store)

context tsx_user_module
begin

lemma destroy_ok:
  assumes b: "tsx_base (core w)" and w'_def: "w' = tsx_set_state E PJSIP_TSX_STATE_DESTROYED ev w"
  shows "step (core w) w'" "c_state (core w') = PJSIP_TSX_STATE_DESTROYED"
    "\<not> pending (c_heap (core w')) (c_rt (core w))" "\<not> pending (c_heap (core w')) (c_to (core w))"
    "ids (c_heap (core w')) (c_rt (core w)) = 0" "ids (c_heap (core w')) (c_to (core w)) = 0"
    "layer_registered w \<Longrightarrow> ht_view (c_tab (core w')) (c_key (core w)) = None"
proof -
  define w2 where "w2 = tell_state E (state (tsx w)) ev (tell_rx E ev
      (upd_tsx (\<lambda>t. t\<lparr>state := PJSIP_TSX_STATE_DESTROYED,
         state_handler := handler_of (role t) PJSIP_TSX_STATE_DESTROYED\<rparr>) w))"
  have eq: "w' = fst (tsx_destroy (mod_tsx_layer_unregister_tsx w2))"
    by (simp add: w'_def tsx_set_state_def Let_def w2_def)
  have "handled (role (tsx w)) PJSIP_TSX_STATE_DESTROYED"
    by (simp add: handled_def handler_of_def)
  moreover have le: "c_state c \<le> PJSIP_TSX_STATE_DESTROYED" for c
    by (cases "c_state c") (simp_all add: state_order)
  ultimately have mb: "tsx_base ((core w)\<lparr>c_state := PJSIP_TSX_STATE_DESTROYED,
      c_handler := handler_of (role (tsx w)) PJSIP_TSX_STATE_DESTROYED\<rparr>)"
    using base_moved [OF b le] by (simp add: core_fold)
  have "calm ((core w)\<lparr>c_state := PJSIP_TSX_STATE_DESTROYED\<rparr>)" by (simp add: state_order)
  note m = moved_tell [OF mb this refl, of "state (tsx w)" ev, folded w2_def]
  let ?v = "mod_tsx_layer_unregister_tsx w2"
  have b2: "tsx_base (core w2)" using m(1) by (simp add: tsx_inv_def)
  have sm: "same_tsx (core w) (core w2)" using modestD(3) [OF m(2)] by simp
  note ss = same_tsxD [OF sm]
  have "PJSIP_TSX_STATE_DESTROYED \<le> c_state (core w2)" using modestD(2) [OF m(2)] by simp
  then have st: "c_state (core w2) = PJSIP_TSX_STATE_DESTROYED" using le by (rule antisym [rotated])
  have bv: "tsx_base (core ?v)" by (rule unregister_ok [OF b2])
  have cv: "\<exists>t. core ?v = (core w2)\<lparr>c_tab := t\<rparr>" by (rule exI, rule core_unregister)
  obtain g where g: "core w' = (core ?v)\<lparr>
      c_heap := heap_stop (c_rt (core ?v)) (heap_stop (c_to (core ?v)) (c_heap (core ?v))), c_flags := g\<rparr>"
    using core_destroy [of ?v] unfolding eq by metis
  note s1 = base_stop [OF bv, of "c_to (core ?v)", simplified]
  note s2 = base_stop [OF s1(1), of "c_rt (core ?v)", simplified]
  have stv: "c_state (core ?v) = PJSIP_TSX_STATE_DESTROYED"
    "c_rt (core ?v) = c_rt (core w)" "c_to (core ?v) = c_to (core w)" "same_tsx (core w) (core ?v)"
    using cv st sm ss by auto
  have "tsx_base (core w')"
    unfolding g by (rule base_flags [OF s2(1)]) (simp add: stv state_order)
  then show "step (core w) w'"
    using le by (simp add: step_def tsx_inv_def g stv advances_def state_order)
  show "c_state (core w') = PJSIP_TSX_STATE_DESTROYED" by (simp add: g stv)
  show "\<not> pending (c_heap (core w')) (c_rt (core w))" "\<not> pending (c_heap (core w')) (c_to (core w))"
    "ids (c_heap (core w')) (c_rt (core w)) = 0" "ids (c_heap (core w')) (c_to (core w)) = 0"
    using s1 s2 baseD(2,3) [OF b] by (simp_all add: g stv)
  show "ht_view (c_tab (core w')) (c_key (core w)) = None" if "layer_registered w"
    using that c_tab_unregister [OF b2] ss by (simp add: g core_fold)
qed

lemma set_state_step:
  assumes "tsx_base (core w)" "advances c (core w)" "c_state (core w) \<le> st"
    "handled (c_role (core w)) st" "calm ((core w)\<lparr>c_state := st\<rparr>)" "st < PJSIP_TSX_STATE_TERMINATED"
  shows "step c (tsx_set_state E st ev w)"
  using set_state_ok [of w st ev] assms advances_trans [OF assms(2)]
  by (simp add: step_def core_fold)

lemma end_step:
  assumes "tsx_base (core w)" "advances c (core w)" "c_state (core w) \<le> PJSIP_TSX_STATE_TERMINATED"
  shows "step c (tsx_set_state E PJSIP_TSX_STATE_TERMINATED ev w)"
  using terminate_ok [of w _ ev] base_rest [OF assms(1)] assms advances_trans [OF assms(2)]
  by (simp add: step_def core_fold)

end

section \<open>Retransmission\<close>

text \<open>A world with the same transaction in the same state, whose timeout timer has the same mark.\<close>

definition held :: "tsx_core \<Rightarrow> tsx_core \<Rightarrow> bool" where
  "held c c' \<longleftrightarrow> tsx_base c' \<and> same_tsx c c' \<and> c_state c' = c_state c \<and>
     ids (c_heap c') (c_to c) = ids (c_heap c) (c_to c)"

lemma held_self: "tsx_base c \<Longrightarrow> held c c"
  by (simp add: held_def)

lemma held_trans: "held c c' \<Longrightarrow> held c' c'' \<Longrightarrow> held c c''"
  by (auto simp: held_def same_tsx_def)

lemma held_advances: "held c c' \<Longrightarrow> advances c c'"
  by (simp add: held_def advances_def)

lemma held_calm: "held c c' \<Longrightarrow> calm c \<Longrightarrow> c_state c \<noteq> PJSIP_TSX_STATE_NULL \<Longrightarrow> calm c'"
  by (auto simp: held_def calm_def same_tsx_def)

lemma held_stop_rt: "tsx_base (core w) \<Longrightarrow> held (core w) (core (stop_timer (retransmit_timer (tsx w)) w))"
  using base_stop [of "core w" "c_rt (core w)"] baseD(2,3) [of "core w"] by (simp add: held_def core_fold)

lemma idle_stop_rt:
  "tsx_base (core w) \<Longrightarrow> \<not> pending (c_heap (core (stop_timer (retransmit_timer (tsx w)) w))) (c_rt (core w))"
  using base_stop [of "core w" "c_rt (core w)"] by (simp add: core_fold)

lemma held_start_retransmit:
  assumes b: "tsx_base (core w)" and i: "\<not> pending (c_heap (core w)) (c_rt (core w))"
  shows "held (core w) (core (start_retransmit d w))"
    "ids (c_heap (core (start_retransmit d w))) (c_to (core w)) = ids (c_heap (core w)) (c_to (core w))"
    "pending (c_heap (core (start_retransmit d w))) (c_to (core w)) = pending (c_heap (core w)) (c_to (core w))"
proof -
  let ?w = "upd_tsx (\<lambda>t. t\<lparr>retransmit_count := 0\<rparr>) w"
  have "held (core w) (core (start_retransmit d w)) \<and>
    pending (c_heap (core (start_retransmit d w))) (c_to (core w)) = pending (c_heap (core w)) (c_to (core w))"
  proof (cases "has_flag w TSX_HAS_PENDING_TRANSPORT")
    case True
    then have eq: "core (start_retransmit d w) = (core w)\<lparr>c_flags := insert TSX_HAS_PENDING_RESCHED (c_flags (core w))\<rparr>"
      by (simp add: start_retransmit_def)
    have "tsx_base (core (start_retransmit d w))"
      unfolding eq using True i flagsD [OF b] by (intro base_flags [OF b]) (simp_all add: core_fold)
    then show ?thesis by (simp add: held_def eq)
  next
    case False
    then have eq: "core (start_retransmit d w) = (core w)\<lparr>c_heap := heap_start (now w) (c_rt (core w)) d (c_heap (core w))\<rparr>"
      by (simp add: start_retransmit_def core_fold)
    have "TSX_HAS_PENDING_RESCHED \<notin> c_flags (core w)" if "c_state (core w) < PJSIP_TSX_STATE_TERMINATED"
      using flagsD(3) [OF b that] False by (auto simp: core_fold)
    then show ?thesis
      using base_start [OF b i, of "now w" d] baseD(2,3) [OF b] by (simp add: held_def eq)
  qed
  then show "held (core w) (core (start_retransmit d w))"
    "ids (c_heap (core (start_retransmit d w))) (c_to (core w)) = ids (c_heap (core w)) (c_to (core w))"
    "pending (c_heap (core (start_retransmit d w))) (c_to (core w)) = pending (c_heap (core w)) (c_to (core w))"
    by (simp_all add: held_def)
qed

context tsx_environment
begin

lemma send_step:
  assumes "tsx_inv w" "c_state (core w) < PJSIP_TSX_STATE_TERMINATED"
  shows "step (core w) (fst (tsx_send_msg E td w))"
proof -
  have "sent_ok (core w) (core (fst (tsx_send_msg E td w))) (snd (tsx_send_msg E td w))"
    using assms by (intro send_msg_ok [of w td]) (simp_all add: tsx_inv_def core_fold)
  from sent_okD [OF this assms(2)] show ?thesis using assms(1) by (simp add: step_def tsx_inv_def)
qed

lemma retransmit_step:
  assumes inv: "tsx_inv w" and st: "c_state (core w) < PJSIP_TSX_STATE_TERMINATED"
    "c_state (core w) \<noteq> PJSIP_TSX_STATE_NULL"
    and i: "r \<Longrightarrow> \<not> pending (c_heap (core w)) (c_rt (core w))"
  shows "step (core w) (fst (tsx_retransmit E r w))"
proof -
  define u where "u = upd_tsx (\<lambda>t. t\<lparr>retransmit_count := retransmit_count t + 1\<rparr>) w"
  define v where "v = (if r then
      (if has_flag u TSX_HAS_PENDING_TRANSPORT then set_flag TSX_HAS_PENDING_RESCHED u
       else tsx_resched_retransmission E u) else u)"
  have u: "core u = core w" by (simp add: u_def)
  have b: "tsx_base (core u)" "calm (core u)" using inv by (simp_all add: u tsx_inv_def)
  have "held (core u) (core v)"
  proof (cases r)
    case False
    then show ?thesis using held_self [OF b(1)] by (simp add: v_def)
  next
    case True
    note i = i [OF this, folded u]
    show ?thesis
    proof (cases "has_flag u TSX_HAS_PENDING_TRANSPORT")
      case p: True
      have "tsx_base ((core u)\<lparr>c_flags := insert TSX_HAS_PENDING_RESCHED (c_flags (core u))\<rparr>)"
        using p i flagsD [OF b(1)] by (intro base_flags [OF b(1)]) (simp_all add: core_fold)
      then show ?thesis using True p by (simp add: v_def held_def)
    next
      case p: False
      have f: "\<not> has_flag u TSX_HAS_PENDING_RESCHED" if "state (tsx u) < PJSIP_TSX_STATE_TERMINATED"
        using flagsD(3) [OF b(1)] p that by (auto simp: core_fold)
      note rr = resched_ok [OF b(1), unfolded core_fold, OF i f [unfolded core_fold]]
      show ?thesis using rr True p by (auto simp: v_def held_def)
    qed
  qed
  note h = this [unfolded u]
  have eq: "tsx_retransmit E r w = tsx_send_msg E (the (last_tx (tsx v))) v"
    by (simp add: tsx_retransmit_def Let_def v_def u_def)
  have "tsx_inv v" using h held_calm [OF h] inv st by (simp add: tsx_inv_def held_def)
  moreover have "c_state (core v) < PJSIP_TSX_STATE_TERMINATED" using h st by (simp add: held_def)
  moreover have "step (core w) v" using calculation held_advances [OF h] by (simp add: step_def)
  ultimately show ?thesis unfolding eq using step_trans send_step by blast
qed

end

end
