(* ===== verification/Tsx_Handle.thy ===== *)
theory Tsx_Handle
  imports Tsx_Handler_Inv
begin

text \<open>
  The invariant through the state handlers, one lemma per handler, and through their dispatch.
\<close>

section \<open>Small facts\<close>

lemma handled_simps [simp]:
  "handled PJSIP_ROLE_UAC st \<longleftrightarrow> st \<noteq> PJSIP_TSX_STATE_TRYING"
  "handled PJSIP_ROLE_UAS st \<longleftrightarrow> st \<noteq> PJSIP_TSX_STATE_CALLING"
  by (cases st; simp add: handled_def handler_of_def)+

lemma state_num_0 [simp]: "state_num st = 0 \<longleftrightarrow> st = PJSIP_TSX_STATE_NULL"
  by (cases st) simp_all

lemma role_cases: "r \<noteq> PJSIP_ROLE_UAS \<longleftrightarrow> r = PJSIP_ROLE_UAC" "r \<noteq> PJSIP_ROLE_UAC \<longleftrightarrow> r = PJSIP_ROLE_UAS"
  by (cases r; simp)+

lemma calm_client: "c_role c = PJSIP_ROLE_UAC \<Longrightarrow> c_state c \<noteq> PJSIP_TSX_STATE_NULL \<Longrightarrow> calm c"
  by (simp add: calm_def)

lemma calm_idle:
  assumes "tsx_base c" "calm c" "ids (c_heap c) (c_to c) = 0 \<Longrightarrow> \<not> pending (c_heap c) (c_to c) \<Longrightarrow> P"
    "c_state c = PJSIP_TSX_STATE_NULL \<or> c_role c = PJSIP_ROLE_UAS \<and> c_state c \<le> PJSIP_TSX_STATE_PROCEEDING"
  shows P
  using assms baseD(5) [OF assms(1)] by (auto simp: calm_def)

lemma advances_same: "same_tsx c c' \<Longrightarrow> c_state c' = c_state c \<Longrightarrow> advances c c'"
  by (simp add: advances_def)

text \<open>The timeout timer alone: starting it when idle, and after a cancellation.\<close>

lemma start_to:
  assumes b: "tsx_base (core w)" and i: "\<not> pending (c_heap (core w)) (c_to (core w))"
    and w'_def: "w' = start_timer (timeout_timer (tsx w)) d w"
  shows "tsx_base (core w')" "same_tsx (core w) (core w')" "c_state (core w') = c_state (core w)"
    "pending (c_heap (core w')) (c_rt (core w)) = pending (c_heap (core w)) (c_rt (core w))"
  using base_start [OF b i, of "now w" d] baseD(2,3) [OF b] by (simp_all add: w'_def core_fold)

lemma cancel_to:
  assumes b: "tsx_base (core w)" and w'_def: "w' = pjsip_endpt_cancel_timer (timeout_timer (tsx w)) w"
  shows "tsx_base (core w')" "same_tsx (core w) (core w')" "c_state (core w') = c_state (core w)"
    "pending (c_heap (core w')) (c_rt (core w)) = pending (c_heap (core w)) (c_rt (core w))"
    "\<not> pending (c_heap (core w')) (c_to (core w))"
  using base_cancel [OF b, of "c_to (core w)"] baseD(2,3) [OF b] by (simp_all add: w'_def core_fold)

lemma stop_rt:
  assumes b: "tsx_base (core w)" and w'_def: "w' = stop_timer (retransmit_timer (tsx w)) w"
  shows "tsx_base (core w')" "same_tsx (core w) (core w')" "c_state (core w') = c_state (core w)"
    "pending (c_heap (core w')) (c_to (core w)) = pending (c_heap (core w)) (c_to (core w))"
    "ids (c_heap (core w')) (c_to (core w)) = ids (c_heap (core w)) (c_to (core w))"
    "\<not> pending (c_heap (core w')) (c_rt (core w))"
  using base_stop [OF b, of "c_rt (core w)"] baseD(2,3) [OF b] by (simp_all add: w'_def core_fold)

lemma same_trans: "same_tsx c c' \<Longrightarrow> same_tsx c' c'' \<Longrightarrow> same_tsx c c''"
  by (simp add: same_tsx_def)

text \<open>The ACK buffer is new; only its back pointer reaches the core.\<close>

lemma core_upd_any: "\<exists>m. core (upd_tdata td f w) = (core w)\<lparr>c_mod := m\<rparr>"
  by (rule exI [of _ "c_mod (core (upd_tdata td f w))"]) (simp add: core_def upd_tdata_def)

lemma sent_ok_mod: "sent_ok (c\<lparr>c_mod := m\<rparr>) c' st \<Longrightarrow> sent_ok c c' st"
  by (auto simp: sent_ok_def quiet_def ended_def same_tsx_def)

text \<open>Stopping the timers for the first response.\<close>

lemma calling_timers_ok:
  assumes b: "tsx_base (core w)"
  shows "tsx_base (core (calling_timers E code w))" "same_tsx (core w) (core (calling_timers E code w))"
    "c_state (core (calling_timers E code w)) = c_state (core w)"
proof -
  define w1 where "w1 = stop_timer (retransmit_timer (tsx w)) w"
  define w2 where "w2 = (if code \<ge> 200 then stop_timer (timeout_timer (tsx w1)) w1
               else if method_id (tsx_method (tsx w1)) = PJSIP_INVITE_METHOD
               then pjsip_endpt_cancel_timer (timeout_timer (tsx w1)) w1
               else if \<not> is_reliable (tsx w1)
               then start_timer (retransmit_timer (tsx w1)) (t2_timer_val E) w1
               else w1)"
  let ?f = "c_flags (core w1) - {TSX_HAS_PENDING_RESCHED}"
  note r = stop_rt [OF b w1_def]
  have b1: "tsx_base ((core w1)\<lparr>c_flags := ?f\<rparr>)"
    using flagsD [OF r(1)] by (intro base_flags [OF r(1)]) auto
  have i: "\<not> pending (c_heap (core w1)) (c_rt (core w1))" using r(6) same_tsxD [OF r(2)] by simp
  have "\<exists>h. core w2 = (core w1)\<lparr>c_heap := h\<rparr> \<and> tsx_base ((core w1)\<lparr>c_flags := ?f, c_heap := h\<rparr>)"
  proof -
    have 1: "tsx_base ((core w1)\<lparr>c_flags := ?f, c_heap := heap_stop (c_to (core w1)) (c_heap (core w1))\<rparr>)"
      using base_stop(1) [OF b1, of "c_to (core w1)"] by simp
    have 2: "tsx_base ((core w1)\<lparr>c_flags := ?f, c_heap := heap_cancel (c_to (core w1)) (c_heap (core w1))\<rparr>)"
      using base_cancel(1) [OF b1, of "c_to (core w1)"] by simp
    have 3: "tsx_base ((core w1)\<lparr>c_flags := ?f,
        c_heap := heap_start (now w1) (c_rt (core w1)) (t2_timer_val E) (c_heap (core w1))\<rparr>)"
      using base_start(1) [OF b1, of "c_rt (core w1)"] i by simp
    have 4: "tsx_base ((core w1)\<lparr>c_flags := ?f, c_heap := c_heap (core w1)\<rparr>)" using b1 by simp
    show ?thesis
    proof (cases "code \<ge> 200")
      case True
      then show ?thesis using 1
        by (intro exI [of _ "heap_stop (c_to (core w1)) (c_heap (core w1))"]) (simp add: w2_def core_fold)
    next
      case c: False
      show ?thesis
      proof (cases "method_id (tsx_method (tsx w1)) = PJSIP_INVITE_METHOD")
        case True
        then show ?thesis using 2 c
          by (intro exI [of _ "heap_cancel (c_to (core w1)) (c_heap (core w1))"]) (simp add: w2_def core_fold)
      next
        case m: False
        show ?thesis
        proof (cases "is_reliable (tsx w1)")
          case True
          then show ?thesis using 4 c m by (intro exI [of _ "c_heap (core w1)"]) (simp add: w2_def)
        next
          case False
          then show ?thesis using 3 c m
            by (intro exI [of _ "heap_start (now w1) (c_rt (core w1)) (t2_timer_val E) (c_heap (core w1))"])
              (simp add: w2_def core_fold)
        qed
      qed
    qed
  qed
  then obtain h where h: "core w2 = (core w1)\<lparr>c_heap := h\<rparr>" "tsx_base ((core w1)\<lparr>c_flags := ?f, c_heap := h\<rparr>)"
    by blast
  have eq: "core (calling_timers E code w) = (core w1)\<lparr>c_flags := ?f, c_heap := h\<rparr>"
    unfolding calling_timers_def Let_def w1_def [symmetric] w2_def [symmetric] by (simp add: h)
  show "tsx_base (core (calling_timers E code w))" "same_tsx (core w) (core (calling_timers E code w))"
    "c_state (core (calling_timers E code w)) = c_state (core w)"
    using h(2) r(2,3) by (simp_all add: eq)
qed

context tsx_environment
begin

section \<open>Null\<close>

lemma null_step:
  assumes inv: "tsx_inv w" and st: "c_state (core w) = PJSIP_TSX_STATE_NULL"
  shows "step (core w) (fst (tsx_on_state_null E ev w))"
proof (cases "c_role (core w) = PJSIP_ROLE_UAS")
  case True
  have b: "tsx_base (core w)" "calm (core w)" using inv by (simp_all add: tsx_inv_def)
  have "calm ((core w)\<lparr>c_state := PJSIP_TSX_STATE_TRYING\<rparr>)"
    using b(2) st by (simp add: calm_def)
  then have "step (core w) (tsx_set_state E PJSIP_TSX_STATE_TRYING ev w)"
    using b st True by (intro set_state_step) (simp_all add: state_order)
  then show ?thesis using True by (simp add: tsx_on_state_null_def core_fold)
next
  case False
  then have uac: "c_role (core w) = PJSIP_ROLE_UAC" by (simp add: role_cases)
  have b: "tsx_base (core w)" "calm (core w)" using inv by (simp_all add: tsx_inv_def)
  define td where "td = ev_tdata ev"
  define v where "v = keep_last_tx td (discard_last_tx td w)"
  have cv: "core v = core w" by (simp add: v_def)
  obtain w1 status where s: "tsx_send_msg E td v = (w1, status)" by fastforce
  have ok: "sent_ok (core w) (core w1) status"
    using send_msg_ok [of v td w1 status] b s st by (simp add: cv core_fold state_order)
  have lt: "c_state (core w) < PJSIP_TSX_STATE_TERMINATED" using st by (simp add: state_order)
  note okD = sent_okD [OF ok lt]
  show ?thesis
  proof (cases "status = PJ_SUCCESS")
    case False
    then have "fst (tsx_on_state_null E ev w) = w1"
      using uac s by (simp add: tsx_on_state_null_def core_fold Let_def td_def [symmetric] v_def [symmetric])
    then show ?thesis using okD b by (simp add: step_def tsx_inv_def)
  next
    case True
    note q = okD(3) [OF True]
    define w2 where "w2 = start_timer (timeout_timer (tsx w1)) (timeout_timer_val E) w1"
    define w3 where "w3 = (if \<not> is_reliable (tsx w2) then start_retransmit t1_timer_val w2 else w2)"
    have i1: "\<not> pending (c_heap (core w1)) (c_to (core w1))" "\<not> pending (c_heap (core w1)) (c_rt (core w1))"
      using q okD(1,4) b st baseD(5) [OF okD(1)] by (auto simp: calm_def quiet_def same_tsx_def)
    note t = start_to [OF okD(1) i1(1) w2_def]
    have "held (core w2) (core w3)"
      using held_start_retransmit(1) [of w2] held_self [of "core w2"] t i1(2) same_tsxD [OF t(2)]
      by (simp add: w3_def)
    then have h: "tsx_base (core w3)" "same_tsx (core w) (core w3)" "c_state (core w3) = c_state (core w)"
      using q t by (auto simp: held_def quiet_def intro: same_trans)
    have "step (core w) (tsx_set_state E PJSIP_TSX_STATE_CALLING (PJSIP_EVENT_TX_MSG td) w3)"
      using h st uac same_tsxD [OF h(2)] advances_same [OF h(2,3)]
      by (intro set_state_step) (simp_all add: calm_def state_order)
    moreover have "fst (tsx_on_state_null E ev w) = tsx_set_state E PJSIP_TSX_STATE_CALLING (PJSIP_EVENT_TX_MSG td) w3"
      using uac s True
      by (simp add: tsx_on_state_null_def core_fold Let_def td_def [symmetric] v_def [symmetric] w3_def w2_def)
    ultimately show ?thesis by simp
  qed
qed

section \<open>Client\<close>

lemma uac_success_step:
  assumes b: "tsx_base (core w)" and uac: "c_role (core w) = PJSIP_ROLE_UAC"
    and st: "c_state (core w) \<le> PJSIP_TSX_STATE_PROCEEDING"
  shows "step (core w) (fst (uac_success E ev w))"
proof -
  define w1 where "w1 = pjsip_endpt_cancel_timer (timeout_timer (tsx w)) w"
  note c = cancel_to [OF b w1_def]
  show ?thesis
  proof (cases "method_id (tsx_method (tsx w1)) = PJSIP_INVITE_METHOD")
    case True
    then have "fst (uac_success E ev w) = tsx_set_state E PJSIP_TSX_STATE_TERMINATED ev w1"
      by (simp add: uac_success_def Let_def w1_def [symmetric])
    then show ?thesis using end_step [OF c(1) advances_same [OF c(2,3)]] c(3) st by (simp add: state_order)
  next
    case False
    define w2 where "w2 = start_timer (timeout_timer (tsx w1)) (timer_d_or_k E (tsx w1)) w1"
    define w3 where "w3 = stop_timer (retransmit_timer (tsx w2)) w2"
    have eq: "fst (uac_success E ev w) = tsx_set_state E PJSIP_TSX_STATE_COMPLETED ev w3"
      using False by (simp add: uac_success_def Let_def w1_def [symmetric] w2_def w3_def)
    note t = start_to [OF c(1) _ w2_def]
    have i: "\<not> pending (c_heap (core w1)) (c_to (core w1))" using c(5) same_tsxD [OF c(2)] by simp
    note r = stop_rt [OF t(1) [OF i] w3_def]
    have s: "same_tsx (core w) (core w3)" "c_state (core w3) = c_state (core w)"
      using same_trans [OF c(2) same_trans [OF t(2) [OF i] r(2)]] c(3) t(3) [OF i] r(3) by simp_all
    show ?thesis
      unfolding eq using r(1) s uac st same_tsxD [OF s(1)] advances_same [OF s]
      by (intro set_state_step) (simp_all add: state_order)
  qed
qed

lemma send_ack_ok:
  assumes b: "tsx_base (core w)" and st: "c_state (core w) < PJSIP_TSX_STATE_TERMINATED"
    and r: "send_ack E rdata w = (w', status, ack)"
  shows "sent_ok (core w) (core w') status"
proof -
  obtain s a d where ca: "create_ack E w (last_tx (tsx w)) rdata = (s, a, d)" by (metis prod_cases3)
  show ?thesis
  proof (cases "s = PJ_SUCCESS")
    case False
    then show ?thesis using r ca b by (auto simp: send_ack_def sent_ok_def)
  next
    case True
    let ?v = "upd_tdata a (\<lambda>_. d) w"
    obtain m where m: "core ?v = (core w)\<lparr>c_mod := m\<rparr>" using core_upd_any by blast
    have "tsx_send_msg E a ?v = (w', status)"
      using r ca True by (auto simp: send_ack_def split: prod.splits)
    then have "sent_ok (core ?v) (core w') status"
      using b st by (intro send_msg_ok) (simp_all add: m core_fold)
    then show ?thesis unfolding m by (rule sent_ok_mod)
  qed
qed

lemma late_timer:
  assumes inv: "tsx_inv w" and late: "PJSIP_TSX_STATE_COMPLETED \<le> c_state (core w)"
  shows "step (core w) (start_timer (timeout_timer (tsx w)) d
    (if entry_id w (timeout_timer (tsx w)) \<noteq> 0
     then pjsip_endpt_cancel_timer (timeout_timer (tsx w)) w else w))"
proof -
  let ?v = "if entry_id w (timeout_timer (tsx w)) \<noteq> 0
     then pjsip_endpt_cancel_timer (timeout_timer (tsx w)) w else w"
  have b: "tsx_base (core w)" using inv by (simp add: tsx_inv_def)
  have e: "entry_id w (timeout_timer (tsx w)) = ids (c_heap (core w)) (c_to (core w))"
    by (simp add: core_def)
  have v: "tsx_base (core ?v)" "same_tsx (core w) (core ?v)" "c_state (core ?v) = c_state (core w)"
    "\<not> pending (c_heap (core ?v)) (c_to (core w))" "timeout_timer (tsx ?v) = timeout_timer (tsx w)"
    using cancel_to [OF b refl] b baseD(5) [OF b] e same_tsxD(7) [OF cancel_to(2) [OF b refl]]
    by (auto simp: core_fold)
  have "\<not> pending (c_heap (core ?v)) (c_to (core ?v))" using v(4) same_tsxD(7) [OF v(2)] by simp
  note t = start_to [OF v(1) this refl, of d]
  have s: "same_tsx (core w) (core (start_timer (timeout_timer (tsx ?v)) d ?v))"
    "c_state (core (start_timer (timeout_timer (tsx ?v)) d ?v)) = c_state (core w)"
    using same_trans [OF v(2) t(2)] t(3) v(3) by simp_all
  show ?thesis
    using t(1) s late unfolding v(5) step_def tsx_inv_def by (simp add: advances_same)
qed

text \<open>The timers are stopped in another order: the mark goes first.\<close>

lemma mark_and_cancel:
  assumes b: "tsx_base (core w)"
    and w'_def: "w' = pjsip_endpt_cancel_timer (timeout_timer (tsx w)) (set_entry_id (timeout_timer (tsx w)) 0 w)"
  shows "tsx_base (core w')" "same_tsx (core w) (core w')" "c_state (core w') = c_state (core w)"
proof -
  let ?c = "core w"
  have eq: "core w' = ?c\<lparr>c_heap := heap_cancel (c_to ?c) (set_te_id (c_heap ?c) (c_to ?c) 0)\<rparr>"
    by (simp add: w'_def core_fold)
  note i = heap_set_id [OF baseD(1) [OF b], of "c_to ?c" 0]
  note h = heap_cancel [OF i(1), of "c_to ?c"]
  show "tsx_base (core w')"
    unfolding eq using baseD [OF b] by (intro base_heap [OF b h(1)]) (simp_all add: h i)
  show "same_tsx ?c (core w')" "c_state (core w') = c_state ?c" by (simp_all add: eq)
qed

lemma uac_failure_step:
  assumes b: "tsx_base (core w)" and uac: "c_role (core w) = PJSIP_ROLE_UAC"
    and st: "c_state (core w) \<noteq> PJSIP_TSX_STATE_NULL" "c_state (core w) \<le> PJSIP_TSX_STATE_PROCEEDING"
  shows "step (core w) (fst (uac_failure E rdata w))"
proof -
  define inv where "inv = (method_id (tsx_method (tsx w)) = PJSIP_INVITE_METHOD)"
  define w1 where "w1 = stop_timer (retransmit_timer (tsx w)) w"
  define w2 where "w2 = pjsip_endpt_cancel_timer (timeout_timer (tsx w1)) (set_entry_id (timeout_timer (tsx w1)) 0 w1)"
  obtain w3 status ack where s3: "(if inv then send_ack E rdata w2 else (w2, PJ_SUCCESS, 0)) = (w3, status, ack)"
    by (metis prod_cases3)
  note r = stop_rt [OF b w1_def]
  note k = mark_and_cancel [OF r(1) w2_def]
  have s2: "same_tsx (core w) (core w2)" "c_state (core w2) = c_state (core w)"
    using same_trans [OF r(2) k(2)] r(3) k(3) by simp_all
  have lt: "c_state (core w2) < PJSIP_TSX_STATE_TERMINATED" using s2 st by (simp add: state_order)
  have ok: "sent_ok (core w2) (core w3) status"
  proof (cases inv)
    case True
    then show ?thesis using s3 send_ack_ok [OF k(1) lt] by simp
  next
    case False
    then show ?thesis using s3 k(1) by (simp add: sent_ok_def)
  qed
  note okD = sent_okD [OF ok lt]
  have adv: "advances (core w) (core w3)" using advances_same [OF s2] okD(2) by (rule advances_trans)
  show ?thesis
  proof (cases "status = PJ_SUCCESS")
    case False
    then have "fst (uac_failure E rdata w) = w3"
      using s3 unfolding uac_failure_def Let_def inv_def [symmetric] w1_def [symmetric] w2_def [symmetric]
      by simp
    moreover have "calm (core w3)"
      using adv uac st by (intro calm_client) (auto simp: advances_def same_tsx_def state_order)
    ultimately show ?thesis using okD(1) adv by (simp add: step_def tsx_inv_def)
  next
    case True
    note q = okD(3) [OF True]
    define w4 where "w4 = tsx_set_state E PJSIP_TSX_STATE_COMPLETED (PJSIP_EVENT_RX_MSG rdata) w3"
    define w5 where "w5 = (if inv \<and> last_tx (tsx w4) \<noteq> Some ack
                    then upd_tsx (\<lambda>t. t\<lparr>last_tx := Some ack\<rparr>)
                           (pjsip_tx_data_dec_ref (the (last_tx (tsx w4))) w4)
                    else w4)"
    have st3: "c_state (core w3) = c_state (core w)" "c_role (core w3) = PJSIP_ROLE_UAC"
      using q s2 uac by (simp_all add: quiet_def same_tsx_def)
    have pre: "tsx_base (core w3)" "state (tsx w3) \<le> PJSIP_TSX_STATE_COMPLETED"
      "handled (role (tsx w3)) PJSIP_TSX_STATE_COMPLETED"
      "calm ((core w3)\<lparr>c_state := PJSIP_TSX_STATE_COMPLETED\<rparr>)"
      "PJSIP_TSX_STATE_COMPLETED < PJSIP_TSX_STATE_TERMINATED"
      using okD(1) st3 st by (simp_all add: core_fold state_order)
    note m = set_state_ok [OF pre, of "PJSIP_EVENT_RX_MSG rdata", folded w4_def]
    have c5: "core w5 = core w4" by (simp add: w5_def)
    have i5: "tsx_inv w5" using m(1) by (simp add: tsx_inv_def c5)
    have late: "PJSIP_TSX_STATE_COMPLETED \<le> c_state (core w5)" using m(3) by (simp add: c5 core_fold)
    have "fst (uac_failure E rdata w) = start_timer (timeout_timer (tsx w5)) (timer_d_or_k E (tsx w5))
        (if entry_id w5 (timeout_timer (tsx w5)) \<noteq> 0
         then pjsip_endpt_cancel_timer (timeout_timer (tsx w5)) w5 else w5)"
      unfolding uac_failure_def Let_def inv_def [symmetric] w1_def [symmetric] w2_def [symmetric]
      by (simp only: s3 True prod.case simp_thms if_False fst_conv w4_def [symmetric] w5_def [symmetric])
    moreover have "step (core w) w5" using i5 advances_trans [OF adv m(2)] by (simp add: step_def c5)
    ultimately show ?thesis using step_trans late_timer [OF i5 late] by simp
  qed
qed

text \<open>The common tail, from Calling or Proceeding.\<close>

lemma dispatch_step:
  assumes b: "tsx_base (core w)" and uac: "c_role (core w) = PJSIP_ROLE_UAC"
    and st: "c_state (core w) \<noteq> PJSIP_TSX_STATE_NULL" "c_state (core w) \<le> PJSIP_TSX_STATE_PROCEEDING"
  shows "step (core w) (fst (uac_dispatch E ev w))"
proof -
  have cal: "calm (core w)" using calm_client uac st(1) by simp
  have self: "step (core w) w" using b cal by (simp add: step_def tsx_inv_def)
  have pro: "step (core w) (tsx_set_state E PJSIP_TSX_STATE_PROCEEDING ev w)"
    using b uac st by (intro set_state_step calm_client) (simp_all add: state_order)
  have ter: "step (core w) (tsx_set_state E PJSIP_TSX_STATE_TERMINATED ev w)"
    using b st by (intro end_step) (simp_all add: state_order)
  show ?thesis
    unfolding uac_dispatch_def
    using self pro ter uac_success_step [OF b uac st(2)] uac_failure_step [OF b uac st]
    by (auto split: pjsip_event.split)
qed

lemma proceeding_uac_step:
  assumes b: "tsx_base (core w)" and uac: "c_role (core w) = PJSIP_ROLE_UAC"
    and st: "c_state (core w) \<noteq> PJSIP_TSX_STATE_NULL" "c_state (core w) \<le> PJSIP_TSX_STATE_PROCEEDING"
    and ev: "event_ok (core w) ev"
  shows "step (core w) (fst (tsx_on_state_proceeding_uac E ev w))"
proof -
  have inv: "tsx_inv w" using b calm_client uac st(1) by (simp add: tsx_inv_def)
  have self: "step (core w) w" using inv by (rule step_self)
  have d: "step (core w) (fst (uac_dispatch E ev (tsx_set_status_code c w)))" for c
    using dispatch_step [of "tsx_set_status_code c w" ev] b uac st by simp
  have r: "step (core w) (fst (tsx_retransmit E True w))" if "ev = PJSIP_EVENT_TIMER (retransmit_timer (tsx w))"
    using that ev inv st by (intro retransmit_step) (simp_all add: event_ok_def core_fold state_order)
  show ?thesis
    unfolding tsx_on_state_proceeding_uac_def using self d r by (auto split: pjsip_event.split)
qed

lemma calling_step:
  assumes inv: "tsx_inv w" and uac: "c_role (core w) = PJSIP_ROLE_UAC"
    and st: "c_state (core w) = PJSIP_TSX_STATE_CALLING" and ev: "event_ok (core w) ev"
  shows "step (core w) (fst (tsx_on_state_calling E ev w))"
proof -
  have b: "tsx_base (core w)" using inv by (simp add: tsx_inv_def)
  have self: "step (core w) w" using inv by (rule step_self)
  have r: "step (core w) (fst (tsx_retransmit E True w))" if "ev = PJSIP_EVENT_TIMER (retransmit_timer (tsx w))"
    using that ev inv st by (intro retransmit_step) (simp_all add: event_ok_def core_fold state_order)
  have t: "step (core w) (calling_timeout E w)"
  proof -
    define w1 where "w1 = stop_timer (retransmit_timer (tsx w)) w"
    define w2 where "w2 = tsx_set_status_code PJSIP_SC_TSX_TIMEOUT (clear_flag TSX_HAS_PENDING_RESCHED w1)"
    note r = stop_rt [OF b w1_def]
    have "core w2 = (core w1)\<lparr>c_flags := c_flags (core w1) - {TSX_HAS_PENDING_RESCHED}\<rparr>"
      by (simp add: w2_def)
    moreover have "tsx_base ((core w1)\<lparr>c_flags := c_flags (core w1) - {TSX_HAS_PENDING_RESCHED}\<rparr>)"
      using flagsD [OF r(1)] by (intro base_flags [OF r(1)]) auto
    ultimately have "step (core w) (tsx_set_state E PJSIP_TSX_STATE_TERMINATED
        (PJSIP_EVENT_TIMER (timeout_timer (tsx w2))) w2)"
      using r(2,3) st by (intro end_step advances_same) (simp_all add: state_order)
    then show ?thesis unfolding calling_timeout_def Let_def w1_def [symmetric] w2_def [symmetric] .
  qed
  have p: "step (core w) (fst (tsx_on_state_proceeding_uac E ev (calling_timers E code w)))"
    if "ev = PJSIP_EVENT_RX_MSG rdata" for code rdata
  proof -
    note k = calling_timers_ok [OF b, of E code]
    have "step (core (calling_timers E code w)) (fst (tsx_on_state_proceeding_uac E ev (calling_timers E code w)))"
      using k same_tsxD [OF k(2)] uac st that
      by (intro proceeding_uac_step) (simp_all add: state_order event_ok_def)
    then show ?thesis using advances_same [OF k(2,3)] advances_trans unfolding step_def by blast
  qed
  show ?thesis
    unfolding tsx_on_state_calling_def using self r t p by (auto split: pjsip_event.split)
qed

section \<open>Server\<close>

lemma held_step:
  "tsx_inv w \<Longrightarrow> held (core w) (core v) \<Longrightarrow> c_state (core w) \<noteq> PJSIP_TSX_STATE_NULL \<Longrightarrow> step (core w) v"
  using held_calm held_advances by (auto simp: step_def tsx_inv_def held_def)

lemma uas_provisional_step:
  assumes inv: "tsx_inv w" and uas: "c_role (core w) = PJSIP_ROLE_UAS"
    and st: "c_state (core w) \<noteq> PJSIP_TSX_STATE_NULL" "c_state (core w) \<le> PJSIP_TSX_STATE_PROCEEDING"
  shows "step (core w) (uas_provisional E td w)"
proof -
  define w1 where "w1 = keep_last_tx td w"
  define w2 where "w2 = tsx_set_state E PJSIP_TSX_STATE_PROCEEDING (PJSIP_EVENT_TX_MSG td) w1"
  have c1: "core w1 = core w" by (simp add: w1_def)
  have pre: "tsx_base (core w1)" "state (tsx w1) \<le> PJSIP_TSX_STATE_PROCEEDING"
    "handled (role (tsx w1)) PJSIP_TSX_STATE_PROCEEDING"
    "calm ((core w1)\<lparr>c_state := PJSIP_TSX_STATE_PROCEEDING\<rparr>)"
    "PJSIP_TSX_STATE_PROCEEDING < PJSIP_TSX_STATE_TERMINATED"
    using inv uas st by (simp_all add: c1 tsx_inv_def core_fold calm_def state_order)
  note m = set_state_ok [OF pre, of "PJSIP_EVENT_TX_MSG td", folded w2_def]
  have s2: "step (core w) w2" using m(1,2) by (simp add: step_def c1)
  have nn: "c_state (core w2) \<noteq> PJSIP_TSX_STATE_NULL" using m(3) by (auto simp: core_fold state_order)
  let ?v = "stop_timer (retransmit_timer (tsx w2)) w2"
  have b2: "tsx_base (core w2)" using m(1) by (simp add: tsx_inv_def)
  have h: "held (core w2) (core ?v)" by (rule held_stop_rt [OF b2])
  have "held (core ?v) (core (start_retransmit d ?v))" for d
    using stop_rt(1) [OF b2 refl] idle_stop_rt [OF b2] same_tsxD(6) [OF stop_rt(2) [OF b2 refl]]
    by (intro held_start_retransmit(1)) metis+
  then have "step (core w2) (start_retransmit d ?v)" for d
    using held_step [OF m(1) held_trans [OF h] nn] by blast
  then have "step (core w) (start_retransmit d ?v)" for d using step_trans [OF s2] by blast
  then show ?thesis using s2 unfolding uas_provisional_def Let_def w1_def [symmetric] w2_def [symmetric]
    by (simp only: if_split simp_thms)
qed

text \<open>The retransmission and the timeout timers of a server that sent its final response.\<close>

lemma uas_final_step:
  assumes b: "tsx_base (core w)" and uas: "c_role (core w) = PJSIP_ROLE_UAS"
    and h: "held (core w) (core v)" and i: "\<not> pending (c_heap (core v)) (c_to (core w))"
    and st: "c_state (core w) \<le> PJSIP_TSX_STATE_PROCEEDING"
  shows "step (core w) (tsx_set_state E PJSIP_TSX_STATE_COMPLETED ev (start_timer (timeout_timer (tsx v)) d v))"
    "\<And>v'. held (core (start_timer (timeout_timer (tsx v)) d v)) (core v') \<Longrightarrow>
       step (core w) (tsx_set_state E PJSIP_TSX_STATE_COMPLETED ev v')"
proof -
  have hv: "tsx_base (core v)" "same_tsx (core w) (core v)" "c_state (core v) = c_state (core w)"
    using h by (simp_all add: held_def)
  have "\<not> pending (c_heap (core v)) (c_to (core v))" using i same_tsxD [OF hv(2)] by simp
  note t = start_to [OF hv(1) this refl, of d]
  show f: "step (core w) (tsx_set_state E PJSIP_TSX_STATE_COMPLETED ev v')"
    if "held (core (start_timer (timeout_timer (tsx v)) d v)) (core v')" for v'
  proof -
    have s: "same_tsx (core w) (core v')" "c_state (core v') = c_state (core w)" "tsx_base (core v')"
      using that same_trans [OF hv(2) same_trans [OF t(2)]] t(3) hv(3) unfolding held_def by simp_all
    show ?thesis
      using s uas st same_tsxD [OF s(1)] advances_same [OF s(1,2)]
      by (intro set_state_step) (simp_all add: state_order)
  qed
  show "step (core w) (tsx_set_state E PJSIP_TSX_STATE_COMPLETED ev (start_timer (timeout_timer (tsx v)) d v))"
    by (rule f [OF held_self [OF t(1)]])
qed

lemma uas_success_step:
  assumes b: "tsx_base (core w)" and uas: "c_role (core w) = PJSIP_ROLE_UAS"
    and i: "ids (c_heap (core w)) (c_to (core w)) = 0"
    and st: "c_state (core w) \<le> PJSIP_TSX_STATE_PROCEEDING"
  shows "step (core w) (uas_success E td w)"
proof -
  define w1 where "w1 = stop_timer (retransmit_timer (tsx w)) w"
  define w2 where "w2 = (if method_id (tsx_method (tsx w1)) = PJSIP_INVITE_METHOD
    then start_retransmit t1_timer_val w1 else w1)"
  define w3 where "w3 = keep_last_tx td w2"
  note r = stop_rt [OF b w1_def]
  have h1: "held (core w) (core w1)" unfolding w1_def by (rule held_stop_rt [OF b])
  have idle: "\<not> pending (c_heap (core w)) (c_to (core w))" using baseD(5) [OF b] i by blast
  show ?thesis
  proof (cases "method_id (tsx_method (tsx w1)) = PJSIP_INVITE_METHOD \<and> \<not> handle_200resp (tsx w1)")
    case True
    then have "uas_success E td w = tsx_set_state E PJSIP_TSX_STATE_TERMINATED (PJSIP_EVENT_TX_MSG td) w1"
      unfolding uas_success_def Let_def w1_def [symmetric] by simp
    then show ?thesis using end_step [OF r(1) held_advances [OF h1]] r(3) st by (simp add: state_order)
  next
    case False
    then have eq: "uas_success E td w = tsx_set_state E PJSIP_TSX_STATE_COMPLETED (PJSIP_EVENT_TX_MSG td)
        (start_timer (timeout_timer (tsx w3)) (timer_h_or_j E (tsx w3)) w3)"
      unfolding uas_success_def Let_def w1_def [symmetric] w2_def [symmetric] w3_def [symmetric]
      by (rule if_not_P)
    have ir: "\<not> pending (c_heap (core w1)) (c_rt (core w1))" using r(6) same_tsxD(6) [OF r(2)] by simp
    have "held (core w1) (core w3) \<and>
      pending (c_heap (core w3)) (c_to (core w1)) = pending (c_heap (core w1)) (c_to (core w1))"
      using held_start_retransmit [OF r(1) ir] held_self [OF r(1)] by (simp add: w3_def w2_def)
    then have "held (core w) (core w3)" "\<not> pending (c_heap (core w3)) (c_to (core w))"
      using held_trans [OF h1] r(4) idle same_tsxD(7) [OF r(2)] by auto
    then show ?thesis unfolding eq by (rule uas_final_step(1) [OF b uas _ _ st])
  qed
qed

lemma uas_failure_step:
  assumes b: "tsx_base (core w)" and uas: "c_role (core w) = PJSIP_ROLE_UAS"
    and i: "ids (c_heap (core w)) (c_to (core w)) = 0"
    and st: "c_state (core w) \<le> PJSIP_TSX_STATE_PROCEEDING"
  shows "step (core w) (uas_failure E td w)"
proof -
  define w1 where "w1 = keep_last_tx td (stop_timer (retransmit_timer (tsx w)) w)"
  define w2 where "w2 = start_timer (timeout_timer (tsx w1)) (timer_h_or_j E (tsx w1)) w1"
  define w3 where "w3 = (if \<not> is_reliable (tsx w2) \<and>
      method_id (cseq_method (the (tx_cseq (tdatas w2 td)))) = PJSIP_INVITE_METHOD
    then start_retransmit t1_timer_val w2 else w2)"
  have eq: "uas_failure E td w = tsx_set_state E PJSIP_TSX_STATE_COMPLETED (PJSIP_EVENT_TX_MSG td) w3"
    unfolding uas_failure_def Let_def w1_def [symmetric] w2_def [symmetric] w3_def [symmetric] by simp
  have c1: "core w1 = core (stop_timer (retransmit_timer (tsx w)) w)" by (simp add: w1_def)
  note r = stop_rt [OF b refl, folded c1]
  have h1: "held (core w) (core w1)" unfolding c1 by (rule held_stop_rt [OF b])
  have idle: "\<not> pending (c_heap (core w1)) (c_to (core w))" using baseD(5) [OF b] i r(4) by blast
  then have "\<not> pending (c_heap (core w1)) (c_to (core w1))" using same_tsxD(7) [OF r(2)] by simp
  note t = start_to [OF r(1) this w2_def]
  have ir: "\<not> pending (c_heap (core w2)) (c_rt (core w2))"
    using r(6) t(4) same_tsxD(6) [OF r(2)] same_tsxD(6) [OF t(2)] by simp
  have "held (core w2) (core w3)"
    using held_start_retransmit [OF t(1) ir] held_self [OF t(1)] by (simp add: w3_def)
  then show ?thesis
    unfolding eq
    by (rule uas_final_step(2) [OF b uas h1 idle st, where d = "timer_h_or_j E (tsx w1)", folded w2_def])
qed

lemma uas_respond_step:
  assumes inv: "tsx_inv w" and uas: "c_role (core w) = PJSIP_ROLE_UAS"
    and st: "c_state (core w) \<noteq> PJSIP_TSX_STATE_NULL" "c_state (core w) \<le> PJSIP_TSX_STATE_PROCEEDING"
  shows "step (core w) (fst (uas_respond E td w))"
proof -
  define v where "v = discard_last_tx td (tsx_set_status_code (tx_code (tdatas w td)) w)"
  have cv: "core v = core w" by (simp add: v_def)
  have b: "tsx_base (core w)" "calm (core w)" using inv by (simp_all add: tsx_inv_def)
  obtain w1 status where s: "tsx_send_msg E td v = (w1, status)" by fastforce
  have lt: "c_state (core w) < PJSIP_TSX_STATE_TERMINATED" using st by (simp add: state_order)
  have ok: "sent_ok (core w) (core w1) status"
    using send_msg_ok [of v td w1 status] b s lt by (simp add: cv core_fold)
  note okD = sent_okD [OF ok lt]
  have s1: "step (core w) w1" using okD b by (simp add: step_def tsx_inv_def)
  have r: "fst (uas_respond E td w) = (if status \<noteq> PJ_SUCCESS then w1
      else if PJSIP_IS_STATUS_IN_CLASS (status_code (tsx w1)) 100 then uas_provisional E td w1
              else if PJSIP_IS_STATUS_IN_CLASS (status_code (tsx w1)) 200 then uas_success E td w1
              else if status_code (tsx w1) \<ge> 300 then uas_failure E td w1
              else w1)"
    unfolding uas_respond_def Let_def v_def [symmetric] s by simp
  show ?thesis
  proof (cases "status = PJ_SUCCESS")
    case False
    then show ?thesis using s1 by (simp add: r)
  next
    case True
    note q = okD(3) [OF True]
    have st1: "c_state (core w1) = c_state (core w)" "c_role (core w1) = PJSIP_ROLE_UAS"
      using q uas by (simp_all add: quiet_def same_tsx_def)
    have i1: "tsx_inv w1" using s1 by (simp add: step_def)
    have "ids (c_heap (core w)) (c_to (core w)) = 0"
      using b(2) uas st by (simp add: calm_def)
    then have z: "ids (c_heap (core w1)) (c_to (core w1)) = 0"
      using q by (auto simp: quiet_def same_tsx_def)
    have "step (core w1) (uas_provisional E td w1)" "step (core w1) (uas_success E td w1)"
      "step (core w1) (uas_failure E td w1)"
      using uas_provisional_step uas_success_step uas_failure_step i1 z st1 st okD(1) by simp_all
    then show ?thesis using s1 step_trans [OF s1] by (simp add: r)
  qed
qed

lemma uas_resend_step:
  assumes inv: "tsx_inv w" and st: "c_state (core w) < PJSIP_TSX_STATE_TERMINATED"
  shows "step (core w) (fst (uas_resend E w))"
proof (cases "has_flag w TSX_HAS_PENDING_TRANSPORT")
  case True
  have b: "tsx_base (core w)" "calm (core w)" using inv by (simp_all add: tsx_inv_def)
  have eq: "core (fst (uas_resend E w)) = (core w)\<lparr>c_flags := insert TSX_HAS_PENDING_SEND (c_flags (core w))\<rparr>"
    using True by (simp add: uas_resend_def)
  have "tsx_base (core (fst (uas_resend E w)))"
    unfolding eq using True flagsD [OF b(1)] by (intro base_flags [OF b(1)]) (auto simp: core_fold)
  moreover have "calm (core (fst (uas_resend E w)))" using b(2) by (simp add: eq calm_def)
  ultimately show ?thesis by (simp add: step_def tsx_inv_def advances_same eq)
next
  case False
  then show ?thesis using send_step [OF inv st] by (simp add: uas_resend_def)
qed

lemma proceeding_uas_step:
  assumes inv: "tsx_inv w" and uas: "c_role (core w) = PJSIP_ROLE_UAS"
    and st: "c_state (core w) \<noteq> PJSIP_TSX_STATE_NULL" "c_state (core w) \<le> PJSIP_TSX_STATE_PROCEEDING"
    and ev: "event_ok (core w) ev"
  shows "step (core w) (fst (tsx_on_state_proceeding_uas E ev w))"
proof -
  have lt: "c_state (core w) < PJSIP_TSX_STATE_TERMINATED" using st by (simp add: state_order)
  have self: "step (core w) w" using inv by (rule step_self)
  have r: "step (core w) (fst (tsx_retransmit E True w))" if "ev = PJSIP_EVENT_TIMER (retransmit_timer (tsx w))"
    using that ev inv st lt by (intro retransmit_step) (simp_all add: event_ok_def core_fold)
  have t: "step (core w) (tsx_set_state E PJSIP_TSX_STATE_TERMINATED e (tsx_set_status_code c w))" for e c
    using inv st by (intro end_step) (simp_all add: tsx_inv_def state_order)
  show ?thesis
    unfolding tsx_on_state_proceeding_uas_def
    using self r t uas_resend_step [OF inv lt] uas_respond_step [OF inv uas st]
    by (auto split: pjsip_event.split)
qed

lemma trying_step:
  assumes inv: "tsx_inv w" and uas: "c_role (core w) = PJSIP_ROLE_UAS"
    and st: "c_state (core w) = PJSIP_TSX_STATE_TRYING" and ev: "event_ok (core w) ev"
  shows "step (core w) (fst (tsx_on_state_trying E ev w))"
proof -
  obtain w1 status where s: "tsx_on_state_proceeding_uas E ev w = (w1, status)" by fastforce
  have s1: "step (core w) w1"
    using proceeding_uas_step [OF inv uas _ _ ev] st s by (simp add: state_order)
  have "step (core w) (tsx_set_state E PJSIP_TSX_STATE_PROCEEDING (PJSIP_EVENT_TX_MSG td) w1)"
    if "state (tsx w1) = PJSIP_TSX_STATE_TRYING" for td
    using s1 that uas by (intro set_state_step)
      (auto simp: step_def tsx_inv_def core_fold advances_def same_tsx_def calm_def state_order)
  then show ?thesis
    unfolding tsx_on_state_trying_def using s1 s step_self [OF inv] by (auto split: pjsip_event.split)
qed

section \<open>Completed, Confirmed, Terminated\<close>

lemma uas_ack_step:
  assumes inv: "tsx_inv w" and uas: "c_role (core w) = PJSIP_ROLE_UAS"
    and st: "c_state (core w) = PJSIP_TSX_STATE_COMPLETED"
  shows "step (core w) (fst (uas_ack E ev w))"
proof (cases "method_id (tsx_method (tsx w)) = PJSIP_INVITE_METHOD")
  case False
  then show ?thesis using step_self [OF inv] by (simp add: uas_ack_def)
next
  case True
  have b: "tsx_base (core w)" using inv by (simp add: tsx_inv_def)
  define w1 where "w1 = stop_timer (retransmit_timer (tsx w)) w"
  define w2 where "w2 = clear_flag TSX_HAS_PENDING_RESCHED w1"
  define w3 where "w3 = pjsip_endpt_cancel_timer (timeout_timer (tsx w2)) w2"
  define w4 where "w4 = start_timer (timeout_timer (tsx w3)) (timer_i E (tsx w3)) w3"
  have eq: "fst (uas_ack E ev w) = tsx_set_state E PJSIP_TSX_STATE_CONFIRMED ev w4"
    using True by (simp add: uas_ack_def Let_def w1_def w2_def w3_def w4_def)
  note r = stop_rt [OF b w1_def]
  have "tsx_base ((core w1)\<lparr>c_flags := c_flags (core w1) - {TSX_HAS_PENDING_RESCHED}\<rparr>)"
    using flagsD [OF r(1)] by (intro base_flags [OF r(1)]) auto
  then have b2: "tsx_base (core w2)" "same_tsx (core w) (core w2)" "c_state (core w2) = c_state (core w)"
    using r(2,3) by (simp_all add: w2_def)
  note c = cancel_to [OF b2(1) w3_def]
  have "\<not> pending (c_heap (core w3)) (c_to (core w3))" using c(5) same_tsxD(7) [OF c(2)] by simp
  note t = start_to [OF c(1) this w4_def]
  have s: "same_tsx (core w) (core w4)" "c_state (core w4) = c_state (core w)"
    using same_trans [OF b2(2) same_trans [OF c(2) t(2)]] b2(3) c(3) t(3) by simp_all
  show ?thesis
    unfolding eq using t(1) s st uas same_tsxD [OF s(1)] advances_same [OF s]
    by (intro set_state_step) (simp_all add: state_order)
qed

lemma completed_uas_step:
  assumes inv: "tsx_inv w" and uas: "c_role (core w) = PJSIP_ROLE_UAS"
    and st: "c_state (core w) = PJSIP_TSX_STATE_COMPLETED" and ev: "event_ok (core w) ev"
  shows "step (core w) (fst (tsx_on_state_completed_uas E ev w))"
proof -
  have self: "step (core w) w" using inv by (rule step_self)
  have r: "step (core w) (fst (tsx_retransmit E b w))"
    if "b \<Longrightarrow> ev = PJSIP_EVENT_TIMER (retransmit_timer (tsx w))" for b
    using that ev inv st by (intro retransmit_step) (auto simp: event_ok_def core_fold state_order)
  have t: "step (core w) (completed_timeout E w)"
    unfolding completed_timeout_def using inv st by (intro end_step) (simp_all add: tsx_inv_def state_order)
  show ?thesis
    unfolding tsx_on_state_completed_uas_def using self r t uas_ack_step [OF inv uas st]
    by (auto split: pjsip_event.split)
qed

lemma completed_uac_step:
  assumes inv: "tsx_inv w" and st: "c_state (core w) = PJSIP_TSX_STATE_COMPLETED"
  shows "step (core w) (fst (tsx_on_state_completed_uac E ev w))"
proof -
  have self: "step (core w) w" using inv by (rule step_self)
  have r: "step (core w) (fst (tsx_retransmit E False w))"
    using inv st by (intro retransmit_step) (auto simp: state_order)
  have t: "step (core w) (tsx_set_state E PJSIP_TSX_STATE_TERMINATED ev w)" for ev
    using inv st by (intro end_step) (simp_all add: tsx_inv_def state_order)
  show ?thesis
    unfolding tsx_on_state_completed_uac_def using self r t by (auto split: pjsip_event.split)
qed

lemma confirmed_step:
  assumes inv: "tsx_inv w" and st: "c_state (core w) = PJSIP_TSX_STATE_CONFIRMED"
  shows "step (core w) (fst (tsx_on_state_confirmed E ev w))"
proof -
  have self: "step (core w) w" using inv by (rule step_self)
  have t: "step (core w) (tsx_set_state E PJSIP_TSX_STATE_TERMINATED ev w)" for ev
    using inv st by (intro end_step) (simp_all add: tsx_inv_def state_order)
  show ?thesis
    unfolding tsx_on_state_confirmed_def using self t by (auto split: pjsip_event.split)
qed

section \<open>Dispatch\<close>

lemma call_handler_step:
  assumes inv: "tsx_inv w" and ev: "event_ok (core w) ev"
  shows "step (core w) (fst (call_handler E ev w))"
proof -
  have b: "tsx_base (core w)" using inv by (simp add: tsx_inv_def)
  have h: "c_handler (core w) = handler_of (c_role (core w)) (c_state (core w))"
    "handled (c_role (core w)) (c_state (core w))"
    using baseD(7) [OF b] by (simp_all add: handler_ok_def)
  have c: "call_handler E ev w = run_handler (the (handler_of (c_role (core w)) (c_state (core w)))) E ev w"
    by (simp add: call_handler_def core_fold h)
  have d: "step (core w) (tsx_set_state E PJSIP_TSX_STATE_DESTROYED ev w)"
    by (rule destroy_ok(1) [OF b refl])
  show ?thesis
  proof (cases "c_role (core w)")
    case PJSIP_ROLE_UAC
    then show ?thesis
      using h d step_self [OF inv] null_step [OF inv] calling_step [OF inv _ _ ev]
        proceeding_uac_step [OF b _ _ _ ev] completed_uac_step [OF inv] confirmed_step [OF inv]
      by (cases "c_state (core w)")
        (simp_all add: c handler_of_def tsx_on_state_terminated_def tsx_on_state_destroyed_def)
  next
    case PJSIP_ROLE_UAS
    then show ?thesis
      using h d step_self [OF inv] null_step [OF inv] trying_step [OF inv _ _ ev]
        proceeding_uas_step [OF inv _ _ _ ev] completed_uas_step [OF inv _ _ ev] confirmed_step [OF inv]
      by (cases "c_state (core w)")
        (simp_all add: c handler_of_def tsx_on_state_terminated_def tsx_on_state_destroyed_def)
  qed
qed

end

end
