(* ===== verification/Tsx_Entry.thy ===== *)
theory Tsx_Entry
  imports Tsx_Handle
begin

text \<open>
  The entry points of a transaction as a step relation: the timer callback, as the poll of the timer
  heap runs it on the entry at the root of the heap; the calls of the user; the reports of the
  transport; and anything other components do to the shared timer heap. All of them keep the
  invariant.
\<close>

section \<open>The timer\<close>

definition tsx_fire :: "tsx_env \<Rightarrow> tsx_world \<Rightarrow> tsx_world" where
  "tsx_fire E w =
     (let r = remove_node (theap w) 0 in tsx_timer_callback E (snd r) (w\<lparr>theap := fst r\<rparr>))"

text \<open>The world in which the handler of a timer event runs.\<close>

definition tsx_fired :: "tsx_world \<Rightarrow> tsx_world" where
  "tsx_fired w =
     lock_tsx (set_entry_id (heap (theap w) ! 0) 0 (w\<lparr>theap := fst (remove_node (theap w) 0)\<rparr>))"

definition root_timer :: "tsx_world \<Rightarrow> bool" where
  "root_timer w \<longleftrightarrow> cur_size (theap w) \<noteq> 0 \<and>
     (heap (theap w) ! 0 = retransmit_timer (tsx w) \<or> heap (theap w) ! 0 = timeout_timer (tsx w))"

lemma fire_unfold:
  assumes "th_inv (theap w)" "cur_size (theap w) \<noteq> 0"
  shows "tsx_fire E w =
    fst (unlock_tsx (fst (call_handler E (PJSIP_EVENT_TIMER (heap (theap w) ! 0)) (tsx_fired w))))"
  using remove_root(1) [OF assms] by (simp add: tsx_fire_def tsx_timer_callback_def tsx_fired_def Let_def)

lemma core_heap_update [simp]: "core (w\<lparr>theap := h\<rparr>) = (core w)\<lparr>c_heap := h\<rparr>"
  by (simp add: core_def)

lemma fired_heap:
  assumes h: "th_inv h" and ne: "cur_size h \<noteq> 0" and e: "e = heap h ! 0"
  shows "th_inv (set_te_id (fst (remove_node h 0)) e 0)"
    "pending (set_te_id (fst (remove_node h 0)) e 0) x \<longleftrightarrow> x \<noteq> e \<and> pending h x"
    "ids (set_te_id (fst (remove_node h 0)) e 0) x = (if x = e then 0 else ids h x)"
proof -
  note r = remove_root [OF h ne] remove_node_inv(5) [OF h, of 0]
  note i = heap_set_id [OF r(2), of e 0]
  show "th_inv (set_te_id (fst (remove_node h 0)) e 0)" by (rule i)
  show "pending (set_te_id (fst (remove_node h 0)) e 0) x \<longleftrightarrow> x \<noteq> e \<and> pending h x"
    unfolding i(4) unfolding pending_view r(5) by (simp add: e)
  show "ids (set_te_id (fst (remove_node h 0)) e 0) x = (if x = e then 0 else ids h x)"
    unfolding i(3) using r(6) ne by (simp add: e)
qed

lemma core_fired:
  "core (tsx_fired w) = (core w)\<lparr>c_heap :=
     set_te_id (fst (remove_node (c_heap (core w)) 0)) (heap (c_heap (core w)) ! 0) 0\<rparr>"
  by (simp add: tsx_fired_def core_fold)

lemma fired_ok:
  assumes inv: "tsx_inv w" and root: "root_timer w"
  shows "tsx_inv (tsx_fired w)" "advances (core w) (core (tsx_fired w))"
    "event_ok (core (tsx_fired w)) (PJSIP_EVENT_TIMER (heap (theap w) ! 0))"
    "same_tsx (core w) (core (tsx_fired w))" "c_state (core (tsx_fired w)) = c_state (core w)"
proof -
  let ?c = "core w" let ?e = "heap (c_heap ?c) ! 0"
  let ?h = "set_te_id (fst (remove_node (c_heap ?c) 0)) ?e 0"
  have b: "tsx_base ?c" "calm ?c" using inv by (simp_all add: tsx_inv_def)
  have ne: "cur_size (c_heap ?c) \<noteq> 0" and e: "?e = c_rt ?c \<or> ?e = c_to ?c"
    using root by (simp_all add: root_timer_def core_fold)
  note f = fired_heap [OF baseD(1) [OF b(1)] ne refl]
  have "pending (c_heap ?c) ?e" using root_pending(1) [OF baseD(1) [OF b(1)] ne] .
  then have nn: "c_state ?c \<noteq> PJSIP_TSX_STATE_NULL"
    using b e baseD(5) [OF b(1)] by (auto simp: calm_def)
  have "tsx_base (?c\<lparr>c_heap := ?h\<rparr>)"
    using baseD [OF b(1)] by (intro base_heap [OF b(1) f(1)]) (simp_all add: f)
  then show "tsx_inv (tsx_fired w)"
    using b(2) nn by (auto simp: tsx_inv_def core_fired calm_def f)
  show "advances ?c (core (tsx_fired w))" "same_tsx ?c (core (tsx_fired w))"
    "c_state (core (tsx_fired w)) = c_state ?c" by (simp_all add: core_fired advances_same)
  show "event_ok (core (tsx_fired w)) (PJSIP_EVENT_TIMER (heap (theap w) ! 0))"
    using e by (simp add: event_ok_def core_fired f core_fold)
qed

section \<open>The steps\<close>

text \<open>
  \<open>Report\<close> is a report of the stateless layer that comes after its call has returned; \<open>Others\<close> is
  what any other user of the timer heap does to it.
\<close>

inductive tsx_step :: "tsx_env \<Rightarrow> tsx_world \<Rightarrow> tsx_world \<Rightarrow> bool" for E where
  Fire: "root_timer w \<Longrightarrow> tsx_step E w (tsx_fire E w)"
| Send: "tsx_step E w (fst (pjsip_tsx_send_msg E td w))"
| Recv: "tsx_step E w (pjsip_tsx_recv_msg E rdata w)"
| Terminate: "tsx_step E w (fst (pjsip_tsx_terminate E code w))"
| Stop: "tsx_step E w (fst (pjsip_tsx_stop_retransmit w))"
| Timeout: "role (tsx w) = PJSIP_ROLE_UAC \<Longrightarrow> state (tsx w) \<noteq> PJSIP_TSX_STATE_NULL \<Longrightarrow>
    tsx_step E w (fst (pjsip_tsx_set_timeout millisec w))"
| Transport: "tsx_step E w (fst (pjsip_tsx_set_transport sel w))"
| Resend: "state (tsx w) < PJSIP_TSX_STATE_TERMINATED \<Longrightarrow>
    tsx_step E w (fst (pjsip_tsx_retransmit_no_state E td w))"
| Report: "state (tsx w) < PJSIP_TSX_STATE_TERMINATED \<or> tx_mod_data (tdatas w b) = None \<Longrightarrow>
    tsx_step E w (send_msg_callback E b a w)"
| Sent: "state (tsx w) \<le> PJSIP_TSX_STATE_TERMINATED \<Longrightarrow> tsx_step E w (transport_callback E b sent w)"
| Tp_state: "tsx_step E w (tsx_tp_state_callback E disconnected w)"
| Others: "th_inv h \<Longrightarrow> \<forall>e\<in>{retransmit_timer (tsx w), timeout_timer (tsx w)}.
      th_view h e = th_view (theap w) e \<and> te_id (nodes h e) = te_id (nodes (theap w) e) \<Longrightarrow>
    tsx_step E w (w\<lparr>theap := h\<rparr>)"

inductive_cases tsx_stepE: "tsx_step E w w'"

lemma locked_inv [simp]: "tsx_inv (lock_tsx w) = tsx_inv w" "tsx_inv (fst (unlock_tsx w)) = tsx_inv w"
  by (simp_all add: tsx_inv_def)

lemma step_locked [simp]: "step c (fst (unlock_tsx w)) = step c w"
  by (simp add: step_def)

lemma step_refs [simp]: "step c (pjsip_tx_data_dec_ref td w) = step c w"
  by (simp add: step_def tsx_inv_def)

lemma step_finish:
  assumes "step c (fst r)"
  shows "step c (fst (let (w, status) = r; w = fst (unlock_tsx w)
    in (if status = PJ_SUCCESS then pjsip_tx_data_dec_ref td w else w, status)))"
  using assms by (cases r) (simp add: Let_def)

context tsx_environment
begin

lemma fire_step:
  assumes inv: "tsx_inv w" and root: "root_timer w"
  shows "step (core w) (tsx_fire E w)"
proof -
  have "th_inv (theap w)" "cur_size (theap w) \<noteq> 0"
    using inv root baseD(1) [of "core w"] by (simp_all add: tsx_inv_def root_timer_def core_fold)
  note u = fire_unfold [OF this, of E]
  note f = fired_ok [OF inv root]
  have "step (core (tsx_fired w)) (tsx_fire E w)"
    using call_handler_step [OF f(1,3)] by (simp add: u)
  then show ?thesis using f(2) advances_trans unfolding step_def by blast
qed

lemma send_entry_step:
  assumes inv: "tsx_inv w"
  shows "step (core w) (fst (pjsip_tsx_send_msg E tdata w))"
proof -
  define td where "td = the (if tdata = None then last_tx (tsx w) else tdata)"
  define v where "v = pjsip_tx_data_set_transport td (tp_sel (tsx (lock_tsx w))) (lock_tsx w)"
  have cv: "core v = core w" by (simp add: v_def)
  have "step (core v) (fst (call_handler E (PJSIP_EVENT_TX_MSG td) v))"
    using inv by (intro call_handler_step) (simp_all add: tsx_inv_def cv event_ok_def)
  then have s: "step (core w) (fst (call_handler E (PJSIP_EVENT_TX_MSG td) v))" by (simp add: cv)
  have "pjsip_tsx_send_msg E tdata w =
      (let (w, status) = call_handler E (PJSIP_EVENT_TX_MSG td) v;
           w = fst (unlock_tsx w)
       in (if status = PJ_SUCCESS then pjsip_tx_data_dec_ref td w else w, status))"
    unfolding pjsip_tsx_send_msg_def Let_def td_def v_def by (simp only: assert_fails_off if_False)
  then show ?thesis by (simp only: step_finish [OF s])
qed

lemma recv_entry_step:
  assumes inv: "tsx_inv w"
  shows "step (core w) (pjsip_tsx_recv_msg E rdata w)"
  using call_handler_step [of "lock_tsx w" "PJSIP_EVENT_RX_MSG rdata"] inv
  by (simp add: pjsip_tsx_recv_msg_def Let_def event_ok_def)

lemma terminate_entry_step:
  assumes inv: "tsx_inv w"
  shows "step (core w) (fst (pjsip_tsx_terminate E code w))"
proof (cases "state (tsx w) \<ge> PJSIP_TSX_STATE_TERMINATED")
  case True
  then show ?thesis using step_self [OF inv] by (simp add: pjsip_tsx_terminate_def)
next
  case False
  then have "step (core w) (tsx_set_state E PJSIP_TSX_STATE_TERMINATED PJSIP_EVENT_USER
      (tsx_set_status_code code (lock_tsx w)))"
    using inv by (intro end_step) (simp_all add: tsx_inv_def core_fold)
  then show ?thesis using False by (simp add: pjsip_tsx_terminate_def Let_def)
qed

lemma stop_entry_step:
  assumes inv: "tsx_inv w"
  shows "step (core w) (fst (pjsip_tsx_stop_retransmit w))"
proof -
  let ?v = "stop_timer (retransmit_timer (tsx (lock_tsx w))) (lock_tsx w)"
  have b: "tsx_base (core w)" "calm (core w)" using inv by (simp_all add: tsx_inv_def)
  have cv: "core ?v = (core w)\<lparr>c_heap := heap_stop (c_rt (core w)) (c_heap (core w))\<rparr>"
    by (simp add: core_fold)
  note s = base_stop [OF b(1), of "c_rt (core w)"]
  have "calm (core ?v)" using b(2) s(2,3) baseD(2,3) [OF b(1)] unfolding cv by (simp add: calm_def)
  then have "step (core w) ?v"
    using s(1) unfolding step_def tsx_inv_def cv by (simp add: advances_same)
  then show ?thesis by (simp add: pjsip_tsx_stop_retransmit_def Let_def)
qed

lemma timeout_entry_step:
  assumes inv: "tsx_inv w" and uac: "role (tsx w) = PJSIP_ROLE_UAC"
    and st: "state (tsx w) \<noteq> PJSIP_TSX_STATE_NULL"
  shows "step (core w) (fst (pjsip_tsx_set_timeout millisec w))"
proof -
  let ?v = "stop_timer (timeout_timer (tsx w)) w"
  let ?d = "pj_time_val_normalize (Time_val 0 (int millisec))"
  let ?w = "start_timer (timeout_timer (tsx ?v)) ?d ?v"
  have b: "tsx_base (core w)" using inv by (simp add: tsx_inv_def)
  note s = base_stop [OF b, of "c_to (core w)"]
  have cv: "core ?v = (core w)\<lparr>c_heap := heap_stop (c_to (core w)) (c_heap (core w))\<rparr>"
    by (simp add: core_fold)
  have "tsx_base (core ?v)" "\<not> pending (c_heap (core ?v)) (c_to (core ?v))"
    using s unfolding cv by simp_all
  note t = start_to [OF this refl, of ?d]
  have k: "same_tsx (core w) (core ?w)" "c_state (core ?w) = c_state (core w)"
    using t(2,3) unfolding cv by simp_all
  have "calm (core ?w)"
    using k uac st by (intro calm_client) (simp_all add: core_fold same_tsx_def)
  then have "step (core w) ?w"
    using t(1) k by (simp add: step_def tsx_inv_def advances_same del: core_timer)
  then show ?thesis using step_self [OF inv] by (simp add: pjsip_tsx_set_timeout_def Let_def)
qed

lemma transport_error_step:
  assumes inv: "tsx_inv w" and v: "core v = core w" and st: "c_state (core w) \<le> PJSIP_TSX_STATE_TERMINATED"
  shows "step (core w) (transport_error E ev v)"
proof -
  let ?u = "tsx_set_status_code PJSIP_SC_TSX_TRANSPORT_ERROR v"
  have "core ?u = core w" by (simp add: v)
  then show ?thesis
    unfolding transport_error_def using inv st by (intro end_step) (simp_all add: tsx_inv_def)
qed

lemma resend_entry_step:
  assumes inv: "tsx_inv w" and st: "state (tsx w) < PJSIP_TSX_STATE_TERMINATED"
  shows "step (core w) (fst (pjsip_tsx_retransmit_no_state E tdata w))"
proof -
  define td where "td = the (if tdata = None then last_tx (tsx (lock_tsx w)) else tdata)"
  have "pjsip_tsx_retransmit_no_state E tdata w =
      (let (w, status) = tsx_send_msg E td (lock_tsx w);
           w = fst (unlock_tsx w)
       in (if status = PJ_SUCCESS then pjsip_tx_data_dec_ref td w else w, status))"
    unfolding pjsip_tsx_retransmit_no_state_def Let_def td_def ..
  then show ?thesis
  proof (simp only:, intro step_finish)
    show "step (core w) (fst (tsx_send_msg E td (lock_tsx w)))"
    using send_step [of "lock_tsx w" td] inv st by (simp add: core_fold)
  qed
qed

lemma report_step:
  assumes inv: "tsx_inv w"
    and st: "state (tsx w) < PJSIP_TSX_STATE_TERMINATED \<or> tx_mod_data (tdatas w b) = None"
  shows "step (core w) (send_msg_callback E b a w)"
proof (cases "tx_mod_data (tdatas w b)")
  case None
  then show ?thesis using step_self [OF inv] by (simp add: callback_ignored)
next
  case (Some x)
  then show ?thesis
    using callback_ok [of w "send_msg_callback E b a w" b a] inv st by (simp add: step_def tsx_inv_def)
qed

lemma sent_entry_step:
  assumes inv: "tsx_inv w" and st: "state (tsx w) \<le> PJSIP_TSX_STATE_TERMINATED"
  shows "step (core w) (transport_callback E b sent w)"
proof (cases sent)
  case (Inl n)
  then show ?thesis using step_self [OF inv] by (simp add: transport_callback_def)
next
  case (Inr err)
  let ?v = "tsx_update_transport None (lock_tsx (upd_tsx (\<lambda>t. t\<lparr>transport_err := err\<rparr>) w))"
  have cv: "core ?v = (core w)\<lparr>c_err := err\<rparr>" by simp
  have "tsx_inv ?v" using inv by (simp add: tsx_inv_def)
  moreover have "c_state (core ?v) \<le> PJSIP_TSX_STATE_TERMINATED" using st by (simp add: core_fold)
  ultimately have "step (core ?v) (transport_error E (PJSIP_EVENT_TRANSPORT_ERROR (Some b)) ?v)"
    by (intro transport_error_step) simp_all
  then show ?thesis
    by (simp add: transport_callback_def Inr Let_def step_def advances_def)
qed

lemma tp_state_step:
  assumes inv: "tsx_inv w"
  shows "step (core w) (tsx_tp_state_callback E disconnected w)"
  using step_self [OF inv] transport_error_step [OF inv, of "lock_tsx w"] inv
  by (simp add: tsx_tp_state_callback_def Let_def core_fold step_def)

lemma others_step:
  assumes inv: "tsx_inv w" and h: "th_inv h"
    and same: "\<forall>e\<in>{retransmit_timer (tsx w), timeout_timer (tsx w)}.
      th_view h e = th_view (theap w) e \<and> te_id (nodes h e) = te_id (nodes (theap w) e)"
  shows "step (core w) (w\<lparr>theap := h\<rparr>)"
proof -
  have b: "tsx_base (core w)" "calm (core w)" using inv by (simp_all add: tsx_inv_def)
  have p: "pending h (c_rt (core w)) = pending (c_heap (core w)) (c_rt (core w))"
    "pending h (c_to (core w)) = pending (c_heap (core w)) (c_to (core w))"
    "ids h (c_rt (core w)) = ids (c_heap (core w)) (c_rt (core w))"
    "ids h (c_to (core w)) = ids (c_heap (core w)) (c_to (core w))"
    using same unfolding pending_view core_fold [symmetric] by simp_all
  have "tsx_base ((core w)\<lparr>c_heap := h\<rparr>)"
    by (rule base_heap [OF b(1) h]) (use baseD [OF b(1)] in \<open>simp_all add: p\<close>)
  moreover have "calm ((core w)\<lparr>c_heap := h\<rparr>)" using b(2) by (simp add: calm_def p)
  ultimately show ?thesis by (simp add: step_def tsx_inv_def advances_same)
qed

lemma tsx_step_ok:
  assumes st: "tsx_step E w w'" and inv: "tsx_inv w"
  shows "step (core w) w'"
  using st
proof (cases rule: tsx_step.cases)
  case (Transport sel)
  then show ?thesis
    using inv by (simp add: pjsip_tsx_set_transport_def Let_def step_def tsx_inv_def)
next
  case Fire
  then show ?thesis using fire_step [OF inv] by simp
next
  case (Others h)
  then show ?thesis using others_step [OF inv] by simp
qed (simp_all add: send_entry_step recv_entry_step terminate_entry_step stop_entry_step
    timeout_entry_step resend_entry_step report_step sent_entry_step tp_state_step inv)

lemma tsx_steps_ok:
  assumes "(tsx_step E)\<^sup>*\<^sup>* w w'" "tsx_inv w"
  shows "step (core w) w'"
  using assms
proof (induction rule: rtranclp_induct)
  case base
  then show ?case by (rule step_self)
next
  case (step v u)
  then have "step (core w) v" by simp
  then show ?case using tsx_step_ok [OF step(2)] step_trans by (auto simp: step_def)
qed

end

end
