(* ===== verification/Tsx_Create.thy ===== *)
theory Tsx_Create
  imports Tsx_Entry
begin

text \<open>
  A transaction that was created is in the state NULL, satisfies the invariant, and is registered
  under its key; a key that is taken makes the creation fail and leaves the table as it was.
\<close>

section \<open>Fresh timer entries\<close>

text \<open>The allocator's promise: the two timer entries are new memory.\<close>

definition alloc_ok :: "tsx_alloc \<Rightarrow> tsx_world \<Rightarrow> bool" where
  "alloc_ok al w \<longleftrightarrow> al_status al = PJ_SUCCESS \<and> al_rt al \<noteq> al_tt al \<and>
     \<not> pending (theap w) (al_rt al) \<and> \<not> pending (theap w) (al_tt al)"

lemma zeroed_heap:
  assumes "th_inv h" "\<not> pending h r" "\<not> pending h t"
  shows "th_inv (h\<lparr>nodes := (nodes h)(r := zero_entry, t := zero_entry)\<rparr>)"
    "th_view (h\<lparr>nodes := (nodes h)(r := zero_entry, t := zero_entry)\<rparr>) = th_view h"
  using th_inv_idle2 [OF assms, of zero_entry zero_entry] by (simp_all add: zero_entry_def)

section \<open>The transaction before it is registered\<close>

definition newborn :: "tsx_alloc \<Rightarrow> tsx_world \<Rightarrow> pjsip_role_e \<Rightarrow> 8 word list \<Rightarrow> tsx_world \<Rightarrow> bool" where
  "newborn al w r k w' \<longleftrightarrow>
     theap w' = (theap w)\<lparr>nodes := (nodes (theap w))(al_rt al := zero_entry, al_tt al := zero_entry)\<rparr> \<and>
     htable w' = htable w \<and> layer_registered w' = layer_registered w \<and>
     tsx_addr (tsx w') = al_addr al \<and> role (tsx w') = r \<and> transaction_key (tsx w') = k \<and> hashed_key (tsx w') = pj_hash_calc 0 k (key_len k) \<and>
     state (tsx w') = PJSIP_TSX_STATE_NULL \<and> state_handler (tsx w') = Some tsx_on_state_null_h \<and>
     transport_flag (tsx w') = {} \<and> transport_err (tsx w') = PJ_SUCCESS \<and>
     retransmit_timer (tsx w') = al_rt al \<and> timeout_timer (tsx w') = al_tt al"

lemma newborn_inv:
  assumes n: "newborn al w r k w'" and a: "alloc_ok al w" and h: "th_inv (theap w)" "ht_inv (htable w)"
    and k: "key_fits k" and t: "core w'' = (core w')\<lparr>c_tab := t\<rparr>" "ht_inv t"
  shows "tsx_inv w''"
proof -
  note z = zeroed_heap [OF h(1), of "al_rt al" "al_tt al"]
  have i: "\<not> pending (theap w') (al_rt al)" "\<not> pending (theap w') (al_tt al)" "th_inv (theap w')"
    using z a n by (simp_all add: alloc_ok_def newborn_def pending_view)
  have e: "entry_id w' (al_tt al) = 0" using n by (simp add: newborn_def zero_entry_def)
  have "handled (role (tsx w')) PJSIP_TSX_STATE_NULL"
    by (cases "role (tsx w')") simp_all
  moreover have "handler_of r PJSIP_TSX_STATE_NULL = Some tsx_on_state_null_h"
    by (simp add: handler_of_def)
  ultimately show ?thesis
    using n i e k t a
    by (simp add: newborn_def tsx_inv_def tsx_base_def tables_ok_def marked_def flags_ok_def handler_ok_def
        calm_def core_def pj_hash_calc_def key_bytes_fits alloc_ok_def)
qed

lemma finish_ok:
  assumes n: "newborn al w r k w'" and a: "alloc_ok al w" and h: "th_inv (theap w)" "ht_inv (htable w)"
    and k: "key_fits k" and free: "ht_view (htable w) k = None"
  shows "snd (finish_create w') = PJ_SUCCESS" "tsx_inv (fst (finish_create w'))"
    "ht_view (htable (fst (finish_create w'))) = (ht_view (htable w))(k \<mapsto> al_addr al)"
    "state (tsx (fst (finish_create w'))) = PJSIP_TSX_STATE_NULL"
    "role (tsx (fst (finish_create w'))) = r" "transaction_key (tsx (fst (finish_create w'))) = k"
    "th_view (theap (fst (finish_create w'))) = th_view (theap w)"
    "layer_registered (fst (finish_create w')) = layer_registered w"
    "timeout_timer (tsx (fst (finish_create w'))) = al_tt al"
    "retransmit_timer (tsx (fst (finish_create w'))) = al_rt al"
proof -
  define t where "t = pj_hash_set (htable w') k (key_len k) (hashed_key (tsx w')) (Some (tsx_addr (tsx w')))"
  have hk: "hashed_key (tsx w') = hash_bytes 0 k" "htable w' = htable w" "transaction_key (tsx w') = k"
    "tsx_addr (tsx w') = al_addr al"
    using n k by (simp_all add: newborn_def pj_hash_calc_def key_bytes_fits)
  have "fst (pj_hash_get (htable w') k (key_len k) 0) = None"
    using hreg.get_is_view [OF h(2) k] free by (simp add: hk)
  then have f: "finish_create w' = (fst (unlock_tsx (w'\<lparr>htable := t\<rparr>)), PJ_SUCCESS)"
    by (simp add: finish_create_def mod_tsx_layer_register_tsx_def hk Let_def t_def)
  have ti: "ht_inv t" using hreg.ok_store [OF h(2) k] by (simp add: t_def hk)
  have c: "core (fst (finish_create w')) = (core w')\<lparr>c_tab := t\<rparr>" by (simp add: f core_def unlock_tsx_def Let_def)
  show "snd (finish_create w') = PJ_SUCCESS" by (simp add: f)
  show "tsx_inv (fst (finish_create w'))" by (rule newborn_inv [OF n a h k c ti])
  show "ht_view (htable (fst (finish_create w'))) = (ht_view (htable w))(k \<mapsto> al_addr al)"
  proof -
    have "htable (fst (finish_create w')) = t" by (simp add: f unlock_tsx_def Let_def)
    then show ?thesis using hreg.view_store [OF h(2) k] by (simp add: t_def hk)
  qed
  show "state (tsx (fst (finish_create w'))) = PJSIP_TSX_STATE_NULL"
    "role (tsx (fst (finish_create w'))) = r" "transaction_key (tsx (fst (finish_create w'))) = k"
    "layer_registered (fst (finish_create w')) = layer_registered w"
    "timeout_timer (tsx (fst (finish_create w'))) = al_tt al"
    "retransmit_timer (tsx (fst (finish_create w'))) = al_rt al"
    using n by (simp_all add: f unlock_tsx_def Let_def newborn_def)
  show "th_view (theap (fst (finish_create w'))) = th_view (theap w)"
    using zeroed_heap(2) [OF h(1)] a n by (simp add: f unlock_tsx_def Let_def newborn_def alloc_ok_def)
qed

lemma finish_taken:
  assumes n: "newborn al w r k w'" and h: "ht_inv (htable w)" and k: "key_fits k"
    and taken: "ht_view (htable w) k \<noteq> None"
  shows "snd (finish_create w') = PJ_EEXISTS" "htable (fst (finish_create w')) = htable w"
proof -
  have hk: "htable w' = htable w" "transaction_key (tsx w') = k" using n by (simp_all add: newborn_def)
  have "fst (pj_hash_get (htable w') k (key_len k) 0) \<noteq> None"
    using hreg.get_is_view [OF h k] taken by (simp add: hk)
  then have f: "finish_create w' = give_up PJ_EEXISTS w'"
    by (simp add: finish_create_def mod_tsx_layer_register_tsx_def hk Let_def)
  obtain g where "core (fst (tsx_destroy (fst (unlock_tsx w')))) = (core w')\<lparr>
      c_heap := heap_stop (c_rt (core w')) (heap_stop (c_to (core w')) (c_heap (core w'))), c_flags := g\<rparr>"
    using core_destroy [of "fst (unlock_tsx w')"] by (metis core_unlock)
  then show "htable (fst (finish_create w')) = htable w"
    by (simp add: f give_up_def core_fold) (simp add: core_def hk)
  show "snd (finish_create w') = PJ_EEXISTS" by (simp add: f give_up_def)
qed

section \<open>The two constructors\<close>

definition uac_key :: "8 word list \<Rightarrow> pjsip_tx_data \<Rightarrow> 8 word list" where
  "uac_key unique d = fst (create_tsx_key_3261 PJSIP_ROLE_UAC (tx_method d)
     (if tx_branch d = [] then new_branch unique else tx_branch d))"

definition created :: "tsx_alloc \<Rightarrow> tsx_world \<Rightarrow> tsx_world" where
  "created al w = lock_tsx (w\<lparr>tsx := tsx_new (al_addr al) (al_rt al) (al_tt al) True,
     theap := (theap w)\<lparr>nodes := (nodes (theap w))(al_rt al := zero_entry, al_tt al := zero_entry)\<rparr>\<rparr>)"

lemma create_uac_unfold:
  assumes "al_status al = PJ_SUCCESS" "tx_cseq (tdatas w td) \<noteq> None" "fst dest = PJ_SUCCESS"
  shows "pjsip_tsx_create_uac al unique dest True td w =
    finish_create (upd_tsx (\<lambda>t. t\<lparr>is_reliable := snd dest\<rparr>) (uac_setup unique td (created al w)))"
  using assms by (auto simp: pjsip_tsx_create_uac_def tsx_create_def created_def Let_def)

lemma core_parts:
  "newborn al w r k w' \<longleftrightarrow>
     c_heap (core w') = (theap w)\<lparr>nodes := (nodes (theap w))(al_rt al := zero_entry, al_tt al := zero_entry)\<rparr> \<and>
     c_tab (core w') = htable w \<and> c_reg (core w') = layer_registered w \<and> c_addr (core w') = al_addr al \<and> c_role (core w') = r \<and>
     c_key (core w') = k \<and> c_hash (core w') = pj_hash_calc 0 k (key_len k) \<and>
     c_state (core w') = PJSIP_TSX_STATE_NULL \<and> c_handler (core w') = Some tsx_on_state_null_h \<and>
     c_flags (core w') = {} \<and> c_err (core w') = PJ_SUCCESS \<and>
     c_rt (core w') = al_rt al \<and> c_to (core w') = al_tt al"
  by (simp add: newborn_def core_def)

lemma uac_newborn:
  "newborn al w PJSIP_ROLE_UAC (uac_key unique (tdatas w td))
     (upd_tsx (\<lambda>t. t\<lparr>is_reliable := b\<rparr>) (uac_setup unique td (created al w)))"
proof -
  have td: "tdatas (created al w) = tdatas w" by (simp add: created_def lock_tsx_def)
  have "newborn al w PJSIP_ROLE_UAC (uac_key unique (tdatas w td)) (uac_setup unique td (created al w))"
    unfolding uac_setup_def Let_def core_parts core_buffers
    by (simp add: core_def upd_tdata_def td uac_key_def)
      (simp add: created_def lock_tsx_def tsx_new_def)
  then show ?thesis unfolding core_parts by simp
qed

definition uas_key :: "pjsip_rx_data \<Rightarrow> pjsip_via_hdr \<Rightarrow> pjsip_cseq_hdr \<Rightarrow> 8 word list" where
  "uas_key rdata via hdr = fst (pjsip_tsx_create_key PJSIP_ROLE_UAS (rx_method rdata) via hdr rdata)"

lemma create_uas_unfold:
  assumes "al_status al = PJ_SUCCESS" "rx_cseq rdata = Some hdr" "rx_via rdata = Some via"
    "pjsip_method_cmp (rx_method rdata) (cseq_method hdr)" "ra_status ra = PJ_SUCCESS"
  shows "pjsip_tsx_create_uas al ra True rdata w =
    finish_create (uas_adopt_addr ra (uas_setup via hdr rdata (created al w)))"
  using assms by (simp add: pjsip_tsx_create_uas_def tsx_create_def created_def Let_def)

lemma core_adopt_addr: "core (uas_adopt_addr ra w) = core w"
proof -
  have u: "core (upd_tsx (\<lambda>t. t\<lparr>res_addr_transport := x, res_addr_len := n\<rparr>) w) = core w" for x n
    by (simp add: core_def)
  have "core (w\<lparr>tsx := (tsx w)\<lparr>res_addr_transport := x, res_addr_len := n, is_reliable := b\<rparr>\<rparr>) = core w" for x n b
    by (simp add: core_def)
  then show ?thesis by (simp add: uas_adopt_addr_def Let_def u split: option.split)
qed

lemma uas_newborn:
  "newborn al w PJSIP_ROLE_UAS (uas_key rdata via hdr)
     (uas_adopt_addr ra (uas_setup via hdr rdata (created al w)))"
  unfolding core_parts core_adopt_addr
  by (simp add: core_def uas_setup_def Let_def uas_key_def created_def lock_tsx_def tsx_new_def)

end
