(* ===== verification/Tsx_Props.thy ===== *)
theory Tsx_Props
  imports Tsx_Create
begin

text \<open>
  What a transaction promises. The theorems hold for every environment in which the transaction user
  keeps the contract \<open>well_behaved\<close> and no failed attempt is reported with the status of success
  (\<open>tsx_environment\<close>). The module that \<^verbatim>\<open>pjsip_endpt_send_request\<close> registers as the user, without
  an application callback, over a stateless layer that resolves at once, is such an environment.
\<close>

section \<open>An environment and a world\<close>

definition util_env ::
    "(tsx_world \<Rightarrow> nat \<Rightarrow> nat \<Rightarrow> pj_status) \<Rightarrow> (tsx_world \<Rightarrow> nat option \<Rightarrow> pjsip_rx_data \<Rightarrow>
       pj_status \<times> nat \<times> pjsip_tx_data) \<Rightarrow> nat \<Rightarrow> tsx_env" where
  "util_env snd_fn ack tp =
     \<lparr>cfg_t1 = 500, cfg_t2 = 4000, cfg_t4 = 5000, cfg_td = 32000, transport_send = snd_fn,
      send_stateless = (\<lambda>w td. ([\<lparr>at_sent = Inl 1, at_transport = Some tp, at_cont = False,
        at_addr_len = 16\<rparr>], PJ_SUCCESS)),
      create_ack = ack, on_rx_response = None,
      on_tsx_state = Some (mod_util_on_tsx_state None)\<rparr>"

lemma util_user_behaves: "well_behaved (mod_util_on_tsx_state None prev ev)"
proof -
  have "core (mod_util_on_tsx_state None prev ev w) = core w" for w
    by (simp add: mod_util_on_tsx_state_def Let_def split: option.split)
  then show ?thesis by (simp add: well_behaved_def tsx_inv_def)
qed

interpretation util: tsx_environment "util_env snd_fn ack tp" for snd_fn ack tp
  by unfold_locales (auto simp: util_env_def util_user_behaves)

definition invite :: pjsip_method where
  "invite = \<lparr>method_id = PJSIP_INVITE_METHOD, method_name = [73, 78, 86, 73, 84, 69]\<rparr>"

definition invite_tdata :: pjsip_tx_data where
  "invite_tdata = \<lparr>tx_type = PJSIP_REQUEST_MSG, tx_method = invite, tx_code = 0,
     tx_cseq = Some \<lparr>cseq_num = 1, cseq_method = invite\<rparr>, tx_branch = PJSIP_RFC3261_BRANCH_ID @ [49],
     tx_ref_cnt = 1, tx_mod_data = None, tx_tp_sel = None\<rparr>"

definition world0 :: tsx_world where
  "world0 = \<lparr>tsx = tsx_new 0 0 0 False, theap = pj_timer_heap_create (\<lambda>_. zero_entry) 4,
     now = Time_val 100 0, htable = \<lparr>ht_table = replicate 16 [], ht_count = 0, ht_rows = 15\<rparr>,
     layer_registered = True, tdatas = (\<lambda>_. invite_tdata),
     tps = (\<lambda>_. \<lparr>tp_ref_cnt = 1, tp_reliable = True, tp_listeners = []\<rparr>), tls = [], trace = []\<rparr>"

definition alloc0 :: tsx_alloc where
  "alloc0 = \<lparr>al_status = PJ_SUCCESS, al_addr = 1, al_rt = 11, al_tt = 12\<rparr>"

lemma world0_ok:
  "alloc_ok alloc0 world0" "th_inv (theap world0)" "ht_inv (htable world0)"
  "tx_cseq (tdatas world0 td) \<noteq> None" "key_fits (uac_key [] (tdatas world0 td))"
  "ht_view (htable world0) = Map.empty" "th_view (theap world0) = Map.empty"
proof -
  show th: "th_inv (theap world0)"
    unfolding world0_def by simp (rule th_inv_create, simp add: zero_entry_def)
  have np: "\<not> pending (theap world0) e" for e
    by (simp add: pending_def world0_def pj_timer_heap_create_def Let_def zero_entry_def)
  then show "th_view (theap world0) = Map.empty" by (auto simp: pending_view)
  from np show "alloc_ok alloc0 world0" by (simp add: alloc_ok_def alloc0_def)
  show hi: "ht_inv (htable world0)"
    by (simp add: world0_def ht_inv_def sum_list_replicate nth_replicate del: replicate_Suc)
  show "tx_cseq (tdatas world0 td) \<noteq> None" by (simp add: world0_def invite_tdata_def)
  show "key_fits (uac_key [] (tdatas world0 td))"
    by (simp add: world0_def invite_tdata_def uac_key_def create_tsx_key_3261_def method_part_def
        invite_def key_fits_def PJSIP_RFC3261_BRANCH_ID_def)
  show "ht_view (htable world0) = Map.empty"
    using row_of_bound [OF hi] by (intro ext) (simp add: ht_view_def world0_def nth_replicate del: replicate_Suc)
qed

lemma world0_values [simp]: "tdatas world0 td = invite_tdata" "al_addr alloc0 = 1" "al_tt alloc0 = 12"
  "al_rt alloc0 = 11" "layer_registered world0"
  by (simp_all add: world0_def alloc0_def)

text \<open>The client transaction of an INVITE, just created.\<close>

definition world1 :: tsx_world where
  "world1 = fst (pjsip_tsx_create_uac alloc0 [] (PJ_SUCCESS, False) True 5 world0)"

lemma create_uac_ok:
  assumes "alloc_ok al w" "th_inv (theap w)" "ht_inv (htable w)" "tx_cseq (tdatas w td) \<noteq> None"
    "fst dest = PJ_SUCCESS" "key_fits (uac_key unique (tdatas w td))"
    "r = pjsip_tsx_create_uac al unique dest True td w"
  shows "ht_view (htable w) (uac_key unique (tdatas w td)) = None \<Longrightarrow> snd r = PJ_SUCCESS \<and>
      tsx_inv (fst r) \<and> state (tsx (fst r)) = PJSIP_TSX_STATE_NULL \<and> role (tsx (fst r)) = PJSIP_ROLE_UAC \<and>
      th_view (theap (fst r)) = th_view (theap w) \<and> layer_registered (fst r) = layer_registered w \<and>
      timeout_timer (tsx (fst r)) = al_tt al \<and> retransmit_timer (tsx (fst r)) = al_rt al \<and>
      ht_view (htable (fst r)) = (ht_view (htable w))(uac_key unique (tdatas w td) \<mapsto> al_addr al)"
    "ht_view (htable w) (uac_key unique (tdatas w td)) \<noteq> None \<Longrightarrow>
      snd r = PJ_EEXISTS \<and> htable (fst r) = htable w"
proof -
  have a: "al_status al = PJ_SUCCESS" using assms(1) by (simp add: alloc_ok_def)
  note u = create_uac_unfold [OF a assms(4,5), of unique]
  note f = finish_ok [OF uac_newborn assms(1-3,6), of "snd dest"]
    finish_taken [OF uac_newborn assms(3,6), of "snd dest"]
  show "snd r = PJ_SUCCESS \<and>
      tsx_inv (fst r) \<and> state (tsx (fst r)) = PJSIP_TSX_STATE_NULL \<and> role (tsx (fst r)) = PJSIP_ROLE_UAC \<and>
      th_view (theap (fst r)) = th_view (theap w) \<and> layer_registered (fst r) = layer_registered w \<and>
      timeout_timer (tsx (fst r)) = al_tt al \<and> retransmit_timer (tsx (fst r)) = al_rt al \<and>
      ht_view (htable (fst r)) = (ht_view (htable w))(uac_key unique (tdatas w td) \<mapsto> al_addr al)"
    if "ht_view (htable w) (uac_key unique (tdatas w td)) = None"
    using f(1-10) that by (simp add: assms(7) u)
  show "snd r = PJ_EEXISTS \<and> htable (fst r) = htable w"
    if "ht_view (htable w) (uac_key unique (tdatas w td)) \<noteq> None"
    using f(11,12) that unfolding assms(7) u by blast
qed

lemma world1_ok:
  "tsx_inv world1" "role (tsx world1) = PJSIP_ROLE_UAC" "state (tsx world1) = PJSIP_TSX_STATE_NULL"
  "th_view (theap world1) = Map.empty" "layer_registered world1" "timeout_timer (tsx world1) = 12"
  "retransmit_timer (tsx world1) = 11"
  using create_uac_ok(1) [OF world0_ok(1-4) _ world0_ok(5) refl, of "(PJ_SUCCESS, False)"]
  by (simp_all add: world1_def world0_ok(6,7))

section \<open>Creation\<close>

text \<open>Creating a client transaction registers it under the key of its request, in the state NULL with
  the invariant in force; a request whose key is taken is refused with PJ_EEXISTS and the table of
  transactions stays as it was.\<close>

theorem create_uac_registers:
  assumes "alloc_ok al w" "th_inv (theap w)" "ht_inv (htable w)" "tx_cseq (tdatas w td) \<noteq> None"
    "fst dest = PJ_SUCCESS" "key_fits (uac_key unique (tdatas w td))"
  shows "case pjsip_tsx_create_uac al unique dest True td w of (w', status) \<Rightarrow>
    if ht_view (htable w) (uac_key unique (tdatas w td)) = None
    then status = PJ_SUCCESS \<and> tsx_inv w' \<and> state (tsx w') = PJSIP_TSX_STATE_NULL \<and>
      ht_view (htable w') = (ht_view (htable w))(uac_key unique (tdatas w td) \<mapsto> al_addr al)
    else status = PJ_EEXISTS \<and> htable w' = htable w"
  using create_uac_ok [OF assms refl] by (auto simp: split_beta)

theorem create_uac_registers_witness:
  "ht_view (htable world1) (uac_key [] invite_tdata) = Some 1"
  using create_uac_registers [OF world0_ok(1-4) _ world0_ok(5), of "(PJ_SUCCESS, False)" 5]
  by (simp add: split_beta world0_ok(6) world1_def [symmetric] world0_values)

text \<open>The same for a server transaction, whose request must carry the same method in its CSeq.\<close>

theorem create_uas_registers:
  assumes "alloc_ok al w" "th_inv (theap w)" "ht_inv (htable w)" "ra_status ra = PJ_SUCCESS"
    "rx_cseq rdata = Some hdr" "rx_via rdata = Some via" "key_fits (uas_key rdata via hdr)"
  shows "case pjsip_tsx_create_uas al ra True rdata w of (w', status) \<Rightarrow>
    if \<not> pjsip_method_cmp (rx_method rdata) (cseq_method hdr)
    then status = PJSIP_EINVALIDHDR \<and> w' = w
    else if ht_view (htable w) (uas_key rdata via hdr) = None
    then status = PJ_SUCCESS \<and> tsx_inv w' \<and> state (tsx w') = PJSIP_TSX_STATE_NULL \<and>
      ht_view (htable w') = (ht_view (htable w))(uas_key rdata via hdr \<mapsto> al_addr al)
    else status = PJ_EEXISTS \<and> htable w' = htable w"
proof (cases "pjsip_method_cmp (rx_method rdata) (cseq_method hdr)")
  case False
  then show ?thesis using assms(5,6) by (simp add: pjsip_tsx_create_uas_def)
next
  case True
  have a: "al_status al = PJ_SUCCESS" using assms(1) by (simp add: alloc_ok_def)
  note u = create_uas_unfold [OF a assms(5,6) True assms(4), of w]
  note f = finish_ok [OF uas_newborn assms(1-3,7), of ra] finish_taken [OF uas_newborn [of al w rdata via hdr ra] assms(3,7)]
  show ?thesis using f True by (auto simp: split_beta u)
qed

definition invite_rdata :: pjsip_rx_data where
  "invite_rdata = \<lparr>rx_type = PJSIP_REQUEST_MSG, rx_method = invite, rx_code = 0,
     rx_via = Some \<lparr>via_host = [104], via_port = 5060, branch_param = PJSIP_RFC3261_BRANCH_ID @ [50]\<rparr>,
     rx_cseq = Some \<lparr>cseq_num = 1, cseq_method = invite\<rparr>, rx_from_tag = [97], rx_call_id = [98]\<rparr>"

definition uas_addr :: response_addr where
  "uas_addr = \<lparr>ra_status = PJ_SUCCESS, ra_transport = Some 3, ra_addr_len = 16, ra_reliable = False\<rparr>"

lemma invite_rdata_ok:
  "rx_cseq invite_rdata = Some \<lparr>cseq_num = 1, cseq_method = invite\<rparr>"
  "rx_via invite_rdata = Some \<lparr>via_host = [104], via_port = 5060, branch_param = PJSIP_RFC3261_BRANCH_ID @ [50]\<rparr>"
  "key_fits (uas_key invite_rdata \<lparr>via_host = [104], via_port = 5060, branch_param = PJSIP_RFC3261_BRANCH_ID @ [50]\<rparr>
     \<lparr>cseq_num = 1, cseq_method = invite\<rparr>)"
  "pjsip_method_cmp (rx_method invite_rdata) invite" "ra_status uas_addr = PJ_SUCCESS"
  by (simp_all add: invite_rdata_def uas_addr_def uas_key_def pjsip_tsx_create_key_def
      create_tsx_key_3261_def method_part_def invite_def key_fits_def PJSIP_RFC3261_BRANCH_ID_def
      pjsip_method_cmp_def pj_strncmp_eq_def PJSIP_RFC3261_BRANCH_LEN_def)

definition world2 :: tsx_world where
  "world2 = fst (pjsip_tsx_create_uas alloc0 uas_addr True invite_rdata world0)"

theorem create_uas_registers_witness:
  "tsx_inv world2 \<and> state (tsx world2) = PJSIP_TSX_STATE_NULL"
  using create_uas_registers [OF world0_ok(1-3) invite_rdata_ok(5,1-3)] invite_rdata_ok(4)
  by (simp add: split_beta world0_ok(6) world2_def [symmetric])

section \<open>Safety\<close>

text \<open>C7: whatever sequence of timer expiries, received messages, sends, terminations, transport
  failures and reports a transaction goes through, the timer heap and the table stay well formed (no
  timer is ever scheduled while it is pending), the handler is the one of role and state and not
  NULL, role and key never change, and the state never goes back.\<close>

theorem tsx_run_safe:
  assumes "tsx_environment E" "tsx_inv w" "(tsx_step E)\<^sup>*\<^sup>* w w'"
  shows "tsx_inv w' \<and> th_inv (theap w') \<and> ht_inv (htable w') \<and>
    state_handler (tsx w') = handler_of (role (tsx w)) (state (tsx w')) \<and>
    handled (role (tsx w)) (state (tsx w')) \<and> role (tsx w') = role (tsx w) \<and>
    transaction_key (tsx w') = transaction_key (tsx w) \<and> state (tsx w) \<le> state (tsx w')"
proof -
  have s: "tsx_inv w'" "advances (core w) (core w')"
    using tsx_environment.tsx_steps_ok [OF assms(1,3,2)] by (simp_all add: step_def)
  have "tables_ok (core w')" "handler_ok (core w')" using s(1) by (simp_all add: tsx_inv_def tsx_base_def)
  then show ?thesis
    using s unfolding advances_def same_tsx_def tables_ok_def handler_ok_def by (simp add: core_fold)
qed

theorem tsx_run_safe_witness:
  "tsx_inv (fst (pjsip_tsx_send_msg (util_env (\<lambda>w tp td. PJ_SUCCESS) (\<lambda>w l r. (PJ_EBUG, 0, invite_tdata)) 3)
     None world1))"
  using tsx_run_safe [OF util.tsx_environment_axioms world1_ok(1)] tsx_step.Send by blast

section \<open>The end of a transaction\<close>

context tsx_environment
begin

lemma end_full:
  assumes "tsx_base (core w)" "c_state (core w) \<le> PJSIP_TSX_STATE_TERMINATED"
  shows "c_state (core (tsx_set_state E PJSIP_TSX_STATE_TERMINATED ev w)) = PJSIP_TSX_STATE_TERMINATED"
    "pending (c_heap (core (tsx_set_state E PJSIP_TSX_STATE_TERMINATED ev w))) (c_to (core w))"
  using terminate_ok(2,4) [OF base_rest [OF assms(1)] _ refl, of ev] assms(2)
  by (simp_all add: ends_def core_fold)

lemma timeout_event:
  assumes inv: "tsx_inv w" and i: "event_ok (core w) (PJSIP_EVENT_TIMER (timeout_timer (tsx w)))"
    and st: "state (tsx w) \<in> {PJSIP_TSX_STATE_CALLING, PJSIP_TSX_STATE_PROCEEDING,
      PJSIP_TSX_STATE_COMPLETED, PJSIP_TSX_STATE_CONFIRMED}"
    and w': "w' = fst (call_handler E (PJSIP_EVENT_TIMER (timeout_timer (tsx w))) w)"
  shows "c_state (core w') = PJSIP_TSX_STATE_TERMINATED \<and> pending (c_heap (core w')) (c_to (core w))"
proof -
  have b: "tsx_base (core w)" using inv by (simp add: tsx_inv_def)
  have ne: "timeout_timer (tsx w) \<noteq> retransmit_timer (tsx w)" using baseD(3) [OF b] by (simp add: core_fold)
  have h: "state_handler (tsx w) = handler_of (role (tsx w)) (state (tsx w))"
    "handled (role (tsx w)) (state (tsx w))"
    using baseD(7) [OF b] by (simp_all add: handler_ok_def core_fold)
  have e: "c_state (core (tsx_set_state E PJSIP_TSX_STATE_TERMINATED ev v)) = PJSIP_TSX_STATE_TERMINATED \<and>
      pending (c_heap (core (tsx_set_state E PJSIP_TSX_STATE_TERMINATED ev v))) (c_to (core w))"
    if "tsx_base (core v)" "c_to (core v) = c_to (core w)" "c_state (core v) = c_state (core w)" for ev v
    using end_full [OF that(1), of ev] that(2,3) st by (auto simp: core_fold state_order)
  have t: "c_state (core (calling_timeout E w)) = PJSIP_TSX_STATE_TERMINATED \<and>
      pending (c_heap (core (calling_timeout E w))) (c_to (core w))"
  proof -
    define w1 where "w1 = stop_timer (retransmit_timer (tsx w)) w"
    define w2 where "w2 = tsx_set_status_code PJSIP_SC_TSX_TIMEOUT (clear_flag TSX_HAS_PENDING_RESCHED w1)"
    note r = stop_rt [OF b w1_def]
    have "tsx_base (core w2)" unfolding w2_def
      using flagsD [OF r(1)] base_flags [OF r(1)] by auto
    then show ?thesis
      unfolding calling_timeout_def Let_def w1_def [symmetric] w2_def [symmetric]
      using r(2,3) by (intro e) (simp_all add: w2_def same_tsx_def)
  qed
  have "core (tsx_set_status_code c w) = core w" for c by simp
  note s = e [of "tsx_set_status_code PJSIP_SC_TSX_TIMEOUT w", unfolded this, OF b refl refl] e [OF b refl refl]
  show ?thesis
    using h t s ne st unfolding w' call_handler_def
    by (cases "role (tsx w)")
      (auto simp: handler_of_def tsx_on_state_calling_def tsx_on_state_proceeding_uac_def uac_dispatch_def
        tsx_on_state_proceeding_uas_def tsx_on_state_completed_uas_def tsx_on_state_completed_uac_def
        tsx_on_state_confirmed_def completed_timeout_def PJSIP_IS_STATUS_IN_CLASS_def tsx_set_status_code_def
        PJSIP_SC_TSX_TIMEOUT_def)
qed

lemma fire_timeout:
  assumes inv: "tsx_inv w" and root: "root_timer w" and to: "heap (theap w) ! 0 = timeout_timer (tsx w)"
    and st: "state (tsx w) \<in> {PJSIP_TSX_STATE_CALLING, PJSIP_TSX_STATE_PROCEEDING,
      PJSIP_TSX_STATE_COMPLETED, PJSIP_TSX_STATE_CONFIRMED}"
  shows "c_state (core (tsx_fire E w)) = PJSIP_TSX_STATE_TERMINATED \<and>
    pending (c_heap (core (tsx_fire E w))) (c_to (core w))"
proof -
  note f = fired_ok [OF inv root]
  have t: "timeout_timer (tsx (tsx_fired w)) = timeout_timer (tsx w)" "c_to (core (tsx_fired w)) = c_to (core w)"
    "state (tsx (tsx_fired w)) = state (tsx w)"
    using same_tsxD(7) [OF f(4)] f(5) by (simp_all add: core_fold)
  have "th_inv (theap w)" "cur_size (theap w) \<noteq> 0"
    using inv root baseD(1) [of "core w"] by (simp_all add: tsx_inv_def root_timer_def core_fold)
  note u = fire_unfold [OF this, of E, unfolded to]
  show ?thesis
    using timeout_event [OF f(1) f(3) [unfolded to, folded t(1)] _ refl] st by (simp add: u t)
qed

lemma fire_terminated:
  assumes inv: "tsx_inv w" and root: "root_timer w" and st: "state (tsx w) = PJSIP_TSX_STATE_TERMINATED"
    and w': "w' = tsx_fire E w"
  shows "c_state (core w') = PJSIP_TSX_STATE_DESTROYED"
    "\<not> pending (c_heap (core w')) (c_rt (core w))" "\<not> pending (c_heap (core w')) (c_to (core w))"
    "layer_registered w \<Longrightarrow> ht_view (c_tab (core w')) (c_key (core w)) = None"
proof -
  note f = fired_ok [OF inv root]
  have "th_inv (theap w)" "cur_size (theap w) \<noteq> 0"
    using inv root baseD(1) [of "core w"] by (simp_all add: tsx_inv_def root_timer_def core_fold)
  note u = fire_unfold [OF this, of E]
  have b: "tsx_base (core (tsx_fired w))" using f(1) by (simp add: tsx_inv_def)
  have "state_handler (tsx (tsx_fired w)) = Some tsx_on_state_terminated_h"
    using baseD(7) [OF b] f(5) st by (cases "c_role (core (tsx_fired w))")
      (simp_all add: handler_ok_def core_fold handler_of_def)
  then have eq: "core w' = core (tsx_set_state E PJSIP_TSX_STATE_DESTROYED
      (PJSIP_EVENT_TIMER (heap (theap w) ! 0)) (tsx_fired w))"
    by (simp add: w' u call_handler_def tsx_on_state_terminated_def)
  note d = destroy_ok [OF b refl, of "PJSIP_EVENT_TIMER (heap (theap w) ! 0)", folded eq]
  show "c_state (core w') = PJSIP_TSX_STATE_DESTROYED"
    "\<not> pending (c_heap (core w')) (c_rt (core w))" "\<not> pending (c_heap (core w')) (c_to (core w))"
    "layer_registered w \<Longrightarrow> ht_view (c_tab (core w')) (c_key (core w)) = None"
    using d(2-4,7) same_tsxD [OF f(4)] by (simp_all add: core_fold)
qed

end

definition quick_env :: tsx_env where
  "quick_env = util_env (\<lambda>w tp td. PJ_SUCCESS) (\<lambda>w l r. (PJ_SUCCESS, 7, invite_tdata)) 3"

lemma quick_env: "tsx_environment quick_env"
  unfolding quick_env_def by (rule util.tsx_environment_axioms)

text \<open>A client transaction in a later state, waiting for its timeout.\<close>

definition waiting_world :: "pjsip_tsx_state_e \<Rightarrow> tsx_world" where
  "waiting_world st = start_timer 12 (Time_val 32 0)
     (world1\<lparr>tsx := (tsx world1)\<lparr>state := st, state_handler := tsx_state_handler_uac st\<rparr>\<rparr>)"

lemma waiting_world_ok:
  assumes "st \<noteq> PJSIP_TSX_STATE_NULL" "st \<noteq> PJSIP_TSX_STATE_TRYING"
  shows "tsx_inv (waiting_world st)" "root_timer (waiting_world st)"
    "heap (theap (waiting_world st)) ! 0 = timeout_timer (tsx (waiting_world st))"
    "state (tsx (waiting_world st)) = st" "layer_registered (waiting_world st)"
    "role (tsx (waiting_world st)) = PJSIP_ROLE_UAC"
proof -
  let ?w = "world1\<lparr>tsx := (tsx world1)\<lparr>state := st, state_handler := tsx_state_handler_uac st\<rparr>\<rparr>"
  have r: "c_role (core world1) = PJSIP_ROLE_UAC" "c_to (core world1) = 12" "c_reg (core world1)"
    "c_state (core world1) = PJSIP_TSX_STATE_NULL" "th_view (c_heap (core world1)) = Map.empty"
    using world1_ok by (simp_all add: core_fold)
  have h: "tsx_state_handler_uac st = handler_of PJSIP_ROLE_UAC st" by (simp add: handler_of_def)
  have cw: "core ?w = (core world1)\<lparr>c_state := st, c_handler := handler_of (c_role (core world1)) st\<rparr>"
    by (simp add: h r)
  have b: "tsx_base (core ?w)"
    unfolding cw using world1_ok(1) assms r by (intro base_moved) (simp_all add: tsx_inv_def state_order)
  have i: "\<not> pending (c_heap (core ?w)) e" for e by (simp add: pending_view r)
  have w: "waiting_world st = start_timer (timeout_timer (tsx ?w)) (Time_val 32 0) ?w"
    using world1_ok(6) by (simp add: waiting_world_def)
  note t = start_to [OF b i w]
  have k: "c_role (core (waiting_world st)) = PJSIP_ROLE_UAC" "c_state (core (waiting_world st)) = st"
    "c_to (core (waiting_world st)) = 12" "c_reg (core (waiting_world st))"
    using t(2,3) r by (simp_all add: same_tsx_def)
  then show "state (tsx (waiting_world st)) = st" "layer_registered (waiting_world st)"
    "role (tsx (waiting_world st)) = PJSIP_ROLE_UAC"
    by (simp_all add: core_fold)
  show inv: "tsx_inv (waiting_world st)"
    using t(1) calm_client k assms by (simp add: tsx_inv_def)
  have p: "pending (theap (waiting_world st)) e \<longleftrightarrow> e = 12" for e
    using heap_start(4) [OF baseD(1) [OF b] i, where e = "12" and nw = "now ?w" and d = "Time_val 32 0"] i
    by (simp add: core_fold w r)
  have th: "th_inv (theap (waiting_world st))" using t(1) baseD(1) by (simp add: core_fold)
  have ne: "cur_size (theap (waiting_world st)) \<noteq> 0"
    using count_pending [OF th] p by simp
  then have "heap (theap (waiting_world st)) ! 0 = 12" using root_pending(1) [OF th ne] p by simp
  then show "heap (theap (waiting_world st)) ! 0 = timeout_timer (tsx (waiting_world st))"
    "root_timer (waiting_world st)"
    using k ne by (simp_all add: root_timer_def core_fold)
qed

text \<open>C8: when the timeout timer fires in any state that waits for one, the transaction is terminated
  and its timeout timer is armed once more, for the destruction.\<close>

theorem timeout_terminates:
  assumes "tsx_environment E" "tsx_inv w" "root_timer w" "heap (theap w) ! 0 = timeout_timer (tsx w)"
    "state (tsx w) \<in> {PJSIP_TSX_STATE_CALLING, PJSIP_TSX_STATE_PROCEEDING,
      PJSIP_TSX_STATE_COMPLETED, PJSIP_TSX_STATE_CONFIRMED}"
  shows "state (tsx (tsx_fire E w)) = PJSIP_TSX_STATE_TERMINATED \<and>
    pending (theap (tsx_fire E w)) (timeout_timer (tsx w))"
  using tsx_environment.fire_timeout [OF assms] by (simp add: core_fold)

theorem timeout_terminates_witness:
  "state (tsx (tsx_fire quick_env (waiting_world PJSIP_TSX_STATE_PROCEEDING))) = PJSIP_TSX_STATE_TERMINATED"
  using timeout_terminates [OF quick_env] waiting_world_ok [of PJSIP_TSX_STATE_PROCEEDING] by simp

text \<open>C9: when a timer fires in a terminated transaction, the transaction is destroyed: neither of its
  timers is pending any more, and its key has left the table.\<close>

theorem terminated_destroyed:
  assumes "tsx_environment E" "tsx_inv w" "root_timer w" "state (tsx w) = PJSIP_TSX_STATE_TERMINATED"
    "layer_registered w"
  shows "state (tsx (tsx_fire E w)) = PJSIP_TSX_STATE_DESTROYED \<and>
    \<not> pending (theap (tsx_fire E w)) (retransmit_timer (tsx w)) \<and>
    \<not> pending (theap (tsx_fire E w)) (timeout_timer (tsx w)) \<and>
    ht_view (htable (tsx_fire E w)) (transaction_key (tsx w)) = None"
  using tsx_environment.fire_terminated [OF assms(1-4) refl] assms(5) by (simp add: core_fold)

theorem terminated_destroyed_witness:
  "state (tsx (tsx_fire quick_env (waiting_world PJSIP_TSX_STATE_TERMINATED))) = PJSIP_TSX_STATE_DESTROYED"
  using terminated_destroyed [OF quick_env] waiting_world_ok [of PJSIP_TSX_STATE_TERMINATED] by simp

end
