(* ===== verification/Tsx_Flow.thy ===== *)
theory Tsx_Flow
  imports Tsx_Create
begin

text \<open>
  The effect of single events on a transaction whose user stays passive: what is sent, which timer
  runs with which delay, and the state reached.
\<close>

section \<open>Frames\<close>

lemma timer_frame [simp]:
  "tsx (set_entry_id e i w) = tsx w" "tsx (pjsip_endpt_cancel_timer e w) = tsx w"
  "tsx (start_timer e d w) = tsx w" "tsx (stop_timer e w) = tsx w"
  "trace (set_entry_id e i w) = trace w" "trace (pjsip_endpt_cancel_timer e w) = trace w"
  "trace (start_timer e d w) = trace w" "trace (stop_timer e w) = trace w"
  "now (set_entry_id e i w) = now w" "now (pjsip_endpt_cancel_timer e w) = now w"
  "now (start_timer e d w) = now w"
  "tps (set_entry_id e i w) = tps w" "tps (pjsip_endpt_cancel_timer e w) = tps w"
  "tps (start_timer e d w) = tps w" "tps (stop_timer e w) = tps w"
  "tdatas (set_entry_id e i w) = tdatas w" "tdatas (pjsip_endpt_cancel_timer e w) = tdatas w"
  "tdatas (start_timer e d w) = tdatas w" "tdatas (stop_timer e w) = tdatas w"
  by (simp_all add: set_entry_id_def pjsip_endpt_cancel_timer_def start_timer_def stop_timer_def
      pjsip_endpt_schedule_timer_def)

lemma timer_heaps:
  "theap (set_entry_id e i w) = set_te_id (theap w) e i"
  "theap (pjsip_endpt_cancel_timer e w) = heap_cancel e (theap w)"
  "theap (start_timer e d w) = heap_start (now w) e d (theap w)"
  "theap (stop_timer e w) = heap_stop e (theap w)"
  by (simp_all add: set_entry_id_def pjsip_endpt_cancel_timer_def start_timer_def stop_timer_def
      pjsip_endpt_schedule_timer_def heap_cancel_def heap_start_def heap_stop_def)

lemma ref_frame [simp]:
  "tsx (emit a w) = tsx w" "trace (emit a w) = a # trace w" "now (emit a w) = now w"
  "theap (emit a w) = theap w"
  "tsx (upd_tdata td f w) = tsx w" "trace (upd_tdata td f w) = trace w" "theap (upd_tdata td f w) = theap w"
  "tsx (pjsip_tx_data_add_ref td w) = tsx w" "trace (pjsip_tx_data_add_ref td w) = trace w"
  "now (pjsip_tx_data_add_ref td w) = now w" "theap (pjsip_tx_data_add_ref td w) = theap w"
  "tsx (pjsip_tx_data_dec_ref td w) = tsx w" "trace (pjsip_tx_data_dec_ref td w) = trace w"
  "now (pjsip_tx_data_dec_ref td w) = now w" "theap (pjsip_tx_data_dec_ref td w) = theap w"
  by (simp_all add: emit_def upd_tdata_def pjsip_tx_data_add_ref_def pjsip_tx_data_dec_ref_def
      pjsip_tpselector_dec_ref_def pjsip_transport_dec_ref_def Let_def split: option.split)

lemma lock_frame [simp]:
  "tsx (lock_tsx w) = (tsx w)\<lparr>tsx_mutex := tsx_mutex (tsx w) + 1\<rparr>" "theap (lock_tsx w) = theap w"
  "trace (lock_tsx w) = trace w" "now (lock_tsx w) = now w" "tdatas (lock_tsx w) = tdatas w"
  "theap (fst (unlock_tsx w)) = theap w" "trace (fst (unlock_tsx w)) = trace w"
  "state (tsx (fst (unlock_tsx w))) = state (tsx w)" "last_tx (tsx (fst (unlock_tsx w))) = last_tx (tsx w)"
  "status_code (tsx (fst (unlock_tsx w))) = status_code (tsx w)"
  "transport (tsx (fst (unlock_tsx w))) = transport (tsx w)"
  "transport_flag (tsx (fst (unlock_tsx w))) = transport_flag (tsx w)"
  by (simp_all add: lock_tsx_def unlock_tsx_def Let_def)

lemma flag_frame [simp]:
  "tsx (clear_flag f w) = (tsx w)\<lparr>transport_flag := transport_flag (tsx w) - {f}\<rparr>"
  "theap (clear_flag f w) = theap w" "trace (clear_flag f w) = trace w"
  "tsx (tsx_set_status_code c w) = (tsx w)\<lparr>status_code := c\<rparr>" "theap (tsx_set_status_code c w) = theap w"
  "trace (tsx_set_status_code c w) = trace w" "now (tsx_set_status_code c w) = now w"
  by (simp_all add: clear_flag_def tsx_set_status_code_def)

section \<open>A silent user and a transport that works\<close>

definition silent :: "tsx_env \<Rightarrow> bool" where
  "silent E \<longleftrightarrow> on_rx_response E = None \<and> on_tsx_state E = None"

lemma silent_state:
  assumes "silent E"
  shows "tsx_set_state E st ev w =
    (let w = upd_tsx (\<lambda>t. t\<lparr>state := st, state_handler := handler_of (role t) st\<rparr>) w
     in if st = PJSIP_TSX_STATE_TERMINATED then enter_terminated w
        else if st = PJSIP_TSX_STATE_DESTROYED then fst (tsx_destroy (mod_tsx_layer_unregister_tsx w))
        else w)"
proof -
  have "tell_rx E ev v = v" "tell_state E prev ev v = v" for prev v
    using assms by (auto simp: silent_def tell_rx_def tell_state_def split: pjsip_event.split)
  then show ?thesis by (simp add: tsx_set_state_def Let_def)
qed

text \<open>The transport \<open>tp\<close> of the transaction takes every message.\<close>

definition working :: "tsx_env \<Rightarrow> tsx_world \<Rightarrow> nat \<Rightarrow> bool" where
  "working E w tp \<longleftrightarrow> transport (tsx w) = Some tp \<and> \<not> has_flag w TSX_HAS_PENDING_TRANSPORT \<and>
     (\<forall>v td. transport_send E v tp td = PJ_SUCCESS)"

lemma working_send:
  assumes "working E w tp"
  shows "tsx_send_msg E td w = (emit (Act_sent tp td) w, PJ_SUCCESS)"
  using assms by (simp add: working_def tsx_send_msg_def tsx_send_msg_via_def)

section \<open>Delays\<close>

lemma heap_chain:
  assumes b: "tsx_base (core w)" and h: "h = heap_cancel (c_to (core w))
      (set_te_id (heap_stop (c_rt (core w)) (c_heap (core w))) (c_to (core w)) 0)"
  shows "th_inv h" "\<not> pending h (c_rt (core w))" "\<not> pending h (c_to (core w))"
    "ids h (c_to (core w)) = 0"
proof -
  note s = base_stop [OF b, of "c_rt (core w)"]
  have t: "th_inv (heap_stop (c_rt (core w)) (c_heap (core w)))" using baseD(1) [OF s(1)] by simp
  note i = heap_set_id [OF t, of "c_to (core w)" 0]
  note k = heap_cancel [OF i(1), of "c_to (core w)"]
  show "th_inv h" "\<not> pending h (c_rt (core w))" "\<not> pending h (c_to (core w))" "ids h (c_to (core w)) = 0"
    using k i s by (simp_all add: h)
qed

text \<open>The failure of an INVITE, from the world \<open>v\<close> in which the tail of the client handler runs.\<close>

definition ack_and_complete ::
    "tsx_env \<Rightarrow> nat \<Rightarrow> nat \<Rightarrow> pjsip_tx_data \<Rightarrow> tsx_world \<Rightarrow> tsx_world" where
  "ack_and_complete E tp ack d v =
     (let w = pjsip_endpt_cancel_timer (timeout_timer (tsx v))
            (set_entry_id (timeout_timer (tsx v)) 0 (stop_timer (retransmit_timer (tsx v)) v));
          w = emit (Act_sent tp ack) (upd_tdata ack (\<lambda>_. d) w);
          w = upd_tsx (\<lambda>t. t\<lparr>state := PJSIP_TSX_STATE_COMPLETED,
                 state_handler := handler_of (role t) PJSIP_TSX_STATE_COMPLETED\<rparr>) w
      in if last_tx (tsx w) \<noteq> Some ack
         then upd_tsx (\<lambda>t. t\<lparr>last_tx := Some ack\<rparr>) (pjsip_tx_data_dec_ref (the (last_tx (tsx w))) w)
         else w)"

lemma failure_unfold:
  assumes p: "silent E" and b: "tsx_base (core v)" and wk: "working E v tp"
    and inv: "method_id (tsx_method (tsx v)) = PJSIP_INVITE_METHOD"
    and ack: "\<And>w l. create_ack E w l rdata = (PJ_SUCCESS, ack, d)"
    and u: "u = ack_and_complete E tp ack d v"
  shows "uac_failure E rdata v = (start_timer (timeout_timer (tsx u)) (timer_d_or_k E (tsx u)) u, PJ_SUCCESS)"
    "state (tsx u) = PJSIP_TSX_STATE_COMPLETED" "last_tx (tsx u) = Some ack"
    "status_code (tsx u) = status_code (tsx v)" "trace u = Act_sent tp ack # trace v" "now u = now v"
    "timeout_timer (tsx u) = timeout_timer (tsx v)" "is_reliable (tsx u) = is_reliable (tsx v)"
    "tsx_method (tsx u) = tsx_method (tsx v)"
    "theap u = heap_cancel (c_to (core v)) (set_te_id (heap_stop (c_rt (core v)) (c_heap (core v))) (c_to (core v)) 0)"
proof -
  show f: "state (tsx u) = PJSIP_TSX_STATE_COMPLETED" "last_tx (tsx u) = Some ack"
    "status_code (tsx u) = status_code (tsx v)" "trace u = Act_sent tp ack # trace v" "now u = now v"
    "timeout_timer (tsx u) = timeout_timer (tsx v)" "is_reliable (tsx u) = is_reliable (tsx v)"
    "tsx_method (tsx u) = tsx_method (tsx v)"
    by (auto simp: u ack_and_complete_def Let_def)
  show h: "theap u = heap_cancel (c_to (core v))
      (set_te_id (heap_stop (c_rt (core v)) (c_heap (core v))) (c_to (core v)) 0)"
    by (simp add: u ack_and_complete_def Let_def timer_heaps) (simp add: core_def)
  have id: "entry_id u (timeout_timer (tsx u)) = 0"
    unfolding f(6) using heap_chain(4) [OF b h] by (simp add: core_def)
  define w2 where "w2 = pjsip_endpt_cancel_timer (timeout_timer (tsx v))
            (set_entry_id (timeout_timer (tsx v)) 0 (stop_timer (retransmit_timer (tsx v)) v))"
  define w3 where "w3 = emit (Act_sent tp ack) (upd_tdata ack (\<lambda>_. d) w2)"
  have "working E (upd_tdata ack (\<lambda>_. d) w2) tp" using wk by (simp add: working_def w2_def)
  then have s: "send_ack E rdata w2 = (w3, PJ_SUCCESS, ack)"
    by (simp add: send_ack_def ack working_send w3_def)
  have ti: "(if (method_id (tsx_method (tsx v)) = PJSIP_INVITE_METHOD) then send_ack E rdata w2 else (w2, PJ_SUCCESS, 0))
      = (w3, PJ_SUCCESS, ack)" using s inv by simp
  define w4 where "w4 = tsx_set_state E PJSIP_TSX_STATE_COMPLETED (PJSIP_EVENT_RX_MSG rdata) w3"
  have w4: "w4 = upd_tsx (\<lambda>t. t\<lparr>state := PJSIP_TSX_STATE_COMPLETED,
                 state_handler := handler_of (role t) PJSIP_TSX_STATE_COMPLETED\<rparr>) w3"
    by (simp add: w4_def silent_state [OF p] Let_def)
  have u4: "u = (if method_id (tsx_method (tsx v)) = PJSIP_INVITE_METHOD \<and> last_tx (tsx w4) \<noteq> Some ack
      then upd_tsx (\<lambda>t. t\<lparr>last_tx := Some ack\<rparr>) (pjsip_tx_data_dec_ref (the (last_tx (tsx w4))) w4)
      else w4)"
    unfolding u ack_and_complete_def Let_def w2_def [symmetric] w3_def [symmetric] w4 [symmetric] using inv by simp
  show "uac_failure E rdata v = (start_timer (timeout_timer (tsx u)) (timer_d_or_k E (tsx u)) u, PJ_SUCCESS)"
    unfolding uac_failure_def Let_def timer_frame w2_def [symmetric]
    by (simp only: ti prod.case simp_thms if_False w4_def [symmetric] u4 [symmetric] id)
qed

section \<open>From the received response\<close>

text \<open>The world in which the tail runs after a final response came in.\<close>

definition before_tail :: "tsx_env \<Rightarrow> nat \<Rightarrow> tsx_world \<Rightarrow> tsx_world" where
  "before_tail E code w = tsx_set_status_code code
     (if state (tsx w) = PJSIP_TSX_STATE_CALLING then calling_timers E code (lock_tsx w) else lock_tsx w)"

lemma response_dispatch:
  assumes inv: "tsx_inv w" and uac: "role (tsx w) = PJSIP_ROLE_UAC"
    and st: "state (tsx w) = PJSIP_TSX_STATE_CALLING \<or> state (tsx w) = PJSIP_TSX_STATE_PROCEEDING"
    and m: "rx_type rdata = PJSIP_RESPONSE_MSG"
  shows "pjsip_tsx_recv_msg E rdata w = fst (unlock_tsx (fst (uac_dispatch E (PJSIP_EVENT_RX_MSG rdata)
    (before_tail E (rx_code rdata) w))))"
proof -
  have "handler_ok (core w)" using inv by (simp add: tsx_inv_def tsx_base_def)
  then have "state_handler (tsx w) = handler_of (role (tsx w)) (state (tsx w))"
    by (simp add: handler_ok_def core_fold)
  then show ?thesis
    using uac st m
    by (auto simp: pjsip_tsx_recv_msg_def Let_def call_handler_def handler_of_def tsx_on_state_calling_def
        tsx_on_state_proceeding_uac_def before_tail_def)
qed

lemma calling_timers_frame:
  assumes "200 \<le> code"
  shows "tsx (calling_timers E code w) =
      (tsx w)\<lparr>transport_flag := transport_flag (tsx w) - {TSX_HAS_PENDING_RESCHED}\<rparr>"
    "trace (calling_timers E code w) = trace w" "now (calling_timers E code w) = now w"
  using assms by (simp_all add: calling_timers_def Let_def)

lemma before_tail_ok:
  assumes inv: "tsx_inv w" and code: "200 \<le> code" and v: "v = before_tail E code w"
  shows "tsx_base (core v)" "same_tsx (core w) (core v)" "c_state (core v) = c_state (core w)"
    "status_code (tsx v) = code" "trace v = trace w" "now v = now w" "transport (tsx v) = transport (tsx w)"
    "has_flag v TSX_HAS_PENDING_TRANSPORT = has_flag w TSX_HAS_PENDING_TRANSPORT"
    "is_reliable (tsx v) = is_reliable (tsx w)" "last_tx (tsx v) = last_tx (tsx w)"
    "tsx_method (tsx v) = tsx_method (tsx w)"
proof -
  have b: "tsx_base (core (lock_tsx w))" using inv by (simp add: tsx_inv_def)
  note c = calling_timers_frame [OF code, of E "lock_tsx w"]
  show "status_code (tsx v) = code" "trace v = trace w" "now v = now w" "transport (tsx v) = transport (tsx w)"
    "has_flag v TSX_HAS_PENDING_TRANSPORT = has_flag w TSX_HAS_PENDING_TRANSPORT"
    "is_reliable (tsx v) = is_reliable (tsx w)" "last_tx (tsx v) = last_tx (tsx w)"
    "tsx_method (tsx v) = tsx_method (tsx w)"
    by (simp_all add: v before_tail_def c)
  show "tsx_base (core v)" "same_tsx (core w) (core v)" "c_state (core v) = c_state (core w)"
    using calling_timers_ok [OF b, of E code] b by (simp_all add: v before_tail_def)
qed

section \<open>Terminated, and the server's final response\<close>

lemma enter_terminated_plain:
  assumes "\<not> has_flag w TSX_HAS_PENDING_TRANSPORT"
  shows "enter_terminated w = start_timer (timeout_timer (tsx w)) (Time_val 0 0) (stop_timer (timeout_timer (tsx w)) w)"
  using assms by (simp add: enter_terminated_def detach_pending_def Let_def)

lemma set_transport_frame [simp]:
  "tsx (pjsip_tx_data_set_transport td sel w) = tsx w" "trace (pjsip_tx_data_set_transport td sel w) = trace w"
  "now (pjsip_tx_data_set_transport td sel w) = now w" "theap (pjsip_tx_data_set_transport td sel w) = theap w"
  "tx_code (tdatas (pjsip_tx_data_set_transport td sel w) b) = tx_code (tdatas w b)"
  "tx_cseq (tdatas (pjsip_tx_data_set_transport td sel w) b) = tx_cseq (tdatas w b)"
  by (simp_all add: pjsip_tx_data_set_transport_def pjsip_tpselector_add_ref_def pjsip_tpselector_dec_ref_def
      pjsip_transport_add_ref_def pjsip_transport_dec_ref_def upd_tdata_def split: option.split)

lemma dec_ref_tdata [simp]:
  "tx_code (tdatas (pjsip_tx_data_dec_ref td w) b) = tx_code (tdatas w b)"
  "tx_cseq (tdatas (pjsip_tx_data_dec_ref td w) b) = tx_cseq (tdatas w b)"
  "tx_code (tdatas (pjsip_tx_data_add_ref td w) b) = tx_code (tdatas w b)"
  "tx_cseq (tdatas (pjsip_tx_data_add_ref td w) b) = tx_cseq (tdatas w b)"
  "tx_cseq (tdatas (discard_last_tx td w) b) = tx_cseq (tdatas w b)"
  "tx_cseq (tdatas (keep_last_tx td w) b) = tx_cseq (tdatas w b)"
  "tdatas (emit a w) = tdatas w" "tdatas (tsx_set_status_code c w) = tdatas w"
  by (simp_all add: pjsip_tx_data_dec_ref_def pjsip_tx_data_add_ref_def upd_tdata_def Let_def
      pjsip_tpselector_dec_ref_def pjsip_transport_dec_ref_def emit_def tsx_set_status_code_def
      discard_last_tx_def keep_last_tx_def drop_last_tx_def split: option.split)

lemma last_tx_frame [simp]:
  "trace (discard_last_tx td w) = trace w" "now (discard_last_tx td w) = now w" "theap (discard_last_tx td w) = theap w"
  "trace (keep_last_tx td w) = trace w" "now (keep_last_tx td w) = now w" "theap (keep_last_tx td w) = theap w"
  "tsx (keep_last_tx td w) = (tsx w)\<lparr>last_tx := Some td\<rparr>"
  "\<exists>l. tsx (discard_last_tx td w) = (tsx w)\<lparr>last_tx := l\<rparr>"
proof -
  show "trace (discard_last_tx td w) = trace w" "now (discard_last_tx td w) = now w"
    "theap (discard_last_tx td w) = theap w" "trace (keep_last_tx td w) = trace w"
    "now (keep_last_tx td w) = now w" "theap (keep_last_tx td w) = theap w"
    by (simp_all add: discard_last_tx_def keep_last_tx_def drop_last_tx_def split: option.split)
  show "tsx (keep_last_tx td w) = (tsx w)\<lparr>last_tx := Some td\<rparr>"
    by (cases "tsx w") (simp add: keep_last_tx_def)
  show "\<exists>l. tsx (discard_last_tx td w) = (tsx w)\<lparr>last_tx := l\<rparr>"
    by (cases "tsx w") (auto simp: discard_last_tx_def drop_last_tx_def split: option.split)
qed

lemma start_retransmit_plain:
  assumes "\<not> has_flag w TSX_HAS_PENDING_TRANSPORT"
  shows "start_retransmit d w =
    start_timer (retransmit_timer (tsx w)) d (upd_tsx (\<lambda>t. t\<lparr>retransmit_count := 0\<rparr>) w)"
  using assms by (simp add: start_retransmit_def Let_def)

lemma respond_dispatch:
  assumes inv: "tsx_inv w" and uas: "role (tsx w) = PJSIP_ROLE_UAS"
    and st: "state (tsx w) = PJSIP_TSX_STATE_TRYING \<or> state (tsx w) = PJSIP_TSX_STATE_PROCEEDING"
    and r: "uas_respond E td (pjsip_tx_data_set_transport td (tp_sel (tsx w)) (lock_tsx w)) = (u, PJ_SUCCESS)"
      "state (tsx u) \<noteq> PJSIP_TSX_STATE_TRYING"
  shows "pjsip_tsx_send_msg E (Some td) w = (pjsip_tx_data_dec_ref td (fst (unlock_tsx u)), PJ_SUCCESS)"
proof -
  let ?v = "pjsip_tx_data_set_transport td (tp_sel (tsx (lock_tsx w))) (lock_tsx w)"
  have "handler_ok (core w)" using inv by (simp add: tsx_inv_def tsx_base_def)
  then have "state_handler (tsx w) = handler_of (role (tsx w)) (state (tsx w))"
    by (simp add: handler_ok_def core_fold)
  then have "call_handler E (PJSIP_EVENT_TX_MSG td) ?v = (u, PJ_SUCCESS)"
    using uas st r
    by (auto simp: call_handler_def handler_of_def tsx_on_state_trying_def tsx_on_state_proceeding_uas_def)
  then show ?thesis by (simp add: pjsip_tsx_send_msg_def Let_def)
qed

section \<open>The tail of a client handler after a success\<close>

lemma idle_timers:
  assumes b: "tsx_base (core v)" and c: "c = pjsip_endpt_cancel_timer (timeout_timer (tsx v)) v"
  shows "tsx c = tsx v" "trace c = trace v" "now c = now v" "th_inv (theap c)"
    "\<not> pending (theap c) (timeout_timer (tsx v))" "retransmit_timer (tsx v) \<noteq> timeout_timer (tsx v)"
    "\<And>e. pending (theap c) e \<Longrightarrow> pending (theap v) e \<and> ids (theap c) e = ids (theap v) e"
proof -
  have h: "th_inv (theap v)" using baseD(1) [OF b] by (simp add: core_fold)
  have tc: "theap c = heap_cancel (timeout_timer (tsx v)) (theap v)" by (simp add: c timer_heaps)
  note k = heap_cancel [OF h, of "timeout_timer (tsx v)"]
  show "tsx c = tsx v" "trace c = trace v" "now c = now v" by (simp_all add: c)
  show "th_inv (theap c)" "\<not> pending (theap c) (timeout_timer (tsx v))"
    "\<And>e. pending (theap c) e \<Longrightarrow> pending (theap v) e \<and> ids (theap c) e = ids (theap v) e"
    using k by (auto simp: tc pending_view split: if_splits)
  show "retransmit_timer (tsx v) \<noteq> timeout_timer (tsx v)" using baseD(2) [OF b] by (simp add: core_fold)
qed

lemma stop_view:
  assumes "th_inv h" "pending h e \<Longrightarrow> ids h e \<noteq> 0"
  shows "th_view (heap_stop e h) = (th_view h)(e := None)"
  using heap_cancel(2) [OF assms(1)] heap_set_id(2) [OF heap_cancel(1) [OF assms(1)]] assms(2)
  by (cases "th_view h e") (auto simp: heap_stop_def pending_view fun_upd_idem)

lemma success_invite:
  assumes sil: "silent E" and b: "tsx_base (core v)" and np: "\<not> has_flag v TSX_HAS_PENDING_TRANSPORT"
    and inv: "method_id (tsx_method (tsx v)) = PJSIP_INVITE_METHOD"
    and u: "u = fst (uac_success E ev v)"
  shows "state (tsx u) = PJSIP_TSX_STATE_TERMINATED" "trace u = trace v" "status_code (tsx u) = status_code (tsx v)"
    "th_view (theap u) (timeout_timer (tsx v)) = Some (PJ_TIME_VAL_ADD (now v) (Time_val 0 0))"
proof -
  define c where "c = pjsip_endpt_cancel_timer (timeout_timer (tsx v)) v"
  note i = idle_timers [OF b c_def]
  let ?x = "upd_tsx (\<lambda>t. t\<lparr>state := PJSIP_TSX_STATE_TERMINATED,
      state_handler := handler_of (role t) PJSIP_TSX_STATE_TERMINATED\<rparr>) c"
  have "\<not> has_flag ?x TSX_HAS_PENDING_TRANSPORT" using np i(1) by simp
  then have e: "u = start_timer (timeout_timer (tsx v)) (Time_val 0 0) (stop_timer (timeout_timer (tsx v)) ?x)"
    using inv enter_terminated_plain [of ?x] i(1)
    by (simp add: u uac_success_def Let_def c_def [symmetric] silent_state [OF sil])
  have "pending (theap c) (timeout_timer (tsx v)) \<Longrightarrow> ids (theap c) (timeout_timer (tsx v)) \<noteq> 0" using i(5) by simp
  note st = heap_stop [OF i(4) this]
  have "\<not> pending (heap_stop (timeout_timer (tsx v)) (theap c)) (timeout_timer (tsx v))" using st(3) by simp
  note g = heap_start [OF st(1) this, of "now v" "Time_val 0 0"]
  show "state (tsx u) = PJSIP_TSX_STATE_TERMINATED" "trace u = trace v" "status_code (tsx u) = status_code (tsx v)"
    "th_view (theap u) (timeout_timer (tsx v)) = Some (PJ_TIME_VAL_ADD (now v) (Time_val 0 0))"
    using i(1-3) g(2) by (simp_all add: e timer_heaps)
qed

lemma success_other:
  assumes sil: "silent E" and b: "tsx_base (core v)"
    and inv: "method_id (tsx_method (tsx v)) \<noteq> PJSIP_INVITE_METHOD"
    and u: "u = fst (uac_success E ev v)"
  shows "state (tsx u) = PJSIP_TSX_STATE_COMPLETED" "trace u = trace v" "status_code (tsx u) = status_code (tsx v)"
    "\<not> pending (theap u) (retransmit_timer (tsx v))"
    "th_view (theap u) (timeout_timer (tsx v)) = Some (PJ_TIME_VAL_ADD (now v) (timer_d_or_k E (tsx v)))"
proof -
  define c where "c = pjsip_endpt_cancel_timer (timeout_timer (tsx v)) v"
  note i = idle_timers [OF b c_def]
  define z where "z = start_timer (timeout_timer (tsx v)) (timer_d_or_k E (tsx v)) c"
  note g = heap_start [OF i(4,5), of "now v" "timer_d_or_k E (tsx v)"]
  have tz: "tsx z = tsx v" "trace z = trace v" using i(1-3) by (simp_all add: z_def)
  have hz: "theap z = heap_start (now v) (timeout_timer (tsx v)) (timer_d_or_k E (tsx v)) (theap c)"
    using i(3) by (simp add: z_def timer_heaps)
  have e: "u = upd_tsx (\<lambda>t. t\<lparr>state := PJSIP_TSX_STATE_COMPLETED,
      state_handler := handler_of (role t) PJSIP_TSX_STATE_COMPLETED\<rparr>) (stop_timer (retransmit_timer (tsx v)) z)"
    using inv i(1) tz by (simp add: u uac_success_def Let_def c_def [symmetric] z_def [symmetric] silent_state [OF sil])
  have "pending (theap v) (retransmit_timer (tsx v)) \<Longrightarrow> ids (theap v) (retransmit_timer (tsx v)) \<noteq> 0"
    using baseD(4) [OF b] by (simp add: core_fold)
  then have m: "pending (theap z) (retransmit_timer (tsx v)) \<Longrightarrow> ids (theap z) (retransmit_timer (tsx v)) \<noteq> 0"
    using i(6,7) g(3,4) by (auto simp: hz)
  have hi: "th_inv (theap z)" using g(1) by (simp add: hz)
  show "state (tsx u) = PJSIP_TSX_STATE_COMPLETED" "trace u = trace v" "status_code (tsx u) = status_code (tsx v)"
    "\<not> pending (theap u) (retransmit_timer (tsx v))"
    "th_view (theap u) (timeout_timer (tsx v)) = Some (PJ_TIME_VAL_ADD (now v) (timer_d_or_k E (tsx v)))"
    using tz heap_stop(3) [OF hi m] stop_view [OF hi m] i(6) g(2) by (simp_all add: e timer_heaps hz)
qed

section \<open>The final response of a server\<close>

lemma failure_response:
  assumes sil: "silent E" and b: "tsx_base (core v)" and np: "\<not> has_flag v TSX_HAS_PENDING_TRANSPORT"
    and idle: "\<not> pending (theap v) (timeout_timer (tsx v))"
    and inv: "method_id (tsx_method (tsx v)) = PJSIP_INVITE_METHOD"
      "method_id (cseq_method (the (tx_cseq (tdatas v td)))) = PJSIP_INVITE_METHOD"
    and u: "u = uas_failure E td v"
  shows "state (tsx u) = PJSIP_TSX_STATE_COMPLETED" "last_tx (tsx u) = Some td" "trace u = trace v"
    "th_view (theap u) (timeout_timer (tsx v)) = Some (PJ_TIME_VAL_ADD (now v) (timeout_timer_val E))"
    "th_view (theap u) (retransmit_timer (tsx v)) =
      (if is_reliable (tsx v) then None else Some (PJ_TIME_VAL_ADD (now v) t1_timer_val))"
proof -
  define rt where "rt = retransmit_timer (tsx v)"
  define to where "to = timeout_timer (tsx v)"
  define v3 where "v3 = keep_last_tx td (stop_timer rt v)"
  define x where "x = start_timer to (timeout_timer_val E) v3"
  have t3: "timeout_timer (tsx v3) = to" "timer_h_or_j E (tsx v3) = timeout_timer_val E"
    using inv(1) by (simp_all add: v3_def to_def timer_h_or_j_def)
  have x: "tsx x = (tsx v)\<lparr>last_tx := Some td\<rparr>" "trace x = trace v" "now x = now v"
    "theap x = heap_start (now v) to (timeout_timer_val E) (heap_stop rt (theap v))"
    "tx_cseq (tdatas x td) = tx_cseq (tdatas v td)"
    by (simp_all add: x_def v3_def timer_heaps)
  define y where "y = (if is_reliable (tsx v) then x
      else start_timer rt t1_timer_val (upd_tsx (\<lambda>t. t\<lparr>retransmit_count := 0\<rparr>) x))"
  have "\<not> has_flag x TSX_HAS_PENDING_TRANSPORT" using np by (simp add: x)
  from start_retransmit_plain [OF this, of t1_timer_val]
  have e: "u = upd_tsx (\<lambda>t. t\<lparr>state := PJSIP_TSX_STATE_COMPLETED,
      state_handler := handler_of (role t) PJSIP_TSX_STATE_COMPLETED\<rparr>) y"
    using inv x unfolding u uas_failure_def Let_def rt_def [symmetric] v3_def [symmetric] t3 x_def [symmetric]
    by (simp add: silent_state [OF sil] y_def rt_def)
  have h: "th_inv (theap v)" "pending (theap v) rt \<Longrightarrow> ids (theap v) rt \<noteq> 0" "rt \<noteq> to"
    using baseD(1,2,4) [OF b] by (simp_all add: rt_def to_def core_fold)
  note s = heap_stop [OF h(1,2)]
  have i: "\<not> pending (heap_stop rt (theap v)) to" using s idle by (simp add: to_def)
  note g = heap_start [OF s(1) i, of "now v" "timeout_timer_val E"]
  have hx: "th_inv (theap x)" "\<not> pending (theap x) rt" using g s h(3) by (simp_all add: x)
  note g' = heap_start [OF hx, of "now v" t1_timer_val]
  have hy: "theap y = (if is_reliable (tsx v) then theap x else heap_start (now v) rt t1_timer_val (theap x))"
    by (simp add: y_def timer_heaps x)
  show "state (tsx u) = PJSIP_TSX_STATE_COMPLETED" "last_tx (tsx u) = Some td" "trace u = trace v"
    by (simp_all add: e y_def x)
  have "th_view (theap x) to = Some (PJ_TIME_VAL_ADD (now v) (timeout_timer_val E))" using g(2) by (simp add: x)
  then show "th_view (theap u) (timeout_timer (tsx v)) = Some (PJ_TIME_VAL_ADD (now v) (timeout_timer_val E))"
    "th_view (theap u) (retransmit_timer (tsx v)) =
      (if is_reliable (tsx v) then None else Some (PJ_TIME_VAL_ADD (now v) t1_timer_val))"
    using hx(2) g'(2) h(3) by (simp_all add: e hy rt_def [symmetric] to_def [symmetric] pending_view)
qed

lemma respond_failure:
  assumes wk: "working E w tp" and code: "300 \<le> tx_code (tdatas w td)"
  obtains v2 l where "uas_respond E td (pjsip_tx_data_set_transport td (tp_sel (tsx w)) (lock_tsx w)) =
      (uas_failure E td v2, PJ_SUCCESS)" "core v2 = core w" "trace v2 = Act_sent tp td # trace w"
    "now v2 = now w" "tx_cseq (tdatas v2 td) = tx_cseq (tdatas w td)"
    "tsx v2 = (tsx w)\<lparr>tsx_mutex := tsx_mutex (tsx w) + 1, status_code := tx_code (tdatas w td), last_tx := l\<rparr>"
proof -
  define v where "v = pjsip_tx_data_set_transport td (tp_sel (tsx w)) (lock_tsx w)"
  define v1 where "v1 = discard_last_tx td (tsx_set_status_code (tx_code (tdatas v td)) v)"
  define v2 where "v2 = emit (Act_sent tp td) v1"
  have tv: "tsx v = (tsx w)\<lparr>tsx_mutex := tsx_mutex (tsx w) + 1\<rparr>" by (simp add: v_def)
  obtain l where l: "tsx v1 = (tsx v)\<lparr>status_code := tx_code (tdatas w td), last_tx := l\<rparr>"
    using last_tx_frame(8) [of td "tsx_set_status_code (tx_code (tdatas v td)) v"] by (auto simp: v1_def v_def)
  have "working E v1 tp" using wk by (simp add: working_def l tv)
  note snt = working_send [OF this, of td]
  have "3 \<le> tx_code (tdatas w td) div 100" using code by linarith
  then have cls: "\<not> PJSIP_IS_STATUS_IN_CLASS (tx_code (tdatas w td)) 100"
    "\<not> PJSIP_IS_STATUS_IN_CLASS (tx_code (tdatas w td)) 200"
    by (simp_all add: PJSIP_IS_STATUS_IN_CLASS_def)
  have "status_code (tsx v2) = tx_code (tdatas w td)" by (simp add: v2_def l)
  then have "uas_respond E td v = (uas_failure E td v2, PJ_SUCCESS)"
    using snt cls code unfolding uas_respond_def Let_def v1_def [symmetric] by (simp add: v2_def)
  then show ?thesis
    by (rule that [unfolded v_def [symmetric]]) (simp_all add: v2_def l tv, simp_all add: v1_def v_def)
qed

end
