(* ===== verification/Tsx_Flow_Props.thy ===== *)
theory Tsx_Flow_Props
  imports Tsx_Flow Tsx_Props
begin

text \<open>
  What single events make of a transaction, for a silent user and a transport that works, and the
  retransmission schedule.
\<close>

section \<open>Client\<close>

text \<open>C10: a client INVITE transaction that receives a response from 300 to 699 sends one ACK on its
  transport and nothing else, keeps the ACK for retransmission, is Completed with the code of the
  response, has stopped its retransmission timer, and waits for timer D (32 seconds by default; not at
  all on a reliable transport).\<close>

theorem uac_failure_acked:
  assumes "silent E" "tsx_inv w" "working E w tp" "role (tsx w) = PJSIP_ROLE_UAC"
    "method_id (tsx_method (tsx w)) = PJSIP_INVITE_METHOD"
    "state (tsx w) = PJSIP_TSX_STATE_CALLING \<or> state (tsx w) = PJSIP_TSX_STATE_PROCEEDING"
    "rx_type rdata = PJSIP_RESPONSE_MSG" "300 \<le> rx_code rdata" "rx_code rdata \<le> 699"
    "\<And>v l. create_ack E v l rdata = (PJ_SUCCESS, ack, d)"
  shows "let w' = pjsip_tsx_recv_msg E rdata w
    in state (tsx w') = PJSIP_TSX_STATE_COMPLETED \<and> status_code (tsx w') = rx_code rdata \<and>
      trace w' = Act_sent tp ack # trace w \<and> last_tx (tsx w') = Some ack \<and>
      \<not> pending (theap w') (retransmit_timer (tsx w)) \<and>
      th_view (theap w') (timeout_timer (tsx w)) = Some (PJ_TIME_VAL_ADD (now w)
        (if is_reliable (tsx w) then Time_val 0 0 else td_timer_val E))"
proof -
  define v where "v = before_tail E (rx_code rdata) w"
  define u where "u = ack_and_complete E tp ack d v"
  have "200 \<le> rx_code rdata" using assms(8) by simp
  note b = before_tail_ok [OF assms(2) this v_def]
  have wk: "working E v tp" using assms(3) b(7,8) by (simp add: working_def)
  have inv: "method_id (tsx_method (tsx v)) = PJSIP_INVITE_METHOD" using assms(5) b(11) by simp
  note f = failure_unfold [OF assms(1) b(1) wk inv assms(10) u_def]
  have "\<not> PJSIP_IS_STATUS_IN_CLASS (rx_code rdata) 100" "\<not> PJSIP_IS_STATUS_IN_CLASS (rx_code rdata) 200"
    using assms(8) by (auto simp: PJSIP_IS_STATUS_IN_CLASS_def)
  then have r: "pjsip_tsx_recv_msg E rdata w =
      fst (unlock_tsx (start_timer (timeout_timer (tsx u)) (timer_d_or_k E (tsx u)) u))"
    using response_dispatch [OF assms(2,4,6,7)] f(1) b(4) assms(8,9)
    by (simp add: v_def [symmetric] uac_dispatch_def)
  note h = heap_chain [OF b(1) f(10)]
  note s = same_tsxD(6,7) [OF b(2)]
  have n: "th_inv (theap u)" "\<not> pending (theap u) (timeout_timer (tsx w))"
    using h s by (simp_all add: core_fold)
  have t: "timeout_timer (tsx u) = timeout_timer (tsx w)" "retransmit_timer (tsx w) \<noteq> timeout_timer (tsx w)"
    using f(7) s baseD(2) [OF b(1)] by (simp_all add: core_fold)
  note g = heap_start [OF n, of "now u" "timer_d_or_k E (tsx u)"]
  have d: "timer_d_or_k E (tsx u) = (if is_reliable (tsx w) then Time_val 0 0 else td_timer_val E)"
    using f(8,9) b(9,11) assms(5) by (simp add: timer_d_or_k_def)
  have rt: "\<not> pending (theap u) (retransmit_timer (tsx w))" using h(2) s by (simp add: core_fold)
  show ?thesis
    using f(2-6) b(4-6) g t rt unfolding r Let_def by (simp add: timer_heaps d)
qed

definition silent_env :: tsx_env where
  "silent_env = quick_env\<lparr>on_tsx_state := None\<rparr>"

lemma silent_env_ok:
  "silent silent_env" "transport_send silent_env v tp td = PJ_SUCCESS"
  "create_ack silent_env v l rdata = (PJ_SUCCESS, 7, invite_tdata)" "td_timer_val silent_env = Time_val 32 0"
  by (simp_all add: silent_env_def silent_def quick_env_def util_env_def td_timer_val_def)

text \<open>A client INVITE transaction in the state \<open>st\<close> whose transport is known.\<close>

definition invite_world :: "pjsip_tsx_state_e \<Rightarrow> tsx_world" where
  "invite_world st = waiting_world st\<lparr>tsx := (tsx (waiting_world st))
     \<lparr>tsx_method := invite, transport := Some 3, transport_flag := {}\<rparr>\<rparr>"

lemma invite_world_ok:
  assumes "st \<noteq> PJSIP_TSX_STATE_NULL" "st \<noteq> PJSIP_TSX_STATE_TRYING"
  shows "tsx_inv (invite_world st)" "working silent_env (invite_world st) 3"
    "role (tsx (invite_world st)) = PJSIP_ROLE_UAC" "state (tsx (invite_world st)) = st"
    "method_id (tsx_method (tsx (invite_world st))) = PJSIP_INVITE_METHOD"
proof -
  note w = waiting_world_ok [OF assms]
  have "core (invite_world st) = (core (waiting_world st))\<lparr>c_method := invite, c_flags := {}\<rparr>"
    by (simp add: invite_world_def core_def)
  then show "tsx_inv (invite_world st)"
    using w(1) unfolding tsx_inv_def tsx_base_def tables_ok_def marked_def flags_ok_def handler_ok_def calm_def
    by simp
  show "working silent_env (invite_world st) 3" "role (tsx (invite_world st)) = PJSIP_ROLE_UAC"
    "state (tsx (invite_world st)) = st"
    "method_id (tsx_method (tsx (invite_world st))) = PJSIP_INVITE_METHOD"
    using w by (simp_all add: invite_world_def working_def silent_env_ok invite_def)
qed

definition response :: "nat \<Rightarrow> pjsip_rx_data" where
  "response code = invite_rdata\<lparr>rx_type := PJSIP_RESPONSE_MSG, rx_code := code\<rparr>"

theorem uac_failure_acked_witness:
  "trace (pjsip_tsx_recv_msg silent_env (response 486) (invite_world PJSIP_TSX_STATE_PROCEEDING))
   = Act_sent 3 7 # trace (invite_world PJSIP_TSX_STATE_PROCEEDING)"
proof -
  have ne: "PJSIP_TSX_STATE_PROCEEDING \<noteq> PJSIP_TSX_STATE_NULL"
    "PJSIP_TSX_STATE_PROCEEDING \<noteq> PJSIP_TSX_STATE_TRYING" by simp_all
  note i = invite_world_ok [OF ne]
  show ?thesis
    using uac_failure_acked [OF silent_env_ok(1) i(1-3,5), of "response 486", OF _ _ _ _ silent_env_ok(3)] i(4)
    by (simp add: response_def Let_def)
qed

text \<open>C11: a 2xx response ends a client INVITE transaction at once, with nothing sent (its ACK is the
  user's) and the timeout timer armed with no delay; any other client transaction is Completed and
  waits for timer K, with the retransmission timer stopped.\<close>

theorem uac_success_ends:
  assumes "silent E" "tsx_inv w" "\<not> has_flag w TSX_HAS_PENDING_TRANSPORT" "role (tsx w) = PJSIP_ROLE_UAC"
    "state (tsx w) = PJSIP_TSX_STATE_CALLING \<or> state (tsx w) = PJSIP_TSX_STATE_PROCEEDING"
    "rx_type rdata = PJSIP_RESPONSE_MSG" "200 \<le> rx_code rdata" "rx_code rdata \<le> 299"
  shows "let w' = pjsip_tsx_recv_msg E rdata w
    in trace w' = trace w \<and> status_code (tsx w') = rx_code rdata \<and>
      (if method_id (tsx_method (tsx w)) = PJSIP_INVITE_METHOD
       then state (tsx w') = PJSIP_TSX_STATE_TERMINATED \<and>
         th_view (theap w') (timeout_timer (tsx w)) = Some (PJ_TIME_VAL_ADD (now w) (Time_val 0 0))
       else state (tsx w') = PJSIP_TSX_STATE_COMPLETED \<and>
         \<not> pending (theap w') (retransmit_timer (tsx w)) \<and>
         th_view (theap w') (timeout_timer (tsx w)) = Some (PJ_TIME_VAL_ADD (now w)
           (if is_reliable (tsx w) then Time_val 0 0 else t4_timer_val E)))"
proof -
  define v where "v = before_tail E (rx_code rdata) w"
  note b = before_tail_ok [OF assms(2,7) v_def]
  have tc: "timeout_timer (tsx v) = timeout_timer (tsx w)" "retransmit_timer (tsx v) = retransmit_timer (tsx w)"
    using same_tsxD(6,7) [OF b(2)] by (simp_all add: core_fold)
  have "rx_code rdata div 100 = 2" using assms(7,8) by linarith
  then have r: "pjsip_tsx_recv_msg E rdata w = fst (unlock_tsx (fst (uac_success E (PJSIP_EVENT_RX_MSG rdata) v)))"
    using response_dispatch [OF assms(2,4-6)] b(4)
    by (simp add: v_def [symmetric] uac_dispatch_def PJSIP_IS_STATUS_IN_CLASS_def)
  have np: "\<not> has_flag v TSX_HAS_PENDING_TRANSPORT" using assms(3) b(8) by simp
  show ?thesis
  proof (cases "method_id (tsx_method (tsx w)) = PJSIP_INVITE_METHOD")
    case True
    then show ?thesis using success_invite [OF assms(1) b(1) np _ refl] b tc by (simp add: r Let_def)
  next
    case False
    then show ?thesis using success_other [OF assms(1) b(1) _ refl] b tc by (simp add: r Let_def timer_d_or_k_def)
  qed
qed

theorem uac_success_ends_witness:
  "state (tsx (pjsip_tsx_recv_msg silent_env (response 200) (invite_world PJSIP_TSX_STATE_PROCEEDING)))
   = PJSIP_TSX_STATE_TERMINATED"
proof -
  have ne: "PJSIP_TSX_STATE_PROCEEDING \<noteq> PJSIP_TSX_STATE_NULL"
    "PJSIP_TSX_STATE_PROCEEDING \<noteq> PJSIP_TSX_STATE_TRYING" by simp_all
  note i = invite_world_ok [OF ne]
  have "\<not> has_flag (invite_world PJSIP_TSX_STATE_PROCEEDING) TSX_HAS_PENDING_TRANSPORT"
    using i(2) by (simp add: working_def)
  then show ?thesis
    using uac_success_ends [OF silent_env_ok(1) i(1) _ i(3), of "response 200"] i(4,5)
    by (simp add: response_def Let_def)
qed

section \<open>Server\<close>

text \<open>C12: a server INVITE transaction whose user sends a final response from 300 on sends it once, is
  Completed, retransmits it after 200 ms on an unreliable transport (the T1 of this tree, whatever
  the configuration says) and waits for the ACK for as long as timer H (32 seconds by default).\<close>

theorem uas_failure_completes:
  assumes "silent E" "tsx_inv w" "working E w tp" "role (tsx w) = PJSIP_ROLE_UAS"
    "method_id (tsx_method (tsx w)) = PJSIP_INVITE_METHOD"
    "state (tsx w) = PJSIP_TSX_STATE_TRYING \<or> state (tsx w) = PJSIP_TSX_STATE_PROCEEDING"
    "300 \<le> tx_code (tdatas w td)" "method_id (cseq_method (the (tx_cseq (tdatas w td)))) = PJSIP_INVITE_METHOD"
  shows "case pjsip_tsx_send_msg E (Some td) w of (w', status) \<Rightarrow>
    status = PJ_SUCCESS \<and> state (tsx w') = PJSIP_TSX_STATE_COMPLETED \<and>
    trace w' = Act_sent tp td # trace w \<and> last_tx (tsx w') = Some td \<and>
    th_view (theap w') (timeout_timer (tsx w)) = Some (PJ_TIME_VAL_ADD (now w) (td_timer_val E)) \<and>
    th_view (theap w') (retransmit_timer (tsx w)) =
      (if is_reliable (tsx w) then None else Some (PJ_TIME_VAL_ADD (now w) (Time_val 0 200)))"
proof -
  obtain v2 l where v2: "uas_respond E td (pjsip_tx_data_set_transport td (tp_sel (tsx w)) (lock_tsx w)) =
      (uas_failure E td v2, PJ_SUCCESS)" "core v2 = core w" "trace v2 = Act_sent tp td # trace w" "now v2 = now w"
    "tx_cseq (tdatas v2 td) = tx_cseq (tdatas w td)"
    "tsx v2 = (tsx w)\<lparr>tsx_mutex := tsx_mutex (tsx w) + 1, status_code := tx_code (tdatas w td), last_tx := l\<rparr>"
    using respond_failure [OF assms(3,7)] .
  have b: "tsx_base (core v2)" "calm (core v2)" using assms(2) by (simp_all add: tsx_inv_def v2(2))
  have "c_role (core v2) = PJSIP_ROLE_UAS" "c_state (core v2) \<le> PJSIP_TSX_STATE_PROCEEDING"
    using assms(4,6) unfolding v2(2) by (auto simp: core_fold state_order)
  then have idle: "\<not> pending (theap v2) (timeout_timer (tsx v2))"
    by - (rule calm_idle [OF b], simp_all add: core_fold)
  have np: "\<not> has_flag v2 TSX_HAS_PENDING_TRANSPORT" using assms(3) by (simp add: v2(6) working_def)
  note f = failure_response [OF assms(1) b(1) np idle _ _ refl, of td]
  have st: "state (tsx (uas_failure E td v2)) \<noteq> PJSIP_TSX_STATE_TRYING" using f(1) assms(5,8) v2(5,6) by simp
  show ?thesis
    using f assms(5,8) v2(3-6) respond_dispatch [OF assms(2,4,6) v2(1) st]
    by (simp add: timeout_timer_val_def t1_timer_val_def)
qed

text \<open>The server counterpart of the world above: role, handler and method are those of an INVITE server
  transaction, and no timer is pending unless the state is Completed or later.\<close>

definition server_world :: "pjsip_tsx_state_e \<Rightarrow> tsx_world" where
  "server_world st = (let w = (if st \<ge> PJSIP_TSX_STATE_COMPLETED then invite_world st else world1)
     in w\<lparr>tsx := (tsx w)\<lparr>role := PJSIP_ROLE_UAS, state := st, state_handler := tsx_state_handler_uas st,
          tsx_method := invite, transport := Some 3, transport_flag := {}\<rparr>\<rparr>)"

lemma server_world_ok:
  assumes "st \<noteq> PJSIP_TSX_STATE_NULL" "st \<noteq> PJSIP_TSX_STATE_CALLING"
  shows "tsx_inv (server_world st)" "working silent_env (server_world st) 3"
    "role (tsx (server_world st)) = PJSIP_ROLE_UAS" "state (tsx (server_world st)) = st"
    "method_id (tsx_method (tsx (server_world st))) = PJSIP_INVITE_METHOD"
proof -
  let ?w = "if st \<ge> PJSIP_TSX_STATE_COMPLETED then invite_world st else world1"
  have w: "tsx_inv ?w" "PJSIP_TSX_STATE_COMPLETED \<le> st \<or> calm (core ?w) \<and> c_state (core ?w) = PJSIP_TSX_STATE_NULL"
    using invite_world_ok(1) [of st] world1_ok(1,3)
    by (cases st; auto simp: state_order tsx_inv_def core_fold)+
  have h: "tsx_state_handler_uas st = handler_of PJSIP_ROLE_UAS st" by (simp add: handler_of_def)
  have c: "core (server_world st) = (core ?w)\<lparr>c_role := PJSIP_ROLE_UAS, c_state := st,
      c_handler := handler_of PJSIP_ROLE_UAS st, c_method := invite, c_flags := {}\<rparr>"
    by (simp add: server_world_def Let_def core_def h)
  have "tsx_base (core (server_world st))"
    using w(1) assms unfolding c tsx_inv_def tsx_base_def tables_ok_def marked_def flags_ok_def handler_ok_def
    by simp
  moreover have "calm (core (server_world st))"
    using w(2)
  proof
    assume "PJSIP_TSX_STATE_COMPLETED \<le> st"
    then show ?thesis by (intro calm_late) (simp add: c)
  next
    assume "calm (core ?w) \<and> c_state (core ?w) = PJSIP_TSX_STATE_NULL"
    then show ?thesis using assms unfolding c by (simp add: calm_def)
  qed
  ultimately show "tsx_inv (server_world st)" by (simp add: tsx_inv_def)
  show "working silent_env (server_world st) 3" "role (tsx (server_world st)) = PJSIP_ROLE_UAS"
    "state (tsx (server_world st)) = st" "method_id (tsx_method (tsx (server_world st))) = PJSIP_INVITE_METHOD"
    by (simp_all add: server_world_def Let_def working_def silent_env_ok invite_def)
qed

definition busy_here :: pjsip_tx_data where
  "busy_here = invite_tdata\<lparr>tx_type := PJSIP_RESPONSE_MSG, tx_code := 486\<rparr>"

theorem uas_failure_completes_witness:
  "state (tsx (fst (pjsip_tsx_send_msg silent_env (Some 9)
     (upd_tdata 9 (\<lambda>_. busy_here) (server_world PJSIP_TSX_STATE_PROCEEDING))))) = PJSIP_TSX_STATE_COMPLETED"
proof -
  have ne: "PJSIP_TSX_STATE_PROCEEDING \<noteq> PJSIP_TSX_STATE_NULL"
    "PJSIP_TSX_STATE_PROCEEDING \<noteq> PJSIP_TSX_STATE_CALLING" by simp_all
  note i = server_world_ok [OF ne]
  let ?w = "upd_tdata 9 (\<lambda>_. busy_here) (server_world PJSIP_TSX_STATE_PROCEEDING)"
  obtain m where m: "core ?w = (core (server_world PJSIP_TSX_STATE_PROCEEDING))\<lparr>c_mod := m\<rparr>"
    using core_upd_any by blast
  have "tsx_inv ?w" using i(1) by (simp add: tsx_inv_def m)
  moreover have "working silent_env ?w 3" using i(2) by (simp add: working_def)
  moreover have "tdatas ?w 9 = busy_here" by (simp add: upd_tdata_def)
  ultimately show ?thesis
    using uas_failure_completes [OF silent_env_ok(1), of ?w 3 9] i(3-5)
    by (simp add: split_beta busy_here_def invite_tdata_def invite_def)
qed

text \<open>C13: the ACK moves a Completed server INVITE transaction to Confirmed: it stops retransmitting and
  drops a retransmission that was put off. The delay of timer I, however, is none on an unreliable
  transport and T4 on a reliable one.\<close>

theorem uas_ack_confirms:
  assumes "silent E" "tsx_inv w" "role (tsx w) = PJSIP_ROLE_UAS"
    "method_id (tsx_method (tsx w)) = PJSIP_INVITE_METHOD" "state (tsx w) = PJSIP_TSX_STATE_COMPLETED"
    "rx_type rdata = PJSIP_REQUEST_MSG" "method_id (rx_method rdata) = PJSIP_ACK_METHOD"
  shows "let w' = pjsip_tsx_recv_msg E rdata w
    in state (tsx w') = PJSIP_TSX_STATE_CONFIRMED \<and> trace w' = trace w \<and>
      \<not> has_flag w' TSX_HAS_PENDING_RESCHED \<and> \<not> pending (theap w') (retransmit_timer (tsx w)) \<and>
      th_view (theap w') (timeout_timer (tsx w)) = Some (PJ_TIME_VAL_ADD (now w)
        (if is_reliable (tsx w) then t4_timer_val E else Time_val 0 0))"
proof -
  define rt where "rt = retransmit_timer (tsx w)"
  define to where "to = timeout_timer (tsx w)"
  have b: "tsx_base (core w)" using assms(2) by (simp add: tsx_inv_def)
  have ne: "rt \<noteq> to" using baseD(2) [OF b] by (simp add: rt_def to_def core_fold)
  have "state_handler (tsx w) = Some tsx_on_state_completed_uas_h"
    using baseD(7) [OF b] assms(3,5) by (simp add: handler_ok_def core_fold handler_of_def)
  then have r: "pjsip_tsx_recv_msg E rdata w = fst (unlock_tsx (fst (uas_ack E (PJSIP_EVENT_RX_MSG rdata) (lock_tsx w))))"
    using assms(6,7) by (simp add: pjsip_tsx_recv_msg_def Let_def call_handler_def tsx_on_state_completed_uas_def)
  define v where "v = pjsip_endpt_cancel_timer to (clear_flag TSX_HAS_PENDING_RESCHED (stop_timer rt (lock_tsx w)))"
  have tv: "tsx v = (tsx w)\<lparr>tsx_mutex := tsx_mutex (tsx w) + 1,
      transport_flag := transport_flag (tsx w) - {TSX_HAS_PENDING_RESCHED}\<rparr>"
    "trace v = trace w" "now v = now w" by (simp_all add: v_def)
  have d: "timer_i E (tsx v) = (if is_reliable (tsx w) then t4_timer_val E else Time_val 0 0)"
    by (simp add: timer_i_def tv)
  have f: "fst (uas_ack E (PJSIP_EVENT_RX_MSG rdata) (lock_tsx w)) =
      upd_tsx (\<lambda>t. t\<lparr>state := PJSIP_TSX_STATE_CONFIRMED, state_handler := handler_of (role t) PJSIP_TSX_STATE_CONFIRMED\<rparr>)
        (start_timer to (timer_i E (tsx v)) v)"
    using assms(4) by (simp add: uas_ack_def Let_def silent_state [OF assms(1)] v_def rt_def to_def)
  have mk: "pending (theap w) rt \<Longrightarrow> ids (theap w) rt \<noteq> 0"
    using baseD(4) [OF b] by (simp add: rt_def core_fold)
  have h0: "th_inv (theap w)" using baseD(1) [OF b] by (simp add: core_fold)
  note s = heap_stop [OF h0 mk]
  note c = heap_cancel [OF s(1), of to]
  have hv: "theap v = heap_cancel to (heap_stop rt (theap w))" by (simp add: v_def timer_heaps)
  have "\<not> pending (theap v) to" "\<not> pending (theap v) rt" "th_inv (theap v)" using c s by (simp_all add: hv)
  note p = this
  note g = heap_start [OF p(3,1), of "now w" "if is_reliable (tsx w) then t4_timer_val E else Time_val 0 0"]
  show ?thesis
    using g(2,4) p ne unfolding r f d Let_def rt_def [symmetric] to_def [symmetric]
    by (simp add: timer_heaps tv unlock_tsx_def Let_def)
qed

theorem uas_ack_confirms_witness:
  "state (tsx (pjsip_tsx_recv_msg silent_env (invite_rdata\<lparr>rx_method := \<lparr>method_id = PJSIP_ACK_METHOD,
     method_name = [65, 67, 75]\<rparr>\<rparr>) (server_world PJSIP_TSX_STATE_COMPLETED))) = PJSIP_TSX_STATE_CONFIRMED"
proof -
  have ne: "PJSIP_TSX_STATE_COMPLETED \<noteq> PJSIP_TSX_STATE_NULL"
    "PJSIP_TSX_STATE_COMPLETED \<noteq> PJSIP_TSX_STATE_CALLING" by simp_all
  note i = server_world_ok [OF ne]
  show ?thesis
    using uas_ack_confirms [OF silent_env_ok(1) i(1,3,5,4)] by (simp add: Let_def invite_rdata_def)
qed

end
