(* ===== verification/Tsx_Layer_Props.thy ===== *)
theory Tsx_Layer_Props
  imports Tsx_Flow_Props Tsx_Key
begin

text \<open>
  The recursion of the send, the retransmission schedule, the routing of received messages, and the
  two utilities that hide a failure from their caller.
\<close>

section \<open>The recursion of the send\<close>

lemma send_resolved:
  assumes "\<not> has_flag w TSX_HAS_PENDING_TRANSPORT" "has_flag w TSX_HAS_RESOLVED_SERVER"
  shows "tsx_send_msg_via E s td w = tsx_send_msg_via E s' td w"
proof -
  have "transport_flag (tsx (tsx_update_transport None v)) = transport_flag (tsx v)" for v
    by (simp add: core_fold)
  then show ?thesis
    using assms by (simp add: tsx_send_msg_via_def Let_def split: option.split)
qed


section \<open>Retransmission\<close>

lemma shifted_t1:
  "(2 ^ k * 500) mod 2 ^ 32 = (0 :: nat) \<longleftrightarrow> 30 \<le> k"
proof -
  have "(2 ^ k * 500 :: nat) = 2 ^ (k + 2) * 125" by (simp add: power_add)
  moreover have "(2 ^ 32 :: nat) dvd 2 ^ (k + 2) * 125 \<longleftrightarrow> 2 ^ 32 dvd (2 :: nat) ^ (k + 2)"
    by (rule coprime_dvd_mult_left_iff, rule coprime_power_left_iff [THEN iffD2]) simp
  moreover have "2 ^ 32 dvd (2 :: nat) ^ (k + 2) \<longleftrightarrow> 32 \<le> k + 2"
    by (simp only: dvd_power_iff_le [of 2] order.refl)
  ultimately show ?thesis by (simp only: mod_eq_0_iff_dvd) linarith
qed



section \<open>Routing\<close>

lemma route_view:
  assumes "ht_inv (htable (ml_world l))" "rx_cseq rdata = Some hdr" "rx_via rdata = Some via"
    "key = fst (pjsip_tsx_create_key r (cseq_method hdr) via hdr rdata)" "key_fits key"
  shows "route E r rdata l = (case ht_view (htable (ml_world l)) key of
      None \<Rightarrow> (l, False)
    | Some a \<Rightarrow> if state (ml_tsxs l a) = PJSIP_TSX_STATE_TERMINATED then (l, False)
                else (with_tsx a (pjsip_tsx_recv_msg E rdata) l, True))"
  using hreg.get_is_view [OF assms(1,5)] assms(2-4) by (simp add: route_def Let_def)

text \<open>C16: a response is handed to the transaction its request registered, found by the branch of its top
  Via and the method of its CSeq, and to no other; a response without a transaction, or for a
  terminated one, is left to the other modules with nothing changed.\<close>

theorem response_routed:
  assumes "ht_inv (htable (ml_world l))" "rx_cseq rdata = Some hdr" "rx_via rdata = Some via"
    "rfc3261_branch (branch_param via)" "length (method_part (cseq_method hdr) @ branch_param via) < 2 ^ 31"
  shows "mod_tsx_layer_on_rx_response E rdata l =
    (case ht_view (htable (ml_world l)) (fst (create_tsx_key_3261 PJSIP_ROLE_UAC (cseq_method hdr) (branch_param via))) of
      None \<Rightarrow> (l, False)
    | Some a \<Rightarrow> if state (ml_tsxs l a) = PJSIP_TSX_STATE_TERMINATED then (l, False)
                else (with_tsx a (pjsip_tsx_recv_msg E rdata) l, True)) \<and>
    (\<forall>d. tx_branch d = branch_param via \<and> same_key_method (tx_method d) (cseq_method hdr) \<longrightarrow>
      uac_key unique d = fst (create_tsx_key_3261 PJSIP_ROLE_UAC (cseq_method hdr) (branch_param via)))"
proof -
  let ?k = "fst (create_tsx_key_3261 PJSIP_ROLE_UAC (cseq_method hdr) (branch_param via))"
  have k: "?k = fst (pjsip_tsx_create_key PJSIP_ROLE_UAC (cseq_method hdr) via hdr rdata)"
    using assms(4) by (simp add: pjsip_tsx_create_key_def pj_strncmp_eq_def rfc3261_branch_def
        PJSIP_RFC3261_BRANCH_LEN_def PJSIP_RFC3261_BRANCH_ID_def)
  have f: "key_fits ?k" using assms(5) by (simp add: create_tsx_key_3261_def key_fits_def)
  have ne: "branch_param via \<noteq> []" using assms(4) by (auto simp: rfc3261_branch_def PJSIP_RFC3261_BRANCH_ID_def)
  show ?thesis
    using route_view [OF assms(1-3) k f, of E] ne
    by (auto simp: mod_tsx_layer_on_rx_response_def uac_key_def create_tsx_key_3261_def same_key_method_def)
qed

definition client_layer :: mod_tsx_layer where
  "client_layer = \<lparr>ml_world = world1, ml_tsxs = (\<lambda>_. tsx world1)\<rparr>"

definition branch_via :: "8 word \<Rightarrow> pjsip_via_hdr" where
  "branch_via b = \<lparr>via_host = [104], via_port = 5060, branch_param = PJSIP_RFC3261_BRANCH_ID @ [b]\<rparr>"

lemma branch_via_ok: "rfc3261_branch (branch_param (branch_via b))" "length (branch_param (branch_via b)) = 8"
  by (simp_all add: branch_via_def rfc3261_branch_def PJSIP_RFC3261_BRANCH_ID_def)

lemma client_layer_ok:
  "ht_inv (htable (ml_world client_layer))"
  "ht_view (htable (ml_world client_layer)) (uac_key [] invite_tdata) = Some 1"
  "state (ml_tsxs client_layer a) = PJSIP_TSX_STATE_NULL"
  using world1_ok(1,3) create_uac_ok(1) [OF world0_ok(1-4) _ world0_ok(5) refl, of "(PJ_SUCCESS, False)" 5]
  by (simp_all add: client_layer_def tsx_inv_def tsx_base_def tables_ok_def core_def world0_ok(6) world1_def)

theorem response_routed_witness:
  "snd (mod_tsx_layer_on_rx_response silent_env (response 200\<lparr>rx_via := Some (branch_via 49)\<rparr>) client_layer)"
proof -
  let ?r = "response 200\<lparr>rx_via := Some (branch_via 49)\<rparr>"
  have r: "rx_cseq ?r = Some \<lparr>cseq_num = 1, cseq_method = invite\<rparr>" "rx_via ?r = Some (branch_via 49)"
    by (simp_all add: response_def invite_rdata_def)
  have l: "length (method_part (cseq_method \<lparr>cseq_num = 1, cseq_method = invite\<rparr>) @
      branch_param (branch_via 49)) < 2 ^ 31"
    by (simp add: method_part_def invite_def branch_via_ok)
  have k: "tx_branch invite_tdata = branch_param (branch_via 49)" "tx_method invite_tdata = invite"
    by (simp_all add: invite_tdata_def branch_via_def)
  note t = response_routed [OF client_layer_ok(1) r branch_via_ok(1) l, of silent_env "[]"]
  have "uac_key [] invite_tdata = fst (create_tsx_key_3261 PJSIP_ROLE_UAC invite (branch_param (branch_via 49)))"
    using t k by (simp add: same_key_method_def)
  then show ?thesis using t client_layer_ok(2,3) by simp
qed

text \<open>C17: an ACK reaches the server transaction of the INVITE with the same branch.\<close>

theorem ack_routed:
  assumes "ht_inv (htable (ml_world l))" "rx_cseq rdata = Some hdr" "rx_via rdata = Some via"
    "rfc3261_branch (branch_param via)" "length (branch_param via) < 2 ^ 31"
    "method_id (cseq_method hdr) = PJSIP_ACK_METHOD" "method_id m = PJSIP_INVITE_METHOD"
    "ht_view (htable (ml_world l)) (fst (create_tsx_key_3261 PJSIP_ROLE_UAS m (branch_param via))) = Some a"
    "state (ml_tsxs l a) \<noteq> PJSIP_TSX_STATE_TERMINATED"
  shows "mod_tsx_layer_on_rx_request E rdata l = (with_tsx a (pjsip_tsx_recv_msg E rdata) l, True)"
proof -
  let ?k = "fst (create_tsx_key_3261 PJSIP_ROLE_UAS (cseq_method hdr) (branch_param via))"
  have k: "?k = fst (pjsip_tsx_create_key PJSIP_ROLE_UAS (cseq_method hdr) via hdr rdata)"
    using assms(4) by (simp add: pjsip_tsx_create_key_def pj_strncmp_eq_def rfc3261_branch_def
        PJSIP_RFC3261_BRANCH_LEN_def PJSIP_RFC3261_BRANCH_ID_def)
  have p: "method_part (cseq_method hdr) = []" "method_part m = []" using assms(6,7) by (simp_all add: method_part_def)
  have f: "key_fits ?k" using assms(5) by (simp add: create_tsx_key_3261_def key_fits_def p)
  have "?k = fst (create_tsx_key_3261 PJSIP_ROLE_UAS m (branch_param via))"
    by (simp add: create_tsx_key_3261_def p)
  then show ?thesis
    using route_view [OF assms(1-3) k f, of E] assms(8,9) by (simp add: mod_tsx_layer_on_rx_request_def)
qed

definition server_layer :: mod_tsx_layer where
  "server_layer = \<lparr>ml_world = world2, ml_tsxs = (\<lambda>_. tsx world2)\<rparr>"

lemma world2_ok:
  "tsx_inv world2" "state (tsx world2) = PJSIP_TSX_STATE_NULL"
  "ht_view (htable world2) (uas_key invite_rdata (branch_via 50) \<lparr>cseq_num = 1, cseq_method = invite\<rparr>) = Some 1"
proof -
  have a: "al_status alloc0 = PJ_SUCCESS" by (simp add: alloc0_def)
  have m: "pjsip_method_cmp (rx_method invite_rdata) (cseq_method \<lparr>cseq_num = 1, cseq_method = invite\<rparr>)"
    using invite_rdata_ok(4) by simp
  note u = create_uas_unfold [OF a invite_rdata_ok(1,2) m invite_rdata_ok(5)]
  note f = finish_ok [OF uas_newborn world0_ok(1-3) invite_rdata_ok(3), of uas_addr]
  show "tsx_inv world2" "state (tsx world2) = PJSIP_TSX_STATE_NULL"
    "ht_view (htable world2) (uas_key invite_rdata (branch_via 50) \<lparr>cseq_num = 1, cseq_method = invite\<rparr>) = Some 1"
    using f(2,3,4) unfolding world2_def u by (simp_all add: world0_ok(6) branch_via_def)
qed

theorem ack_routed_witness:
  "snd (mod_tsx_layer_on_rx_request silent_env (invite_rdata\<lparr>rx_via := Some (branch_via 50),
     rx_cseq := Some \<lparr>cseq_num = 1, cseq_method = \<lparr>method_id = PJSIP_ACK_METHOD, method_name = [65, 67, 75]\<rparr>\<rparr>\<rparr>)
     server_layer)"
proof -
  let ?a = "\<lparr>method_id = PJSIP_ACK_METHOD, method_name = [65, 67, 75]\<rparr>"
  let ?r = "invite_rdata\<lparr>rx_via := Some (branch_via 50), rx_cseq := Some \<lparr>cseq_num = 1, cseq_method = ?a\<rparr>\<rparr>"
  have k: "uas_key invite_rdata (branch_via 50) \<lparr>cseq_num = 1, cseq_method = invite\<rparr> =
      fst (create_tsx_key_3261 PJSIP_ROLE_UAS invite (branch_param (branch_via 50)))"
    by (simp add: uas_key_def pjsip_tsx_create_key_def pj_strncmp_eq_def branch_via_def invite_rdata_def
        PJSIP_RFC3261_BRANCH_LEN_def PJSIP_RFC3261_BRANCH_ID_def)
  have h: "ht_inv (htable (ml_world server_layer))"
    using world2_ok(1) by (simp add: server_layer_def tsx_inv_def tsx_base_def tables_ok_def core_def)
  have v: "ht_view (htable (ml_world server_layer))
      (fst (create_tsx_key_3261 PJSIP_ROLE_UAS invite (branch_param (branch_via 50)))) = Some 1"
    using world2_ok(3) unfolding k by (simp add: server_layer_def)
  have "mod_tsx_layer_on_rx_request silent_env ?r server_layer =
      (with_tsx 1 (pjsip_tsx_recv_msg silent_env ?r) server_layer, True)"
    by (rule ack_routed [OF h _ _ branch_via_ok(1), where hdr = "\<lparr>cseq_num = 1, cseq_method = ?a\<rparr>" and m = invite])
      (use v world2_ok(2) in \<open>simp_all add: branch_via_ok invite_def server_layer_def\<close>)
  then show ?thesis by simp
qed

section \<open>Failures the utilities hide\<close>

text \<open>When the body of a stateful response cannot be cloned, \<^verbatim>\<open>pjsip_endpt_respond\<close> reports
  success although it neither sent a response nor created a transaction.\<close>

theorem respond_hides_failure:
  "case pjsip_endpt_respond E al ra user (PJ_SUCCESS, td, d) False rdata w of (w', status, result) \<Rightarrow>
    status = PJ_SUCCESS \<and> result = None \<and> trace w' = trace w \<and> htable w' = htable w \<and> tsx w' = tsx w"
proof -
  have "htable (pjsip_tx_data_dec_ref td v) = htable v" for v by (simp add: core_fold)
  then show ?thesis by (simp add: pjsip_endpt_respond_def Let_def) (simp add: upd_tdata_def)
qed

lemma uac_fields:
  assumes "w' = upd_tsx (\<lambda>t. t\<lparr>is_reliable := b\<rparr>) (uac_setup unique td (created al w))"
  shows "transport (tsx w') = None" "transport_flag (tsx w') = {}" "last_tx (tsx w') = Some td"
    "trace w' = trace w"
  by (simp_all add: assms uac_setup_def Let_def created_def tsx_new_def)

lemma finish_fields:
  assumes "snd (finish_create w') = PJ_SUCCESS"
  shows "transport (tsx (fst (finish_create w'))) = transport (tsx w')"
    "transport_flag (tsx (fst (finish_create w'))) = transport_flag (tsx w')"
    "last_tx (tsx (fst (finish_create w'))) = last_tx (tsx w')"
proof -
  have "PJ_EEXISTS \<noteq> PJ_SUCCESS" by simp
  then obtain t where "finish_create w' = (fst (unlock_tsx (w'\<lparr>htable := t\<rparr>)), PJ_SUCCESS)"
    using assms by (auto simp: finish_create_def mod_tsx_layer_register_tsx_def give_up_def Let_def split: if_splits)
  then show "transport (tsx (fst (finish_create w'))) = transport (tsx w')"
    "transport_flag (tsx (fst (finish_create w'))) = transport_flag (tsx w')"
    "last_tx (tsx (fst (finish_create w'))) = last_tx (tsx w')"
    by simp_all
qed

text \<open>A send that fails before the stateless layer has taken the message over.\<close>

lemma failing_send:
  assumes "send_stateless E = (\<lambda>w td. ([], e))" "e \<noteq> PJ_SUCCESS" "e \<noteq> PJ_EPENDING"
    "transport (tsx w) = None" "transport_flag (tsx w) = {}"
  shows "snd (tsx_send_msg E td w) = e"
    "\<exists>m. core (fst (tsx_send_msg E td w)) = (core w)\<lparr>c_mod := m, c_flags := {TSX_HAS_PENDING_TRANSPORT}\<rparr>"
proof -
  let ?v = "set_flag TSX_HAS_PENDING_TRANSPORT (upd_tsx (\<lambda>t. t\<lparr>pending_tx := Some td\<rparr>)
      (upd_tdata td (\<lambda>d. d\<lparr>tx_mod_data := Some (tsx_addr (tsx (pjsip_tx_data_add_ref td w)))\<rparr>)
         (pjsip_tx_data_add_ref td w)))"
  have s: "tsx_send_msg E td w = (upd_tsx (\<lambda>t. t\<lparr>pending_tx := None\<rparr>)
      (upd_tdata td (\<lambda>d. d\<lparr>tx_mod_data := None\<rparr>) (pjsip_tx_data_dec_ref td (emit (Act_stateless td) ?v))), e)"
    using assms by (simp add: tsx_send_msg_def tsx_send_msg_via_def send_by_resolving_def call_stateless_def Let_def
        del: ref_frame)
  show "snd (tsx_send_msg E td w) = e" by (simp add: s)
  have f: "c_flags (core w) = {}" using assms(5) by (simp add: core_def)
  show "\<exists>m. core (fst (tsx_send_msg E td w)) = (core w)\<lparr>c_mod := m, c_flags := {TSX_HAS_PENDING_TRANSPORT}\<rparr>"
    unfolding s by (intro exI [of _ "((c_mod (core w))(td := None))"]) (simp add: f del: ref_frame)
qed

lemma null_send_fails:
  assumes "send_stateless E = (\<lambda>w td. ([], e))" "e \<noteq> PJ_SUCCESS" "e \<noteq> PJ_EPENDING"
    "transport (tsx w) = None" "transport_flag (tsx w) = {}" "last_tx (tsx w) = Some td"
    "state_handler (tsx w) = Some tsx_on_state_null_h" "role (tsx w) = PJSIP_ROLE_UAC"
  obtains w' m where "pjsip_tsx_send_msg E None w = (w', e)"
    "core w' = (core w)\<lparr>c_mod := m, c_flags := {TSX_HAS_PENDING_TRANSPORT}\<rparr>"
proof -
  define v where "v = pjsip_tx_data_set_transport td (tp_sel (tsx (lock_tsx w))) (lock_tsx w)"
  have tv: "transport (tsx v) = None" "transport_flag (tsx v) = {}" "last_tx (tsx v) = Some td"
    "state_handler (tsx v) = Some tsx_on_state_null_h" "role (tsx v) = PJSIP_ROLE_UAC"
    using assms(4-8) by (simp_all add: v_def)
  note fs = failing_send [OF assms(1-3) tv(1,2), of td]
  have k: "keep_last_tx td (discard_last_tx td v) = v"
    using tv(3) by (simp add: keep_last_tx_def discard_last_tx_def)
  have n: "call_handler E (PJSIP_EVENT_TX_MSG td) v = (fst (tsx_send_msg E td v), e)"
    using fs(1) assms(2) tv(5) by (simp add: call_handler_def tv(4) tsx_on_state_null_def Let_def k split_beta)
  have x: "pjsip_tsx_send_msg E None w = (fst (unlock_tsx (fst (tsx_send_msg E td v))), e)"
    using n assms(2,6) by (simp add: pjsip_tsx_send_msg_def Let_def v_def)
  obtain m where "core (fst (tsx_send_msg E td v)) = (core v)\<lparr>c_mod := m, c_flags := {TSX_HAS_PENDING_TRANSPORT}\<rparr>"
    using fs(2) by blast
  then show ?thesis by (intro that [OF x]) (simp add: v_def)
qed

text \<open>When the send of a new request fails at once, \<^verbatim>\<open>pjsip_endpt_send_request\<close> reports the error
  but leaves the transaction it created registered, in the state NULL, with no timer that could ever
  end it.\<close>

theorem send_request_leaks:
  assumes "send_stateless E = (\<lambda>w td. ([], e))" "e \<noteq> PJ_SUCCESS" "e \<noteq> PJ_EPENDING"
    "alloc_ok al w" "th_inv (theap w)" "ht_inv (htable w)" "tx_cseq (tdatas w td) \<noteq> None"
    "fst dest = PJ_SUCCESS" "key_fits (uac_key unique (tdatas w td))"
    "ht_view (htable w) (uac_key unique (tdatas w td)) = None"
  shows "case pjsip_endpt_send_request E al unique dest td token w of (w', status) \<Rightarrow>
    status = e \<and> state (tsx w') = PJSIP_TSX_STATE_NULL \<and>
    ht_view (htable w') (uac_key unique (tdatas w td)) = Some (al_addr al) \<and>
    \<not> pending (theap w') (al_rt al) \<and> \<not> pending (theap w') (al_tt al)"
proof -
  define r where "r = pjsip_tsx_create_uac al unique dest True td w"
  define w1 where "w1 = fst r"
  have a: "al_status al = PJ_SUCCESS" using assms(4) by (simp add: alloc_ok_def)
  note c = create_uac_ok(1) [OF assms(4-9) r_def assms(10)]
  have ru: "r = finish_create (upd_tsx (\<lambda>t. t\<lparr>is_reliable := snd dest\<rparr>) (uac_setup unique td (created al w)))"
    unfolding r_def by (rule create_uac_unfold [OF a assms(7,8)])
  have s: "snd (finish_create (upd_tsx (\<lambda>t. t\<lparr>is_reliable := snd dest\<rparr>) (uac_setup unique td (created al w))))
      = PJ_SUCCESS" using c by (simp add: ru)
  note f = finish_fields [OF s, folded ru, folded w1_def]
  note g = uac_fields [OF refl, of "snd dest" unique td al w]
  define w2 where "w2 = upd_tsx (\<lambda>t. t\<lparr>util_data := Some token\<rparr>)
      (fst (pjsip_tsx_set_transport (tx_tp_sel (tdatas w1 td)) w1))"
  have t2: "transport (tsx w2) = None" "transport_flag (tsx w2) = {}" "last_tx (tsx w2) = Some td"
    using f g by (simp_all add: w2_def pjsip_tsx_set_transport_def Let_def unlock_tsx_def
        pjsip_tpselector_dec_ref_def pjsip_tpselector_add_ref_def pjsip_transport_dec_ref_def
        pjsip_transport_add_ref_def split: option.split)
  have c2: "core w2 = core w1" by (simp add: w2_def pjsip_tsx_set_transport_def Let_def)
  have w1: "tsx_inv w1" "state (tsx w1) = PJSIP_TSX_STATE_NULL" "role (tsx w1) = PJSIP_ROLE_UAC"
    using c by (simp_all add: w1_def)
  have "c_handler (core w2) = Some tsx_on_state_null_h" "c_role (core w2) = PJSIP_ROLE_UAC"
    using w1 by (simp_all add: c2 tsx_inv_def tsx_base_def handler_ok_def core_fold handler_of_def)
  then obtain w' m where x: "pjsip_tsx_send_msg E None w2 = (w', e)"
      "core w' = (core w2)\<lparr>c_mod := m, c_flags := {TSX_HAS_PENDING_TRANSPORT}\<rparr>"
    using null_send_fails [OF assms(1-3) t2] by (auto simp: core_fold)
  have e: "pjsip_endpt_send_request E al unique dest td token w = (pjsip_tx_data_dec_ref td w', e)"
    using c assms(2) x(1) unfolding pjsip_endpt_send_request_def r_def [symmetric]
    by (simp add: split_beta Let_def w1_def [symmetric] w2_def [symmetric])
  have p: "\<not> pending (theap w1) x" if "\<not> pending (theap w) x" for x
    using c that by (simp add: w1_def pending_view)
  show ?thesis
    using w1(2) c p assms(4) unfolding e by (simp add: core_fold x(2) c2 w1_def alloc_ok_def)
qed

theorem send_request_leaks_witness:
  "snd (pjsip_endpt_send_request (quick_env\<lparr>send_stateless := (\<lambda>w td. ([], PJ_ERESOLVE))\<rparr>)
     alloc0 [] (PJ_SUCCESS, False) 5 77 world0) = PJ_ERESOLVE"
  using send_request_leaks [OF _ _ _ world0_ok(1-4) _ world0_ok(5), of
      "quick_env\<lparr>send_stateless := (\<lambda>w td. ([], PJ_ERESOLVE))\<rparr>" PJ_ERESOLVE "(PJ_SUCCESS, False)" 5 77]
  by (simp add: split_beta world0_ok(6))

end
