(* ===== verification/Jb_Framelist.thy ===== *)
theory Jb_Framelist
  imports Pj_Prelude
begin

text \<open>
  The frame list of the jitter buffer (\<^verbatim>\<open>pjmedia/jbuf.c\<close>): a circular buffer of slots kept in
  parallel arrays. \<open>fl_head\<close> is the slot the next get returns, \<open>fl_origin\<close> its sequence number; slot
  \<open>i\<close> of the window holds sequence number \<open>fl_origin + i\<close>.

  Frames are byte lists; \<open>fl_content\<close> has one block of \<open>fl_frame_size\<close> bytes per slot. The C type
  \<^verbatim>\<open>unsigned\<close> is \<open>nat\<close>, with the wrap-around written out where a subtraction could go below 0, and
  \<^verbatim>\<open>int\<close> is \<open>int\<close>: sequence numbers are taken below the limits of 32 bits, beyond which the C
  arithmetic is undefined.
\<close>

section \<open>Data\<close>

text \<open>The last constructor is the internal mark \<^verbatim>\<open>PJMEDIA_JB_DISCARDED_FRAME\<close>.\<close>

datatype pjmedia_jb_frame_type =
    PJMEDIA_JB_MISSING_FRAME | PJMEDIA_JB_NORMAL_FRAME | PJMEDIA_JB_ZERO_PREFETCH_FRAME
  | PJMEDIA_JB_ZERO_EMPTY_FRAME | PJMEDIA_JB_DISCARDED_FRAME

record jb_framelist_t =
  fl_frame_size :: nat
  fl_max_count :: nat
  fl_content :: "8 word list list"
  fl_frame_type :: "pjmedia_jb_frame_type list"
  fl_content_len :: "nat list"
  fl_bit_info :: "32 word list"
  fl_ts :: "32 word list"
  fl_head :: nat
  fl_size :: nat
  fl_discarded_num :: nat
  fl_origin :: int

definition INVALID_OFFSET :: int where
  "INVALID_OFFSET = -9999"

definition MAX_MISORDER :: int where
  "MAX_MISORDER = 100"

definition MAX_DROPOUT :: int where
  "MAX_DROPOUT = 3000"

text \<open>Unsigned subtraction, and the conversion of an unsigned number to \<^verbatim>\<open>int\<close>, in 32 bits.\<close>

definition u32_minus :: "nat \<Rightarrow> nat \<Rightarrow> nat" where
  "u32_minus a b = nat ((int a - int b) mod 2 ^ 32)"

definition to_int :: "nat \<Rightarrow> int" where
  "to_int n = signed_take_bit 31 (int n)"

text \<open>\<^verbatim>\<open>memset\<close> over part of an array, and \<^verbatim>\<open>memcpy\<close> over the start of a block.\<close>

definition fill :: "nat \<Rightarrow> nat \<Rightarrow> 'a \<Rightarrow> 'a list \<Rightarrow> 'a list" where
  "fill a n v xs = take a xs @ replicate n v @ drop (a + n) xs"

definition copy_over :: "'a list \<Rightarrow> nat \<Rightarrow> 'a list \<Rightarrow> 'a list" where
  "copy_over src n dst = take n src @ drop n dst"

section \<open>Creation and queries\<close>

definition jb_framelist_reset :: "jb_framelist_t \<Rightarrow> jb_framelist_t" where
  "jb_framelist_reset fl =
     fl\<lparr>fl_head := 0, fl_origin := INVALID_OFFSET, fl_size := 0, fl_discarded_num := 0,
        fl_frame_type := replicate (fl_max_count fl) PJMEDIA_JB_MISSING_FRAME,
        fl_content_len := replicate (fl_max_count fl) 0\<rparr>"

text \<open>The pool memory the arrays start with is arbitrary.\<close>

definition jb_framelist_init ::
    "nat \<Rightarrow> nat \<Rightarrow> 8 word list list \<times> 32 word list \<times> 32 word list \<Rightarrow> jb_framelist_t" where
  "jb_framelist_init frame_size max_count mem =
     (case mem of (content, bits, stamps) \<Rightarrow>
        jb_framelist_reset \<lparr>fl_frame_size = frame_size, fl_max_count = max_count,
          fl_content = content, fl_frame_type = [], fl_content_len = [], fl_bit_info = bits,
          fl_ts = stamps, fl_head = 0, fl_size = 0, fl_discarded_num = 0, fl_origin = 0\<rparr>)"

definition jb_framelist_size :: "jb_framelist_t \<Rightarrow> nat" where
  "jb_framelist_size fl = fl_size fl"

definition jb_framelist_eff_size :: "jb_framelist_t \<Rightarrow> nat" where
  "jb_framelist_eff_size fl = u32_minus (fl_size fl) (fl_discarded_num fl)"

definition jb_framelist_origin :: "jb_framelist_t \<Rightarrow> int" where
  "jb_framelist_origin fl = fl_origin fl"

section \<open>Removing\<close>

text \<open>One run of slots: the count of discarded frames follows, then the slots are cleared.\<close>

definition uncount :: "nat \<Rightarrow> nat \<Rightarrow> jb_framelist_t \<Rightarrow> jb_framelist_t" where
  "uncount a n fl =
     fl\<lparr>fl_discarded_num :=
          foldl (\<lambda>d i. if fl_frame_type fl ! i = PJMEDIA_JB_DISCARDED_FRAME then u32_minus d 1 else d)
            (fl_discarded_num fl) [a..<a + n]\<rparr>"

definition clear_slots :: "nat \<Rightarrow> nat \<Rightarrow> jb_framelist_t \<Rightarrow> jb_framelist_t" where
  "clear_slots a n fl =
     fl\<lparr>fl_frame_type := fill a n PJMEDIA_JB_MISSING_FRAME (fl_frame_type fl),
        fl_content_len := fill a n 0 (fl_content_len fl)\<rparr>"

definition jb_framelist_remove_head :: "jb_framelist_t \<Rightarrow> nat \<Rightarrow> jb_framelist_t \<times> nat" where
  "jb_framelist_remove_head fl count0 =
     (let count = (if count0 > fl_size fl then fl_size fl else count0)
      in if count = 0 then (fl, count)
         else
           let tmp = fl_head fl + count;
               (step1, step2) =
                 (if tmp > fl_max_count fl
                  then (fl_max_count fl - fl_head fl, count - (fl_max_count fl - fl_head fl))
                  else (count, 0));
               fl = clear_slots (fl_head fl) step1 (uncount (fl_head fl) step1 fl);
               fl = (if step2 \<noteq> 0 then clear_slots 0 step2 (uncount 0 step2 fl) else fl)
           in (fl\<lparr>fl_origin := fl_origin fl + int count,
                  fl_head := (fl_head fl + count) mod fl_max_count fl,
                  fl_size := fl_size fl - count\<rparr>, count))"

section \<open>Getting\<close>

text \<open>
  The loop that skips discarded frames would not end on an empty list whose head slot is marked, so
  it is a partial function.
\<close>

partial_function (option) skip_discarded :: "jb_framelist_t \<Rightarrow> bool \<Rightarrow> (jb_framelist_t \<times> bool) option" where
  "skip_discarded fl prev_discarded =
     (if fl_frame_type fl ! fl_head fl = PJMEDIA_JB_DISCARDED_FRAME
      then skip_discarded (fst (jb_framelist_remove_head fl 1)) True
      else Some (fl, prev_discarded))"

text \<open>
  What a get writes: \<open>None\<close> for a caller's frame that is left alone.
\<close>

record jb_out =
  out_frame :: "8 word list option"
  out_type :: pjmedia_jb_frame_type
  out_size :: nat
  out_bit_info :: "32 word"
  out_ts :: "32 word"
  out_seq :: int

definition head_frame :: "jb_framelist_t \<Rightarrow> bool \<Rightarrow> jb_out" where
  "head_frame fl prev_discarded =
     (if prev_discarded then
        \<lparr>out_frame = None, out_type = PJMEDIA_JB_MISSING_FRAME, out_size = 0, out_bit_info = 0,
         out_ts = fl_ts fl ! fl_head fl, out_seq = fl_origin fl\<rparr>
      else
        \<lparr>out_frame = Some (fl_content fl ! fl_head fl), out_type = fl_frame_type fl ! fl_head fl,
         out_size = fl_content_len fl ! fl_head fl, out_bit_info = fl_bit_info fl ! fl_head fl,
         out_ts = fl_ts fl ! fl_head fl, out_seq = fl_origin fl\<rparr>)"

definition advance_head :: "jb_framelist_t \<Rightarrow> jb_framelist_t" where
  "advance_head fl =
     (let h = fl_head fl
      in fl\<lparr>fl_frame_type := (fl_frame_type fl)[h := PJMEDIA_JB_MISSING_FRAME],
            fl_content_len := (fl_content_len fl)[h := 0],
            fl_bit_info := (fl_bit_info fl)[h := 0], fl_ts := (fl_ts fl)[h := 0],
            fl_origin := fl_origin fl + 1, fl_head := (h + 1) mod fl_max_count fl,
            fl_size := fl_size fl - 1\<rparr>)"

text \<open>Without a frame (\<open>None\<close> inside) the caller's frame is zeroed.\<close>

definition jb_framelist_get :: "jb_framelist_t \<Rightarrow> (jb_framelist_t \<times> jb_out option) option" where
  "jb_framelist_get fl =
     (if fl_size fl = 0 then Some (fl, None)
      else
        map_option
          (\<lambda>(fl, prev_discarded).
             if fl_size fl = 0 then (fl, None)
             else (advance_head fl, Some (head_frame fl prev_discarded)))
          (skip_discarded fl False))"

partial_function (option) peek_pos :: "jb_framelist_t \<Rightarrow> nat \<Rightarrow> nat \<Rightarrow> nat option" where
  "peek_pos fl pos idx =
     (if fl_frame_type fl ! pos \<noteq> PJMEDIA_JB_DISCARDED_FRAME
      then (if idx = 0 then Some pos else peek_pos fl ((pos + 1) mod fl_max_count fl) (idx - 1))
      else peek_pos fl ((pos + 1) mod fl_max_count fl) idx)"

definition jb_framelist_peek :: "jb_framelist_t \<Rightarrow> nat \<Rightarrow> jb_out option option" where
  "jb_framelist_peek fl offset =
     (if offset \<ge> jb_framelist_eff_size fl then Some None
      else
        map_option
          (\<lambda>pos. Some \<lparr>out_frame = Some (fl_content fl ! pos), out_type = fl_frame_type fl ! pos,
             out_size = fl_content_len fl ! pos, out_bit_info = fl_bit_info fl ! pos,
             out_ts = fl_ts fl ! pos, out_seq = fl_origin fl + int offset\<rparr>)
          (peek_pos fl (fl_head fl) offset))"

section \<open>Putting and discarding\<close>

text \<open>Storing into the slot at \<open>distance\<close> from the head, unless it is taken.\<close>

definition put_slot ::
    "jb_framelist_t \<Rightarrow> int \<Rightarrow> int \<Rightarrow> 8 word list \<Rightarrow> nat \<Rightarrow> 32 word \<Rightarrow> 32 word \<Rightarrow> pjmedia_jb_frame_type
     \<Rightarrow> jb_framelist_t \<times> pj_status" where
  "put_slot fl index distance frame frame_size bit_info ts frame_type =
     (let pos = nat ((int (fl_head fl) + distance) mod int (fl_max_count fl))
      in if fl_frame_type fl ! pos \<noteq> PJMEDIA_JB_MISSING_FRAME then (fl, PJ_EEXISTS)
         else
           let fl = fl\<lparr>fl_frame_type := (fl_frame_type fl)[pos := frame_type],
                       fl_content_len := (fl_content_len fl)[pos := frame_size],
                       fl_bit_info := (fl_bit_info fl)[pos := bit_info],
                       fl_ts := (fl_ts fl)[pos := ts]\<rparr>;
               fl = (if fl_origin fl + int (fl_size fl) \<le> index
                     then fl\<lparr>fl_size := nat (distance + 1)\<rparr> else fl);
               fl = (if frame_type = PJMEDIA_JB_NORMAL_FRAME
                     then fl\<lparr>fl_content := (fl_content fl)
                                [pos := copy_over frame frame_size (fl_content fl ! pos)]\<rparr>
                     else fl)
           in (fl, PJ_SUCCESS))"

definition jb_framelist_put_at ::
    "jb_framelist_t \<Rightarrow> int \<Rightarrow> 8 word list \<Rightarrow> nat \<Rightarrow> 32 word \<Rightarrow> 32 word \<Rightarrow> pjmedia_jb_frame_type
     \<Rightarrow> jb_framelist_t \<times> pj_status" where
  "jb_framelist_put_at fl index frame frame_size bit_info ts frame_type =
     (if assert_fails (frame_size \<le> fl_frame_size fl) then (fl, PJ_EINVAL)
      else if index < fl_origin fl \<and> fl_origin fl - index < MAX_MISORDER then (fl, PJ_ETOOSMALL)
      else
        let fl = (if index < fl_origin fl then fl\<lparr>fl_origin := index - int (fl_size fl)\<rparr> else fl);
            fl = (if fl_size fl = 0 then fl\<lparr>fl_origin := index\<rparr> else fl);
            distance = index - fl_origin fl
        in if distance \<ge> to_int (fl_max_count fl)
           then (if distance > MAX_DROPOUT
                 then put_slot ((jb_framelist_reset fl)\<lparr>fl_origin := index\<rparr>) index 0
                        frame frame_size bit_info ts frame_type
                 else (fl, PJ_ETOOMANY))
           else put_slot fl index distance frame frame_size bit_info ts frame_type)"

definition jb_framelist_discard :: "jb_framelist_t \<Rightarrow> int \<Rightarrow> jb_framelist_t \<times> pj_status" where
  "jb_framelist_discard fl index =
     (if assert_fails (fl_origin fl \<le> index \<and> index < fl_origin fl + int (fl_size fl))
      then (fl, PJ_EINVAL)
      else
        let pos = nat ((int (fl_head fl) + (index - fl_origin fl)) mod int (fl_max_count fl))
        in (fl\<lparr>fl_frame_type := (fl_frame_type fl)[pos := PJMEDIA_JB_DISCARDED_FRAME],
               fl_discarded_num := fl_discarded_num fl + 1\<rparr>, PJ_SUCCESS))"

end
