(* ===== verification/Jitter_Buffer.thy ===== *)
theory Jitter_Buffer
  imports Jb_Framelist "HOL-Library.Signed_Division"
begin

text \<open>
  The adaptive jitter buffer (\<^verbatim>\<open>pjmedia/jbuf.c\<close>) on top of its frame list: settings, the burst level
  and prefetch adaptation, the two discard algorithms, put, get, peek and remove.

  Of \<^verbatim>\<open>pj_math_stat\<close> the integer members are modelled; its mean and variance are floating point
  numbers that only the statistics report reads. Trace output is left out. Capacities are taken below
  \<open>2 ^ 29\<close>, so that \<^verbatim>\<open>max_count * 4\<close> does not wrap.
\<close>

section \<open>State\<close>

record pj_math_stat =
  st_n :: int
  st_max :: int
  st_min :: int
  st_last :: int

definition pj_math_stat_init :: pj_math_stat where
  "pj_math_stat_init = \<lparr>st_n = 0, st_max = 0, st_min = 0, st_last = 0\<rparr>"

definition pj_math_stat_update :: "int \<Rightarrow> pj_math_stat \<Rightarrow> pj_math_stat" where
  "pj_math_stat_update val stat =
     (let stat' = stat\<lparr>st_last := val, st_n := st_n stat + 1\<rparr>
      in if st_n stat \<noteq> 0
         then stat'\<lparr>st_min := (if st_min stat > val then val else st_min stat),
                    st_max := (if st_max stat < val then val else st_max stat)\<rparr>
         else stat'\<lparr>st_min := val, st_max := val\<rparr>)"

text \<open>The first constructor is the NULL function pointer of \<^verbatim>\<open>jb_discard_algo\<close>.\<close>

datatype pjmedia_jb_discard_algo =
    PJMEDIA_JB_DISCARD_NONE | PJMEDIA_JB_DISCARD_STATIC | PJMEDIA_JB_DISCARD_PROGRESSIVE

datatype pjmedia_jb_op = JB_OP_INIT | JB_OP_PUT | JB_OP_GET

datatype jb_status = JB_STATUS_INITIALIZING | JB_STATUS_PROCESSING

record pjmedia_jbuf =
  jb_frame_size :: nat
  jb_frame_ptime :: nat
  jb_max_count :: nat
  jb_init_prefetch :: int
  jb_min_prefetch :: int
  jb_max_prefetch :: int
  jb_max_burst :: int
  jb_min_shrink_gap :: int
  jb_discard_algo :: pjmedia_jb_discard_algo
  jb_framelist :: jb_framelist_t
  jb_level :: int
  jb_max_hist_level :: int
  jb_stable_hist :: int
  jb_last_op :: pjmedia_jb_op
  jb_eff_level :: int
  jb_prefetch :: int
  jb_prefetching :: bool
  jb_status :: jb_status
  jb_init_cycle_cnt :: int
  jb_discard_ref :: int
  jb_discard_dist :: nat
  jb_delay :: pj_math_stat
  jb_burst :: pj_math_stat
  jb_lost :: nat
  jb_discard :: nat
  jb_empty :: nat

definition PJMEDIA_JB_DEFAULT_INIT_DELAY :: nat where
  "PJMEDIA_JB_DEFAULT_INIT_DELAY = 15"

definition PJMEDIA_JBUF_DISC_MIN_GAP :: nat where
  "PJMEDIA_JBUF_DISC_MIN_GAP = 200"

definition MAX_BURST_MSEC :: nat where
  "MAX_BURST_MSEC = 1000"

definition INIT_CYCLE :: int where
  "INIT_CYCLE = 10"

definition STA_DISC_SAFE_SHRINKING_DIFF :: int where
  "STA_DISC_SAFE_SHRINKING_DIFF = 1"

definition STABLE_HISTORY_LIMIT :: int where
  "STABLE_HISTORY_LIMIT = 20"

definition PJMEDIA_JBUF_PRO_DISC_MIN_BURST :: nat where
  "PJMEDIA_JBUF_PRO_DISC_MIN_BURST = 1"

definition PJMEDIA_JBUF_PRO_DISC_MAX_BURST :: nat where
  "PJMEDIA_JBUF_PRO_DISC_MAX_BURST = 100"

definition PJMEDIA_JBUF_PRO_DISC_T1 :: nat where
  "PJMEDIA_JBUF_PRO_DISC_T1 = 2000"

definition PJMEDIA_JBUF_PRO_DISC_T2 :: nat where
  "PJMEDIA_JBUF_PRO_DISC_T2 = 10000"

section \<open>Creation and settings\<close>

definition pjmedia_jbuf_set_fixed :: "nat \<Rightarrow> pjmedia_jbuf \<Rightarrow> pjmedia_jbuf \<times> pj_status" where
  "pjmedia_jbuf_set_fixed prefetch jb =
     (if assert_fails (prefetch \<le> jb_max_count jb) then (jb, PJ_EINVAL)
      else (jb\<lparr>jb_min_prefetch := to_int prefetch, jb_max_prefetch := to_int prefetch,
               jb_prefetch := to_int prefetch, jb_init_prefetch := to_int prefetch\<rparr>, PJ_SUCCESS))"

definition pjmedia_jbuf_set_adaptive ::
    "nat \<Rightarrow> nat \<Rightarrow> nat \<Rightarrow> pjmedia_jbuf \<Rightarrow> pjmedia_jbuf \<times> pj_status" where
  "pjmedia_jbuf_set_adaptive prefetch min_prefetch max_prefetch jb =
     (if assert_fails (min_prefetch \<le> max_prefetch \<and> prefetch \<le> max_prefetch \<and>
          max_prefetch \<le> jb_max_count jb) then (jb, PJ_EINVAL)
      else (jb\<lparr>jb_prefetch := to_int prefetch, jb_init_prefetch := to_int prefetch,
               jb_min_prefetch := to_int min_prefetch, jb_max_prefetch := to_int max_prefetch\<rparr>,
            PJ_SUCCESS))"

definition pjmedia_jbuf_set_discard ::
    "pjmedia_jb_discard_algo \<Rightarrow> pjmedia_jbuf \<Rightarrow> pjmedia_jbuf" where
  "pjmedia_jbuf_set_discard algo jb = jb\<lparr>jb_discard_algo := algo\<rparr>"

definition pjmedia_jbuf_reset :: "pjmedia_jbuf \<Rightarrow> pjmedia_jbuf" where
  "pjmedia_jbuf_reset jb =
     jb\<lparr>jb_level := 0, jb_last_op := JB_OP_INIT, jb_stable_hist := 0,
        jb_status := JB_STATUS_INITIALIZING, jb_init_cycle_cnt := 0, jb_max_hist_level := 0,
        jb_prefetching := (jb_prefetch jb \<noteq> 0), jb_discard_dist := 0,
        jb_framelist := jb_framelist_reset (jb_framelist jb)\<rparr>"

text \<open>The structure starts zeroed.\<close>

definition pjmedia_jbuf_create ::
    "nat \<Rightarrow> nat \<Rightarrow> nat \<Rightarrow> 8 word list list \<times> 32 word list \<times> 32 word list \<Rightarrow> pjmedia_jbuf" where
  "pjmedia_jbuf_create frame_size ptime max_count mem =
     pjmedia_jbuf_reset (pjmedia_jbuf_set_discard PJMEDIA_JB_DISCARD_PROGRESSIVE
       \<lparr>jb_frame_size = frame_size, jb_frame_ptime = ptime, jb_max_count = max_count,
        jb_init_prefetch = 0, jb_min_prefetch = 0,
        jb_max_prefetch = int (max_count * 4 div 5),
        jb_max_burst = int (max (MAX_BURST_MSEC div ptime) (max_count * 3 div 4)),
        jb_min_shrink_gap = int (PJMEDIA_JBUF_DISC_MIN_GAP div ptime),
        jb_discard_algo = PJMEDIA_JB_DISCARD_NONE,
        jb_framelist = jb_framelist_init frame_size max_count mem,
        jb_level = 0, jb_max_hist_level = 0, jb_stable_hist = 0, jb_last_op = JB_OP_INIT,
        jb_eff_level = 0,
        jb_prefetch = int (min PJMEDIA_JB_DEFAULT_INIT_DELAY (max_count * 4 div 5)),
        jb_prefetching = False, jb_status = JB_STATUS_INITIALIZING, jb_init_cycle_cnt = 0,
        jb_discard_ref = 0, jb_discard_dist = 0, jb_delay = pj_math_stat_init,
        jb_burst = pj_math_stat_init, jb_lost = 0, jb_discard = 0, jb_empty = 0\<rparr>)"

definition pjmedia_jbuf_is_full :: "pjmedia_jbuf \<Rightarrow> bool" where
  "pjmedia_jbuf_is_full jb = (fl_size (jb_framelist jb) = fl_max_count (jb_framelist jb))"

section \<open>Adaptation\<close>

definition level_decreasing :: "pjmedia_jbuf \<Rightarrow> pjmedia_jbuf" where
  "level_decreasing jb =
     (let jb = jb\<lparr>jb_stable_hist := jb_stable_hist jb + 1\<rparr>
      in if jb_stable_hist jb > STABLE_HISTORY_LIMIT then
           let diff = (jb_eff_level jb - jb_max_hist_level jb) sdiv 3;
               diff = (if diff < 1 then 1 else diff);
               jb = jb\<lparr>jb_eff_level := jb_eff_level jb - diff\<rparr>;
               jb = (if jb_init_prefetch jb \<noteq> 0
                     then jb\<lparr>jb_prefetch := (if jb_eff_level jb < jb_min_prefetch jb then jb_min_prefetch jb
                                             else jb_eff_level jb)\<rparr>
                     else jb)
           in jb\<lparr>jb_max_hist_level := 0, jb_stable_hist := 0\<rparr>
         else jb)"

definition level_increasing :: "pjmedia_jbuf \<Rightarrow> pjmedia_jbuf" where
  "level_increasing jb =
     (let jb = jb\<lparr>jb_eff_level := min (jb_max_hist_level jb) (int (jb_max_count jb * 4 div 5))\<rparr>;
          jb = (if jb_init_prefetch jb \<noteq> 0
                then jb\<lparr>jb_prefetch := (if jb_eff_level jb > jb_max_prefetch jb then jb_max_prefetch jb
                                        else jb_eff_level jb)\<rparr>
                else jb)
      in jb\<lparr>jb_stable_hist := 0\<rparr>)"

definition jbuf_calculate_jitter :: "pjmedia_jbuf \<Rightarrow> pjmedia_jbuf" where
  "jbuf_calculate_jitter jb =
     (let jb = jb\<lparr>jb_burst := pj_math_stat_update (jb_level jb) (jb_burst jb),
                  jb_max_hist_level := max (jb_max_hist_level jb) (jb_level jb)\<rparr>
      in if jb_level jb < jb_eff_level jb then level_decreasing jb
         else if jb_level jb > jb_eff_level jb then level_increasing jb
         else jb\<lparr>jb_stable_hist := 0\<rparr>)"

definition jbuf_discard_static :: "pjmedia_jbuf \<Rightarrow> pjmedia_jbuf" where
  "jbuf_discard_static jb =
     (let burst_level = max (jb_eff_level jb) (jb_level jb);
          diff = to_int (jb_framelist_eff_size (jb_framelist jb)) - burst_level * 2
      in if diff \<ge> STA_DISC_SAFE_SHRINKING_DIFF then
           let seq_origin = jb_framelist_origin (jb_framelist jb);
               jb = (if seq_origin < jb_discard_ref jb then jb\<lparr>jb_discard_ref := seq_origin\<rparr> else jb)
           in if seq_origin - jb_discard_ref jb \<ge> jb_min_shrink_gap jb then
                let (fl, diff) = jb_framelist_remove_head (jb_framelist jb) 1
                in jb\<lparr>jb_framelist := fl, jb_discard_ref := jb_framelist_origin fl,
                      jb_discard := jb_discard jb + diff\<rparr>
              else jb
         else jb)"

definition discard_time :: "nat \<Rightarrow> nat" where
  "discard_time burst_level =
     (if burst_level \<le> PJMEDIA_JBUF_PRO_DISC_MIN_BURST then PJMEDIA_JBUF_PRO_DISC_T1
      else if burst_level \<ge> PJMEDIA_JBUF_PRO_DISC_MAX_BURST then PJMEDIA_JBUF_PRO_DISC_T2
      else PJMEDIA_JBUF_PRO_DISC_T1 +
        (PJMEDIA_JBUF_PRO_DISC_T2 - PJMEDIA_JBUF_PRO_DISC_T1) *
        (burst_level - PJMEDIA_JBUF_PRO_DISC_MIN_BURST) div
        (PJMEDIA_JBUF_PRO_DISC_MAX_BURST - PJMEDIA_JBUF_PRO_DISC_MIN_BURST))"

text \<open>The schedule: a new reference when there is none or the numbering restarted, and the distance.\<close>

definition setup_discard :: "int \<Rightarrow> nat \<Rightarrow> pjmedia_jbuf \<Rightarrow> pjmedia_jbuf" where
  "setup_discard last_seq discard_dist jb =
     (let jb = (if jb_discard_dist jb = 0 then jb\<lparr>jb_discard_ref := last_seq\<rparr>
                else if last_seq < jb_discard_ref jb then jb\<lparr>jb_discard_ref := last_seq\<rparr>
                else jb)
      in jb\<lparr>jb_discard_dist := nat (max (jb_min_shrink_gap jb) (int discard_dist))\<rparr>)"

definition discard_due :: "int \<Rightarrow> pjmedia_jbuf \<Rightarrow> pjmedia_jbuf" where
  "discard_due last_seq jb =
     (if last_seq \<ge> jb_discard_ref jb + int (jb_discard_dist jb) then
        let discard_seq = jb_discard_ref jb + int (jb_discard_dist jb);
            discard_seq = (if discard_seq < jb_framelist_origin (jb_framelist jb)
                           then jb_framelist_origin (jb_framelist jb) else discard_seq)
        in jb\<lparr>jb_framelist := fst (jb_framelist_discard (jb_framelist jb) discard_seq),
              jb_discard_ref := discard_seq\<rparr>
      else jb)"

definition jbuf_discard_progressive :: "pjmedia_jbuf \<Rightarrow> pjmedia_jbuf" where
  "jbuf_discard_progressive jb =
     (if jb_last_op jb \<noteq> JB_OP_PUT then jb
      else
        let cur_size = jb_framelist_eff_size (jb_framelist jb);
            burst_level = nat (max (jb_eff_level jb) (jb_level jb))
        in if cur_size \<le> burst_level then jb\<lparr>jb_discard_dist := 0\<rparr>
           else
             let overflow = cur_size - burst_level;
                 discard_dist = discard_time burst_level div overflow div jb_frame_ptime jb;
                 last_seq = jb_framelist_origin (jb_framelist jb)
                              + int (jb_framelist_size (jb_framelist jb)) - 1
             in discard_due last_seq (setup_discard last_seq discard_dist jb))"

definition run_discard :: "pjmedia_jbuf \<Rightarrow> pjmedia_jbuf" where
  "run_discard jb =
     (if jb_status jb = JB_STATUS_PROCESSING then
        (case jb_discard_algo jb of
           PJMEDIA_JB_DISCARD_NONE \<Rightarrow> jb
         | PJMEDIA_JB_DISCARD_STATIC \<Rightarrow> jbuf_discard_static jb
         | PJMEDIA_JB_DISCARD_PROGRESSIVE \<Rightarrow> jbuf_discard_progressive jb)
      else jb)"

text \<open>
  \<^verbatim>\<open>jbuf_update\<close>: during initialisation an operation switch that does not complete the cycles
  returns before the discard algorithm.
\<close>

definition jbuf_update :: "pjmedia_jb_op \<Rightarrow> pjmedia_jbuf \<Rightarrow> pjmedia_jbuf" where
  "jbuf_update oper jb =
     (if jb_last_op jb \<noteq> oper then
        let jb = jb\<lparr>jb_last_op := oper\<rparr>;
            starting = (jb_status jb = JB_STATUS_INITIALIZING);
            jb = (if starting then jb\<lparr>jb_init_cycle_cnt := jb_init_cycle_cnt jb + 1\<rparr> else jb)
        in if starting \<and> \<not> (jb_init_cycle_cnt jb \<ge> INIT_CYCLE \<and> oper = JB_OP_GET)
           then jb\<lparr>jb_level := 0\<rparr>
           else
             let jb = (if starting
                       then jb\<lparr>jb_status := JB_STATUS_PROCESSING, jb_level := min (jb_level jb) (jb_max_burst jb)\<rparr>
                       else jb);
                 jb = (if oper = JB_OP_GET \<and> jb_level jb \<le> jb_max_burst jb
                       then jbuf_calculate_jitter jb else jb)
             in run_discard (jb\<lparr>jb_level := 0\<rparr>)
      else run_discard jb)"

section \<open>Put\<close>

text \<open>The loop that makes room; \<open>distance\<close> is converted to unsigned by the call.\<close>

partial_function (option) evict_and_put ::
    "8 word list \<Rightarrow> nat \<Rightarrow> 32 word \<Rightarrow> int \<Rightarrow> 32 word \<Rightarrow> pjmedia_jbuf \<Rightarrow> pj_status
     \<Rightarrow> (pjmedia_jbuf \<times> pj_status) option" where
  "evict_and_put frame min_frame_size bit_info frame_seq ts jb status =
     (if status = PJ_ETOOMANY then
        let distance = (frame_seq - jb_framelist_origin (jb_framelist jb)) - int (jb_max_count jb) + 1;
            (fl, removed) = jb_framelist_remove_head (jb_framelist jb) (nat (distance mod 2 ^ 32));
            (fl, status) = jb_framelist_put_at fl frame_seq frame min_frame_size bit_info ts
                             PJMEDIA_JB_NORMAL_FRAME
        in evict_and_put frame min_frame_size bit_info frame_seq ts
             (jb\<lparr>jb_framelist := fl, jb_discard := jb_discard jb + removed\<rparr>) status
      else Some (jb, status))"

definition put_done :: "nat \<Rightarrow> pjmedia_jbuf \<Rightarrow> pj_status \<Rightarrow> pjmedia_jbuf" where
  "put_done cur_size jb status =
     (let new_size = jb_framelist_eff_size (jb_framelist jb)
      in if status = PJ_SUCCESS then
           let jb = (if jb_prefetching jb \<and> to_int new_size \<ge> jb_prefetch jb
                     then jb\<lparr>jb_prefetching := False\<rparr> else jb)
           in jbuf_update JB_OP_PUT
                (jb\<lparr>jb_level := jb_level jb +
                      (if to_int new_size > to_int cur_size then to_int new_size - to_int cur_size else 1)\<rparr>)
         else jb\<lparr>jb_discard := jb_discard jb + 1\<rparr>)"

text \<open>The second result is the flag \<^verbatim>\<open>*discarded\<close>; the length of \<open>frame\<close> is \<^verbatim>\<open>frame_size\<close>.\<close>

definition pjmedia_jbuf_put_frame3 ::
    "8 word list \<Rightarrow> 32 word \<Rightarrow> int \<Rightarrow> 32 word \<Rightarrow> pjmedia_jbuf \<Rightarrow> (pjmedia_jbuf \<times> bool) option" where
  "pjmedia_jbuf_put_frame3 frame bit_info frame_seq ts jb =
     (let cur_size = jb_framelist_eff_size (jb_framelist jb);
          min_frame_size = min (length frame) (jb_frame_size jb);
          (fl, status) = jb_framelist_put_at (jb_framelist jb) frame_seq frame min_frame_size bit_info
                           ts PJMEDIA_JB_NORMAL_FRAME
      in map_option (\<lambda>(jb, status). (put_done cur_size jb status, status \<noteq> PJ_SUCCESS))
           (evict_and_put frame min_frame_size bit_info frame_seq ts (jb\<lparr>jb_framelist := fl\<rparr>) status))"

definition pjmedia_jbuf_put_frame2 ::
    "8 word list \<Rightarrow> 32 word \<Rightarrow> int \<Rightarrow> pjmedia_jbuf \<Rightarrow> (pjmedia_jbuf \<times> bool) option" where
  "pjmedia_jbuf_put_frame2 frame bit_info frame_seq jb = pjmedia_jbuf_put_frame3 frame bit_info frame_seq 0 jb"

definition pjmedia_jbuf_put_frame :: "8 word list \<Rightarrow> int \<Rightarrow> pjmedia_jbuf \<Rightarrow> pjmedia_jbuf option" where
  "pjmedia_jbuf_put_frame frame frame_seq jb =
     map_option fst (pjmedia_jbuf_put_frame3 frame 0 frame_seq 0 jb)"

section \<open>Get\<close>

text \<open>
  What a get reports: the frame type, the size, the bytes written to the caller's frame (\<open>None\<close> when
  it is left alone) and the bit info, time stamp and sequence number when they are written.
\<close>

record jb_got =
  got_type :: pjmedia_jb_frame_type
  got_size :: nat
  got_frame :: "8 word list option"
  got_info :: "(32 word \<times> 32 word \<times> int) option"

definition get_prefetching :: "pjmedia_jbuf \<Rightarrow> pjmedia_jbuf \<times> jb_got" where
  "get_prefetching jb =
     (jb\<lparr>jb_empty := jb_empty jb + 1\<rparr>,
      \<lparr>got_type = PJMEDIA_JB_ZERO_PREFETCH_FRAME, got_size = 0, got_frame = None, got_info = None\<rparr>)"

definition get_found :: "jb_out \<Rightarrow> pjmedia_jbuf \<Rightarrow> pjmedia_jbuf \<times> jb_got" where
  "get_found r jb =
     (let jb = (if out_type r = PJMEDIA_JB_NORMAL_FRAME then jb else jb\<lparr>jb_lost := jb_lost jb + 1\<rparr>);
          cur_size = jb_framelist_eff_size (jb_framelist jb) + 1;
          jb = (if jb_last_op jb = JB_OP_PUT
                then jb\<lparr>jb_delay := pj_math_stat_update (to_int (cur_size * jb_frame_ptime jb)) (jb_delay jb)\<rparr>
                else jb)
      in (jb, \<lparr>got_type = (if out_type r = PJMEDIA_JB_NORMAL_FRAME then PJMEDIA_JB_NORMAL_FRAME
                           else PJMEDIA_JB_MISSING_FRAME),
               got_size = out_size r, got_frame = out_frame r,
               got_info = Some (out_bit_info r, out_ts r, out_seq r)\<rparr>))"

definition get_empty :: "pjmedia_jbuf \<Rightarrow> pjmedia_jbuf \<times> jb_got" where
  "get_empty jb =
     (let jb = (if jb_prefetch jb \<noteq> 0 then jb\<lparr>jb_prefetching := True\<rparr> else jb)
      in (jb\<lparr>jb_empty := jb_empty jb + 1\<rparr>,
          \<lparr>got_type = PJMEDIA_JB_ZERO_EMPTY_FRAME, got_size = 0,
           got_frame = Some (replicate (fl_frame_size (jb_framelist jb)) 0), got_info = None\<rparr>))"

definition pjmedia_jbuf_get_frame3 :: "pjmedia_jbuf \<Rightarrow> (pjmedia_jbuf \<times> jb_got) option" where
  "pjmedia_jbuf_get_frame3 jb =
     map_option (\<lambda>(jb, got). (jbuf_update JB_OP_GET (jb\<lparr>jb_level := jb_level jb + 1\<rparr>), got))
       (if jb_prefetching jb then Some (get_prefetching jb)
        else
          map_option
            (\<lambda>(fl, res). case res of
               Some r \<Rightarrow> get_found r (jb\<lparr>jb_framelist := fl\<rparr>)
             | None \<Rightarrow> get_empty (jb\<lparr>jb_framelist := fl\<rparr>))
            (jb_framelist_get (jb_framelist jb)))"

text \<open>The other two gets pass NULL for what they do not report.\<close>

definition pjmedia_jbuf_get_frame2 ::
    "pjmedia_jbuf \<Rightarrow> (pjmedia_jbuf \<times> 8 word list option \<times> nat \<times> pjmedia_jb_frame_type \<times> 32 word option) option" where
  "pjmedia_jbuf_get_frame2 jb =
     map_option (\<lambda>(jb, g). (jb, got_frame g, got_size g, got_type g, map_option fst (got_info g)))
       (pjmedia_jbuf_get_frame3 jb)"

definition pjmedia_jbuf_get_frame ::
    "pjmedia_jbuf \<Rightarrow> (pjmedia_jbuf \<times> 8 word list option \<times> pjmedia_jb_frame_type) option" where
  "pjmedia_jbuf_get_frame jb =
     map_option (\<lambda>(jb, g). (jb, got_frame g, got_type g)) (pjmedia_jbuf_get_frame3 jb)"

section \<open>State, peek, remove\<close>

text \<open>The members of \<^verbatim>\<open>pjmedia_jb_state\<close> that are not computed from the floating point statistics.\<close>

record pjmedia_jb_state =
  js_frame_size :: nat
  js_min_prefetch :: int
  js_max_prefetch :: int
  js_burst :: int
  js_prefetch :: int
  js_size :: nat
  js_min_delay :: int
  js_max_delay :: int
  js_empty :: nat
  js_discard :: nat
  js_lost :: nat

definition pjmedia_jbuf_get_state :: "pjmedia_jbuf \<Rightarrow> pjmedia_jb_state" where
  "pjmedia_jbuf_get_state jb =
     \<lparr>js_frame_size = jb_frame_size jb, js_min_prefetch = jb_min_prefetch jb,
      js_max_prefetch = jb_max_prefetch jb, js_burst = jb_eff_level jb, js_prefetch = jb_prefetch jb,
      js_size = jb_framelist_eff_size (jb_framelist jb), js_min_delay = st_min (jb_delay jb),
      js_max_delay = st_max (jb_delay jb), js_empty = jb_empty jb, js_discard = jb_discard jb,
      js_lost = jb_lost jb\<rparr>"

definition pjmedia_jbuf_peek_frame ::
    "nat \<Rightarrow> pjmedia_jbuf \<Rightarrow> (pjmedia_jb_frame_type \<times> jb_out option) option" where
  "pjmedia_jbuf_peek_frame offset jb =
     map_option
       (\<lambda>res. case res of
          None \<Rightarrow> (PJMEDIA_JB_ZERO_EMPTY_FRAME, None)
        | Some r \<Rightarrow>
            (if out_type r = PJMEDIA_JB_NORMAL_FRAME then PJMEDIA_JB_NORMAL_FRAME
             else PJMEDIA_JB_MISSING_FRAME, Some r))
       (jb_framelist_peek (jb_framelist jb) offset)"

text \<open>The loop of \<^verbatim>\<open>pjmedia_jbuf_remove_frame\<close> ends because \<open>last_discard_num\<close> falls at every turn.\<close>

function remove_more :: "jb_framelist_t \<Rightarrow> nat \<Rightarrow> nat \<Rightarrow> jb_framelist_t \<times> nat" where
  "remove_more fl last_discard_num count =
     (if fl_discarded_num fl < last_discard_num then
        let frame_cnt = u32_minus last_discard_num (fl_discarded_num fl);
            (fl', removed) = jb_framelist_remove_head fl frame_cnt
        in remove_more fl' (fl_discarded_num fl) ((u32_minus count frame_cnt + removed) mod 2 ^ 32)
      else (fl, count))"
  by pat_completeness auto
termination
  by (relation "measure (\<lambda>(fl, last_discard_num, count). last_discard_num)") auto

declare remove_more.simps [simp del]

definition pjmedia_jbuf_remove_frame :: "nat \<Rightarrow> pjmedia_jbuf \<Rightarrow> pjmedia_jbuf \<times> nat" where
  "pjmedia_jbuf_remove_frame frame_cnt jb =
     (let last_discard_num = fl_discarded_num (jb_framelist jb);
          (fl, count) = jb_framelist_remove_head (jb_framelist jb) frame_cnt;
          (fl, count) = remove_more fl last_discard_num count
      in (jb\<lparr>jb_framelist := fl\<rparr>, count))"

end
