(* ===== verification/Jb_Framelist_Inv.thy ===== *)
theory Jb_Framelist_Inv
  imports Jb_Framelist
begin

text \<open>
  The invariant of the frame list, the window of slots it stands for, and what removing does to
  them.
\<close>

section \<open>Window and invariant\<close>

datatype jb_slot = Gap | Dropped | Held "8 word list" "32 word" "32 word"

definition pos :: "jb_framelist_t \<Rightarrow> nat \<Rightarrow> nat" where
  "pos fl i = (fl_head fl + i) mod fl_max_count fl"

definition slot_at :: "jb_framelist_t \<Rightarrow> nat \<Rightarrow> jb_slot" where
  "slot_at fl p =
     (case fl_frame_type fl ! p of
        PJMEDIA_JB_MISSING_FRAME \<Rightarrow> Gap
      | PJMEDIA_JB_DISCARDED_FRAME \<Rightarrow> Dropped
      | _ \<Rightarrow> Held (take (fl_content_len fl ! p) (fl_content fl ! p)) (fl_bit_info fl ! p) (fl_ts fl ! p))"

definition window :: "jb_framelist_t \<Rightarrow> jb_slot list" where
  "window fl = map (\<lambda>i. slot_at fl (pos fl i)) [0..<fl_size fl]"

definition fl_shape :: "jb_framelist_t \<Rightarrow> bool" where
  "fl_shape fl \<longleftrightarrow>
     0 < fl_max_count fl \<and> fl_max_count fl < 2 ^ 31 \<and> fl_head fl < fl_max_count fl \<and>
     fl_size fl \<le> fl_max_count fl \<and> length (fl_content fl) = fl_max_count fl \<and>
     length (fl_frame_type fl) = fl_max_count fl \<and> length (fl_content_len fl) = fl_max_count fl \<and>
     length (fl_bit_info fl) = fl_max_count fl \<and> length (fl_ts fl) = fl_max_count fl \<and>
     (\<forall>p<fl_max_count fl. length (fl_content fl ! p) = fl_frame_size fl \<and>
        fl_content_len fl ! p \<le> fl_frame_size fl)"

text \<open>
  Outside the window every slot is missing, a missing slot has length 0, only three types occur, and
  the count of discarded frames is exact.
\<close>

definition fl_inv :: "jb_framelist_t \<Rightarrow> bool" where
  "fl_inv fl \<longleftrightarrow>
     fl_shape fl \<and>
     (\<forall>p<fl_max_count fl. fl_frame_type fl ! p \<in>
        {PJMEDIA_JB_MISSING_FRAME, PJMEDIA_JB_NORMAL_FRAME, PJMEDIA_JB_DISCARDED_FRAME}) \<and>
     (\<forall>p<fl_max_count fl. fl_frame_type fl ! p = PJMEDIA_JB_MISSING_FRAME \<longrightarrow> fl_content_len fl ! p = 0) \<and>
     (\<forall>i. fl_size fl \<le> i \<and> i < fl_max_count fl \<longrightarrow> fl_frame_type fl ! pos fl i = PJMEDIA_JB_MISSING_FRAME) \<and>
     fl_discarded_num fl = length (filter (\<lambda>s. s = Dropped) (window fl))"

lemma window_length [simp]: "length (window fl) = fl_size fl"
  by (simp add: window_def)

lemma window_nth: "i < fl_size fl \<Longrightarrow> window fl ! i = slot_at fl (pos fl i)"
  by (simp add: window_def)

lemma slot_at_iff [simp]:
  "slot_at fl p = Dropped \<longleftrightarrow> fl_frame_type fl ! p = PJMEDIA_JB_DISCARDED_FRAME"
  "slot_at fl p = Gap \<longleftrightarrow> fl_frame_type fl ! p = PJMEDIA_JB_MISSING_FRAME"
  by (simp_all add: slot_at_def split: pjmedia_jb_frame_type.split)

section \<open>Positions\<close>

lemma pos_split:
  assumes "i < fl_max_count fl" "fl_head fl < fl_max_count fl"
  shows "pos fl i = (if fl_head fl + i < fl_max_count fl then fl_head fl + i
                     else fl_head fl + i - fl_max_count fl)"
  using assms by (auto simp: pos_def le_mod_geq)

lemma pos_less [simp]: "0 < fl_max_count fl \<Longrightarrow> pos fl i < fl_max_count fl"
  by (simp add: pos_def)

lemma pos_inj:
  assumes "i < fl_max_count fl" "j < fl_max_count fl" "fl_head fl < fl_max_count fl"
  shows "pos fl i = pos fl j \<longleftrightarrow> i = j"
  using assms by (auto simp: pos_split split: if_splits)

lemma pos_onto:
  assumes "p < fl_max_count fl" "fl_head fl < fl_max_count fl"
  obtains i where "i < fl_max_count fl" "p = pos fl i"
proof (cases "fl_head fl \<le> p")
  case True
  then show thesis using assms by (intro that [of "p - fl_head fl"]) (auto simp: pos_split)
next
  case False
  then show thesis using assms by (intro that [of "p + fl_max_count fl - fl_head fl"]) (auto simp: pos_split)
qed

text \<open>The two runs of slots that the first \<open>n\<close> positions make.\<close>

lemma pos_runs:
  assumes "n \<le> fl_max_count fl" "fl_head fl < fl_max_count fl"
  shows "map (pos fl) [0..<n] =
    (if fl_head fl + n > fl_max_count fl
     then [fl_head fl..<fl_max_count fl] @ [0..<fl_head fl + n - fl_max_count fl]
     else [fl_head fl..<fl_head fl + n])"
  using assms by (intro nth_equalityI) (auto simp: pos_split nth_append)

lemma nth_fill:
  assumes "a + n \<le> length xs" "p < length xs"
  shows "fill a n v xs ! p = (if a \<le> p \<and> p < a + n then v else xs ! p)"
  using assms by (auto simp: fill_def nth_append)

lemma length_fill [simp]: "a + n \<le> length xs \<Longrightarrow> length (fill a n v xs) = length xs"
  by (simp add: fill_def)

section \<open>Counting\<close>

lemma u32_minus_small: "b \<le> a \<Longrightarrow> a < 2 ^ 32 \<Longrightarrow> u32_minus a b = a - b"
  by (simp add: u32_minus_def mod_pos_pos_trivial)

lemma to_int_small: "n < 2 ^ 31 \<Longrightarrow> to_int n = int n"
  by (simp add: to_int_def signed_take_bit_int_eq_self)

lemma uncount_fold:
  assumes "length (filter P is) \<le> d" "d < 2 ^ 32"
  shows "foldl (\<lambda>d i. if P i then u32_minus d 1 else d) d is = d - length (filter P is)"
  using assms by (induction "is" arbitrary: d) (auto simp: u32_minus_small)

definition dropped_in :: "jb_framelist_t \<Rightarrow> nat list \<Rightarrow> nat" where
  "dropped_in fl ps = length (filter (\<lambda>p. fl_frame_type fl ! p = PJMEDIA_JB_DISCARDED_FRAME) ps)"

lemma dropped_in_append [simp]: "dropped_in fl (ps @ qs) = dropped_in fl ps + dropped_in fl qs"
  by (simp add: dropped_in_def)

lemma dropped_window:
  "length (filter (\<lambda>s. s = Dropped) (window fl)) = dropped_in fl (map (pos fl) [0..<fl_size fl])"
  by (simp add: window_def dropped_in_def filter_map o_def)

lemma uncount_simps [simp]:
  "fl_frame_type (uncount a n fl) = fl_frame_type fl" "fl_content_len (uncount a n fl) = fl_content_len fl"
  "fl_content (uncount a n fl) = fl_content fl" "fl_bit_info (uncount a n fl) = fl_bit_info fl"
  "fl_ts (uncount a n fl) = fl_ts fl" "fl_head (uncount a n fl) = fl_head fl"
  "fl_size (uncount a n fl) = fl_size fl" "fl_max_count (uncount a n fl) = fl_max_count fl"
  "fl_frame_size (uncount a n fl) = fl_frame_size fl" "fl_origin (uncount a n fl) = fl_origin fl"
  by (simp_all add: uncount_def)

lemma clear_simps [simp]:
  "fl_frame_type (clear_slots a n fl) = fill a n PJMEDIA_JB_MISSING_FRAME (fl_frame_type fl)"
  "fl_content_len (clear_slots a n fl) = fill a n 0 (fl_content_len fl)"
  "fl_content (clear_slots a n fl) = fl_content fl" "fl_bit_info (clear_slots a n fl) = fl_bit_info fl"
  "fl_ts (clear_slots a n fl) = fl_ts fl" "fl_head (clear_slots a n fl) = fl_head fl"
  "fl_size (clear_slots a n fl) = fl_size fl" "fl_max_count (clear_slots a n fl) = fl_max_count fl"
  "fl_frame_size (clear_slots a n fl) = fl_frame_size fl" "fl_origin (clear_slots a n fl) = fl_origin fl"
  "fl_discarded_num (clear_slots a n fl) = fl_discarded_num fl"
  by (simp_all add: clear_slots_def)

lemma uncount_dropped:
  assumes "dropped_in fl [a..<a + n] \<le> fl_discarded_num fl" "fl_discarded_num fl < 2 ^ 32"
  shows "fl_discarded_num (uncount a n fl) = fl_discarded_num fl - dropped_in fl [a..<a + n]"
  using assms uncount_fold [of "\<lambda>p. fl_frame_type fl ! p = PJMEDIA_JB_DISCARDED_FRAME"]
  by (simp add: uncount_def dropped_in_def)

end
