(* ===== verification/Jb_Framelist_Ops.thy ===== *)
theory Jb_Framelist_Ops
  imports Jb_Framelist_Inv
begin

text \<open>
  Every operation of the frame list keeps the invariant and acts on the window as a list
  operation.
\<close>

section \<open>Consequences of the invariant\<close>

lemma fl_invD:
  assumes "fl_inv fl"
  shows "0 < fl_max_count fl" "fl_head fl < fl_max_count fl" "fl_size fl \<le> fl_max_count fl"
    "fl_max_count fl < 2 ^ 31" "length (fl_frame_type fl) = fl_max_count fl"
    "length (fl_content_len fl) = fl_max_count fl" "length (fl_content fl) = fl_max_count fl"
    "length (fl_bit_info fl) = fl_max_count fl" "length (fl_ts fl) = fl_max_count fl"
  using assms by (auto simp: fl_inv_def fl_shape_def)

lemma fl_inv_types:
  assumes "fl_inv fl" "p < fl_max_count fl"
  shows "fl_frame_type fl ! p \<in>
    {PJMEDIA_JB_MISSING_FRAME, PJMEDIA_JB_NORMAL_FRAME, PJMEDIA_JB_DISCARDED_FRAME}"
  using assms by (auto simp: fl_inv_def)

lemma fl_inv_outside:
  assumes "fl_inv fl" "fl_size fl \<le> i" "i < fl_max_count fl"
  shows "fl_frame_type fl ! pos fl i = PJMEDIA_JB_MISSING_FRAME"
  using assms by (auto simp: fl_inv_def)

lemma fl_inv_count:
  assumes "fl_inv fl"
  shows "fl_discarded_num fl = length (filter (\<lambda>s. s = Dropped) (window fl))"
    "fl_discarded_num fl = dropped_in fl (map (pos fl) [0..<fl_size fl])"
    "fl_discarded_num fl \<le> fl_size fl"
proof -
  show a: "fl_discarded_num fl = length (filter (\<lambda>s. s = Dropped) (window fl))"
    using assms by (simp add: fl_inv_def)
  show "fl_discarded_num fl = dropped_in fl (map (pos fl) [0..<fl_size fl])"
    using a dropped_window by simp
  show "fl_discarded_num fl \<le> fl_size fl"
    using length_filter_le [of _ "window fl"] by (simp add: a)
qed

lemma eff_size_view:
  assumes "fl_inv fl"
  shows "jb_framelist_eff_size fl = length (filter (\<lambda>s. s \<noteq> Dropped) (window fl))"
    "jb_framelist_eff_size fl \<le> fl_size fl"
    "to_int (jb_framelist_eff_size fl) = int (jb_framelist_eff_size fl)"
proof -
  have "fl_size fl < 2 ^ 32" using fl_invD(3,4) [OF assms] by simp
  then have e: "jb_framelist_eff_size fl = fl_size fl - fl_discarded_num fl"
    using fl_inv_count(3) [OF assms] by (simp add: jb_framelist_eff_size_def u32_minus_small)
  then show l: "jb_framelist_eff_size fl \<le> fl_size fl" by simp
  show "jb_framelist_eff_size fl = length (filter (\<lambda>s. s \<noteq> Dropped) (window fl))"
    using sum_length_filter_compl [of "\<lambda>s. s = Dropped" "window fl"] fl_inv_count(1) [OF assms] e by simp
  show "to_int (jb_framelist_eff_size fl) = int (jb_framelist_eff_size fl)"
    using l fl_invD(3,4) [OF assms] by (intro to_int_small) simp
qed

section \<open>Reset\<close>

definition mem_shape :: "nat \<Rightarrow> nat \<Rightarrow> 8 word list list \<times> 32 word list \<times> 32 word list \<Rightarrow> bool" where
  "mem_shape frame_size max_count mem \<longleftrightarrow>
     (case mem of (content, bits, stamps) \<Rightarrow>
        length content = max_count \<and> (\<forall>c\<in>set content. length c = frame_size) \<and>
        length bits = max_count \<and> length stamps = max_count)"

lemma reset_inv:
  assumes "fl_shape fl"
  shows "fl_inv (jb_framelist_reset fl)" "window (jb_framelist_reset fl) = []"
    "fl_origin (jb_framelist_reset fl) = INVALID_OFFSET"
    "fl_max_count (jb_framelist_reset fl) = fl_max_count fl"
    "fl_frame_size (jb_framelist_reset fl) = fl_frame_size fl"
    "fl_size (jb_framelist_reset fl) = 0"
  using assms by (auto simp: fl_inv_def fl_shape_def jb_framelist_reset_def window_def pos_def)

lemma init_inv:
  assumes "0 < max_count" "max_count < 2 ^ 31" "mem_shape frame_size max_count mem"
  shows "fl_inv (jb_framelist_init frame_size max_count mem)"
    "window (jb_framelist_init frame_size max_count mem) = []"
    "fl_max_count (jb_framelist_init frame_size max_count mem) = max_count"
    "fl_frame_size (jb_framelist_init frame_size max_count mem) = frame_size"
  using assms
  by (auto simp: mem_shape_def jb_framelist_init_def fl_inv_def fl_shape_def jb_framelist_reset_def
      window_def pos_def)

section \<open>Removing\<close>

text \<open>What removal of the first \<open>n\<close> positions does to the arrays.\<close>

definition removed :: "jb_framelist_t \<Rightarrow> nat \<Rightarrow> jb_framelist_t \<Rightarrow> bool" where
  "removed fl n fl' \<longleftrightarrow>
     (\<forall>p<fl_max_count fl.
        fl_frame_type fl' ! p = (if p \<in> pos fl ` {..<n} then PJMEDIA_JB_MISSING_FRAME else fl_frame_type fl ! p) \<and>
        fl_content_len fl' ! p = (if p \<in> pos fl ` {..<n} then 0 else fl_content_len fl ! p)) \<and>
     length (fl_frame_type fl') = fl_max_count fl \<and> length (fl_content_len fl') = fl_max_count fl \<and>
     fl_content fl' = fl_content fl \<and> fl_bit_info fl' = fl_bit_info fl \<and> fl_ts fl' = fl_ts fl \<and>
     fl_max_count fl' = fl_max_count fl \<and> fl_frame_size fl' = fl_frame_size fl \<and>
     fl_origin fl' = fl_origin fl + int n \<and> fl_head fl' = (fl_head fl + n) mod fl_max_count fl \<and>
     fl_size fl' = fl_size fl - n \<and>
     fl_discarded_num fl' = fl_discarded_num fl - dropped_in fl (map (pos fl) [0..<n])"

lemma image_runs:
  assumes "n \<le> fl_max_count fl" "fl_head fl < fl_max_count fl"
  shows "pos fl ` {..<n} =
    (if fl_head fl + n > fl_max_count fl
     then {fl_head fl..<fl_max_count fl} \<union> {0..<fl_head fl + n - fl_max_count fl}
     else {fl_head fl..<fl_head fl + n})"
proof -
  have "pos fl ` {..<n} = set (map (pos fl) [0..<n])" by (auto simp: lessThan_atLeast0)
  then show ?thesis by (simp only: pos_runs [OF assms]) auto
qed

lemma dropped_split:
  assumes "n \<le> m"
  shows "dropped_in fl (map (pos fl) [0..<m]) =
    dropped_in fl (map (pos fl) [0..<n]) + dropped_in fl (map (pos fl) [n..<m])"
proof -
  obtain k where "m = n + k" using assms le_Suc_ex by blast
  then have "[0..<m] = [0..<n] @ [n..<m]" using upt_add_eq_append [of 0 n k] by simp
  then show ?thesis by simp
qed

lemma remove_head_removed:
  assumes inv: "fl_inv fl" and n: "n = min count (fl_size fl)"
  shows "snd (jb_framelist_remove_head fl count) = n" "removed fl n (fst (jb_framelist_remove_head fl count))"
proof -
  note i = fl_invD [OF inv]
  have le: "n \<le> fl_max_count fl" using n i(3) by simp
  note r = image_runs [OF le i(2)] pos_runs [OF le i(2)]
  have d: "dropped_in fl (map (pos fl) [0..<n]) \<le> fl_discarded_num fl" "fl_discarded_num fl < 2 ^ 32"
    using fl_inv_count(2,3) [OF inv] i(3,4) dropped_split [of n "fl_size fl" fl] n by simp_all
  have c: "(if count > fl_size fl then fl_size fl else count) = n" using n by auto
  show "snd (jb_framelist_remove_head fl count) = n"
    by (simp add: jb_framelist_remove_head_def Let_def c split_beta)
  show "removed fl n (fst (jb_framelist_remove_head fl count))"
  proof (cases "n = 0")
    case True
    then show ?thesis using i by (simp add: jb_framelist_remove_head_def Let_def c removed_def dropped_in_def)
  next
    case False
    show ?thesis
    proof (cases "fl_head fl + n > fl_max_count fl")
      case True
      define s1 where "s1 = fl_max_count fl - fl_head fl"
      define s2 where "s2 = fl_head fl + n - fl_max_count fl"
      define f1 where "f1 = clear_slots (fl_head fl) s1 (uncount (fl_head fl) s1 fl)"
      define f2 where "f2 = clear_slots 0 s2 (uncount 0 s2 f1)"
      have s: "fl_head fl + s1 = fl_max_count fl" "n - s1 = s2" "s2 \<noteq> 0" "s2 \<le> fl_head fl"
        using True i(2) le by (simp_all add: s1_def s2_def)
      have t: "fl_frame_type f1 ! p = fl_frame_type fl ! p" if "p < s2" for p
        using that s i by (simp add: f1_def nth_fill)
      have "dropped_in f1 [0..<s2] = dropped_in fl [0..<s2]"
        using t unfolding dropped_in_def by (intro arg_cong [where f = length] filter_cong) auto
      moreover have "map (pos fl) [0..<n] = [fl_head fl..<fl_head fl + s1] @ [0..<s2]"
        using r(2) True s by (simp add: s2_def)
      ultimately have dn: "fl_discarded_num f2 = fl_discarded_num fl - dropped_in fl (map (pos fl) [0..<n])"
        using d uncount_dropped [of fl "fl_head fl" s1] uncount_dropped [of f1 0 s2]
        by (simp add: f1_def f2_def)
      have "fst (jb_framelist_remove_head fl count) =
          f2\<lparr>fl_origin := fl_origin f2 + int n, fl_head := (fl_head f2 + n) mod fl_max_count f2,
             fl_size := fl_size f2 - n\<rparr>"
        using False True s by (simp add: jb_framelist_remove_head_def Let_def c f1_def f2_def s1_def)
      then show ?thesis
        using dn i s r(1) True unfolding removed_def
        by (auto simp: f1_def f2_def nth_fill s2_def)
    next
      case nw: False
      define f1 where "f1 = clear_slots (fl_head fl) n (uncount (fl_head fl) n fl)"
      have dn: "fl_discarded_num f1 = fl_discarded_num fl - dropped_in fl (map (pos fl) [0..<n])"
        using d uncount_dropped [of fl "fl_head fl" n] r(2) nw by (simp add: f1_def)
      have "fst (jb_framelist_remove_head fl count) =
          f1\<lparr>fl_origin := fl_origin f1 + int n, fl_head := (fl_head f1 + n) mod fl_max_count f1,
             fl_size := fl_size f1 - n\<rparr>"
        using False nw by (simp add: jb_framelist_remove_head_def Let_def c f1_def)
      then show ?thesis
        using dn i r(1) nw unfolding removed_def by (auto simp: f1_def nth_fill)
    qed
  qed
qed

text \<open>An arrays-level removal keeps the invariant and drops the front of the window.\<close>

lemma removed_inv:
  assumes inv: "fl_inv fl" and rm: "removed fl n fl'" and n: "n \<le> fl_size fl"
  shows "fl_inv fl'" "window fl' = drop n (window fl)"
proof -
  note i = fl_invD [OF inv]
  note r = rm [unfolded removed_def]
  have mx: "fl_max_count fl' = fl_max_count fl" using r by simp
  have ps: "pos fl' j = pos fl (j + n)" for j
    using r by (simp add: pos_def mod_simps ac_simps)
  have ne: "pos fl (j + n) \<notin> pos fl ` {..<n}" if "j + n < fl_max_count fl" for j
    using that n i(2,3) by (auto simp: pos_inj)
  have sl: "slot_at fl' (pos fl' j) = slot_at fl (pos fl (j + n))" if "j + n < fl_max_count fl" for j
  proof -
    have "fl_frame_type fl' ! pos fl (j + n) = fl_frame_type fl ! pos fl (j + n)"
      "fl_content_len fl' ! pos fl (j + n) = fl_content_len fl ! pos fl (j + n)"
      using ne [OF that] r i(1) by simp_all
    moreover have "fl_content fl' = fl_content fl" "fl_bit_info fl' = fl_bit_info fl" "fl_ts fl' = fl_ts fl"
      using r by simp_all
    ultimately show ?thesis unfolding ps slot_at_def by (simp cong: pjmedia_jb_frame_type.case_cong)
  qed
  show w: "window fl' = drop n (window fl)"
    using r n i(3) by (intro nth_equalityI) (auto simp: window_nth sl add.commute)
  have sh: "fl_shape fl'"
    using inv r i unfolding fl_inv_def fl_shape_def by auto
  have out: "fl_frame_type fl' ! pos fl' j = PJMEDIA_JB_MISSING_FRAME"
    if "fl_size fl' \<le> j" "j < fl_max_count fl'" for j
  proof (cases "j + n < fl_max_count fl")
    case True
    then show ?thesis
      using fl_inv_outside [OF inv, of "j + n"] that r n ne [OF True] i(1) unfolding ps by simp
  next
    case False
    then have "pos fl (j + n) = pos fl (j + n - fl_max_count fl)"
      using mod_add_self2 [of "fl_head fl + (j + n - fl_max_count fl)" "fl_max_count fl"]
      by (simp add: pos_def)
    moreover have "j + n - fl_max_count fl < n" using that False mx by linarith
    ultimately have "pos fl (j + n) \<in> pos fl ` {..<n}" by auto
    then show ?thesis using r i(1) unfolding ps by simp
  qed
  have "fl_discarded_num fl' = length (filter (\<lambda>s. s = Dropped) (window fl'))"
  proof -
    have "filter (\<lambda>s. s = Dropped) (window fl) =
        filter (\<lambda>s. s = Dropped) (take n (window fl)) @ filter (\<lambda>s. s = Dropped) (drop n (window fl))"
      by (metis append_take_drop_id filter_append)
    moreover have "length (filter (\<lambda>s. s = Dropped) (take n (window fl))) = dropped_in fl (map (pos fl) [0..<n])"
      using n by (simp add: window_def take_map take_upt dropped_in_def filter_map o_def)
    ultimately show ?thesis using fl_inv_count(1) [OF inv] r by (simp add: w)
  qed
  then show "fl_inv fl'"
    using sh out inv r unfolding fl_inv_def by auto
qed

text \<open>\<^verbatim>\<open>jb_framelist_remove_head\<close> drops the front of the window.\<close>

lemma remove_head_view:
  assumes "fl_inv fl" "jb_framelist_remove_head fl count = (fl', k)"
  shows "fl_inv fl'" "k = min count (fl_size fl)" "window fl' = drop k (window fl)"
    "fl_origin fl' = fl_origin fl + int k" "fl_max_count fl' = fl_max_count fl"
    "fl_frame_size fl' = fl_frame_size fl" "fl_size fl' = fl_size fl - k"
proof -
  have r: "k = min count (fl_size fl)" "removed fl k fl'"
    using remove_head_removed [OF assms(1), of "min count (fl_size fl)" count] assms(2) by simp_all
  then show "k = min count (fl_size fl)" by simp
  have "k \<le> fl_size fl" using r(1) by simp
  note i = removed_inv [OF assms(1) r(2) this]
  show "fl_inv fl'" "window fl' = drop k (window fl)" by (fact i)+
  show "fl_origin fl' = fl_origin fl + int k" "fl_max_count fl' = fl_max_count fl"
    "fl_frame_size fl' = fl_frame_size fl" "fl_size fl' = fl_size fl - k"
    using r(2) by (simp_all add: removed_def)
qed

end
