(* ===== verification/Jb_Framelist_Queue.thy ===== *)
theory Jb_Framelist_Queue
  imports Jb_Framelist_Ops
begin

text \<open>
  The frame list refines a queue of slots numbered from an origin. The list operations below are the
  specification; each operation of the frame list commutes with the view.
\<close>

section \<open>The queue\<close>

type_synonym jb_queue = "int \<times> jb_slot list"

definition fl_view :: "jb_framelist_t \<Rightarrow> jb_queue" where
  "fl_view fl = (fl_origin fl, window fl)"

definition q_remove :: "nat \<Rightarrow> jb_queue \<Rightarrow> jb_queue \<times> nat" where
  "q_remove n q =
     (let k = min n (length (snd q)) in ((fst q + int k, drop k (snd q)), k))"

text \<open>A get skips dropped slots; if there were any it reports a gap instead of the next frame.\<close>

definition q_get :: "jb_queue \<Rightarrow> jb_queue \<times> (int \<times> jb_slot) option" where
  "q_get q =
     (let k = length (takeWhile (\<lambda>s. s = Dropped) (snd q)); start = fst q + int k
      in case drop k (snd q) of
           [] \<Rightarrow> ((start, []), None)
         | s # rest \<Rightarrow> ((start + 1, rest), Some (start, if k = 0 then s else Gap)))"

definition q_put :: "nat \<Rightarrow> int \<Rightarrow> jb_slot \<Rightarrow> jb_queue \<Rightarrow> jb_queue \<times> pj_status" where
  "q_put cap index s q =
     (if index < fst q \<and> fst q - index < MAX_MISORDER then (q, PJ_ETOOSMALL)
      else
        let xs = snd q;
            start = (if xs = [] then index else if index < fst q then index - int (length xs) else fst q);
            d = nat (index - start)
        in if cap \<le> d
           then (if int d > MAX_DROPOUT then ((index, [s]), PJ_SUCCESS) else ((start, xs), PJ_ETOOMANY))
           else if d < length xs
           then (if xs ! d = Gap then ((start, xs[d := s]), PJ_SUCCESS) else ((start, xs), PJ_EEXISTS))
           else ((start, xs @ replicate (d - length xs) Gap @ [s]), PJ_SUCCESS))"

definition q_discard :: "int \<Rightarrow> jb_queue \<Rightarrow> jb_queue" where
  "q_discard index q = (fst q, (snd q)[nat (index - fst q) := Dropped])"

definition q_peek :: "nat \<Rightarrow> jb_queue \<Rightarrow> jb_slot option" where
  "q_peek i q =
     (let xs = filter (\<lambda>s. s \<noteq> Dropped) (snd q) in if i < length xs then Some (xs ! i) else None)"

section \<open>Getting\<close>

lemma remove_one:
  assumes "fl_inv fl" "0 < fl_size fl"
  shows "fl_inv (fst (jb_framelist_remove_head fl 1))"
    "window (fst (jb_framelist_remove_head fl 1)) = tl (window fl)"
    "fl_origin (fst (jb_framelist_remove_head fl 1)) = fl_origin fl + 1"
    "fl_max_count (fst (jb_framelist_remove_head fl 1)) = fl_max_count fl"
    "fl_frame_size (fst (jb_framelist_remove_head fl 1)) = fl_frame_size fl"
    "fl_size (fst (jb_framelist_remove_head fl 1)) = fl_size fl - 1"
proof -
  obtain g k where e: "jb_framelist_remove_head fl 1 = (g, k)" by fastforce
  note v = remove_head_view [OF assms(1) e]
  have k: "k = 1" using v(2) assms(2) by simp
  show "fl_inv (fst (jb_framelist_remove_head fl 1))"
    "window (fst (jb_framelist_remove_head fl 1)) = tl (window fl)"
    "fl_origin (fst (jb_framelist_remove_head fl 1)) = fl_origin fl + 1"
    "fl_max_count (fst (jb_framelist_remove_head fl 1)) = fl_max_count fl"
    "fl_frame_size (fst (jb_framelist_remove_head fl 1)) = fl_frame_size fl"
    "fl_size (fst (jb_framelist_remove_head fl 1)) = fl_size fl - 1"
    unfolding e using v by (simp_all add: k drop_Suc)
qed

lemma head_slot:
  assumes "fl_inv fl"
  shows "pos fl 0 = fl_head fl" "0 < fl_size fl \<Longrightarrow> hd (window fl) = slot_at fl (fl_head fl)"
    "fl_size fl = 0 \<Longrightarrow> fl_frame_type fl ! fl_head fl = PJMEDIA_JB_MISSING_FRAME"
proof -
  note i = fl_invD [OF assms]
  show p: "pos fl 0 = fl_head fl" using i by (simp add: pos_def)
  show "hd (window fl) = slot_at fl (fl_head fl)" if "0 < fl_size fl"
    using that window_nth [OF that] p hd_conv_nth [of "window fl"] by (metis length_greater_0_conv window_length)
  show "fl_frame_type fl ! fl_head fl = PJMEDIA_JB_MISSING_FRAME" if "fl_size fl = 0"
    using fl_inv_outside [OF assms, of 0] that i(1) p by simp
qed

lemma skip_discarded_view:
  assumes "fl_inv fl"
  shows "\<exists>fl'. skip_discarded fl b = Some (fl', b \<or> (\<exists>xs. window fl = Dropped # xs)) \<and> fl_inv fl' \<and>
    window fl' = dropWhile (\<lambda>s. s = Dropped) (window fl) \<and>
    fl_origin fl' = fl_origin fl + int (length (takeWhile (\<lambda>s. s = Dropped) (window fl))) \<and>
    fl_max_count fl' = fl_max_count fl \<and> fl_frame_size fl' = fl_frame_size fl"
  using assms
proof (induction "fl_size fl" arbitrary: fl b)
  case 0
  then have "window fl = []" by (simp add: window_def)
  moreover have "fl_frame_type fl ! fl_head fl = PJMEDIA_JB_MISSING_FRAME" using head_slot(3) [of fl] 0 by simp
  ultimately show ?case using 0 by (simp add: skip_discarded.simps)
next
  case (Suc n)
  have sz: "0 < fl_size fl" using Suc.hyps(2) by simp
  obtain s xs where w: "window fl = s # xs" using sz window_length [of fl] by (cases "window fl") auto
  have s: "s = slot_at fl (fl_head fl)" using head_slot(2) [OF Suc.prems sz] w by simp
  show ?case
  proof (cases "s = Dropped")
    case True
    let ?f = "fst (jb_framelist_remove_head fl 1)"
    note r = remove_one [OF Suc.prems sz]
    have "n = fl_size ?f" using r(6) Suc.hyps(2) by simp
    then obtain fl' where f: "skip_discarded ?f True = Some (fl', True)" "fl_inv fl'"
      "window fl' = dropWhile (\<lambda>s. s = Dropped) xs"
      "fl_origin fl' = fl_origin ?f + int (length (takeWhile (\<lambda>s. s = Dropped) xs))"
      "fl_max_count fl' = fl_max_count fl" "fl_frame_size fl' = fl_frame_size fl"
      using Suc.hyps(1) [of ?f True] r w by auto
    have "fl_frame_type fl ! fl_head fl = PJMEDIA_JB_DISCARDED_FRAME" using True s slot_at_iff(1) by metis
    then have "skip_discarded fl b = skip_discarded ?f True" by (subst skip_discarded.simps) simp
    then show ?thesis using f r(3) w True by auto
  next
    case False
    then have "fl_frame_type fl ! fl_head fl \<noteq> PJMEDIA_JB_DISCARDED_FRAME" using s slot_at_iff(1) by metis
    then show ?thesis using False w Suc.prems by (simp add: skip_discarded.simps)
  qed
qed

text \<open>Bit info and time stamp of a missing slot are not looked at.\<close>

lemma missing_fields:
  assumes "fl_inv fl" "p < fl_max_count fl" "fl_frame_type fl ! p = PJMEDIA_JB_MISSING_FRAME"
    and g: "g = fl\<lparr>fl_bit_info := (fl_bit_info fl)[p := b], fl_ts := (fl_ts fl)[p := t]\<rparr>"
  shows "fl_inv g" "window g = window fl"
proof -
  have ps: "pos g i = pos fl i" for i by (simp add: g pos_def)
  have "slot_at g q = slot_at fl q" for q
    using assms(3) by (cases "p = q") (simp_all add: slot_at_def g cong: pjmedia_jb_frame_type.case_cong)
  then show w: "window g = window fl" unfolding window_def ps by (simp add: g)
  show "fl_inv g" using assms(1) unfolding fl_inv_def w ps fl_shape_def by (simp add: g)
qed

lemma fill_one: "a < length xs \<Longrightarrow> fill a (Suc 0) v xs = xs[a := v]"
  by (simp add: fill_def upd_conv_take_nth_drop)

lemma advance_view:
  assumes "fl_inv fl" "0 < fl_size fl" "fl_frame_type fl ! fl_head fl \<noteq> PJMEDIA_JB_DISCARDED_FRAME"
  shows "fl_inv (advance_head fl)" "window (advance_head fl) = tl (window fl)"
    "fl_origin (advance_head fl) = fl_origin fl + 1" "fl_max_count (advance_head fl) = fl_max_count fl"
    "fl_frame_size (advance_head fl) = fl_frame_size fl"
proof -
  let ?g = "fst (jb_framelist_remove_head fl 1)"
  note i = fl_invD [OF assms(1)]
  note r = remove_one [OF assms(1,2)]
  have g: "?g = fl\<lparr>fl_frame_type := (fl_frame_type fl)[fl_head fl := PJMEDIA_JB_MISSING_FRAME],
      fl_content_len := (fl_content_len fl)[fl_head fl := 0], fl_origin := fl_origin fl + 1,
      fl_head := (fl_head fl + 1) mod fl_max_count fl, fl_size := fl_size fl - 1\<rparr>"
    using assms(2,3) i by (simp add: fill_one jb_framelist_remove_head_def Let_def clear_slots_def uncount_def)
  have "advance_head fl =
      ?g\<lparr>fl_bit_info := (fl_bit_info ?g)[fl_head fl := 0], fl_ts := (fl_ts ?g)[fl_head fl := 0]\<rparr>"
    unfolding g by (simp add: advance_head_def Let_def)
  moreover have "fl_frame_type ?g ! fl_head fl = PJMEDIA_JB_MISSING_FRAME" "fl_head fl < fl_max_count ?g"
    unfolding g using i by simp_all
  ultimately have "fl_inv (advance_head fl)" "window (advance_head fl) = window ?g"
    using missing_fields [OF r(1)] by metis+
  then show "fl_inv (advance_head fl)" "window (advance_head fl) = tl (window fl)" using r by simp_all
  show "fl_origin (advance_head fl) = fl_origin fl + 1" "fl_max_count (advance_head fl) = fl_max_count fl"
    "fl_frame_size (advance_head fl) = fl_frame_size fl" by (simp_all add: advance_head_def Let_def)
qed

text \<open>What a get hands out, as a slot.\<close>

definition out_slot :: "jb_out \<Rightarrow> jb_slot" where
  "out_slot r =
     (if out_type r = PJMEDIA_JB_NORMAL_FRAME
      then Held (take (out_size r) (the (out_frame r))) (out_bit_info r) (out_ts r)
      else Gap)"

lemma fl_get_view:
  assumes "fl_inv fl"
  shows "\<exists>fl' r. jb_framelist_get fl = Some (fl', r) \<and> fl_inv fl' \<and>
    fl_max_count fl' = fl_max_count fl \<and> fl_frame_size fl' = fl_frame_size fl \<and>
    (fl_view fl', map_option (\<lambda>r. (out_seq r, out_slot r)) r) = q_get (fl_view fl)"
proof (cases "fl_size fl = 0")
  case True
  then have "window fl = []" by (simp add: window_def)
  then show ?thesis using True assms by (simp add: jb_framelist_get_def q_get_def fl_view_def)
next
  case False
  define k where "k = length (takeWhile (\<lambda>s. s = Dropped) (window fl))"
  obtain g where g: "skip_discarded fl False = Some (g, \<exists>xs. window fl = Dropped # xs)" "fl_inv g"
    "window g = dropWhile (\<lambda>s. s = Dropped) (window fl)"
    "fl_origin g = fl_origin fl + int k" "fl_max_count g = fl_max_count fl"
    "fl_frame_size g = fl_frame_size fl"
    using skip_discarded_view [OF assms, of False] by (auto simp: k_def)
  have w: "drop k (window fl) = window g" by (simp add: g(3) k_def dropWhile_eq_drop)
  have k: "k = 0 \<longleftrightarrow> \<not> (\<exists>xs. window fl = Dropped # xs)"
    using False window_length [of fl] by (cases "window fl") (auto simp: k_def)
  show ?thesis
  proof (cases "fl_size g = 0")
    case True
    then have "window g = []" by (simp add: window_def)
    then have "q_get (fl_view fl) = ((fl_origin g, []), None)" "window g = []"
      using g(4) w by (simp_all add: q_get_def fl_view_def k_def [symmetric] Let_def)
    then show ?thesis
      using True False g(1,2,5,6) by (simp add: jb_framelist_get_def fl_view_def [of g])
  next
    case ne: False
    obtain s xs where wg: "window g = s # xs" using ne window_length [of g] by (cases "window g") auto
    have s: "s = slot_at g (fl_head g)" using head_slot(2) [OF g(2)] ne wg by simp
    have "s \<noteq> Dropped" using wg g(3) hd_dropWhile [of "\<lambda>s. s = Dropped" "window fl"] by fastforce
    then have nd: "fl_frame_type g ! fl_head g \<noteq> PJMEDIA_JB_DISCARDED_FRAME" using s by (metis slot_at_iff(1))
    note a = advance_view [OF g(2) _ nd]
    note t = fl_inv_types [OF g(2) fl_invD(2) [OF g(2)]]
    have "out_slot (head_frame g (\<exists>xs. window fl = Dropped # xs)) = (if k = 0 then s else Gap)"
      using t nd k s by (auto simp: out_slot_def head_frame_def slot_at_def)
    moreover have "out_seq (head_frame g b) = fl_origin g" for b by (simp add: head_frame_def)
    moreover have "q_get (fl_view fl) = ((fl_origin g + 1, xs), Some (fl_origin g, if k = 0 then s else Gap))"
      using g(4) w wg by (simp add: q_get_def fl_view_def k_def [symmetric] Let_def)
    ultimately show ?thesis
      using False ne a g(1,2,5,6) wg by (simp add: jb_framelist_get_def fl_view_def [of "advance_head g"])
  qed
qed

section \<open>Storing\<close>

lemma filter_at:
  assumes "i < length xs"
  shows "filter P xs =
    filter P (take i xs) @ (if P (xs ! i) then [xs ! i] else []) @ filter P (drop (Suc i) xs)"
  using arg_cong [OF id_take_nth_drop [OF assms], of "filter P"] by (simp only: filter_append filter.simps) simp

lemma count_update:
  assumes "i < length xs" "\<not> P (xs ! i)" "\<not> P s"
  shows "length (filter P (xs[i := s])) = length (filter P xs)"
  using assms filter_at [OF assms(1), of P] by (simp add: upd_conv_take_nth_drop)

lemma pos_of_distance:
  assumes "fl_inv fl" "0 \<le> d"
  shows "nat ((int (fl_head fl) + d) mod int (fl_max_count fl)) = pos fl (nat d)"
  using assms(2) by (simp add: pos_def nat_mod_distrib nat_add_distrib)

text \<open>One slot, at a position that was missing, now holds a frame.\<close>

lemma store_view:
  assumes inv: "fl_inv fl" and d: "d < fl_max_count fl"
    and free: "fl_frame_type fl ! pos fl d = PJMEDIA_JB_MISSING_FRAME"
    and n: "n \<le> fl_frame_size fl" "n \<le> length frame"
    and g: "g = fl\<lparr>fl_frame_type := (fl_frame_type fl)[pos fl d := PJMEDIA_JB_NORMAL_FRAME],
        fl_content_len := (fl_content_len fl)[pos fl d := n],
        fl_bit_info := (fl_bit_info fl)[pos fl d := b], fl_ts := (fl_ts fl)[pos fl d := t],
        fl_size := max (fl_size fl) (d + 1),
        fl_content := (fl_content fl)[pos fl d := copy_over frame n (fl_content fl ! pos fl d)]\<rparr>"
  shows "fl_inv g"
    "window g = (if d < fl_size fl then (window fl)[d := Held (take n frame) b t]
       else window fl @ replicate (d - fl_size fl) Gap @ [Held (take n frame) b t])"
proof -
  note i = fl_invD [OF inv]
  let ?s = "Held (take n frame) b t"
  have pg: "pos g j = pos fl j" for j by (simp add: g pos_def)
  have sz: "fl_size g = max (fl_size fl) (d + 1)" by (simp add: g)
  have pd: "pos fl d < fl_max_count fl" using i(1) by simp
  have cl: "length (copy_over frame n (fl_content fl ! pos fl d)) = fl_frame_size fl"
    "take n (copy_over frame n (fl_content fl ! pos fl d)) = take n frame"
    using n pd inv by (auto simp: copy_over_def fl_inv_def fl_shape_def)
  have at: "slot_at g (pos fl d) = ?s" using pd i cl(2) by (simp add: g slot_at_def)
  have other: "slot_at g (pos fl j) = slot_at fl (pos fl j)" if "j \<noteq> d" "j < fl_max_count fl" for j
    using pos_inj [OF that(2) d i(2)] that(1)
    by (simp add: g slot_at_def cong: pjmedia_jb_frame_type.case_cong)
  have gap: "slot_at fl (pos fl j) = Gap" if "fl_size fl \<le> j" "j < fl_max_count fl" for j
    using fl_inv_outside [OF inv that] by simp
  show w: "window g = (if d < fl_size fl then (window fl)[d := ?s]
       else window fl @ replicate (d - fl_size fl) Gap @ [?s])"
  proof (cases "d < fl_size fl")
    case True
    then show ?thesis
      using i(3) at by (intro nth_equalityI) (auto simp: window_nth pg other nth_list_update sz)
  next
    case False
    show ?thesis
    proof (intro nth_equalityI)
      show "length (window g) = length (if d < fl_size fl then (window fl)[d := ?s]
          else window fl @ replicate (d - fl_size fl) Gap @ [?s])"
        using False by (simp add: sz)
      fix j assume "j < length (window g)"
      then have j: "j < d + 1" using False by (simp add: sz)
      have w1: "window g ! j = slot_at g (pos fl j)" using j False by (simp add: window_nth pg sz)
      consider "j < fl_size fl" | "fl_size fl \<le> j" "j < d" | "j = d" using j by linarith
      then show "window g ! j = (if d < fl_size fl then (window fl)[d := ?s]
          else window fl @ replicate (d - fl_size fl) Gap @ [?s]) ! j"
        using False w1 at i(3) d
        by cases (auto simp: nth_append window_nth other gap)
    qed
  qed
  have "length (filter (\<lambda>s. s = Dropped) (window g)) = length (filter (\<lambda>s. s = Dropped) (window fl))"
    using count_update [of d "window fl" "\<lambda>s. s = Dropped" ?s] free by (simp add: w window_nth slot_at_def)
  then have "fl_discarded_num g = length (filter (\<lambda>s. s = Dropped) (window g))"
    using fl_inv_count(1) [OF inv] by (simp add: g)
  moreover have "fl_shape g"
    using inv d cl(1) n(1) i unfolding fl_inv_def fl_shape_def by (auto simp: g nth_list_update)
  moreover have "fl_frame_type g ! pos fl j = PJMEDIA_JB_MISSING_FRAME"
    if "max (fl_size fl) (d + 1) \<le> j" "j < fl_max_count fl" for j
    using fl_inv_outside [OF inv] pos_inj [OF that(2) d i(2)] that by (simp add: g)
  ultimately show "fl_inv g"
    using inv i unfolding fl_inv_def pg by (auto simp: g nth_list_update)
qed

lemma put_slot_view:
  assumes inv: "fl_inv fl" and d: "0 \<le> d" "d < int (fl_max_count fl)" "index = fl_origin fl + d"
    and n: "n \<le> fl_frame_size fl" "n \<le> length frame"
    and p: "put_slot fl index d frame n b t PJMEDIA_JB_NORMAL_FRAME = (fl', st)"
  shows "fl_inv fl'" "fl_max_count fl' = fl_max_count fl" "fl_frame_size fl' = fl_frame_size fl"
    "fl_origin fl' = fl_origin fl"
    "(window fl', st) =
      (if nat d < fl_size fl
       then (if window fl ! nat d = Gap
             then ((window fl)[nat d := Held (take n frame) b t], PJ_SUCCESS) else (window fl, PJ_EEXISTS))
       else (window fl @ replicate (nat d - fl_size fl) Gap @ [Held (take n frame) b t], PJ_SUCCESS))"
proof -
  have dm: "nat d < fl_max_count fl" using d by linarith
  note ps = pos_of_distance [OF inv d(1)]
  let ?free = "fl_frame_type fl ! pos fl (nat d) = PJMEDIA_JB_MISSING_FRAME"
  have fr: "?free" if "\<not> nat d < fl_size fl" using fl_inv_outside [OF inv _ dm] that by simp
  have ex: "window fl ! nat d = Gap \<longleftrightarrow> ?free" if "nat d < fl_size fl" using that by (simp add: window_nth)
  define g where "g = fl\<lparr>fl_frame_type := (fl_frame_type fl)[pos fl (nat d) := PJMEDIA_JB_NORMAL_FRAME],
        fl_content_len := (fl_content_len fl)[pos fl (nat d) := n],
        fl_bit_info := (fl_bit_info fl)[pos fl (nat d) := b], fl_ts := (fl_ts fl)[pos fl (nat d) := t],
        fl_size := max (fl_size fl) (nat d + 1),
        fl_content := (fl_content fl)[pos fl (nat d) := copy_over frame n (fl_content fl ! pos fl (nat d))]\<rparr>"
  have r: "(fl', st) = (if ?free then (g, PJ_SUCCESS) else (fl, PJ_EEXISTS))"
    using d(1,3) unfolding p [symmetric] put_slot_def ps
    by (auto simp: g_def Let_def max_def nat_add_distrib)
  note s = store_view [OF inv dm _ n g_def]
  show "fl_inv fl'" "fl_max_count fl' = fl_max_count fl" "fl_frame_size fl' = fl_frame_size fl"
    "fl_origin fl' = fl_origin fl"
    using r s(1) inv by (auto simp: g_def split: if_splits)
  show "(window fl', st) =
      (if nat d < fl_size fl
       then (if window fl ! nat d = Gap
             then ((window fl)[nat d := Held (take n frame) b t], PJ_SUCCESS) else (window fl, PJ_EEXISTS))
       else (window fl @ replicate (nat d - fl_size fl) Gap @ [Held (take n frame) b t], PJ_SUCCESS))"
    using r s(2) fr ex by (auto split: if_splits)
qed

lemma origin_inv:
  assumes "fl_inv fl"
  shows "fl_inv (fl\<lparr>fl_origin := r\<rparr>)" "window (fl\<lparr>fl_origin := r\<rparr>) = window fl"
proof -
  have p: "pos (fl\<lparr>fl_origin := r\<rparr>) = pos fl" "slot_at (fl\<lparr>fl_origin := r\<rparr>) = slot_at fl"
    by (auto simp: fun_eq_iff pos_def slot_at_def cong: pjmedia_jb_frame_type.case_cong)
  show w: "window (fl\<lparr>fl_origin := r\<rparr>) = window fl" by (simp add: window_def p)
  show "fl_inv (fl\<lparr>fl_origin := r\<rparr>)" using assms unfolding fl_inv_def w p fl_shape_def by simp
qed

lemma put_at_view:
  assumes inv: "fl_inv fl" and n: "n \<le> fl_frame_size fl" "n \<le> length frame"
    and p: "jb_framelist_put_at fl index frame n b t PJMEDIA_JB_NORMAL_FRAME = (fl', st)"
  shows "fl_inv fl'" "fl_max_count fl' = fl_max_count fl" "fl_frame_size fl' = fl_frame_size fl"
    "(fl_view fl', st) = q_put (fl_max_count fl) index (Held (take n frame) b t) (fl_view fl)"
proof -
  have all: "fl_inv fl' \<and> fl_max_count fl' = fl_max_count fl \<and> fl_frame_size fl' = fl_frame_size fl \<and>
      (fl_view fl', st) = q_put (fl_max_count fl) index (Held (take n frame) b t) (fl_view fl)"
  proof (cases "index < fl_origin fl \<and> fl_origin fl - index < MAX_MISORDER")
    case True
    then show ?thesis using p inv by (auto simp: jb_framelist_put_at_def q_put_def fl_view_def)
  next
    case late: False
    define start where "start = (if fl_size fl = 0 then index
      else if index < fl_origin fl then index - int (fl_size fl) else fl_origin fl)"
    define g where "g = fl\<lparr>fl_origin := start\<rparr>"
    have gi: "fl_inv g" "window g = window fl" using origin_inv [OF inv] by (simp_all add: g_def)
    have gf: "fl_max_count g = fl_max_count fl" "fl_frame_size g = fl_frame_size fl" "fl_size g = fl_size fl"
      "fl_origin g = start" by (simp_all add: g_def)
    have we: "window fl = [] \<longleftrightarrow> fl_size fl = 0" by (simp add: window_def)
    have d0: "0 \<le> index - start" by (simp add: start_def)
    have eq: "(if fl_size (if index < fl_origin fl then fl\<lparr>fl_origin := index - int (fl_size fl)\<rparr> else fl) = 0
        then (if index < fl_origin fl then fl\<lparr>fl_origin := index - int (fl_size fl)\<rparr> else fl)\<lparr>fl_origin := index\<rparr>
        else (if index < fl_origin fl then fl\<lparr>fl_origin := index - int (fl_size fl)\<rparr> else fl)) = g"
      by (simp add: g_def start_def)
    have r: "(fl', st) = (if index - start \<ge> int (fl_max_count fl)
        then (if index - start > MAX_DROPOUT
              then put_slot ((jb_framelist_reset g)\<lparr>fl_origin := index\<rparr>) index 0 frame n b t PJMEDIA_JB_NORMAL_FRAME
              else (g, PJ_ETOOMANY))
        else put_slot g index (index - start) frame n b t PJMEDIA_JB_NORMAL_FRAME)"
      using late to_int_small [OF fl_invD(4) [OF inv]] gf
      unfolding p [symmetric] jb_framelist_put_at_def Let_def eq by (simp only: if_not_P [OF late] assert_fails_off if_False)
    have q: "q_put (fl_max_count fl) index s (fl_view fl) =
       (if index - start \<ge> int (fl_max_count fl)
        then (if index - start > MAX_DROPOUT then ((index, [s]), PJ_SUCCESS) else (fl_view g, PJ_ETOOMANY))
        else if nat (index - start) < fl_size fl
        then (if window fl ! nat (index - start) = Gap
              then ((start, (window fl)[nat (index - start) := s]), PJ_SUCCESS) else (fl_view g, PJ_EEXISTS))
        else ((start, window fl @ replicate (nat (index - start) - fl_size fl) Gap @ [s]), PJ_SUCCESS))" for s
      using late d0 by (auto simp: q_put_def fl_view_def we start_def gi gf nat_le_iff Let_def)
    show ?thesis
    proof (cases "index - start \<ge> int (fl_max_count fl)")
      case True
      let ?z = "(jb_framelist_reset g)\<lparr>fl_origin := index\<rparr>"
      have "fl_shape g" using gi(1) by (simp add: fl_inv_def)
      note rs = reset_inv [OF this]
      note z = origin_inv [OF rs(1), of index]
      show ?thesis
      proof (cases "index - start > MAX_DROPOUT")
        case drop: True
        have zs: "put_slot ?z index 0 frame n b t PJMEDIA_JB_NORMAL_FRAME = (fl', st)"
          using r True drop by simp
        have "0 < int (fl_max_count ?z)" "n \<le> fl_frame_size ?z" "index = fl_origin ?z + 0"
          using rs gf n(1) fl_invD(1) [OF inv] by simp_all
        note v = put_slot_view [OF z(1) order_refl this(1,3,2) n(2) zs]
        then show ?thesis using rs z gf True drop by (simp add: q fl_view_def [of fl'] fl_view_def [of g])
      next
        case False
        then show ?thesis using r True gi gf by (simp add: q fl_view_def [of fl'] fl_view_def [of g])
      qed
    next
      case False
      have s: "put_slot g index (index - start) frame n b t PJMEDIA_JB_NORMAL_FRAME = (fl', st)"
        using r False by simp
      have "index - start < int (fl_max_count g)" "index = fl_origin g + (index - start)" "n \<le> fl_frame_size g"
        using False gf n(1) by simp_all
      note v = put_slot_view [OF gi(1) d0 this n(2) s]
      then show ?thesis using gi gf False by (auto simp: q fl_view_def [of fl'] fl_view_def [of g] split: if_splits)
    qed
  qed
  show "fl_inv fl'" "fl_max_count fl' = fl_max_count fl" "fl_frame_size fl' = fl_frame_size fl"
    "(fl_view fl', st) = q_put (fl_max_count fl) index (Held (take n frame) b t) (fl_view fl)"
    using all by auto
qed

section \<open>Discarding and peeking\<close>

text \<open>A frame that is not yet discarded; a second discard of the same frame breaks the count.\<close>

lemma discard_view:
  assumes inv: "fl_inv fl" and r: "fl_origin fl \<le> index" "index < fl_origin fl + int (fl_size fl)"
    and nd: "window fl ! nat (index - fl_origin fl) \<noteq> Dropped"
    and p: "jb_framelist_discard fl index = (fl', st)"
  shows "fl_inv fl'" "fl_max_count fl' = fl_max_count fl" "fl_frame_size fl' = fl_frame_size fl"
    "fl_view fl' = q_discard index (fl_view fl)"
proof -
  define d where "d = nat (index - fl_origin fl)"
  note i = fl_invD [OF inv]
  have d: "d < fl_size fl" "d < fl_max_count fl" using r i(3) by (simp_all add: d_def)
  have fl': "fl' = fl\<lparr>fl_frame_type := (fl_frame_type fl)[pos fl d := PJMEDIA_JB_DISCARDED_FRAME],
      fl_discarded_num := fl_discarded_num fl + 1\<rparr>"
    using p r(1) pos_of_distance [OF inv, of "index - fl_origin fl"]
    by (simp add: jb_framelist_discard_def Let_def d_def)
  have pg: "pos fl' j = pos fl j" "fl_size fl' = fl_size fl" "fl_origin fl' = fl_origin fl" for j
    by (simp_all add: fl' pos_def)
  have at: "slot_at fl' (pos fl' j) = (if j = d then Dropped else slot_at fl (pos fl j))"
    if "j < fl_max_count fl" for j
    using pos_inj [OF that d(2) i(2)] i unfolding pg
    by (auto simp: fl' slot_at_def cong: pjmedia_jb_frame_type.case_cong)
  have w: "window fl' = (window fl)[d := Dropped]"
    using i(3) d by (intro nth_equalityI) (auto simp: window_nth pg(2) at nth_list_update)
  then show "fl_view fl' = q_discard index (fl_view fl)"
    by (simp add: fl_view_def q_discard_def pg d_def)
  have "length (filter (\<lambda>s. s = Dropped) (window fl')) = Suc (length (filter (\<lambda>s. s = Dropped) (window fl)))"
    using filter_at [of d "window fl" "\<lambda>s. s = Dropped"] nd d unfolding d_def [symmetric]
    by (simp add: w upd_conv_take_nth_drop)
  then have c: "fl_discarded_num fl' = length (filter (\<lambda>s. s = Dropped) (window fl'))"
    using fl_inv_count(1) [OF inv] by (simp add: fl')
  have sh: "fl_shape fl'" using inv by (auto simp: fl_inv_def fl_shape_def fl')
  moreover have "fl_frame_type fl' ! pos fl j = PJMEDIA_JB_MISSING_FRAME"
    if "fl_size fl \<le> j" "j < fl_max_count fl" for j
    using fl_inv_outside [OF inv that] pos_inj [OF that(2) d(2) i(2)] that d by (simp add: fl')
  moreover have "fl_frame_type fl' ! p \<in>
      {PJMEDIA_JB_MISSING_FRAME, PJMEDIA_JB_NORMAL_FRAME, PJMEDIA_JB_DISCARDED_FRAME}"
    "fl_frame_type fl' ! p = PJMEDIA_JB_MISSING_FRAME \<Longrightarrow> fl_content_len fl' ! p = 0"
    if "p < fl_max_count fl" for p
    using that inv i(5) unfolding fl_inv_def by (simp_all add: fl' nth_list_update split: if_splits)
  ultimately show "fl_inv fl'"
    using c unfolding fl_inv_def pg by (simp add: fl')
  show "fl_max_count fl' = fl_max_count fl" "fl_frame_size fl' = fl_frame_size fl" by (simp_all add: fl')
qed

lemma peek_pos_finds:
  assumes inv: "fl_inv fl" and "i \<le> fl_size fl"
    and "idx < length (filter (\<lambda>s. s \<noteq> Dropped) (drop i (window fl)))"
  shows "\<exists>j<fl_size fl. peek_pos fl (pos fl i) idx = Some (pos fl j) \<and>
    window fl ! j = filter (\<lambda>s. s \<noteq> Dropped) (drop i (window fl)) ! idx"
  using assms(2,3)
proof (induction "fl_size fl - i" arbitrary: i idx)
  case 0
  then show ?case by simp
next
  case (Suc n)
  have i: "i < fl_size fl" using Suc.hyps(2) by simp
  have dr: "drop i (window fl) = slot_at fl (pos fl i) # drop (Suc i) (window fl)"
    using i by (simp add: Cons_nth_drop_Suc [symmetric] window_nth)
  have nx: "(pos fl i + 1) mod fl_max_count fl = pos fl (Suc i)"
    by (simp add: pos_def mod_Suc_eq)
  note IH = Suc.hyps(1) [of "Suc i"]
  show ?case
  proof (cases "fl_frame_type fl ! pos fl i = PJMEDIA_JB_DISCARDED_FRAME")
    case True
    then have "peek_pos fl (pos fl i) idx = peek_pos fl (pos fl (Suc i)) idx"
      by (subst peek_pos.simps) (simp add: nx [simplified])
    then show ?thesis using IH [of idx] Suc.hyps(2) Suc.prems True i by (auto simp: dr)
  next
    case nd: False
    then have u: "peek_pos fl (pos fl i) idx =
        (if idx = 0 then Some (pos fl i) else peek_pos fl (pos fl (Suc i)) (idx - 1))"
      by (subst peek_pos.simps) (simp add: nx [simplified])
    show ?thesis
    proof (cases idx)
      case 0
      then show ?thesis using u nd i by (auto simp: dr window_nth)
    next
      case (Suc k)
      then show ?thesis using IH [of k] Suc.hyps(2) Suc.prems nd i u by (auto simp: dr)
    qed
  qed
qed

lemma peek_view:
  assumes inv: "fl_inv fl"
  shows "\<exists>r. jb_framelist_peek fl offset = Some r \<and>
    map_option out_slot r = q_peek offset (fl_view fl)"
proof (cases "offset < jb_framelist_eff_size fl")
  case False
  then show ?thesis
    using eff_size_view(1) [OF inv] by (simp add: jb_framelist_peek_def q_peek_def fl_view_def)
next
  case True
  note i = fl_invD [OF inv]
  have "offset < length (filter (\<lambda>s. s \<noteq> Dropped) (window fl))" using True eff_size_view(1) [OF inv] by simp
  then obtain j where j: "j < fl_size fl" "peek_pos fl (pos fl 0) offset = Some (pos fl j)"
      "window fl ! j = filter (\<lambda>s. s \<noteq> Dropped) (window fl) ! offset"
    using peek_pos_finds [OF inv, of 0 offset] by auto
  have "slot_at fl (pos fl j) \<noteq> Dropped"
  proof -
    have "window fl ! j \<in> set (filter (\<lambda>s. s \<noteq> Dropped) (window fl))"
      unfolding j(3) using True eff_size_view(1) [OF inv] by (intro nth_mem) simp
    then show ?thesis using j(1) by (simp add: window_nth)
  qed
  moreover have "fl_frame_type fl ! pos fl j \<in>
      {PJMEDIA_JB_MISSING_FRAME, PJMEDIA_JB_NORMAL_FRAME, PJMEDIA_JB_DISCARDED_FRAME}"
    using fl_inv_types [OF inv] i(1) by simp
  ultimately show ?thesis
    using True j head_slot(1) [OF inv] eff_size_view(1) [OF inv]
    by (auto simp: jb_framelist_peek_def q_peek_def fl_view_def out_slot_def slot_at_def window_nth)
qed

end
