(* ===== verification/Jb_Store.thy ===== *)
theory Jb_Store
  imports Jb_Framelist_Queue
begin

text \<open>
  The contract between the jitter buffer and its frame list: a store of numbered frames whose
  operations act on its view as the queue operations. The frame list provides it.
\<close>

section \<open>Facts on the queue\<close>

text \<open>No dropped slot has a number above \<open>r\<close>.\<close>

definition dropped_upto :: "int \<Rightarrow> jb_queue \<Rightarrow> bool" where
  "dropped_upto r q \<longleftrightarrow> (\<forall>i<length (snd q). snd q ! i = Dropped \<longrightarrow> fst q + int i \<le> r)"

lemma dropped_upto_remove:
  assumes "dropped_upto r q"
  shows "dropped_upto r (fst (q_remove n q))"
proof -
  define k where "k = min n (length (snd q))"
  have "fst q + int k + int i \<le> r" if "i < length (snd q) - k" "drop k (snd q) ! i = Dropped" for i
  proof -
    have "k + i < length (snd q)" using that(1) by simp
    then show ?thesis using assms [unfolded dropped_upto_def, rule_format, of "k + i"] that by simp
  qed
  then show ?thesis by (simp add: dropped_upto_def q_remove_def Let_def k_def [symmetric])
qed

lemma dropped_upto_get:
  assumes "dropped_upto r q"
  shows "dropped_upto r (fst (q_get q))"
proof -
  define k where "k = length (takeWhile (\<lambda>s. s = Dropped) (snd q))"
  have k: "k \<le> length (snd q)" by (simp add: k_def length_takeWhile_le)
  have D: "fst q + int i \<le> r" if "i < length (snd q)" "snd q ! i = Dropped" for i
    using assms that by (simp add: dropped_upto_def)
  show ?thesis
  proof (cases "drop k (snd q)")
    case Nil
    then show ?thesis by (simp add: q_get_def k_def [symmetric] Let_def dropped_upto_def)
  next
    case (Cons s rest)
    have n: "rest ! i = snd q ! (k + Suc i)" "k + Suc i < length (snd q)" if "i < length rest" for i
    proof -
      have l: "Suc (length rest) = length (snd q) - k" using arg_cong [OF Cons, of length] by simp
      show "k + Suc i < length (snd q)" using that l by simp
      then show "rest ! i = snd q ! (k + Suc i)"
        using arg_cong [OF Cons, of "\<lambda>xs. xs ! Suc i"] k by simp
    qed
    have "fst q + int k + 1 + int i \<le> r" if "i < length rest" "rest ! i = Dropped" for i
      using D [OF n(2) [OF that(1)]] n(1) [OF that(1)] that(2) by simp
    then show ?thesis using Cons by (simp add: q_get_def k_def [symmetric] Let_def dropped_upto_def)
  qed
qed

text \<open>A restart of the numbering only lowers the numbers of the frames that are kept.\<close>

lemma dropped_upto_put:
  assumes "dropped_upto r q" "s \<noteq> Dropped"
  shows "dropped_upto r (fst (q_put cap index s q))"
proof -
  define start where "start = (if snd q = [] then index
      else if index < fst q then index - int (length (snd q)) else fst q)"
  have le: "start \<le> fst q \<or> snd q = []" by (simp add: start_def)
  have D: "start + int i \<le> r" if "i < length (snd q)" "snd q ! i = Dropped" for i
    using assms(1) that le by (force simp: dropped_upto_def)
  have one: "dropped_upto r (index, [s])" using assms(2) by (auto simp: dropped_upto_def less_Suc_eq)
  have same: "dropped_upto r (start, snd q)" using D by (simp add: dropped_upto_def)
  have upd: "dropped_upto r (start, (snd q)[d := s])" for d
  proof -
    have "start + int i \<le> r" if "i < length (snd q)" "(snd q)[d := s] ! i = Dropped" for i
      using D [OF that(1)] that assms(2) by (cases "i = d") simp_all
    then show ?thesis by (simp add: dropped_upto_def)
  qed
  have app: "dropped_upto r (start, snd q @ replicate k Gap @ [s])" for k
    using D assms(2) by (auto simp: dropped_upto_def nth_append split: if_splits)
  show ?thesis
    using one same upd app assms(1) by (auto simp: q_put_def Let_def start_def [symmetric])
qed

text \<open>When the queue is too short for a frame, dropping just enough of its front makes room.\<close>

lemma q_make_room:
  assumes "0 < cap" "length (snd q) \<le> cap" "q_put cap index s q = (q', PJ_ETOOMANY)"
  defines "d \<equiv> nat (index - fst q' - int cap + 1)"
  shows "fst q' + int cap \<le> index" "index - fst q' \<le> MAX_DROPOUT" "snd q' = snd q" "snd q \<noteq> []"
    "q_put cap index s (fst (q_remove d q')) =
      ((if length (snd q) \<le> d then (index, [s])
        else (index - int cap + 1, drop d (snd q) @ replicate (cap - 1 - (length (snd q) - d)) Gap @ [s])),
       PJ_SUCCESS)"
proof -
  define start where "start = (if snd q = [] then index
      else if index < fst q then index - int (length (snd q)) else fst q)"
  have q': "q' = (start, snd q)" "cap \<le> nat (index - start)" "\<not> int (nat (index - start)) > MAX_DROPOUT"
    using assms(3) by (auto simp: q_put_def Let_def start_def [symmetric] split: if_splits)
  have "int (nat (index - start)) = index - start" using q'(2) assms(1) by linarith
  then show a: "fst q' + int cap \<le> index" "index - fst q' \<le> MAX_DROPOUT" "snd q' = snd q"
    using q' assms(1) by (simp_all only: fst_conv snd_conv)
  show b: "snd q \<noteq> []" using q' assms(1) by (auto simp: start_def)
  have d: "1 \<le> d" "int d = index - start - int cap + 1" using q' assms(1) by (simp_all add: d_def)
  let ?k = "min d (length (snd q))"
  have rm: "fst (q_remove d q') = (start + int ?k, drop ?k (snd q))" by (simp add: q_remove_def q'(1) Let_def)
  have nl: "\<not> (index < start + int ?k \<and> start + int ?k - index < MAX_MISORDER)" using d assms(1) by auto
  show "q_put cap index s (fst (q_remove d q')) =
      ((if length (snd q) \<le> d then (index, [s])
        else (index - int cap + 1, drop d (snd q) @ replicate (cap - 1 - (length (snd q) - d)) Gap @ [s])),
       PJ_SUCCESS)"
  proof (cases "length (snd q) \<le> d")
    case True
    then show ?thesis using nl assms(1) unfolding rm by (simp add: q_put_def)
  next
    case False
    then have m: "?k = d" "drop d (snd q) \<noteq> []" by simp_all
    have n: "nat (index - (start + int d)) = cap - 1" "\<not> index < start + int d"
      "start + int d = index - int cap + 1"
      using d assms(1) by linarith+
    have "\<not> cap \<le> cap - 1" "\<not> cap - 1 < length (snd q) - d" using assms(1,2) d(1) by linarith+
    then show ?thesis
      using False n(2) unfolding rm m(1) by (simp add: q_put_def Let_def n(1)) (simp add: n(3))
  qed
qed

section \<open>The contract\<close>

locale frame_store =
  fixes sinv :: "'s \<Rightarrow> bool"
    and cap :: "'s \<Rightarrow> nat"
    and block :: "'s \<Rightarrow> nat"
    and view :: "'s \<Rightarrow> jb_queue"
    and put :: "'s \<Rightarrow> int \<Rightarrow> 8 word list \<Rightarrow> nat \<Rightarrow> 32 word \<Rightarrow> 32 word \<Rightarrow> 's \<times> pj_status"
    and remove :: "'s \<Rightarrow> nat \<Rightarrow> 's \<times> nat"
  assumes cap_pos: "sinv s \<Longrightarrow> 0 < cap s"
    and cap_bound: "sinv s \<Longrightarrow> length (snd (view s)) \<le> cap s"
    and put_ok: "\<lbrakk>sinv s; n \<le> block s; n \<le> length frame; put s index frame n b t = (s', st)\<rbrakk>
      \<Longrightarrow> sinv s' \<and> cap s' = cap s \<and> block s' = block s \<and>
        (view s', st) = q_put (cap s) index (Held (take n frame) b t) (view s)"
    and remove_ok: "\<lbrakk>sinv s; remove s m = (s', k)\<rbrakk>
      \<Longrightarrow> sinv s' \<and> cap s' = cap s \<and> block s' = block s \<and> (view s', k) = q_remove m (view s)"
begin

text \<open>The user of the store makes room once, and the second attempt is accepted.\<close>

lemma second_put:
  assumes "sinv s" "n \<le> block s" "n \<le> length frame" "put s index frame n b t = (s', PJ_ETOOMANY)"
    and "remove s' (nat (index - fst (view s') - int (cap s) + 1)) = (s2, k)"
    and "put s2 index frame n b t = (s3, st)"
  shows "sinv s3" "st = PJ_SUCCESS" "cap s3 = cap s" "block s3 = block s"
    "index - fst (view s') \<le> MAX_DROPOUT" "fst (view s') + int (cap s) \<le> index"
    "snd (view s3) = drop k (snd (view s)) @
       replicate (length (snd (view s3)) - 1 - (length (snd (view s)) - k)) Gap @ [Held (take n frame) b t]"
    "fst (view s3) + int (length (snd (view s3))) = index + 1"
    "\<And>r. dropped_upto r (view s) \<Longrightarrow> dropped_upto r (view s3)"
proof -
  let ?f = "Held (take n frame) b t"
  note p1 = put_ok [OF assms(1-4)]
  then have p: "sinv s'" "cap s' = cap s" "block s' = block s" "q_put (cap s) index ?f (view s) = (view s', PJ_ETOOMANY)"
    by auto
  note m = q_make_room [OF cap_pos [OF assms(1)] cap_bound [OF assms(1)] p(4)]
  have r: "sinv s2" "cap s2 = cap s" "block s2 = block s"
    "(view s2, k) = q_remove (nat (index - fst (view s') - int (cap s) + 1)) (view s')"
    using remove_ok [OF p(1) assms(5)] p by auto
  have "n \<le> block s2" using assms(2) r(3) by simp
  note p3 = put_ok [OF r(1) this assms(3,6)]
  let ?d = "nat (index - fst (view s') - int (cap s) + 1)"
  have k: "k = min ?d (length (snd (view s)))" "view s2 = fst (q_remove ?d (view s'))"
    using r(4) m(3) by (simp_all add: q_remove_def Let_def split: prod.splits)
  have v3: "(view s3, st) = ((if length (snd (view s)) \<le> ?d then (index, [?f])
        else (index - int (cap s) + 1, drop ?d (snd (view s)) @
              replicate (cap s - 1 - (length (snd (view s)) - ?d)) Gap @ [?f])), PJ_SUCCESS)"
    using p3 m(5) k(2) r(2) by simp
  show "sinv s3" "cap s3 = cap s" "block s3 = block s" using p3 r by simp_all
  show "st = PJ_SUCCESS" using v3 by simp
  show "index - fst (view s') \<le> MAX_DROPOUT" "fst (view s') + int (cap s) \<le> index" using m by simp_all
  have c: "length (snd (view s)) \<le> cap s" "0 < cap s" using cap_bound cap_pos assms(1) by simp_all
  have d1: "1 \<le> ?d" using m(1) by simp
  show "snd (view s3) = drop k (snd (view s)) @
       replicate (length (snd (view s3)) - 1 - (length (snd (view s)) - k)) Gap @ [?f]"
    using v3 k(1) c d1 by (cases "length (snd (view s)) \<le> ?d") auto
  show "fst (view s3) + int (length (snd (view s3))) = index + 1"
    using v3 c d1 by (cases "length (snd (view s)) \<le> ?d") auto
  show "dropped_upto r (view s3)" if "dropped_upto r (view s)" for r
  proof -
    have "dropped_upto r (view s')" using dropped_upto_put [OF that, of ?f "cap s" index] p(4) by simp
    then have "dropped_upto r (view s2)" using k(2) dropped_upto_remove by simp
    then show ?thesis using dropped_upto_put [of r "view s2" ?f "cap s2" index] p3 by (metis fst_conv jb_slot.distinct(5))
  qed
qed

end

section \<open>The frame list provides it\<close>

interpretation fs: frame_store fl_inv fl_max_count fl_frame_size fl_view
  "\<lambda>fl index frame n b t. jb_framelist_put_at fl index frame n b t PJMEDIA_JB_NORMAL_FRAME"
  jb_framelist_remove_head
proof
  fix s s' :: jb_framelist_t and n m k :: nat and frame :: "8 word list" and index b t st
  show "0 < fl_max_count s" if "fl_inv s" using fl_invD(1) [OF that] .
  show "length (snd (fl_view s)) \<le> fl_max_count s" if "fl_inv s"
    using fl_invD(3) [OF that] by (simp add: fl_view_def)
  show "fl_inv s' \<and> fl_max_count s' = fl_max_count s \<and> fl_frame_size s' = fl_frame_size s \<and>
      (fl_view s', st) = q_put (fl_max_count s) index (Held (take n frame) b t) (fl_view s)"
    if "fl_inv s" "n \<le> fl_frame_size s" "n \<le> length frame"
      "jb_framelist_put_at s index frame n b t PJMEDIA_JB_NORMAL_FRAME = (s', st)"
    using put_at_view [OF that] by simp
  show "fl_inv s' \<and> fl_max_count s' = fl_max_count s \<and> fl_frame_size s' = fl_frame_size s \<and>
      (fl_view s', k) = q_remove m (fl_view s)"
    if "fl_inv s" "jb_framelist_remove_head s m = (s', k)"
    using remove_head_view [OF that] by (simp add: fl_view_def q_remove_def Let_def)
qed

end
