(* ===== verification/Jitter_Buffer_Inv.thy ===== *)
theory Jitter_Buffer_Inv
  imports Jitter_Buffer Jb_Store
begin

text \<open>
  The invariant of the jitter buffer and its preservation by every call. The progressive discard
  algorithm needs that no frame above \<open>jb_discard_ref\<close> is discarded, or it would discard a frame
  twice and lose count.
\<close>

definition jb_inv :: "pjmedia_jbuf \<Rightarrow> bool" where
  "jb_inv jb \<longleftrightarrow>
     fl_inv (jb_framelist jb) \<and> fl_max_count (jb_framelist jb) = jb_max_count jb \<and>
     fl_frame_size (jb_framelist jb) = jb_frame_size jb \<and> 1 \<le> jb_min_shrink_gap jb \<and>
     0 \<le> jb_level jb \<and> 0 \<le> jb_max_hist_level jb \<and> 0 \<le> jb_max_burst jb \<and>
     0 \<le> jb_eff_level jb \<and> jb_eff_level jb \<le> int (jb_max_count jb * 4 div 5) \<and>
     0 \<le> jb_prefetch jb \<and> jb_prefetch jb \<le> int (jb_max_count jb) \<and>
     0 \<le> jb_min_prefetch jb \<and> jb_min_prefetch jb \<le> int (jb_max_count jb) \<and>
     0 \<le> jb_max_prefetch jb \<and> jb_max_prefetch jb \<le> int (jb_max_count jb) \<and>
     (jb_discard_algo jb = PJMEDIA_JB_DISCARD_PROGRESSIVE \<longrightarrow>
        dropped_upto (jb_discard_ref jb) (fl_view (jb_framelist jb)))"

lemma jb_invD:
  assumes "jb_inv jb"
  shows "fl_inv (jb_framelist jb)" "fl_max_count (jb_framelist jb) = jb_max_count jb"
    "fl_frame_size (jb_framelist jb) = jb_frame_size jb" "0 \<le> jb_level jb" "1 \<le> jb_min_shrink_gap jb"
    "0 \<le> jb_eff_level jb"
    "jb_discard_algo jb = PJMEDIA_JB_DISCARD_PROGRESSIVE \<Longrightarrow>
       dropped_upto (jb_discard_ref jb) (fl_view (jb_framelist jb))"
  using assms by (simp_all add: jb_inv_def)

text \<open>Replacing the frame list by one that keeps the view's bound.\<close>

lemma jb_inv_framelist:
  assumes "jb_inv jb" "fl_inv fl" "fl_max_count fl = jb_max_count jb" "fl_frame_size fl = jb_frame_size jb"
    and "\<And>r. dropped_upto r (fl_view (jb_framelist jb)) \<Longrightarrow> dropped_upto r (fl_view fl)"
  shows "jb_inv (jb\<lparr>jb_framelist := fl\<rparr>)"
  using assms by (simp add: jb_inv_def)

lemma jb_inv_counters:
  assumes "jb_inv jb"
  shows "jb_inv (jb\<lparr>jb_empty := e\<rparr>)" "jb_inv (jb\<lparr>jb_lost := e\<rparr>)" "jb_inv (jb\<lparr>jb_discard := e\<rparr>)"
    "jb_inv (jb\<lparr>jb_prefetching := p\<rparr>)" "jb_inv (jb\<lparr>jb_delay := d\<rparr>)" "jb_inv (jb\<lparr>jb_burst := d\<rparr>)"
    "jb_inv (jb\<lparr>jb_last_op := op\<rparr>)" "jb_inv (jb\<lparr>jb_init_cycle_cnt := c\<rparr>)" "jb_inv (jb\<lparr>jb_status := s\<rparr>)"
    "jb_inv (jb\<lparr>jb_stable_hist := c\<rparr>)" "jb_inv (jb\<lparr>jb_discard_dist := e\<rparr>)"
    "0 \<le> l \<Longrightarrow> jb_inv (jb\<lparr>jb_level := l\<rparr>)" "0 \<le> l \<Longrightarrow> jb_inv (jb\<lparr>jb_max_hist_level := l\<rparr>)"
  using assms by (simp_all add: jb_inv_def)

text \<open>No call changes the capacity.\<close>

lemma max_count_kept [simp]:
  "jb_max_count (jbuf_calculate_jitter jb) = jb_max_count jb"
  "jb_max_count (jbuf_discard_static jb) = jb_max_count jb"
  "jb_max_count (jbuf_discard_progressive jb) = jb_max_count jb"
  "jb_max_count (run_discard jb) = jb_max_count jb"
  "jb_max_count (jbuf_update oper jb) = jb_max_count jb"
  "jb_max_count (put_done n jb st) = jb_max_count jb"
  "jb_max_count (fst (get_found r jb)) = jb_max_count jb"
  "jb_max_count (fst (get_empty jb)) = jb_max_count jb"
proof -
  have i: "jb_max_count (level_increasing jb) = jb_max_count jb" for jb
    by (simp add: level_increasing_def Let_def)
  have d: "jb_max_count (level_decreasing jb) = jb_max_count jb" for jb
    by (simp add: level_decreasing_def Let_def)
  show c: "jb_max_count (jbuf_calculate_jitter jb) = jb_max_count jb" for jb
    by (simp add: jbuf_calculate_jitter_def Let_def i d)
  show s: "jb_max_count (jbuf_discard_static jb) = jb_max_count jb" for jb
    by (simp add: jbuf_discard_static_def Let_def split_beta)
  have "jb_max_count (setup_discard l n jb) = jb_max_count jb" "jb_max_count (discard_due l jb) = jb_max_count jb"
    for l n jb by (simp_all add: setup_discard_def discard_due_def Let_def)
  then show p: "jb_max_count (jbuf_discard_progressive jb) = jb_max_count jb" for jb
    by (simp add: jbuf_discard_progressive_def Let_def)
  show r: "jb_max_count (run_discard jb) = jb_max_count jb" for jb
    by (simp add: run_discard_def s p split: pjmedia_jb_discard_algo.split)
  show u: "jb_max_count (jbuf_update oper jb) = jb_max_count jb" for oper jb
    by (simp add: jbuf_update_def Let_def r c)
  show "jb_max_count (put_done n jb st) = jb_max_count jb"
    by (simp add: put_done_def Let_def u)
  show "jb_max_count (fst (get_found r jb)) = jb_max_count jb" "jb_max_count (fst (get_empty jb)) = jb_max_count jb"
    by (simp_all add: get_found_def get_empty_def Let_def)
qed

section \<open>Adaptation\<close>

lemma level_decreasing_inv:
  assumes "jb_inv jb" "jb_level jb < jb_eff_level jb"
  shows "jb_inv (level_decreasing jb)"
proof -
  define diff where "diff = (if (jb_eff_level jb - jb_max_hist_level jb) sdiv 3 < 1 then 1
      else (jb_eff_level jb - jb_max_hist_level jb) sdiv 3)"
  have h: "0 \<le> jb_max_hist_level jb" "1 \<le> jb_eff_level jb" using assms by (simp_all add: jb_inv_def)
  have "0 \<le> diff \<and> diff \<le> jb_eff_level jb"
  proof (cases "(jb_eff_level jb - jb_max_hist_level jb) sdiv 3 < 1")
    case True
    then show ?thesis using h(2) by (simp add: diff_def)
  next
    case False
    have "0 \<le> jb_eff_level jb - jb_max_hist_level jb"
    proof (rule ccontr)
      assume "\<not> ?thesis"
      then have "(jb_eff_level jb - jb_max_hist_level jb) sdiv 3 \<le> 0" by (simp add: signed_divide_int_def)
      then show False using False by simp
    qed
    then have "(jb_eff_level jb - jb_max_hist_level jb) sdiv 3 = (jb_eff_level jb - jb_max_hist_level jb) div 3"
      by (auto simp: signed_divide_int_def sgn_if)
    then show ?thesis using False h by (simp add: diff_def)
  qed
  moreover have "level_decreasing jb = (if jb_stable_hist jb + 1 > STABLE_HISTORY_LIMIT then
      jb\<lparr>jb_stable_hist := 0, jb_max_hist_level := 0, jb_eff_level := jb_eff_level jb - diff,
         jb_prefetch := (if jb_init_prefetch jb \<noteq> 0 then max (jb_min_prefetch jb) (jb_eff_level jb - diff)
                         else jb_prefetch jb)\<rparr>
      else jb\<lparr>jb_stable_hist := jb_stable_hist jb + 1\<rparr>)"
    by (simp add: level_decreasing_def Let_def diff_def)
  ultimately show ?thesis using assms by (auto simp: jb_inv_def)
qed

lemma level_increasing_inv:
  assumes "jb_inv jb"
  shows "jb_inv (level_increasing jb)"
  using assms by (auto simp: level_increasing_def Let_def jb_inv_def min_def)

lemma calculate_inv:
  assumes "jb_inv jb"
  shows "jb_inv (jbuf_calculate_jitter jb)"
proof -
  define j where "j = jb\<lparr>jb_burst := pj_math_stat_update (jb_level jb) (jb_burst jb),
      jb_max_hist_level := max (jb_max_hist_level jb) (jb_level jb)\<rparr>"
  have j: "jb_inv j" using assms by (auto simp: jb_inv_def j_def)
  have "jbuf_calculate_jitter jb = (if jb_level j < jb_eff_level j then level_decreasing j
      else if jb_level j > jb_eff_level j then level_increasing j else j\<lparr>jb_stable_hist := 0\<rparr>)"
    by (simp only: jbuf_calculate_jitter_def Let_def j_def)
  then show ?thesis
    using level_decreasing_inv [OF j] level_increasing_inv [OF j] jb_inv_counters(10) [OF j] by simp
qed

section \<open>Discarding\<close>

lemma static_inv:
  assumes "jb_inv jb" "jb_discard_algo jb = PJMEDIA_JB_DISCARD_STATIC"
  shows "jb_inv (jbuf_discard_static jb)"
proof -
  obtain fl k where r: "jb_framelist_remove_head (jb_framelist jb) 1 = (fl, k)" by fastforce
  note v = remove_head_view [OF jb_invD(1) [OF assms(1)] r]
  show ?thesis
    using assms v r jb_invD(2,3) [OF assms(1)]
    by (auto simp: jbuf_discard_static_def Let_def jb_inv_def)
qed

lemma dropped_upto_mono: "dropped_upto r q \<Longrightarrow> r \<le> r' \<Longrightarrow> dropped_upto r' q"
  unfolding dropped_upto_def by (meson order_trans)

lemma dropped_upto_last: "dropped_upto (fst q + int (length (snd q)) - 1) q"
  by (auto simp: dropped_upto_def)

text \<open>A discard above the reference cannot hit a frame that is discarded already.\<close>

lemma discard_above:
  assumes inv: "jb_inv jb" and D: "dropped_upto r (fl_view (jb_framelist jb))"
    and i: "r < index" "fl_origin (jb_framelist jb) \<le> index"
      "index < fl_origin (jb_framelist jb) + int (fl_size (jb_framelist jb))"
  shows "jb_inv (jb\<lparr>jb_framelist := fst (jb_framelist_discard (jb_framelist jb) index), jb_discard_ref := index\<rparr>)"
proof -
  let ?fl = "jb_framelist jb"
  let ?d = "nat (index - fl_origin ?fl)"
  have d: "?d < fl_size ?fl" "fl_origin ?fl + int ?d = index" using i(2,3) by linarith+
  have nd: "window ?fl ! ?d \<noteq> Dropped"
    using D d i(1) unfolding dropped_upto_def fl_view_def by fastforce
  obtain fl' st where p: "jb_framelist_discard ?fl index = (fl', st)" by fastforce
  note v = discard_view [OF jb_invD(1) [OF inv] i(2,3) nd p]
  have "fl_origin ?fl + int j \<le> index" if "j < fl_size ?fl" "(window ?fl)[?d := Dropped] ! j = Dropped" for j
    using D i(1) d that by (cases "j = ?d") (force simp: dropped_upto_def fl_view_def)+
  then have "dropped_upto index (fl_view fl')"
    unfolding v(4) by (simp add: q_discard_def dropped_upto_def fl_view_def)
  then show ?thesis using inv v p by (simp add: jb_inv_def)
qed

lemma setup_inv:
  assumes "jb_inv jb" "jb_discard_algo jb = PJMEDIA_JB_DISCARD_PROGRESSIVE"
    "dropped_upto final (fl_view (jb_framelist jb))"
  shows "jb_inv (setup_discard final d jb)" "jb_framelist (setup_discard final d jb) = jb_framelist jb"
    "jb_discard_algo (setup_discard final d jb) = PJMEDIA_JB_DISCARD_PROGRESSIVE"
    "1 \<le> jb_discard_dist (setup_discard final d jb)"
  using assms by (auto simp: setup_discard_def Let_def jb_inv_def)

lemma due_inv:
  assumes inv: "jb_inv jb" and a: "jb_discard_algo jb = PJMEDIA_JB_DISCARD_PROGRESSIVE"
    and d: "1 \<le> jb_discard_dist jb" and n: "0 < fl_size (jb_framelist jb)"
    and final: "final = fl_origin (jb_framelist jb) + int (fl_size (jb_framelist jb)) - 1"
  shows "jb_inv (discard_due final jb)"
proof (cases "final \<ge> jb_discard_ref jb + int (jb_discard_dist jb)")
  case True
  define s where "s = max (fl_origin (jb_framelist jb)) (jb_discard_ref jb + int (jb_discard_dist jb))"
  have "discard_due final jb = jb\<lparr>jb_framelist := fst (jb_framelist_discard (jb_framelist jb) s), jb_discard_ref := s\<rparr>"
    using True by (simp add: discard_due_def jb_framelist_origin_def s_def max_def Let_def)
  then show ?thesis
    using discard_above [OF inv jb_invD(7) [OF inv a], of s] d n final True by (simp add: s_def)
next
  case False
  then show ?thesis using inv by (simp add: discard_due_def)
qed

lemma progressive_inv:
  assumes inv: "jb_inv jb" and a: "jb_discard_algo jb = PJMEDIA_JB_DISCARD_PROGRESSIVE"
  shows "jb_inv (jbuf_discard_progressive jb)"
proof -
  define final where "final = jb_framelist_origin (jb_framelist jb) + int (jb_framelist_size (jb_framelist jb)) - 1"
  define b where "b = nat (max (jb_eff_level jb) (jb_level jb))"
  define d where "d = discard_time b div (jb_framelist_eff_size (jb_framelist jb) - b) div jb_frame_ptime jb"
  have l: "final = fl_origin (jb_framelist jb) + int (fl_size (jb_framelist jb)) - 1"
    by (simp add: final_def jb_framelist_origin_def jb_framelist_size_def)
  have "dropped_upto final (fl_view (jb_framelist jb))"
    using dropped_upto_last [of "fl_view (jb_framelist jb)"] by (simp add: fl_view_def l)
  note s = setup_inv [OF inv a this, of d]
  have "jb_inv (discard_due final (setup_discard final d jb))" if "\<not> jb_framelist_eff_size (jb_framelist jb) \<le> b"
  proof (intro due_inv s(1,3,4))
    show "0 < fl_size (jb_framelist (setup_discard final d jb))"
      unfolding s(2) using that eff_size_view(2) [OF jb_invD(1) [OF inv]] by linarith
    show "final = fl_origin (jb_framelist (setup_discard final d jb))
        + int (fl_size (jb_framelist (setup_discard final d jb))) - 1" unfolding s(2) by (fact l)
  qed
  moreover have "jbuf_discard_progressive jb = (if jb_last_op jb \<noteq> JB_OP_PUT then jb
      else if jb_framelist_eff_size (jb_framelist jb) \<le> b then jb\<lparr>jb_discard_dist := 0\<rparr>
      else discard_due final (setup_discard final d jb))"
    by (simp only: jbuf_discard_progressive_def Let_def final_def b_def d_def)
  ultimately show ?thesis using inv jb_inv_counters(11) [OF inv] by simp
qed

lemma run_discard_inv:
  assumes "jb_inv jb"
  shows "jb_inv (run_discard jb)"
  using assms static_inv progressive_inv
  by (auto simp: run_discard_def split: pjmedia_jb_discard_algo.split)

lemma update_inv:
  assumes "jb_inv jb"
  shows "jb_inv (jbuf_update oper jb)"
proof -
  define starting where "starting = (jb_status jb = JB_STATUS_INITIALIZING)"
  define j2 where "j2 = (if starting then jb\<lparr>jb_last_op := oper, jb_init_cycle_cnt := jb_init_cycle_cnt jb + 1\<rparr>
      else jb\<lparr>jb_last_op := oper\<rparr>)"
  define j3 where "j3 = (if starting
      then j2\<lparr>jb_status := JB_STATUS_PROCESSING, jb_level := min (jb_level j2) (jb_max_burst j2)\<rparr> else j2)"
  define j4 where "j4 = (if oper = JB_OP_GET \<and> jb_level j3 \<le> jb_max_burst j3 then jbuf_calculate_jitter j3 else j3)"
  have 2: "jb_inv j2" using assms by (simp add: jb_inv_def j2_def)
  then have 3: "jb_inv j3" by (auto simp: jb_inv_def j3_def)
  then have 4: "jb_inv j4" using calculate_inv [OF 3] by (simp add: j4_def)
  have u: "jbuf_update oper jb = (if jb_last_op jb \<noteq> oper then
      (if starting \<and> \<not> (jb_init_cycle_cnt j2 \<ge> INIT_CYCLE \<and> oper = JB_OP_GET) then j2\<lparr>jb_level := 0\<rparr>
       else run_discard (j4\<lparr>jb_level := 0\<rparr>)) else run_discard jb)"
    by (simp add: jbuf_update_def Let_def starting_def j2_def j3_def j4_def)
  show ?thesis
    using run_discard_inv [OF assms] run_discard_inv [OF jb_inv_counters(12) [OF 4, of 0]]
      jb_inv_counters(12) [OF 2, of 0] unfolding u by simp
qed

section \<open>Put, get, remove\<close>

lemma put_returns:
  assumes inv: "jb_inv jb" and n: "n \<le> jb_frame_size jb" "n \<le> length frame"
    and p: "jb_framelist_put_at (jb_framelist jb) index frame n b t PJMEDIA_JB_NORMAL_FRAME = (fl, st)"
  shows "\<exists>jb' st'. evict_and_put frame n b index t (jb\<lparr>jb_framelist := fl\<rparr>) st = Some (jb', st') \<and>
    jb_inv jb' \<and> st' = (if st = PJ_ETOOMANY then PJ_SUCCESS else st) \<and>
    jb_max_count jb' = jb_max_count jb \<and> (st \<noteq> PJ_ETOOMANY \<longrightarrow> jb' = jb\<lparr>jb_framelist := fl\<rparr>)"
proof -
  note i = jb_invD(1-3) [OF inv]
  have nf: "n \<le> fl_frame_size (jb_framelist jb)" using n i by simp
  note v = put_at_view [OF i(1) nf n(2) p]
  show ?thesis
  proof (cases "st = PJ_ETOOMANY")
    case False
    have "dropped_upto r (fl_view fl)" if "dropped_upto r (fl_view (jb_framelist jb))" for r
      using dropped_upto_put [OF that] v(4) by (metis fst_conv jb_slot.distinct(5))
    then have "jb_inv (jb\<lparr>jb_framelist := fl\<rparr>)" using inv v i by (intro jb_inv_framelist) simp_all
    then show ?thesis using False by (subst evict_and_put.simps) simp
  next
    case True
    let ?d = "index - fl_origin fl - int (jb_max_count jb) + 1"
    obtain fl2 k where r: "jb_framelist_remove_head fl (nat ?d) = (fl2, k)" by fastforce
    obtain fl3 st3 where q: "jb_framelist_put_at fl2 index frame n b t PJMEDIA_JB_NORMAL_FRAME = (fl3, st3)"
      by fastforce
    have r': "jb_framelist_remove_head fl (nat (index - fst (fl_view fl) - int (fl_max_count (jb_framelist jb)) + 1))
        = (fl2, k)" using r i(2) by (simp add: fl_view_def)
    note s = fs.second_put [OF i(1) nf n(2) p [unfolded True] r' q]
    have bound: "?d mod 4294967296 = ?d" using s(5,6) i(2) by (simp add: fl_view_def MAX_DROPOUT_def)
    have "jb_inv (jb\<lparr>jb_framelist := fl3\<rparr>)" using inv s(1,3,4,9) i by (intro jb_inv_framelist) simp_all
    then have "jb_inv (jb\<lparr>jb_framelist := fl3, jb_discard := jb_discard jb + k\<rparr>)" by (simp add: jb_inv_def)
    moreover have "evict_and_put frame n b index t (jb\<lparr>jb_framelist := fl\<rparr>) st =
        Some (jb\<lparr>jb_framelist := fl3, jb_discard := jb_discard jb + k\<rparr>, PJ_SUCCESS)"
      unfolding True using s(2) q r
      by (subst evict_and_put.simps)
        (simp add: jb_framelist_origin_def bound Let_def evict_and_put.simps [of _ _ _ _ _ _ PJ_SUCCESS])
    ultimately show ?thesis using True by simp
  qed
qed

lemma put_done_inv:
  assumes "jb_inv jb"
  shows "jb_inv (put_done cur_size jb st)"
proof -
  define l where "l = (if to_int (jb_framelist_eff_size (jb_framelist jb)) > to_int cur_size
      then to_int (jb_framelist_eff_size (jb_framelist jb)) - to_int cur_size else 1)"
  define j where "j = (if jb_prefetching jb \<and> to_int (jb_framelist_eff_size (jb_framelist jb)) \<ge> jb_prefetch jb
      then jb\<lparr>jb_prefetching := False\<rparr> else jb)"
  have j: "jb_inv j" "0 \<le> jb_level j + l"
    using assms jb_inv_counters(4) [OF assms] jb_invD(4) [OF assms] by (auto simp: j_def l_def)
  have "put_done cur_size jb st = (if st = PJ_SUCCESS then jbuf_update JB_OP_PUT (j\<lparr>jb_level := jb_level j + l\<rparr>)
      else jb\<lparr>jb_discard := jb_discard jb + 1\<rparr>)"
    by (simp only: put_done_def Let_def j_def l_def)
  then show ?thesis
    using jb_inv_counters(3) [OF assms] update_inv [OF jb_inv_counters(12) [OF j]] by simp
qed

lemma put_frame3_inv:
  assumes "jb_inv jb"
  shows "\<exists>jb'. pjmedia_jbuf_put_frame3 frame b index t jb = Some (jb',
      snd (q_put (jb_max_count jb) index (Held (take (min (length frame) (jb_frame_size jb)) frame) b t)
        (fl_view (jb_framelist jb))) \<notin> {PJ_SUCCESS, PJ_ETOOMANY}) \<and> jb_inv jb' \<and> jb_max_count jb' = jb_max_count jb"
proof -
  let ?n = "min (length frame) (jb_frame_size jb)"
  obtain fl st where p: "jb_framelist_put_at (jb_framelist jb) index frame ?n b t PJMEDIA_JB_NORMAL_FRAME = (fl, st)"
    by fastforce
  have n: "?n \<le> jb_frame_size jb" "?n \<le> length frame" "?n \<le> fl_frame_size (jb_framelist jb)"
    using jb_invD(3) [OF assms] by simp_all
  have st: "snd (q_put (jb_max_count jb) index (Held (take ?n frame) b t) (fl_view (jb_framelist jb))) = st"
    using put_at_view(4) [OF jb_invD(1) [OF assms] n(3,2) p] jb_invD(2) [OF assms] by (metis snd_conv)
  show ?thesis
    using put_returns [OF assms n(1,2) p] put_done_inv unfolding st
    by (auto simp: pjmedia_jbuf_put_frame3_def p)
qed

lemma get_frame3_inv:
  assumes "jb_inv jb"
  shows "\<exists>jb' g. pjmedia_jbuf_get_frame3 jb = Some (jb', g) \<and> jb_inv jb' \<and> jb_max_count jb' = jb_max_count jb"
proof (cases "jb_prefetching jb")
  case True
  have "jb_inv (jb\<lparr>jb_empty := jb_empty jb + 1, jb_level := jb_level jb + 1\<rparr>)"
    using assms by (simp add: jb_inv_def)
  then show ?thesis using True update_inv by (simp add: pjmedia_jbuf_get_frame3_def get_prefetching_def)
next
  case False
  note i = jb_invD(1-3) [OF assms]
  obtain fl r where g: "jb_framelist_get (jb_framelist jb) = Some (fl, r)" "fl_inv fl"
    "fl_max_count fl = jb_max_count jb" "fl_frame_size fl = jb_frame_size jb"
    "fl_view fl = fst (q_get (fl_view (jb_framelist jb)))"
    using fl_get_view [OF i(1)] i by (metis fst_conv)
  have j: "jb_inv (jb\<lparr>jb_framelist := fl\<rparr>)"
    using g dropped_upto_get by (intro jb_inv_framelist [OF assms]) simp_all
  have u: "jb_inv (jbuf_update JB_OP_GET (j\<lparr>jb_level := jb_level j + 1\<rparr>))" if "jb_inv j" for j
    using that jb_invD(4) [OF that] by (intro update_inv jb_inv_counters(12)) simp_all
  have f: "jb_inv (fst (get_found x (jb\<lparr>jb_framelist := fl\<rparr>)))" for x
    using j by (simp add: get_found_def Let_def jb_inv_def)
  have e: "jb_inv (fst (get_empty (jb\<lparr>jb_framelist := fl\<rparr>)))"
    using j by (simp add: get_empty_def Let_def jb_inv_def)
  show ?thesis
    using False g(1) u [OF e] u [OF f]
    by (cases r) (auto simp: pjmedia_jbuf_get_frame3_def split_beta)
qed

end
