(* ===== verification/Jitter_Buffer_Flow.thy ===== *)
theory Jitter_Buffer_Flow
  imports Jitter_Buffer_Inv
begin

text \<open>
  Runs of calls on a jitter buffer, removal of real frames, and the start-up phase in which no
  discard algorithm runs.
\<close>

section \<open>Calls\<close>

datatype jb_call =
    Call_put "8 word list" "32 word" int "32 word"
  | Call_get
  | Call_remove nat
  | Call_reset
  | Call_fixed nat
  | Call_adaptive nat nat nat

fun make_call :: "jb_call \<Rightarrow> pjmedia_jbuf \<Rightarrow> pjmedia_jbuf option" where
  "make_call (Call_put frame b index t) jb = map_option fst (pjmedia_jbuf_put_frame3 frame b index t jb)"
| "make_call Call_get jb = map_option fst (pjmedia_jbuf_get_frame3 jb)"
| "make_call (Call_remove n) jb = Some (fst (pjmedia_jbuf_remove_frame n jb))"
| "make_call Call_reset jb = Some (pjmedia_jbuf_reset jb)"
| "make_call (Call_fixed p) jb = Some (fst (pjmedia_jbuf_set_fixed p jb))"
| "make_call (Call_adaptive p lo hi) jb = Some (fst (pjmedia_jbuf_set_adaptive p lo hi jb))"

text \<open>What \<^verbatim>\<open>PJ_ASSERT_RETURN\<close> would check, were it not compiled out.\<close>

fun call_valid :: "nat \<Rightarrow> jb_call \<Rightarrow> bool" where
  "call_valid cap (Call_fixed p) = (p \<le> cap)"
| "call_valid cap (Call_adaptive p lo hi) = (lo \<le> hi \<and> p \<le> hi \<and> hi \<le> cap)"
| "call_valid cap _ = True"

fun jb_run :: "jb_call list \<Rightarrow> pjmedia_jbuf \<Rightarrow> pjmedia_jbuf option" where
  "jb_run [] jb = Some jb"
| "jb_run (c # cs) jb = Option.bind (make_call c jb) (jb_run cs)"

section \<open>Removing real frames\<close>

abbreviation held_frames :: "jb_slot list \<Rightarrow> jb_slot list" where
  "held_frames xs \<equiv> filter (\<lambda>s. s \<noteq> Dropped) xs"

lemma dropped_split_at:
  assumes "k \<le> length xs"
  shows "length (filter (\<lambda>s. s = Dropped) xs) =
      (k - length (held_frames (take k xs))) + length (filter (\<lambda>s. s = Dropped) (drop k xs))"
    "length (held_frames (take k xs)) \<le> k"
    "held_frames xs = held_frames (take k xs) @ held_frames (drop k xs)"
proof -
  have a: "filter P xs = filter P (take k xs) @ filter P (drop k xs)" for P
    by (metis append_take_drop_id filter_append)
  have "length (filter (\<lambda>s. s = Dropped) (take k xs)) + length (held_frames (take k xs)) = k"
    using sum_length_filter_compl [of "\<lambda>s. s = Dropped" "take k xs"] assms by simp
  then show "length (filter (\<lambda>s. s = Dropped) xs) =
      (k - length (held_frames (take k xs))) + length (filter (\<lambda>s. s = Dropped) (drop k xs))"
    "length (held_frames (take k xs)) \<le> k"
    using a [of "\<lambda>s. s = Dropped"] by simp_all
  show "held_frames xs = held_frames (take k xs) @ held_frames (drop k xs)" by (rule a)
qed

text \<open>A further round takes as many slots as dropped frames were among the last ones taken.\<close>

lemma remove_more_view:
  assumes "fl_inv fl" "fl_discarded_num fl \<le> L" "L - fl_discarded_num fl \<le> count" "count < 2 ^ 31" "L < 2 ^ 31"
    "count - (L - fl_discarded_num fl) + fl_size fl < 2 ^ 31"
  shows "fl_inv (fst (remove_more fl L count)) \<and>
    held_frames (window (fst (remove_more fl L count))) =
      drop (L - fl_discarded_num fl) (held_frames (window fl)) \<and>
    snd (remove_more fl L count) = count - (L - fl_discarded_num fl) +
      min (L - fl_discarded_num fl) (length (held_frames (window fl))) \<and>
    fl_max_count (fst (remove_more fl L count)) = fl_max_count fl \<and>
    fl_frame_size (fst (remove_more fl L count)) = fl_frame_size fl \<and>
    (\<forall>r. dropped_upto r (fl_view fl) \<longrightarrow> dropped_upto r (fl_view (fst (remove_more fl L count))))"
  using assms
proof (induction fl L count rule: remove_more.induct)
  case (1 fl L count)
  define m where "m = L - fl_discarded_num fl"
  show ?case
  proof (cases "fl_discarded_num fl < L")
    case False
    then show ?thesis using "1.prems"(1) by (simp add: remove_more.simps)
  next
    case True
    obtain g k where rm: "jb_framelist_remove_head fl m = (g, k)" by fastforce
    note v = remove_head_view [OF "1.prems"(1) rm]
    have kl: "k \<le> length (window fl)" using v(2) by simp
    note s = dropped_split_at [OF kl]
    define a where "a = length (held_frames (take k (window fl)))"
    have dn: "fl_discarded_num g = fl_discarded_num fl - (k - a)" "k - a \<le> fl_discarded_num fl" "a \<le> k"
      using s fl_inv_count(1) [OF "1.prems"(1)] fl_inv_count(1) [OF v(1)] by (simp_all add: v(3) a_def)
    have um: "u32_minus L (fl_discarded_num fl) = m" "u32_minus count m = count - m"
      using "1.prems"(3-5) True by (simp_all add: u32_minus_small m_def)
    have km: "k \<le> m" "k \<le> fl_size fl" using v(2) by simp_all
    have c: "(count - m + k) mod 2 ^ 32 = count - m + k"
      using "1.prems"(6) km by (intro mod_less) (simp add: m_def)
    have eq: "remove_more fl L count = remove_more g (fl_discarded_num fl) (count - m + k)"
      using True rm um c by (subst remove_more.simps) simp
    have m1: "fl_discarded_num fl - fl_discarded_num g = k - a" using dn by simp
    have pre: "fl_discarded_num g \<le> fl_discarded_num fl" "k - a \<le> count - m + k" "count - m + k < 2 ^ 31"
      "fl_discarded_num fl < 2 ^ 31" "count - m + k - (k - a) + fl_size g < 2 ^ 31"
      using dn "1.prems"(3-6) km True v(7) by (simp_all add: m_def)
    note IH = "1.IH" [OF True refl refl [of "(g, k)", folded rm um(1)], of g k, unfolded um(1) um(2) c m1,
        OF rm [symmetric] v(1) pre]
    have dr: "held_frames (window fl) = held_frames (take k (window fl)) @ held_frames (drop k (window fl))" by (rule s(3))
    have short: "held_frames (drop k (window fl)) = []" if "k < m" using that v(2) by simp
    have "drop m (held_frames (window fl)) = drop (k - a) (held_frames (window g))"
      using short dn(3) km(1) unfolding v(3) dr by (cases "k = m") (simp_all add: a_def)
    moreover have "count - m + k - (k - a) + min (k - a) (length (held_frames (window g))) =
        count - m + min m (length (held_frames (window fl)))"
      using short dn(3) km(1) unfolding v(3) dr by (cases "k = m") (simp_all add: a_def)
    moreover have "dropped_upto r (fl_view g)" if "dropped_upto r (fl_view fl)" for r
      using dropped_upto_remove [OF that, of m] v by (simp add: q_remove_def fl_view_def Let_def)
    ultimately show ?thesis using IH v(5,6) unfolding eq m_def [symmetric] by simp
  qed
qed

lemma remove_frame_view:
  assumes "jb_inv jb"
  shows "jb_inv (fst (pjmedia_jbuf_remove_frame n jb))"
    "held_frames (window (jb_framelist (fst (pjmedia_jbuf_remove_frame n jb)))) =
      drop n (held_frames (window (jb_framelist jb)))"
    "snd (pjmedia_jbuf_remove_frame n jb) = min n (length (held_frames (window (jb_framelist jb))))"
    "jb_max_count (fst (pjmedia_jbuf_remove_frame n jb)) = jb_max_count jb"
proof -
  let ?fl = "jb_framelist jb"
  note i = jb_invD(1-3) [OF assms]
  obtain g k where rm: "jb_framelist_remove_head ?fl n = (g, k)" by fastforce
  note v = remove_head_view [OF i(1) rm]
  have kl: "k \<le> length (window ?fl)" using v(2) by simp
  note s = dropped_split_at [OF kl]
  define a where "a = length (held_frames (take k (window ?fl)))"
  have dn: "fl_discarded_num ?fl - fl_discarded_num g = k - a" "fl_discarded_num g \<le> fl_discarded_num ?fl" "a \<le> k"
    using s fl_inv_count(1) [OF i(1)] fl_inv_count(1) [OF v(1)] by (simp_all add: v(3) a_def)
  have kf: "k \<le> fl_size ?fl" using v(2) by simp
  have "fl_size ?fl < 2 ^ 31" "fl_discarded_num ?fl \<le> fl_size ?fl"
    using fl_invD(3,4) [OF i(1)] fl_inv_count(3) [OF i(1)] by simp_all
  then have b: "k < 2 ^ 31" "fl_discarded_num ?fl < 2 ^ 31" "k - (k - a) + fl_size g < 2 ^ 31"
    using kf v(7) dn(3) by linarith+
  note m = remove_more_view [OF v(1) dn(2), of k, unfolded dn(1), OF diff_le_self b(1-3)]
  have e: "pjmedia_jbuf_remove_frame n jb =
      (jb\<lparr>jb_framelist := fst (remove_more g (fl_discarded_num ?fl) k)\<rparr>, snd (remove_more g (fl_discarded_num ?fl) k))"
    by (simp add: pjmedia_jbuf_remove_frame_def rm split_beta Let_def)
  have short: "held_frames (drop k (window ?fl)) = []" if "k < n" using that v(2) by simp
  show "jb_inv (fst (pjmedia_jbuf_remove_frame n jb))"
  proof -
    have "dropped_upto r (fl_view g)" if "dropped_upto r (fl_view ?fl)" for r
      using dropped_upto_remove [OF that, of n] v by (simp add: q_remove_def fl_view_def Let_def)
    then show ?thesis using m i v(5,6) unfolding e by (simp add: jb_inv_framelist [OF assms])
  qed
  show "held_frames (window (jb_framelist (fst (pjmedia_jbuf_remove_frame n jb)))) = drop n (held_frames (window ?fl))"
    using m short dn(3) v(2) unfolding e v(3) s(3) by (cases "k = n") (simp_all add: a_def)
  show "snd (pjmedia_jbuf_remove_frame n jb) = min n (length (held_frames (window ?fl)))"
    using m short dn(3) v(2) unfolding e v(3) s(3) by (cases "k = n") (simp_all add: a_def)
  show "jb_max_count (fst (pjmedia_jbuf_remove_frame n jb)) = jb_max_count jb" by (simp add: e)
qed

section \<open>Runs of calls\<close>

lemma reset_jb_inv:
  assumes "fl_shape (jb_framelist jb)" "fl_max_count (jb_framelist jb) = jb_max_count jb"
    "fl_frame_size (jb_framelist jb) = jb_frame_size jb" "1 \<le> jb_min_shrink_gap jb" "0 \<le> jb_max_burst jb"
    "0 \<le> jb_eff_level jb" "jb_eff_level jb \<le> int (jb_max_count jb * 4 div 5)"
    "0 \<le> jb_prefetch jb" "jb_prefetch jb \<le> int (jb_max_count jb)"
    "0 \<le> jb_min_prefetch jb" "jb_min_prefetch jb \<le> int (jb_max_count jb)"
    "0 \<le> jb_max_prefetch jb" "jb_max_prefetch jb \<le> int (jb_max_count jb)"
  shows "jb_inv (pjmedia_jbuf_reset jb)"
  using assms reset_inv [OF assms(1)]
  by (simp add: jb_inv_def pjmedia_jbuf_reset_def fl_view_def dropped_upto_def)

lemma jb_create_inv:
  assumes "0 < ptime" "ptime \<le> 200" "0 < max_count" "max_count < 2 ^ 29"
    "mem_shape frame_size max_count mem"
  shows "jb_inv (pjmedia_jbuf_create frame_size ptime max_count mem)"
proof -
  have m: "max_count < 2 ^ 31" using assms(4) by simp
  note i = init_inv [OF assms(3) m assms(5)]
  have "fl_shape (jb_framelist_init frame_size max_count mem)" using i(1) by (simp add: fl_inv_def)
  moreover have "200 div 200 \<le> 200 div ptime" using assms(1,2) by (intro div_le_mono2) simp_all
  moreover have "max_count * 4 div 5 \<le> max_count" by simp
  ultimately show ?thesis
    using i(3,4) unfolding pjmedia_jbuf_create_def
    by (intro reset_jb_inv)
      (simp_all add: pjmedia_jbuf_set_discard_def PJMEDIA_JBUF_DISC_MIN_GAP_def
        PJMEDIA_JB_DEFAULT_INIT_DELAY_def le_max_iff_disj)
qed

lemma make_call_inv:
  assumes "jb_inv jb" "call_valid (jb_max_count jb) c"
  shows "\<exists>jb'. make_call c jb = Some jb' \<and> jb_inv jb' \<and> jb_max_count jb' = jb_max_count jb"
proof (cases c)
  case (Call_put frame b index t)
  then show ?thesis using put_frame3_inv [OF assms(1), of frame b index t] by auto
next
  case Call_get
  then show ?thesis using get_frame3_inv [OF assms(1)] by auto
next
  case (Call_remove n)
  then show ?thesis using remove_frame_view [OF assms(1), of n] by simp
next
  case Call_reset
  have "fl_shape (jb_framelist jb)" using jb_invD(1) [OF assms(1)] by (simp add: fl_inv_def)
  then have "jb_inv (pjmedia_jbuf_reset jb)" using assms(1) by (intro reset_jb_inv) (simp_all add: jb_inv_def)
  then show ?thesis using Call_reset by (simp add: pjmedia_jbuf_reset_def)
next
  case (Call_fixed p)
  have "jb_max_count jb < 2 ^ 31" using fl_invD(4) [OF jb_invD(1)] jb_invD(2) assms(1) by metis
  then have "to_int p = int p" using assms(2) Call_fixed by (intro to_int_small) simp
  then show ?thesis using assms Call_fixed by (simp add: pjmedia_jbuf_set_fixed_def jb_inv_def)
next
  case (Call_adaptive p lo hi)
  have "jb_max_count jb < 2 ^ 31" using fl_invD(4) [OF jb_invD(1)] jb_invD(2) assms(1) by metis
  then have "to_int p = int p" "to_int lo = int lo" "to_int hi = int hi"
    using assms(2) Call_adaptive by (simp_all add: to_int_small)
  then show ?thesis using assms Call_adaptive by (simp add: pjmedia_jbuf_set_adaptive_def jb_inv_def)
qed

lemma jb_run_inv:
  assumes "jb_inv jb" "\<forall>c\<in>set cs. call_valid (jb_max_count jb) c"
  shows "\<exists>jb'. jb_run cs jb = Some jb' \<and> jb_inv jb'"
  using assms
proof (induction cs arbitrary: jb)
  case Nil
  then show ?case by simp
next
  case (Cons c cs)
  then obtain j where j: "make_call c jb = Some j" "jb_inv j" "jb_max_count j = jb_max_count jb"
    using make_call_inv [of jb c] by auto
  then show ?case using Cons.IH [OF j(2)] Cons.prems(2) by auto
qed

section \<open>Start-up\<close>

text \<open>
  Until ten switches between put and get have been counted, no discard algorithm runs and the frame
  list changes through puts and gets only.
\<close>

definition starting :: "int \<Rightarrow> pjmedia_jbuf \<Rightarrow> bool" where
  "starting n jb \<longleftrightarrow> jb_status jb = JB_STATUS_INITIALIZING \<and> jb_init_cycle_cnt jb \<le> n \<and> n + 1 < INIT_CYCLE"

lemma update_starting:
  assumes "starting n jb"
  shows "jb_framelist (jbuf_update oper jb) = jb_framelist jb"
    "jb_prefetching (jbuf_update oper jb) = jb_prefetching jb" "jb_prefetch (jbuf_update oper jb) = jb_prefetch jb"
    "jb_last_op (jbuf_update oper jb) = oper" "jb_status (jbuf_update oper jb) = JB_STATUS_INITIALIZING"
    "jb_init_cycle_cnt (jbuf_update oper jb) = jb_init_cycle_cnt jb + (if jb_last_op jb = oper then 0 else 1)"
    "jb_frame_size (jbuf_update oper jb) = jb_frame_size jb"
  using assms by (auto simp: jbuf_update_def starting_def Let_def run_discard_def)

text \<open>The slots that puts of the numbers in \<open>A\<close> make, from the start of the window.\<close>

definition slots :: "(nat \<Rightarrow> jb_slot) \<Rightarrow> nat set \<Rightarrow> jb_slot list" where
  "slots f A = map (\<lambda>i. if i \<in> A then f i else Gap) [0..<Suc (Max A)]"

lemma slots_put:
  assumes "finite A" "A \<noteq> {}" "i \<notin> A" "i < cap" "0 \<in> A"
  shows "q_put cap (s + int i) (f i) (s, slots f A) = ((s, slots f (insert i A)), PJ_SUCCESS)"
proof -
  have ne: "slots f A \<noteq> []" by (simp add: slots_def)
  have len: "length (slots f A) = Suc (Max A)" by (simp add: slots_def)
  have mx: "Max (insert i A) = max i (Max A)" using assms by simp
  show ?thesis
  proof (cases "i < length (slots f A)")
    case True
    then have "(slots f A)[i := f i] = slots f (insert i A)"
      using len assms(3) mx by (intro nth_equalityI) (auto simp: slots_def nth_list_update less_Suc_eq_le max_def simp del: upt_Suc)
    moreover have "slots f A ! i = Gap" using True assms(3) unfolding len by (simp add: slots_def del: upt_Suc)
    ultimately show ?thesis using True ne assms(4) by (simp add: q_put_def)
  next
    case False
    then have m: "Max (insert i A) = i" "Suc (Max A) \<le> i" using len mx by simp_all
    have "slots f A @ replicate (i - Suc (Max A)) Gap @ [f i] = slots f (insert i A)" (is "?l = ?r")
    proof (intro nth_equalityI)
      show "length ?l = length ?r" using m len by (simp add: slots_def)
      fix j assume "j < length ?l"
      then have j: "j \<le> i" using m len by simp
      consider "j \<le> Max A" | "Max A < j" "j < i" | "j = i" using j by linarith
      then show "?l ! j = ?r ! j"
      proof cases
        case 1
        then show ?thesis using m by (simp add: slots_def nth_append del: upt_Suc)
      next
        case 2
        then have "j \<notin> A" using Max_ge [OF assms(1)] by (metis not_less)
        moreover have "j - Suc (Max A) < i - Suc (Max A)" using 2 by linarith
        ultimately show ?thesis using 2 m by (simp add: slots_def nth_append del: upt_Suc)
      next
        case 3
        then show ?thesis using m by (simp add: slots_def nth_append del: upt_Suc)
      qed
    qed
    then show ?thesis using False ne assms(4) len by (simp add: q_put_def)
  qed
qed

lemma slots_full: "slots f {..<Suc n} = map f [0..<Suc n]"
proof -
  have "Max {..<Suc n} = n" by (intro Max_eqI) auto
  then show ?thesis by (simp add: slots_def)
qed

section \<open>Feeding and draining\<close>

text \<open>A packet is its bytes, bit info and time stamp; packet \<open>i\<close> has the sequence number \<open>s + i\<close>.\<close>

type_synonym packet = "8 word list \<times> 32 word \<times> 32 word"

definition held :: "packet \<Rightarrow> jb_slot" where
  "held p = (case p of (bytes, b, t) \<Rightarrow> Held bytes b t)"

text \<open>Feed the packets in the order of \<open>is\<close>; \<open>None\<close> when one is refused.\<close>

fun put_all :: "int \<Rightarrow> packet list \<Rightarrow> nat list \<Rightarrow> pjmedia_jbuf \<Rightarrow> pjmedia_jbuf option" where
  "put_all s ps [] jb = Some jb"
| "put_all s ps (i # is) jb =
     (case pjmedia_jbuf_put_frame3 (fst (ps ! i)) (fst (snd (ps ! i))) (s + int i) (snd (snd (ps ! i))) jb of
        Some (jb', False) \<Rightarrow> put_all s ps is jb'
      | _ \<Rightarrow> None)"

text \<open>What a caller reads of a get: type, the valid bytes, and bit info, time stamp and number.\<close>

definition payload :: "jb_got \<Rightarrow> pjmedia_jb_frame_type \<times> 8 word list \<times> (32 word \<times> 32 word \<times> int) option" where
  "payload g = (got_type g, take (got_size g) (the (got_frame g)), got_info g)"

fun get_all :: "nat \<Rightarrow> pjmedia_jbuf \<Rightarrow> (pjmedia_jb_frame_type \<times> 8 word list \<times> (32 word \<times> 32 word \<times> int) option) list option" where
  "get_all 0 jb = Some []"
| "get_all (Suc n) jb =
     (case pjmedia_jbuf_get_frame3 jb of
        Some (jb', g) \<Rightarrow> map_option ((#) (payload g)) (get_all n jb')
      | None \<Rightarrow> None)"

lemma put_starting:
  assumes inv: "jb_inv jb" and st: "starting n jb"
    and fits: "length bytes \<le> jb_frame_size jb"
    and q: "q_put (jb_max_count jb) index (Held bytes b t) (fl_view (jb_framelist jb)) = (q', PJ_SUCCESS)"
  shows "\<exists>jb'. pjmedia_jbuf_put_frame3 bytes b index t jb = Some (jb', False) \<and> jb_inv jb' \<and>
    fl_view (jb_framelist jb') = q' \<and> jb_max_count jb' = jb_max_count jb \<and>
    jb_frame_size jb' = jb_frame_size jb \<and> jb_prefetch jb' = jb_prefetch jb \<and> jb_last_op jb' = JB_OP_PUT \<and>
    jb_status jb' = JB_STATUS_INITIALIZING \<and>
    jb_init_cycle_cnt jb' = jb_init_cycle_cnt jb + (if jb_last_op jb = JB_OP_PUT then 0 else 1) \<and>
    jb_prefetching jb' = (jb_prefetching jb \<and>
      to_int (jb_framelist_eff_size (jb_framelist jb')) < jb_prefetch jb)"
proof -
  obtain fl st where p: "jb_framelist_put_at (jb_framelist jb) index bytes (length bytes) b t PJMEDIA_JB_NORMAL_FRAME
      = (fl, st)" by fastforce
  have nf: "length bytes \<le> fl_frame_size (jb_framelist jb)" using fits jb_invD(3) [OF inv] by simp
  note v = put_at_view [OF jb_invD(1) [OF inv] nf order_refl p]
  have s: "st = PJ_SUCCESS" "fl_view fl = q'" using v(4) q jb_invD(2) [OF inv] by simp_all
  note r = put_returns [OF inv fits order_refl p]
  define j where "j = jb\<lparr>jb_framelist := fl\<rparr>"
  have e: "evict_and_put bytes (length bytes) b index t j st = Some (j, PJ_SUCCESS)" "jb_inv j"
    using r s(1) by (auto simp: j_def)
  define l where "l = (if to_int (jb_framelist_eff_size (jb_framelist j)) > to_int (jb_framelist_eff_size (jb_framelist jb))
      then to_int (jb_framelist_eff_size (jb_framelist j)) - to_int (jb_framelist_eff_size (jb_framelist jb)) else 1)"
  define k where "k = (if jb_prefetching j \<and> to_int (jb_framelist_eff_size (jb_framelist j)) \<ge> jb_prefetch j
      then j\<lparr>jb_prefetching := False\<rparr> else j)"
  define z where "z = k\<lparr>jb_level := jb_level k + l\<rparr>"
  have f: "pjmedia_jbuf_put_frame3 bytes b index t jb = Some (jbuf_update JB_OP_PUT z, False)"
    using fits e p unfolding pjmedia_jbuf_put_frame3_def Let_def
    by (simp add: put_done_def Let_def j_def [symmetric] z_def k_def l_def)
  have "jb_inv (jbuf_update JB_OP_PUT z)"
    using put_done_inv [OF e(2), of "jb_framelist_eff_size (jb_framelist jb)" PJ_SUCCESS]
    by (simp add: put_done_def Let_def z_def k_def l_def)
  moreover have "starting n z" "jb_framelist z = fl" "jb_prefetch z = jb_prefetch jb" "jb_frame_size z = jb_frame_size jb"
    "jb_max_count z = jb_max_count jb" "jb_init_cycle_cnt z = jb_init_cycle_cnt jb" "jb_last_op z = jb_last_op jb"
    "jb_prefetching z = (jb_prefetching jb \<and> to_int (jb_framelist_eff_size fl) < jb_prefetch jb)"
    using st by (auto simp: z_def k_def j_def starting_def)
  ultimately show ?thesis using f s(2) update_starting [of n z JB_OP_PUT] by simp
qed

lemma get_starting:
  assumes inv: "jb_inv jb" and st: "starting n jb" and np: "\<not> jb_prefetching jb"
    and w: "fl_view (jb_framelist jb) = (s, Held bytes b t # xs)"
  shows "\<exists>jb' g. pjmedia_jbuf_get_frame3 jb = Some (jb', g) \<and> jb_inv jb' \<and>
    payload g = (PJMEDIA_JB_NORMAL_FRAME, bytes, Some (b, t, s)) \<and> fl_view (jb_framelist jb') = (s + 1, xs) \<and>
    \<not> jb_prefetching jb' \<and> jb_last_op jb' = JB_OP_GET \<and> jb_status jb' = JB_STATUS_INITIALIZING \<and>
    jb_init_cycle_cnt jb' = jb_init_cycle_cnt jb + (if jb_last_op jb = JB_OP_GET then 0 else 1)"
proof -
  obtain fl r where g: "jb_framelist_get (jb_framelist jb) = Some (fl, Some r)"
    "fl_view fl = (s + 1, xs)" "out_seq r = s" "out_slot r = Held bytes b t"
    using fl_get_view [OF jb_invD(1) [OF inv]] by (auto simp: q_get_def w Let_def)
  obtain jb' o' where f: "pjmedia_jbuf_get_frame3 jb = Some (jb', o')" "jb_inv jb'"
    using get_frame3_inv [OF inv] by blast
  define j where "j = fst (get_found r (jb\<lparr>jb_framelist := fl\<rparr>))"
  define z where "z = j\<lparr>jb_level := jb_level j + 1\<rparr>"
  have e: "jb' = jbuf_update JB_OP_GET z" "o' = snd (get_found r (jb\<lparr>jb_framelist := fl\<rparr>))"
    using f(1) np g(1) by (simp_all add: pjmedia_jbuf_get_frame3_def z_def j_def split_beta)
  have t: "out_type r = PJMEDIA_JB_NORMAL_FRAME" "take (out_size r) (the (out_frame r)) = bytes"
    "out_bit_info r = b" "out_ts r = t"
    using g(4) by (simp_all add: out_slot_def split: if_splits)
  have "starting n z" "jb_framelist z = fl" "jb_prefetching z = jb_prefetching jb"
    "jb_init_cycle_cnt z = jb_init_cycle_cnt jb" "jb_last_op z = jb_last_op jb"
    using st t(1) by (auto simp: z_def j_def starting_def get_found_def Let_def)
  moreover have "payload o' = (PJMEDIA_JB_NORMAL_FRAME, bytes, Some (b, t, s))"
    using t g(3) by (simp add: e(2) payload_def get_found_def Let_def)
  ultimately show ?thesis using f g(2) np update_starting [of n z JB_OP_GET] by (simp add: e(1))
qed

lemma get_all_starting:
  assumes "jb_inv jb" "starting n jb" "\<not> jb_prefetching jb" "jb_last_op jb = JB_OP_GET \<or> jb_init_cycle_cnt jb < n"
    "fl_view (jb_framelist jb) = (s, map held ps)"
  shows "get_all (length ps) jb =
    Some (map (\<lambda>i. (PJMEDIA_JB_NORMAL_FRAME, fst (ps ! i),
        Some (fst (snd (ps ! i)), snd (snd (ps ! i)), s + int i))) [0..<length ps])"
  using assms
proof (induction ps arbitrary: jb s)
  case Nil
  then show ?case by simp
next
  case (Cons p ps)
  obtain bytes b t where p: "p = (bytes, b, t)" by (cases p) auto
  have w: "fl_view (jb_framelist jb) = (s, Held bytes b t # map held ps)" using Cons.prems(5) by (simp add: held_def p)
  obtain jb' g where g: "pjmedia_jbuf_get_frame3 jb = Some (jb', g)" "jb_inv jb'"
    "payload g = (PJMEDIA_JB_NORMAL_FRAME, bytes, Some (b, t, s))" "fl_view (jb_framelist jb') = (s + 1, map held ps)"
    "\<not> jb_prefetching jb'" "jb_last_op jb' = JB_OP_GET" "jb_status jb' = JB_STATUS_INITIALIZING"
    "jb_init_cycle_cnt jb' = jb_init_cycle_cnt jb + (if jb_last_op jb = JB_OP_GET then 0 else 1)"
    using get_starting [OF Cons.prems(1-3) w] by blast
  have st: "starting n jb'" using Cons.prems(2,4) g(7,8) by (auto simp: starting_def)
  note IH = Cons.IH [OF g(2) st g(5) disjI1 [OF g(6)] g(4)]
  have sh: "map (\<lambda>i. (PJMEDIA_JB_NORMAL_FRAME, fst (ps ! i), Some (fst (snd (ps ! i)), snd (snd (ps ! i)), s + 1 + int i)))
        [0..<length ps] =
      map (\<lambda>i. (PJMEDIA_JB_NORMAL_FRAME, fst ((p # ps) ! i),
          Some (fst (snd ((p # ps) ! i)), snd (snd ((p # ps) ! i)), s + int i))) [1..<Suc (length ps)]"
    by (intro nth_equalityI) (simp_all del: upt_Suc)
  show ?case
    using IH g(1,3) unfolding sh by (simp add: upt_conv_Cons p del: upt_Suc)
qed

lemma held_not_special [simp]: "held p \<noteq> Dropped" "Dropped \<noteq> held p" "held p \<noteq> Gap"
  by (cases p, simp add: held_def)+

lemma slots_eff_size:
  assumes "fl_inv fl" "fl_view fl = (s, slots (\<lambda>i. held (ps ! i)) A)"
  shows "to_int (jb_framelist_eff_size fl) = int (Suc (Max A))"
proof -
  have w: "window fl = slots (\<lambda>i. held (ps ! i)) A" using assms(2) by (simp add: fl_view_def)
  have "filter (\<lambda>s. s \<noteq> Dropped) (window fl) = window fl"
    unfolding w by (auto simp: slots_def filter_id_conv simp del: upt_Suc)
  then show ?thesis using eff_size_view(1,3) [OF assms(1)] by (simp add: w) (simp add: slots_def)
qed

lemma put_all_starting:
  assumes "jb_inv jb" "starting 1 jb" "jb_last_op jb = JB_OP_PUT"
    "\<forall>p\<in>set ps. length (fst p) \<le> jb_frame_size jb"
    "fl_view (jb_framelist jb) = (s, slots (\<lambda>i. held (ps ! i)) A)" "finite A" "0 \<in> A"
    "distinct is" "set is \<inter> A = {}" "\<forall>i\<in>set is. i < jb_max_count jb \<and> i < length ps"
    "jb_prefetching jb \<Longrightarrow> int (Suc (Max A)) < jb_prefetch jb"
  shows "\<exists>jb'. put_all s ps is jb = Some jb' \<and> jb_inv jb' \<and> starting 1 jb' \<and>
    fl_view (jb_framelist jb') = (s, slots (\<lambda>i. held (ps ! i)) (A \<union> set is)) \<and>
    (jb_prefetching jb' \<longrightarrow> int (Suc (Max (A \<union> set is))) < jb_prefetch jb) "
  using assms
proof (induction "is" arbitrary: jb A)
  case Nil
  then show ?case by simp
next
  case (Cons i "is")
  obtain bytes b t where p: "ps ! i = (bytes, b, t)" by (cases "ps ! i") auto
  have i: "i < jb_max_count jb" "i < length ps" "i \<notin> A" using Cons.prems(9,10) by auto
  have fits: "length bytes \<le> jb_frame_size jb" using Cons.prems(4) i(2) p by (metis fst_conv nth_mem)
  have "A \<noteq> {}" using Cons.prems(7) by auto
  note q = slots_put [OF Cons.prems(6) this i(3,1) Cons.prems(7), of s "\<lambda>i. held (ps ! i)"]
  have "held (ps ! i) = Held bytes b t" by (simp add: p held_def)
  note q = q [unfolded this, folded Cons.prems(5)]
  obtain j where j: "pjmedia_jbuf_put_frame3 bytes b (s + int i) t jb = Some (j, False)" "jb_inv j"
    "fl_view (jb_framelist j) = (s, slots (\<lambda>i. held (ps ! i)) (insert i A))" "jb_max_count j = jb_max_count jb"
    "jb_frame_size j = jb_frame_size jb" "jb_prefetch j = jb_prefetch jb" "jb_last_op j = JB_OP_PUT"
    "jb_status j = JB_STATUS_INITIALIZING" "jb_init_cycle_cnt j = jb_init_cycle_cnt jb"
    "jb_prefetching j = (jb_prefetching jb \<and>
      to_int (jb_framelist_eff_size (jb_framelist j)) < jb_prefetch jb)"
    using put_starting [OF Cons.prems(1,2) fits q] Cons.prems(3) by auto
  have st: "starting 1 j" using Cons.prems(2) j(8,9) by (simp add: starting_def)
  have pf: "int (Suc (Max (insert i A))) < jb_prefetch j" if "jb_prefetching j"
    using that slots_eff_size [OF jb_invD(1) [OF j(2)] j(3)] j(6,10) by simp
  have "put_all s ps (i # is) jb = put_all s ps is j" using j(1) by (simp add: p)
  moreover have "finite (insert i A)" "0 \<in> insert i A" "distinct is" "set is \<inter> insert i A = {}"
    "\<forall>i\<in>set is. i < jb_max_count j \<and> i < length ps" "\<forall>p\<in>set ps. length (fst p) \<le> jb_frame_size j"
    using Cons.prems(4,6-10) j(4,5) by auto
  note IH = Cons.IH [OF j(2) st j(7) this(6) j(3) this(1-5) pf]
  ultimately show ?case using IH j(6) by simp
qed

end
