(* ===== verification/Jitter_Buffer_Props.thy ===== *)
theory Jitter_Buffer_Props
  imports Jitter_Buffer_Flow
begin

text \<open>What the jitter buffer promises.\<close>

section \<open>The frame list\<close>

text \<open>C18: the circular frame list refines a queue of numbered slots: put, remove, get and peek keep
  the invariant and act on the window as the list operations do, and get and peek return although
  their loops have no bound of their own.\<close>

theorem frame_list_refines_queue:
  assumes "fl_inv fl"
  shows "(case jb_framelist_remove_head fl count of (fl', k) \<Rightarrow>
        fl_inv fl' \<and> (fl_view fl', k) = q_remove count (fl_view fl)) \<and>
    (\<exists>fl' r. jb_framelist_get fl = Some (fl', r) \<and> fl_inv fl' \<and>
        (fl_view fl', map_option (\<lambda>r. (out_seq r, out_slot r)) r) = q_get (fl_view fl)) \<and>
    (\<exists>r. jb_framelist_peek fl offset = Some r \<and> map_option out_slot r = q_peek offset (fl_view fl)) \<and>
    (length frame \<le> fl_frame_size fl \<longrightarrow>
      (case jb_framelist_put_at fl index frame (length frame) b t PJMEDIA_JB_NORMAL_FRAME of (fl', st) \<Rightarrow>
        fl_inv fl' \<and> (fl_view fl', st) = q_put (fl_max_count fl) index (Held frame b t) (fl_view fl)))"
proof (intro conjI impI)
  show "case jb_framelist_remove_head fl count of (fl', k) \<Rightarrow>
      fl_inv fl' \<and> (fl_view fl', k) = q_remove count (fl_view fl)"
  proof (cases "jb_framelist_remove_head fl count")
    case (Pair fl' k)
    then show ?thesis using fs.remove_ok [OF assms Pair] by simp
  qed
  show "\<exists>fl' r. jb_framelist_get fl = Some (fl', r) \<and> fl_inv fl' \<and>
      (fl_view fl', map_option (\<lambda>r. (out_seq r, out_slot r)) r) = q_get (fl_view fl)"
    using fl_get_view [OF assms] by blast
  show "\<exists>r. jb_framelist_peek fl offset = Some r \<and> map_option out_slot r = q_peek offset (fl_view fl)"
    by (rule peek_view [OF assms])
  assume fits: "length frame \<le> fl_frame_size fl"
  then show "case jb_framelist_put_at fl index frame (length frame) b t PJMEDIA_JB_NORMAL_FRAME of (fl', st) \<Rightarrow>
      fl_inv fl' \<and> (fl_view fl', st) = q_put (fl_max_count fl) index (Held frame b t) (fl_view fl)"
  proof (cases "jb_framelist_put_at fl index frame (length frame) b t PJMEDIA_JB_NORMAL_FRAME")
    case (Pair fl' st)
    then show ?thesis using fs.put_ok [OF assms fits order_refl Pair] by simp
  qed
qed

definition mem3 :: "8 word list list \<times> 32 word list \<times> 32 word list" where
  "mem3 = ([[0, 0], [0, 0], [0, 0]], [7, 7, 7], [9, 9, 9])"

lemma mem3_shape: "mem_shape 2 3 mem3"
  by (simp add: mem_shape_def mem3_def)

theorem frame_list_refines_queue_witness:
  "q_put 3 40 (Held [1, 2] 5 6) (INVALID_OFFSET, []) = ((40, [Held [1, 2] 5 6]), PJ_SUCCESS) \<and>
   (\<exists>fl'. fl_view fl' = (40, [Held [1, 2] 5 6]) \<and> fl_inv fl')"
proof -
  let ?fl = "jb_framelist_init 2 3 mem3"
  have "(0::nat) < 3" "(3::nat) < 2 ^ 31" and l: "length [1, 2 :: 8 word] = 2" by simp_all
  note i = init_inv [OF this(1,2) mem3_shape]
  have v: "fl_view ?fl = (INVALID_OFFSET, [])"
    using i(2) by (simp add: fl_view_def jb_framelist_init_def jb_framelist_reset_def mem3_def)
  have q: "q_put 3 40 (Held [1, 2] 5 6) (INVALID_OFFSET, []) = ((40, [Held [1, 2] 5 6]), PJ_SUCCESS)"
    by (simp add: q_put_def INVALID_OFFSET_def)
  have "case jb_framelist_put_at ?fl 40 [1, 2] 2 5 6 PJMEDIA_JB_NORMAL_FRAME of (fl', st) \<Rightarrow>
      fl_inv fl' \<and> (fl_view fl', st) = ((40, [Held [1, 2] 5 6]), PJ_SUCCESS)"
    using frame_list_refines_queue [of ?fl 0 0 "[1, 2]" 40 5 6, unfolded l] i(1,3,4) v q by simp
  then show ?thesis using q by (auto split: prod.splits)
qed

section \<open>Every run is safe\<close>

text \<open>C19: on a buffer with frames of at most 200 ms, no sequence of puts, gets, removals, resets and
  changes of the prefetch settings (with arguments in range) runs into an endless loop, and each
  leaves the buffer well formed: the window within the capacity, the count of discarded frames
  exact, the burst level and the prefetch within their bounds.\<close>

theorem jbuf_run_safe:
  assumes "0 < ptime" "ptime \<le> 200" "0 < max_count" "max_count < 2 ^ 29"
    "mem_shape frame_size max_count mem" "\<forall>c\<in>set calls. call_valid max_count c"
  shows "\<exists>jb. jb_run calls (pjmedia_jbuf_create frame_size ptime max_count mem) = Some jb \<and> jb_inv jb"
proof -
  have "jb_max_count (pjmedia_jbuf_create frame_size ptime max_count mem) = max_count"
    by (simp add: pjmedia_jbuf_create_def pjmedia_jbuf_reset_def pjmedia_jbuf_set_discard_def)
  then show ?thesis using jb_run_inv [OF jb_create_inv [OF assms(1-5)]] assms(6) by simp
qed

theorem jbuf_run_safe_witness:
  "\<exists>jb. jb_run [Call_put [1] 0 5 0, Call_fixed 2, Call_get, Call_put [2, 3] 0 9 0, Call_remove 1, Call_reset]
     (pjmedia_jbuf_create 2 20 3 mem3) = Some jb"
  using jbuf_run_safe [OF _ _ _ _ mem3_shape, of 20
      "[Call_put [1] 0 5 0, Call_fixed 2, Call_get, Call_put [2, 3] 0 9 0, Call_remove 1, Call_reset]"]
  by auto

section \<open>Which frames are refused\<close>

text \<open>A put reports the frame as discarded exactly when it is late by less than 100 or its slot
  in the window is taken (by a frame or by a discarded one). No frame is refused because the buffer
  is full: older frames make room, however far the number jumps.\<close>

theorem put_refused_iff:
  assumes "jb_inv jb"
  shows "\<exists>jb'. pjmedia_jbuf_put_frame3 frame b index t jb = Some (jb',
    (let (start, xs) = fl_view (jb_framelist jb)
     in (index < start \<and> start - index < 100) \<or>
        (start \<le> index \<and> index < start + int (length xs) \<and> xs ! nat (index - start) \<noteq> Gap)))"
proof -
  obtain start xs where v: "fl_view (jb_framelist jb) = (start, xs)" by fastforce
  have l: "length xs \<le> jb_max_count jb"
    using fs.cap_bound [OF jb_invD(1) [OF assms]] jb_invD(2) [OF assms] v by simp
  have "snd (q_put (jb_max_count jb) index s (start, xs)) \<notin> {PJ_SUCCESS, PJ_ETOOMANY} \<longleftrightarrow>
      (index < start \<and> start - index < 100) \<or>
      (start \<le> index \<and> index < start + int (length xs) \<and> xs ! nat (index - start) \<noteq> Gap)" for s
    using l by (auto simp: q_put_def Let_def MAX_MISORDER_def nat_less_iff)
  then show ?thesis using put_frame3_inv [OF assms, of frame b index t] by (auto simp: v)
qed

theorem put_refused_iff_witness:
  "\<exists>jb. pjmedia_jbuf_put_frame3 [1] 0 5 0 (pjmedia_jbuf_create 2 20 3 mem3) = Some (jb, False)"
proof -
  let ?jb = "pjmedia_jbuf_create 2 20 3 mem3"
  have i: "jb_inv ?jb" by (rule jb_create_inv [OF _ _ _ _ mem3_shape]) simp_all
  have "fl_view (jb_framelist ?jb) = (INVALID_OFFSET, [])"
    by (simp add: pjmedia_jbuf_create_def pjmedia_jbuf_reset_def pjmedia_jbuf_set_discard_def
        fl_view_def window_def jb_framelist_reset_def)
  then show ?thesis using put_refused_iff [OF i, of "[1]" 0 5 0] by (simp add: INVALID_OFFSET_def)
qed

section \<open>Reordering\<close>

text \<open>The first packet put into a fresh buffer.\<close>

lemma first_put:
  assumes "jb_inv jb" "jb = pjmedia_jbuf_create frame_size ptime max_count mem" "0 < max_count" "0 \<le> s"
    "length (fst p) \<le> frame_size" "\<And>i. f i = held (ps ! i)" "ps ! 0 = p"
  obtains j where "pjmedia_jbuf_put_frame3 (fst p) (fst (snd p)) s (snd (snd p)) jb = Some (j, False)" "jb_inv j"
    "fl_view (jb_framelist j) = (s, slots f {0})" "jb_max_count j = max_count" "jb_frame_size j = frame_size"
    "jb_prefetch j = int (min 15 (max_count * 4 div 5))" "jb_last_op j = JB_OP_PUT" "starting 1 j"
    "jb_prefetching j \<Longrightarrow> int (Suc (Max {0::nat})) < jb_prefetch j"
proof -
  have f: "jb_max_count jb = max_count" "jb_frame_size jb = frame_size" "jb_last_op jb = JB_OP_INIT"
    "jb_prefetch jb = int (min 15 (max_count * 4 div 5))" "fl_view (jb_framelist jb) = (INVALID_OFFSET, [])"
    "starting 1 jb" "jb_init_cycle_cnt jb = 0"
    by (simp_all add: assms(2) pjmedia_jbuf_create_def pjmedia_jbuf_reset_def pjmedia_jbuf_set_discard_def
        fl_view_def window_def jb_framelist_reset_def starting_def INIT_CYCLE_def
        PJMEDIA_JB_DEFAULT_INIT_DELAY_def)
  obtain bytes b t where p: "p = (bytes, b, t)" by (cases p) auto
  have fits: "length bytes \<le> jb_frame_size jb" using assms(5) p f(2) by simp
  have q: "q_put (jb_max_count jb) s (Held bytes b t) (fl_view (jb_framelist jb)) = ((s, slots f {0}), PJ_SUCCESS)"
    using assms(3,4,6,7) by (simp add: f q_put_def INVALID_OFFSET_def slots_def held_def p)
  obtain j where j: "pjmedia_jbuf_put_frame3 bytes b s t jb = Some (j, False)" "jb_inv j"
    "fl_view (jb_framelist j) = (s, slots f {0})" "jb_max_count j = max_count"
    "jb_frame_size j = frame_size" "jb_prefetch j = jb_prefetch jb" "jb_last_op j = JB_OP_PUT"
    "jb_status j = JB_STATUS_INITIALIZING" "jb_init_cycle_cnt j = 1"
    "jb_prefetching j = (jb_prefetching jb \<and>
      to_int (jb_framelist_eff_size (jb_framelist j)) < jb_prefetch jb)"
    using put_starting [OF assms(1) f(6) fits q] f by auto
  have "slots f {0} = slots (\<lambda>i. held (ps ! i)) {0}" by (simp add: slots_def assms(6))
  then have pf: "int (Suc (Max {0::nat})) < jb_prefetch j" if "jb_prefetching j"
    using that slots_eff_size [OF jb_invD(1) [OF j(2)]] j(3,6,10) by simp
  have "starting 1 j" using j(8,9) by (simp add: starting_def INIT_CYCLE_def)
  then show ?thesis using that [of j] j f(4) pf p by auto
qed

text \<open>C20: packets with consecutive sequence numbers, fed to a fresh buffer in any order that starts
  with the first of them, come out in the order of their numbers, each with its bytes, bit info, time
  stamp and number, provided there are at least as many as the initial prefetch and no more than the
  capacity.\<close>

theorem reordered_packets_come_out_sorted:
  assumes "0 < ptime" "ptime \<le> 200" "0 < max_count" "max_count < 2 ^ 29"
    "mem_shape frame_size max_count mem" "\<forall>p\<in>set ps. length (fst p) \<le> frame_size"
    "length ps \<le> max_count" "min 15 (max_count * 4 div 5) \<le> length ps" "0 \<le> s"
    "distinct (0 # is)" "set (0 # is) = {..<length ps}"
  shows "\<exists>jb. put_all s ps (0 # is) (pjmedia_jbuf_create frame_size ptime max_count mem) = Some jb \<and>
    get_all (length ps) jb =
      Some (map (\<lambda>i. (PJMEDIA_JB_NORMAL_FRAME, fst (ps ! i),
        Some (fst (snd (ps ! i)), snd (snd (ps ! i)), s + int i))) [0..<length ps])"
proof -
  define jb where "jb = pjmedia_jbuf_create frame_size ptime max_count mem"
  have inv: "jb_inv jb" unfolding jb_def by (rule jb_create_inv [OF assms(1-5)])
  have "0 \<in> {..<length ps}" unfolding assms(11) [symmetric] by simp
  then have n: "0 < length ps" by simp
  have "length (fst (ps ! 0)) \<le> frame_size" using assms(6) n by (metis nth_mem)
  then obtain j where j: "pjmedia_jbuf_put_frame3 (fst (ps ! 0)) (fst (snd (ps ! 0))) s (snd (snd (ps ! 0))) jb
      = Some (j, False)" "jb_inv j"
    "fl_view (jb_framelist j) = (s, slots (\<lambda>i. held (ps ! i)) {0})" "jb_max_count j = max_count"
    "jb_frame_size j = frame_size" "jb_prefetch j = int (min 15 (max_count * 4 div 5))"
    "jb_last_op j = JB_OP_PUT" "starting 1 j" "jb_prefetching j \<Longrightarrow> int (Suc (Max {0::nat})) < jb_prefetch j"
    using first_put [OF inv jb_def assms(3,9) _ refl refl] by metis
  have fit: "\<forall>p\<in>set ps. length (fst p) \<le> jb_frame_size j" using assms(6) j(5) by simp
  have "set is \<subseteq> {..<length ps}" using assms(11) by auto
  then have dj: "distinct is" "set is \<inter> {0} = {}" "\<forall>i\<in>set is. i < jb_max_count j \<and> i < length ps"
    using assms(7,10) j(4) by auto
  obtain k where k: "put_all s ps is j = Some k" "jb_inv k" "starting 1 k"
    "fl_view (jb_framelist k) = (s, slots (\<lambda>i. held (ps ! i)) ({0} \<union> set is))"
    "jb_prefetching k \<Longrightarrow> int (Suc (Max ({0} \<union> set is))) < jb_prefetch j"
    using put_all_starting [OF j(2,8,7) fit j(3) _ _ dj j(9)] by auto
  have all: "{0} \<union> set is = {..<Suc (length ps - 1)}" using assms(11) n by simp
  have "slots (\<lambda>i. held (ps ! i)) ({0} \<union> set is) = map held ps"
    unfolding all slots_full using n by (intro nth_equalityI) (simp_all del: upt_Suc)
  then have w: "fl_view (jb_framelist k) = (s, map held ps)" using k(4) by simp
  have "Max ({0} \<union> set is) = length ps - 1" unfolding all by (intro Max_eqI) auto
  then have "\<not> jb_prefetching k" using k(5) assms(8) n j(6) by auto
  moreover have "starting 2 k" "jb_init_cycle_cnt k < 2" using k(3) by (auto simp: starting_def INIT_CYCLE_def)
  ultimately have "get_all (length ps) k =
      Some (map (\<lambda>i. (PJMEDIA_JB_NORMAL_FRAME, fst (ps ! i),
        Some (fst (snd (ps ! i)), snd (snd (ps ! i)), s + int i))) [0..<length ps])"
    using get_all_starting [OF k(2) _ _ _ w, of 2] by blast
  moreover have "put_all s ps (0 # is) jb = Some k" using j(1) k(1) by (cases "ps ! 0") auto
  ultimately show ?thesis unfolding jb_def by blast
qed

theorem reordered_packets_come_out_sorted_witness:
  "\<exists>jb. put_all 100 [([1], 0, 0), ([2, 3], 0, 160), ([4], 1, 320)] [0, 2, 1] (pjmedia_jbuf_create 2 20 3 mem3) = Some jb \<and>
     get_all 3 jb = Some [(PJMEDIA_JB_NORMAL_FRAME, [1], Some (0, 0, 100)),
       (PJMEDIA_JB_NORMAL_FRAME, [2, 3], Some (0, 160, 101)), (PJMEDIA_JB_NORMAL_FRAME, [4], Some (1, 320, 102))]"
proof -
  let ?ps = "[([1], 0, 0), ([2, 3], 0, 160), ([4], 1, 320)] :: packet list"
  have l: "length ?ps = 3" and u: "[0..<3] = [0, 1, 2::nat]" by (simp_all add: upt_rec)
  have "set (0 # [2, 1]) = {..<3::nat}" by auto
  then show ?thesis
    using reordered_packets_come_out_sorted [OF _ _ _ _ mem3_shape, of 20 ?ps 100 "[2, 1]", unfolded l u]
    by simp
qed

section \<open>Removal\<close>

text \<open>\<^verbatim>\<open>pjmedia_jbuf_remove_frame\<close> removes exactly the oldest \<open>n\<close> frames that are not
  discarded (all of them when there are fewer), with the discarded ones among them, and returns how
  many it removed.\<close>

theorem remove_frame_counts_real_frames:
  assumes "jb_inv jb"
  shows "case pjmedia_jbuf_remove_frame n jb of (jb', count) \<Rightarrow>
    jb_inv jb' \<and> count = min n (length (held_frames (window (jb_framelist jb)))) \<and>
    held_frames (window (jb_framelist jb')) = drop n (held_frames (window (jb_framelist jb)))"
  using remove_frame_view [OF assms, of n] by (simp add: split_beta)

theorem remove_frame_counts_real_frames_witness:
  "snd (pjmedia_jbuf_remove_frame 2 (pjmedia_jbuf_create 2 20 3 mem3)) = 0"
proof -
  let ?jb = "pjmedia_jbuf_create 2 20 3 mem3"
  have i: "jb_inv ?jb" by (rule jb_create_inv [OF _ _ _ _ mem3_shape]) simp_all
  have "window (jb_framelist ?jb) = []"
    by (simp add: pjmedia_jbuf_create_def pjmedia_jbuf_reset_def pjmedia_jbuf_set_discard_def
        window_def jb_framelist_reset_def)
  then show ?thesis using remove_frame_counts_real_frames [OF i, of 2] by (simp add: split_beta)
qed

section \<open>The prefetch leaves its range\<close>

text \<open>The adaptation clamps the prefetch on one side only. A rising burst level sets it below the
  configured minimum, a falling one above the configured maximum, so that even the fixed mode, whose
  minimum and maximum agree, does not keep the delay fixed.\<close>

theorem prefetch_escapes:
  assumes "jb_init_prefetch jb \<noteq> 0" "jb_max_hist_level jb \<le> jb_level jb"
    "jb_level jb \<le> int (jb_max_count jb * 4 div 5)" "jb_min_prefetch jb \<le> jb_max_prefetch jb"
  shows "(jb_eff_level jb < jb_level jb \<and> jb_level jb < jb_min_prefetch jb \<longrightarrow>
      jb_prefetch (jbuf_calculate_jitter jb) < jb_min_prefetch jb) \<and>
    (0 \<le> jb_level jb \<and> jb_level jb < jb_eff_level jb \<and> jb_stable_hist jb = 20 \<and>
      jb_eff_level jb - max 1 (jb_eff_level jb sdiv 3) > jb_max_prefetch jb \<longrightarrow>
      jb_prefetch (jbuf_calculate_jitter jb) > jb_max_prefetch jb)"
proof -
  have m: "(jb_eff_level jb - jb_level jb) sdiv 3 \<le> jb_eff_level jb sdiv 3"
    if "0 \<le> jb_level jb" "jb_level jb < jb_eff_level jb"
  proof -
    have "(jb_eff_level jb - jb_level jb) sdiv 3 = (jb_eff_level jb - jb_level jb) div 3"
      "jb_eff_level jb sdiv 3 = jb_eff_level jb div 3"
      using that by (simp_all add: signed_divide_int_def)
    then show ?thesis using that by (simp add: zdiv_mono1)
  qed
  show ?thesis
    using assms m
    by (auto simp: jbuf_calculate_jitter_def level_increasing_def level_decreasing_def Let_def
        STABLE_HISTORY_LIMIT_def max_def split: if_splits)
qed

theorem prefetch_escapes_witness:
  "jb_prefetch (jbuf_calculate_jitter ((fst (pjmedia_jbuf_set_fixed 5 (pjmedia_jbuf_create 160 20 50
     (replicate 50 (replicate 160 0), replicate 50 0, replicate 50 0))))\<lparr>jb_level := 2\<rparr>)) < 5"
proof -
  let ?jb = "(fst (pjmedia_jbuf_set_fixed 5 (pjmedia_jbuf_create 160 20 50
     (replicate 50 (replicate 160 0), replicate 50 0, replicate 50 0))))\<lparr>jb_level := 2\<rparr>"
  have "jb_init_prefetch ?jb = 5" "jb_max_hist_level ?jb = 0" "jb_level ?jb = 2" "jb_max_count ?jb = 50"
    "jb_min_prefetch ?jb = 5" "jb_max_prefetch ?jb = 5" "jb_eff_level ?jb = 0"
    by (simp_all add: pjmedia_jbuf_set_fixed_def pjmedia_jbuf_create_def pjmedia_jbuf_reset_def
        pjmedia_jbuf_set_discard_def to_int_small)
  then show ?thesis using prefetch_escapes [of ?jb] by simp
qed

end
