(* ===== verification/Rtp.thy ===== *)
theory Rtp
  imports Pj_Prelude
begin

unbundle bit_operations_syntax

text \<open>
  RTP sessions (\<^verbatim>\<open>pjmedia/rtp.c\<close>): the header, building and reading it, and the tracking of the
  sequence numbers that arrive. The header is kept as the C struct keeps it, bit fields at their width
  and the last three members in network byte order; \<open>hdr_bytes\<close> and \<open>hdr_of\<close> are its image in memory
  on a little-endian machine, which is the packet on the wire.
\<close>

section \<open>Bytes\<close>

text \<open>A 16 and a 32 bit number in memory, and the byte swap of \<^verbatim>\<open>pj_htons\<close> and \<^verbatim>\<open>pj_htonl\<close>.\<close>

definition le16 :: "16 word \<Rightarrow> 8 word list" where
  "le16 w = [ucast w, ucast (drop_bit 8 w)]"

definition rd16 :: "8 word list \<Rightarrow> nat \<Rightarrow> 16 word" where
  "rd16 buf i = ucast (buf ! i) OR push_bit 8 (ucast (buf ! (i + 1)))"

definition le32 :: "32 word \<Rightarrow> 8 word list" where
  "le32 w = [ucast w, ucast (drop_bit 8 w), ucast (drop_bit 16 w), ucast (drop_bit 24 w)]"

definition rd32 :: "8 word list \<Rightarrow> nat \<Rightarrow> 32 word" where
  "rd32 buf i = ucast (buf ! i) OR push_bit 8 (ucast (buf ! (i + 1)))
     OR push_bit 16 (ucast (buf ! (i + 2))) OR push_bit 24 (ucast (buf ! (i + 3)))"

definition pj_htons :: "16 word \<Rightarrow> 16 word" where
  "pj_htons w = push_bit 8 w OR drop_bit 8 w"

definition pj_ntohs :: "16 word \<Rightarrow> 16 word" where
  "pj_ntohs w = pj_htons w"

definition pj_htonl :: "32 word \<Rightarrow> 32 word" where
  "pj_htonl w = push_bit 24 w OR push_bit 8 (w AND 0xFF00) OR (drop_bit 8 w AND 0xFF00) OR drop_bit 24 w"

definition pj_ntohl :: "32 word \<Rightarrow> 32 word" where
  "pj_ntohl w = pj_htonl w"

section \<open>Data\<close>

definition RTP_VERSION :: "2 word" where
  "RTP_VERSION = 2"

record pjmedia_rtp_hdr =
  hdr_v :: "2 word"
  hdr_p :: "1 word"
  hdr_x :: "1 word"
  hdr_cc :: "4 word"
  hdr_m :: "1 word"
  hdr_pt :: "7 word"
  hdr_seq :: "16 word"
  hdr_ts :: "32 word"
  hdr_ssrc :: "32 word"

definition hdr_bytes :: "pjmedia_rtp_hdr \<Rightarrow> 8 word list" where
  "hdr_bytes h =
     [ucast (hdr_cc h) OR push_bit 4 (ucast (hdr_x h)) OR push_bit 5 (ucast (hdr_p h)) OR push_bit 6 (ucast (hdr_v h)),
      ucast (hdr_pt h) OR push_bit 7 (ucast (hdr_m h))]
     @ le16 (hdr_seq h) @ le32 (hdr_ts h) @ le32 (hdr_ssrc h)"

definition hdr_of :: "8 word list \<Rightarrow> pjmedia_rtp_hdr" where
  "hdr_of buf =
     \<lparr>hdr_v = ucast (drop_bit 6 (buf ! 0)), hdr_p = ucast (drop_bit 5 (buf ! 0)),
      hdr_x = ucast (drop_bit 4 (buf ! 0)), hdr_cc = ucast (buf ! 0),
      hdr_m = ucast (drop_bit 7 (buf ! 1)), hdr_pt = ucast (buf ! 1),
      hdr_seq = rd16 buf 2, hdr_ts = rd32 buf 4, hdr_ssrc = rd32 buf 8\<rparr>"

record pjmedia_rtp_seq_session =
  max_seq :: "16 word"
  cycles :: "32 word"
  base_seq :: "32 word"
  bad_seq :: "32 word"
  probation :: "32 word"

record pjmedia_rtp_session =
  out_hdr :: pjmedia_rtp_hdr
  seq_ctrl :: pjmedia_rtp_seq_session
  out_pt :: "16 word"
  out_extseq :: "32 word"
  peer_ssrc :: "32 word"
  received :: "32 word"

text \<open>The status union is its flags; \<open>st_diff\<close> is \<^verbatim>\<open>diff\<close>.\<close>

record pjmedia_rtp_status =
  f_bad :: bool
  f_badpt :: bool
  f_badssrc :: bool
  f_dup :: bool
  f_outorder :: bool
  f_probation :: bool
  f_restart :: bool
  st_diff :: "16 word"

definition clear_status :: pjmedia_rtp_status where
  "clear_status = \<lparr>f_bad = False, f_badpt = False, f_badssrc = False, f_dup = False, f_outorder = False,
     f_probation = False, f_restart = False, st_diff = 0\<rparr>"

definition RTP_SEQ_MOD :: nat where
  "RTP_SEQ_MOD = 65536"

definition RTP_MAX_DROPOUT :: nat where
  "RTP_MAX_DROPOUT = 3000"

definition RTP_MAX_MISORDER :: nat where
  "RTP_MAX_MISORDER = 100"

definition MIN_SEQUENTIAL :: "32 word" where
  "MIN_SEQUENTIAL = 2"

section \<open>Sending\<close>

text \<open>\<open>r1\<close> and \<open>r2\<close> are what \<^verbatim>\<open>pj_rand\<close> returns for the SSRC and for the sequence number.\<close>

definition pjmedia_rtp_session_init ::
    "32 word \<Rightarrow> 32 word \<Rightarrow> int \<Rightarrow> 32 word \<Rightarrow> pjmedia_rtp_session" where
  "pjmedia_rtp_session_init r1 r2 default_pt sender_ssrc =
     (let ssrc = (if sender_ssrc = 0 \<or> sender_ssrc = -1 then pj_htonl r1 else pj_htonl sender_ssrc);
          extseq = r2 AND 0x7FFF
      in \<lparr>out_hdr = \<lparr>hdr_v = RTP_VERSION, hdr_p = 0, hdr_x = 0, hdr_cc = 0, hdr_m = 0,
            hdr_pt = ucast (word_of_int default_pt :: 8 word), hdr_seq = pj_htons (ucast extseq),
            hdr_ts = 0, hdr_ssrc = ssrc\<rparr>,
          seq_ctrl = \<lparr>max_seq = 0, cycles = 0, base_seq = 0, bad_seq = 0, probation = 0\<rparr>,
          out_pt = word_of_int default_pt, out_extseq = extseq, peer_ssrc = 0, received = 0\<rparr>)"

record pjmedia_rtp_session_setting =
  set_flags :: "8 word"
  set_default_pt :: int
  set_sender_ssrc :: "32 word"
  set_seq :: "16 word"
  set_ts :: "32 word"

definition pjmedia_rtp_session_init2 ::
    "32 word \<Rightarrow> 32 word \<Rightarrow> pjmedia_rtp_session_setting \<Rightarrow> pjmedia_rtp_session" where
  "pjmedia_rtp_session_init2 r1 r2 settings =
     (let pt = (if bit (set_flags settings) 0 then set_default_pt settings else 0);
          sender_ssrc = (if bit (set_flags settings) 1 then set_sender_ssrc settings else 0);
          ses = pjmedia_rtp_session_init r1 r2 pt sender_ssrc;
          ses = (if bit (set_flags settings) 2
                 then ses\<lparr>out_extseq := ucast (set_seq settings),
                          out_hdr := (out_hdr ses)\<lparr>hdr_seq := pj_htons (set_seq settings)\<rparr>\<rparr>
                 else ses)
      in if bit (set_flags settings) 3
         then ses\<lparr>out_hdr := (out_hdr ses)\<lparr>hdr_ts := pj_htonl (set_ts settings)\<rparr>\<rparr> else ses)"

text \<open>A clock frame (empty payload) only moves the time stamp: no header is returned.\<close>

definition pjmedia_rtp_encode_rtp ::
    "int \<Rightarrow> int \<Rightarrow> int \<Rightarrow> int \<Rightarrow> pjmedia_rtp_session \<Rightarrow> pjmedia_rtp_session \<times> pjmedia_rtp_hdr option" where
  "pjmedia_rtp_encode_rtp pt m payload_len ts_len ses =
     (let ses = ses\<lparr>out_hdr := (out_hdr ses)
            \<lparr>hdr_ts := pj_htonl (pj_ntohl (hdr_ts (out_hdr ses)) + word_of_int ts_len)\<rparr>\<rparr>
      in if payload_len = 0 then (ses, None)
         else
           let ses = ses\<lparr>out_extseq := out_extseq ses + 1\<rparr>;
               hdr = (out_hdr ses)
                 \<lparr>hdr_pt := ucast (if pt = -1 then ucast (out_pt ses) else (word_of_int pt :: 8 word)),
                  hdr_m := word_of_int m, hdr_seq := pj_htons (ucast (out_extseq ses))\<rparr>
           in (ses\<lparr>out_hdr := hdr\<rparr>, Some hdr))"

section \<open>Receiving\<close>

text \<open>
  The packet is the first \<open>pkt_len\<close> bytes of a larger receive buffer. The result is the header with
  the offset and length of the payload. The length of the extension header is read before anything is
  compared with \<open>pkt_len\<close>.
\<close>

definition payload_offset :: "8 word list \<Rightarrow> nat" where
  "payload_offset buf =
     (let offset = 12 + unat (hdr_cc (hdr_of buf)) * 4
      in if hdr_x (hdr_of buf) \<noteq> 0 then offset + (unat (pj_ntohs (rd16 buf (offset + 2))) + 1) * 4
         else offset)"

definition pjmedia_rtp_decode_rtp ::
    "8 word list \<Rightarrow> nat \<Rightarrow> pj_status + pjmedia_rtp_hdr \<times> nat \<times> nat" where
  "pjmedia_rtp_decode_rtp buf pkt_len =
     (let hdr = hdr_of buf
      in if hdr_v hdr \<noteq> RTP_VERSION then Inl PJMEDIA_RTP_EINVER
         else
           let offset = payload_offset buf
           in if offset > pkt_len then Inl PJMEDIA_RTP_EINLEN
              else
                let payloadlen = pkt_len - offset;
                    payloadlen =
                      (if hdr_p hdr \<noteq> 0 \<and> payloadlen > 0 then
                         let pad_len = unat (buf ! (offset + payloadlen - 1))
                         in if pad_len \<le> payloadlen then payloadlen - pad_len else payloadlen
                       else payloadlen)
                in Inr (hdr, offset, payloadlen))"

section \<open>Sequence numbers\<close>

definition pjmedia_rtp_seq_restart :: "16 word \<Rightarrow> pjmedia_rtp_seq_session \<Rightarrow> pjmedia_rtp_seq_session" where
  "pjmedia_rtp_seq_restart seq sess =
     sess\<lparr>base_seq := ucast seq, max_seq := seq, bad_seq := of_nat (RTP_SEQ_MOD + 1), cycles := 0\<rparr>"

definition pjmedia_rtp_seq_init :: "16 word \<Rightarrow> pjmedia_rtp_seq_session \<Rightarrow> pjmedia_rtp_seq_session" where
  "pjmedia_rtp_seq_init seq sess =
     (pjmedia_rtp_seq_restart seq sess)\<lparr>max_seq := seq - 1, probation := MIN_SEQUENTIAL\<rparr>"

text \<open>
  The comparison \<^verbatim>\<open>seq == sess->max_seq + 1\<close> is done in \<^verbatim>\<open>int\<close>, so that the successor of 65535 is
  65536 there.
\<close>

definition seq_in_probation ::
    "16 word \<Rightarrow> pjmedia_rtp_seq_session \<Rightarrow> pjmedia_rtp_seq_session \<times> pjmedia_rtp_status" where
  "seq_in_probation seq sess =
     (let st = clear_status\<lparr>f_probation := True\<rparr>
      in if unat seq = unat (max_seq sess) + 1 then
           let sess = sess\<lparr>probation := probation sess - 1, max_seq := seq\<rparr>
           in (sess, st\<lparr>st_diff := 1, f_probation := probation sess \<noteq> 0\<rparr>)
         else
           (sess\<lparr>probation := MIN_SEQUENTIAL - 1, max_seq := seq\<rparr>,
            if seq = max_seq sess then st\<lparr>f_bad := True, f_dup := True\<rparr>
            else st\<lparr>f_bad := True, f_outorder := True\<rparr>))"

definition pjmedia_rtp_seq_update ::
    "16 word \<Rightarrow> pjmedia_rtp_seq_session \<Rightarrow> pjmedia_rtp_seq_session \<times> pjmedia_rtp_status" where
  "pjmedia_rtp_seq_update seq sess =
     (let udelta = seq - max_seq sess; st = clear_status
      in if probation sess \<noteq> 0 then seq_in_probation seq sess
         else if udelta = 0 then (sess, st\<lparr>f_dup := True\<rparr>)
         else if unat udelta < RTP_MAX_DROPOUT then
           ((if seq < max_seq sess then sess\<lparr>cycles := cycles sess + of_nat RTP_SEQ_MOD\<rparr> else sess)
              \<lparr>max_seq := seq\<rparr>, st\<lparr>st_diff := udelta\<rparr>)
         else if unat udelta \<le> RTP_SEQ_MOD - RTP_MAX_MISORDER then
           (if ucast seq = bad_seq sess
            then (pjmedia_rtp_seq_restart seq sess, st\<lparr>f_restart := True, f_probation := True, st_diff := 1\<rparr>)
            else (sess\<lparr>bad_seq := (ucast seq + 1) AND of_nat (RTP_SEQ_MOD - 1)\<rparr>,
                  st\<lparr>f_bad := True, f_outorder := True\<rparr>))
         else (sess, st\<lparr>f_outorder := True\<rparr>))"

text \<open>\<open>st0\<close> is what \<^verbatim>\<open>*p_seq_st\<close> held before: a bad payload type leaves its \<^verbatim>\<open>diff\<close> as it was.\<close>

definition pjmedia_rtp_session_update2 ::
    "pjmedia_rtp_hdr \<Rightarrow> bool \<Rightarrow> pjmedia_rtp_status \<Rightarrow> pjmedia_rtp_session
     \<Rightarrow> pjmedia_rtp_session \<times> pjmedia_rtp_status" where
  "pjmedia_rtp_session_update2 hdr check_pt st0 ses =
     (let seq_st = clear_status;
          ses = (if peer_ssrc ses = 0 then ses\<lparr>peer_ssrc := pj_ntohl (hdr_ssrc hdr)\<rparr> else ses);
          (ses, seq_st) =
            (if pj_ntohl (hdr_ssrc hdr) \<noteq> peer_ssrc ses
             then (ses\<lparr>peer_ssrc := pj_ntohl (hdr_ssrc hdr)\<rparr>, seq_st\<lparr>f_badssrc := True\<rparr>)
             else (ses, seq_st))
      in if check_pt \<and> ucast (hdr_pt hdr) \<noteq> out_pt ses
         then (ses, seq_st\<lparr>f_bad := True, f_badpt := True, st_diff := st_diff st0\<rparr>)
         else
           let ses = (if received ses = 0
                      then ses\<lparr>seq_ctrl := pjmedia_rtp_seq_init (pj_ntohs (hdr_seq hdr)) (seq_ctrl ses)\<rparr>
                      else ses);
               (ctrl, seq_st) = pjmedia_rtp_seq_update (pj_ntohs (hdr_seq hdr)) (seq_ctrl ses);
               ses = ses\<lparr>seq_ctrl := ctrl\<rparr>
           in (if f_restart seq_st \<or> \<not> f_bad seq_st then ses\<lparr>received := received ses + 1\<rparr> else ses,
               seq_st))"

definition pjmedia_rtp_session_update ::
    "pjmedia_rtp_hdr \<Rightarrow> pjmedia_rtp_status \<Rightarrow> pjmedia_rtp_session
     \<Rightarrow> pjmedia_rtp_session \<times> pjmedia_rtp_status" where
  "pjmedia_rtp_session_update hdr st0 ses = pjmedia_rtp_session_update2 hdr True st0 ses"

end
