(* ===== verification/Rtp_Props.thy ===== *)
theory Rtp_Props
  imports Rtp
begin

text \<open>What RTP headers carry, what the decoder looks at, and what the sequence tracker keeps.\<close>

section \<open>Bytes\<close>

lemma swap16_swap16 [simp]: "pj_ntohs (pj_htons w) = w"
  by (rule bit_word_eqI) (auto simp: pj_ntohs_def pj_htons_def bit_simps)

lemma swap32_bit:
  "bit (pj_htonl w) n \<longleftrightarrow> n < 32 \<and>
     bit w (if n < 8 then n + 24 else if n < 16 then n + 8 else if n < 24 then n - 8 else n - 24)"
proof -
  have e: "(0xFF00 :: 32 word) = push_bit 8 (mask 8)" by (simp add: push_bit_eq_mult mask_eq_exp_minus_1)
  have big: "bit w k \<longleftrightarrow> k < 32 \<and> bit w k" for k using bit_imp_le_length [of w k] by auto
  show ?thesis
    unfolding pj_htonl_def e bit_or_iff bit_and_iff bit_push_bit_iff bit_drop_bit_eq bit_mask_iff comp_def
    by (auto simp: add.commute big [of "8 + n"] big [of "24 + n"] split: if_splits dest: bit_imp_le_length)
qed

lemma swap32_swap32 [simp]: "pj_ntohl (pj_htonl w) = w"
proof (rule bit_word_eqI)
  fix n :: nat assume "n < LENGTH(32)"
  then consider "n < 8" | "8 \<le> n" "n < 16" | "16 \<le> n" "n < 24" | "24 \<le> n" "n < 32" by fastforce
  then show "bit (pj_ntohl (pj_htonl w)) n = bit w n"
    by cases (auto simp: pj_ntohl_def swap32_bit)
qed

lemma rd16_le16: "rd16 (xs @ le16 w @ ys) (length xs) = w"
  by (rule bit_word_eqI) (auto simp: rd16_def le16_def nth_append bit_simps)

lemma rd32_le32: "rd32 (xs @ le32 w @ ys) (length xs) = w"
proof (rule bit_word_eqI)
  fix n :: nat assume "n < LENGTH(32)"
  then consider "n < 8" | "8 \<le> n" "n < 16" | "16 \<le> n" "n < 24" | "24 \<le> n" "n < 32" by fastforce
  then show "bit (rd32 (xs @ le32 w @ ys) (length xs)) n = bit w n"
    by cases (auto simp: rd32_def le32_def nth_append bit_simps)
qed

lemma hdr_round:
  "length (hdr_bytes h) = 12" "hdr_of (hdr_bytes h @ rest) = h"
proof -
  show "length (hdr_bytes h) = 12" by (simp add: hdr_bytes_def le16_def le32_def)
  let ?b0 = "ucast (hdr_cc h) OR push_bit 4 (ucast (hdr_x h)) OR push_bit 5 (ucast (hdr_p h))
    OR push_bit 6 (ucast (hdr_v h)) :: 8 word"
  let ?b1 = "ucast (hdr_pt h) OR push_bit 7 (ucast (hdr_m h)) :: 8 word"
  have v: "ucast (drop_bit 6 ?b0) = hdr_v h" by (rule bit_word_eqI) (auto simp: bit_simps dest: bit_imp_le_length)
  have p: "ucast (drop_bit 5 ?b0) = hdr_p h" by (rule bit_word_eqI) (auto simp: bit_simps dest: bit_imp_le_length)
  have x: "ucast (drop_bit 4 ?b0) = hdr_x h" by (rule bit_word_eqI) (auto simp: bit_simps dest: bit_imp_le_length)
  have cc: "ucast ?b0 = hdr_cc h" by (rule bit_word_eqI) (auto simp: bit_simps dest: bit_imp_le_length)
  have m: "ucast (drop_bit 7 ?b1) = hdr_m h" by (rule bit_word_eqI) (auto simp: bit_simps dest: bit_imp_le_length)
  have pt: "ucast ?b1 = hdr_pt h" by (rule bit_word_eqI) (auto simp: bit_simps dest: bit_imp_le_length)
  have b: "hdr_bytes h @ rest = [?b0, ?b1] @ le16 (hdr_seq h) @ le32 (hdr_ts h) @ le32 (hdr_ssrc h) @ rest"
    by (simp add: hdr_bytes_def)
  have s: "rd16 (hdr_bytes h @ rest) 2 = hdr_seq h"
    using rd16_le16 [of "[?b0, ?b1]" "hdr_seq h"] unfolding b by (simp add: numeral_2_eq_2)
  have t: "rd32 (hdr_bytes h @ rest) 4 = hdr_ts h"
    using rd32_le32 [of "[?b0, ?b1] @ le16 (hdr_seq h)" "hdr_ts h" "le32 (hdr_ssrc h) @ rest"]
    unfolding b by (simp add: le16_def numeral_eq_Suc)
  have ss: "rd32 (hdr_bytes h @ rest) 8 = hdr_ssrc h"
    using rd32_le32 [of "[?b0, ?b1] @ le16 (hdr_seq h) @ le32 (hdr_ts h)" "hdr_ssrc h" rest]
    unfolding b by (simp add: le16_def le32_def numeral_eq_Suc)
  have "(hdr_bytes h @ rest) ! 0 = ?b0" "(hdr_bytes h @ rest) ! 1 = ?b1" by (simp_all add: hdr_bytes_def)
  then show "hdr_of (hdr_bytes h @ rest) = h"
    by (simp only: hdr_of_def s t ss v p x cc m pt) simp
qed

section \<open>A stream of frames\<close>

text \<open>
  A sender with a list of frames (marker, length in time stamp units, payload), what the receiver reads
  from a packet, and what it should read: one line per frame that has a payload.
\<close>

fun rtp_send :: "int \<Rightarrow> (int \<times> int \<times> 8 word list) list \<Rightarrow> pjmedia_rtp_session \<Rightarrow> 8 word list list" where
  "rtp_send pt [] ses = []"
| "rtp_send pt ((m, ts_len, payload) # fs) ses =
     (case pjmedia_rtp_encode_rtp pt m (int (length payload)) ts_len ses of
        (ses', None) \<Rightarrow> rtp_send pt fs ses'
      | (ses', Some hdr) \<Rightarrow> (hdr_bytes hdr @ payload) # rtp_send pt fs ses')"

definition rtp_recv :: "8 word list \<Rightarrow> (16 word \<times> 32 word \<times> 32 word \<times> 1 word \<times> 7 word \<times> 8 word list) option" where
  "rtp_recv pkt =
     (case pjmedia_rtp_decode_rtp pkt (length pkt) of
        Inl _ \<Rightarrow> None
      | Inr (h, off, len) \<Rightarrow> Some (pj_ntohs (hdr_seq h), pj_ntohl (hdr_ts h), pj_ntohl (hdr_ssrc h), hdr_m h,
          hdr_pt h, take len (drop off pkt)))"

fun rtp_stream :: "32 word \<Rightarrow> 32 word \<Rightarrow> 32 word \<Rightarrow> 7 word \<Rightarrow> (int \<times> int \<times> 8 word list) list
    \<Rightarrow> (16 word \<times> 32 word \<times> 32 word \<times> 1 word \<times> 7 word \<times> 8 word list) list" where
  "rtp_stream seq ts ssrc pt [] = []"
| "rtp_stream seq ts ssrc pt ((m, ts_len, payload) # fs) =
     (if payload = [] then rtp_stream seq (ts + word_of_int ts_len) ssrc pt fs
      else (ucast (seq + 1), ts + word_of_int ts_len, ssrc, word_of_int m, pt, payload)
           # rtp_stream (seq + 1) (ts + word_of_int ts_len) ssrc pt fs)"

definition plain_header :: "pjmedia_rtp_hdr \<Rightarrow> bool" where
  "plain_header h \<longleftrightarrow> hdr_v h = RTP_VERSION \<and> hdr_p h = 0 \<and> hdr_x h = 0 \<and> hdr_cc h = 0"

lemma plain_init: "plain_header (out_hdr (pjmedia_rtp_session_init r1 r2 pt ssrc))"
  by (simp add: plain_header_def pjmedia_rtp_session_init_def Let_def)

lemma plain_init2: "plain_header (out_hdr (pjmedia_rtp_session_init2 r1 r2 settings))"
  using plain_init by (auto simp: pjmedia_rtp_session_init2_def Let_def plain_header_def)

lemma recv_plain:
  assumes "plain_header h"
  shows "rtp_recv (hdr_bytes h @ payload) =
    Some (pj_ntohs (hdr_seq h), pj_ntohl (hdr_ts h), pj_ntohl (hdr_ssrc h), hdr_m h, hdr_pt h, payload)"
  using assms
  by (simp add: rtp_recv_def pjmedia_rtp_decode_rtp_def payload_offset_def Let_def hdr_round plain_header_def)

definition pt_on_wire :: "int \<Rightarrow> pjmedia_rtp_session \<Rightarrow> 7 word" where
  "pt_on_wire pt ses = (if pt = -1 then ucast (ucast (out_pt ses) :: 8 word) else ucast (word_of_int pt :: 8 word))"

lemma encode_facts:
  assumes "plain_header (out_hdr ses)" and "pjmedia_rtp_encode_rtp pt m n ts ses = (ses', r)"
  shows "plain_header (out_hdr ses')" "out_pt ses' = out_pt ses" "hdr_ssrc (out_hdr ses') = hdr_ssrc (out_hdr ses)"
    "pj_ntohl (hdr_ts (out_hdr ses')) = pj_ntohl (hdr_ts (out_hdr ses)) + word_of_int ts"
    "r = (if n = 0 then None else Some (out_hdr ses'))"
    "out_extseq ses' = (if n = 0 then out_extseq ses else out_extseq ses + 1)"
    "n \<noteq> 0 \<Longrightarrow> hdr_pt (out_hdr ses') = pt_on_wire pt ses \<and> hdr_m (out_hdr ses') = word_of_int m
      \<and> pj_ntohs (hdr_seq (out_hdr ses')) = ucast (out_extseq ses + 1)"
  using assms
  by (auto simp: pjmedia_rtp_encode_rtp_def Let_def plain_header_def pt_on_wire_def split: if_splits)

lemma stream_read:
  assumes "plain_header (out_hdr ses)"
  shows "map rtp_recv (rtp_send pt fs ses) =
    map Some (rtp_stream (out_extseq ses) (pj_ntohl (hdr_ts (out_hdr ses))) (pj_ntohl (hdr_ssrc (out_hdr ses)))
      (pt_on_wire pt ses) fs)"
  using assms
proof (induction pt fs ses rule: rtp_send.induct)
  case (2 pt m ts payload fs ses)
  obtain ses' r where e: "pjmedia_rtp_encode_rtp pt m (int (length payload)) ts ses = (ses', r)" by fastforce
  note f = encode_facts [OF 2(3) e]
  have pt': "pt_on_wire pt ses' = pt_on_wire pt ses" using f(2) by (simp add: pt_on_wire_def)
  show ?case
  proof (cases "payload = []")
    case True
    then show ?thesis using 2(1) [OF e [symmetric]] e f pt' by simp
  next
    case False
    then show ?thesis using 2(2) [OF e [symmetric]] e f pt' by (simp add: recv_plain)
  qed
qed simp

text \<open>C21: Every frame with a payload that a freshly created RTP session sends, with frames without payload
  (clock ticks) in between, is read back by the decoder as one packet with the same payload, marker and
  payload type, with the sequence number one above the previous packet's and the time stamp advanced by the
  lengths of all frames up to it, under the SSRC of the session: \<open>rtp_stream\<close> lists these packets.\<close>

theorem rtp_stream_roundtrip:
  "ses = pjmedia_rtp_session_init2 r1 r2 settings \<Longrightarrow>
   map rtp_recv (rtp_send pt fs ses) =
     map Some (rtp_stream (out_extseq ses) (pj_ntohl (hdr_ts (out_hdr ses))) (pj_ntohl (hdr_ssrc (out_hdr ses)))
       (pt_on_wire pt ses) fs)"
  by (simp add: stream_read plain_init2)

definition voice :: "(int \<times> int \<times> 8 word list) list" where
  "voice = [(1, 0, [10, 11]), (0, 160, []), (0, 160, [20, 21, 22])]"

lemma rtp_stream_roundtrip_witness:
  "map rtp_recv (rtp_send 8 voice (pjmedia_rtp_session_init2 0 0
      \<lparr>set_flags = 15, set_default_pt = 8, set_sender_ssrc = 77, set_seq = 65535, set_ts = 1000\<rparr>)) =
   map Some [(0, 1000, 77, 1, 8, [10, 11]), (1, 1320, 77, 0, 8, [20, 21, 22])]"
proof -
  let ?set = "\<lparr>set_flags = 15, set_default_pt = 8, set_sender_ssrc = 77, set_seq = 65535, set_ts = 1000\<rparr>"
  let ?ses = "pjmedia_rtp_session_init2 0 0 ?set"
  have "out_extseq ?ses = 65535" "pj_ntohl (hdr_ts (out_hdr ?ses)) = 1000"
    "pj_ntohl (hdr_ssrc (out_hdr ?ses)) = 77" "pt_on_wire 8 ?ses = 8"
    by (simp_all add: pjmedia_rtp_session_init2_def pjmedia_rtp_session_init_def Let_def pt_on_wire_def)
  then show ?thesis using rtp_stream_roundtrip [OF refl, of 8 voice 0 0 ?set] by (simp add: voice_def)
qed

section \<open>What the decoder looks at\<close>

definition rtp_overread :: nat where
  "rtp_overread = 76"

lemma hdr_agree:
  assumes "12 \<le> n" "take n a = take n b" "n \<le> length a" "n \<le> length b"
  shows "hdr_of a = hdr_of b"
proof -
  have "a ! i = b ! i" if "i < 12" for i
    using assms that nth_take [of i n a] nth_take [of i n b] by simp
  then show ?thesis by (simp add: hdr_of_def rd16_def rd32_def)
qed

lemma offset_agree:
  assumes "take n a = take n b" "n \<le> length a" "n \<le> length b" "payload_offset a \<le> n"
  shows "payload_offset a = payload_offset b"
proof -
  let ?o = "12 + unat (hdr_cc (hdr_of a)) * 4"
  have n: "?o \<le> n" "12 \<le> n" and x: "hdr_x (hdr_of a) \<noteq> 0 \<Longrightarrow> ?o + 4 \<le> n"
    using assms(4) by (auto simp: payload_offset_def Let_def split: if_splits)
  have h: "hdr_of a = hdr_of b" using hdr_agree [OF n(2) assms(1-3)] .
  have "rd16 a (?o + 2) = rd16 b (?o + 2)" if "hdr_x (hdr_of a) \<noteq> 0"
    using x [OF that] assms(1-3) nth_take [of "?o + 2" n a] nth_take [of "?o + 2" n b]
      nth_take [of "?o + 3" n a] nth_take [of "?o + 3" n b]
    by (simp add: rd16_def)
  then show ?thesis unfolding payload_offset_def h [symmetric] by (simp add: Let_def)
qed

lemma version_agree:
  assumes "take n a = take n b" "0 < n" "0 < length a" "0 < length b"
  shows "hdr_v (hdr_of a) = hdr_v (hdr_of b)"
proof -
  have "a ! 0 = b ! 0" using assms nth_take [of 0 n a] nth_take [of 0 n b] by simp
  then show ?thesis by (simp add: hdr_of_def)
qed

text \<open>Decoding never depends on what the receive buffer holds behind the packet, although the header
  and the extension header are read before their place is compared with the packet's length: two buffers
  that hold the same packet of at least one byte give the same result, and a payload that is reported
  lies behind the fixed header and inside the packet. The bytes read lie in the packet
  or are among the first 76 of the buffer (header, 15 contributing sources, extension header), which have
  to exist.\<close>

theorem decode_sees_only_packet:
  assumes "0 < pkt_len" "take pkt_len a = take pkt_len b"
    and "max rtp_overread pkt_len \<le> length a" "max rtp_overread pkt_len \<le> length b"
  shows "pjmedia_rtp_decode_rtp a pkt_len = pjmedia_rtp_decode_rtp b pkt_len
    \<and> (\<forall>h off len. pjmedia_rtp_decode_rtp a pkt_len = Inr (h, off, len) \<longrightarrow> 12 \<le> off \<and> off + len \<le> pkt_len)"
proof -
  have l: "pkt_len \<le> length a" "pkt_len \<le> length b" using assms(3,4) by auto
  have "0 < length a" "0 < length b" using assms(3,4) unfolding rtp_overread_def by linarith+
  then have v: "hdr_v (hdr_of a) = hdr_v (hdr_of b)" using version_agree [OF assms(2,1)] by blast
  have o: "12 \<le> payload_offset c" for c by (simp add: payload_offset_def Let_def)
  have "pjmedia_rtp_decode_rtp a pkt_len = pjmedia_rtp_decode_rtp b pkt_len"
  proof (cases "payload_offset a \<le> pkt_len \<or> payload_offset b \<le> pkt_len")
    case True
    then have e: "payload_offset a = payload_offset b" and n: "payload_offset a \<le> pkt_len"
      using offset_agree [OF assms(2) l] offset_agree [OF assms(2) [symmetric] l(2,1)] by auto
    have h: "hdr_of a = hdr_of b" using hdr_agree [OF _ assms(2) l] o [of a] n by simp
    have "a ! i = b ! i" if "i < pkt_len" for i
      using assms(2) l that nth_take [of i pkt_len a] nth_take [of i pkt_len b] by simp
    then show ?thesis using n unfolding pjmedia_rtp_decode_rtp_def h e by (auto simp: Let_def)
  qed (simp add: pjmedia_rtp_decode_rtp_def v Let_def)
  moreover have "12 \<le> off \<and> off + len \<le> pkt_len" if "pjmedia_rtp_decode_rtp a pkt_len = Inr (h, off, len)" for h off len
    using that o [of a] by (auto simp: pjmedia_rtp_decode_rtp_def Let_def split: if_splits)
  ultimately show ?thesis by blast
qed

definition short_packet :: "8 word list" where
  "short_packet = [144, 8, 0, 1, 0, 0, 0, 0, 0, 0, 0, 77, 0, 0]"

lemma decode_sees_only_packet_witness:
  "pjmedia_rtp_decode_rtp (short_packet @ replicate 100 0) 14 = Inl PJMEDIA_RTP_EINLEN \<and>
   pjmedia_rtp_decode_rtp (short_packet @ replicate 100 255) 14 = Inl PJMEDIA_RTP_EINLEN"
proof -
  let ?a = "short_packet @ replicate 100 0" and ?b = "short_packet @ replicate 100 255"
  have x: "hdr_v (hdr_of ?a) = 2" "hdr_x (hdr_of ?a) = 1"
    by (simp_all add: hdr_of_def short_packet_def)
  then have "pjmedia_rtp_decode_rtp ?a 14 = Inl PJMEDIA_RTP_EINLEN"
    by (simp add: pjmedia_rtp_decode_rtp_def payload_offset_def Let_def RTP_VERSION_def)
  then show ?thesis using decode_sees_only_packet [of 14 ?a ?b] by (simp add: rtp_overread_def short_packet_def)
qed

section \<open>Tracking sequence numbers\<close>

text \<open>
  The position in the stream as a number that does not wrap: \<open>tracks e sess\<close> says that the tracker has
  seen the packet with number \<open>e\<close> last in order.
\<close>

definition tracks :: "nat \<Rightarrow> pjmedia_rtp_seq_session \<Rightarrow> bool" where
  "tracks e sess \<longleftrightarrow> probation sess = 0 \<and> max_seq sess = of_nat e
     \<and> cycles sess = of_nat (e div RTP_SEQ_MOD * RTP_SEQ_MOD)"

definition in_window :: "nat \<Rightarrow> nat \<Rightarrow> bool" where
  "in_window e e' \<longleftrightarrow> e < e' + RTP_MAX_MISORDER \<and> e' < e + RTP_MAX_DROPOUT"

definition window_status :: "nat \<Rightarrow> nat \<Rightarrow> pjmedia_rtp_status" where
  "window_status e e' =
     (if e' = e then clear_status\<lparr>f_dup := True\<rparr>
      else if e' < e then clear_status\<lparr>f_outorder := True\<rparr>
      else clear_status\<lparr>st_diff := of_nat (e' - e)\<rparr>)"

lemma of_nat16: "unat (of_nat e :: 16 word) = e mod 65536"
  by (simp add: unat_of_nat take_bit_eq_mod)

lemma udelta_forward:
  assumes "e \<le> e'" "e' < e + 65536"
  shows "(of_nat e' :: 16 word) - of_nat e = of_nat (e' - e)"
  using assms by simp

lemma udelta_back:
  assumes "e' < e" "e < e' + 100"
  shows "unat ((of_nat e' :: 16 word) - of_nat e) = 65536 - (e - e')"
proof -
  define k where "k = 65536 - (e - e')"
  have k: "e' + 65536 = e + k" "k < 65536" using assms by (auto simp: k_def)
  have s: "(of_nat e' + of_nat 65536 :: 16 word) = of_nat e + of_nat k"
    using k(1) by (metis of_nat_add)
  have z: "(of_nat 65536 :: 16 word) = 0"
    by (rule word_unat_eq_iff [THEN iffD2]) (simp only: of_nat16, simp)
  have "(of_nat e' :: 16 word) = of_nat e + of_nat k" using s unfolding z by simp
  then have "(of_nat e' :: 16 word) - of_nat e = of_nat k" by (simp add: algebra_simps)
  then show ?thesis using k(2) unfolding k_def [symmetric] by (simp add: of_nat16)
qed

lemma wrap_div:
  assumes "e < e'" "e' < e + 3000"
  shows "(e' div 65536 :: nat) = (if e' mod 65536 < e mod 65536 then e div 65536 + 1 else e div 65536)"
proof -
  obtain d where d: "e' = e + d" "d < 3000" using assms by (metis add_less_cancel_left less_imp_add_positive)
  define q r where "q = e div 65536" and "r = e mod 65536"
  have e: "e = 65536 * q + r" "r < 65536" by (auto simp: q_def r_def)
  have "e' = 65536 * q + (r + d)" using d e by simp
  then have q: "e' div 65536 = q + (r + d) div 65536" "e' mod 65536 = (r + d) mod 65536" by auto
  show ?thesis
  proof (cases "r + d < 65536")
    case True
    then show ?thesis using q by (simp add: q_def [symmetric] r_def [symmetric])
  next
    case False
    then have "(r + d) div 65536 = 1" "(r + d) mod 65536 = r + d - 65536"
      using d(2) e(2) by (auto simp: div_nat_eqI mod_if)
    then show ?thesis using q False d(2) e(2) by (simp add: q_def [symmetric] r_def [symmetric])
  qed
qed

lemma update_in_window:
  assumes t: "tracks e sess" and w: "in_window e e'"
  shows "tracks (max e e') (fst (pjmedia_rtp_seq_update (of_nat e') sess))
    \<and> snd (pjmedia_rtp_seq_update (of_nat e') sess) = window_status e e'"
proof -
  have p: "probation sess = 0" "max_seq sess = of_nat e" "cycles sess = of_nat (e div RTP_SEQ_MOD * RTP_SEQ_MOD)"
    using t by (auto simp: tracks_def)
  consider "e' = e" | "e' < e" "e < e' + 100" | "e < e'" "e' < e + 3000"
    using w by (force simp: in_window_def RTP_MAX_MISORDER_def RTP_MAX_DROPOUT_def)
  then show ?thesis
  proof cases
    case 1
    then show ?thesis using t by (simp add: pjmedia_rtp_seq_update_def p window_status_def)
  next
    case 2
    define u where "u = (of_nat e' :: 16 word) - of_nat e"
    have "unat u = 65536 - (e - e')" using udelta_back [OF 2] by (simp add: u_def)
    then have u: "u \<noteq> 0" "\<not> unat u < RTP_MAX_DROPOUT" "\<not> unat u \<le> RTP_SEQ_MOD - RTP_MAX_MISORDER"
      using 2 by (auto simp: RTP_MAX_DROPOUT_def RTP_SEQ_MOD_def RTP_MAX_MISORDER_def)
    then show ?thesis using 2 t
      by (simp add: pjmedia_rtp_seq_update_def Let_def p u_def [symmetric] window_status_def)
  next
    case 3
    define u where "u = (of_nat e' :: 16 word) - of_nat e"
    have ud: "u = of_nat (e' - e)" using udelta_forward [of e e'] 3 by (simp add: u_def)
    have "unat u = e' - e" unfolding ud of_nat16 using 3 by simp
    then have u: "u \<noteq> 0" "unat u < RTP_MAX_DROPOUT" using 3 by (auto simp: RTP_MAX_DROPOUT_def)
    have lt: "(of_nat e' :: 16 word) < of_nat e \<longleftrightarrow> e' mod 65536 < e mod 65536"
      by (simp add: word_less_nat_alt of_nat16)
    have "tracks e' ((if (of_nat e' :: 16 word) < max_seq sess
         then sess\<lparr>cycles := cycles sess + of_nat RTP_SEQ_MOD\<rparr> else sess)\<lparr>max_seq := of_nat e'\<rparr>)"
      unfolding p(2) lt using p(1,3) wrap_div [OF 3]
      by (auto simp: tracks_def RTP_SEQ_MOD_def algebra_simps)
    then show ?thesis using 3 u unfolding ud [symmetric]
      by (simp add: pjmedia_rtp_seq_update_def Let_def p(1) p(2) u_def [symmetric] window_status_def ud [symmetric])
  qed
qed

fun in_windows :: "nat \<Rightarrow> nat list \<Rightarrow> bool" where
  "in_windows e [] = True"
| "in_windows e (e' # es) = (in_window e e' \<and> in_windows (max e e') es)"

fun window_stats :: "nat \<Rightarrow> nat list \<Rightarrow> pjmedia_rtp_status list" where
  "window_stats e [] = []"
| "window_stats e (e' # es) = window_status e e' # window_stats (max e e') es"

fun seq_run :: "16 word list \<Rightarrow> pjmedia_rtp_seq_session \<Rightarrow> pjmedia_rtp_seq_session \<times> pjmedia_rtp_status list" where
  "seq_run [] sess = (sess, [])"
| "seq_run (seq # seqs) sess =
     (let (sess, st) = pjmedia_rtp_seq_update seq sess; (sess, sts) = seq_run seqs sess in (sess, st # sts))"

text \<open>C22: The tracker follows the stream across any number of wrap-arounds: whatever the order in which
  packets arrive, as long as each is less than 100 behind and less than 3000 ahead of the newest so far,
  \<open>cycles\<close> and \<open>max_seq\<close> stay the number of the newest packet, and each packet is reported as a duplicate
  of the newest, as out of order, or with the number of packets it is ahead, never as bad.\<close>

theorem tracker_follows_maximum:
  "tracks e sess \<Longrightarrow> in_windows e es \<Longrightarrow>
   tracks (foldl max e es) (fst (seq_run (map of_nat es) sess))
   \<and> snd (seq_run (map of_nat es) sess) = window_stats e es"
proof (induction es arbitrary: e sess)
  case (Cons e' es)
  have "tracks (max e e') (fst (pjmedia_rtp_seq_update (of_nat e') sess))"
    "snd (pjmedia_rtp_seq_update (of_nat e') sess) = window_status e e'" "in_windows (max e e') es"
    using update_in_window [OF Cons(2)] Cons(3) by auto
  then show ?case using Cons(1) [of "max e e'"] by (auto simp: Let_def case_prod_beta)
qed simp

definition tracking :: pjmedia_rtp_seq_session where
  "tracking = \<lparr>max_seq = 65534, cycles = 0, base_seq = 65000, bad_seq = 65537, probation = 0\<rparr>"

lemma tracker_follows_maximum_witness:
  "tracks 131080 (fst (seq_run (map of_nat [65535, 65538, 65537, 65540, 68000, 70000, 72000, 74000, 76000 :: nat]
      @ map of_nat [78000 :: nat, 80000, 82000, 84000, 86000, 88000, 90000, 92000, 94000, 96000, 98000]
      @ map of_nat [100000 :: nat, 102000, 104000, 106000, 108000, 110000, 112000, 114000, 116000, 118000]
      @ map of_nat [120000 :: nat, 122000, 124000, 126000, 128000, 130000, 131080, 131000, 131080]) tracking))"
proof -
  let ?es = "[65535, 65538, 65537, 65540, 68000, 70000, 72000, 74000, 76000,
    78000 :: nat, 80000, 82000, 84000, 86000, 88000, 90000, 92000, 94000, 96000, 98000,
    100000, 102000, 104000, 106000, 108000, 110000, 112000, 114000, 116000, 118000,
    120000, 122000, 124000, 126000, 128000, 130000, 131080, 131000, 131080]"
  have "tracks 65534 tracking" by (simp add: tracks_def tracking_def RTP_SEQ_MOD_def)
  moreover have "in_windows 65534 ?es" by (simp add: in_window_def RTP_MAX_MISORDER_def RTP_MAX_DROPOUT_def)
  moreover have "foldl max 65534 ?es = 131080" by simp
  ultimately show ?thesis using tracker_follows_maximum [of 65534 tracking ?es] by simp
qed

section \<open>The first packets of a source\<close>

lemma init_update:
  "seq \<noteq> 0 \<Longrightarrow> pjmedia_rtp_seq_update seq (pjmedia_rtp_seq_init seq c) =
     ((pjmedia_rtp_seq_init seq c)\<lparr>probation := 1, max_seq := seq\<rparr>,
      clear_status\<lparr>f_probation := True, st_diff := 1\<rparr>)"
  "pjmedia_rtp_seq_update 0 (pjmedia_rtp_seq_init 0 c) =
     ((pjmedia_rtp_seq_init 0 c)\<lparr>probation := 1, max_seq := 0\<rparr>,
      clear_status\<lparr>f_probation := True, f_bad := True, f_outorder := True\<rparr>)"
proof -
  have u: "unat seq = unat (seq - 1) + 1" if "seq \<noteq> 0" for seq :: "16 word"
    using that unat_minus_one [OF that] unat_gt_0 [of seq] by linarith
  show "seq \<noteq> 0 \<Longrightarrow> pjmedia_rtp_seq_update seq (pjmedia_rtp_seq_init seq c) =
     ((pjmedia_rtp_seq_init seq c)\<lparr>probation := 1, max_seq := seq\<rparr>,
      clear_status\<lparr>f_probation := True, st_diff := 1\<rparr>)"
    using u [of seq] unfolding pjmedia_rtp_seq_update_def seq_in_probation_def
    by (simp add: Let_def pjmedia_rtp_seq_init_def MIN_SEQUENTIAL_def)
  show "pjmedia_rtp_seq_update 0 (pjmedia_rtp_seq_init 0 c) =
     ((pjmedia_rtp_seq_init 0 c)\<lparr>probation := 1, max_seq := 0\<rparr>,
      clear_status\<lparr>f_probation := True, f_bad := True, f_outorder := True\<rparr>)"
    unfolding pjmedia_rtp_seq_update_def seq_in_probation_def
    by (simp add: Let_def pjmedia_rtp_seq_init_def MIN_SEQUENTIAL_def)
qed

text \<open>The first packet a session receives, whatever its sequence number except zero, starts the
  tracking: it is on probation, not bad, and counted. A first packet with sequence number zero is
  reported bad and out of order and is not counted, so that the next one is taken for the first again
  (the successor of 65535 is compared as an \<open>int\<close>). A packet with another payload type is reported as
  that, and changes nothing but the SSRC of the peer. That a packet comes from a new SSRC is reported
  with a wrong payload type only.\<close>

theorem first_packet_starts_tracking:
  "received ses = 0 \<Longrightarrow> pjmedia_rtp_session_update2 hdr check_pt st0 ses = (ses', st) \<Longrightarrow>
   peer_ssrc ses' = pj_ntohl (hdr_ssrc hdr) \<and> (f_badssrc st \<longrightarrow> f_badpt st) \<and>
   (if check_pt \<and> ucast (hdr_pt hdr) \<noteq> out_pt ses
    then f_bad st \<and> f_badpt st \<and> ses' = ses\<lparr>peer_ssrc := pj_ntohl (hdr_ssrc hdr)\<rparr>
    else if pj_ntohs (hdr_seq hdr) = 0 then f_bad st \<and> f_outorder st \<and> received ses' = 0
    else \<not> f_bad st \<and> f_probation st \<and> st_diff st = 1 \<and> received ses' = 1
      \<and> max_seq (seq_ctrl ses') = pj_ntohs (hdr_seq hdr) \<and> probation (seq_ctrl ses') = 1)"
  using init_update(1) [of "pj_ntohs (hdr_seq hdr)" "seq_ctrl ses"] init_update(2) [of "seq_ctrl ses"]
  by (auto simp: pjmedia_rtp_session_update2_def Let_def clear_status_def split: if_splits)

lemma first_packet_starts_tracking_witness:
  "\<exists>ses' st. pjmedia_rtp_session_update2 (out_hdr (pjmedia_rtp_session_init 0 0 8 77)) True clear_status
      (pjmedia_rtp_session_init 5 6 8 0) = (ses', st) \<and> f_bad st \<and> received ses' = 0 \<and> peer_ssrc ses' = 77"
proof -
  let ?ses = "pjmedia_rtp_session_init 5 6 8 0" and ?h = "out_hdr (pjmedia_rtp_session_init 0 0 8 77)"
  obtain ses' st where e: "pjmedia_rtp_session_update2 ?h True clear_status ?ses = (ses', st)" by fastforce
  have f: "received ?ses = 0" "out_pt ?ses = 8" "hdr_pt ?h = 8" "pj_ntohl (hdr_ssrc ?h) = 77"
    "pj_ntohs (hdr_seq ?h) = 0"
    by (simp_all add: pjmedia_rtp_session_init_def Let_def)
  show ?thesis using first_packet_starts_tracking [OF f(1) e] e f by simp
qed

end
