(* ===== verification/Scanner.thy ===== *)
theory Scanner
  imports Pj_Prelude "HOL-Library.Monad_Syntax"
begin

text \<open>
  Character classes, numbers and the text scanner (\<^verbatim>\<open>pj/ctype.h\<close>, \<^verbatim>\<open>pj/string.c\<close>,
  \<^verbatim>\<open>pjlib-util/scanner.c\<close>). A scanner is the text from \<^verbatim>\<open>curptr\<close> to \<^verbatim>\<open>end\<close>; the buffer is followed by a
  NUL, which a read at the end sees. The syntax error callback of every user throws, so that an error is
  \<open>None\<close>. The line counter, which only log messages use, is left out. \<open>ws\<close> is whether
  \<^verbatim>\<open>PJ_SCAN_AUTOSKIP_WS\<close> is set.
\<close>

section \<open>Characters and numbers\<close>

definition pj_isdigit :: "char \<Rightarrow> bool" where
  "pj_isdigit c \<longleftrightarrow> 48 \<le> (of_char c :: nat) \<and> (of_char c :: nat) \<le> 57"

definition pj_isalpha :: "char \<Rightarrow> bool" where
  "pj_isalpha c \<longleftrightarrow> (65 \<le> (of_char c :: nat) \<and> (of_char c :: nat) \<le> 90)
     \<or> (97 \<le> (of_char c :: nat) \<and> (of_char c :: nat) \<le> 122)"

text \<open>
  \<^verbatim>\<open>pj_strtoul\<close>, and \<^verbatim>\<open>pj_strtoul2\<close> with base 10: the leading digits, here already cut to the
  \<^verbatim>\<open>unsigned\<close> every caller stores it in.
\<close>

definition pj_strtoul :: "string \<Rightarrow> 32 word" where
  "pj_strtoul s = foldl (\<lambda>v c. v * 10 + of_nat (of_char c - 48)) 0 (takeWhile pj_isdigit s)"

text \<open>The character \<^verbatim>\<open>digval + '0'\<close>.\<close>

definition digit :: "nat \<Rightarrow> char" where
  "digit digval = ''0123456789'' ! digval"

text \<open>The loop of \<^verbatim>\<open>pj_utoa_pad\<close> writes the digits from the last to the first and then reverses them.\<close>

function utoa_digits :: "nat \<Rightarrow> string" where
  "utoa_digits val =
     digit (val mod 10) # (if val div 10 > 0 then utoa_digits (val div 10) else [])"
  by pat_completeness auto
termination by (relation "measure id") auto

declare utoa_digits.simps [simp del]

definition pj_utoa :: "nat \<Rightarrow> string" where
  "pj_utoa val = rev (utoa_digits val)"

section \<open>The scanner\<close>

abbreviation NUL :: char where "NUL \<equiv> CHR 0x00"
abbreviation TAB :: char where "TAB \<equiv> CHR 0x09"
abbreviation LF :: char where "LF \<equiv> CHR 0x0A"
abbreviation CR :: char where "CR \<equiv> CHR 0x0D"

text \<open>\<^verbatim>\<open>curptr[n]\<close>, for \<open>n\<close> up to the distance to the end.\<close>

definition peek :: "nat \<Rightarrow> string \<Rightarrow> char" where
  "peek n s = (if n < length s then s ! n else NUL)"

definition pj_scan_skip_whitespace :: "string \<Rightarrow> string" where
  "pj_scan_skip_whitespace = dropWhile (\<lambda>c. c = CHR '' '' \<or> c = TAB)"

definition probably_space :: "char \<Rightarrow> bool" where
  "probably_space c \<longleftrightarrow> (of_char c :: nat) \<le> 32"

definition auto_skip :: "bool \<Rightarrow> string \<Rightarrow> string" where
  "auto_skip ws s = (if probably_space (peek 0 s) \<and> ws then pj_scan_skip_whitespace s else s)"

definition pj_scan_get :: "bool \<Rightarrow> (char \<Rightarrow> bool) \<Rightarrow> string \<Rightarrow> (string \<times> string) option" where
  "pj_scan_get ws spec s =
     (if \<not> spec (peek 0 s) then None else Some (takeWhile spec s, auto_skip ws (dropWhile spec s)))"

definition pj_scan_get_char :: "bool \<Rightarrow> string \<Rightarrow> (char \<times> string) option" where
  "pj_scan_get_char ws s = (if peek 0 s = NUL then None else Some (peek 0 s, auto_skip ws (drop 1 s)))"

definition pj_scan_get_newline :: "string \<Rightarrow> string option" where
  "pj_scan_get_newline s =
     (if \<not> (peek 0 s = CR \<or> peek 0 s = LF) then None
      else
        let s = (if peek 0 s = CR then drop 1 s else s)
        in Some (if peek 0 s = LF then drop 1 s else s))"

definition pj_scan_get_until_ch :: "char \<Rightarrow> string \<Rightarrow> (string \<times> string) option" where
  "pj_scan_get_until_ch until_char s =
     (if s = [] then None
      else Some (takeWhile (\<lambda>c. c \<noteq> until_char) s, dropWhile (\<lambda>c. c \<noteq> until_char) s))"

definition pj_scan_get_until_chr :: "string \<Rightarrow> string \<Rightarrow> (string \<times> string) option" where
  "pj_scan_get_until_chr until_spec s =
     (if s = [] then None
      else Some (takeWhile (\<lambda>c. c \<notin> set until_spec) s, dropWhile (\<lambda>c. c \<notin> set until_spec) s))"

definition pj_scan_advance_n :: "nat \<Rightarrow> string \<Rightarrow> string option" where
  "pj_scan_advance_n n s = (if n > length s then None else Some (drop n s))"

text \<open>\<^verbatim>\<open>strchr\<close> stops at a NUL in the text; then, as without a newline, the rest of the buffer is skipped.\<close>

definition pj_scan_skip_line :: "string \<Rightarrow> string" where
  "pj_scan_skip_line s =
     (let r = dropWhile (\<lambda>c. c \<noteq> LF \<and> c \<noteq> NUL) s
      in if peek 0 r = LF then drop 1 r else [])"

section \<open>Numbers read back\<close>

lemma digit_char: "d < 10 \<Longrightarrow> pj_isdigit (digit d) \<and> of_char (digit d) = d + 48"
  by (auto simp: pj_isdigit_def digit_def less_Suc_eq numeral_eq_Suc)

lemma utoa_all_digits: "c \<in> set (utoa_digits n) \<Longrightarrow> pj_isdigit c"
proof (induction n rule: utoa_digits.induct)
  case (1 n)
  have "pj_isdigit (digit (n mod 10))" by (simp add: digit_char)
  then show ?case using 1 by (subst (asm) (2) utoa_digits.simps) (auto split: if_splits)
qed

lemma utoa_digits_only [simp]: "c \<in> set (pj_utoa n) \<Longrightarrow> pj_isdigit c"
  by (simp add: pj_utoa_def utoa_all_digits)

lemma utoa_nonempty [simp]: "pj_utoa n \<noteq> []"
  unfolding pj_utoa_def by (subst utoa_digits.simps) simp

lemma utoa_value:
  "foldr (\<lambda>c v. v * 10 + of_nat (of_char c - 48)) (utoa_digits n) (0 :: 32 word) = of_nat n"
proof (induction n rule: utoa_digits.induct)
  case (1 n)
  have "n = n div 10 * 10 + n mod 10" by simp
  then have n: "(of_nat n :: 32 word) = of_nat (n div 10) * 10 + of_nat (n mod 10)"
    by (metis of_nat_add of_nat_mult of_nat_numeral)
  show ?case
  proof (cases "n div 10 > 0")
    case True
    then show ?thesis using 1 [OF True] n by (subst utoa_digits.simps) (simp add: digit_char)
  next
    case False
    then show ?thesis using n by (subst utoa_digits.simps) (simp add: digit_char)
  qed
qed

lemma strtoul_utoa [simp]: "pj_strtoul (pj_utoa n) = of_nat n"
proof -
  have t: "takeWhile pj_isdigit (pj_utoa n) = pj_utoa n" by (simp add: takeWhile_eq_all_conv)
  have "pj_strtoul (pj_utoa n) = foldr (\<lambda>c v. v * 10 + of_nat (of_char c - 48)) (rev (pj_utoa n)) 0"
    by (simp only: pj_strtoul_def t foldl_conv_foldr)
  then show ?thesis by (simp add: pj_utoa_def utoa_value)
qed

section \<open>Reading a known text\<close>

text \<open>What the scanner returns on a text that begins with a token and goes on with a delimiter.\<close>

lemma peek_simps [simp]:
  "peek 0 [] = NUL" "peek 0 (c # s) = c" "peek (Suc n) (c # s) = peek n s" "peek n [] = NUL"
  by (simp_all add: peek_def)

lemma get_token:
  assumes "t \<noteq> []" "\<forall>c\<in>set t. spec c" "\<not> spec (peek 0 s)"
  shows "pj_scan_get False spec (t @ s) = Some (t, s)"
proof -
  have t: "spec (peek 0 (t @ s))" using assms(1,2) by (cases t) auto
  have "takeWhile spec s = []" "dropWhile spec s = s" using assms(3) by (cases s; simp)+
  then show ?thesis using t assms(2) by (simp add: pj_scan_get_def auto_skip_def)
qed

lemma get_token_Cons [simp]:
  "t \<noteq> [] \<Longrightarrow> \<forall>c\<in>set t. spec c \<Longrightarrow> \<not> spec d \<Longrightarrow> pj_scan_get False spec (t @ d # s) = Some (t, d # s)"
  by (rule get_token) simp_all

lemma get_char_Cons [simp]: "c \<noteq> NUL \<Longrightarrow> pj_scan_get_char False (c # s) = Some (c, s)"
  by (simp add: pj_scan_get_char_def auto_skip_def)

lemma until_ch [simp]:
  assumes "u \<notin> set t"
  shows "pj_scan_get_until_ch u (t @ u # s) = Some (t, u # s)"
proof -
  have "\<forall>c\<in>set t. c \<noteq> u" using assms by auto
  then show ?thesis by (simp add: pj_scan_get_until_ch_def)
qed

lemma until_chr [simp]:
  assumes "\<forall>u\<in>set us. u \<notin> set t" "d \<in> set us"
  shows "pj_scan_get_until_chr us (t @ d # s) = Some (t, d # s)"
proof -
  have "\<forall>c\<in>set t. c \<notin> set us" using assms(1) by auto
  then show ?thesis
    using assms(2) by (simp add: pj_scan_get_until_chr_def)
qed

lemma advance_two [simp]: "pj_scan_advance_n 2 (a # b # s) = Some s"
  by (simp add: pj_scan_advance_n_def)

lemma skip_crlf [simp]: "pj_scan_skip_line (CR # LF # s) = s"
  by (simp add: pj_scan_skip_line_def)

lemma newline_crlf [simp]: "pj_scan_get_newline (CR # LF # s) = Some s"
  by (simp add: pj_scan_get_newline_def)

section \<open>Progress\<close>

text \<open>What is left after each operation; every one that reads a character leaves less.\<close>

lemma scan_shorter:
  "pj_scan_get ws spec s = Some (t, s') \<Longrightarrow> length s' \<le> length s"
  "pj_scan_get_char ws s = Some (c, s') \<Longrightarrow> length s' < length s"
  "pj_scan_get_until_ch u s = Some (t, s') \<Longrightarrow> length s' \<le> length s"
  "pj_scan_get_until_chr us s = Some (t, s') \<Longrightarrow> length s' \<le> length s"
  "pj_scan_advance_n n s = Some s' \<Longrightarrow> length s = length s' + n"
  "pj_scan_get_newline s = Some s' \<Longrightarrow> length s' < length s"
proof -
  have skip: "length (auto_skip ws r) \<le> length r" for r
    by (simp add: auto_skip_def pj_scan_skip_whitespace_def length_dropWhile_le)
  show "pj_scan_get ws spec s = Some (t, s') \<Longrightarrow> length s' \<le> length s"
    using skip [of "dropWhile spec s"] length_dropWhile_le [of spec s]
    by (auto simp: pj_scan_get_def split: if_splits)
  show "pj_scan_get_char ws s = Some (c, s') \<Longrightarrow> length s' < length s"
    using skip [of "drop 1 s"] by (cases s) (auto simp: pj_scan_get_char_def split: if_splits)
  show "pj_scan_get_newline s = Some s' \<Longrightarrow> length s' < length s"
    by (cases s) (auto simp: pj_scan_get_newline_def Let_def split: if_splits)
qed (auto simp: pj_scan_get_until_ch_def pj_scan_get_until_chr_def pj_scan_advance_n_def length_dropWhile_le
  split: if_splits)

lemma skip_line_shorter:
  "length (pj_scan_skip_line s) \<le> length s"
  "s \<noteq> [] \<Longrightarrow> length (pj_scan_skip_line s) < length s"
proof -
  have le: "length (dropWhile P s) \<le> length s" for P by (rule length_dropWhile_le)
  have "length (pj_scan_skip_line s) \<le> length s - 1"
    unfolding pj_scan_skip_line_def Let_def using diff_le_mono [OF le] by (simp del: length_dropWhile_le)
  then show "length (pj_scan_skip_line s) \<le> length s" "s \<noteq> [] \<Longrightarrow> length (pj_scan_skip_line s) < length s"
    by (cases s; simp)+
qed

end
