(* ===== verification/Sdp.thy ===== *)
theory Sdp
  imports Scanner
begin

text \<open>
  Session descriptions (\<^verbatim>\<open>pjmedia/sdp.c\<close>, \<^verbatim>\<open>pjmedia/sdp.h\<close>): the data, the attribute lists, the
  \<^verbatim>\<open>rtpmap\<close> and \<^verbatim>\<open>fmtp\<close> values, cloning, deactivation and validation. A \<^verbatim>\<open>pj_str_t\<close> is the list of its
  characters (none of them NUL), an array with its count is a list, a pointer to an attribute is its
  index in the list; every description has attributes of its own.
\<close>

section \<open>Strings\<close>

definition pj_tolower_char :: "char \<Rightarrow> nat" where
  "pj_tolower_char c = (if 65 \<le> (of_char c :: nat) \<and> (of_char c :: nat) \<le> 90 then of_char c + 32 else of_char c)"

text \<open>\<^verbatim>\<open>pj_isdigit(*s.ptr)\<close>.\<close>

definition first_digit :: "string \<Rightarrow> bool" where
  "first_digit s \<longleftrightarrow> s \<noteq> [] \<and> pj_isdigit (hd s)"

text \<open>Only whether the results of the comparisons are zero is used; \<^verbatim>\<open>pj_strcmp\<close> is equality.\<close>

definition pj_stricmp_eq :: "string \<Rightarrow> string \<Rightarrow> bool" where
  "pj_stricmp_eq s t \<longleftrightarrow> map pj_tolower_char s = map pj_tolower_char t"

section \<open>Data\<close>

record pjmedia_sdp_attr =
  attr_name :: string
  attr_value :: string

record pjmedia_sdp_rtpmap =
  rm_pt :: string
  rm_enc_name :: string
  rm_clock_rate :: "32 word"
  rm_param :: string

record pjmedia_sdp_fmtp =
  fm_fmt :: string
  fm_fmt_param :: string

record pjmedia_sdp_conn =
  conn_net_type :: string
  conn_addr_type :: string
  conn_addr :: string

record pjmedia_sdp_bandw =
  bw_modifier :: string
  bw_value :: "32 word"

record pjmedia_sdp_media =
  desc_media :: string
  desc_port :: "16 word"
  desc_port_count :: "32 word"
  desc_transport :: string
  desc_fmt :: "string list"
  m_conn :: "pjmedia_sdp_conn option"
  m_bandw :: "pjmedia_sdp_bandw list"
  m_attr :: "pjmedia_sdp_attr list"

record pjmedia_sdp_session =
  origin_user :: string
  origin_id :: "32 word"
  origin_version :: "32 word"
  origin_net_type :: string
  origin_addr_type :: string
  origin_addr :: string
  s_name :: string
  s_conn :: "pjmedia_sdp_conn option"
  s_bandw :: "pjmedia_sdp_bandw list"
  time_start :: "32 word"
  time_stop :: "32 word"
  s_attr :: "pjmedia_sdp_attr list"
  s_media :: "pjmedia_sdp_media list"

section \<open>Attributes\<close>

definition pjmedia_sdp_attr_create :: "string \<Rightarrow> string option \<Rightarrow> pjmedia_sdp_attr" where
  "pjmedia_sdp_attr_create name val = \<lparr>attr_name = name, attr_value = (case val of Some v \<Rightarrow> v | None \<Rightarrow> [])\<rparr>"

definition attr_matches :: "string \<Rightarrow> string option \<Rightarrow> pjmedia_sdp_attr \<Rightarrow> bool" where
  "attr_matches name c_fmt a \<longleftrightarrow> attr_name a = name \<and>
     (case c_fmt of None \<Rightarrow> True | Some fmt \<Rightarrow> pj_strtoul (attr_value a) = pj_strtoul fmt)"

fun pjmedia_sdp_attr_find :: "pjmedia_sdp_attr list \<Rightarrow> string \<Rightarrow> string option \<Rightarrow> nat option" where
  "pjmedia_sdp_attr_find [] name c_fmt = None"
| "pjmedia_sdp_attr_find (a # attrs) name c_fmt =
     (if attr_matches name c_fmt a then Some 0 else map_option Suc (pjmedia_sdp_attr_find attrs name c_fmt))"

definition pjmedia_sdp_attr_add :: "pjmedia_sdp_attr list \<Rightarrow> pjmedia_sdp_attr \<Rightarrow> pjmedia_sdp_attr list" where
  "pjmedia_sdp_attr_add attrs a = (if assert_fails (length attrs < 68) then attrs else attrs @ [a])"

definition pjmedia_sdp_attr_remove_all :: "pjmedia_sdp_attr list \<Rightarrow> string \<Rightarrow> pjmedia_sdp_attr list" where
  "pjmedia_sdp_attr_remove_all attrs name = filter (\<lambda>a. attr_name a \<noteq> name) attrs"

definition pjmedia_sdp_attr_remove :: "pjmedia_sdp_attr list \<Rightarrow> nat \<Rightarrow> pjmedia_sdp_attr list" where
  "pjmedia_sdp_attr_remove attrs i = take i attrs @ drop (Suc i) attrs"

definition pjmedia_sdp_media_find_attr2 :: "pjmedia_sdp_media \<Rightarrow> string \<Rightarrow> string option \<Rightarrow> nat option" where
  "pjmedia_sdp_media_find_attr2 m name fmt = pjmedia_sdp_attr_find (m_attr m) name fmt"

definition pjmedia_sdp_media_add_attr :: "pjmedia_sdp_media \<Rightarrow> pjmedia_sdp_attr \<Rightarrow> pjmedia_sdp_media" where
  "pjmedia_sdp_media_add_attr m a = m\<lparr>m_attr := pjmedia_sdp_attr_add (m_attr m) a\<rparr>"

definition pjmedia_sdp_media_remove_all_attr :: "pjmedia_sdp_media \<Rightarrow> string \<Rightarrow> pjmedia_sdp_media" where
  "pjmedia_sdp_media_remove_all_attr m name = m\<lparr>m_attr := pjmedia_sdp_attr_remove_all (m_attr m) name\<rparr>"

definition pjmedia_sdp_media_remove_attr :: "pjmedia_sdp_media \<Rightarrow> nat \<Rightarrow> pjmedia_sdp_media" where
  "pjmedia_sdp_media_remove_attr m i = m\<lparr>m_attr := pjmedia_sdp_attr_remove (m_attr m) i\<rparr>"

section \<open>The values of attributes\<close>

text \<open>The characters of \<^verbatim>\<open>cs_token\<close>; the class of the digits is \<open>pj_isdigit\<close>.\<close>

definition token_char :: "char \<Rightarrow> bool" where
  "token_char c \<longleftrightarrow> pj_isalpha c \<or> pj_isdigit c \<or> of_char c \<in> {33 :: nat, 35, 36, 37, 38, 39, 42, 43, 45, 46, 94, 95, 96, 123, 124, 125, 126}"

text \<open>
  What was read before an error stays in the structure: the negotiator uses it without looking at the
  status.
\<close>

definition rtpmap_rate :: "pjmedia_sdp_rtpmap \<Rightarrow> string \<Rightarrow> pj_status \<times> pjmedia_sdp_rtpmap" where
  "rtpmap_rate rm s =
     (case pj_scan_get True pj_isdigit s of
        None \<Rightarrow> (PJMEDIA_SDP_EINRTPMAP, rm)
      | Some (token, s) \<Rightarrow>
          let rm = rm\<lparr>rm_clock_rate := pj_strtoul token\<rparr>
          in (PJ_SUCCESS,
              if peek 0 s = CHR ''/'' then
                (case pj_scan_get_char True s of Some (_, s) \<Rightarrow> rm\<lparr>rm_param := s\<rparr> | None \<Rightarrow> rm)
              else rm))"

definition pjmedia_sdp_attr_get_rtpmap :: "pjmedia_sdp_attr \<Rightarrow> pj_status \<times> pjmedia_sdp_rtpmap" where
  "pjmedia_sdp_attr_get_rtpmap attr =
     (let rm = \<lparr>rm_pt = [], rm_enc_name = [], rm_clock_rate = 0, rm_param = []\<rparr>
      in case pj_scan_get True token_char (pj_scan_skip_whitespace (attr_value attr)) of
           None \<Rightarrow> (PJMEDIA_SDP_EINRTPMAP, rm)
         | Some (pt, s) \<Rightarrow>
             let rm = rm\<lparr>rm_pt := pt\<rparr>
             in case pj_scan_get True token_char s of
                  None \<Rightarrow> (PJMEDIA_SDP_EINRTPMAP, rm)
                | Some (name, s) \<Rightarrow>
                    let rm = rm\<lparr>rm_enc_name := name\<rparr>
                    in case pj_scan_get_char True s of
                         None \<Rightarrow> (PJMEDIA_SDP_EINRTPMAP, rm)
                       | Some (c, s) \<Rightarrow> if c \<noteq> CHR ''/'' then (PJMEDIA_SDP_EINRTPMAP, rm) else rtpmap_rate rm s)"

definition pjmedia_sdp_attr_get_fmtp :: "pjmedia_sdp_attr \<Rightarrow> pj_status + pjmedia_sdp_fmtp" where
  "pjmedia_sdp_attr_get_fmtp attr =
     (let token = takeWhile pj_isdigit (attr_value attr); p = dropWhile pj_isdigit (attr_value attr)
      in if token = [] then Inl PJMEDIA_SDP_EINFMTP
         else if p = [] \<or> hd p \<noteq> CHR '' '' then Inl PJMEDIA_SDP_EINFMTP
         else Inr \<lparr>fm_fmt = token, fm_fmt_param = tl p\<rparr>)"

section \<open>Copies\<close>

definition pjmedia_sdp_attr_clone :: "pjmedia_sdp_attr \<Rightarrow> pjmedia_sdp_attr" where
  "pjmedia_sdp_attr_clone rhs = \<lparr>attr_name = attr_name rhs, attr_value = attr_value rhs\<rparr>"

definition pjmedia_sdp_conn_clone :: "pjmedia_sdp_conn \<Rightarrow> pjmedia_sdp_conn" where
  "pjmedia_sdp_conn_clone rhs =
     \<lparr>conn_net_type = conn_net_type rhs, conn_addr_type = conn_addr_type rhs, conn_addr = conn_addr rhs\<rparr>"

definition pjmedia_sdp_bandw_clone :: "pjmedia_sdp_bandw \<Rightarrow> pjmedia_sdp_bandw" where
  "pjmedia_sdp_bandw_clone rhs = \<lparr>bw_modifier = bw_modifier rhs, bw_value = bw_value rhs\<rparr>"

definition pjmedia_sdp_media_clone :: "pjmedia_sdp_media \<Rightarrow> pjmedia_sdp_media" where
  "pjmedia_sdp_media_clone rhs =
     \<lparr>desc_media = desc_media rhs, desc_port = desc_port rhs, desc_port_count = desc_port_count rhs,
      desc_transport = desc_transport rhs, desc_fmt = map id (desc_fmt rhs),
      m_conn = map_option pjmedia_sdp_conn_clone (m_conn rhs), m_bandw = map pjmedia_sdp_bandw_clone (m_bandw rhs),
      m_attr = map pjmedia_sdp_attr_clone (m_attr rhs)\<rparr>"

definition pjmedia_sdp_session_clone :: "pjmedia_sdp_session \<Rightarrow> pjmedia_sdp_session" where
  "pjmedia_sdp_session_clone rhs =
     \<lparr>origin_user = origin_user rhs, origin_id = origin_id rhs, origin_version = origin_version rhs,
      origin_net_type = origin_net_type rhs, origin_addr_type = origin_addr_type rhs, origin_addr = origin_addr rhs,
      s_name = s_name rhs, s_conn = map_option pjmedia_sdp_conn_clone (s_conn rhs),
      s_bandw = map pjmedia_sdp_bandw_clone (s_bandw rhs), time_start = time_start rhs, time_stop = time_stop rhs,
      s_attr = map pjmedia_sdp_attr_clone (s_attr rhs), s_media = map pjmedia_sdp_media_clone (s_media rhs)\<rparr>"

definition pjmedia_sdp_media_deactivate :: "pjmedia_sdp_media \<Rightarrow> pjmedia_sdp_media" where
  "pjmedia_sdp_media_deactivate m = m\<lparr>desc_port := 0, m_attr := []\<rparr>"

definition pjmedia_sdp_media_clone_deactivate :: "pjmedia_sdp_media \<Rightarrow> pjmedia_sdp_media" where
  "pjmedia_sdp_media_clone_deactivate rhs =
     pjmedia_sdp_media_deactivate
       (rhs\<lparr>desc_fmt := map id (desc_fmt rhs), m_conn := map_option pjmedia_sdp_conn_clone (m_conn rhs),
            m_bandw := map pjmedia_sdp_bandw_clone (m_bandw rhs)\<rparr>)"

text \<open>Every member is copied.\<close>

lemma clones [simp]:
  "pjmedia_sdp_attr_clone a = a" "pjmedia_sdp_conn_clone c = c" "pjmedia_sdp_bandw_clone b = b"
  "pjmedia_sdp_media_clone m = m" "pjmedia_sdp_session_clone ses = ses"
proof -
  have a: "pjmedia_sdp_attr_clone = id" by (rule ext) (simp add: pjmedia_sdp_attr_clone_def)
  have c: "pjmedia_sdp_conn_clone = id" by (rule ext) (simp add: pjmedia_sdp_conn_clone_def)
  have b: "pjmedia_sdp_bandw_clone = id" by (rule ext) (simp add: pjmedia_sdp_bandw_clone_def)
  have m: "pjmedia_sdp_media_clone = id"
    by (rule ext) (simp add: pjmedia_sdp_media_clone_def a b c option.map_id)
  show "pjmedia_sdp_attr_clone a = a" "pjmedia_sdp_conn_clone c = c" "pjmedia_sdp_bandw_clone b = b"
    "pjmedia_sdp_media_clone m = m" "pjmedia_sdp_session_clone ses = ses"
    by (simp_all add: a b c m option.map_id pjmedia_sdp_session_clone_def)
qed

lemma clone_deactivate [simp]: "pjmedia_sdp_media_clone_deactivate m = pjmedia_sdp_media_deactivate m"
proof -
  have "pjmedia_sdp_conn_clone = id" "pjmedia_sdp_bandw_clone = id" by (auto simp: fun_eq_iff)
  then show ?thesis
    by (simp add: pjmedia_sdp_media_clone_deactivate_def pjmedia_sdp_media_deactivate_def option.map_id)
qed

section \<open>Validation and comparison\<close>

definition validate_sdp_conn :: "pjmedia_sdp_conn \<Rightarrow> pj_status" where
  "validate_sdp_conn c =
     (if conn_net_type c \<noteq> ''IN'' then PJMEDIA_SDP_EINCONN
      else if conn_addr_type c \<noteq> ''IP4'' \<and> conn_addr_type c \<noteq> ''IP6'' then PJMEDIA_SDP_EINCONN
      else if conn_addr c = [] then PJMEDIA_SDP_EINCONN
      else PJ_SUCCESS)"

fun validate_formats :: "pjmedia_sdp_media \<Rightarrow> string list \<Rightarrow> pj_status" where
  "validate_formats m [] = PJ_SUCCESS"
| "validate_formats m (fmt # fmts) =
     (if first_digit fmt then
        (if \<not> pj_strtoul fmt \<le> 127 then PJMEDIA_SDP_EINPT
         else if desc_port m \<noteq> 0 \<and> 96 \<le> pj_strtoul fmt
           \<and> pjmedia_sdp_media_find_attr2 m ''rtpmap'' (Some fmt) = None
         then PJMEDIA_SDP_EMISSINGRTPMAP
         else validate_formats m fmts)
      else validate_formats m fmts)"

definition validate_media :: "pjmedia_sdp_conn option \<Rightarrow> pjmedia_sdp_media \<Rightarrow> pj_status" where
  "validate_media session_conn m =
     (if desc_media m = [] then PJMEDIA_SDP_EINMEDIA
      else if desc_transport m = [] then PJMEDIA_SDP_EINMEDIA
      else if desc_fmt m = [] \<and> desc_port m \<noteq> 0 then PJMEDIA_SDP_ENOFMT
      else case m_conn m of
          Some c \<Rightarrow> (if validate_sdp_conn c \<noteq> PJ_SUCCESS then validate_sdp_conn c
                     else validate_formats m (desc_fmt m))
        | None \<Rightarrow> (if session_conn = None then PJMEDIA_SDP_EMISSINGCONN
                   else validate_formats m (desc_fmt m)))"

fun validate_medias :: "pjmedia_sdp_conn option \<Rightarrow> pjmedia_sdp_media list \<Rightarrow> pj_status" where
  "validate_medias session_conn [] = PJ_SUCCESS"
| "validate_medias session_conn (m # ms) =
     (if validate_media session_conn m \<noteq> PJ_SUCCESS then validate_media session_conn m
      else validate_medias session_conn ms)"

definition pjmedia_sdp_validate :: "pjmedia_sdp_session \<Rightarrow> pj_status" where
  "pjmedia_sdp_validate sdp =
     (if origin_user sdp = [] then PJMEDIA_SDP_EINORIGIN
      else if origin_net_type sdp \<noteq> ''IN'' then PJMEDIA_SDP_EINORIGIN
      else if origin_addr_type sdp \<noteq> ''IP4'' \<and> origin_addr_type sdp \<noteq> ''IP6'' then PJMEDIA_SDP_EINORIGIN
      else if origin_addr sdp = [] then PJMEDIA_SDP_EINORIGIN
      else if s_name sdp = [] then PJMEDIA_SDP_EINNAME
      else case s_conn sdp of
          Some c \<Rightarrow> (if validate_sdp_conn c \<noteq> PJ_SUCCESS then validate_sdp_conn c
                     else validate_medias (s_conn sdp) (s_media sdp))
        | None \<Rightarrow> validate_medias None (s_media sdp))"

definition pjmedia_sdp_transport_cmp :: "string \<Rightarrow> string \<Rightarrow> pj_status" where
  "pjmedia_sdp_transport_cmp t1 t2 =
     (if pj_stricmp_eq t1 t2 then PJ_SUCCESS
      else if (pj_stricmp_eq t1 ''RTP/AVP'' \<or> pj_stricmp_eq t1 ''RTP/SAVP'')
        \<and> (pj_stricmp_eq t2 ''RTP/AVP'' \<or> pj_stricmp_eq t2 ''RTP/SAVP'') then PJ_SUCCESS
      else PJMEDIA_SDP_ETPORTNOTEQUAL)"

section \<open>Lookup\<close>

lemma attr_find_Some:
  "pjmedia_sdp_attr_find attrs name c_fmt = Some i \<Longrightarrow>
   i < length attrs \<and> attr_matches name c_fmt (attrs ! i) \<and> (\<forall>k<i. \<not> attr_matches name c_fmt (attrs ! k))"
proof (induction attrs arbitrary: i)
  case (Cons a attrs)
  then show ?case by (cases i) (auto split: if_splits simp: less_Suc_eq_0_disj)
qed simp

lemma attr_find_None:
  "pjmedia_sdp_attr_find attrs name c_fmt = None \<longleftrightarrow> (\<forall>a\<in>set attrs. \<not> attr_matches name c_fmt a)"
  by (induction attrs) auto

end
