(* ===== verification/Sdp_Text.thy ===== *)
theory Sdp_Text
  imports Sdp
begin

text \<open>
  The text of a session description: printing, parsing and the \<^verbatim>\<open>rtcp\<close> and \<^verbatim>\<open>rtpmap\<close> attributes
  (\<^verbatim>\<open>pjmedia/sdp.c\<close>). A write behind the end of the buffer or of an array is \<open>Overrun\<close>: the checks
  that the code makes are modelled as they are, and some are too weak.
\<close>

section \<open>Capacities\<close>

definition PJMEDIA_MAX_SDP_FMT :: nat where "PJMEDIA_MAX_SDP_FMT = 32"
definition PJMEDIA_MAX_SDP_BANDW :: nat where "PJMEDIA_MAX_SDP_BANDW = 4"
definition PJMEDIA_MAX_SDP_ATTR :: nat where "PJMEDIA_MAX_SDP_ATTR = PJMEDIA_MAX_SDP_FMT * 2 + 4"
definition PJMEDIA_MAX_SDP_MEDIA :: nat where "PJMEDIA_MAX_SDP_MEDIA = 16"

lemmas capacities = PJMEDIA_MAX_SDP_FMT_def PJMEDIA_MAX_SDP_BANDW_def PJMEDIA_MAX_SDP_ATTR_def
  PJMEDIA_MAX_SDP_MEDIA_def

section \<open>Printing\<close>

text \<open>
  A printer gets the size of the whole buffer and what has been printed into it; the functions of the code
  get the rest of both. \<open>Too_small\<close> is the result -1.
\<close>

datatype print_result = Printed string | Too_small | Overrun

fun and_then :: "print_result \<Rightarrow> (string \<Rightarrow> print_result) \<Rightarrow> print_result" where
  "and_then (Printed p) f = f p"
| "and_then Too_small f = Too_small"
| "and_then Overrun f = Overrun"

fun print_all :: "('a \<Rightarrow> string \<Rightarrow> print_result) \<Rightarrow> 'a list \<Rightarrow> string \<Rightarrow> print_result" where
  "print_all f [] p = Printed p"
| "print_all f (x # xs) p = and_then (f x p) (print_all f xs)"

text \<open>Characters written one after the other, without a check of their own.\<close>

definition put :: "nat \<Rightarrow> string \<Rightarrow> string \<Rightarrow> print_result" where
  "put len t p = (if length p + length t \<le> len then Printed (p @ t) else Overrun)"

definition room :: "nat \<Rightarrow> string \<Rightarrow> int" where
  "room len p = int len - int (length p)"

text \<open>
  \<^verbatim>\<open>%.*s\<close> stops at a NUL. \<^verbatim>\<open>pj_ansi_snprintf\<close> ends what it writes with a NUL, within the room it has:
  when the text fills the room exactly, the code takes the NUL for the last character.
\<close>

definition cstr :: "string \<Rightarrow> string" where
  "cstr s = takeWhile (\<lambda>c. c \<noteq> NUL) s"

definition print_connection_info :: "nat \<Rightarrow> pjmedia_sdp_conn \<Rightarrow> string \<Rightarrow> print_result" where
  "print_connection_info len c p =
     (let t = ''c='' @ cstr (conn_net_type c) @ '' '' @ cstr (conn_addr_type c) @ '' '' @ cstr (conn_addr c) @ [CR, LF];
          printed = int (length t)
      in if printed < 1 \<or> printed > room len p then Too_small
         else if printed = room len p then Printed (p @ butlast t @ [NUL])
         else Printed (p @ t))"

definition print_bandw :: "nat \<Rightarrow> pjmedia_sdp_bandw \<Rightarrow> string \<Rightarrow> print_result" where
  "print_bandw len bandw p =
     (if room len p < int (length (bw_modifier bandw)) + 10 + 5 then Too_small
      else put len (''b='' @ bw_modifier bandw @ '':'' @ pj_utoa (unat (bw_value bandw)) @ [CR, LF]) p)"

definition print_attr :: "nat \<Rightarrow> pjmedia_sdp_attr \<Rightarrow> string \<Rightarrow> print_result" where
  "print_attr len attr p =
     (if room len p < int (length (attr_name attr)) + int (length (attr_value attr)) + 10 then Too_small
      else put len (''a='' @ attr_name attr @ (if attr_value attr \<noteq> [] then '':'' @ attr_value attr else [])
        @ [CR, LF]) p)"

text \<open>The check for the media line does not count the formats.\<close>

definition print_media_desc :: "nat \<Rightarrow> pjmedia_sdp_media \<Rightarrow> string \<Rightarrow> print_result" where
  "print_media_desc len m p =
     (if room len p < int (length (desc_media m)) + int (length (desc_transport m)) + 12 + 24 then Too_small
      else
        and_then (and_then (and_then
          (put len (''m='' @ desc_media m @ '' '' @ pj_utoa (unat (desc_port m))
             @ (if desc_port_count m > 1 then ''/'' @ pj_utoa (unat (desc_port_count m)) else [])
             @ '' '' @ desc_transport m @ concat (map (\<lambda>fmt. '' '' @ fmt) (desc_fmt m)) @ [CR, LF]) p)
          (\<lambda>p. case m_conn m of Some c \<Rightarrow> print_connection_info len c p | None \<Rightarrow> Printed p))
          (print_all (print_bandw len) (m_bandw m)))
          (print_all (print_attr len) (m_attr m)))"

text \<open>The check for the origin line leaves out the address type and counts 18 characters for the rest.\<close>

definition print_session :: "nat \<Rightarrow> pjmedia_sdp_session \<Rightarrow> print_result" where
  "print_session len ses =
     (if int len < 5 + 2 + int (length (origin_user ses)) + 18 + int (length (origin_net_type ses))
        + int (length (origin_addr ses)) + 2 then Too_small
      else
        and_then (and_then (and_then (and_then (and_then (and_then
          (put len (''v=0'' @ [CR, LF] @ ''o='' @ origin_user ses @ '' '' @ pj_utoa (unat (origin_id ses)) @ '' ''
             @ pj_utoa (unat (origin_version ses)) @ '' '' @ origin_net_type ses @ '' '' @ origin_addr_type ses
             @ '' '' @ origin_addr ses @ [CR, LF]) [])
          (\<lambda>p. if room len p < 8 + int (length (s_name ses)) then Too_small
                else put len (''s='' @ s_name ses @ [CR, LF]) p))
          (\<lambda>p. case s_conn ses of Some c \<Rightarrow> print_connection_info len c p | None \<Rightarrow> Printed p))
          (print_all (print_bandw len) (s_bandw ses)))
          (\<lambda>p. if room len p < 24 then Too_small
                else put len (''t='' @ pj_utoa (unat (time_start ses)) @ '' '' @ pj_utoa (unat (time_stop ses))
                  @ [CR, LF]) p))
          (print_all (print_attr len) (s_attr ses)))
          (print_all (print_media_desc len) (s_media ses)))"

definition pjmedia_sdp_print :: "pjmedia_sdp_session \<Rightarrow> nat \<Rightarrow> print_result" where
  "pjmedia_sdp_print desc buf_size = print_session buf_size desc"

section \<open>Parsing\<close>

text \<open>
  A parsed line is its result and the text behind it. Every line parser sets \<^verbatim>\<open>ctx.last_error\<close> before it
  reads; the status is named where the parsers are put together.
\<close>

definition need :: "bool \<Rightarrow> unit option" where
  "need b = (if b then Some () else None)"

definition parse_version :: "string \<Rightarrow> string option" where
  "parse_version s = do {
     need (peek 1 s = CHR ''='');
     need (peek 2 s = CHR ''0'');
     Some (pj_scan_skip_line s) }"

definition parse_origin :: "pjmedia_sdp_session \<Rightarrow> string \<Rightarrow> (pjmedia_sdp_session \<times> string) option" where
  "parse_origin ses s = do {
     need (peek 1 s = CHR ''='');
     s \<leftarrow> pj_scan_advance_n 2 s;
     (user, s) \<leftarrow> pj_scan_get_until_ch CHR '' '' s;
     (_, s) \<leftarrow> pj_scan_get_char False s;
     (id, s) \<leftarrow> pj_scan_get_until_ch CHR '' '' s;
     (_, s) \<leftarrow> pj_scan_get_char False s;
     (version, s) \<leftarrow> pj_scan_get_until_ch CHR '' '' s;
     (_, s) \<leftarrow> pj_scan_get_char False s;
     (net_type, s) \<leftarrow> pj_scan_get_until_ch CHR '' '' s;
     (_, s) \<leftarrow> pj_scan_get_char False s;
     (addr_type, s) \<leftarrow> pj_scan_get_until_ch CHR '' '' s;
     (_, s) \<leftarrow> pj_scan_get_char False s;
     (addr, s) \<leftarrow> pj_scan_get_until_chr [CHR '' '', TAB, CR, LF] s;
     Some (ses\<lparr>origin_user := user, origin_id := pj_strtoul id, origin_version := pj_strtoul version,
               origin_net_type := net_type, origin_addr_type := addr_type, origin_addr := addr\<rparr>,
           pj_scan_skip_line s) }"

definition parse_time :: "pjmedia_sdp_session \<Rightarrow> string \<Rightarrow> (pjmedia_sdp_session \<times> string) option" where
  "parse_time ses s = do {
     need (peek 1 s = CHR ''='');
     s \<leftarrow> pj_scan_advance_n 2 s;
     (start, s) \<leftarrow> pj_scan_get_until_ch CHR '' '' s;
     (_, s) \<leftarrow> pj_scan_get_char False s;
     (stop, s) \<leftarrow> pj_scan_get_until_chr [CHR '' '', TAB, CR, LF] s;
     Some (ses\<lparr>time_start := pj_strtoul start, time_stop := pj_strtoul stop\<rparr>, pj_scan_skip_line s) }"

definition parse_generic_line :: "string \<Rightarrow> (string \<times> string) option" where
  "parse_generic_line s = do {
     need (peek 1 s = CHR ''='');
     s \<leftarrow> pj_scan_advance_n 2 s;
     (str, s) \<leftarrow> pj_scan_get_until_chr [CR, LF] s;
     s \<leftarrow> pj_scan_get_newline s;
     Some (str, s) }"

definition parse_connection_info :: "string \<Rightarrow> (pjmedia_sdp_conn \<times> string) option" where
  "parse_connection_info s = do {
     s \<leftarrow> pj_scan_advance_n 2 s;
     (net_type, s) \<leftarrow> pj_scan_get_until_ch CHR '' '' s;
     (_, s) \<leftarrow> pj_scan_get_char False s;
     (addr_type, s) \<leftarrow> pj_scan_get_until_ch CHR '' '' s;
     (_, s) \<leftarrow> pj_scan_get_char False s;
     (addr, s) \<leftarrow> pj_scan_get_until_chr [CHR ''/'', CHR '' '', TAB, CR, LF] s;
     Some (\<lparr>conn_net_type = net_type, conn_addr_type = addr_type, conn_addr = addr\<rparr>, pj_scan_skip_line s) }"

definition parse_bandwidth_info :: "string \<Rightarrow> (pjmedia_sdp_bandw \<times> string) option" where
  "parse_bandwidth_info s = do {
     s \<leftarrow> pj_scan_advance_n 2 s;
     (modifier, s) \<leftarrow> pj_scan_get_until_ch CHR '':'' s;
     (_, s) \<leftarrow> pj_scan_get_char False s;
     (str, s) \<leftarrow> pj_scan_get_until_chr [CHR '' '', TAB, CR, LF] s;
     Some (\<lparr>bw_modifier = modifier, bw_value = pj_strtoul str\<rparr>, pj_scan_skip_line s) }"

text \<open>The formats of a media line; those beyond the capacity are read and dropped.\<close>

function parse_formats :: "string list \<Rightarrow> string \<Rightarrow> (string list \<times> string) option" where
  "parse_formats fmts s =
     (if peek 0 s = CHR '' '' then
        (case pj_scan_get_char False s of
           None \<Rightarrow> None
         | Some (_, s1) \<Rightarrow>
             if peek 0 s1 = CR \<or> peek 0 s1 = LF then Some (fmts, s1)
             else
               (case pj_scan_get False token_char s1 of
                  None \<Rightarrow> None
                | Some (fmt, s2) \<Rightarrow>
                    parse_formats (if length fmts < PJMEDIA_MAX_SDP_FMT then fmts @ [fmt] else fmts) s2))
      else Some (fmts, s))"
  by pat_completeness auto
termination
  by (relation "measure (\<lambda>(fmts, s). length s)") (auto dest!: scan_shorter)

declare parse_formats.simps [simp del]

definition zero_media :: pjmedia_sdp_media where
  "zero_media = \<lparr>desc_media = [], desc_port = 0, desc_port_count = 0, desc_transport = [], desc_fmt = [],
     m_conn = None, m_bandw = [], m_attr = []\<rparr>"

definition parse_media :: "string \<Rightarrow> (pjmedia_sdp_media \<times> string) option" where
  "parse_media s = do {
     need (peek 1 s = CHR ''='');
     s \<leftarrow> pj_scan_advance_n 2 s;
     (media, s) \<leftarrow> pj_scan_get_until_ch CHR '' '' s;
     (_, s) \<leftarrow> pj_scan_get_char False s;
     (port, s) \<leftarrow> pj_scan_get False token_char s;
     (port_count, s) \<leftarrow>
       (if peek 0 s = CHR ''/'' then do {
          (_, s) \<leftarrow> pj_scan_get_char False s;
          (str, s) \<leftarrow> pj_scan_get False token_char s;
          Some (pj_strtoul str, s) }
        else Some (0, s));
     (c, s) \<leftarrow> pj_scan_get_char False s;
     need (c = CHR '' '');
     (transport, s) \<leftarrow> pj_scan_get_until_chr [CHR '' '', TAB, CR, LF] s;
     (fmts, s) \<leftarrow> parse_formats [] s;
     Some (zero_media\<lparr>desc_media := media, desc_port := ucast (pj_strtoul port), desc_port_count := port_count,
             desc_transport := transport, desc_fmt := fmts\<rparr>, pj_scan_skip_line s) }"

definition parse_attr :: "string \<Rightarrow> (pjmedia_sdp_attr \<times> string) option" where
  "parse_attr s = do {
     need (peek 1 s = CHR ''='');
     s \<leftarrow> pj_scan_advance_n 2 s;
     (name, s) \<leftarrow> pj_scan_get False token_char s;
     (val, s) \<leftarrow>
       (if peek 0 s \<noteq> NUL \<and> peek 0 s \<noteq> CR \<and> peek 0 s \<noteq> LF then do {
          s \<leftarrow> (if peek 0 s = CHR '':'' then map_option snd (pj_scan_get_char False s) else Some s);
          (if peek 0 s \<noteq> CR \<and> peek 0 s \<noteq> LF then pj_scan_get_until_chr [CR, LF] s else Some ([], s)) }
        else Some ([], s));
     Some (\<lparr>attr_name = name, attr_value = val\<rparr>, pj_scan_skip_line s) }"

text \<open>
  The state of the line loop: the session without its media lines, and all media lines so far. The last one is
  \<^verbatim>\<open>media\<close>; one beyond the capacity of the session is parsed like the others but not kept.
\<close>

record sdp_parser =
  p_session :: pjmedia_sdp_session
  p_medias :: "pjmedia_sdp_media list"

definition zero_session :: pjmedia_sdp_session where
  "zero_session = \<lparr>origin_user = [], origin_id = 0, origin_version = 0, origin_net_type = [], origin_addr_type = [],
     origin_addr = [], s_name = [], s_conn = None, s_bandw = [], time_start = 0, time_stop = 0, s_attr = [],
     s_media = []\<rparr>"

definition on_media :: "(pjmedia_sdp_media \<Rightarrow> pjmedia_sdp_media) \<Rightarrow> sdp_parser \<Rightarrow> sdp_parser" where
  "on_media f P = P\<lparr>p_medias := butlast (p_medias P) @ [f (last (p_medias P))]\<rparr>"

definition on_session :: "(pjmedia_sdp_session \<Rightarrow> pjmedia_sdp_session) \<Rightarrow> sdp_parser \<Rightarrow> sdp_parser" where
  "on_session f P = P\<lparr>p_session := f (p_session P)\<rparr>"

text \<open>
  The result of a step: the code goes on, throws with \<^verbatim>\<open>last_error\<close>, or writes behind an array. The check
  in \<^verbatim>\<open>pjmedia_sdp_attr_add\<close> is an assertion; there is none for bandwidth lines.
\<close>

datatype 'a parse_result = Going 'a | Thrown pj_status | Array_overrun

definition line :: "pj_status \<Rightarrow> ('a \<times> string) option \<Rightarrow> ('a \<Rightarrow> sdp_parser parse_result)
    \<Rightarrow> (sdp_parser \<times> string) parse_result" where
  "line last_error r f =
     (case r of
        None \<Rightarrow> Thrown last_error
      | Some (x, s) \<Rightarrow>
          (case f x of Going P \<Rightarrow> Going (P, s) | Thrown st \<Rightarrow> Thrown st | Array_overrun \<Rightarrow> Array_overrun))"

definition add_attr :: "pjmedia_sdp_attr \<Rightarrow> sdp_parser \<Rightarrow> sdp_parser parse_result" where
  "add_attr a P =
     (let attrs = (if p_medias P \<noteq> [] then m_attr (last (p_medias P)) else s_attr (p_session P))
      in if length attrs \<ge> PJMEDIA_MAX_SDP_ATTR then Array_overrun
         else if p_medias P \<noteq> [] then Going (on_media (\<lambda>m. m\<lparr>m_attr := attrs @ [a]\<rparr>) P)
         else Going (on_session (\<lambda>ses. ses\<lparr>s_attr := attrs @ [a]\<rparr>) P))"

definition add_bandw :: "pjmedia_sdp_bandw \<Rightarrow> sdp_parser \<Rightarrow> sdp_parser parse_result" where
  "add_bandw b P =
     (let bandws = (if p_medias P \<noteq> [] then m_bandw (last (p_medias P)) else s_bandw (p_session P))
      in if length bandws \<ge> PJMEDIA_MAX_SDP_BANDW then Array_overrun
         else if p_medias P \<noteq> [] then Going (on_media (\<lambda>m. m\<lparr>m_bandw := bandws @ [b]\<rparr>) P)
         else Going (on_session (\<lambda>ses. ses\<lparr>s_bandw := bandws @ [b]\<rparr>) P))"

definition set_conn :: "pjmedia_sdp_conn \<Rightarrow> sdp_parser \<Rightarrow> sdp_parser" where
  "set_conn c P =
     (if p_medias P \<noteq> [] then on_media (\<lambda>m. m\<lparr>m_conn := Some c\<rparr>) P
      else on_session (\<lambda>ses. ses\<lparr>s_conn := Some c\<rparr>) P)"

text \<open>Empty lines, which must be the last ones: the whole rest is read.\<close>

fun only_newlines :: "string \<Rightarrow> bool" where
  "only_newlines [] = True"
| "only_newlines (c # s) = ((c = CR \<or> c = LF) \<and> only_newlines s)"

definition parse_line :: "string \<Rightarrow> sdp_parser \<Rightarrow> (sdp_parser \<times> string) parse_result" where
  "parse_line s P =
     (let cur_name = peek 0 s
      in if cur_name = CHR ''a'' then line PJMEDIA_SDP_EINATTR (parse_attr s) (\<lambda>a. add_attr a P)
         else if cur_name = CHR ''o'' then
           line PJMEDIA_SDP_EINORIGIN (parse_origin (p_session P) s) (\<lambda>ses. Going (P\<lparr>p_session := ses\<rparr>))
         else if cur_name = CHR ''s'' then
           line PJMEDIA_SDP_EINSDP (parse_generic_line s) (\<lambda>name. Going (on_session (\<lambda>ses. ses\<lparr>s_name := name\<rparr>) P))
         else if cur_name = CHR ''c'' then
           line PJMEDIA_SDP_EINCONN (parse_connection_info s) (\<lambda>c. Going (set_conn c P))
         else if cur_name = CHR ''t'' then
           line PJMEDIA_SDP_EINTIME (parse_time (p_session P) s) (\<lambda>ses. Going (P\<lparr>p_session := ses\<rparr>))
         else if cur_name = CHR ''m'' then
           line PJMEDIA_SDP_EINMEDIA (parse_media s) (\<lambda>m. Going (P\<lparr>p_medias := p_medias P @ [m]\<rparr>))
         else if cur_name = CHR ''v'' then
           line PJMEDIA_SDP_EINVER (map_option (Pair ()) (parse_version s)) (\<lambda>_. Going P)
         else if cur_name = CR \<or> cur_name = LF then
           (if only_newlines s then Going (P, []) else Thrown PJMEDIA_SDP_EINSDP)
         else if cur_name = CHR ''b'' then
           line PJMEDIA_SDP_EINBANDW (parse_bandwidth_info s) (\<lambda>b. add_bandw b P)
         else if 97 \<le> (of_char cur_name :: nat) \<and> (of_char cur_name :: nat) \<le> 122 then
           line PJMEDIA_SDP_EINSDP (parse_generic_line s) (\<lambda>_. Going P)
         else Thrown PJMEDIA_SDP_EINSDP)"

text \<open>Every line parser leaves less than it got, so that the loop over the lines ends.\<close>

lemma need_Some [simp]: "need b = Some u \<longleftrightarrow> b"
  by (simp add: need_def)

lemma bind_Some_iff: "Option.bind x f = Some y \<longleftrightarrow> (\<exists>a. x = Some a \<and> f a = Some y)"
  by (cases x) simp_all

lemma parse_formats_shorter: "parse_formats fmts s = Some (fmts', s') \<Longrightarrow> length s' \<le> length s"
proof (induction fmts s rule: parse_formats.induct)
  case (1 fmts s)
  show ?case
    using 1(2) 1(1) by (subst (asm) (1) parse_formats.simps)
      (fastforce dest: scan_shorter split: if_splits option.splits prod.splits)
qed

lemma line_parsers_shorter:
  "parse_version s = Some s' \<Longrightarrow> length s' < length s"
  "parse_origin ses s = Some (ses', s') \<Longrightarrow> length s' < length s"
  "parse_time ses s = Some (ses', s') \<Longrightarrow> length s' < length s"
  "parse_generic_line s = Some (t, s') \<Longrightarrow> length s' < length s"
  "parse_connection_info s = Some (c, s') \<Longrightarrow> length s' < length s"
  "parse_bandwidth_info s = Some (b, s') \<Longrightarrow> length s' < length s"
  "parse_media s = Some (m, s') \<Longrightarrow> length s' < length s"
  "parse_attr s = Some (a, s') \<Longrightarrow> length s' < length s"
proof -
  show "parse_version s = Some s' \<Longrightarrow> length s' < length s"
    using skip_line_shorter(2) [of s] by (cases "s = []") (auto simp: parse_version_def bind_Some_iff)
  show "parse_origin ses s = Some (ses', s') \<Longrightarrow> length s' < length s"
    by (auto simp: parse_origin_def bind_Some_iff intro!: le_less_trans [OF skip_line_shorter(1)] dest!: scan_shorter)
  show "parse_time ses s = Some (ses', s') \<Longrightarrow> length s' < length s"
    by (auto simp: parse_time_def bind_Some_iff intro!: le_less_trans [OF skip_line_shorter(1)] dest!: scan_shorter)
  show "parse_generic_line s = Some (t, s') \<Longrightarrow> length s' < length s"
    by (auto simp: parse_generic_line_def bind_Some_iff dest!: scan_shorter)
  show "parse_connection_info s = Some (c, s') \<Longrightarrow> length s' < length s"
    by (auto simp: parse_connection_info_def bind_Some_iff intro!: le_less_trans [OF skip_line_shorter(1)]
        dest!: scan_shorter)
  show "parse_bandwidth_info s = Some (b, s') \<Longrightarrow> length s' < length s"
    by (auto simp: parse_bandwidth_info_def bind_Some_iff intro!: le_less_trans [OF skip_line_shorter(1)]
        dest!: scan_shorter)
  show "parse_media s = Some (m, s') \<Longrightarrow> length s' < length s"
    by (auto simp: parse_media_def bind_Some_iff intro!: le_less_trans [OF skip_line_shorter(1)]
        dest!: scan_shorter parse_formats_shorter split: if_splits)
  show "parse_attr s = Some (a, s') \<Longrightarrow> length s' < length s"
    by (auto simp: parse_attr_def bind_Some_iff intro!: le_less_trans [OF skip_line_shorter(1)]
        dest!: scan_shorter split: if_splits)
qed

lemma parse_line_shorter:
  assumes "parse_line s P = Going (P', s')" "s \<noteq> []"
  shows "length s' < length s"
proof -
  have l: "line st r f = Going (P', s') \<Longrightarrow> \<exists>x. r = Some (x, s')" for st and r :: "('b \<times> string) option" and f
    by (auto simp: line_def split: option.splits parse_result.splits)
  show ?thesis
    using assms unfolding parse_line_def Let_def
    by (auto dest!: l dest: line_parsers_shorter split: if_splits)
qed

function parse_lines :: "string \<Rightarrow> sdp_parser \<Rightarrow> sdp_parser parse_result" where
  "parse_lines s P =
     (if s = [] then Going P
      else case parse_line s P of
          Going (P, s) \<Rightarrow> parse_lines s P
        | Thrown st \<Rightarrow> Thrown st
        | Array_overrun \<Rightarrow> Array_overrun)"
  by pat_completeness auto
termination
  by (relation "measure (\<lambda>(s, P). length s)") (auto dest!: parse_line_shorter)

declare parse_lines.simps [simp del]

definition dir_attr :: "pjmedia_sdp_attr \<Rightarrow> bool" where
  "dir_attr a \<longleftrightarrow> attr_name a = ''sendonly'' \<or> attr_name a = ''recvonly'' \<or> attr_name a = ''inactive''"

fun find_dir_attr :: "pjmedia_sdp_attr list \<Rightarrow> nat option" where
  "find_dir_attr [] = None"
| "find_dir_attr (a # attrs) = (if dir_attr a then Some 0 else map_option Suc (find_dir_attr attrs))"

text \<open>The attribute object of the session is shared by the media lines; no operation writes to it.\<close>

definition apply_media_direction :: "pjmedia_sdp_session \<Rightarrow> pjmedia_sdp_session option" where
  "apply_media_direction sdp =
     (case find_dir_attr (s_attr sdp) of
        None \<Rightarrow> Some sdp
      | Some i \<Rightarrow>
          let a = s_attr sdp ! i;
              bare = (\<lambda>m. \<not> list_ex (\<lambda>b. attr_name b = ''sendrecv'' \<or> dir_attr b) (m_attr m))
          in if list_ex (\<lambda>m. bare m \<and> length (m_attr m) \<ge> PJMEDIA_MAX_SDP_ATTR) (s_media sdp) then None
             else Some (sdp\<lparr>s_attr := pjmedia_sdp_attr_remove (s_attr sdp) i,
                            s_media := map (\<lambda>m. if bare m then pjmedia_sdp_media_add_attr m a else m) (s_media sdp)\<rparr>))"

definition session_of :: "sdp_parser \<Rightarrow> pjmedia_sdp_session" where
  "session_of P = (p_session P)\<lparr>s_media := take PJMEDIA_MAX_SDP_MEDIA (p_medias P)\<rparr>"

definition pjmedia_sdp_parse :: "string \<Rightarrow> pjmedia_sdp_session parse_result" where
  "pjmedia_sdp_parse buf =
     (case parse_lines (dropWhile (\<lambda>c. c = CR \<or> c = LF) buf) \<lparr>p_session = zero_session, p_medias = []\<rparr> of
        Going P \<Rightarrow>
          (case apply_media_direction (session_of P) of Some ses \<Rightarrow> Going ses | None \<Rightarrow> Array_overrun)
      | Thrown st \<Rightarrow> Thrown st
      | Array_overrun \<Rightarrow> Array_overrun)"

section \<open>Values of attributes\<close>

record pjmedia_sdp_rtcp_attr =
  rtcp_port :: "32 word"
  rtcp_net_type :: string
  rtcp_addr_type :: string
  rtcp_addr :: string

definition pjmedia_sdp_attr_get_rtcp :: "pjmedia_sdp_attr \<Rightarrow> pj_status + pjmedia_sdp_rtcp_attr" where
  "pjmedia_sdp_attr_get_rtcp attr =
     (case (do {
        (token, s) \<leftarrow> pj_scan_get True token_char (pj_scan_skip_whitespace (attr_value attr));
        if s = [] then Some \<lparr>rtcp_port = pj_strtoul token, rtcp_net_type = [], rtcp_addr_type = [], rtcp_addr = []\<rparr>
        else do {
          (net_type, s) \<leftarrow> pj_scan_get True token_char s;
          (addr_type, s) \<leftarrow> pj_scan_get True token_char s;
          (addr, s) \<leftarrow> pj_scan_get True token_char s;
          Some \<lparr>rtcp_port = pj_strtoul token, rtcp_net_type = net_type, rtcp_addr_type = addr_type,
                rtcp_addr = addr\<rparr> } }) of
        None \<Rightarrow> Inl PJMEDIA_SDP_EINRTCP
      | Some rtcp \<Rightarrow> Inr rtcp)"

text \<open>The text of an address, \<open>addr\<close>, is what \<^verbatim>\<open>pj_inet_ntoa\<close> and \<^verbatim>\<open>pj_sockaddr_print\<close> return; it fits.\<close>

definition pjmedia_sdp_attr_create_rtcp :: "bool \<Rightarrow> 16 word \<Rightarrow> string \<Rightarrow> pjmedia_sdp_attr" where
  "pjmedia_sdp_attr_create_rtcp is_inet6 port addr =
     \<lparr>attr_name = ''rtcp'',
      attr_value = pj_utoa (unat port) @ (if is_inet6 then '' IN IP6 '' else '' IN IP4 '') @ cstr addr\<rparr>"

text \<open>
  The buffer has 128 characters; a text of exactly 128 passes the check, and then its last character is the
  NUL of \<^verbatim>\<open>snprintf\<close> and the copy reads one character behind the buffer.
\<close>

definition pjmedia_sdp_rtpmap_to_attr :: "pjmedia_sdp_rtpmap \<Rightarrow> pj_status + pjmedia_sdp_attr" where
  "pjmedia_sdp_rtpmap_to_attr rtpmap =
     (if assert_fails (rm_enc_name rtpmap \<noteq> [] \<and> rm_clock_rate rtpmap \<noteq> 0) then Inl PJMEDIA_SDP_EINRTPMAP
      else
        let t = cstr (rm_pt rtpmap) @ '' '' @ cstr (rm_enc_name rtpmap) @ ''/''
              @ pj_utoa (unat (rm_clock_rate rtpmap))
              @ (if rm_param rtpmap \<noteq> [] then ''/'' else []) @ cstr (rm_param rtpmap)
        in if length t < 1 \<or> length t > 128 then Inl PJMEDIA_SDP_ERTPMAPTOOLONG
           else Inr \<lparr>attr_name = ''rtpmap'', attr_value = (if length t = 128 then butlast t @ [NUL] else t)\<rparr>)"

definition pjmedia_sdp_attr_to_rtpmap :: "pjmedia_sdp_attr \<Rightarrow> pj_status \<times> pjmedia_sdp_rtpmap" where
  "pjmedia_sdp_attr_to_rtpmap attr = pjmedia_sdp_attr_get_rtpmap attr"

end
