(* ===== verification/Sdp_Text_Props.thy ===== *)
theory Sdp_Text_Props
  imports Sdp_Text
begin

text \<open>Printing a session description and reading it back.\<close>

section \<open>The text of a description\<close>

definition conn_text :: "pjmedia_sdp_conn \<Rightarrow> string" where
  "conn_text c = ''c='' @ conn_net_type c @ '' '' @ conn_addr_type c @ '' '' @ conn_addr c @ [CR, LF]"

definition bandw_text :: "pjmedia_sdp_bandw \<Rightarrow> string" where
  "bandw_text b = ''b='' @ bw_modifier b @ '':'' @ pj_utoa (unat (bw_value b)) @ [CR, LF]"

definition attr_text :: "pjmedia_sdp_attr \<Rightarrow> string" where
  "attr_text a = ''a='' @ attr_name a @ (if attr_value a \<noteq> [] then '':'' @ attr_value a else []) @ [CR, LF]"

definition opt_conn_text :: "pjmedia_sdp_conn option \<Rightarrow> string" where
  "opt_conn_text c = (case c of None \<Rightarrow> [] | Some c \<Rightarrow> conn_text c)"

definition media_line_text :: "pjmedia_sdp_media \<Rightarrow> string" where
  "media_line_text m = ''m='' @ desc_media m @ '' '' @ pj_utoa (unat (desc_port m))
     @ (if desc_port_count m > 1 then ''/'' @ pj_utoa (unat (desc_port_count m)) else [])
     @ '' '' @ desc_transport m @ concat (map (\<lambda>fmt. '' '' @ fmt) (desc_fmt m)) @ [CR, LF]"

definition media_text :: "pjmedia_sdp_media \<Rightarrow> string" where
  "media_text m = media_line_text m @ opt_conn_text (m_conn m) @ concat (map bandw_text (m_bandw m))
     @ concat (map attr_text (m_attr m))"

definition origin_text :: "pjmedia_sdp_session \<Rightarrow> string" where
  "origin_text ses = ''o='' @ origin_user ses @ '' '' @ pj_utoa (unat (origin_id ses)) @ '' ''
     @ pj_utoa (unat (origin_version ses)) @ '' '' @ origin_net_type ses @ '' '' @ origin_addr_type ses
     @ '' '' @ origin_addr ses @ [CR, LF]"

definition time_text :: "pjmedia_sdp_session \<Rightarrow> string" where
  "time_text ses = ''t='' @ pj_utoa (unat (time_start ses)) @ '' '' @ pj_utoa (unat (time_stop ses)) @ [CR, LF]"

definition sdp_text :: "pjmedia_sdp_session \<Rightarrow> string" where
  "sdp_text ses = ''v=0'' @ [CR, LF] @ origin_text ses @ ''s='' @ s_name ses @ [CR, LF]
     @ opt_conn_text (s_conn ses) @ concat (map bandw_text (s_bandw ses)) @ time_text ses
     @ concat (map attr_text (s_attr ses)) @ concat (map media_text (s_media ses))"

section \<open>Descriptions a text can carry\<close>

definition free_of :: "string \<Rightarrow> string \<Rightarrow> bool" where
  "free_of cs s \<longleftrightarrow> (\<forall>c\<in>set cs. c \<notin> set s)"

definition token :: "string \<Rightarrow> bool" where
  "token s \<longleftrightarrow> s \<noteq> [] \<and> (\<forall>c\<in>set s. token_char c)"

definition conn_ok :: "pjmedia_sdp_conn \<Rightarrow> bool" where
  "conn_ok c \<longleftrightarrow> free_of [NUL, CHR '' ''] (conn_net_type c) \<and> free_of [NUL, CHR '' ''] (conn_addr_type c) \<and>
     free_of [NUL, CHR ''/'', CHR '' '', TAB, CR, LF] (conn_addr c)"

definition attr_ok :: "pjmedia_sdp_attr \<Rightarrow> bool" where
  "attr_ok a \<longleftrightarrow> token (attr_name a) \<and> free_of [CR, LF] (attr_value a)"

definition bandw_ok :: "pjmedia_sdp_bandw \<Rightarrow> bool" where
  "bandw_ok b \<longleftrightarrow> CHR '':'' \<notin> set (bw_modifier b)"

definition media_ok :: "pjmedia_sdp_media \<Rightarrow> bool" where
  "media_ok m \<longleftrightarrow> CHR '' '' \<notin> set (desc_media m) \<and> free_of [CHR '' '', TAB, CR, LF] (desc_transport m) \<and>
     (\<forall>f\<in>set (desc_fmt m). token f) \<and> length (desc_fmt m) \<le> PJMEDIA_MAX_SDP_FMT \<and>
     pred_option conn_ok (m_conn m) \<and>
     (\<forall>b\<in>set (m_bandw m). bandw_ok b) \<and> length (m_bandw m) \<le> PJMEDIA_MAX_SDP_BANDW \<and>
     (\<forall>a\<in>set (m_attr m). attr_ok a) \<and> length (m_attr m) \<le> PJMEDIA_MAX_SDP_ATTR"

definition session_ok :: "pjmedia_sdp_session \<Rightarrow> bool" where
  "session_ok ses \<longleftrightarrow> CHR '' '' \<notin> set (origin_user ses) \<and> CHR '' '' \<notin> set (origin_net_type ses) \<and>
     CHR '' '' \<notin> set (origin_addr_type ses) \<and> free_of [CHR '' '', TAB, CR, LF] (origin_addr ses) \<and>
     free_of [CR, LF] (s_name ses) \<and> pred_option conn_ok (s_conn ses) \<and>
     (\<forall>b\<in>set (s_bandw ses). bandw_ok b) \<and> length (s_bandw ses) \<le> PJMEDIA_MAX_SDP_BANDW \<and>
     (\<forall>a\<in>set (s_attr ses). attr_ok a) \<and> length (s_attr ses) \<le> PJMEDIA_MAX_SDP_ATTR"

definition sdp_ok :: "pjmedia_sdp_session \<Rightarrow> bool" where
  "sdp_ok ses \<longleftrightarrow> session_ok ses \<and> (\<forall>m\<in>set (s_media ses). media_ok m) \<and>
     length (s_media ses) \<le> PJMEDIA_MAX_SDP_MEDIA"

text \<open>A port count of one is not printed, and reads back as none.\<close>

definition no_single_port :: "pjmedia_sdp_media \<Rightarrow> bool" where
  "no_single_port m \<longleftrightarrow> desc_port_count m \<noteq> 1"

section \<open>Printing\<close>

lemma cstr_id: "NUL \<notin> set s \<Longrightarrow> cstr s = s"
  by (auto simp: cstr_def takeWhile_eq_all_conv)

lemma print_conn_ok:
  "conn_ok c \<Longrightarrow> length p + length (conn_text c) + 40 \<le> len \<Longrightarrow>
   print_connection_info len c p = Printed (p @ conn_text c)"
  by (simp add: print_connection_info_def conn_text_def conn_ok_def free_of_def cstr_id Let_def room_def)

lemma print_opt_conn:
  "pred_option conn_ok oc \<Longrightarrow> length p + length (opt_conn_text oc) + 40 \<le> len \<Longrightarrow>
   (case oc of Some c \<Rightarrow> print_connection_info len c p | None \<Rightarrow> Printed p) = Printed (p @ opt_conn_text oc)"
  by (auto simp: opt_conn_text_def print_conn_ok split: option.split)

lemma print_bandw_ok:
  "length p + length (bandw_text b) + 40 \<le> len \<Longrightarrow> print_bandw len b p = Printed (p @ bandw_text b)"
  by (simp add: print_bandw_def bandw_text_def put_def room_def)

lemma print_attr_ok:
  "length p + length (attr_text a) + 40 \<le> len \<Longrightarrow> print_attr len a p = Printed (p @ attr_text a)"
  by (cases "attr_value a") (simp_all add: print_attr_def attr_text_def put_def room_def)

text \<open>A list of items, each of which is printed when it and the margin fit.\<close>

lemma print_all_ok:
  assumes "\<And>x p. x \<in> set xs \<Longrightarrow> length p + length (t x) + 40 \<le> len \<Longrightarrow> f x p = Printed (p @ t x)"
    "length p + length (concat (map t xs)) + 40 \<le> len"
  shows "print_all f xs p = Printed (p @ concat (map t xs))"
  using assms
proof (induction xs arbitrary: p)
  case (Cons x xs)
  have "f x p = Printed (p @ t x)" using Cons(2,3) by simp
  moreover have "print_all f xs (p @ t x) = Printed ((p @ t x) @ concat (map t xs))"
    using Cons(2,3) by (intro Cons(1)) auto
  ultimately show ?case by simp
qed simp

lemma print_media_ok:
  assumes "media_ok m" "length p + length (media_text m) + 40 \<le> len"
  shows "print_media_desc len m p = Printed (p @ media_text m)"
proof -
  let ?p1 = "p @ media_line_text m" and ?p2 = "p @ media_line_text m @ opt_conn_text (m_conn m)"
  let ?p3 = "?p2 @ concat (map bandw_text (m_bandw m))"
  have l: "length p + length (media_line_text m) + 40 \<le> len" using assms(2) by (simp add: media_text_def)
  have "put len (media_line_text m) p = Printed ?p1" using l by (simp add: put_def)
  moreover have "(case m_conn m of Some c \<Rightarrow> print_connection_info len c ?p1 | None \<Rightarrow> Printed ?p1) = Printed ?p2"
    using assms print_opt_conn [of "m_conn m" ?p1 len] by (simp add: media_ok_def media_text_def)
  moreover have "print_all (print_bandw len) (m_bandw m) ?p2 = Printed ?p3"
    using assms(2) print_all_ok [of "m_bandw m" bandw_text len "print_bandw len" ?p2] print_bandw_ok
    by (simp add: media_text_def)
  moreover have "print_all (print_attr len) (m_attr m) ?p3 = Printed (p @ media_text m)"
    using assms(2) print_all_ok [of "m_attr m" attr_text len "print_attr len" ?p3] print_attr_ok
    by (simp add: media_text_def)
  moreover have "\<not> room len p < int (length (desc_media m)) + int (length (desc_transport m)) + 12 + 24"
    using l by (simp add: media_line_text_def room_def)
  ultimately show ?thesis
    unfolding print_media_desc_def media_line_text_def [symmetric] by simp
qed

lemma print_session_ok:
  assumes "sdp_ok ses" "length (sdp_text ses) + 40 \<le> len"
  shows "print_session len ses = Printed (sdp_text ses)"
proof -
  define p1 where "p1 = ''v=0'' @ [CR, LF] @ origin_text ses"
  define p2 where "p2 = p1 @ ''s='' @ s_name ses @ [CR, LF]"
  define p3 where "p3 = p2 @ opt_conn_text (s_conn ses)"
  define p4 where "p4 = p3 @ concat (map bandw_text (s_bandw ses))"
  define p5 where "p5 = p4 @ time_text ses"
  define p6 where "p6 = p5 @ concat (map attr_text (s_attr ses))"
  note ps = p6_def p5_def p4_def p3_def p2_def
  have whole: "sdp_text ses = p6 @ concat (map media_text (s_media ses))"
    by (simp add: sdp_text_def ps p1_def)
  have l: "length p6 + length (concat (map media_text (s_media ses))) + 40 \<le> len"
    using assms(2) by (simp add: whole)
  have h: "\<not> int len < 5 + 2 + int (length (origin_user ses)) + 18 + int (length (origin_net_type ses))
      + int (length (origin_addr ses)) + 2" "put len p1 [] = Printed p1"
    using l by (simp_all add: ps p1_def origin_text_def put_def)
  have s: "(if room len p1 < 8 + int (length (s_name ses)) then Too_small
      else put len (''s='' @ s_name ses @ [CR, LF]) p1) = Printed p2"
    using l by (simp add: ps room_def put_def)
  have c: "(case s_conn ses of Some c \<Rightarrow> print_connection_info len c p2 | None \<Rightarrow> Printed p2) = Printed p3"
    using assms(1) l print_opt_conn [of "s_conn ses" p2 len] by (simp add: ps sdp_ok_def session_ok_def)
  have b: "print_all (print_bandw len) (s_bandw ses) p3 = Printed p4"
    using l print_all_ok [of "s_bandw ses" bandw_text len "print_bandw len" p3] print_bandw_ok by (simp add: ps)
  have t: "(if room len p4 < 24 then Too_small
      else put len (''t='' @ pj_utoa (unat (time_start ses)) @ '' '' @ pj_utoa (unat (time_stop ses)) @ [CR, LF]) p4)
      = Printed p5"
    using l by (simp add: ps time_text_def room_def put_def)
  have a: "print_all (print_attr len) (s_attr ses) p5 = Printed p6"
    using l print_all_ok [of "s_attr ses" attr_text len "print_attr len" p5] print_attr_ok by (simp add: ps)
  have m: "print_all (print_media_desc len) (s_media ses) p6 = Printed (sdp_text ses)"
    unfolding whole using assms(1) l by (intro print_all_ok) (auto simp: print_media_ok sdp_ok_def)
  have o1: "''v=0'' @ [CR, LF] @ ''o='' @ origin_user ses @ '' '' @ pj_utoa (unat (origin_id ses)) @ '' ''
      @ pj_utoa (unat (origin_version ses)) @ '' '' @ origin_net_type ses @ '' '' @ origin_addr_type ses
      @ '' '' @ origin_addr ses @ [CR, LF] = p1"
    by (simp add: p1_def origin_text_def)
  show ?thesis
    unfolding print_session_def if_not_P [OF h(1)] o1 h(2) and_then.simps s c b t a by (rule m)
qed

section \<open>Parsing\<close>

lemma need_simps [simp]: "need True = Some ()" "need False = None"
  by (simp_all add: need_def)

lemma not_digit: "\<not> pj_isdigit c \<Longrightarrow> c \<notin> set (pj_utoa n)"
  by auto

lemma utoa_free [simp]:
  "CHR '' '' \<notin> set (pj_utoa n)" "TAB \<notin> set (pj_utoa n)" "CR \<notin> set (pj_utoa n)" "LF \<notin> set (pj_utoa n)"
  by (rule not_digit, simp add: pj_isdigit_def)+

lemma utoa_token [simp]: "\<forall>c\<in>set (pj_utoa n). token_char c"
  by (auto simp: token_char_def)

lemma delimiters [simp]:
  "\<not> token_char CHR '' ''" "\<not> token_char CHR '':''" "\<not> token_char CHR ''/''" "\<not> token_char CR"
  "\<not> token_char LF" "\<not> token_char NUL"
  by (simp_all add: token_char_def pj_isalpha_def pj_isdigit_def)

lemma parse_conn_text: "conn_ok c \<Longrightarrow> parse_connection_info (conn_text c @ s) = Some (c, s)"
  by (simp add: parse_connection_info_def conn_text_def conn_ok_def free_of_def)

lemma parse_bandw_text: "bandw_ok b \<Longrightarrow> parse_bandwidth_info (bandw_text b @ s) = Some (b, s)"
  by (simp add: parse_bandwidth_info_def bandw_text_def bandw_ok_def)

lemma parse_origin_text:
  "CHR '' '' \<notin> set (origin_user ses) \<Longrightarrow> CHR '' '' \<notin> set (origin_net_type ses) \<Longrightarrow>
   CHR '' '' \<notin> set (origin_addr_type ses) \<Longrightarrow> free_of [CHR '' '', TAB, CR, LF] (origin_addr ses) \<Longrightarrow>
   parse_origin z (origin_text ses @ s) = Some (z\<lparr>origin_user := origin_user ses, origin_id := origin_id ses,
      origin_version := origin_version ses, origin_net_type := origin_net_type ses,
      origin_addr_type := origin_addr_type ses, origin_addr := origin_addr ses\<rparr>, s)"
  by (simp add: parse_origin_def origin_text_def free_of_def)

lemma parse_time_text:
  "parse_time z (time_text ses @ s) = Some (z\<lparr>time_start := time_start ses, time_stop := time_stop ses\<rparr>, s)"
  by (simp add: parse_time_def time_text_def)

lemma parse_name_text:
  "free_of [CR, LF] name \<Longrightarrow> parse_generic_line (''s='' @ name @ CR # LF # s) = Some (name, s)"
  by (simp add: parse_generic_line_def free_of_def)

lemma parse_attr_text:
  assumes "attr_ok a"
  shows "parse_attr (attr_text a @ s) = Some (a, s)"
proof -
  have n: "attr_name a \<noteq> []" "\<forall>c\<in>set (attr_name a). token_char c" using assms by (auto simp: attr_ok_def token_def)
  show ?thesis
  proof (cases "attr_value a")
    case Nil
    then show ?thesis using n by (simp add: parse_attr_def attr_text_def)
  next
    case (Cons c v)
    then have c: "c \<noteq> CR" "c \<noteq> LF" "\<forall>u\<in>set [CR, LF]. u \<notin> set (attr_value a)"
      using assms by (auto simp: attr_ok_def free_of_def)
    show ?thesis
      using n c until_chr [OF c(3), of CR "LF # s"] Cons by (simp add: parse_attr_def attr_text_def)
  qed
qed

definition formats_text :: "string list \<Rightarrow> string" where
  "formats_text fs = concat (map ((#) CHR '' '') fs)"

lemma formats_text_simps [simp]:
  "formats_text [] = []" "formats_text (f # fs) = CHR '' '' # f @ formats_text fs"
  by (simp_all add: formats_text_def)

lemma concat_formats: "concat (map (\<lambda>fmt. '' '' @ fmt) fs) = formats_text fs"
  by (induction fs) simp_all

lemma parse_formats_text:
  assumes "\<forall>f\<in>set fs. token f" "length acc + length fs \<le> PJMEDIA_MAX_SDP_FMT"
  shows "parse_formats acc (formats_text fs @ CR # s) = Some (acc @ fs, CR # s)"
  using assms
proof (induction fs arbitrary: acc)
  case Nil
  then show ?case by (subst parse_formats.simps) simp
next
  case (Cons f fs)
  let ?r = "formats_text fs @ CR # s"
  have f: "f \<noteq> []" "\<forall>c\<in>set f. token_char c" using Cons(2) by (auto simp: token_def)
  then obtain c f' where c: "f = c # f'" "token_char c" by (cases f) auto
  then have nc: "c \<noteq> CR" "c \<noteq> LF" by auto
  have "\<not> token_char (peek 0 ?r)" by (cases fs) simp_all
  then have g: "pj_scan_get False token_char (f @ ?r) = Some (f, ?r)" using f by (intro get_token)
  have "parse_formats acc (CHR '' '' # f @ ?r) = parse_formats (acc @ [f]) ?r"
    using g Cons(3) c nc by (subst parse_formats.simps) simp
  then show ?case using Cons(1) [of "acc @ [f]"] Cons(2,3) by simp
qed

definition bare_media :: "pjmedia_sdp_media \<Rightarrow> pjmedia_sdp_media" where
  "bare_media m = m\<lparr>m_conn := None, m_bandw := [], m_attr := []\<rparr>"

lemma parse_media_text:
  assumes "media_ok m" "no_single_port m"
  shows "parse_media (media_line_text m @ s) = Some (bare_media m, s)"
proof -
  let ?r = "formats_text (desc_fmt m) @ CR # LF # s"
  have f: "parse_formats [] ?r = Some (desc_fmt m, CR # LF # s)"
    using parse_formats_text [of "desc_fmt m" "[]" "LF # s"] assms by (simp add: media_ok_def)
  have t: "pj_scan_get_until_chr [CHR '' '', TAB, CR, LF] (desc_transport m @ ?r) = Some (desc_transport m, ?r)"
    using assms by (cases "desc_fmt m") (simp_all add: media_ok_def free_of_def)
  have p: "ucast (ucast (desc_port m) :: 32 word) = desc_port m"
    by (rule bit_word_eqI) (auto simp: bit_unsigned_iff dest: bit_imp_possible_bit)
  show ?thesis
  proof (cases "desc_port_count m > 1")
    case True
    then show ?thesis
      using assms f t p by (simp add: parse_media_def media_line_text_def formats_text_def [symmetric] media_ok_def bare_media_def zero_media_def)
  next
    case False
    then have "desc_port_count m = 0" using assms(2) unfolding no_single_port_def by unat_arith
    then show ?thesis
      using assms f t p by (simp add: parse_media_def media_line_text_def formats_text_def [symmetric] media_ok_def bare_media_def zero_media_def)
  qed
qed

section \<open>The line loop\<close>

lemma parse_lines_step:
  assumes "parse_line (t @ s) P = Going (P', s)" "t \<noteq> []"
  shows "parse_lines (t @ s) P = parse_lines s P'"
  using assms by (subst parse_lines.simps) simp

text \<open>The attributes and the bandwidths of the part that is being read, and the parser with more of them.\<close>

definition cur_attrs :: "sdp_parser \<Rightarrow> pjmedia_sdp_attr list" where
  "cur_attrs P = (if p_medias P \<noteq> [] then m_attr (last (p_medias P)) else s_attr (p_session P))"

definition more_attrs :: "pjmedia_sdp_attr list \<Rightarrow> sdp_parser \<Rightarrow> sdp_parser" where
  "more_attrs as P =
     (if p_medias P \<noteq> [] then on_media (\<lambda>m. m\<lparr>m_attr := m_attr m @ as\<rparr>) P
      else on_session (\<lambda>ses. ses\<lparr>s_attr := s_attr ses @ as\<rparr>) P)"

definition cur_bandws :: "sdp_parser \<Rightarrow> pjmedia_sdp_bandw list" where
  "cur_bandws P = (if p_medias P \<noteq> [] then m_bandw (last (p_medias P)) else s_bandw (p_session P))"

definition more_bandws :: "pjmedia_sdp_bandw list \<Rightarrow> sdp_parser \<Rightarrow> sdp_parser" where
  "more_bandws bs P =
     (if p_medias P \<noteq> [] then on_media (\<lambda>m. m\<lparr>m_bandw := m_bandw m @ bs\<rparr>) P
      else on_session (\<lambda>ses. ses\<lparr>s_bandw := s_bandw ses @ bs\<rparr>) P)"

lemma more_attrs_simps [simp]:
  "cur_attrs (more_attrs as P) = cur_attrs P @ as" "more_attrs bs (more_attrs as P) = more_attrs (as @ bs) P"
  "more_attrs [] P = P"
  by (auto simp: cur_attrs_def more_attrs_def on_media_def on_session_def)

lemma more_bandws_simps [simp]:
  "cur_bandws (more_bandws as P) = cur_bandws P @ as" "more_bandws bs (more_bandws as P) = more_bandws (as @ bs) P"
  "more_bandws [] P = P"
  by (auto simp: cur_bandws_def more_bandws_def on_media_def on_session_def)

lemma attr_line:
  assumes "attr_ok a" "length (cur_attrs P) < PJMEDIA_MAX_SDP_ATTR"
  shows "parse_lines (attr_text a @ s) P = parse_lines s (more_attrs [a] P)"
proof (rule parse_lines_step)
  have "peek 0 (attr_text a @ s) = CHR ''a''" by (simp add: attr_text_def)
  then show "parse_line (attr_text a @ s) P = Going (more_attrs [a] P, s)"
    using assms parse_attr_text [of a s]
    by (auto simp: parse_line_def line_def add_attr_def more_attrs_def cur_attrs_def on_media_def on_session_def
        Let_def)
qed (simp add: attr_text_def)

lemma attr_lines:
  assumes "\<forall>a\<in>set as. attr_ok a" "length (cur_attrs P) + length as \<le> PJMEDIA_MAX_SDP_ATTR"
  shows "parse_lines (concat (map attr_text as) @ s) P = parse_lines s (more_attrs as P)"
  using assms
proof (induction as arbitrary: P)
  case (Cons a as)
  then show ?case using attr_line [of a P "concat (map attr_text as) @ s"] Cons(1) [of "more_attrs [a] P"] by simp
qed simp

lemma bandw_line:
  assumes "bandw_ok b" "length (cur_bandws P) < PJMEDIA_MAX_SDP_BANDW"
  shows "parse_lines (bandw_text b @ s) P = parse_lines s (more_bandws [b] P)"
proof (rule parse_lines_step)
  have "peek 0 (bandw_text b @ s) = CHR ''b''" by (simp add: bandw_text_def)
  then show "parse_line (bandw_text b @ s) P = Going (more_bandws [b] P, s)"
    using assms parse_bandw_text [of b s]
    by (auto simp: parse_line_def line_def add_bandw_def more_bandws_def cur_bandws_def on_media_def on_session_def
        Let_def)
qed (simp add: bandw_text_def)

lemma bandw_lines:
  assumes "\<forall>b\<in>set bs. bandw_ok b" "length (cur_bandws P) + length bs \<le> PJMEDIA_MAX_SDP_BANDW"
  shows "parse_lines (concat (map bandw_text bs) @ s) P = parse_lines s (more_bandws bs P)"
  using assms
proof (induction bs arbitrary: P)
  case (Cons b bs)
  then show ?case using bandw_line [of b P "concat (map bandw_text bs) @ s"] Cons(1) [of "more_bandws [b] P"] by simp
qed simp

definition with_conn :: "pjmedia_sdp_conn option \<Rightarrow> sdp_parser \<Rightarrow> sdp_parser" where
  "with_conn oc P = (case oc of None \<Rightarrow> P | Some c \<Rightarrow> set_conn c P)"

lemma conn_line:
  assumes "pred_option conn_ok oc"
  shows "parse_lines (opt_conn_text oc @ s) P = parse_lines s (with_conn oc P)"
proof (cases oc)
  case (Some c)
  have "parse_lines (conn_text c @ s) P = parse_lines s (set_conn c P)"
  proof (rule parse_lines_step)
    have "peek 0 (conn_text c @ s) = CHR ''c''" by (simp add: conn_text_def)
    then show "parse_line (conn_text c @ s) P = Going (set_conn c P, s)"
      using assms Some parse_conn_text [of c s] by (simp add: parse_line_def line_def Let_def)
  qed (simp add: conn_text_def)
  then show ?thesis using Some by (simp add: opt_conn_text_def with_conn_def)
qed (simp add: opt_conn_text_def with_conn_def)

text \<open>A media line with all that belongs to it.\<close>

lemma media_lines:
  assumes "\<forall>m\<in>set ms. media_ok m \<and> no_single_port m"
  shows "parse_lines (concat (map media_text ms) @ s) P = parse_lines s (P\<lparr>p_medias := p_medias P @ ms\<rparr>)"
  using assms
proof (induction ms arbitrary: P)
  case (Cons m ms)
  define r where "r = concat (map media_text ms) @ s"
  let ?P0 = "P\<lparr>p_medias := p_medias P @ [bare_media m]\<rparr>"
  have ok: "media_ok m" "no_single_port m" using Cons(2) by simp_all
  have "parse_lines (media_line_text m @ r') P = parse_lines r' ?P0" for r'
  proof (rule parse_lines_step)
    have "peek 0 (media_line_text m @ r') = CHR ''m''" by (simp add: media_line_text_def)
    then show "parse_line (media_line_text m @ r') P = Going (?P0, r')"
      using parse_media_text [OF ok, of r'] by (simp add: parse_line_def line_def Let_def)
  qed (simp add: media_line_text_def)
  then have "parse_lines (media_text m @ r) P =
      parse_lines (concat (map bandw_text (m_bandw m)) @ concat (map attr_text (m_attr m)) @ r) (with_conn (m_conn m) ?P0)"
    using conn_line [of "m_conn m"] ok by (simp add: media_text_def media_ok_def)
  also have "\<dots> = parse_lines (concat (map attr_text (m_attr m)) @ r) (more_bandws (m_bandw m) (with_conn (m_conn m) ?P0))"
    using ok by (intro bandw_lines)
      (auto simp: media_ok_def cur_bandws_def with_conn_def set_conn_def on_media_def bare_media_def split: option.split)
  also have "\<dots> = parse_lines r (more_attrs (m_attr m) (more_bandws (m_bandw m) (with_conn (m_conn m) ?P0)))"
    using ok by (intro attr_lines) (auto simp: media_ok_def cur_attrs_def more_bandws_def with_conn_def set_conn_def
        on_media_def bare_media_def split: option.split)
  also have "more_attrs (m_attr m) (more_bandws (m_bandw m) (with_conn (m_conn m) ?P0)) = P\<lparr>p_medias := p_medias P @ [m]\<rparr>"
    by (simp add: more_attrs_def more_bandws_def with_conn_def set_conn_def on_media_def bare_media_def split: option.split)
  finally show ?case using Cons by (simp add: r_def)
qed simp

lemma session_lines:
  assumes "sdp_ok ses" "\<forall>m\<in>set (s_media ses). no_single_port m"
  shows "parse_lines (sdp_text ses) \<lparr>p_session = zero_session, p_medias = []\<rparr>
    = Going \<lparr>p_session = ses\<lparr>s_media := []\<rparr>, p_medias = s_media ses\<rparr>"
proof -
  let ?at = "\<lambda>z. \<lparr>p_session = z, p_medias = []\<rparr>"
  let ?m = "concat (map media_text (s_media ses))"
  let ?a = "concat (map attr_text (s_attr ses)) @ ?m"
  let ?t = "time_text ses @ ?a"
  let ?b = "concat (map bandw_text (s_bandw ses)) @ ?t"
  let ?c = "opt_conn_text (s_conn ses) @ ?b"
  let ?s = "''s='' @ s_name ses @ [CR, LF]"
  define z1 where "z1 = zero_session\<lparr>origin_user := origin_user ses, origin_id := origin_id ses,
      origin_version := origin_version ses, origin_net_type := origin_net_type ses,
      origin_addr_type := origin_addr_type ses, origin_addr := origin_addr ses\<rparr>"
  define z2 where "z2 = z1\<lparr>s_name := s_name ses\<rparr>"
  define z3 where "z3 = z2\<lparr>s_conn := s_conn ses\<rparr>"
  define z4 where "z4 = z3\<lparr>s_bandw := s_bandw ses\<rparr>"
  define z5 where "z5 = z4\<lparr>time_start := time_start ses, time_stop := time_stop ses\<rparr>"
  note zs = z5_def z4_def z3_def z2_def z1_def zero_session_def
  have ok: "session_ok ses" using assms(1) by (simp add: sdp_ok_def)
  have v: "parse_lines ((''v=0'' @ [CR, LF]) @ r) (?at z) = parse_lines r (?at z)" for r z
    by (rule parse_lines_step) (simp_all add: parse_line_def line_def parse_version_def pj_scan_skip_line_def
        peek_def Let_def nth_Cons')
  have o1: "parse_lines (origin_text ses @ r) (?at zero_session) = parse_lines r (?at z1)" for r
  proof (rule parse_lines_step)
    have "peek 0 (origin_text ses @ r) = CHR ''o''" by (simp add: origin_text_def)
    then show "parse_line (origin_text ses @ r) (?at zero_session) = Going (?at z1, r)"
      using parse_origin_text [of ses zero_session r] ok by (simp add: parse_line_def line_def session_ok_def z1_def)
  qed (simp add: origin_text_def)
  have n: "parse_lines (?s @ r) (?at z1) = parse_lines r (?at z2)" for r
    using parse_name_text [of "s_name ses" r] ok
    by (intro parse_lines_step) (simp_all add: parse_line_def line_def session_ok_def on_session_def z2_def)
  have c: "parse_lines ?c (?at z2) = parse_lines ?b (?at z3)"
    using conn_line [of "s_conn ses" ?b "?at z2"] ok
    by (cases "s_conn ses") (simp_all add: session_ok_def with_conn_def set_conn_def on_session_def zs)
  have b: "parse_lines ?b (?at z3) = parse_lines ?t (?at z4)"
    using bandw_lines [of "s_bandw ses" "?at z3" ?t] ok
    by (simp add: session_ok_def cur_bandws_def more_bandws_def on_session_def zs)
  have t: "parse_lines (time_text ses @ r) (?at z4) = parse_lines r (?at z5)" for r
  proof (rule parse_lines_step)
    have "peek 0 (time_text ses @ r) = CHR ''t''" by (simp add: time_text_def)
    then show "parse_line (time_text ses @ r) (?at z4) = Going (?at z5, r)"
      using parse_time_text [of z4 ses r] by (simp add: parse_line_def line_def z5_def)
  qed (simp add: time_text_def)
  have a: "parse_lines ?a (?at z5) = parse_lines ?m (?at (z5\<lparr>s_attr := s_attr ses\<rparr>))"
    using attr_lines [of "s_attr ses" "?at z5" ?m] ok
    by (simp add: session_ok_def cur_attrs_def more_attrs_def on_session_def zs)
  have m: "parse_lines ?m (?at (z5\<lparr>s_attr := s_attr ses\<rparr>)) = Going \<lparr>p_session = z5\<lparr>s_attr := s_attr ses\<rparr>, p_medias = s_media ses\<rparr>"
    using media_lines [of "s_media ses" "[]" "?at (z5\<lparr>s_attr := s_attr ses\<rparr>)"] assms
    by (simp add: sdp_ok_def parse_lines.simps)
  have "sdp_text ses = (''v=0'' @ [CR, LF]) @ origin_text ses @ ?s @ ?c" by (simp add: sdp_text_def)
  then have "parse_lines (sdp_text ses) (?at zero_session) = parse_lines ?c (?at z2)"
    by (simp only: v o1 n)
  then show ?thesis unfolding c b t a m by (simp add: zs)
qed

end
