(* ===== verification/Sdp_Parse_Props.thy ===== *)
theory Sdp_Parse_Props
  imports Sdp_Text_Props
begin

text \<open>
  What the parser makes of an arbitrary text: the description it returns is well formed, the error it
  reports is never success, and a text of few lines never makes it write behind an array.
\<close>

section \<open>Operations of the scanner\<close>

definition newlines :: "string \<Rightarrow> nat" where
  "newlines s = length (filter (\<lambda>c. c = CR \<or> c = LF) s)"

lemma newlines_simps [simp]:
  "newlines [] = 0" "newlines (c # s) = (if c = CR \<or> c = LF then Suc (newlines s) else newlines s)"
  by (simp_all add: newlines_def)

lemma newlines_less: "newlines (dropWhile P s) \<le> newlines s" "newlines (drop n s) \<le> newlines s"
proof -
  show "newlines (dropWhile P s) \<le> newlines s" by (induction s) auto
  show "newlines (drop n s) \<le> newlines s"
  proof (induction s arbitrary: n)
    case (Cons c s)
    then show ?case by (cases n) (auto intro: le_SucI)
  qed simp
qed

text \<open>The NULs of a text; an inequality is what the proofs chain through the operations.\<close>

definition nuls :: "string \<Rightarrow> nat" where
  "nuls s = count_list s NUL"

lemma nuls_zero: "nuls s = 0 \<longleftrightarrow> NUL \<notin> set s"
  by (simp add: nuls_def count_list_0_iff)

lemma nuls_less:
  "nuls (takeWhile P s) \<le> nuls s" "nuls (dropWhile P s) \<le> nuls s" "nuls (drop n s) \<le> nuls s"
proof -
  have "nuls s = nuls (takeWhile P s) + nuls (dropWhile P s)" "nuls s = nuls (take n s) + nuls (drop n s)"
    by (simp_all add: nuls_def flip: count_list_append)
  then show "nuls (takeWhile P s) \<le> nuls s" "nuls (dropWhile P s) \<le> nuls s" "nuls (drop n s) \<le> nuls s"
    by simp_all
qed

lemma scan_facts:
  "pj_scan_get False token_char s = Some (t, s') \<Longrightarrow> newlines s' \<le> newlines s \<and> nuls s' \<le> nuls s \<and> token t"
  "pj_scan_get_char False s = Some (c, s') \<Longrightarrow> newlines s' \<le> newlines s \<and> nuls s' \<le> nuls s"
  "pj_scan_get_until_ch u s = Some (t, s') \<Longrightarrow>
     newlines s' \<le> newlines s \<and> nuls s' \<le> nuls s \<and> nuls t \<le> nuls s \<and> u \<notin> set t"
  "pj_scan_get_until_chr us s = Some (t, s') \<Longrightarrow>
     newlines s' \<le> newlines s \<and> nuls s' \<le> nuls s \<and> nuls t \<le> nuls s \<and> free_of us t"
  "pj_scan_advance_n n s = Some s' \<Longrightarrow> newlines s' \<le> newlines s \<and> nuls s' \<le> nuls s"
  "pj_scan_get_newline s = Some s' \<Longrightarrow> newlines s' < newlines s \<and> nuls s' \<le> nuls s"
proof -
  note n = nuls_less newlines_less
  show "pj_scan_get False token_char s = Some (t, s') \<Longrightarrow> newlines s' \<le> newlines s \<and> nuls s' \<le> nuls s \<and> token t"
    using n(4) [of token_char s] n(2) [of token_char s]
    by (cases s) (auto simp: pj_scan_get_def auto_skip_def token_def split: if_splits dest: set_takeWhileD)
  show "pj_scan_get_until_ch u s = Some (t, s') \<Longrightarrow>
     newlines s' \<le> newlines s \<and> nuls s' \<le> nuls s \<and> nuls t \<le> nuls s \<and> u \<notin> set t"
    by (auto simp: pj_scan_get_until_ch_def n split: if_splits dest: set_takeWhileD)
  show "pj_scan_get_until_chr us s = Some (t, s') \<Longrightarrow>
     newlines s' \<le> newlines s \<and> nuls s' \<le> nuls s \<and> nuls t \<le> nuls s \<and> free_of us t"
    by (auto simp: pj_scan_get_until_chr_def n free_of_def split: if_splits dest: set_takeWhileD)
  show "pj_scan_get_newline s = Some s' \<Longrightarrow> newlines s' < newlines s \<and> nuls s' \<le> nuls s"
    using n(3) [of 1 s] n(3) [of 1 "drop 1 s"] n(3) [of "0" s]
    by (cases s) (auto simp: pj_scan_get_newline_def Let_def n less_Suc_eq_le split: if_splits
        intro: le_SucI order_trans [OF n(3)])
qed (auto simp: pj_scan_get_char_def pj_scan_advance_n_def auto_skip_def nuls_less newlines_less split: if_splits)

lemma skip_line_facts:
  "pj_scan_skip_line s \<noteq> [] \<Longrightarrow> newlines (pj_scan_skip_line s) < newlines s"
  "nuls (pj_scan_skip_line s) \<le> nuls s"
proof -
  let ?r = "dropWhile (\<lambda>c. c \<noteq> LF \<and> c \<noteq> NUL) s"
  show "nuls (pj_scan_skip_line s) \<le> nuls s"
    using order_trans [OF nuls_less(3) nuls_less(2)] by (auto simp: pj_scan_skip_line_def Let_def nuls_def)
  assume "pj_scan_skip_line s \<noteq> []"
  then obtain r where r: "?r = LF # r" "pj_scan_skip_line s = r"
    by (cases ?r) (auto simp: pj_scan_skip_line_def split: if_splits)
  then show "newlines (pj_scan_skip_line s) < newlines s"
    using newlines_less(1) [of "\<lambda>c. c \<noteq> LF \<and> c \<noteq> NUL" s] by simp
qed

section \<open>Lines\<close>

lemma parse_formats_ok:
  "parse_formats fmts s = Some (fmts', s') \<Longrightarrow> (\<forall>f\<in>set fmts. token f) \<Longrightarrow> length fmts \<le> PJMEDIA_MAX_SDP_FMT \<Longrightarrow>
   newlines s' \<le> newlines s \<and> nuls s' \<le> nuls s \<and> (\<forall>f\<in>set fmts'. token f) \<and>
   length fmts' \<le> PJMEDIA_MAX_SDP_FMT"
proof (induction fmts s rule: parse_formats.induct)
  case (1 fmts s)
  show ?case
  proof (cases "peek 0 s = CHR '' ''")
    case False
    then show ?thesis using 1(2-) by (subst (asm) parse_formats.simps) simp
  next
    case True
    then obtain c s1 where s1: "pj_scan_get_char False s = Some (c, s1)"
      by (simp add: pj_scan_get_char_def)
    show ?thesis
    proof (cases "peek 0 s1 = CR \<or> peek 0 s1 = LF")
      case True
      then have "fmts' = fmts" "s' = s1"
        using 1(2) s1 \<open>peek 0 s = CHR '' ''\<close> by (subst (asm) parse_formats.simps; auto)+
      then show ?thesis using 1(3,4) scan_facts(2) [OF s1] by simp
    next
      case False
      then obtain fmt s2 where s2: "pj_scan_get False token_char s1 = Some (fmt, s2)"
        "parse_formats (if length fmts < PJMEDIA_MAX_SDP_FMT then fmts @ [fmt] else fmts) s2 = Some (fmts', s')"
        using 1(2) s1 True by (subst (asm) parse_formats.simps) (auto split: option.splits)
      have "newlines s' \<le> newlines s2 \<and> nuls s' \<le> nuls s2 \<and> (\<forall>f\<in>set fmts'. token f) \<and>
          length fmts' \<le> PJMEDIA_MAX_SDP_FMT"
        using 1(3,4) scan_facts(1) [OF s2(1)]
        by (intro 1(1) [OF True s1 _ False s2(1) _ s2(2)]) auto
      then show ?thesis using scan_facts(1) [OF s2(1)] scan_facts(2) [OF s1] by auto
    qed
  qed
qed

lemma parse_formats_nil:
  "parse_formats [] s = Some (fmts, s') \<Longrightarrow>
   newlines s' \<le> newlines s \<and> nuls s' \<le> nuls s \<and> (\<forall>f\<in>set fmts. token f) \<and> length fmts \<le> PJMEDIA_MAX_SDP_FMT"
  using parse_formats_ok [of "[]" s fmts s'] by simp

text \<open>The text behind a line: fewer line ends unless it is empty, and no new characters.\<close>

definition rest_of :: "string \<Rightarrow> string \<Rightarrow> bool" where
  "rest_of s s' \<longleftrightarrow> (s' \<noteq> [] \<longrightarrow> newlines s' < newlines s) \<and> nuls s' \<le> nuls s"

lemma rest_of_skip_line:
  "newlines s \<le> newlines s0 \<Longrightarrow> nuls s \<le> nuls s0 \<Longrightarrow> rest_of s0 (pj_scan_skip_line s)"
  using skip_line_facts [of s] by (auto simp: rest_of_def)

lemma line_ok:
  "parse_version s = Some s' \<Longrightarrow> rest_of s s'"
  "parse_origin ses s = Some (ses', s') \<Longrightarrow> rest_of s s' \<and> (session_ok ses \<longrightarrow> session_ok ses')
     \<and> s_attr ses' = s_attr ses \<and> s_bandw ses' = s_bandw ses"
  "parse_time ses s = Some (ses', s') \<Longrightarrow> rest_of s s' \<and> (session_ok ses \<longrightarrow> session_ok ses')
     \<and> s_attr ses' = s_attr ses \<and> s_bandw ses' = s_bandw ses"
  "parse_generic_line s = Some (t, s') \<Longrightarrow> rest_of s s' \<and> free_of [CR, LF] t"
  "parse_connection_info s = Some (c, s') \<Longrightarrow> rest_of s s' \<and> (NUL \<notin> set s \<longrightarrow> conn_ok c)"
  "parse_bandwidth_info s = Some (b, s') \<Longrightarrow> rest_of s s' \<and> bandw_ok b"
  "parse_media s = Some (m, s') \<Longrightarrow> rest_of s s' \<and> media_ok m \<and> m_attr m = [] \<and> m_bandw m = []"
  "parse_attr s = Some (a, s') \<Longrightarrow> rest_of s s' \<and> attr_ok a"
proof -
  show "parse_version s = Some s' \<Longrightarrow> rest_of s s'"
    by (auto simp: parse_version_def bind_Some_iff intro: rest_of_skip_line)
  show "parse_origin ses s = Some (ses', s') \<Longrightarrow> rest_of s s' \<and> (session_ok ses \<longrightarrow> session_ok ses')
     \<and> s_attr ses' = s_attr ses \<and> s_bandw ses' = s_bandw ses"
    by (auto simp: parse_origin_def bind_Some_iff session_ok_def intro!: rest_of_skip_line dest!: scan_facts)
  show "parse_time ses s = Some (ses', s') \<Longrightarrow> rest_of s s' \<and> (session_ok ses \<longrightarrow> session_ok ses')
     \<and> s_attr ses' = s_attr ses \<and> s_bandw ses' = s_bandw ses"
    by (auto simp: parse_time_def bind_Some_iff session_ok_def intro!: rest_of_skip_line dest!: scan_facts)
  show "parse_generic_line s = Some (t, s') \<Longrightarrow> rest_of s s' \<and> free_of [CR, LF] t"
    by (auto simp: parse_generic_line_def bind_Some_iff rest_of_def dest!: scan_facts)
  show "parse_connection_info s = Some (c, s') \<Longrightarrow> rest_of s s' \<and> (NUL \<notin> set s \<longrightarrow> conn_ok c)"
    by (auto simp: parse_connection_info_def bind_Some_iff conn_ok_def free_of_def simp flip: nuls_zero intro!: rest_of_skip_line
        dest!: scan_facts)
  show "parse_bandwidth_info s = Some (b, s') \<Longrightarrow> rest_of s s' \<and> bandw_ok b"
    by (auto simp: parse_bandwidth_info_def bind_Some_iff bandw_ok_def intro!: rest_of_skip_line dest!: scan_facts)
  show "parse_media s = Some (m, s') \<Longrightarrow> rest_of s s' \<and> media_ok m \<and> m_attr m = [] \<and> m_bandw m = []"
    by (auto simp: parse_media_def bind_Some_iff media_ok_def zero_media_def intro!: rest_of_skip_line
        dest!: scan_facts parse_formats_nil split: if_splits)
  show "parse_attr s = Some (a, s') \<Longrightarrow> rest_of s s' \<and> attr_ok a"
    by (auto simp: parse_attr_def bind_Some_iff attr_ok_def free_of_def intro!: rest_of_skip_line
        dest!: scan_facts split: if_splits)
qed

section \<open>The line loop\<close>

definition parser_ok :: "sdp_parser \<Rightarrow> bool" where
  "parser_ok P \<longleftrightarrow> session_ok (p_session P) \<and> (\<forall>m\<in>set (p_medias P). media_ok m)"

text \<open>No part has more than \<open>k\<close> attributes or bandwidths.\<close>

definition part_within :: "nat \<Rightarrow> pjmedia_sdp_media \<Rightarrow> bool" where
  "part_within k m \<longleftrightarrow> length (m_attr m) \<le> k \<and> length (m_bandw m) \<le> k"

definition within :: "nat \<Rightarrow> sdp_parser \<Rightarrow> bool" where
  "within k P \<longleftrightarrow> length (s_attr (p_session P)) \<le> k \<and> length (s_bandw (p_session P)) \<le> k \<and>
     (\<forall>m\<in>set (p_medias P). part_within k m)"

definition sdp_errors :: "pj_status set" where
  "sdp_errors = {PJMEDIA_SDP_EINATTR, PJMEDIA_SDP_EINORIGIN, PJMEDIA_SDP_EINSDP, PJMEDIA_SDP_EINCONN,
     PJMEDIA_SDP_EINTIME, PJMEDIA_SDP_EINMEDIA, PJMEDIA_SDP_EINVER, PJMEDIA_SDP_EINBANDW}"

lemma within_mono: "within k P \<Longrightarrow> k \<le> l \<Longrightarrow> within l P"
  by (fastforce simp: within_def part_within_def)

lemma within_last: "within k P \<Longrightarrow> p_medias P \<noteq> [] \<Longrightarrow> part_within k (last (p_medias P))"
  by (simp add: within_def)

text \<open>Changing the part that is being read.\<close>

lemma part_simps [simp]:
  "p_session (on_media f P) = p_session P" "p_medias (on_session g P) = p_medias P"
  "p_session (on_session g P) = g (p_session P)"
  by (simp_all add: on_media_def on_session_def)

lemma on_media_all:
  assumes "p_medias P \<noteq> []" "\<forall>m\<in>set (p_medias P). Q m" "R (f (last (p_medias P)))" "\<And>m. Q m \<Longrightarrow> R m"
  shows "\<forall>m\<in>set (p_medias (on_media f P)). R m"
  using assms by (auto simp: on_media_def dest: in_set_butlastD)

text \<open>An item that is added to a list of the part.\<close>

lemma add_attr_cases:
  assumes "add_attr a P = Going P'"
  obtains "p_medias P = []" "length (s_attr (p_session P)) < PJMEDIA_MAX_SDP_ATTR"
      "P' = on_session (\<lambda>ses. ses\<lparr>s_attr := s_attr (p_session P) @ [a]\<rparr>) P"
    | "p_medias P \<noteq> []" "length (m_attr (last (p_medias P))) < PJMEDIA_MAX_SDP_ATTR"
      "P' = on_media (\<lambda>m. m\<lparr>m_attr := m_attr (last (p_medias P)) @ [a]\<rparr>) P"
  using assms by (auto simp: add_attr_def Let_def split: if_splits)

lemma add_bandw_cases:
  assumes "add_bandw b P = Going P'"
  obtains "p_medias P = []" "length (s_bandw (p_session P)) < PJMEDIA_MAX_SDP_BANDW"
      "P' = on_session (\<lambda>ses. ses\<lparr>s_bandw := s_bandw (p_session P) @ [b]\<rparr>) P"
    | "p_medias P \<noteq> []" "length (m_bandw (last (p_medias P))) < PJMEDIA_MAX_SDP_BANDW"
      "P' = on_media (\<lambda>m. m\<lparr>m_bandw := m_bandw (last (p_medias P)) @ [b]\<rparr>) P"
  using assms by (auto simp: add_bandw_def Let_def split: if_splits)

lemma add_attr_ok:
  assumes "add_attr a P = Going P'" "attr_ok a"
  shows "parser_ok P \<Longrightarrow> parser_ok P'" "within k P \<Longrightarrow> within (Suc k) P'"
proof -
  show "parser_ok P'" if p: "parser_ok P"
    using assms(1)
  proof (cases rule: add_attr_cases)
    case 1
    then show ?thesis using p assms(2) by (simp add: parser_ok_def session_ok_def)
  next
    case 2
    have "media_ok (last (p_medias P))" using 2(1) p by (simp add: parser_ok_def)
    then have "\<forall>m\<in>set (p_medias P'). media_ok m"
      unfolding 2(3) using p assms(2) 2(1,2)
      by (intro on_media_all [where Q = media_ok]) (auto simp: parser_ok_def media_ok_def)
    then show ?thesis using p 2(3) by (simp add: parser_ok_def)
  qed
  show "within (Suc k) P'" if p: "within k P"
    using assms(1)
  proof (cases rule: add_attr_cases)
    case 1
    then show ?thesis using p by (auto simp: within_def intro: le_SucI)
  next
    case 2
    have "\<forall>m\<in>set (p_medias P'). part_within (Suc k) m"
      unfolding 2(3)
    proof (rule on_media_all [OF 2(1)])
      show "\<forall>m\<in>set (p_medias P). part_within k m" using p by (simp add: within_def)
    qed (use within_last [OF p 2(1)] in \<open>auto simp: part_within_def\<close>)
    then show ?thesis using p 2(3) by (simp add: within_def)
  qed
qed

lemma add_bandw_ok:
  assumes "add_bandw b P = Going P'" "bandw_ok b"
  shows "parser_ok P \<Longrightarrow> parser_ok P'" "within k P \<Longrightarrow> within (Suc k) P'"
proof -
  show "parser_ok P'" if p: "parser_ok P"
    using assms(1)
  proof (cases rule: add_bandw_cases)
    case 1
    then show ?thesis using p assms(2) by (simp add: parser_ok_def session_ok_def)
  next
    case 2
    have "media_ok (last (p_medias P))" using 2(1) p by (simp add: parser_ok_def)
    then have "\<forall>m\<in>set (p_medias P'). media_ok m"
      unfolding 2(3) using p assms(2) 2(1,2)
      by (intro on_media_all [where Q = media_ok]) (auto simp: parser_ok_def media_ok_def)
    then show ?thesis using p 2(3) by (simp add: parser_ok_def)
  qed
  show "within (Suc k) P'" if p: "within k P"
    using assms(1)
  proof (cases rule: add_bandw_cases)
    case 1
    then show ?thesis using p by (auto simp: within_def intro: le_SucI)
  next
    case 2
    have "\<forall>m\<in>set (p_medias P'). part_within (Suc k) m"
      unfolding 2(3)
    proof (rule on_media_all [OF 2(1)])
      show "\<forall>m\<in>set (p_medias P). part_within k m" using p by (simp add: within_def)
    qed (use within_last [OF p 2(1)] in \<open>auto simp: part_within_def\<close>)
    then show ?thesis using p 2(3) by (simp add: within_def)
  qed
qed

lemma set_conn_ok:
  assumes "parser_ok P" "conn_ok c"
  shows "parser_ok (set_conn c P)"
proof (cases "p_medias P = []")
  case False
  have "media_ok (last (p_medias P))" using False assms(1) by (simp add: parser_ok_def)
  then have "\<forall>m\<in>set (p_medias (on_media (\<lambda>m. m\<lparr>m_conn := Some c\<rparr>) P)). media_ok m"
    using False assms by (intro on_media_all [where Q = media_ok]) (auto simp: parser_ok_def media_ok_def)
  then show ?thesis using False assms by (simp add: set_conn_def parser_ok_def)
qed (use assms in \<open>simp add: set_conn_def parser_ok_def session_ok_def\<close>)

lemma set_conn_within:
  assumes "within k P"
  shows "within k (set_conn c P)"
proof (cases "p_medias P = []")
  case False
  have "\<forall>m\<in>set (p_medias (on_media (\<lambda>m. m\<lparr>m_conn := Some c\<rparr>) P)). part_within k m"
  proof (rule on_media_all [OF False])
    show "\<forall>m\<in>set (p_medias P). part_within k m" using assms by (simp add: within_def)
  qed (use within_last [OF assms False] in \<open>auto simp: part_within_def\<close>)
  then show ?thesis using False assms by (simp add: set_conn_def within_def)
qed (use assms in \<open>simp add: set_conn_def within_def\<close>)

lemma overrun_within:
  assumes "within k P"
  shows "add_attr a P = Array_overrun \<Longrightarrow> 4 \<le> k" "add_bandw b P = Array_overrun \<Longrightarrow> 4 \<le> k"
proof -
  have "4 \<le> k" if "add_attr a P = Array_overrun \<or> add_bandw b P = Array_overrun"
  proof (cases "p_medias P = []")
    case True
    then show ?thesis using that assms
      by (auto simp: add_attr_def add_bandw_def within_def capacities Let_def split: if_splits)
  next
    case False
    then show ?thesis using that within_last [OF assms False]
      by (auto simp: add_attr_def add_bandw_def part_within_def capacities Let_def split: if_splits)
  qed
  then show "add_attr a P = Array_overrun \<Longrightarrow> 4 \<le> k" "add_bandw b P = Array_overrun \<Longrightarrow> 4 \<le> k" by auto
qed

text \<open>A step of the loop.\<close>

lemma line_Going:
  assumes "line st r f = Going (P', s')"
  obtains x where "r = Some (x, s')" "f x = Going P'"
  using assms by (auto simp: line_def split: option.splits parse_result.splits)

lemma line_Thrown: "line st r f = Thrown st' \<Longrightarrow> (\<And>x. f x \<noteq> Thrown st') \<Longrightarrow> st' = st"
  by (auto simp: line_def split: option.splits prod.splits parse_result.splits)

lemma line_Overrun: "line st r f = Array_overrun \<Longrightarrow> \<exists>x. f x = Array_overrun"
  by (auto simp: line_def split: option.splits prod.splits parse_result.splits)

lemma adds_not_thrown [simp]: "add_attr a P \<noteq> Thrown st" "add_bandw b P \<noteq> Thrown st"
  by (simp_all add: add_attr_def add_bandw_def Let_def)

lemma step_errors:
  "parse_line s P = Thrown st \<Longrightarrow> st \<in> sdp_errors"
  unfolding parse_line_def Let_def by (auto simp: sdp_errors_def dest!: line_Thrown split: if_splits)

lemma step_overrun: "parse_line s P = Array_overrun \<Longrightarrow> within k P \<Longrightarrow> 4 \<le> k"
  unfolding parse_line_def Let_def by (auto dest!: line_Overrun dest: overrun_within split: if_splits)

lemma step_rest: "parse_line s P = Going (P', s') \<Longrightarrow> rest_of s s'"
  unfolding parse_line_def Let_def
  by (auto elim!: line_Going dest!: line_ok split: if_splits) (auto simp: rest_of_def nuls_def)

lemma within_more:
  assumes "within k P"
  shows "s_attr z = s_attr (p_session P) \<Longrightarrow> s_bandw z = s_bandw (p_session P) \<Longrightarrow> within (Suc k) (P\<lparr>p_session := z\<rparr>)"
    "within (Suc k) (on_session (s_name_update f) P)" "within (Suc k) P"
    "m_attr m = [] \<Longrightarrow> m_bandw m = [] \<Longrightarrow> within (Suc k) (P\<lparr>p_medias := p_medias P @ [m]\<rparr>)"
  using assms within_mono [OF assms, of "Suc k"] by (auto simp: within_def part_within_def)

lemma step_within: "parse_line s P = Going (P', s') \<Longrightarrow> within k P \<Longrightarrow> within (Suc k) P'"
  unfolding parse_line_def Let_def
  by (auto elim!: line_Going dest!: line_ok intro: within_more add_attr_ok(2) add_bandw_ok(2)
      within_more(3) [OF set_conn_within] split: if_splits)

lemma parser_more:
  assumes "parser_ok P"
  shows "session_ok z \<Longrightarrow> parser_ok (P\<lparr>p_session := z\<rparr>)"
    "free_of [CR, LF] name \<Longrightarrow> parser_ok (on_session (s_name_update (\<lambda>_. name)) P)"
    "media_ok m \<Longrightarrow> parser_ok (P\<lparr>p_medias := p_medias P @ [m]\<rparr>)" "session_ok (p_session P)"
  using assms by (auto simp: parser_ok_def session_ok_def)

lemma step_ok: "parse_line s P = Going (P', s') \<Longrightarrow> NUL \<notin> set s \<Longrightarrow> parser_ok P \<Longrightarrow> parser_ok P'"
  unfolding parse_line_def Let_def
  by (auto elim!: line_Going dest!: line_ok intro: parser_more add_attr_ok(1) add_bandw_ok(1) set_conn_ok
      split: if_splits)

section \<open>The whole text\<close>

lemma rest_of_facts:
  assumes "rest_of s s'"
  shows "NUL \<notin> set s \<Longrightarrow> NUL \<notin> set s'" "s' \<noteq> [] \<Longrightarrow> newlines s' < newlines s"
  using assms by (auto simp: rest_of_def simp flip: nuls_zero)

lemma parse_lines_ok:
  assumes "NUL \<notin> set s" "parser_ok P" "within k P"
  shows "case parse_lines s P of
      Going P' \<Rightarrow> parser_ok P' \<and> within (k + newlines s + 1) P'
    | Thrown st \<Rightarrow> st \<in> sdp_errors
    | Array_overrun \<Rightarrow> 4 \<le> k + newlines s"
  using assms
proof (induction s P arbitrary: k rule: parse_lines.induct)
  case (1 s P)
  show ?case
  proof (cases "s = []")
    case True
    then show ?thesis using 1(3,4) within_mono [of k P "k + newlines s + 1"] by (simp add: parse_lines.simps)
  next
    case False
    note eq = parse_lines.simps [of s P, unfolded if_not_P [OF False]]
    show ?thesis
    proof (cases "parse_line s P")
      case (Thrown st)
      then show ?thesis using step_errors [OF Thrown] by (simp add: eq)
    next
      case Array_overrun
      then show ?thesis using step_overrun [OF Array_overrun 1(4)] by (simp add: eq)
    next
      case (Going q)
      obtain P1 s1 where q: "q = (P1, s1)" by fastforce
      note step = Going [unfolded q]
      note r = rest_of_facts [OF step_rest [OF step]]
      have ok: "parser_ok P1" "within (Suc k) P1"
        using step_ok [OF step 1(2,3)] step_within [OF step 1(4)] by auto
      show ?thesis
      proof (cases "s1 = []")
        case True
        then have "within (k + newlines s + 1) P1" using within_mono [OF ok(2)] by simp
        then show ?thesis using True ok(1) False by (simp add: eq step parse_lines.simps)
      next
        case n: False
        have ih: "case parse_lines s1 P1 of Going P' \<Rightarrow> parser_ok P' \<and> within (Suc k + newlines s1 + 1) P'
            | Thrown st \<Rightarrow> st \<in> sdp_errors | Array_overrun \<Rightarrow> 4 \<le> Suc k + newlines s1"
          by (rule 1(1) [OF False Going q [symmetric]]) (use r(1) 1(2) ok in auto)
        have "within (Suc k + newlines s1 + 1) P' \<Longrightarrow> within (k + newlines s + 1) P'" for P'
          using r(2) [OF n] by (elim within_mono) simp
        then show ?thesis using ih r(2) [OF n] by (auto simp: eq step split: parse_result.splits)
      qed
    qed
  qed
qed

lemma find_dir_attr_Some: "find_dir_attr as = Some i \<Longrightarrow> i < length as"
  by (induction as arbitrary: i) (auto split: if_splits)

lemma remove_subset: "set (pjmedia_sdp_attr_remove as i) \<subseteq> set as"
  by (auto simp: pjmedia_sdp_attr_remove_def dest: in_set_takeD in_set_dropD)

lemma apply_direction_ok:
  assumes "sdp_ok ses" "apply_media_direction ses = Some ses'"
  shows "sdp_ok ses'"
proof (cases "find_dir_attr (s_attr ses)")
  case (Some i)
  let ?a = "s_attr ses ! i"
  let ?bare = "\<lambda>m. \<not> list_ex (\<lambda>b. attr_name b = ''sendrecv'' \<or> dir_attr b) (m_attr m)"
  have i: "i < length (s_attr ses)" using find_dir_attr_Some [OF Some] .
  then have a: "attr_ok ?a" using assms(1) by (simp add: sdp_ok_def session_ok_def)
  have cap: "\<forall>m\<in>set (s_media ses). ?bare m \<longrightarrow> length (m_attr m) < PJMEDIA_MAX_SDP_ATTR"
    and ses': "ses' = ses\<lparr>s_attr := pjmedia_sdp_attr_remove (s_attr ses) i,
      s_media := map (\<lambda>m. if ?bare m then pjmedia_sdp_media_add_attr m ?a else m) (s_media ses)\<rparr>"
    using assms(2) Some by (auto simp: apply_media_direction_def Let_def list_ex_iff split: if_splits)
  have m: "media_ok (if ?bare m then pjmedia_sdp_media_add_attr m ?a else m)" if "m \<in> set (s_media ses)" for m
    using that assms(1) cap a
    by (auto simp: sdp_ok_def media_ok_def pjmedia_sdp_media_add_attr_def pjmedia_sdp_attr_add_def Suc_le_eq)
  have "length (pjmedia_sdp_attr_remove (s_attr ses) i) \<le> length (s_attr ses)"
    using i by (simp add: pjmedia_sdp_attr_remove_def)
  then have "session_ok ses'"
    using assms(1) remove_subset [of "s_attr ses" i] by (auto simp: ses' sdp_ok_def session_ok_def)
  moreover have "\<forall>m\<in>set (s_media ses'). media_ok m"
    unfolding ses' using m by (simp del: set_map add: list_all_iff [symmetric] list.pred_map) (simp add: list_all_iff)
  ultimately show ?thesis using assms(1) by (simp add: ses' sdp_ok_def)
qed (use assms in \<open>simp add: apply_media_direction_def\<close>)

lemma apply_direction_overrun:
  assumes "apply_media_direction ses = None"
  shows "\<exists>m\<in>set (s_media ses). PJMEDIA_MAX_SDP_ATTR \<le> length (m_attr m)"
  using assms by (auto simp: apply_media_direction_def Let_def list_ex_iff split: option.splits if_splits)

text \<open>C24: Whatever text without a NUL is parsed: a description that is returned is well formed, that is, every
  part of it is made of characters that its line can carry and every array is within its capacity; an error
  is one of the eight line errors and never success; and the parser writes behind an array only when the
  text has at least four line ends (five bandwidth lines are enough).\<close>

theorem sdp_parse_ok:
  assumes "NUL \<notin> set text_in"
  shows "case pjmedia_sdp_parse text_in of
      Going ses \<Rightarrow> sdp_ok ses
    | Thrown st \<Rightarrow> st \<in> sdp_errors \<and> st \<noteq> PJ_SUCCESS
    | Array_overrun \<Rightarrow> 4 \<le> newlines text_in"
proof -
  let ?s = "dropWhile (\<lambda>c. c = CR \<or> c = LF) text_in"
  let ?P = "\<lparr>p_session = zero_session, p_medias = []\<rparr>"
  have "parser_ok ?P" "within 0 ?P" "NUL \<notin> set ?s" "newlines ?s \<le> newlines text_in"
    using assms newlines_less(1) by (auto simp: parser_ok_def within_def session_ok_def zero_session_def free_of_def
        dest: set_dropWhileD)
  note r = parse_lines_ok [OF this(3,1,2)] this(4)
  show ?thesis
  proof (cases "parse_lines ?s ?P")
    case (Going P)
    have ok: "sdp_ok (session_of P)" and w: "within (newlines ?s + 1) P"
      using r Going by (auto simp: parser_ok_def sdp_ok_def session_of_def session_ok_def dest: in_set_takeD)
    show ?thesis
    proof (cases "apply_media_direction (session_of P)")
      case None
      then obtain m where "m \<in> set (p_medias P)" "PJMEDIA_MAX_SDP_ATTR \<le> length (m_attr m)"
        using apply_direction_overrun [OF None] by (auto simp: session_of_def dest: in_set_takeD)
      then have "PJMEDIA_MAX_SDP_ATTR \<le> newlines ?s + 1" using w by (auto simp: within_def part_within_def)
      then show ?thesis using Going None r(2) by (simp add: pjmedia_sdp_parse_def capacities)
    next
      case (Some ses)
      then show ?thesis using Going apply_direction_ok [OF ok Some] by (simp add: pjmedia_sdp_parse_def)
    qed
  qed (use r in \<open>auto simp: pjmedia_sdp_parse_def sdp_errors_def\<close>)
qed

text \<open>Five bandwidth lines, which the array of four cannot hold.\<close>

definition five_bandwidths :: string where
  "five_bandwidths = concat (replicate 5 (''b=AS:64'' @ [CR, LF]))"

theorem sdp_parse_ok_witness:
  "pjmedia_sdp_parse five_bandwidths = Array_overrun \<and> 4 \<le> newlines five_bandwidths"
proof -
  have n: "NUL \<notin> set five_bandwidths" by code_simp
  have p: "pjmedia_sdp_parse five_bandwidths = Array_overrun" by code_simp
  show ?thesis using sdp_parse_ok [OF n] p by simp
qed

text \<open>C23: A well-formed description, in which no media line has a port count of one, is printed in full into
  any buffer that holds its text and 40 characters more, and parsing that text gives the description back, with
  the direction of the session moved to the media lines as the parser does; without such an attribute it is
  the same description.\<close>

theorem sdp_text_roundtrip:
  assumes "sdp_ok ses" "\<forall>m\<in>set (s_media ses). no_single_port m" "length (sdp_text ses) + 40 \<le> len"
  shows "pjmedia_sdp_print ses len = Printed (sdp_text ses) \<and>
    pjmedia_sdp_parse (sdp_text ses) =
      (case apply_media_direction ses of Some ses' \<Rightarrow> Going ses' | None \<Rightarrow> Array_overrun) \<and>
    ((\<forall>a\<in>set (s_attr ses). \<not> dir_attr a) \<longrightarrow> pjmedia_sdp_parse (sdp_text ses) = Going ses)"
proof -
  have s: "dropWhile (\<lambda>c. c = CR \<or> c = LF) (sdp_text ses) = sdp_text ses" by (simp add: sdp_text_def)
  have "session_of \<lparr>p_session = ses\<lparr>s_media := []\<rparr>, p_medias = s_media ses\<rparr> = ses"
    using assms(1) by (simp add: session_of_def sdp_ok_def)
  then have p: "pjmedia_sdp_parse (sdp_text ses) =
      (case apply_media_direction ses of Some ses' \<Rightarrow> Going ses' | None \<Rightarrow> Array_overrun)"
    by (simp add: pjmedia_sdp_parse_def s session_lines [OF assms(1,2)])
  have "(\<forall>a\<in>set as. \<not> dir_attr a) \<Longrightarrow> find_dir_attr as = None" for as by (induction as) auto
  then have "(\<forall>a\<in>set (s_attr ses). \<not> dir_attr a) \<Longrightarrow> apply_media_direction ses = Some ses"
    by (simp add: apply_media_direction_def)
  then show ?thesis
    using print_session_ok [OF assms(1,3)] p by (simp add: pjmedia_sdp_print_def)
qed

definition sample_call :: pjmedia_sdp_session where
  "sample_call = \<lparr>origin_user = ''alice'', origin_id = 7, origin_version = 3, origin_net_type = ''IN'',
     origin_addr_type = ''IP4'', origin_addr = ''10.0.0.1'', s_name = ''a call'',
     s_conn = Some \<lparr>conn_net_type = ''IN'', conn_addr_type = ''IP4'', conn_addr = ''10.0.0.1''\<rparr>,
     s_bandw = [\<lparr>bw_modifier = ''AS'', bw_value = 84\<rparr>], time_start = 0, time_stop = 0, s_attr = [],
     s_media = [\<lparr>desc_media = ''audio'', desc_port = 4000, desc_port_count = 0, desc_transport = ''RTP/AVP'',
       desc_fmt = [''97'', ''0''], m_conn = None, m_bandw = [],
       m_attr = [\<lparr>attr_name = ''rtpmap'', attr_value = ''97 iLBC/8000''\<rparr>, \<lparr>attr_name = ''sendrecv'', attr_value = []\<rparr>]\<rparr>]\<rparr>"

theorem sdp_text_roundtrip_witness: "pjmedia_sdp_parse (sdp_text sample_call) = Going sample_call"
proof -
  have "sdp_ok sample_call" "\<forall>m\<in>set (s_media sample_call). no_single_port m"
    "\<forall>a\<in>set (s_attr sample_call). \<not> dir_attr a"
    by (simp_all add: sample_call_def sdp_ok_def session_ok_def conn_ok_def bandw_ok_def attr_ok_def media_ok_def
        token_def free_of_def no_single_port_def capacities token_char_def pj_isalpha_def pj_isdigit_def)
  then show ?thesis using sdp_text_roundtrip [of sample_call "length (sdp_text sample_call) + 40"] by blast
qed

section \<open>Where the checks are too weak\<close>

text \<open>The address of an IPv6 peer is cut at its first colon, which is not a character of a token.\<close>

lemma rtcp_inet6_cut:
  "pjmedia_sdp_attr_get_rtcp \<lparr>attr_name = ''rtcp'', attr_value = ''5005 IN IP6 2001:db8::1''\<rparr> =
     Inr \<lparr>rtcp_port = 5005, rtcp_net_type = ''IN'', rtcp_addr_type = ''IP6'', rtcp_addr = ''2001''\<rparr>"
  by code_simp

text \<open>The check in front of a media line leaves room for 24 characters, whatever the formats take.\<close>

lemma print_formats_overrun:
  assumes "m = \<lparr>desc_media = ''audio'', desc_port = 4000, desc_port_count = 0, desc_transport = ''RTP/AVP'',
      desc_fmt = replicate 32 ''100'', m_conn = None, m_bandw = [], m_attr = []\<rparr>"
  shows "print_media_desc 60 m [] = Overrun"
proof -
  have "length (concat (map ((@) '' '') (replicate 32 ''100''))) = 128" by (simp add: numeral_eq_Suc)
  then show ?thesis using assms by (simp add: print_media_desc_def put_def room_def)
qed

end
