(* ===== verification/Sdp_Neg.thy ===== *)
theory Sdp_Neg
  imports Sdp
begin

text \<open>
  The offer/answer negotiator (\<^verbatim>\<open>pjmedia/sdp_neg.c\<close>). The custom format callbacks are functions the
  application registers: a table of names and handles, and \<open>cb\<close>, which runs the function behind a
  handle on the two media lines, their format indices and the option; it returns its status and the
  attributes of the answer, which the option may allow it to change. \<open>None\<close> as a result means that the
  code leaves its arrays or follows a null pointer.
\<close>

section \<open>State\<close>

datatype pjmedia_sdp_neg_state =
    PJMEDIA_SDP_NEG_STATE_NULL | PJMEDIA_SDP_NEG_STATE_LOCAL_OFFER | PJMEDIA_SDP_NEG_STATE_REMOTE_OFFER
  | PJMEDIA_SDP_NEG_STATE_WAIT_NEGO | PJMEDIA_SDP_NEG_STATE_DONE

record pjmedia_sdp_neg =
  neg_state :: pjmedia_sdp_neg_state
  prefer_remote_codec_order :: bool
  has_remote_answer :: bool
  answer_was_remote :: bool
  initial_sdp :: "pjmedia_sdp_session option"
  active_local_sdp :: "pjmedia_sdp_session option"
  active_remote_sdp :: "pjmedia_sdp_session option"
  neg_local_sdp :: "pjmedia_sdp_session option"
  neg_remote_sdp :: "pjmedia_sdp_session option"

type_synonym fmt_match_table = "(string \<times> nat) list"

type_synonym fmt_match_cb =
  "nat \<Rightarrow> pjmedia_sdp_media \<Rightarrow> nat \<Rightarrow> pjmedia_sdp_media \<Rightarrow> nat \<Rightarrow> bool \<Rightarrow> pj_status \<times> pjmedia_sdp_attr list"

record neg_env =
  fmt_match_tbl :: fmt_match_table
  run_cb :: fmt_match_cb

section \<open>Custom formats\<close>

fun find_fmt_match :: "fmt_match_table \<Rightarrow> string \<Rightarrow> nat option" where
  "find_fmt_match [] name = None"
| "find_fmt_match ((n, f) # tbl) name = (if pj_stricmp_eq name n then Some f else find_fmt_match tbl name)"

text \<open>The option is whether the callback may modify the answer.\<close>

definition custom_fmt_match ::
    "neg_env \<Rightarrow> string \<Rightarrow> pjmedia_sdp_media \<Rightarrow> nat \<Rightarrow> pjmedia_sdp_media \<Rightarrow> nat \<Rightarrow> bool
     \<Rightarrow> pj_status \<times> pjmedia_sdp_media" where
  "custom_fmt_match E fmt_name offer o_fmt_idx answer a_fmt_idx allow_modify =
     (case find_fmt_match (fmt_match_tbl E) fmt_name of
        Some f \<Rightarrow>
          (case run_cb E f offer o_fmt_idx answer a_fmt_idx allow_modify of
             (status, attrs) \<Rightarrow> (status, answer\<lparr>m_attr := attrs\<rparr>))
      | None \<Rightarrow> (PJ_SUCCESS, answer))"

definition PJMEDIA_SDP_NEG_MAX_CUSTOM_FMT_NEG_CB :: nat where
  "PJMEDIA_SDP_NEG_MAX_CUSTOM_FMT_NEG_CB = 8"

fun index_fmt_match :: "fmt_match_table \<Rightarrow> string \<Rightarrow> nat" where
  "index_fmt_match [] name = 0"
| "index_fmt_match ((n, f) # tbl) name = (if pj_stricmp_eq name n then 0 else Suc (index_fmt_match tbl name))"

definition pjmedia_sdp_neg_register_fmt_match_cb ::
    "string \<Rightarrow> nat option \<Rightarrow> fmt_match_table \<Rightarrow> fmt_match_table \<times> pj_status" where
  "pjmedia_sdp_neg_register_fmt_match_cb fmt_name cb tbl =
     (let i = index_fmt_match tbl fmt_name
      in case cb of
          None \<Rightarrow> (if i = length tbl then (tbl, PJ_ENOTFOUND)
                   else (take i tbl @ drop (Suc i) tbl, PJ_SUCCESS))
        | Some f \<Rightarrow>
            (if i < length tbl then (tbl, if f \<noteq> snd (tbl ! i) then PJ_EEXISTS else PJ_SUCCESS)
             else if length tbl \<ge> PJMEDIA_SDP_NEG_MAX_CUSTOM_FMT_NEG_CB then (tbl, PJ_ETOOMANY)
             else (tbl @ [(fmt_name, f)], PJ_SUCCESS)))"

definition pjmedia_sdp_neg_fmt_match ::
    "neg_env \<Rightarrow> pjmedia_sdp_media \<Rightarrow> nat \<Rightarrow> pjmedia_sdp_media \<Rightarrow> nat \<Rightarrow> bool \<Rightarrow> pj_status \<times> pjmedia_sdp_media" where
  "pjmedia_sdp_neg_fmt_match E offer o_fmt_idx answer a_fmt_idx allow_modify =
     (let o_pt = pj_strtoul (desc_fmt offer ! o_fmt_idx); a_pt = pj_strtoul (desc_fmt answer ! a_fmt_idx)
      in if o_pt < 96 \<or> a_pt < 96 then (if o_pt = a_pt then PJ_SUCCESS else PJMEDIA_SDP_EFORMATNOTEQUAL, answer)
         else case pjmedia_sdp_media_find_attr2 offer ''rtpmap'' (Some (desc_fmt offer ! o_fmt_idx)) of
             None \<Rightarrow> (PJ_EBUG, answer)
           | Some oi \<Rightarrow>
               (case pjmedia_sdp_media_find_attr2 answer ''rtpmap'' (Some (desc_fmt answer ! a_fmt_idx)) of
                  None \<Rightarrow> (PJ_EBUG, answer)
                | Some ai \<Rightarrow>
                    let o_rtpmap = snd (pjmedia_sdp_attr_get_rtpmap (m_attr offer ! oi));
                        a_rtpmap = snd (pjmedia_sdp_attr_get_rtpmap (m_attr answer ! ai))
                    in if \<not> pj_stricmp_eq (rm_enc_name o_rtpmap) (rm_enc_name a_rtpmap)
                         \<or> rm_clock_rate o_rtpmap \<noteq> rm_clock_rate a_rtpmap
                       then (PJMEDIA_SDP_EFORMATNOTEQUAL, answer)
                       else custom_fmt_match E (rm_enc_name o_rtpmap) offer o_fmt_idx answer a_fmt_idx allow_modify))"

section \<open>Directions\<close>

datatype pjmedia_dir =
    PJMEDIA_DIR_NONE | PJMEDIA_DIR_ENCODING | PJMEDIA_DIR_DECODING | PJMEDIA_DIR_ENCODING_DECODING

definition has_attr :: "pjmedia_sdp_media \<Rightarrow> string \<Rightarrow> bool" where
  "has_attr m name \<longleftrightarrow> pjmedia_sdp_media_find_attr2 m name None \<noteq> None"

definition remove_all_media_directions :: "pjmedia_sdp_media \<Rightarrow> pjmedia_sdp_media" where
  "remove_all_media_directions m =
     pjmedia_sdp_media_remove_all_attr (pjmedia_sdp_media_remove_all_attr (pjmedia_sdp_media_remove_all_attr
       (pjmedia_sdp_media_remove_all_attr m ''inactive'') ''sendrecv'') ''sendonly'') ''recvonly''"

definition local_dir :: "pjmedia_sdp_media \<Rightarrow> pjmedia_dir" where
  "local_dir m =
     (if has_attr m ''sendonly'' then PJMEDIA_DIR_ENCODING
      else if has_attr m ''recvonly'' then PJMEDIA_DIR_DECODING
      else if has_attr m ''inactive'' then PJMEDIA_DIR_NONE
      else PJMEDIA_DIR_ENCODING_DECODING)"

definition adjusted_dir :: "pjmedia_sdp_media \<Rightarrow> pjmedia_dir \<Rightarrow> pjmedia_dir" where
  "adjusted_dir remote old_dir =
     (if has_attr remote ''inactive'' then PJMEDIA_DIR_NONE
      else if has_attr remote ''sendonly'' then
        (case old_dir of
           PJMEDIA_DIR_ENCODING_DECODING \<Rightarrow> PJMEDIA_DIR_DECODING
         | PJMEDIA_DIR_DECODING \<Rightarrow> old_dir
         | _ \<Rightarrow> PJMEDIA_DIR_NONE)
      else if has_attr remote ''recvonly'' then
        (case old_dir of
           PJMEDIA_DIR_ENCODING_DECODING \<Rightarrow> PJMEDIA_DIR_ENCODING
         | PJMEDIA_DIR_ENCODING \<Rightarrow> old_dir
         | _ \<Rightarrow> PJMEDIA_DIR_NONE)
      else old_dir)"

definition update_media_direction :: "pjmedia_sdp_media \<Rightarrow> pjmedia_sdp_media \<Rightarrow> pjmedia_sdp_media" where
  "update_media_direction remote local =
     (let old_dir = local_dir local; new_dir = adjusted_dir remote old_dir
      in if new_dir \<noteq> old_dir then
           let local = remove_all_media_directions local
           in (case new_dir of
                 PJMEDIA_DIR_NONE \<Rightarrow> pjmedia_sdp_media_add_attr local (pjmedia_sdp_attr_create ''inactive'' None)
               | PJMEDIA_DIR_ENCODING \<Rightarrow> pjmedia_sdp_media_add_attr local (pjmedia_sdp_attr_create ''sendonly'' None)
               | PJMEDIA_DIR_DECODING \<Rightarrow> pjmedia_sdp_media_add_attr local (pjmedia_sdp_attr_create ''recvonly'' None)
               | PJMEDIA_DIR_ENCODING_DECODING \<Rightarrow> local)
         else local)"

section \<open>Shared steps\<close>

text \<open>Taking the \<^verbatim>\<open>rtpmap\<close> and the \<^verbatim>\<open>fmtp\<close> of a format out of a media line.\<close>

definition drop_attr :: "string \<Rightarrow> string \<Rightarrow> pjmedia_sdp_media \<Rightarrow> pjmedia_sdp_media" where
  "drop_attr name fmt m =
     (case pjmedia_sdp_media_find_attr2 m name (Some fmt) of
        Some i \<Rightarrow> pjmedia_sdp_media_remove_attr m i
      | None \<Rightarrow> m)"

definition drop_fmt_attrs :: "string \<Rightarrow> pjmedia_sdp_media \<Rightarrow> pjmedia_sdp_media" where
  "drop_fmt_attrs fmt m = drop_attr ''fmtp'' fmt (drop_attr ''rtpmap'' fmt m)"

definition sdp_media_clone_deactivate ::
    "pjmedia_sdp_media \<Rightarrow> pjmedia_sdp_media option \<Rightarrow> pjmedia_sdp_session option \<Rightarrow> pjmedia_sdp_media" where
  "sdp_media_clone_deactivate rem_med local_med local_sess =
     (let res = pjmedia_sdp_media_clone_deactivate rem_med
      in if m_conn res = None \<and> (case local_sess of None \<Rightarrow> True | Some s \<Rightarrow> s_conn s = None) then
           (case local_med of
              Some lm \<Rightarrow>
                (case m_conn lm of
                   Some c \<Rightarrow> res\<lparr>m_conn := Some (pjmedia_sdp_conn_clone c)\<rparr>
                 | None \<Rightarrow> res\<lparr>m_conn := Some \<lparr>conn_net_type = ''IN'', conn_addr_type = ''IP4'', conn_addr = ''127.0.0.1''\<rparr>\<rparr>)
            | None \<Rightarrow> res\<lparr>m_conn := Some \<lparr>conn_net_type = ''IN'', conn_addr_type = ''IP4'', conn_addr = ''127.0.0.1''\<rparr>\<rparr>)
         else res)"

lemma drop_attr_frame [simp]:
  "desc_fmt (drop_attr name fmt m) = desc_fmt m" "desc_media (drop_attr name fmt m) = desc_media m"
  "desc_port (drop_attr name fmt m) = desc_port m" "desc_transport (drop_attr name fmt m) = desc_transport m"
  "m_conn (drop_attr name fmt m) = m_conn m"
  by (simp_all add: drop_attr_def pjmedia_sdp_media_remove_attr_def split: option.split)

lemma drop_fmt_attrs_frame [simp]:
  "desc_fmt (drop_fmt_attrs fmt m) = desc_fmt m" "desc_media (drop_fmt_attrs fmt m) = desc_media m"
  "desc_port (drop_fmt_attrs fmt m) = desc_port m" "desc_transport (drop_fmt_attrs fmt m) = desc_transport m"
  "m_conn (drop_fmt_attrs fmt m) = m_conn m"
  by (simp_all add: drop_fmt_attrs_def)

section \<open>An answer from the remote side\<close>

definition answer_rtpmap_matches :: "pjmedia_sdp_rtpmap \<Rightarrow> pjmedia_sdp_rtpmap \<Rightarrow> bool" where
  "answer_rtpmap_matches omap ar \<longleftrightarrow>
     pj_stricmp_eq (rm_enc_name omap) (rm_enc_name ar) \<and> rm_clock_rate omap = rm_clock_rate ar \<and>
     (pj_stricmp_eq (rm_param omap) (rm_param ar) \<or> rm_param ar = ''1'')"

fun match_answer_rtpmap ::
    "neg_env \<Rightarrow> pjmedia_sdp_media \<Rightarrow> nat \<Rightarrow> pjmedia_sdp_rtpmap \<Rightarrow> nat list \<Rightarrow> pjmedia_sdp_media
     \<Rightarrow> nat option \<times> pjmedia_sdp_media" where
  "match_answer_rtpmap E offer i omap [] answer = (None, answer)"
| "match_answer_rtpmap E offer i omap (j # js) answer =
     (case pjmedia_sdp_media_find_attr2 answer ''rtpmap'' (Some (desc_fmt answer ! j)) of
        None \<Rightarrow> match_answer_rtpmap E offer i omap js answer
      | Some k \<Rightarrow>
          if answer_rtpmap_matches omap (snd (pjmedia_sdp_attr_get_rtpmap (m_attr answer ! k))) then
            (case custom_fmt_match E (rm_enc_name omap) offer i answer j False of
               (status, answer) \<Rightarrow>
                 if status = PJ_SUCCESS then (Some j, answer)
                 else match_answer_rtpmap E offer i omap js answer)
          else match_answer_rtpmap E offer i omap js answer)"

fun index_of :: "string \<Rightarrow> string list \<Rightarrow> nat option" where
  "index_of fmt [] = None"
| "index_of fmt (f # fs) = (if fmt = f then Some 0 else map_option Suc (index_of fmt fs))"

definition match_answer_fmt ::
    "neg_env \<Rightarrow> pjmedia_sdp_media \<Rightarrow> nat \<Rightarrow> pjmedia_sdp_media \<Rightarrow> pj_status + nat option \<times> pjmedia_sdp_media" where
  "match_answer_fmt E offer i answer =
     (let fmt = desc_fmt offer ! i
      in if pj_strtoul fmt < 96 then Inr (index_of fmt (desc_fmt answer), answer)
         else case pjmedia_sdp_media_find_attr2 offer ''rtpmap'' (Some fmt) of
             None \<Rightarrow> Inl PJ_EBUG
           | Some k \<Rightarrow>
               Inr (match_answer_rtpmap E offer i (snd (pjmedia_sdp_attr_get_rtpmap (m_attr offer ! k)))
                 [0..<length (desc_fmt answer)] answer))"

definition erase_fmt :: "nat \<Rightarrow> pjmedia_sdp_media \<Rightarrow> pjmedia_sdp_media" where
  "erase_fmt i m = m\<lparr>desc_fmt := take i (desc_fmt m) @ drop (Suc i) (desc_fmt m)\<rparr>"

text \<open>Removing the formats of the offer that have no matching answer; \<open>prior\<close> is \<^verbatim>\<open>offer_fmt_prior\<close>.\<close>

function keep_matched_formats ::
    "neg_env \<Rightarrow> nat \<Rightarrow> nat list \<Rightarrow> pjmedia_sdp_media \<Rightarrow> pjmedia_sdp_media
     \<Rightarrow> pj_status + nat list \<times> pjmedia_sdp_media \<times> pjmedia_sdp_media" where
  "keep_matched_formats E i prior offer answer =
     (if i < length (desc_fmt offer) then
        (case match_answer_fmt E offer i answer of
           Inl status \<Rightarrow> Inl status
         | Inr (None, answer) \<Rightarrow>
             keep_matched_formats E i prior (erase_fmt i (drop_fmt_attrs (desc_fmt offer ! i) offer)) answer
         | Inr (Some j, answer) \<Rightarrow> keep_matched_formats E (Suc i) (prior @ [j]) offer answer)
      else Inr (prior, offer, answer))"
  by pat_completeness auto
termination
  by (relation "measure (\<lambda>(E, i, prior, offer, answer). length (desc_fmt offer) - i)") (auto simp: erase_fmt_def)

declare keep_matched_formats.simps [simp del]

definition swap :: "nat \<Rightarrow> nat \<Rightarrow> 'a list \<Rightarrow> 'a list" where
  "swap i j xs = xs[i := xs ! j, j := xs ! i]"

definition resort_step :: "nat \<Rightarrow> nat \<Rightarrow> nat list \<times> string list \<Rightarrow> nat list \<times> string list" where
  "resort_step i j s = (if fst s ! i > fst s ! j then (swap i j (fst s), swap i j (snd s)) else s)"

definition resort :: "nat list \<times> string list \<Rightarrow> nat list \<times> string list" where
  "resort s = fold (\<lambda>i. fold (resort_step i) [Suc i..<length (snd s)]) [0..<length (snd s)] s"

text \<open>
  The subtraction \<^verbatim>\<open>offer_fmt_prior[i]-del_cnt\<close> is unsigned; a difference below zero wraps to a number
  no index reaches, like the negative number here.
\<close>

function drop_unmatched_formats ::
    "nat list \<Rightarrow> nat \<Rightarrow> nat \<Rightarrow> nat \<Rightarrow> pjmedia_sdp_media \<Rightarrow> pjmedia_sdp_media" where
  "drop_unmatched_formats prior offer_count i del_cnt answer =
     (if i < length (desc_fmt answer) then
        (if i \<ge> offer_count \<or> int (prior ! i) - int del_cnt \<noteq> int i
         then drop_unmatched_formats prior offer_count i (Suc del_cnt)
                (erase_fmt i (drop_fmt_attrs (desc_fmt answer ! i) answer))
         else drop_unmatched_formats prior offer_count (Suc i) del_cnt answer)
      else answer)"
  by pat_completeness auto
termination
  by (relation "measure (\<lambda>(prior, offer_count, i, del_cnt, answer). length (desc_fmt answer) - i)")
    (auto simp: erase_fmt_def)

declare drop_unmatched_formats.simps [simp del]

definition asym_formats :: "pjmedia_sdp_media \<Rightarrow> pjmedia_sdp_media \<Rightarrow> pj_status" where
  "asym_formats offer answer =
     (if list_ex (\<lambda>i. list_ex (\<lambda>j. desc_fmt answer ! i = desc_fmt answer ! j) [0..<length (desc_fmt offer)])
           [0..<length (desc_fmt answer)]
      then PJ_SUCCESS else PJMEDIA_SDPNEG_EANSNOMEDIA)"

definition sym_formats ::
    "neg_env \<Rightarrow> pjmedia_sdp_media \<Rightarrow> pjmedia_sdp_media \<Rightarrow> pj_status \<times> pjmedia_sdp_media \<times> pjmedia_sdp_media" where
  "sym_formats E offer answer =
     (case keep_matched_formats E 0 [] offer answer of
        Inl status \<Rightarrow> (status, offer, answer)
      | Inr (prior, offer, answer) \<Rightarrow>
          if desc_fmt offer = [] then (PJMEDIA_SDPNEG_EANSNOMEDIA, offer, answer)
          else
            let (prior, fmts) = resort (prior, desc_fmt offer)
            in (PJ_SUCCESS, offer\<lparr>desc_fmt := fmts\<rparr>, drop_unmatched_formats prior (length fmts) 0 0 answer))"

definition process_m_answer ::
    "neg_env \<Rightarrow> pjmedia_sdp_media \<Rightarrow> pjmedia_sdp_media \<Rightarrow> bool
     \<Rightarrow> pj_status \<times> pjmedia_sdp_media \<times> pjmedia_sdp_media" where
  "process_m_answer E offer answer allow_asym =
     (if desc_media answer \<noteq> desc_media offer then (PJMEDIA_SDPNEG_EINVANSMEDIA, offer, answer)
      else if pjmedia_sdp_transport_cmp (desc_transport answer) (desc_transport offer) \<noteq> PJ_SUCCESS
      then (PJMEDIA_SDPNEG_EINVANSTP, offer, answer)
      else if desc_port answer = 0 then (PJ_SUCCESS, pjmedia_sdp_media_deactivate offer, answer)
      else if desc_port offer = 0 then (PJ_SUCCESS, offer, answer)
      else
        let offer = update_media_direction answer offer
        in if allow_asym then (asym_formats offer answer, offer, answer)
           else sym_formats E offer answer)"

text \<open>
  The media lines of the offer in turn; \<open>ami\<close> is the position in the answer. A line whose media type
  differs is switched off and does not use up a line of the answer.
\<close>

fun process_medias ::
    "neg_env \<Rightarrow> bool \<Rightarrow> pjmedia_sdp_session \<Rightarrow> pjmedia_sdp_media list \<Rightarrow> nat \<Rightarrow> pjmedia_sdp_media list
     \<Rightarrow> pj_status + pjmedia_sdp_media list \<times> pjmedia_sdp_media list \<times> bool" where
  "process_medias E allow_asym offer [] ami ams = Inr ([], ams, False)"
| "process_medias E allow_asym offer (om # oms) ami ams =
     (if ami = length ams then
        (case process_medias E allow_asym offer oms (Suc ami)
                (ams @ [sdp_media_clone_deactivate om (Some om) (Some offer)]) of
           Inl status \<Rightarrow> Inl status
         | Inr (oms, ams, has_active) \<Rightarrow> Inr (pjmedia_sdp_media_deactivate om # oms, ams, has_active))
      else
        (case process_m_answer E om (ams ! ami) allow_asym of
           (status, om, am) \<Rightarrow>
             if status = PJMEDIA_SDPNEG_EINVANSMEDIA then
               (case process_medias E allow_asym offer oms ami (ams[ami := am]) of
                  Inl status \<Rightarrow> Inl status
                | Inr (oms, ams, has_active) \<Rightarrow> Inr (pjmedia_sdp_media_deactivate om # oms, ams, has_active))
             else if status \<noteq> PJMEDIA_SDPNEG_EANSNOMEDIA \<and> status \<noteq> PJ_SUCCESS then Inl status
             else
               let (om, am) = (if status = PJMEDIA_SDPNEG_EANSNOMEDIA
                     then (pjmedia_sdp_media_deactivate om, pjmedia_sdp_media_deactivate am) else (om, am))
               in case process_medias E allow_asym offer oms (Suc ami) (ams[ami := am]) of
                    Inl status \<Rightarrow> Inl status
                  | Inr (oms, ams, has_active) \<Rightarrow> Inr (om # oms, ams, desc_port om \<noteq> 0 \<or> has_active)))"

text \<open>The active local and the changed remote description, with the status.\<close>

definition process_answer ::
    "neg_env \<Rightarrow> pjmedia_sdp_session \<Rightarrow> pjmedia_sdp_session \<Rightarrow> bool
     \<Rightarrow> pj_status \<times> pjmedia_sdp_session \<times> pjmedia_sdp_session" where
  "process_answer E offer answer allow_asym =
     (case process_medias E allow_asym offer (s_media offer) 0 (s_media answer) of
        Inl status \<Rightarrow> (status, offer, answer)
      | Inr (oms, ams, has_active) \<Rightarrow>
          (if has_active then PJ_SUCCESS else PJMEDIA_SDPNEG_ENOMEDIA,
           offer\<lparr>s_media := oms\<rparr>, answer\<lparr>s_media := ams\<rparr>))"

section \<open>An answer to the remote side\<close>

text \<open>
  The pairs \<^verbatim>\<open>pt_offer[k]\<close>, \<^verbatim>\<open>pt_answer[k]\<close> found so far, the local media line, which a callback may
  change, and the flags of the search.
\<close>

record match_state =
  ms_preanswer :: pjmedia_sdp_media
  pt_pairs :: "(string \<times> string) list"
  master_has_codec :: bool
  master_has_telephone_event :: bool
  master_has_other :: bool
  found_matching_codec :: bool
  found_matching_telephone_event :: bool
  found_matching_other :: bool

definition master_of :: "bool \<Rightarrow> pjmedia_sdp_media \<Rightarrow> pjmedia_sdp_media \<Rightarrow> pjmedia_sdp_media" where
  "master_of prefer_remote offer preanswer = (if prefer_remote then offer else preanswer)"

definition slave_of :: "bool \<Rightarrow> pjmedia_sdp_media \<Rightarrow> pjmedia_sdp_media \<Rightarrow> pjmedia_sdp_media" where
  "slave_of prefer_remote offer preanswer = (if prefer_remote then preanswer else offer)"

definition add_pair :: "string \<Rightarrow> string \<Rightarrow> match_state \<Rightarrow> match_state" where
  "add_pair o_fmt a_fmt s = s\<lparr>pt_pairs := pt_pairs s @ [(o_fmt, a_fmt)]\<rparr>"

text \<open>The formats of the offer and of the local line at \<open>i\<close> in the master and \<open>j\<close> in the slave.\<close>

definition add_match :: "bool \<Rightarrow> pjmedia_sdp_media \<Rightarrow> nat \<Rightarrow> nat \<Rightarrow> match_state \<Rightarrow> match_state" where
  "add_match prefer_remote offer i j s =
     add_pair (if prefer_remote then desc_fmt offer ! i else desc_fmt offer ! j)
       (if prefer_remote then desc_fmt (ms_preanswer s) ! j else desc_fmt (ms_preanswer s) ! i) s"

fun find_static :: "32 word \<Rightarrow> string list \<Rightarrow> string option" where
  "find_static pt [] = None"
| "find_static pt (f # fs) = (if pj_strtoul f = pt \<and> first_digit f then Some f else find_static pt fs)"

definition match_static :: "bool \<Rightarrow> pjmedia_sdp_media \<Rightarrow> 32 word \<Rightarrow> match_state \<Rightarrow> match_state" where
  "match_static prefer_remote offer pt s =
     (let s = s\<lparr>master_has_codec := True\<rparr>
      in if found_matching_codec s then s
         else case find_static pt (desc_fmt (slave_of prefer_remote offer (ms_preanswer s))) of
             Some f \<Rightarrow> add_pair f f (s\<lparr>found_matching_codec := True\<rparr>)
           | None \<Rightarrow> s)"

definition offer_rtpmap_matches :: "pjmedia_sdp_rtpmap \<Rightarrow> pjmedia_sdp_rtpmap \<Rightarrow> bool" where
  "offer_rtpmap_matches omap lr \<longleftrightarrow>
     pj_stricmp_eq (rm_enc_name omap) (rm_enc_name lr) \<and> rm_clock_rate omap = rm_clock_rate lr \<and>
     (pj_stricmp_eq (rm_param omap) (rm_param lr) \<or> (rm_param lr = [] \<and> rm_param omap = ''1'')
      \<or> (rm_param omap = [] \<and> rm_param lr = ''1''))"

fun match_rtpmap ::
    "neg_env \<Rightarrow> bool \<Rightarrow> pjmedia_sdp_media \<Rightarrow> nat \<Rightarrow> pjmedia_sdp_rtpmap \<Rightarrow> bool \<Rightarrow> nat list \<Rightarrow> match_state \<Rightarrow> match_state" where
  "match_rtpmap E prefer_remote offer i omap is_codec [] s = s"
| "match_rtpmap E prefer_remote offer i omap is_codec (j # js) s =
     (let slave = slave_of prefer_remote offer (ms_preanswer s)
      in case pjmedia_sdp_media_find_attr2 slave ''rtpmap'' (Some (desc_fmt slave ! j)) of
          None \<Rightarrow> match_rtpmap E prefer_remote offer i omap is_codec js s
        | Some k \<Rightarrow>
            if offer_rtpmap_matches omap (snd (pjmedia_sdp_attr_get_rtpmap (m_attr slave ! k))) then
              if is_codec then
                (case custom_fmt_match E (rm_enc_name omap) offer (if prefer_remote then i else j)
                        (ms_preanswer s) (if prefer_remote then j else i) True of
                   (status, preanswer) \<Rightarrow>
                     let s = s\<lparr>ms_preanswer := preanswer\<rparr>
                     in if status \<noteq> PJ_SUCCESS then match_rtpmap E prefer_remote offer i omap is_codec js s
                        else add_match prefer_remote offer i j (s\<lparr>found_matching_codec := True\<rparr>))
              else add_match prefer_remote offer i j (s\<lparr>found_matching_telephone_event := True\<rparr>)
            else match_rtpmap E prefer_remote offer i omap is_codec js s)"

definition match_dynamic ::
    "neg_env \<Rightarrow> bool \<Rightarrow> pjmedia_sdp_media \<Rightarrow> nat \<Rightarrow> match_state \<Rightarrow> pj_status \<times> match_state" where
  "match_dynamic E prefer_remote offer i s =
     (let master = master_of prefer_remote offer (ms_preanswer s);
          slave = slave_of prefer_remote offer (ms_preanswer s)
      in case pjmedia_sdp_media_find_attr2 master ''rtpmap'' (Some (desc_fmt master ! i)) of
          None \<Rightarrow> (PJMEDIA_SDP_EMISSINGRTPMAP, s)
        | Some k \<Rightarrow>
            let omap = snd (pjmedia_sdp_attr_get_rtpmap (m_attr master ! k));
                js = [0..<length (desc_fmt slave)]
            in if pj_stricmp_eq (rm_enc_name omap) ''telephone-event'' then
                 (let s = s\<lparr>master_has_telephone_event := True\<rparr>
                  in (PJ_SUCCESS, if found_matching_telephone_event s then s
                          else match_rtpmap E prefer_remote offer i omap False js s))
               else
                 (let s = s\<lparr>master_has_codec := True\<rparr>
                  in (PJ_SUCCESS, if found_matching_codec s then s
                          else match_rtpmap E prefer_remote offer i omap True js s)))"

definition match_other :: "bool \<Rightarrow> pjmedia_sdp_media \<Rightarrow> nat \<Rightarrow> match_state \<Rightarrow> match_state" where
  "match_other prefer_remote offer i s =
     (let s = s\<lparr>master_has_other := True\<rparr>;
          master = master_of prefer_remote offer (ms_preanswer s);
          slave = slave_of prefer_remote offer (ms_preanswer s)
      in if found_matching_other s then s
         else case index_of (desc_fmt master ! i) (desc_fmt slave) of
             Some j \<Rightarrow> add_match prefer_remote offer i j (s\<lparr>found_matching_other := True\<rparr>)
           | None \<Rightarrow> s)"

fun match_formats ::
    "neg_env \<Rightarrow> bool \<Rightarrow> pjmedia_sdp_media \<Rightarrow> nat list \<Rightarrow> match_state \<Rightarrow> pj_status \<times> match_state" where
  "match_formats E prefer_remote offer [] s = (PJ_SUCCESS, s)"
| "match_formats E prefer_remote offer (i # is) s =
     (let fmt = desc_fmt (master_of prefer_remote offer (ms_preanswer s)) ! i
      in if first_digit fmt then
           if pj_strtoul fmt < 96 then
             match_formats E prefer_remote offer is (match_static prefer_remote offer (pj_strtoul fmt) s)
           else
             (case match_dynamic E prefer_remote offer i s of
                (status, s) \<Rightarrow> if status \<noteq> PJ_SUCCESS then (status, s) else match_formats E prefer_remote offer is s)
         else match_formats E prefer_remote offer is (match_other prefer_remote offer i s))"

text \<open>
  Bringing the chosen formats to the front: a format that is not found would be swapped with the slot
  behind the last one, which was never written.
\<close>

fun index_from :: "nat \<Rightarrow> string list \<Rightarrow> string \<Rightarrow> nat option" where
  "index_from j fmts fmt = map_option ((+) j) (index_of fmt (drop j fmts))"

fun to_front :: "nat \<Rightarrow> string list \<Rightarrow> string list \<Rightarrow> string list option" where
  "to_front i [] fmts = Some fmts"
| "to_front i (pt # pts) fmts =
     (case index_from i fmts pt of
        None \<Rightarrow> None
      | Some j \<Rightarrow> to_front (Suc i) pts (swap i j fmts))"

fun drop_unwanted :: "string list \<Rightarrow> pjmedia_sdp_media \<Rightarrow> pjmedia_sdp_media" where
  "drop_unwanted [] m = m"
| "drop_unwanted (fmt # fmts) m = drop_unwanted fmts (drop_fmt_attrs fmt m)"

definition PJMEDIA_SDP_NEG_ANSWER_SYMMETRIC_PT :: bool where
  "PJMEDIA_SDP_NEG_ANSWER_SYMMETRIC_PT = True"

text \<open>A value shorter than the payload type it should start with is overrun.\<close>

definition rewrite_pt :: "string \<Rightarrow> string \<Rightarrow> string \<Rightarrow> string option" where
  "rewrite_pt attr_val old_pt new_pt =
     (if length attr_val < length old_pt then None else Some (new_pt @ drop (length old_pt) attr_val))"

text \<open>\<open>tmp\<close> is \<^verbatim>\<open>a_tmp\<close>, the attributes put aside with their new payload type.\<close>

definition take_rewritten ::
    "string \<Rightarrow> string \<Rightarrow> string \<Rightarrow> pjmedia_sdp_media \<times> pjmedia_sdp_attr list
     \<Rightarrow> (pjmedia_sdp_media \<times> pjmedia_sdp_attr list) option" where
  "take_rewritten name old_pt new_pt s =
     (case s of (answer, tmp) \<Rightarrow>
        (case pjmedia_sdp_media_find_attr2 answer name (Some old_pt) of
           None \<Rightarrow> Some (answer, tmp)
         | Some k \<Rightarrow>
             (case rewrite_pt (attr_value (m_attr answer ! k)) old_pt new_pt of
                None \<Rightarrow> None
              | Some v \<Rightarrow>
                  Some (pjmedia_sdp_media_remove_attr answer k, tmp @ [(m_attr answer ! k)\<lparr>attr_value := v\<rparr>]))))"

fun rewrite_formats ::
    "nat \<Rightarrow> (string \<times> string) list \<Rightarrow> pjmedia_sdp_media \<times> pjmedia_sdp_attr list
     \<Rightarrow> (pjmedia_sdp_media \<times> pjmedia_sdp_attr list) option" where
  "rewrite_formats i [] s = Some s"
| "rewrite_formats i ((o_pt, a_pt) # pairs) s =
     (if a_pt = o_pt then rewrite_formats (Suc i) pairs s
      else
        (case s of (answer, tmp) \<Rightarrow>
           (case take_rewritten ''rtpmap'' a_pt o_pt (answer\<lparr>desc_fmt := (desc_fmt answer)[i := o_pt]\<rparr>, tmp) of
              None \<Rightarrow> None
            | Some s \<Rightarrow>
                (case take_rewritten ''fmtp'' a_pt o_pt s of
                   None \<Rightarrow> None
                 | Some s \<Rightarrow> rewrite_formats (Suc i) pairs s))))"

definition apply_answer_symmetric_pt ::
    "(string \<times> string) list \<Rightarrow> pjmedia_sdp_media \<Rightarrow> pjmedia_sdp_media option" where
  "apply_answer_symmetric_pt pairs answer =
     map_option (\<lambda>(answer, tmp). foldl pjmedia_sdp_media_add_attr answer tmp) (rewrite_formats 0 pairs (answer, []))"

definition build_answer :: "pjmedia_sdp_media \<Rightarrow> match_state \<Rightarrow> pjmedia_sdp_media option" where
  "build_answer offer s =
     (let answer = pjmedia_sdp_media_clone (ms_preanswer s); n = length (pt_pairs s)
      in case to_front 0 (map snd (pt_pairs s)) (desc_fmt answer) of
          None \<Rightarrow> None
        | Some fmts \<Rightarrow>
            let answer = drop_unwanted (drop n fmts) (answer\<lparr>desc_fmt := fmts\<rparr>);
                answer = answer\<lparr>desc_fmt := take n fmts\<rparr>
            in map_option (update_media_direction offer)
                 (if PJMEDIA_SDP_NEG_ANSWER_SYMMETRIC_PT then apply_answer_symmetric_pt (pt_pairs s) answer
                  else Some answer))"

definition start_match :: "pjmedia_sdp_media \<Rightarrow> match_state" where
  "start_match preanswer =
     \<lparr>ms_preanswer = preanswer, pt_pairs = [], master_has_codec = False, master_has_telephone_event = False,
      master_has_other = False, found_matching_codec = False, found_matching_telephone_event = False,
      found_matching_other = False\<rparr>"

text \<open>The status or the answer, with the local media line as it is left behind.\<close>

definition match_offer ::
    "neg_env \<Rightarrow> bool \<Rightarrow> pjmedia_sdp_media \<Rightarrow> pjmedia_sdp_media \<Rightarrow> pjmedia_sdp_session
     \<Rightarrow> ((pj_status + pjmedia_sdp_media) \<times> pjmedia_sdp_media) option" where
  "match_offer E prefer_remote offer preanswer preanswer_sdp =
     (if desc_port offer = 0
      then Some (Inr (sdp_media_clone_deactivate offer (Some preanswer) (Some preanswer_sdp)), preanswer)
      else if desc_port preanswer = 0 then Some (Inr (pjmedia_sdp_media_clone preanswer), preanswer)
      else
        (case match_formats E prefer_remote offer
                [0..<length (desc_fmt (master_of prefer_remote offer preanswer))] (start_match preanswer) of
           (status, s) \<Rightarrow>
             if status \<noteq> PJ_SUCCESS then Some (Inl status, ms_preanswer s)
             else if master_has_codec s \<and> \<not> found_matching_codec s
             then Some (Inl PJMEDIA_SDPNEG_NOANSCODEC, ms_preanswer s)
             else if master_has_other s \<and> \<not> found_matching_other s
             then Some (Inl PJMEDIA_SDPNEG_NOANSUNKNOWN, ms_preanswer s)
             else map_option (\<lambda>answer. (Inr answer, ms_preanswer s)) (build_answer offer s)))"

text \<open>
  The local media line for a line of the offer: its index, the answer and the session with the line as
  the callbacks left it; or the status of the last failure.
\<close>

fun find_media ::
    "neg_env \<Rightarrow> bool \<Rightarrow> pjmedia_sdp_media \<Rightarrow> bool list \<Rightarrow> nat list \<Rightarrow> pjmedia_sdp_session \<Rightarrow> pj_status
     \<Rightarrow> (pj_status \<times> pjmedia_sdp_session \<times> (nat \<times> pjmedia_sdp_media) option) option" where
  "find_media E prefer_remote om media_used [] initial status = Some (status, initial, None)"
| "find_media E prefer_remote om media_used (j # js) initial status =
     (let im = s_media initial ! j
      in if desc_media om = desc_media im \<and> desc_transport om = desc_transport im \<and> \<not> media_used ! j then
           (case match_offer E prefer_remote om im initial of
              None \<Rightarrow> None
            | Some (r, im) \<Rightarrow>
                let initial = initial\<lparr>s_media := (s_media initial)[j := im]\<rparr>
                in case r of
                    Inr am \<Rightarrow> Some (status, initial, Some (j, am))
                  | Inl status2 \<Rightarrow> find_media E prefer_remote om media_used js initial status2)
         else find_media E prefer_remote om media_used js initial status)"

fun answer_medias ::
    "neg_env \<Rightarrow> bool \<Rightarrow> pjmedia_sdp_session \<Rightarrow> pjmedia_sdp_media list \<Rightarrow> bool list \<Rightarrow> pjmedia_sdp_session \<Rightarrow> pj_status
     \<Rightarrow> (pj_status \<times> pjmedia_sdp_media list) option" where
  "answer_medias E prefer_remote answer [] media_used initial status = Some (status, [])"
| "answer_medias E prefer_remote answer (om # oms) media_used initial status =
     (case find_media E prefer_remote om media_used [0..<length (s_media initial)] initial status of
        None \<Rightarrow> None
      | Some (status, initial, found) \<Rightarrow>
          let (am, media_used) = (case found of
                  Some (j, am) \<Rightarrow> (am, media_used[j := True])
                | None \<Rightarrow> (sdp_media_clone_deactivate om (Some om) (Some answer), media_used))
          in map_option (\<lambda>(status, ams). (status, am # ams))
               (answer_medias E prefer_remote answer oms media_used initial status))"

text \<open>
  \<^verbatim>\<open>status\<close> starts as \<^verbatim>\<open>PJMEDIA_SDPNEG_ENOMEDIA\<close>; the assertion that validates the offer assigns to it,
  where assertions are compiled in.
\<close>

definition create_answer ::
    "neg_env \<Rightarrow> bool \<Rightarrow> pjmedia_sdp_session \<Rightarrow> pjmedia_sdp_session
     \<Rightarrow> (pj_status \<times> pjmedia_sdp_session) option" where
  "create_answer E prefer_remote initial offer =
     (let status = (if PJ_ENABLE_EXTRA_CHECK then pjmedia_sdp_validate offer else PJMEDIA_SDPNEG_ENOMEDIA);
          answer = (pjmedia_sdp_session_clone initial)\<lparr>s_media := []\<rparr>
      in if assert_fails (status = PJ_SUCCESS) then Some (status, answer)
         else
           (case answer_medias E prefer_remote answer (s_media offer) (replicate (length (s_media initial)) False)
                   initial status of
              None \<Rightarrow> None
            | Some (status, ams) \<Rightarrow>
                Some (if list_ex (\<lambda>am. desc_port am \<noteq> 0) ams then PJ_SUCCESS else status, answer\<lparr>s_media := ams\<rparr>)))"

section \<open>The negotiator\<close>

definition PJMEDIA_SDP_NEG_PREFER_REMOTE_CODEC_ORDER :: bool where
  "PJMEDIA_SDP_NEG_PREFER_REMOTE_CODEC_ORDER = False"

definition zero_neg :: pjmedia_sdp_neg where
  "zero_neg = \<lparr>neg_state = PJMEDIA_SDP_NEG_STATE_NULL, prefer_remote_codec_order = False, has_remote_answer = False,
     answer_was_remote = False, initial_sdp = None, active_local_sdp = None, active_remote_sdp = None,
     neg_local_sdp = None, neg_remote_sdp = None\<rparr>"

definition pjmedia_sdp_neg_create_w_local_offer :: "pjmedia_sdp_session \<Rightarrow> pj_status + pjmedia_sdp_neg" where
  "pjmedia_sdp_neg_create_w_local_offer local =
     (if assert_fails (pjmedia_sdp_validate local = PJ_SUCCESS) then Inl (pjmedia_sdp_validate local)
      else Inr (zero_neg
        \<lparr>neg_state := PJMEDIA_SDP_NEG_STATE_LOCAL_OFFER,
         prefer_remote_codec_order := PJMEDIA_SDP_NEG_PREFER_REMOTE_CODEC_ORDER,
         initial_sdp := Some (pjmedia_sdp_session_clone local),
         neg_local_sdp := Some (pjmedia_sdp_session_clone local)\<rparr>))"

definition pjmedia_sdp_neg_create_w_remote_offer ::
    "pjmedia_sdp_session option \<Rightarrow> pjmedia_sdp_session \<Rightarrow> pj_status + pjmedia_sdp_neg" where
  "pjmedia_sdp_neg_create_w_remote_offer initial remote =
     (if pjmedia_sdp_validate remote \<noteq> PJ_SUCCESS then Inl (pjmedia_sdp_validate remote)
      else
        let neg = zero_neg
              \<lparr>prefer_remote_codec_order := PJMEDIA_SDP_NEG_PREFER_REMOTE_CODEC_ORDER,
               neg_remote_sdp := Some (pjmedia_sdp_session_clone remote)\<rparr>
        in case initial of
            Some i \<Rightarrow>
              if assert_fails (pjmedia_sdp_validate i = PJ_SUCCESS) then Inl (pjmedia_sdp_validate i)
              else Inr (neg\<lparr>initial_sdp := Some (pjmedia_sdp_session_clone i),
                            neg_local_sdp := Some (pjmedia_sdp_session_clone i),
                            neg_state := PJMEDIA_SDP_NEG_STATE_WAIT_NEGO\<rparr>)
          | None \<Rightarrow> Inr (neg\<lparr>neg_state := PJMEDIA_SDP_NEG_STATE_REMOTE_OFFER\<rparr>))"

definition pjmedia_sdp_neg_set_prefer_remote_codec_order :: "bool \<Rightarrow> pjmedia_sdp_neg \<Rightarrow> pjmedia_sdp_neg" where
  "pjmedia_sdp_neg_set_prefer_remote_codec_order prefer neg = neg\<lparr>prefer_remote_codec_order := prefer\<rparr>"

definition pjmedia_sdp_neg_get_active_local :: "pjmedia_sdp_neg \<Rightarrow> pj_status \<times> pjmedia_sdp_session option" where
  "pjmedia_sdp_neg_get_active_local neg =
     (if assert_fails (active_local_sdp neg \<noteq> None) then (PJMEDIA_SDPNEG_ENOACTIVE, None)
      else (PJ_SUCCESS, active_local_sdp neg))"

definition pjmedia_sdp_neg_get_active_remote :: "pjmedia_sdp_neg \<Rightarrow> pj_status \<times> pjmedia_sdp_session option" where
  "pjmedia_sdp_neg_get_active_remote neg =
     (if assert_fails (active_remote_sdp neg \<noteq> None) then (PJMEDIA_SDPNEG_ENOACTIVE, None)
      else (PJ_SUCCESS, active_remote_sdp neg))"

definition pjmedia_sdp_neg_has_local_answer :: "pjmedia_sdp_neg \<Rightarrow> bool" where
  "pjmedia_sdp_neg_has_local_answer neg = (\<not> has_remote_answer neg)"

text \<open>Moving the line at \<open>ni\<close> to \<open>oi \<le> ni\<close>, and putting a new one at \<open>oi\<close>.\<close>

definition move_media :: "nat \<Rightarrow> nat \<Rightarrow> 'a list \<Rightarrow> 'a list" where
  "move_media ni oi xs = take oi xs @ xs ! ni # take (ni - oi) (drop oi xs) @ drop (Suc ni) xs"

definition insert_media :: "nat \<Rightarrow> 'a \<Rightarrow> 'a list \<Rightarrow> 'a list" where
  "insert_media oi x xs = take oi xs @ x # drop oi xs"

fun find_same_media :: "string \<Rightarrow> nat list \<Rightarrow> pjmedia_sdp_media list \<Rightarrow> nat option" where
  "find_same_media media [] ms = None"
| "find_same_media media (ni # nis) ms =
     (if desc_media (ms ! ni) = media then Some ni else find_same_media media nis ms)"

fun fix_offer ::
    "pjmedia_sdp_session \<Rightarrow> nat \<Rightarrow> pjmedia_sdp_media list \<Rightarrow> pjmedia_sdp_media list \<Rightarrow> pjmedia_sdp_media list" where
  "fix_offer local oi [] ms = ms"
| "fix_offer local oi (om # oms) ms =
     fix_offer local (Suc oi) oms
       (case find_same_media (desc_media om) [oi..<length ms] ms of
          Some ni \<Rightarrow> if ni \<noteq> oi then move_media ni oi ms else ms
        | None \<Rightarrow> insert_media oi (sdp_media_clone_deactivate om (Some om) (Some local)) ms)"

definition pjmedia_sdp_neg_modify_local_offer ::
    "pjmedia_sdp_session \<Rightarrow> pjmedia_sdp_neg \<Rightarrow> (pjmedia_sdp_neg \<times> pj_status) option" where
  "pjmedia_sdp_neg_modify_local_offer local neg =
     (if assert_fails (neg_state neg = PJMEDIA_SDP_NEG_STATE_DONE) then Some (neg, PJMEDIA_SDPNEG_EINSTATE)
      else if pjmedia_sdp_validate local \<noteq> PJ_SUCCESS then Some (neg, pjmedia_sdp_validate local)
      else
        (case active_local_sdp neg of
           None \<Rightarrow> None
         | Some old_offer \<Rightarrow>
             let new_offer = (pjmedia_sdp_session_clone local)
                   \<lparr>origin_user := origin_user old_offer, origin_id := origin_id old_offer,
                    origin_version := origin_version old_offer + 1, origin_net_type := origin_net_type old_offer,
                    origin_addr_type := origin_addr_type old_offer, origin_addr := origin_addr old_offer\<rparr>;
                 new_offer = new_offer\<lparr>s_media := fix_offer local 0 (s_media old_offer) (s_media new_offer)\<rparr>
             in Some (neg\<lparr>neg_state := PJMEDIA_SDP_NEG_STATE_LOCAL_OFFER, initial_sdp := Some new_offer,
                          neg_local_sdp := Some (pjmedia_sdp_session_clone new_offer)\<rparr>, PJ_SUCCESS)))"

definition pjmedia_sdp_neg_send_local_offer ::
    "pjmedia_sdp_neg \<Rightarrow> (pjmedia_sdp_neg \<times> pj_status \<times> pjmedia_sdp_session option) option" where
  "pjmedia_sdp_neg_send_local_offer neg =
     (if assert_fails (neg_state neg = PJMEDIA_SDP_NEG_STATE_DONE \<or> neg_state neg = PJMEDIA_SDP_NEG_STATE_LOCAL_OFFER)
      then Some (neg, PJMEDIA_SDPNEG_EINSTATE, None)
      else if neg_state neg = PJMEDIA_SDP_NEG_STATE_DONE then
        (if assert_fails (active_local_sdp neg \<noteq> None) then Some (neg, PJMEDIA_SDPNEG_ENOACTIVE, None)
         else
           (case active_local_sdp neg of
              None \<Rightarrow> None
            | Some a \<Rightarrow>
                Some (neg\<lparr>neg_state := PJMEDIA_SDP_NEG_STATE_LOCAL_OFFER,
                          neg_local_sdp := Some (pjmedia_sdp_session_clone a)\<rparr>, PJ_SUCCESS, Some a)))
      else Some (neg, PJ_SUCCESS, neg_local_sdp neg))"

definition pjmedia_sdp_neg_set_remote_answer ::
    "pjmedia_sdp_session \<Rightarrow> pjmedia_sdp_neg \<Rightarrow> pjmedia_sdp_neg \<times> pj_status" where
  "pjmedia_sdp_neg_set_remote_answer remote neg =
     (if assert_fails (neg_state neg = PJMEDIA_SDP_NEG_STATE_LOCAL_OFFER) then (neg, PJMEDIA_SDPNEG_EINSTATE)
      else (neg\<lparr>neg_state := PJMEDIA_SDP_NEG_STATE_WAIT_NEGO, has_remote_answer := True,
                neg_remote_sdp := Some (pjmedia_sdp_session_clone remote)\<rparr>, PJ_SUCCESS))"

definition pjmedia_sdp_neg_set_remote_offer ::
    "pjmedia_sdp_session \<Rightarrow> pjmedia_sdp_neg \<Rightarrow> pjmedia_sdp_neg \<times> pj_status" where
  "pjmedia_sdp_neg_set_remote_offer remote neg =
     (if assert_fails (neg_state neg = PJMEDIA_SDP_NEG_STATE_DONE) then (neg, PJMEDIA_SDPNEG_EINSTATE)
      else (neg\<lparr>neg_state := PJMEDIA_SDP_NEG_STATE_REMOTE_OFFER,
                neg_remote_sdp := Some (pjmedia_sdp_session_clone remote)\<rparr>, PJ_SUCCESS))"

definition pjmedia_sdp_neg_set_local_answer ::
    "pjmedia_sdp_session option \<Rightarrow> pjmedia_sdp_neg \<Rightarrow> (pjmedia_sdp_neg \<times> pj_status) option" where
  "pjmedia_sdp_neg_set_local_answer local neg =
     (if assert_fails (neg_state neg = PJMEDIA_SDP_NEG_STATE_REMOTE_OFFER) then Some (neg, PJMEDIA_SDPNEG_EINSTATE)
      else
        let neg = neg\<lparr>neg_state := PJMEDIA_SDP_NEG_STATE_WAIT_NEGO\<rparr>
        in case local of
            Some l \<Rightarrow>
              let c = pjmedia_sdp_session_clone l
              in (case initial_sdp neg of
                    Some i \<Rightarrow> Some (neg\<lparr>neg_local_sdp := Some (c\<lparr>origin_id := origin_id i\<rparr>)\<rparr>, PJ_SUCCESS)
                  | None \<Rightarrow> Some (neg\<lparr>neg_local_sdp := Some c, initial_sdp := Some (pjmedia_sdp_session_clone l)\<rparr>,
                                  PJ_SUCCESS))
          | None \<Rightarrow>
              if assert_fails (initial_sdp neg \<noteq> None) then Some (neg, PJMEDIA_SDPNEG_ENOINITIAL)
              else
                (case initial_sdp neg of
                   None \<Rightarrow> None
                 | Some i \<Rightarrow> Some (neg\<lparr>neg_local_sdp := Some (pjmedia_sdp_session_clone i)\<rparr>, PJ_SUCCESS)))"

definition pjmedia_sdp_neg_cancel_offer :: "pjmedia_sdp_neg \<Rightarrow> pjmedia_sdp_neg \<times> pj_status" where
  "pjmedia_sdp_neg_cancel_offer neg =
     (if assert_fails (neg_state neg = PJMEDIA_SDP_NEG_STATE_LOCAL_OFFER
          \<or> neg_state neg = PJMEDIA_SDP_NEG_STATE_REMOTE_OFFER)
      then (neg, PJMEDIA_SDPNEG_EINSTATE)
      else (neg\<lparr>neg_state := PJMEDIA_SDP_NEG_STATE_DONE, neg_local_sdp := None, neg_remote_sdp := None,
                has_remote_answer := False\<rparr>, PJ_SUCCESS))"

text \<open>The two ways to negotiate: the status and the negotiator with its active descriptions.\<close>

definition negotiate_remote_answer ::
    "neg_env \<Rightarrow> bool \<Rightarrow> pjmedia_sdp_session \<Rightarrow> pjmedia_sdp_session \<Rightarrow> pjmedia_sdp_neg
     \<Rightarrow> pj_status \<times> pjmedia_sdp_neg" where
  "negotiate_remote_answer E allow_asym local remote neg =
     (case process_answer E local remote allow_asym of
        (status, active, remote) \<Rightarrow>
          (status,
           if status = PJ_SUCCESS then neg\<lparr>active_local_sdp := Some active, active_remote_sdp := Some remote\<rparr>
           else neg))"

definition negotiate_local_answer ::
    "neg_env \<Rightarrow> pjmedia_sdp_session \<Rightarrow> pjmedia_sdp_session \<Rightarrow> pjmedia_sdp_neg
     \<Rightarrow> (pj_status \<times> pjmedia_sdp_neg) option" where
  "negotiate_local_answer E local remote neg =
     (case create_answer E (prefer_remote_codec_order neg) local remote of
        None \<Rightarrow> None
      | Some (status, answer) \<Rightarrow>
          if status = PJ_SUCCESS then
            (case (case active_local_sdp neg of Some a \<Rightarrow> Some a | None \<Rightarrow> initial_sdp neg) of
               None \<Rightarrow> None
             | Some previous \<Rightarrow>
                 Some (status, neg\<lparr>active_local_sdp := Some (answer\<lparr>origin_version := origin_version previous + 1\<rparr>),
                                   active_remote_sdp := Some remote\<rparr>))
          else Some (status, neg))"

definition pjmedia_sdp_neg_negotiate ::
    "neg_env \<Rightarrow> bool \<Rightarrow> pjmedia_sdp_neg \<Rightarrow> (pj_status \<times> pjmedia_sdp_neg) option" where
  "pjmedia_sdp_neg_negotiate E allow_asym neg =
     (if assert_fails (neg_state neg = PJMEDIA_SDP_NEG_STATE_WAIT_NEGO) then Some (PJMEDIA_SDPNEG_EINSTATE, neg)
      else if assert_fails (neg_remote_sdp neg \<noteq> None) then Some (PJ_EBUG, neg)
      else
        (case (neg_local_sdp neg, neg_remote_sdp neg) of
           (Some local, Some remote) \<Rightarrow>
             map_option (\<lambda>(status, neg). (status,
                 neg\<lparr>neg_state := PJMEDIA_SDP_NEG_STATE_DONE, answer_was_remote := has_remote_answer neg,
                     neg_local_sdp := None, neg_remote_sdp := None, has_remote_answer := False\<rparr>))
               (if has_remote_answer neg then Some (negotiate_remote_answer E allow_asym local remote neg)
                else negotiate_local_answer E local remote neg)
         | _ \<Rightarrow> None))"

end
