(* ===== verification/Sdp_Neg_Fmt.thy ===== *)
theory Sdp_Neg_Fmt
  imports Sdp_Neg "HOL-Library.Multiset"
begin

text \<open>Lemmas on the steps of the negotiator: directions, custom formats, sorting, and the format lists.\<close>

section \<open>Directions\<close>

definition may_send :: "pjmedia_dir \<Rightarrow> bool" where
  "may_send d \<longleftrightarrow> d = PJMEDIA_DIR_ENCODING \<or> d = PJMEDIA_DIR_ENCODING_DECODING"

definition may_recv :: "pjmedia_dir \<Rightarrow> bool" where
  "may_recv d \<longleftrightarrow> d = PJMEDIA_DIR_DECODING \<or> d = PJMEDIA_DIR_ENCODING_DECODING"

text \<open>The direction the remote line asks for, read in the order in which the code looks.\<close>

definition remote_dir :: "pjmedia_sdp_media \<Rightarrow> pjmedia_dir" where
  "remote_dir m =
     (if has_attr m ''inactive'' then PJMEDIA_DIR_NONE
      else if has_attr m ''sendonly'' then PJMEDIA_DIR_ENCODING
      else if has_attr m ''recvonly'' then PJMEDIA_DIR_DECODING
      else PJMEDIA_DIR_ENCODING_DECODING)"

lemma has_attr_iff: "has_attr m name \<longleftrightarrow> (\<exists>a\<in>set (m_attr m). attr_name a = name)"
proof -
  have "has_attr m name \<longleftrightarrow> \<not> (\<forall>a\<in>set (m_attr m). \<not> attr_matches name None a)"
    by (simp add: has_attr_def pjmedia_sdp_media_find_attr2_def attr_find_None [symmetric])
  then show ?thesis by (auto simp: attr_matches_def)
qed

lemma has_attr_removed:
  "has_attr (remove_all_media_directions m) name \<longleftrightarrow>
     has_attr m name \<and> name \<notin> {''inactive'', ''sendrecv'', ''sendonly'', ''recvonly''}"
  by (auto simp: has_attr_iff remove_all_media_directions_def pjmedia_sdp_media_remove_all_attr_def
      pjmedia_sdp_attr_remove_all_def)

lemma has_attr_added:
  "has_attr (pjmedia_sdp_media_add_attr m (pjmedia_sdp_attr_create n v)) name \<longleftrightarrow> name = n \<or> has_attr m name"
  by (auto simp: has_attr_iff pjmedia_sdp_media_add_attr_def pjmedia_sdp_attr_add_def pjmedia_sdp_attr_create_def)

lemma adjusted_dir_meet:
  "may_send (adjusted_dir remote d) \<longleftrightarrow> may_send d \<and> may_recv (remote_dir remote)"
  "may_recv (adjusted_dir remote d) \<longleftrightarrow> may_recv d \<and> may_send (remote_dir remote)"
  by (cases d; simp add: adjusted_dir_def remote_dir_def may_send_def may_recv_def)+

lemma local_dir_updated: "local_dir (update_media_direction remote local) = adjusted_dir remote (local_dir local)"
proof (cases "adjusted_dir remote (local_dir local) = local_dir local")
  case False
  then have n: "adjusted_dir remote (local_dir local) \<noteq> PJMEDIA_DIR_ENCODING_DECODING"
    by (auto simp: adjusted_dir_def split: pjmedia_dir.splits if_splits)
  show ?thesis
    using False n
    by (cases "adjusted_dir remote (local_dir local)")
      (simp_all add: update_media_direction_def Let_def local_dir_def [of "pjmedia_sdp_media_add_attr m a" for m a]
        has_attr_added has_attr_removed)
qed (simp add: update_media_direction_def)

lemma update_direction_frame [simp]:
  "desc_fmt (update_media_direction remote m) = desc_fmt m"
  "desc_media (update_media_direction remote m) = desc_media m"
  "desc_port (update_media_direction remote m) = desc_port m"
  "desc_transport (update_media_direction remote m) = desc_transport m"
  "m_conn (update_media_direction remote m) = m_conn m"
  by (simp_all add: update_media_direction_def Let_def remove_all_media_directions_def
      pjmedia_sdp_media_remove_all_attr_def pjmedia_sdp_media_add_attr_def split: pjmedia_dir.split)

lemma rtpmap_kept:
  "filter (\<lambda>a. attr_name a = ''rtpmap'') (m_attr (update_media_direction remote m)) =
   filter (\<lambda>a. attr_name a = ''rtpmap'') (m_attr m)"
proof -
  have r: "filter (\<lambda>a. attr_name a = ''rtpmap'') (m_attr (remove_all_media_directions m)) =
      filter (\<lambda>a. attr_name a = ''rtpmap'') (m_attr m)"
    by (auto simp: remove_all_media_directions_def pjmedia_sdp_media_remove_all_attr_def
        pjmedia_sdp_attr_remove_all_def intro!: filter_cong)
  show ?thesis
    by (auto simp: update_media_direction_def Let_def r pjmedia_sdp_media_add_attr_def pjmedia_sdp_attr_add_def
        pjmedia_sdp_attr_create_def split: pjmedia_dir.split)
qed

section \<open>Rtpmap attributes of a media line\<close>

text \<open>
  The encodings a media line names for a payload type: the values of its \<^verbatim>\<open>rtpmap\<close> attributes with that
  number.
\<close>

definition rtpmaps :: "pjmedia_sdp_media \<Rightarrow> string \<Rightarrow> pjmedia_sdp_rtpmap set" where
  "rtpmaps m fmt = (\<lambda>a. snd (pjmedia_sdp_attr_get_rtpmap a)) ` {a \<in> set (m_attr m). attr_matches ''rtpmap'' (Some fmt) a}"

lemma found_rtpmap:
  "pjmedia_sdp_media_find_attr2 m ''rtpmap'' (Some fmt) = Some k \<Longrightarrow>
   snd (pjmedia_sdp_attr_get_rtpmap (m_attr m ! k)) \<in> rtpmaps m fmt"
  using attr_find_Some [of "m_attr m" "''rtpmap''" "Some fmt" k]
  by (auto simp: rtpmaps_def pjmedia_sdp_media_find_attr2_def)

lemma rtpmaps_mono: "set (m_attr m) \<subseteq> set (m_attr m') \<Longrightarrow> rtpmaps m fmt \<subseteq> rtpmaps m' fmt"
  by (auto simp: rtpmaps_def)

lemma rtpmaps_filter:
  "rtpmaps m fmt = (\<lambda>a. snd (pjmedia_sdp_attr_get_rtpmap a)) `
     {a \<in> set (filter (\<lambda>a. attr_name a = ''rtpmap'') (m_attr m)). attr_matches ''rtpmap'' (Some fmt) a}"
  by (auto simp: rtpmaps_def attr_matches_def)

lemma rtpmaps_update [simp]: "rtpmaps (update_media_direction remote m) fmt = rtpmaps m fmt"
  unfolding rtpmaps_filter rtpmap_kept ..

lemma drop_attr_subset: "set (m_attr (drop_attr name fmt m)) \<subseteq> set (m_attr m)"
  by (auto simp: drop_attr_def pjmedia_sdp_media_remove_attr_def pjmedia_sdp_attr_remove_def
      split: option.split dest: in_set_takeD in_set_dropD)

lemma drop_fmt_attrs_subset: "set (m_attr (drop_fmt_attrs fmt m)) \<subseteq> set (m_attr m)"
  unfolding drop_fmt_attrs_def using drop_attr_subset by blast

end
