(* ===== verification/Sdp_Match.thy ===== *)
theory Sdp_Match
  imports Sdp_Neg_Fmt
begin

text \<open>
  The format callbacks of the codecs (\<^verbatim>\<open>pjmedia-codec/g7221_sdp_match.c\<close>, \<^verbatim>\<open>amr_sdp_match.c\<close>), and the
  contract between them and the negotiator: a callback rewrites nothing but \<^verbatim>\<open>fmtp\<close> attributes of the
  answer.
\<close>

section \<open>The contract\<close>

definition not_fmtp :: "pjmedia_sdp_attr \<Rightarrow> bool" where
  "not_fmtp a \<longleftrightarrow> attr_name a \<noteq> ''fmtp''"

locale format_callbacks =
  fixes E :: neg_env
  assumes only_fmtp: "run_cb E f offer i answer j allow = (status, attrs) \<Longrightarrow>
    filter not_fmtp attrs = filter not_fmtp (m_attr answer)"
begin

text \<open>What a custom match leaves alone.\<close>

lemma custom_match_frame:
  assumes "custom_fmt_match E name offer i answer j allow = (status, answer')"
  shows "\<exists>attrs. answer' = answer\<lparr>m_attr := attrs\<rparr> \<and> filter not_fmtp attrs = filter not_fmtp (m_attr answer)"
proof (cases "find_fmt_match (fmt_match_tbl E) name")
  case None
  then show ?thesis
    using assms by (intro exI [of _ "m_attr answer"]) (simp add: custom_fmt_match_def)
next
  case (Some f)
  obtain st attrs where r: "run_cb E f offer i answer j allow = (st, attrs)" by fastforce
  then show ?thesis
    using assms Some only_fmtp [OF r] by (intro exI [of _ attrs]) (simp add: custom_fmt_match_def)
qed

end

section \<open>Parameters of a format\<close>

fun pj_stristr :: "string \<Rightarrow> string \<Rightarrow> string option" where
  "pj_stristr s sub =
     (if length s < length sub then None
      else if pj_stricmp_eq (take (length sub) s) sub then Some s
      else case s of [] \<Rightarrow> None | c # cs \<Rightarrow> pj_stristr cs sub)"

declare pj_stristr.simps [simp del]

definition GET_FMTP_IVAL :: "string \<Rightarrow> string \<Rightarrow> 32 word" where
  "GET_FMTP_IVAL fmt_param param =
     (case pj_stristr fmt_param param of None \<Rightarrow> 0 | Some p \<Rightarrow> pj_strtoul (drop (length param) p))"

text \<open>The \<^verbatim>\<open>fmtp\<close> of the format at \<open>idx\<close>: its index in the attribute list and its parameters.\<close>

definition fmtp_of :: "pjmedia_sdp_media \<Rightarrow> nat \<Rightarrow> (nat \<times> (pj_status + pjmedia_sdp_fmtp)) option" where
  "fmtp_of m idx =
     map_option (\<lambda>k. (k, pjmedia_sdp_attr_get_fmtp (m_attr m ! k)))
       (pjmedia_sdp_media_find_attr2 m ''fmtp'' (Some (desc_fmt m ! idx)))"

section \<open>G.722.1\<close>

definition pjmedia_codec_g7221_match_sdp ::
    "pjmedia_sdp_media \<Rightarrow> nat \<Rightarrow> pjmedia_sdp_media \<Rightarrow> nat \<Rightarrow> bool \<Rightarrow> pj_status \<times> pjmedia_sdp_attr list" where
  "pjmedia_codec_g7221_match_sdp offer o_fmt_idx answer a_fmt_idx allow =
     (case fmtp_of offer o_fmt_idx of
        None \<Rightarrow> PJMEDIA_SDP_EINFMTP
      | Some (_, Inl status) \<Rightarrow> status
      | Some (_, Inr o_fmtp) \<Rightarrow>
          let o_bitrate = GET_FMTP_IVAL (fm_fmt_param o_fmtp) ''bitrate=''
          in (case fmtp_of answer a_fmt_idx of
                None \<Rightarrow> PJMEDIA_SDP_EINFMTP
              | Some (_, Inl status) \<Rightarrow> status
              | Some (_, Inr a_fmtp) \<Rightarrow>
                  if GET_FMTP_IVAL (fm_fmt_param a_fmtp) ''bitrate='' \<noteq> o_bitrate
                  then PJMEDIA_SDP_EFORMATNOTEQUAL else PJ_SUCCESS),
      m_attr answer)"

section \<open>AMR\<close>

text \<open>
  The position of the digit is a number of characters from the end of the value, since \<^verbatim>\<open>p\<close> points into
  it; writing behind its end leaves the characters of the value as they are.
\<close>

definition toggled_value :: "string \<Rightarrow> string \<Rightarrow> string" where
  "toggled_value val p =
     (let s = drop (length ''octet-align='') p
      in val[length val - length s := (if pj_strtoul s \<noteq> 0 then CHR ''0'' else CHR ''1'')])"

definition amr_toggle_octet_align :: "pjmedia_sdp_media \<Rightarrow> nat \<Rightarrow> pj_status \<times> pjmedia_sdp_attr list" where
  "amr_toggle_octet_align media fmt_idx =
     (case fmtp_of media fmt_idx of
        Some (k, Inl status) \<Rightarrow> (status, m_attr media)
      | Some (k, Inr fmtp) \<Rightarrow>
          let attr = m_attr media ! k;
              v = (case pj_stristr (fm_fmt_param fmtp) ''octet-align='' of
                     Some p \<Rightarrow> toggled_value (attr_value attr) p
                   | None \<Rightarrow> take 159 (fm_fmt_param fmtp @ '';octet-align=1''))
          in (PJ_SUCCESS, (m_attr media)[k := attr\<lparr>attr_value := v\<rparr>])
      | None \<Rightarrow>
          (PJ_SUCCESS, m_attr media @
             [\<lparr>attr_name = ''fmtp'', attr_value = take 159 (desc_fmt media ! fmt_idx @ '' octet-align=1'')\<rparr>]))"

text \<open>The four parameters of a side, zero without an \<^verbatim>\<open>fmtp\<close>.\<close>

definition amr_params :: "pjmedia_sdp_media \<Rightarrow> nat \<Rightarrow> pj_status + 32 word \<times> 32 word \<times> 32 word \<times> 32 word" where
  "amr_params m idx =
     (case fmtp_of m idx of
        None \<Rightarrow> Inr (0, 0, 0, 0)
      | Some (_, Inl status) \<Rightarrow> Inl status
      | Some (_, Inr fmtp) \<Rightarrow>
          Inr (GET_FMTP_IVAL (fm_fmt_param fmtp) ''octet-align='', GET_FMTP_IVAL (fm_fmt_param fmtp) ''crc='',
               GET_FMTP_IVAL (fm_fmt_param fmtp) ''robust-sorting='',
               GET_FMTP_IVAL (fm_fmt_param fmtp) ''interleaving=''))"

definition pjmedia_codec_amr_match_sdp ::
    "pjmedia_sdp_media \<Rightarrow> nat \<Rightarrow> pjmedia_sdp_media \<Rightarrow> nat \<Rightarrow> bool \<Rightarrow> pj_status \<times> pjmedia_sdp_attr list" where
  "pjmedia_codec_amr_match_sdp offer o_fmt_idx answer a_fmt_idx allow =
     (case amr_params offer o_fmt_idx of
        Inl status \<Rightarrow> (status, m_attr answer)
      | Inr (o_octet_align, o_crc, o_robust_sorting, o_interleaving) \<Rightarrow>
          (case amr_params answer a_fmt_idx of
             Inl status \<Rightarrow> (status, m_attr answer)
           | Inr (a_octet_align, a_crc, a_robust_sorting, a_interleaving) \<Rightarrow>
               if a_crc \<noteq> o_crc \<or> a_robust_sorting \<noteq> o_robust_sorting \<or> a_interleaving \<noteq> o_interleaving
               then (PJMEDIA_SDP_EFORMATNOTEQUAL, m_attr answer)
               else if a_octet_align \<noteq> o_octet_align then
                 (if allow then amr_toggle_octet_align answer a_fmt_idx
                  else (PJMEDIA_SDP_EFORMATNOTEQUAL, m_attr answer))
               else (PJ_SUCCESS, m_attr answer)))"

section \<open>The codecs keep the contract\<close>

lemma fmtp_of_index:
  "fmtp_of m idx = Some (k, r) \<Longrightarrow> k < length (m_attr m) \<and> attr_name (m_attr m ! k) = ''fmtp''"
  using attr_find_Some [of "m_attr m" "''fmtp''" "Some (desc_fmt m ! idx)" k]
  by (auto simp: fmtp_of_def pjmedia_sdp_media_find_attr2_def attr_matches_def)

lemma filter_update_other:
  "k < length xs \<Longrightarrow> \<not> P (xs ! k) \<Longrightarrow> \<not> P y \<Longrightarrow> filter P (xs[k := y]) = filter P xs"
proof (induction xs arbitrary: k)
  case (Cons x xs)
  then show ?case by (cases k) auto
qed simp

lemma toggle_keeps:
  "amr_toggle_octet_align m idx = (status, attrs) \<Longrightarrow> filter not_fmtp attrs = filter not_fmtp (m_attr m)"
  using fmtp_of_index [of m idx]
  by (auto simp: amr_toggle_octet_align_def Let_def not_fmtp_def filter_update_other
      split: option.splits sum.splits)

lemma amr_keeps:
  "pjmedia_codec_amr_match_sdp offer i answer j allow = (status, attrs) \<Longrightarrow>
   filter not_fmtp attrs = filter not_fmtp (m_attr answer)"
  using toggle_keeps [of answer j]
  by (auto simp: pjmedia_codec_amr_match_sdp_def split: sum.splits if_splits)

text \<open>The table the codecs of this library register: AMR and G.722.1.\<close>

definition codec_env :: neg_env where
  "codec_env = \<lparr>fmt_match_tbl = [(''AMR'', 0), (''G7221'', 1)],
     run_cb = (\<lambda>f. if f = 0 then pjmedia_codec_amr_match_sdp else pjmedia_codec_g7221_match_sdp)\<rparr>"

interpretation codecs: format_callbacks codec_env
  by unfold_locales
    (auto simp: codec_env_def pjmedia_codec_g7221_match_sdp_def dest: amr_keeps split: if_splits)

end
