(* ===== verification/Sdp_Neg_Remote.thy ===== *)
theory Sdp_Neg_Remote
  imports Sdp_Match
begin

text \<open>
  The effect of an answer from the remote side on the offer: sorting the formats, removing those of the
  answer that match nothing, and what holds of the two format lists at the end.
\<close>

section \<open>The exchange sort\<close>

lemma nth_swap:
  "i < length xs \<Longrightarrow> j < length xs \<Longrightarrow> swap i j xs ! k = (if k = j then xs ! i else if k = i then xs ! j else xs ! k)"
  by (simp add: swap_def nth_list_update)

lemma length_swap [simp]: "length (swap i j xs) = length xs"
  by (simp add: swap_def)

lemma mset_swapped [simp]: "i < length xs \<Longrightarrow> j < length xs \<Longrightarrow> mset (swap i j xs) = mset xs"
  by (simp add: swap_def mset_swap)

lemma zip_swap:
  "i < length xs \<Longrightarrow> j < length xs \<Longrightarrow> length ys = length xs \<Longrightarrow> zip (swap i j xs) (swap i j ys) = swap i j (zip xs ys)"
  by (simp add: swap_def zip_update)

definition sort_upto :: "nat \<Rightarrow> nat list \<Rightarrow> bool" where
  "sort_upto i ps \<longleftrightarrow> (\<forall>a b. a < i \<longrightarrow> a \<le> b \<longrightarrow> b < length ps \<longrightarrow> ps ! a \<le> ps ! b)"

definition same_pairs :: "nat list \<times> string list \<Rightarrow> nat list \<times> string list \<Rightarrow> bool" where
  "same_pairs s t \<longleftrightarrow> length (fst s) = length (snd s) \<and> length (fst t) = length (snd t)
     \<and> mset (zip (fst t) (snd t)) = mset (zip (fst s) (snd s))"

lemma same_pairs_length: "same_pairs s t \<Longrightarrow> length (snd t) = length (snd s)"
  unfolding same_pairs_def by (metis length_zip min.idem size_mset)

lemma resort_step_keeps:
  assumes "i < j" "j < length (snd s)" "same_pairs s0 s" "sort_upto i (fst s)"
    "\<forall>k. i \<le> k \<longrightarrow> k < j \<longrightarrow> fst s ! i \<le> fst s ! k"
  shows "same_pairs s0 (resort_step i j s) \<and> sort_upto i (fst (resort_step i j s)) \<and>
    (\<forall>k. i \<le> k \<longrightarrow> k < Suc j \<longrightarrow> fst (resort_step i j s) ! i \<le> fst (resort_step i j s) ! k)"
proof (cases "fst s ! i > fst s ! j")
  case True
  have l: "length (fst s) = length (snd s)" using assms(3) by (simp add: same_pairs_def)
  note n = nth_swap [of i "fst s" j]
  have e: "fst (resort_step i j s) = swap i j (fst s)" using True by (simp add: resort_step_def)
  have "same_pairs s0 (resort_step i j s)"
    using True assms l by (simp add: resort_step_def same_pairs_def zip_swap)
  moreover have "sort_upto i (fst (resort_step i j s))"
    unfolding e sort_upto_def using assms(1,2,4) l by (auto simp: n sort_upto_def)
  moreover have "fst (resort_step i j s) ! i \<le> fst (resort_step i j s) ! k" if "i \<le> k" "k < Suc j" for k
  proof -
    have "fst s ! j \<le> fst s ! k" if "k < j" using True assms(5) that \<open>i \<le> k\<close> by (metis less_imp_le_nat order_trans)
    then show ?thesis using assms(1,2) True that unfolding e by (auto simp: n l less_Suc_eq)
  qed
  ultimately show ?thesis by blast
next
  case False
  then show ?thesis using assms by (auto simp: resort_step_def less_Suc_eq)
qed

lemma resort_inner:
  assumes "same_pairs s0 s" "sort_upto i (fst s)" "m \<le> length (snd s)" "i < m"
  shows "same_pairs s0 (fold (resort_step i) [Suc i..<m] s) \<and>
    sort_upto i (fst (fold (resort_step i) [Suc i..<m] s)) \<and>
    (\<forall>k. i \<le> k \<longrightarrow> k < m \<longrightarrow> fst (fold (resort_step i) [Suc i..<m] s) ! i \<le> fst (fold (resort_step i) [Suc i..<m] s) ! k)"
  using assms(3,4)
proof (induction m)
  case (Suc m)
  show ?case
  proof (cases "i < m")
    case True
    let ?t = "fold (resort_step i) [Suc i..<m] s"
    have t: "same_pairs s0 ?t" "sort_upto i (fst ?t)" "\<forall>k. i \<le> k \<longrightarrow> k < m \<longrightarrow> fst ?t ! i \<le> fst ?t ! k"
      using Suc True by auto
    have "m < length (snd ?t)" using same_pairs_length [OF t(1)] same_pairs_length [OF assms(1)] Suc by simp
    from resort_step_keeps [OF True this t] show ?thesis using True by simp
  next
    case False
    then have "i = m" using Suc by simp
    then show ?thesis using assms by (simp add: le_less_Suc_eq)
  qed
qed simp

lemma resort_outer:
  assumes "length (fst s) = length (snd s)" "m \<le> length (snd s)"
  shows "same_pairs s (fold (\<lambda>i. fold (resort_step i) [Suc i..<length (snd s)]) [0..<m] s) \<and>
    sort_upto m (fst (fold (\<lambda>i. fold (resort_step i) [Suc i..<length (snd s)]) [0..<m] s))"
  using assms(2)
proof (induction m)
  case 0
  then show ?case using assms(1) by (simp add: same_pairs_def sort_upto_def)
next
  case (Suc m)
  let ?t = "fold (\<lambda>i. fold (resort_step i) [Suc i..<length (snd s)]) [0..<m] s"
  let ?u = "fold (resort_step m) [Suc m..<length (snd s)] ?t"
  have t: "same_pairs s ?t" "sort_upto m (fst ?t)" using Suc by auto
  have l: "length (snd s) = length (snd ?t)" using same_pairs_length [OF t(1)] by simp
  have u: "same_pairs s ?u" "sort_upto m (fst ?u)"
    "\<forall>k. m \<le> k \<longrightarrow> k < length (snd s) \<longrightarrow> fst ?u ! m \<le> fst ?u ! k"
    using resort_inner [OF t, of "length (snd s)"] Suc(2) l by auto
  have lu: "length (fst ?u) = length (snd s)"
    using u(1) same_pairs_length [OF u(1)] by (simp add: same_pairs_def)
  have "sort_upto (Suc m) (fst ?u)"
    unfolding sort_upto_def
  proof (intro allI impI)
    fix a b assume ab: "a < Suc m" "a \<le> b" "b < length (fst ?u)"
    show "fst ?u ! a \<le> fst ?u ! b"
      using u(2) u(3) lu ab by (cases "a = m") (simp_all add: sort_upto_def)
  qed
  then show ?case using u(1) by simp
qed

lemma resort_sorts:
  assumes "length ps = length fs" "resort (ps, fs) = (ps', fs')"
  shows "mset (zip ps' fs') = mset (zip ps fs)" "length ps' = length ps" "length fs' = length fs" "sorted ps'"
proof -
  have r: "same_pairs (ps, fs) (ps', fs')" "sort_upto (length fs) ps'"
    using resort_outer [of "(ps, fs)" "length fs"] assms by (simp_all add: resort_def)
  show "mset (zip ps' fs') = mset (zip ps fs)" using r(1) by (simp add: same_pairs_def)
  show l: "length fs' = length fs" "length ps' = length ps"
    using same_pairs_length [OF r(1)] r(1) assms(1) by (simp_all add: same_pairs_def)
  show "sorted ps'"
    unfolding sorted_iff_nth_mono using r(2) l assms(1) by (auto simp: sort_upto_def)
qed

section \<open>Removing formats\<close>

lemma erase_frame [simp]:
  "desc_fmt (erase_fmt i m) = take i (desc_fmt m) @ drop (Suc i) (desc_fmt m)" "m_attr (erase_fmt i m) = m_attr m"
  "desc_media (erase_fmt i m) = desc_media m" "desc_port (erase_fmt i m) = desc_port m"
  "desc_transport (erase_fmt i m) = desc_transport m" "m_conn (erase_fmt i m) = m_conn m"
  by (simp_all add: erase_fmt_def)

text \<open>
  The formats of the answer that stay: those the first \<open>r\<close> priorities name, for as many as are strictly
  increasing (\<open>m\<close>) and more.
\<close>

lemma drop_unmatched_kept:
  assumes "desc_fmt answer = map (\<lambda>k. A ! (prior ! k)) [0..<i] @ drop (i + del) A" "i \<le> n"
    "\<forall>k. i \<le> k \<longrightarrow> k < m \<longrightarrow> i + del \<le> prior ! k \<and> prior ! k < length A"
    "\<forall>k l. k < l \<longrightarrow> l < m \<longrightarrow> prior ! k < prior ! l" "m \<le> n"
  shows "\<exists>r. m \<le> r \<and> r \<le> n \<and>
    desc_fmt (drop_unmatched_formats prior n i del answer) = map (\<lambda>k. A ! (prior ! k)) [0..<r]"
  using assms
proof (induction prior n i del answer rule: drop_unmatched_formats.induct)
  case (1 prior n i del answer)
  note eq = drop_unmatched_formats.simps [of prior n i del answer]
  show ?case
  proof (cases "i < length (desc_fmt answer)")
    case False
    then have d: "length A \<le> i + del" using 1(3) by simp
    have "\<not> i < m" using 1(5) d by (metis le_refl not_le order.trans)
    then show ?thesis using False 1(3,4) d by (intro exI [of _ i]) (simp add: eq)
  next
    case True
    then have c: "i + del < length A" using 1(3) by simp
    have hd: "drop (i + del) A = A ! (i + del) # drop (i + Suc del) A" using c by (simp add: Cons_nth_drop_Suc)
    show ?thesis
    proof (cases "i \<ge> n \<or> int (prior ! i) - int del \<noteq> int i")
      case drop: True
      have ne: "i \<ge> n \<or> prior ! i \<noteq> i + del" using drop by auto
      have "desc_fmt (erase_fmt i (drop_fmt_attrs (desc_fmt answer ! i) answer)) =
          map (\<lambda>k. A ! (prior ! k)) [0..<i] @ drop (i + Suc del) A"
        using 1(3) hd by simp
      moreover have "\<forall>k. i \<le> k \<longrightarrow> k < m \<longrightarrow> i + Suc del \<le> prior ! k \<and> prior ! k < length A"
      proof (intro allI impI)
        fix k assume k: "i \<le> k" "k < m"
        then have "i < m" "prior ! i \<le> prior ! k" using 1(6) by (auto simp: le_less)
        then have "i + Suc del \<le> prior ! i" using 1(5,7) ne by force
        then show "i + Suc del \<le> prior ! k \<and> prior ! k < length A" using 1(5) k \<open>prior ! i \<le> prior ! k\<close> by auto
      qed
      ultimately show ?thesis using 1(1) [OF True drop] 1(4,6,7) True drop by (simp add: eq)
    next
      case keep: False
      then have p: "prior ! i = i + del" "i < n" by auto
      have "desc_fmt answer = map (\<lambda>k. A ! (prior ! k)) [0..<Suc i] @ drop (Suc i + del) A"
        using 1(3) hd p by simp
      moreover have "\<forall>k. Suc i \<le> k \<longrightarrow> k < m \<longrightarrow> Suc i + del \<le> prior ! k \<and> prior ! k < length A"
        using 1(5,6) p by (metis Suc_le_eq add_Suc less_imp_le_nat)
      ultimately show ?thesis using 1(2) [OF True keep] 1(6,7) p(2) True keep by (simp add: eq)
    qed
  qed
qed

lemma drop_unmatched_frame:
  "desc_media (drop_unmatched_formats prior n i del answer) = desc_media answer \<and>
   desc_port (drop_unmatched_formats prior n i del answer) = desc_port answer \<and>
   desc_transport (drop_unmatched_formats prior n i del answer) = desc_transport answer"
proof (induction prior n i del answer rule: drop_unmatched_formats.induct)
  case (1 prior n i del answer)
  then show ?case by (subst (1 2 3) drop_unmatched_formats.simps) simp
qed

section \<open>Matching the formats of the offer\<close>

text \<open>A format of the offer and one of the answer agree: the same number, or encodings that match.\<close>

definition formats_agree :: "pjmedia_sdp_media \<Rightarrow> pjmedia_sdp_media \<Rightarrow> string \<Rightarrow> string \<Rightarrow> bool" where
  "formats_agree offer answer f g \<longleftrightarrow>
     (if pj_strtoul f < 96 then f = g
      else \<exists>om\<in>rtpmaps offer f. \<exists>am\<in>rtpmaps answer g. answer_rtpmap_matches om am)"

lemma index_of_Some: "index_of f fs = Some j \<Longrightarrow> j < length fs \<and> fs ! j = f"
  by (induction fs arbitrary: j) (auto split: if_splits)

lemma index_of_None: "index_of f fs = None \<longleftrightarrow> f \<notin> set fs"
  by (induction fs) auto

text \<open>Two versions of an answer that only differ in \<^verbatim>\<open>fmtp\<close> attributes.\<close>

definition fmtp_differ :: "pjmedia_sdp_media \<Rightarrow> pjmedia_sdp_media \<Rightarrow> bool" where
  "fmtp_differ a b \<longleftrightarrow> (\<exists>attrs. b = a\<lparr>m_attr := attrs\<rparr> \<and> filter not_fmtp attrs = filter not_fmtp (m_attr a))"

lemma fmtp_differ_refl [simp]: "fmtp_differ a a"
  by (auto simp: fmtp_differ_def intro: exI [of _ "m_attr a"])

lemma fmtp_differ_trans: "fmtp_differ a b \<Longrightarrow> fmtp_differ b c \<Longrightarrow> fmtp_differ a c"
  by (auto simp: fmtp_differ_def)

lemma fmtp_differ_frame:
  assumes "fmtp_differ a b"
  shows "desc_fmt b = desc_fmt a" "desc_media b = desc_media a" "desc_port b = desc_port a"
    "desc_transport b = desc_transport a" "m_conn b = m_conn a" "rtpmaps b f = rtpmaps a f"
    "name \<noteq> ''fmtp'' \<Longrightarrow> has_attr b name = has_attr a name"
proof -
  obtain attrs where b: "b = a\<lparr>m_attr := attrs\<rparr>" "filter not_fmtp attrs = filter not_fmtp (m_attr a)"
    using assms by (auto simp: fmtp_differ_def)
  have s: "x \<in> set attrs \<longleftrightarrow> x \<in> set (m_attr a)" if "attr_name x \<noteq> ''fmtp''" for x
    using arg_cong [OF b(2), of set] that by (auto simp: not_fmtp_def set_eq_iff)
  show "desc_fmt b = desc_fmt a" "desc_media b = desc_media a" "desc_port b = desc_port a"
    "desc_transport b = desc_transport a" "m_conn b = m_conn a" by (simp_all add: b(1))
  show "rtpmaps b f = rtpmaps a f" using s by (auto simp: rtpmaps_def b(1) attr_matches_def)
  show "name \<noteq> ''fmtp'' \<Longrightarrow> has_attr b name = has_attr a name" using s by (auto simp: has_attr_iff b(1))
qed

lemma agree_mono:
  assumes "formats_agree offer' answer' f g" "set (m_attr offer') \<subseteq> set (m_attr offer)"
    "\<And>f. rtpmaps answer' f = rtpmaps answer f"
  shows "formats_agree offer answer f g"
  using assms(1,3) rtpmaps_mono [OF assms(2), of f] by (auto simp: formats_agree_def split: if_splits)

text \<open>\<open>narrowed\<close> is what holds of the two lines while the first \<open>i\<close> formats are settled.\<close>

definition narrowed ::
    "pjmedia_sdp_media \<Rightarrow> pjmedia_sdp_media \<Rightarrow> nat list \<Rightarrow> pjmedia_sdp_media \<Rightarrow> pjmedia_sdp_media \<Rightarrow> bool" where
  "narrowed offer0 answer0 prior offer answer \<longleftrightarrow>
     fmtp_differ answer0 answer \<and> set (m_attr offer) \<subseteq> set (m_attr offer0) \<and>
     (\<forall>name. name \<notin> {''rtpmap'', ''fmtp''} \<longrightarrow> has_attr offer name = has_attr offer0 name) \<and>
     desc_media offer = desc_media offer0 \<and> desc_port offer = desc_port offer0 \<and>
     desc_transport offer = desc_transport offer0 \<and>
     length prior \<le> length (desc_fmt offer) \<and> set (desc_fmt offer) \<subseteq> set (desc_fmt offer0) \<and>
     (distinct (desc_fmt offer0) \<longrightarrow> distinct (desc_fmt offer)) \<and>
     (\<forall>k<length prior. prior ! k < length (desc_fmt answer0) \<and>
        formats_agree offer0 answer0 (desc_fmt offer ! k) (desc_fmt answer0 ! (prior ! k))) \<and>
     (\<forall>f\<in>set (desc_fmt offer0). pj_strtoul f < 96 \<longrightarrow> f \<in> set (desc_fmt answer0) \<longrightarrow> f \<in> set (desc_fmt offer))"

lemma has_attr_drop: "name \<noteq> n \<Longrightarrow> has_attr (drop_attr n fmt m) name = has_attr m name"
proof (cases "pjmedia_sdp_media_find_attr2 m n (Some fmt)")
  case (Some k)
  then have k: "k < length (m_attr m)" "attr_name (m_attr m ! k) = n"
    using attr_find_Some [of "m_attr m" n "Some fmt" k] by (auto simp: pjmedia_sdp_media_find_attr2_def attr_matches_def)
  assume "name \<noteq> n"
  moreover have "set (m_attr m) = set (take k (m_attr m) @ m_attr m ! k # drop (Suc k) (m_attr m))"
    using id_take_nth_drop [OF k(1)] by simp
  ultimately show ?thesis
    using Some k(2)
    by (auto simp: has_attr_iff drop_attr_def pjmedia_sdp_media_remove_attr_def pjmedia_sdp_attr_remove_def)
qed (simp add: drop_attr_def)

lemma has_attr_dropped:
  "name \<notin> {''rtpmap'', ''fmtp''} \<Longrightarrow> has_attr (drop_fmt_attrs fmt m) name = has_attr m name"
  by (simp add: drop_fmt_attrs_def has_attr_drop)

lemma narrowedD:
  assumes "narrowed offer0 answer0 prior offer answer"
  shows "fmtp_differ answer0 answer" "set (m_attr offer) \<subseteq> set (m_attr offer0)"
    "name \<notin> {''rtpmap'', ''fmtp''} \<Longrightarrow> has_attr offer name = has_attr offer0 name"
    "desc_media offer = desc_media offer0" "desc_port offer = desc_port offer0"
    "desc_transport offer = desc_transport offer0"
    "length prior \<le> length (desc_fmt offer)" "set (desc_fmt offer) \<subseteq> set (desc_fmt offer0)"
    "distinct (desc_fmt offer0) \<Longrightarrow> distinct (desc_fmt offer)"
    "k < length prior \<Longrightarrow> prior ! k < length (desc_fmt answer0)
       \<and> formats_agree offer0 answer0 (desc_fmt offer ! k) (desc_fmt answer0 ! (prior ! k))"
    "f \<in> set (desc_fmt offer0) \<Longrightarrow> pj_strtoul f < 96 \<Longrightarrow> f \<in> set (desc_fmt answer0) \<Longrightarrow> f \<in> set (desc_fmt offer)"
  using assms unfolding narrowed_def by blast+

lemma keep_matched_error: "keep_matched_formats E i prior offer answer = Inl status \<Longrightarrow> status = PJ_EBUG"
proof (induction E i prior offer answer rule: keep_matched_formats.induct)
  case (1 E i prior offer answer)
  then show ?case
    by (subst (asm) (3) keep_matched_formats.simps)
      (auto simp: match_answer_fmt_def Let_def split: if_splits sum.splits option.splits)
qed

context format_callbacks
begin

lemma custom_match_differ:
  "custom_fmt_match E name offer i answer j allow = (status, answer') \<Longrightarrow> fmtp_differ answer answer'"
  using custom_match_frame by (auto simp: fmtp_differ_def)

lemma match_answer_rtpmap_ok:
  "match_answer_rtpmap E offer i omap js answer = (r, answer') \<Longrightarrow> \<forall>j\<in>set js. j < length (desc_fmt answer) \<Longrightarrow>
   fmtp_differ answer answer' \<and>
   (\<forall>j. r = Some j \<longrightarrow> j < length (desc_fmt answer) \<and>
      (\<exists>am\<in>rtpmaps answer (desc_fmt answer ! j). answer_rtpmap_matches omap am))"
proof (induction js arbitrary: answer)
  case (Cons j js)
  show ?case
  proof (cases "pjmedia_sdp_media_find_attr2 answer ''rtpmap'' (Some (desc_fmt answer ! j))")
    case None
    then show ?thesis using Cons by simp
  next
    case (Some k)
    let ?am = "snd (pjmedia_sdp_attr_get_rtpmap (m_attr answer ! k))"
    show ?thesis
    proof (cases "answer_rtpmap_matches omap ?am")
      case True
      obtain st a where c: "custom_fmt_match E (rm_enc_name omap) offer i answer j False = (st, a)" by fastforce
      note d = custom_match_differ [OF c]
      have "?thesis" if "st = PJ_SUCCESS"
        using Cons(2,3) Some True c d that found_rtpmap [OF Some] by auto
      moreover have "?thesis" if "st \<noteq> PJ_SUCCESS"
        using Cons(1) [of a] Cons(2,3) Some True c that fmtp_differ_frame [OF d] fmtp_differ_trans [OF d] by auto
      ultimately show ?thesis by blast
    next
      case False
      then show ?thesis using Cons Some by simp
    qed
  qed
qed simp

lemma match_answer_fmt_ok:
  assumes "match_answer_fmt E offer i answer = Inr (r, answer')" "i < length (desc_fmt offer)"
  shows "fmtp_differ answer answer'"
    "r = Some j \<Longrightarrow> j < length (desc_fmt answer) \<and> formats_agree offer answer (desc_fmt offer ! i) (desc_fmt answer ! j)"
    "pj_strtoul (desc_fmt offer ! i) < 96 \<Longrightarrow> r = None \<longleftrightarrow> desc_fmt offer ! i \<notin> set (desc_fmt answer)"
proof -
  let ?f = "desc_fmt offer ! i"
  have "fmtp_differ answer answer' \<and> (\<forall>j. r = Some j \<longrightarrow> j < length (desc_fmt answer) \<and>
      formats_agree offer answer ?f (desc_fmt answer ! j)) \<and>
      (pj_strtoul ?f < 96 \<longrightarrow> (r = None \<longleftrightarrow> ?f \<notin> set (desc_fmt answer)))"
  proof (cases "pj_strtoul ?f < 96")
    case True
    then show ?thesis
      using assms by (auto simp: match_answer_fmt_def formats_agree_def index_of_None dest: index_of_Some)
  next
    case False
    then obtain k where k: "pjmedia_sdp_media_find_attr2 offer ''rtpmap'' (Some ?f) = Some k"
      "match_answer_rtpmap E offer i (snd (pjmedia_sdp_attr_get_rtpmap (m_attr offer ! k)))
        [0..<length (desc_fmt answer)] answer = (r, answer')"
      using assms(1) by (auto simp: match_answer_fmt_def Let_def split: option.splits)
    show ?thesis
      using match_answer_rtpmap_ok [OF k(2)] found_rtpmap [OF k(1)] False by (auto simp: formats_agree_def) blast
  qed
  then show "fmtp_differ answer answer'"
    "r = Some j \<Longrightarrow> j < length (desc_fmt answer) \<and> formats_agree offer answer ?f (desc_fmt answer ! j)"
    "pj_strtoul ?f < 96 \<Longrightarrow> r = None \<longleftrightarrow> ?f \<notin> set (desc_fmt answer)"
    by blast+
qed

lemma narrowed_drop:
  assumes n: "narrowed offer0 answer0 prior offer answer" and i: "length prior = i" "i < length (desc_fmt offer)"
    and m: "match_answer_fmt E offer i answer = Inr (None, a)"
  shows "narrowed offer0 answer0 prior (erase_fmt i (drop_fmt_attrs (desc_fmt offer ! i) offer)) a"
proof -
  note d = narrowedD [OF n] and ok = match_answer_fmt_ok [OF m i(2)]
  let ?fs = "desc_fmt offer"
  have split: "?fs = take i ?fs @ ?fs ! i # drop (Suc i) ?fs" using id_take_nth_drop [OF i(2)] .
  have sub: "set (take i ?fs @ drop (Suc i) ?fs) \<subseteq> set ?fs"
    by (auto dest: in_set_takeD in_set_dropD)
  have other: "f \<in> set (take i ?fs @ drop (Suc i) ?fs)" if "f \<in> set ?fs" "f \<noteq> ?fs ! i" for f
    using that by (subst (asm) split) auto
  have dist: "distinct (take i ?fs @ drop (Suc i) ?fs)" if "distinct ?fs"
    using that by (subst (asm) split) auto
  have nth: "(take i ?fs @ drop (Suc i) ?fs) ! k = ?fs ! k" if "k < i" for k
    using that i(2) by (simp add: nth_append)
  have gone: "?fs ! i \<notin> set (desc_fmt answer0)" if "pj_strtoul (?fs ! i) < 96"
    using ok(3) that fmtp_differ_frame(1) [OF d(1)] by simp
  show ?thesis
    unfolding narrowed_def erase_frame drop_fmt_attrs_frame
  proof (intro conjI)
    show "fmtp_differ answer0 a" using fmtp_differ_trans [OF d(1) ok(1)] .
    show "set (m_attr (drop_fmt_attrs (?fs ! i) offer)) \<subseteq> set (m_attr offer0)"
      using drop_fmt_attrs_subset d(2) by blast
    show "\<forall>name. name \<notin> {''rtpmap'', ''fmtp''} \<longrightarrow>
        has_attr (erase_fmt i (drop_fmt_attrs (?fs ! i) offer)) name = has_attr offer0 name"
      using d(3) has_attr_dropped by (simp add: has_attr_iff [of "erase_fmt i m" for m] has_attr_iff [symmetric])
    show "\<forall>f\<in>set (desc_fmt offer0). pj_strtoul f < 96 \<longrightarrow> f \<in> set (desc_fmt answer0) \<longrightarrow>
        f \<in> set (take i ?fs @ drop (Suc i) ?fs)"
      using d(11) other gone by blast
    show "\<forall>k<length prior. prior ! k < length (desc_fmt answer0) \<and>
        formats_agree offer0 answer0 ((take i ?fs @ drop (Suc i) ?fs) ! k) (desc_fmt answer0 ! (prior ! k))"
      using d(10) nth i(1) by simp
  qed (use d(4-9) i sub dist in auto)
qed

lemma narrowed_keep:
  assumes n: "narrowed offer0 answer0 prior offer answer" and i: "length prior = i" "i < length (desc_fmt offer)"
    and m: "match_answer_fmt E offer i answer = Inr (Some j, a)"
  shows "narrowed offer0 answer0 (prior @ [j]) offer a"
proof -
  note d = narrowedD [OF n] and ok = match_answer_fmt_ok [OF m i(2)]
  have j: "j < length (desc_fmt answer0)" "formats_agree offer0 answer0 (desc_fmt offer ! i) (desc_fmt answer0 ! j)"
    using ok(2) [OF refl] agree_mono [OF _ d(2)] fmtp_differ_frame [OF d(1)] by auto
  show ?thesis
    unfolding narrowed_def
  proof (intro conjI)
    show "fmtp_differ answer0 a" using fmtp_differ_trans [OF d(1) ok(1)] .
    show "\<forall>k<length (prior @ [j]). (prior @ [j]) ! k < length (desc_fmt answer0) \<and>
        formats_agree offer0 answer0 (desc_fmt offer ! k) (desc_fmt answer0 ! ((prior @ [j]) ! k))"
      using d(10) j i(1) by (auto simp: nth_append less_Suc_eq)
  qed (use d(2-9,11) i in auto)
qed

lemma keep_matched_ok:
  assumes "narrowed offer0 answer0 prior offer answer" "length prior = i"
    "keep_matched_formats E i prior offer answer = Inr (prior', offer', answer')"
  shows "narrowed offer0 answer0 prior' offer' answer' \<and> length prior' = length (desc_fmt offer')"
  using assms
proof (induction "length (desc_fmt offer) - i" arbitrary: i prior offer answer rule: less_induct)
  case less
  note eq = keep_matched_formats.simps [of E i prior offer answer]
  show ?case
  proof (cases "i < length (desc_fmt offer)")
    case False
    then have "prior' = prior" "offer' = offer" "answer' = answer" using less(4) by (simp_all add: eq)
    then show ?thesis using less(2,3) narrowedD(7) [OF less(2)] False by simp
  next
    case True
    obtain r a where m: "match_answer_fmt E offer i answer = Inr (r, a)"
      using less(4) True by (auto simp: eq split: sum.splits)
    show ?thesis
    proof (cases r)
      case None
      let ?o = "erase_fmt i (drop_fmt_attrs (desc_fmt offer ! i) offer)"
      have k: "keep_matched_formats E i prior ?o a = Inr (prior', offer', answer')"
        using less(4) True m None by (simp add: eq)
      have l: "length (desc_fmt ?o) - i < length (desc_fmt offer) - i" using True by simp
      show ?thesis using less(1) [OF l narrowed_drop [OF less(2,3) True m [unfolded None]] less(3) k] .
    next
      case (Some j)
      have k: "keep_matched_formats E (Suc i) (prior @ [j]) offer a = Inr (prior', offer', answer')"
        using less(4) True m Some by (simp add: eq)
      have l: "length (desc_fmt offer) - Suc i < length (desc_fmt offer) - i" using True by simp
      show ?thesis using less(1) [OF l narrowed_keep [OF less(2,3) True m [unfolded Some]] _ k] less(3) by simp
    qed
  qed
qed

end

text \<open>The formats of the two lines afterwards, \<open>prior\<close> being sorted with those of the offer.\<close>

lemma sorted_formats:
  assumes n: "narrowed offer answer prior offer' answer'" and l: "length prior = length (desc_fmt offer')"
    and s: "resort (prior, desc_fmt offer') = (ps, fs)" and ne: "desc_fmt offer' \<noteq> []"
  shows "set fs = set (desc_fmt offer')" "length fs = length (desc_fmt offer')" "length ps = length fs" "sorted ps"
    "k < length fs \<Longrightarrow> ps ! k < length (desc_fmt answer) \<and> formats_agree offer answer (fs ! k) (desc_fmt answer ! (ps ! k))"
    "mset ps = mset prior"
proof -
  note r = resort_sorts [OF l s]
  show len: "length fs = length (desc_fmt offer')" "length ps = length fs" and "sorted ps" using r l by simp_all
  have m: "mset (map fst (zip ps fs)) = mset (map fst (zip prior (desc_fmt offer')))"
    "mset (map snd (zip ps fs)) = mset (map snd (zip prior (desc_fmt offer')))" using r(1) by (simp_all only: mset_map)
  show "mset ps = mset prior" using m(1) r(2,3) l by simp
  have "mset fs = mset (desc_fmt offer')" using m(2) r(2,3) l by simp
  then show "set fs = set (desc_fmt offer')" by (metis set_mset_mset)
  show "k < length fs \<Longrightarrow> ps ! k < length (desc_fmt answer) \<and> formats_agree offer answer (fs ! k) (desc_fmt answer ! (ps ! k))"
  proof -
    assume "k < length fs"
    then have "(ps ! k, fs ! k) \<in> set (zip ps fs)" using len by (auto simp: set_zip)
    then have "(ps ! k, fs ! k) \<in> set (zip prior (desc_fmt offer'))" using r(1) by (metis set_mset_mset)
    then obtain k' where "k' < length prior" "ps ! k = prior ! k'" "fs ! k = desc_fmt offer' ! k'"
      by (auto simp: set_zip)
    then show ?thesis using narrowedD(10) [OF n] by simp
  qed
qed

text \<open>No two formats of the offer agree with the same format of the answer.\<close>

definition unambiguous :: "pjmedia_sdp_media \<Rightarrow> pjmedia_sdp_media \<Rightarrow> bool" where
  "unambiguous offer answer \<longleftrightarrow> distinct (desc_fmt offer) \<and>
     (\<forall>f\<in>set (desc_fmt offer). \<forall>f'\<in>set (desc_fmt offer). \<forall>g\<in>set (desc_fmt answer).
        formats_agree offer answer f g \<longrightarrow> formats_agree offer answer f' g \<longrightarrow> f = f')"

lemma unambiguous_prior:
  assumes n: "narrowed offer answer prior offer' answer'" and l: "length prior = length (desc_fmt offer')"
    and u: "unambiguous offer answer"
  shows "distinct prior"
proof (unfold distinct_conv_nth, intro allI impI)
  fix k k' assume k: "k < length prior" "k' < length prior" "k \<noteq> k'"
  note d = narrowedD [OF n]
  have f: "desc_fmt offer' ! k \<in> set (desc_fmt offer)" "desc_fmt offer' ! k' \<in> set (desc_fmt offer)"
    using d(8) k l by (metis nth_mem subsetD)+
  have "desc_fmt offer' ! k \<noteq> desc_fmt offer' ! k'"
    using d(9) u k l by (auto simp: unambiguous_def nth_eq_iff_index_eq)
  then show "prior ! k \<noteq> prior ! k'"
    using d(10) [OF k(1)] d(10) [OF k(2)] u f by (metis nth_mem unambiguous_def)
qed

context format_callbacks
begin

lemma sym_formats_ok:
  assumes "sym_formats E offer answer = (PJ_SUCCESS, offer', answer')"
  shows "desc_fmt offer' \<noteq> [] \<and> set (desc_fmt offer') \<subseteq> set (desc_fmt offer) \<and>
    desc_fmt answer' \<noteq> [] \<and> length (desc_fmt answer') \<le> length (desc_fmt offer') \<and>
    (\<forall>k<length (desc_fmt answer'). desc_fmt answer' ! k \<in> set (desc_fmt answer)
       \<and> formats_agree offer answer (desc_fmt offer' ! k) (desc_fmt answer' ! k)) \<and>
    (\<forall>f\<in>set (desc_fmt offer). pj_strtoul f < 96 \<longrightarrow> f \<in> set (desc_fmt answer) \<longrightarrow> f \<in> set (desc_fmt offer')) \<and>
    (unambiguous offer answer \<longrightarrow> length (desc_fmt answer') = length (desc_fmt offer')) \<and>
    local_dir offer' = local_dir offer \<and> desc_port offer' = desc_port offer \<and> desc_port answer' = desc_port answer
    \<and> desc_media offer' = desc_media offer \<and> desc_media answer' = desc_media answer"
proof -
  obtain prior o' a' where k: "keep_matched_formats E 0 [] offer answer = Inr (prior, o', a')" and ne: "desc_fmt o' \<noteq> []"
    using assms by (auto simp: sym_formats_def split: sum.splits if_splits dest: keep_matched_error)
  obtain ps fs where s: "resort (prior, desc_fmt o') = (ps, fs)" by fastforce
  have e: "offer' = o'\<lparr>desc_fmt := fs\<rparr>" "answer' = drop_unmatched_formats ps (length fs) 0 0 a'"
    using assms k ne s by (auto simp: sym_formats_def split: if_splits)
  have n: "narrowed offer answer prior o' a'" "length prior = length (desc_fmt o')"
    using keep_matched_ok [OF _ _ k, of offer answer] by (auto simp: narrowed_def)
  note d = narrowedD [OF n(1)] and f = sorted_formats [OF n s ne]
  note fr = fmtp_differ_frame [OF d(1)]
  have fs: "0 < length fs" using f(2) ne by simp
  have fa: "desc_fmt a' = map (\<lambda>k. desc_fmt answer ! (ps ! k)) [0..<0] @ drop (0 + 0) (desc_fmt answer)" by (simp add: fr)
  have run: "\<exists>r. m \<le> r \<and> r \<le> length fs \<and> desc_fmt answer' = map (\<lambda>k. desc_fmt answer ! (ps ! k)) [0..<r]"
    if "m \<le> length fs" "\<forall>k l. k < l \<longrightarrow> l < m \<longrightarrow> ps ! k < ps ! l" for m
    unfolding e(2) using drop_unmatched_kept [OF fa _ _ that(2,1)] f(5) that(1) by simp
  obtain r where r: "1 \<le> r" "r \<le> length fs" "desc_fmt answer' = map (\<lambda>k. desc_fmt answer ! (ps ! k)) [0..<r]"
    using run [of 1] fs by auto
  have strict: "\<forall>k l. k < l \<longrightarrow> l < length fs \<longrightarrow> ps ! k < ps ! l" if "distinct ps"
    using that f(3,4) by (metis le_neq_implies_less less_imp_le_nat less_trans nth_eq_iff_index_eq sorted_nth_mono order.strict_iff_order)
  have "length (desc_fmt answer') = length (desc_fmt offer')" if u: "unambiguous offer answer"
  proof -
    have "distinct ps" using unambiguous_prior [OF n u] f(6) by (metis mset_eq_imp_distinct_iff)
    then show ?thesis using run [OF le_refl] strict by (auto simp: e(1))
  qed
  moreover have "local_dir offer' = local_dir offer"
    using d(3) by (simp add: local_dir_def e(1) has_attr_iff [of "m\<lparr>desc_fmt := x\<rparr>" for m x] has_attr_iff [symmetric])
  ultimately show ?thesis
    using f(1,2,5) r d(4,5,8,11) fr fs drop_unmatched_frame [of ps "length fs" 0 0 a'] by (auto simp: e)
qed

end

end
