(* ===== verification/Sdp_Neg_Local.thy ===== *)
theory Sdp_Neg_Local
  imports Sdp_Neg_Remote
begin

text \<open>
  The answer the negotiator builds for an offer: which pairs of formats the search finds, how the local
  line is cut down to them, and how the lines of the offer are given to local ones.
\<close>

section \<open>Bringing formats to the front\<close>

lemma index_from_Some: "index_from i fmts f = Some j \<Longrightarrow> i \<le> j \<and> j < length fmts \<and> fmts ! j = f"
  by (auto dest!: index_of_Some)

lemma to_front_Some:
  "to_front i pts fmts = Some fs \<Longrightarrow> i \<le> length fmts \<Longrightarrow>
   length fs = length fmts \<and> i + length pts \<le> length fmts \<and> take (i + length pts) fs = take i fmts @ pts \<and> mset fs = mset fmts"
proof (induction i pts fmts rule: to_front.induct)
  case (2 i pt pts fmts)
  then obtain j where j: "index_from i fmts pt = Some j" "to_front (Suc i) pts (swap i j fmts) = Some fs"
    by (auto simp del: index_from.simps split: option.splits)
  have b: "i \<le> j" "j < length fmts" "fmts ! j = pt" using index_from_Some [OF j(1)] by auto
  have "take (Suc i) (swap i j fmts) = take i fmts @ [pt]"
    using b by (auto simp: take_Suc_conv_app_nth swap_def nth_list_update)
  then show ?case using 2(1) [OF j(1,2)] b by simp
qed simp

section \<open>Rewriting payload types\<close>

definition format_attrs :: "pjmedia_sdp_attr list \<Rightarrow> bool" where
  "format_attrs attrs \<longleftrightarrow> (\<forall>a\<in>set attrs. attr_name a \<in> {''rtpmap'', ''fmtp''})"

definition same_line :: "pjmedia_sdp_media \<Rightarrow> pjmedia_sdp_media \<Rightarrow> bool" where
  "same_line a b \<longleftrightarrow> desc_media b = desc_media a \<and> desc_port b = desc_port a \<and> desc_transport b = desc_transport a
     \<and> (\<forall>name. name \<notin> {''rtpmap'', ''fmtp''} \<longrightarrow> has_attr b name = has_attr a name)"

lemma same_line_refl [simp]: "same_line a a"
  by (simp add: same_line_def)

lemma same_line_trans: "same_line a b \<Longrightarrow> same_line b c \<Longrightarrow> same_line a c"
  by (simp add: same_line_def)

lemma same_line_dir: "same_line a b \<Longrightarrow> local_dir b = local_dir a"
  by (simp add: same_line_def local_dir_def)

lemma has_attr_fmt [simp]: "has_attr (m\<lparr>desc_fmt := fs\<rparr>) name = has_attr m name"
  by (simp add: has_attr_iff)

lemma take_rewritten_ok:
  assumes "take_rewritten name old new (answer, tmp) = Some (answer', tmp')" "name \<in> {''rtpmap'', ''fmtp''}"
    "format_attrs tmp"
  shows "same_line answer answer' \<and> desc_fmt answer' = desc_fmt answer \<and> format_attrs tmp'"
proof (cases "pjmedia_sdp_media_find_attr2 answer name (Some old)")
  case (Some k)
  have "same_line answer (pjmedia_sdp_media_remove_attr answer k)"
    using has_attr_drop [of _ name old answer] assms(2) Some
    by (auto simp: same_line_def drop_attr_def pjmedia_sdp_media_remove_attr_def)
  moreover have "attr_name (m_attr answer ! k) = name"
    using Some attr_find_Some [of "m_attr answer" name "Some old" k]
    by (auto simp: pjmedia_sdp_media_find_attr2_def attr_matches_def)
  ultimately show ?thesis
    using assms Some
    by (auto simp: take_rewritten_def format_attrs_def pjmedia_sdp_media_remove_attr_def split: option.splits)
qed (use assms in \<open>auto simp: take_rewritten_def\<close>)

lemma rewrite_formats_ok:
  "rewrite_formats i pairs (answer, tmp) = Some (answer', tmp') \<Longrightarrow> format_attrs tmp \<Longrightarrow>
   take (length pairs) (drop i (desc_fmt answer)) = map snd pairs \<Longrightarrow>
   same_line answer answer' \<and> format_attrs tmp' \<and>
   desc_fmt answer' = take i (desc_fmt answer) @ map fst pairs @ drop (i + length pairs) (desc_fmt answer)"
proof (induction pairs arbitrary: i answer tmp)
  case (Cons p pairs)
  obtain o_pt a_pt where p: "p = (o_pt, a_pt)" by fastforce
  obtain f fs where f: "drop i (desc_fmt answer) = f # fs"
    using Cons(4) by (cases "drop i (desc_fmt answer)") auto
  have i: "i < length (desc_fmt answer)" "f = desc_fmt answer ! i" "drop (Suc i) (desc_fmt answer) = fs"
    using f by (metis drop_eq_Nil list.distinct(1) not_le, metis hd_drop_conv_nth drop_eq_Nil list.sel(1) list.distinct(1) not_le,
      metis drop_Suc list.sel(3) tl_drop)
  have fs: "a_pt = f" "take (length pairs) (drop (Suc i) (desc_fmt answer)) = map snd pairs"
    using Cons(4) p f i by auto
  have tk: "take (Suc i) (desc_fmt answer) = take i (desc_fmt answer) @ [a_pt]"
    using i fs by (simp add: take_Suc_conv_app_nth)
  show ?case
  proof (cases "a_pt = o_pt")
    case True
    then have "rewrite_formats (Suc i) pairs (answer, tmp) = Some (answer', tmp')" using Cons(2) p by simp
    from Cons(1) [OF this Cons(3) fs(2)] show ?thesis using True p tk by simp
  next
    case False
    let ?a = "answer\<lparr>desc_fmt := (desc_fmt answer)[i := o_pt]\<rparr>"
    obtain a1 t1 a2 t2 where t: "take_rewritten ''rtpmap'' a_pt o_pt (?a, tmp) = Some (a1, t1)"
      "take_rewritten ''fmtp'' a_pt o_pt (a1, t1) = Some (a2, t2)"
      "rewrite_formats (Suc i) pairs (a2, t2) = Some (answer', tmp')"
      using Cons(2) False p by (auto split: option.splits)
    have t1: "same_line ?a a1" "desc_fmt a1 = desc_fmt ?a" "format_attrs t1" using take_rewritten_ok [OF t(1) _ Cons(3)] by simp_all
    have t2: "same_line a1 a2" "desc_fmt a2 = desc_fmt a1" "format_attrs t2" using take_rewritten_ok [OF t(2) _ t1(3)] by simp_all
    have "take (length pairs) (drop (Suc i) (desc_fmt a2)) = map snd pairs" using fs(2) t1(2) t2(2) by simp
    from Cons(1) [OF t(3) t2(3) this]
    have r: "same_line a2 answer'" "format_attrs tmp'"
      "desc_fmt answer' = take (Suc i) (desc_fmt a2) @ map fst pairs @ drop (Suc i + length pairs) (desc_fmt a2)" by simp_all
    have "same_line answer ?a" by (simp add: same_line_def)
    then have "same_line answer answer'" using same_line_trans t1(1) t2(1) r(1) by blast
    moreover have "take (Suc i) ((desc_fmt answer)[i := o_pt]) = take i (desc_fmt answer) @ [o_pt]"
      using i(1) by (simp add: take_Suc_conv_app_nth)
    ultimately show ?thesis using r(2,3) p t1(2) t2(2) by simp
  qed
qed simp

lemma add_attrs_ok:
  "format_attrs tmp \<Longrightarrow> same_line m (foldl pjmedia_sdp_media_add_attr m tmp) \<and>
   desc_fmt (foldl pjmedia_sdp_media_add_attr m tmp) = desc_fmt m"
proof (induction tmp arbitrary: m)
  case (Cons a tmp)
  have "same_line m (pjmedia_sdp_media_add_attr m a) \<and> desc_fmt (pjmedia_sdp_media_add_attr m a) = desc_fmt m"
    using Cons(2) by (auto simp: same_line_def pjmedia_sdp_media_add_attr_def pjmedia_sdp_attr_add_def has_attr_iff format_attrs_def)
  moreover have "format_attrs tmp" using Cons(2) by (simp add: format_attrs_def)
  ultimately show ?case using Cons(1) [of "pjmedia_sdp_media_add_attr m a"] same_line_trans by auto
qed simp

lemma symmetric_pt_ok:
  assumes "apply_answer_symmetric_pt pairs answer = Some answer'" "desc_fmt answer = map snd pairs"
  shows "same_line answer answer' \<and> desc_fmt answer' = map fst pairs"
proof -
  obtain a tmp where r: "rewrite_formats 0 pairs (answer, []) = Some (a, tmp)"
    and e: "answer' = foldl pjmedia_sdp_media_add_attr a tmp"
    using assms(1) by (auto simp: apply_answer_symmetric_pt_def)
  have "same_line answer a" "format_attrs tmp" "desc_fmt a = map fst pairs"
    using rewrite_formats_ok [OF r] assms(2) by (simp_all add: format_attrs_def)
  then show ?thesis using add_attrs_ok [of tmp a] same_line_trans by (auto simp: e)
qed

lemma drop_unwanted_ok: "same_line m (drop_unwanted fmts m) \<and> desc_fmt (drop_unwanted fmts m) = desc_fmt m"
proof (induction fmts arbitrary: m)
  case (Cons f fmts)
  have "same_line m (drop_fmt_attrs f m)" by (auto simp: same_line_def has_attr_dropped)
  then show ?case using Cons [of "drop_fmt_attrs f m"] same_line_trans by auto
qed simp

section \<open>The search for pairs\<close>

text \<open>
  A format of the answer and the local one it comes from: the same static number on both sides, the same
  name, or encodings that match.
\<close>

definition has_static :: "pjmedia_sdp_media \<Rightarrow> 32 word \<Rightarrow> bool" where
  "has_static m pt \<longleftrightarrow> (\<exists>f\<in>set (desc_fmt m). first_digit f \<and> pj_strtoul f = pt)"

definition codec_agree :: "pjmedia_sdp_media \<Rightarrow> pjmedia_sdp_media \<Rightarrow> string \<Rightarrow> string \<Rightarrow> bool" where
  "codec_agree om im f g \<longleftrightarrow>
     (f = g \<and> pj_strtoul f < 96 \<and> has_static om (pj_strtoul f) \<and> has_static im (pj_strtoul f))
     \<or> (f \<in> set (desc_fmt om) \<and> g \<in> set (desc_fmt im)
        \<and> (f = g \<or> (\<exists>a\<in>rtpmaps om f. \<exists>b\<in>rtpmaps im g. offer_rtpmap_matches a b)))"

lemma find_static_Some:
  "find_static pt fs = Some f \<Longrightarrow> f \<in> set fs \<and> first_digit f \<and> pj_strtoul f = pt"
  by (induction fs) (auto split: if_splits)

lemma offer_rtpmap_sym: "offer_rtpmap_matches a b = offer_rtpmap_matches b a"
  by (auto simp: offer_rtpmap_matches_def pj_stricmp_eq_def)

definition pairs_found :: "pjmedia_sdp_media \<Rightarrow> pjmedia_sdp_media \<Rightarrow> match_state \<Rightarrow> bool" where
  "pairs_found om im s \<longleftrightarrow> fmtp_differ im (ms_preanswer s) \<and> (\<forall>(f, g)\<in>set (pt_pairs s). codec_agree om im f g)
     \<and> length (pt_pairs s) = of_bool (found_matching_codec s) + of_bool (found_matching_telephone_event s)
         + of_bool (found_matching_other s)"

lemma codec_agree_differ: "fmtp_differ im im' \<Longrightarrow> codec_agree om im' f g = codec_agree om im f g"
  by (simp add: codec_agree_def has_static_def fmtp_differ_frame)

lemma found_start: "pairs_found om im (start_match im)"
  by (simp add: pairs_found_def start_match_def)

lemma match_static_ok:
  assumes "pairs_found om im s" "i < length (desc_fmt (master_of pr om (ms_preanswer s)))"
    "f = desc_fmt (master_of pr om (ms_preanswer s)) ! i" "first_digit f" "pj_strtoul f < 96"
  shows "pairs_found om im (match_static pr om (pj_strtoul f) s)"
proof -
  let ?m = "master_of pr om (ms_preanswer s)" and ?sl = "slave_of pr om (ms_preanswer s)"
  have d: "fmtp_differ im (ms_preanswer s)" using assms(1) by (simp add: pairs_found_def)
  have "has_static ?m (pj_strtoul f)" using assms by (auto simp: has_static_def intro: bexI [OF _ nth_mem])
  moreover have "codec_agree om im g g" if "find_static (pj_strtoul f) (desc_fmt ?sl) = Some g" "has_static ?m (pj_strtoul f)" for g
  proof -
    have "has_static ?sl (pj_strtoul f)" "pj_strtoul g = pj_strtoul f"
      using find_static_Some [OF that(1)] by (auto simp: has_static_def)
    then have "has_static om (pj_strtoul f) \<and> has_static im (pj_strtoul f)"
      using that(2) fmtp_differ_frame(1) [OF d] by (cases pr) (simp_all add: master_of_def slave_of_def has_static_def)
    then show ?thesis using assms(5) \<open>pj_strtoul g = pj_strtoul f\<close> by (simp add: codec_agree_def)
  qed
  ultimately show ?thesis
    using assms(1) by (auto simp: match_static_def Let_def pairs_found_def add_pair_def split: option.split)
qed

definition match_pair :: "bool \<Rightarrow> pjmedia_sdp_media \<Rightarrow> pjmedia_sdp_media \<Rightarrow> nat \<Rightarrow> nat \<Rightarrow> string \<times> string" where
  "match_pair pr om im i j = (if pr then (desc_fmt om ! i, desc_fmt im ! j) else (desc_fmt om ! j, desc_fmt im ! i))"

lemma add_match_pair:
  "add_match pr om i j s = s\<lparr>pt_pairs := pt_pairs s @ [match_pair pr om (ms_preanswer s) i j]\<rparr>"
  by (simp add: add_match_def add_pair_def match_pair_def)

lemma match_pair_ok:
  assumes d: "fmtp_differ im v" and i: "i < length (desc_fmt (master_of pr om v))"
    and j: "j < length (desc_fmt (slave_of pr om v))"
    and m: "desc_fmt (master_of pr om v) ! i = desc_fmt (slave_of pr om v) ! j \<or>
      (\<exists>a\<in>rtpmaps (master_of pr om v) (desc_fmt (master_of pr om v) ! i).
       \<exists>b\<in>rtpmaps (slave_of pr om v) (desc_fmt (slave_of pr om v) ! j). offer_rtpmap_matches a b)"
  shows "codec_agree om im (fst (match_pair pr om v i j)) (snd (match_pair pr om v i j))"
proof -
  note fr = fmtp_differ_frame [OF d]
  show ?thesis
  proof (cases pr)
    case True
    then show ?thesis
      using i j m unfolding codec_agree_def match_pair_def master_of_def slave_of_def by (simp add: fr)
  next
    case False
    have "desc_fmt om ! j = desc_fmt im ! i \<or>
        (\<exists>a\<in>rtpmaps om (desc_fmt om ! j). \<exists>b\<in>rtpmaps im (desc_fmt im ! i). offer_rtpmap_matches a b)"
    proof (cases "desc_fmt om ! j = desc_fmt im ! i")
      case ne: False
      then obtain a b where "a \<in> rtpmaps im (desc_fmt im ! i)" "b \<in> rtpmaps om (desc_fmt om ! j)"
        "offer_rtpmap_matches b a"
        using m False by (auto simp: master_of_def slave_of_def fr offer_rtpmap_sym [of _ "x :: pjmedia_sdp_rtpmap" for x])
      then show ?thesis by blast
    qed simp
    then show ?thesis
      using i j False unfolding codec_agree_def match_pair_def master_of_def slave_of_def by (simp add: fr)
  qed
qed

lemma match_other_ok:
  assumes p: "pairs_found om im s" and i: "i < length (desc_fmt (master_of pr om (ms_preanswer s)))"
  shows "pairs_found om im (match_other pr om i s)"
proof (cases "found_matching_other s \<or>
    index_of (desc_fmt (master_of pr om (ms_preanswer s)) ! i) (desc_fmt (slave_of pr om (ms_preanswer s))) = None")
  case True
  then show ?thesis using p by (auto simp: match_other_def Let_def pairs_found_def)
next
  case False
  then obtain j where j: "index_of (desc_fmt (master_of pr om (ms_preanswer s)) ! i)
      (desc_fmt (slave_of pr om (ms_preanswer s))) = Some j" by auto
  have "fmtp_differ im (ms_preanswer s)" using p by (simp add: pairs_found_def)
  from match_pair_ok [OF this i, of j] index_of_Some [OF j]
  have "codec_agree om im (fst (match_pair pr om (ms_preanswer s) i j)) (snd (match_pair pr om (ms_preanswer s) i j))"
    by simp
  then show ?thesis
    using p False j
    by (auto simp: match_other_def Let_def pairs_found_def add_match_pair case_prod_beta)
qed

context format_callbacks
begin

lemma match_rtpmap_ok:
  assumes "pairs_found om im s" "i < length (desc_fmt (master_of pr om (ms_preanswer s)))"
    "\<forall>j\<in>set js. j < length (desc_fmt (slave_of pr om im))"
    "omap \<in> rtpmaps (master_of pr om im) (desc_fmt (master_of pr om im) ! i)"
    "if codec then \<not> found_matching_codec s else \<not> found_matching_telephone_event s"
  shows "pairs_found om im (match_rtpmap E pr om i omap codec js s)"
  using assms
proof (induction js arbitrary: s)
  case (Cons j js)
  let ?v = "ms_preanswer s"
  have d: "fmtp_differ im ?v" using Cons(2) by (simp add: pairs_found_def)
  note fr = fmtp_differ_frame [OF d]
  have ms: "desc_fmt (master_of pr om ?v) = desc_fmt (master_of pr om im)"
    "desc_fmt (slave_of pr om ?v) = desc_fmt (slave_of pr om im)"
    "rtpmaps (master_of pr om ?v) f = rtpmaps (master_of pr om im) f"
    "rtpmaps (slave_of pr om ?v) f = rtpmaps (slave_of pr om im) f" for f
    by (simp_all add: master_of_def slave_of_def fr)
  show ?case
  proof (cases "\<exists>k. pjmedia_sdp_media_find_attr2 (slave_of pr om ?v) ''rtpmap''
        (Some (desc_fmt (slave_of pr om ?v) ! j)) = Some k
      \<and> offer_rtpmap_matches omap (snd (pjmedia_sdp_attr_get_rtpmap (m_attr (slave_of pr om ?v) ! k)))")
    case False
    then show ?thesis using Cons by (auto simp: Let_def split: option.split)
  next
    case True
    then obtain k where k: "pjmedia_sdp_media_find_attr2 (slave_of pr om ?v) ''rtpmap''
        (Some (desc_fmt (slave_of pr om ?v) ! j)) = Some k"
      "offer_rtpmap_matches omap (snd (pjmedia_sdp_attr_get_rtpmap (m_attr (slave_of pr om ?v) ! k)))" by blast
    have "codec_agree om im (fst (match_pair pr om ?v i j)) (snd (match_pair pr om ?v i j))"
      using match_pair_ok [OF d Cons(3), of j] found_rtpmap [OF k(1)] k(2) Cons(4,5) by (auto simp: ms)
    note agree = this
    show ?thesis
    proof (cases codec)
      case False
      then show ?thesis
        using k agree Cons(2,6) by (auto simp: Let_def pairs_found_def add_match_pair case_prod_beta)
    next
      case codec: True
      obtain st v where c: "custom_fmt_match E (rm_enc_name omap) om (if pr then i else j) ?v (if pr then j else i) True = (st, v)"
        by fastforce
      have dv: "fmtp_differ ?v v" using custom_match_differ [OF c] .
      have e: "match_pair pr om v i j = match_pair pr om ?v i j" by (simp add: match_pair_def fmtp_differ_frame [OF dv])
      let ?s = "s\<lparr>ms_preanswer := v\<rparr>"
      have s: "pairs_found om im ?s" using Cons(2) fmtp_differ_trans [OF d dv] by (simp add: pairs_found_def)
      have ms': "desc_fmt (master_of pr om v) = desc_fmt (master_of pr om ?v)"
        by (simp add: master_of_def fmtp_differ_frame [OF dv])
      show ?thesis
      proof (cases "st = PJ_SUCCESS")
        case True
        then show ?thesis
          using k agree Cons(6) s c codec
          by (auto simp: Let_def pairs_found_def add_match_pair case_prod_beta e)
      next
        case False
        then show ?thesis using k Cons(1) [OF s] Cons(3-6) c codec ms' by (simp add: Let_def)
      qed
    qed
  qed
qed simp

lemma match_dynamic_ok:
  assumes "pairs_found om im s" "i < length (desc_fmt (master_of pr om (ms_preanswer s)))"
    "match_dynamic E pr om i s = (status, s')"
  shows "pairs_found om im s'"
proof (cases "pjmedia_sdp_media_find_attr2 (master_of pr om (ms_preanswer s)) ''rtpmap''
      (Some (desc_fmt (master_of pr om (ms_preanswer s)) ! i))")
  case None
  then show ?thesis using assms by (simp add: match_dynamic_def Let_def)
next
  case (Some k)
  let ?v = "ms_preanswer s"
  let ?omap = "snd (pjmedia_sdp_attr_get_rtpmap (m_attr (master_of pr om ?v) ! k))"
  note fr = fmtp_differ_frame [of im ?v]
  have d: "fmtp_differ im ?v" using assms(1) by (simp add: pairs_found_def)
  have ms: "desc_fmt (master_of pr om ?v) = desc_fmt (master_of pr om im)"
    "desc_fmt (slave_of pr om ?v) = desc_fmt (slave_of pr om im)"
    "rtpmaps (master_of pr om ?v) f = rtpmaps (master_of pr om im) f" for f
    using fr [OF d] by (simp_all add: master_of_def slave_of_def)
  have o: "?omap \<in> rtpmaps (master_of pr om im) (desc_fmt (master_of pr om im) ! i)"
    using found_rtpmap [OF Some] by (simp add: ms)
  have j: "\<forall>j\<in>set [0..<length (desc_fmt (slave_of pr om ?v))]. j < length (desc_fmt (slave_of pr om im))"
    by (simp add: ms)
  have te: "pairs_found om im (s\<lparr>master_has_telephone_event := True\<rparr>)"
    and co: "pairs_found om im (s\<lparr>master_has_codec := True\<rparr>)"
    using assms(1) by (simp_all add: pairs_found_def)
  note r = match_rtpmap_ok [OF te _ j o, of False] match_rtpmap_ok [OF co _ j o, of True]
  show ?thesis
    using assms(2,3) Some r te co unfolding match_dynamic_def Let_def by (simp split: if_splits)
qed

lemma match_formats_ok:
  assumes "pairs_found om im s" "match_formats E pr om is s = (status, s')"
    "\<forall>i\<in>set is. i < length (desc_fmt (master_of pr om im))"
  shows "pairs_found om im s'"
  using assms
proof (induction "is" arbitrary: s)
  case (Cons i "is")
  let ?v = "ms_preanswer s"
  let ?fmt = "desc_fmt (master_of pr om ?v) ! i"
  have "fmtp_differ im ?v" using Cons(2) by (simp add: pairs_found_def)
  then have i: "i < length (desc_fmt (master_of pr om ?v))"
    using Cons(4) by (cases pr) (simp_all add: master_of_def fmtp_differ_frame)
  consider (static) "first_digit ?fmt" "pj_strtoul ?fmt < 96"
    | (dynamic) "first_digit ?fmt" "\<not> pj_strtoul ?fmt < 96" | (other) "\<not> first_digit ?fmt" by blast
  then show ?case
  proof cases
    case static
    then show ?thesis
      using Cons(1) [OF match_static_ok [OF Cons(2) i refl static]] Cons(3,4) by (simp add: Let_def)
  next
    case dynamic
    obtain st t where t: "match_dynamic E pr om i s = (st, t)" by fastforce
    then show ?thesis
      using Cons(1) [of t] match_dynamic_ok [OF Cons(2) i t] Cons(3,4) dynamic by (auto simp: Let_def split: if_splits)
  next
    case other
    then show ?thesis using Cons(1) [OF match_other_ok [OF Cons(2) i]] Cons(3,4) by (simp add: Let_def)
  qed
qed simp

end

section \<open>The answer line\<close>

text \<open>What an active line of the answer has from the line of the offer and from the local one.\<close>

definition answers_line :: "pjmedia_sdp_media \<Rightarrow> pjmedia_sdp_media \<Rightarrow> pjmedia_sdp_media \<Rightarrow> bool" where
  "answers_line om im am \<longleftrightarrow>
     desc_port om \<noteq> 0 \<and> desc_port am = desc_port im \<and> desc_media am = desc_media im \<and>
     desc_transport am = desc_transport im \<and>
     length (desc_fmt am) \<le> 3 \<and> (\<forall>f\<in>set (desc_fmt am). \<exists>g. codec_agree om im f g) \<and>
     (may_send (local_dir am) \<longleftrightarrow> may_send (local_dir im) \<and> may_recv (remote_dir om)) \<and>
     (may_recv (local_dir am) \<longleftrightarrow> may_recv (local_dir im) \<and> may_send (remote_dir om))"

lemma build_answer_ok:
  assumes p: "pairs_found om im s" and b: "build_answer om s = Some am" and port: "desc_port om \<noteq> 0"
  shows "answers_line om im am"
proof -
  let ?v = "ms_preanswer s" and ?n = "length (pt_pairs s)"
  have d: "fmtp_differ im ?v" using p by (simp add: pairs_found_def)
  note fr = fmtp_differ_frame [OF d]
  obtain fmts where f: "to_front 0 (map snd (pt_pairs s)) (desc_fmt ?v) = Some fmts"
    using b by (auto simp: build_answer_def Let_def split: option.splits)
  define cut where "cut = (drop_unwanted (drop ?n fmts) (?v\<lparr>desc_fmt := fmts\<rparr>))\<lparr>desc_fmt := take ?n fmts\<rparr>"
  obtain a where a: "apply_answer_symmetric_pt (pt_pairs s) cut = Some a" "am = update_media_direction om a"
    using b f by (auto simp: build_answer_def Let_def cut_def PJMEDIA_SDP_NEG_ANSWER_SYMMETRIC_PT_def)
  have "take ?n fmts = map snd (pt_pairs s)" using to_front_Some [OF f] by simp
  then have cf: "desc_fmt cut = map snd (pt_pairs s)" by (simp add: cut_def)
  have "same_line ?v cut"
    using drop_unwanted_ok [of "?v\<lparr>desc_fmt := fmts\<rparr>" "drop ?n fmts"] by (simp add: same_line_def cut_def)
  then have s: "same_line ?v a" "desc_fmt a = map fst (pt_pairs s)"
    using symmetric_pt_ok [OF a(1) cf] same_line_trans by auto
  have "local_dir a = local_dir im" using same_line_dir [OF s(1)] fr(7) by (simp add: local_dir_def)
  moreover have "length (pt_pairs s) \<le> 3" using p by (simp add: pairs_found_def)
  moreover have "desc_port a = desc_port im" "desc_media a = desc_media im" "desc_transport a = desc_transport im"
    using s(1) fr by (simp_all add: same_line_def)
  moreover have "\<exists>g. codec_agree om im f g" if "f \<in> fst ` set (pt_pairs s)" for f
  proof -
    from that obtain x where x: "f = fst x" "x \<in> set (pt_pairs s)" by (rule imageE)
    then have "codec_agree om im f (snd x)" using p by (simp add: pairs_found_def case_prod_beta)
    then show ?thesis by blast
  qed
  ultimately show ?thesis
    using port s(2) by (simp add: answers_line_def a(2) local_dir_updated adjusted_dir_meet)
qed

lemma deactivated [simp]:
  "desc_port (sdp_media_clone_deactivate m lm ls) = 0" "desc_media (sdp_media_clone_deactivate m lm ls) = desc_media m"
  "desc_transport (sdp_media_clone_deactivate m lm ls) = desc_transport m"
  by (simp_all add: sdp_media_clone_deactivate_def Let_def pjmedia_sdp_media_deactivate_def split: option.split)

context format_callbacks
begin

lemma match_offer_ok:
  assumes "match_offer E pr om im ses = Some (r, im')"
  shows "fmtp_differ im im'"
    "r = Inr am \<Longrightarrow> (desc_port am \<noteq> 0 \<longrightarrow> answers_line om im am) \<and>
      (desc_media am = desc_media om \<and> desc_transport am = desc_transport om
       \<or> desc_media am = desc_media im \<and> desc_transport am = desc_transport im)"
proof -
  consider (off) "desc_port om = 0" | (rejected) "desc_port om \<noteq> 0" "desc_port im = 0"
    | (both) "desc_port om \<noteq> 0" "desc_port im \<noteq> 0" by blast
  then have "fmtp_differ im im' \<and> (\<forall>am. r = Inr am \<longrightarrow> (desc_port am \<noteq> 0 \<longrightarrow> answers_line om im am) \<and>
      (desc_media am = desc_media om \<and> desc_transport am = desc_transport om
       \<or> desc_media am = desc_media im \<and> desc_transport am = desc_transport im))"
  proof cases
    case both
    obtain st s where f: "match_formats E pr om [0..<length (desc_fmt (master_of pr om im))] (start_match im) = (st, s)"
      by fastforce
    have p: "pairs_found om im s" using match_formats_ok [OF found_start f] by simp
    then have "fmtp_differ im (ms_preanswer s)" by (simp add: pairs_found_def)
    then show ?thesis
      using assms both f build_answer_ok [OF p _ both(1)]
      by (auto simp: match_offer_def answers_line_def split: if_splits)
  qed (use assms in \<open>auto simp: match_offer_def\<close>)
  then show "fmtp_differ im im'"
    "r = Inr am \<Longrightarrow> (desc_port am \<noteq> 0 \<longrightarrow> answers_line om im am) \<and>
      (desc_media am = desc_media om \<and> desc_transport am = desc_transport om
       \<or> desc_media am = desc_media im \<and> desc_transport am = desc_transport im)" by blast+
qed

end

section \<open>The answer session\<close>

text \<open>The local lines differ from what they were in \<^verbatim>\<open>fmtp\<close> attributes alone.\<close>

definition lines_differ :: "pjmedia_sdp_session \<Rightarrow> pjmedia_sdp_session \<Rightarrow> bool" where
  "lines_differ a b \<longleftrightarrow> list_all2 fmtp_differ (s_media a) (s_media b)"

lemma codec_agree_line: "fmtp_differ im im' \<Longrightarrow> answers_line om im' am = answers_line om im am"
  by (simp add: answers_line_def codec_agree_differ fmtp_differ_frame local_dir_def)

lemma lines_differ_update:
  assumes "lines_differ a b" "fmtp_differ (s_media b ! j) im" "j < length (s_media b)"
  shows "lines_differ a (b\<lparr>s_media := (s_media b)[j := im]\<rparr>)"
proof -
  have "fmtp_differ (s_media a ! j) im"
    using assms list_all2_nthD2 [of fmtp_differ "s_media a" "s_media b" j] fmtp_differ_trans
    by (auto simp: lines_differ_def)
  then show ?thesis
    using assms by (auto simp: lines_differ_def list_all2_conv_all_nth nth_list_update)
qed

context format_callbacks
begin

text \<open>A line of the answer: switched off, or answering a local line that was free.\<close>

lemma find_media_ok:
  assumes "find_media E pr om used js initial st = Some (st', initial', found)" "lines_differ initial0 initial"
    "\<forall>j\<in>set js. j < length (s_media initial0)"
  shows "lines_differ initial0 initial' \<and>
    (\<forall>j am. found = Some (j, am) \<longrightarrow> j < length (s_media initial0) \<and> \<not> used ! j \<and>
       desc_media am = desc_media om \<and> desc_transport am = desc_transport om \<and>
       (desc_port am \<noteq> 0 \<longrightarrow> answers_line om (s_media initial0 ! j) am))"
  using assms
proof (induction js arbitrary: initial st)
  case (Cons j js)
  let ?im = "s_media initial ! j"
  have l: "length (s_media initial) = length (s_media initial0)" "j < length (s_media initial0)"
    using Cons(3,4) by (auto simp: lines_differ_def dest: list_all2_lengthD)
  have d: "fmtp_differ (s_media initial0 ! j) ?im"
    using Cons(3) l by (simp add: lines_differ_def list_all2_nthD)
  have js: "\<forall>j\<in>set js. j < length (s_media initial0)" using Cons(4) by simp
  show ?case
  proof (cases "desc_media om = desc_media ?im \<and> desc_transport om = desc_transport ?im \<and> \<not> used ! j")
    case False
    then have "find_media E pr om used js initial st = Some (st', initial', found)"
      using Cons(2) unfolding find_media.simps Let_def if_not_P [OF False] by simp
    from Cons(1) [OF this Cons(3) js] show ?thesis .
  next
    case True
    then obtain r im where m: "match_offer E pr om ?im initial = Some (r, im)"
      using Cons(2) by (auto simp: Let_def split: option.splits)
    note ok = match_offer_ok [OF m]
    have d': "lines_differ initial0 (initial\<lparr>s_media := (s_media initial)[j := im]\<rparr>)"
      using lines_differ_update [OF Cons(3) ok(1)] l by simp
    show ?thesis
    proof (cases r)
      case (Inl e)
      then have "find_media E pr om used js (initial\<lparr>s_media := (s_media initial)[j := im]\<rparr>) e
          = Some (st', initial', found)"
        using Cons(2) True m by (simp add: Let_def)
      from Cons(1) [OF this d' js] show ?thesis .
    next
      case (Inr am)
      then show ?thesis
        using Cons(2) True m d' ok(2) [OF Inr] l codec_agree_line [OF d] by (auto simp: Let_def)
    qed
  qed
qed simp

text \<open>
  The lines of the answer in turn: each is switched off, or answers a local line that was not used
  before; \<open>sel\<close> gives its index.
\<close>

lemma answer_medias_ok:
  assumes "answer_medias E pr answer oms used initial st = Some (st', ams)" "lines_differ initial0 initial"
    "length used = length (s_media initial0)"
  shows "length ams = length oms \<and>
    (\<forall>i<length oms. desc_media (ams ! i) = desc_media (oms ! i) \<and> desc_transport (ams ! i) = desc_transport (oms ! i)) \<and>
    (\<exists>sel. inj_on sel {i. i < length oms \<and> desc_port (ams ! i) \<noteq> 0} \<and>
       (\<forall>i<length oms. desc_port (ams ! i) \<noteq> 0 \<longrightarrow>
          sel i < length (s_media initial0) \<and> \<not> used ! sel i \<and>
          answers_line (oms ! i) (s_media initial0 ! sel i) (ams ! i)))"
  using assms
proof (induction oms arbitrary: used initial st ams)
  case (Cons om oms)
  have l: "length (s_media initial) = length (s_media initial0)"
    using Cons(3) by (auto simp: lines_differ_def dest: list_all2_lengthD)
  obtain st1 init1 found where f: "find_media E pr om used [0..<length (s_media initial)] initial st = Some (st1, init1, found)"
    using Cons(2) by (auto split: option.splits)
  have ok: "lines_differ initial0 init1" "\<And>j am. found = Some (j, am) \<Longrightarrow>
      j < length (s_media initial0) \<and> \<not> used ! j \<and> desc_media am = desc_media om \<and>
      desc_transport am = desc_transport om \<and> (desc_port am \<noteq> 0 \<longrightarrow> answers_line om (s_media initial0 ! j) am)"
    using find_media_ok [OF f Cons(3)] l by simp_all
  define am where "am = (case found of Some (j, am) \<Rightarrow> am | None \<Rightarrow> sdp_media_clone_deactivate om (Some om) (Some answer))"
  define used' where "used' = (case found of Some (j, am) \<Rightarrow> used[j := True] | None \<Rightarrow> used)"
  obtain ams' where r: "answer_medias E pr answer oms used' init1 st1 = Some (st', ams')" "ams = am # ams'"
    using Cons(2) f by (auto simp: am_def used'_def split: option.splits)
  have u: "length used' = length (s_media initial0)" using Cons(4) by (simp add: used'_def split: option.split)
  obtain sel where s: "length ams' = length oms"
    "\<forall>i<length oms. desc_media (ams' ! i) = desc_media (oms ! i) \<and> desc_transport (ams' ! i) = desc_transport (oms ! i)"
    "inj_on sel {i. i < length oms \<and> desc_port (ams' ! i) \<noteq> 0}"
    "\<forall>i<length oms. desc_port (ams' ! i) \<noteq> 0 \<longrightarrow> sel i < length (s_media initial0) \<and> \<not> used' ! sel i \<and>
       answers_line (oms ! i) (s_media initial0 ! sel i) (ams' ! i)"
    using Cons(1) [OF r(1) ok(1) u] by blast
  have found: "found = None \<and> am = sdp_media_clone_deactivate om (Some om) (Some answer) \<and> used' = used
      \<or> (\<exists>j. found = Some (j, am) \<and> used' = used[j := True])"
    by (cases found) (auto simp: am_def used'_def split: prod.splits)
  then have am: "desc_media am = desc_media om" "desc_transport am = desc_transport om" by (auto dest: ok(2))
  define sel' where "sel' i = (case i of 0 \<Rightarrow> fst (the found) | Suc i \<Rightarrow> sel i)" for i
  have free: "\<not> used' ! j \<Longrightarrow> j < length (s_media initial0) \<Longrightarrow> \<not> used ! j
      \<and> (desc_port am \<noteq> 0 \<longrightarrow> j \<noteq> fst (the found))" for j
    using found Cons(4) by (auto simp: nth_list_update dest!: ok(2) split: if_splits)
  have hd: "desc_port am \<noteq> 0 \<Longrightarrow> fst (the found) < length (s_media initial0) \<and> \<not> used ! fst (the found)
      \<and> answers_line om (s_media initial0 ! fst (the found)) am"
    using found by (auto dest: ok(2))
  show ?case
  proof (intro conjI exI [of _ sel'])
    show "length ams = length (om # oms)" using r s by simp
    show "\<forall>i<length (om # oms). desc_media (ams ! i) = desc_media ((om # oms) ! i)
        \<and> desc_transport (ams ! i) = desc_transport ((om # oms) ! i)"
      using r s am by (simp add: All_less_Suc2)
    show "\<forall>i<length (om # oms). desc_port (ams ! i) \<noteq> 0 \<longrightarrow> sel' i < length (s_media initial0) \<and> \<not> used ! sel' i \<and>
        answers_line ((om # oms) ! i) (s_media initial0 ! sel' i) (ams ! i)"
      using r s(4) hd free by (simp add: All_less_Suc2 sel'_def)
    show "inj_on sel' {i. i < length (om # oms) \<and> desc_port (ams ! i) \<noteq> 0}"
    proof (rule inj_onI)
      fix i k assume "i \<in> {i. i < length (om # oms) \<and> desc_port (ams ! i) \<noteq> 0}"
        "k \<in> {i. i < length (om # oms) \<and> desc_port (ams ! i) \<noteq> 0}" "sel' i = sel' k"
      then show "i = k"
        using s(4) free inj_onD [OF s(3)] by (cases i; cases k) (fastforce simp: sel'_def r)+
    qed
  qed
qed simp

lemma find_media_status:
  "find_media E pr om used js initial st = Some (st', initial', found) \<Longrightarrow> st \<noteq> PJ_SUCCESS \<Longrightarrow> st' \<noteq> PJ_SUCCESS"
proof (induction js arbitrary: initial st)
  case (Cons j js)
  have m: "match_offer E pr om (s_media initial ! j) initial = Some (Inl e, im) \<Longrightarrow> e \<noteq> PJ_SUCCESS" for e im
    by (auto simp: match_offer_def split: if_splits prod.splits)
  then show ?case
    using Cons(1) [of initial st] Cons(1) [of "initial\<lparr>s_media := (s_media initial)[j := im]\<rparr>" e for im e] Cons(2,3)
    unfolding find_media.simps Let_def by (auto split: if_splits option.splits sum.splits prod.splits)
qed simp

lemma answer_medias_status:
  "answer_medias E pr answer oms used initial st = Some (st', ams) \<Longrightarrow> st \<noteq> PJ_SUCCESS \<Longrightarrow> st' \<noteq> PJ_SUCCESS"
proof (induction oms arbitrary: used initial st ams)
  case (Cons om oms)
  obtain st1 i1 f where f: "find_media E pr om used [0..<length (s_media initial)] initial st = Some (st1, i1, f)"
    using Cons(2) by (auto split: option.splits)
  note n = find_media_status [OF f Cons(3)]
  show ?case using Cons(1) [OF _ n] Cons(2) f by (auto split: option.splits)
qed simp

lemma create_answer_ok:
  assumes "create_answer E pr initial offer = Some (st, answer)"
  shows "length (s_media answer) = length (s_media offer) \<and>
    (st = PJ_SUCCESS \<longrightarrow> (\<exists>am\<in>set (s_media answer). desc_port am \<noteq> 0)) \<and>
    (\<forall>i<length (s_media offer). desc_media (s_media answer ! i) = desc_media (s_media offer ! i) \<and>
       desc_transport (s_media answer ! i) = desc_transport (s_media offer ! i)) \<and>
    (\<exists>sel. inj_on sel {i. i < length (s_media offer) \<and> desc_port (s_media answer ! i) \<noteq> 0} \<and>
       (\<forall>i<length (s_media offer). desc_port (s_media answer ! i) \<noteq> 0 \<longrightarrow>
          sel i < length (s_media initial) \<and>
          answers_line (s_media offer ! i) (s_media initial ! sel i) (s_media answer ! i)))"
proof -
  let ?st = "if PJ_ENABLE_EXTRA_CHECK then pjmedia_sdp_validate offer else PJMEDIA_SDPNEG_ENOMEDIA"
  obtain st1 ams where a: "answer_medias E pr (initial\<lparr>s_media := []\<rparr>) (s_media offer)
      (replicate (length (s_media initial)) False) initial ?st = Some (st1, ams)"
    "answer = initial\<lparr>s_media := ams\<rparr>"
    "st = (if list_ex (\<lambda>am. desc_port am \<noteq> 0) ams then PJ_SUCCESS else st1)"
    using assms by (auto simp: create_answer_def Let_def split: option.splits)
  have "lines_differ initial initial" by (simp add: lines_differ_def list_all2_conv_all_nth)
  from answer_medias_ok [OF a(1) this] have r: "length ams = length (s_media offer) \<and>
    (\<forall>i<length (s_media offer). desc_media (ams ! i) = desc_media (s_media offer ! i) \<and>
       desc_transport (ams ! i) = desc_transport (s_media offer ! i)) \<and>
    (\<exists>sel. inj_on sel {i. i < length (s_media offer) \<and> desc_port (ams ! i) \<noteq> 0} \<and>
       (\<forall>i<length (s_media offer). desc_port (ams ! i) \<noteq> 0 \<longrightarrow>
          sel i < length (s_media initial) \<and> \<not> replicate (length (s_media initial)) False ! sel i \<and>
          answers_line (s_media offer ! i) (s_media initial ! sel i) (ams ! i)))" by simp
  have "st = PJ_SUCCESS \<Longrightarrow> \<exists>am\<in>set ams. desc_port am \<noteq> 0"
    using a(3) answer_medias_status [OF a(1)] by (auto simp: PJ_ENABLE_EXTRA_CHECK_def list_ex_iff split: if_splits)
  then show ?thesis using r unfolding a(2) by auto
qed

end

end
