(* ===== verification/Sdp_Neg_Flow.thy ===== *)
theory Sdp_Neg_Flow
  imports Sdp_Neg_Local
begin

text \<open>
  The negotiator as a state machine: the calls of its interface, the states in which
  \<^verbatim>\<open>include/pjmedia/sdp_neg.h\<close> allows them, the runs of legal calls, and the invariant of these runs. The
  assertions that would refuse an illegal call are compiled out, so that legality is the client's part of
  the contract.
\<close>

section \<open>Calls\<close>

datatype neg_call =
    Modify_local_offer pjmedia_sdp_session
  | Send_local_offer
  | Set_remote_answer pjmedia_sdp_session
  | Set_remote_offer pjmedia_sdp_session
  | Set_local_answer "pjmedia_sdp_session option"
  | Cancel_offer
  | Negotiate bool
  | Prefer_remote_order bool

fun run_call :: "neg_env \<Rightarrow> neg_call \<Rightarrow> pjmedia_sdp_neg \<Rightarrow> (pjmedia_sdp_neg \<times> pj_status) option" where
  "run_call E (Modify_local_offer local) neg = pjmedia_sdp_neg_modify_local_offer local neg"
| "run_call E Send_local_offer neg = map_option (\<lambda>(neg, st, offer). (neg, st)) (pjmedia_sdp_neg_send_local_offer neg)"
| "run_call E (Set_remote_answer remote) neg = Some (pjmedia_sdp_neg_set_remote_answer remote neg)"
| "run_call E (Set_remote_offer remote) neg = Some (pjmedia_sdp_neg_set_remote_offer remote neg)"
| "run_call E (Set_local_answer local) neg = pjmedia_sdp_neg_set_local_answer local neg"
| "run_call E Cancel_offer neg = Some (pjmedia_sdp_neg_cancel_offer neg)"
| "run_call E (Negotiate allow_asym) neg = map_option prod.swap (pjmedia_sdp_neg_negotiate E allow_asym neg)"
| "run_call E (Prefer_remote_order p) neg = Some (pjmedia_sdp_neg_set_prefer_remote_codec_order p neg, PJ_SUCCESS)"

fun call_legal :: "neg_call \<Rightarrow> pjmedia_sdp_neg_state \<Rightarrow> bool" where
  "call_legal (Modify_local_offer local) s \<longleftrightarrow> s = PJMEDIA_SDP_NEG_STATE_DONE"
| "call_legal Send_local_offer s \<longleftrightarrow> s = PJMEDIA_SDP_NEG_STATE_DONE \<or> s = PJMEDIA_SDP_NEG_STATE_LOCAL_OFFER"
| "call_legal (Set_remote_answer remote) s \<longleftrightarrow> s = PJMEDIA_SDP_NEG_STATE_LOCAL_OFFER"
| "call_legal (Set_remote_offer remote) s \<longleftrightarrow> s = PJMEDIA_SDP_NEG_STATE_DONE"
| "call_legal (Set_local_answer local) s \<longleftrightarrow> s = PJMEDIA_SDP_NEG_STATE_REMOTE_OFFER"
| "call_legal Cancel_offer s \<longleftrightarrow>
     s = PJMEDIA_SDP_NEG_STATE_LOCAL_OFFER \<or> s = PJMEDIA_SDP_NEG_STATE_REMOTE_OFFER"
| "call_legal (Negotiate allow_asym) s \<longleftrightarrow> s = PJMEDIA_SDP_NEG_STATE_WAIT_NEGO"
| "call_legal (Prefer_remote_order p) s \<longleftrightarrow> True"

text \<open>A run: the negotiator is created and then driven by legal calls that return.\<close>

inductive negotiates :: "neg_env \<Rightarrow> pjmedia_sdp_neg \<Rightarrow> bool" for E where
  local_offer: "pjmedia_sdp_neg_create_w_local_offer local = Inr neg \<Longrightarrow> negotiates E neg"
| remote_offer: "pjmedia_sdp_neg_create_w_remote_offer initial remote = Inr neg \<Longrightarrow> negotiates E neg"
| call: "negotiates E neg \<Longrightarrow> call_legal c (neg_state neg) \<Longrightarrow> run_call E c neg = Some (neg', st) \<Longrightarrow> negotiates E neg'"

section \<open>The invariant\<close>

text \<open>Which descriptions are present in which state.\<close>

definition neg_ok :: "pjmedia_sdp_neg \<Rightarrow> bool" where
  "neg_ok neg \<longleftrightarrow>
     (active_local_sdp neg = None \<longleftrightarrow> active_remote_sdp neg = None) \<and>
     (active_local_sdp neg \<noteq> None \<longrightarrow> initial_sdp neg \<noteq> None) \<and>
     (has_remote_answer neg \<longrightarrow> neg_state neg = PJMEDIA_SDP_NEG_STATE_WAIT_NEGO) \<and>
     (case neg_state neg of
        PJMEDIA_SDP_NEG_STATE_NULL \<Rightarrow> False
      | PJMEDIA_SDP_NEG_STATE_LOCAL_OFFER \<Rightarrow> neg_local_sdp neg \<noteq> None \<and> initial_sdp neg \<noteq> None
      | PJMEDIA_SDP_NEG_STATE_REMOTE_OFFER \<Rightarrow> neg_remote_sdp neg \<noteq> None
      | PJMEDIA_SDP_NEG_STATE_WAIT_NEGO \<Rightarrow> neg_local_sdp neg \<noteq> None \<and> neg_remote_sdp neg \<noteq> None \<and> initial_sdp neg \<noteq> None
      | PJMEDIA_SDP_NEG_STATE_DONE \<Rightarrow> neg_local_sdp neg = None \<and> neg_remote_sdp neg = None)"

text \<open>The calls that follow a null pointer, or whose answer is built from an array slot nobody wrote.\<close>

fun call_faults :: "neg_env \<Rightarrow> neg_call \<Rightarrow> pjmedia_sdp_neg \<Rightarrow> bool" where
  "call_faults E (Modify_local_offer local) neg \<longleftrightarrow>
     pjmedia_sdp_validate local = PJ_SUCCESS \<and> active_local_sdp neg = None"
| "call_faults E Send_local_offer neg \<longleftrightarrow>
     neg_state neg = PJMEDIA_SDP_NEG_STATE_DONE \<and> active_local_sdp neg = None"
| "call_faults E (Set_local_answer local) neg \<longleftrightarrow> local = None \<and> initial_sdp neg = None"
| "call_faults E (Negotiate allow_asym) neg \<longleftrightarrow>
     \<not> has_remote_answer neg \<and>
     create_answer E (prefer_remote_codec_order neg) (the (neg_local_sdp neg)) (the (neg_remote_sdp neg)) = None"
| "call_faults E _ neg \<longleftrightarrow> False"

text \<open>A negotiation ends in Done, and leaves the active descriptions alone when it fails.\<close>

definition negotiated :: "pjmedia_sdp_neg \<Rightarrow> pj_status \<Rightarrow> pjmedia_sdp_neg \<Rightarrow> bool" where
  "negotiated neg st neg' \<longleftrightarrow>
     neg_state neg' = PJMEDIA_SDP_NEG_STATE_DONE \<and> answer_was_remote neg' = has_remote_answer neg \<and>
     initial_sdp neg' = initial_sdp neg \<and>
     (if st = PJ_SUCCESS then active_local_sdp neg' \<noteq> None \<and> active_remote_sdp neg' \<noteq> None
      else active_local_sdp neg' = active_local_sdp neg \<and> active_remote_sdp neg' = active_remote_sdp neg)"

lemma negotiate_cases:
  assumes "neg_ok neg" "neg_state neg = PJMEDIA_SDP_NEG_STATE_WAIT_NEGO"
  shows "case pjmedia_sdp_neg_negotiate E allow neg of
      None \<Rightarrow> call_faults E (Negotiate allow) neg
    | Some (st, neg') \<Rightarrow> \<not> call_faults E (Negotiate allow) neg \<and> negotiated neg st neg' \<and> neg_ok neg'"
proof -
  obtain local remote init where s: "neg_local_sdp neg = Some local" "neg_remote_sdp neg = Some remote"
      "initial_sdp neg = Some init"
    using assms by (auto simp: neg_ok_def)
  show ?thesis
  proof (cases "has_remote_answer neg")
    case True
    then show ?thesis
      using assms(1) s
      by (auto simp: pjmedia_sdp_neg_negotiate_def negotiate_remote_answer_def negotiated_def neg_ok_def
            split: prod.splits)
  next
    case False
    then show ?thesis
      using assms(1) s
      by (auto simp: pjmedia_sdp_neg_negotiate_def negotiate_local_answer_def negotiated_def neg_ok_def
            split: prod.splits option.splits)
  qed
qed

lemma created_ok:
  "pjmedia_sdp_neg_create_w_local_offer local = Inr neg \<Longrightarrow> neg_ok neg"
  "pjmedia_sdp_neg_create_w_remote_offer initial remote = Inr neg \<Longrightarrow> neg_ok neg"
  by (auto simp: pjmedia_sdp_neg_create_w_local_offer_def pjmedia_sdp_neg_create_w_remote_offer_def zero_neg_def
      neg_ok_def Let_def split: if_splits option.splits)

lemma run_call_None:
  assumes "neg_ok neg" "call_legal c (neg_state neg)"
  shows "run_call E c neg = None \<longleftrightarrow> call_faults E c neg"
proof (cases c)
  case (Negotiate allow)
  then show ?thesis
    using negotiate_cases [OF assms(1), of E allow] assms(2) by (auto split: option.splits)
qed (use assms in \<open>auto simp: pjmedia_sdp_neg_modify_local_offer_def pjmedia_sdp_neg_send_local_offer_def
  pjmedia_sdp_neg_set_local_answer_def Let_def split: option.splits\<close>)

lemma run_call_ok:
  assumes "neg_ok neg" "call_legal c (neg_state neg)" "run_call E c neg = Some (neg', st)"
  shows "neg_ok neg'"
proof (cases c)
  case (Negotiate allow)
  then show ?thesis
    using negotiate_cases [OF assms(1), of E allow] assms(2,3) by (auto split: option.splits)
next
  case (Modify_local_offer local)
  then show ?thesis
    using assms by (auto simp: pjmedia_sdp_neg_modify_local_offer_def Let_def neg_ok_def split: if_splits option.splits)
next
  case (Set_local_answer local)
  then show ?thesis
    using assms by (auto simp: pjmedia_sdp_neg_set_local_answer_def Let_def neg_ok_def split: if_splits option.splits)
next
  case Send_local_offer
  then show ?thesis
    using assms by (auto simp: pjmedia_sdp_neg_send_local_offer_def neg_ok_def split: if_splits option.splits)
qed (use assms in \<open>auto simp: pjmedia_sdp_neg_set_remote_answer_def pjmedia_sdp_neg_set_remote_offer_def
  pjmedia_sdp_neg_cancel_offer_def pjmedia_sdp_neg_set_prefer_remote_codec_order_def neg_ok_def
  split: pjmedia_sdp_neg_state.splits\<close>)

lemma negotiates_ok: "negotiates E neg \<Longrightarrow> neg_ok neg"
  by (induction rule: negotiates.induct) (auto dest: created_ok run_call_ok)

section \<open>Modifying the session\<close>

lemma find_same_media_Some:
  "find_same_media media is ms = Some i \<Longrightarrow> i \<in> set is \<and> desc_media (ms ! i) = media"
  by (induction "is") (auto split: if_splits)

lemma find_same_media_None:
  "find_same_media media is ms = None \<longleftrightarrow> (\<forall>i\<in>set is. desc_media (ms ! i) \<noteq> media)"
  by (induction "is") auto

lemma move_media_props:
  assumes "oi \<le> ni" "ni < length xs"
  shows "mset (move_media ni oi xs) = mset xs" "length (move_media ni oi xs) = length xs"
    "take oi (move_media ni oi xs) = take oi xs" "move_media ni oi xs ! oi = xs ! ni"
proof -
  have "xs = take oi xs @ take (ni - oi) (drop oi xs) @ xs ! ni # drop (Suc ni) xs"
    using assms by (metis append_take_drop_id id_take_nth_drop append.assoc le_add_diff_inverse take_add)
  then have "mset xs = mset (take oi xs @ take (ni - oi) (drop oi xs) @ xs ! ni # drop (Suc ni) xs)"
    by (rule arg_cong)
  then show "mset (move_media ni oi xs) = mset xs" by (simp add: move_media_def)
qed (use assms in \<open>simp_all add: move_media_def nth_append\<close>)

lemma insert_media_props:
  assumes "oi \<le> length xs"
  shows "mset (insert_media oi x xs) = add_mset x (mset xs)" "length (insert_media oi x xs) = Suc (length xs)"
    "take oi (insert_media oi x xs) = take oi xs" "insert_media oi x xs ! oi = x"
proof -
  have "mset xs = mset (take oi xs @ drop oi xs)" by simp
  then show "mset (insert_media oi x xs) = add_mset x (mset xs)" by (simp only: insert_media_def mset_append) simp
qed (use assms in \<open>simp_all add: insert_media_def nth_append\<close>)

text \<open>What the fixed offer keeps: the lines before \<open>oi\<close>, the types of the old lines, and every line of the new
  offer; what it adds is switched off.\<close>

lemma fix_offer_ok:
  assumes "oi \<le> length ms"
  shows "\<exists>added. mset (fix_offer local oi oms ms) = mset ms + added \<and> size added \<le> length oms \<and>
      (\<forall>m\<in>#added. desc_port m = 0) \<and>
      oi + length oms \<le> length (fix_offer local oi oms ms) \<and> take oi (fix_offer local oi oms ms) = take oi ms \<and>
      (\<forall>k<length oms. desc_media (fix_offer local oi oms ms ! (oi + k)) = desc_media (oms ! k))"
  using assms
proof (induction oms arbitrary: oi ms)
  case (Cons om oms)
  define ms' where "ms' = (case find_same_media (desc_media om) [oi..<length ms] ms of
          Some ni \<Rightarrow> if ni \<noteq> oi then move_media ni oi ms else ms
        | None \<Rightarrow> insert_media oi (sdp_media_clone_deactivate om (Some om) (Some local)) ms)"
  obtain new where n: "mset ms' = mset ms + new" "size new \<le> 1" "\<forall>m\<in>#new. desc_port m = 0"
      "Suc oi \<le> length ms'" "take oi ms' = take oi ms" "desc_media (ms' ! oi) = desc_media om"
  proof (cases "find_same_media (desc_media om) [oi..<length ms] ms")
    case None
    then show ?thesis
      using that [of "{#sdp_media_clone_deactivate om (Some om) (Some local)#}"] insert_media_props [OF Cons(2)]
        Cons(2) by (simp add: ms'_def)
  next
    case (Some ni)
    then have "oi \<le> ni" "ni < length ms" "desc_media (ms ! ni) = desc_media om"
      using find_same_media_Some [OF Some] by auto
    then show ?thesis
      using that [of "{#}"] move_media_props [of oi ni ms] Some by (cases "ni = oi") (simp_all add: ms'_def)
  qed
  obtain added where a: "mset (fix_offer local (Suc oi) oms ms') = mset ms' + added" "size added \<le> length oms"
      "\<forall>m\<in>#added. desc_port m = 0" "Suc oi + length oms \<le> length (fix_offer local (Suc oi) oms ms')"
      "take (Suc oi) (fix_offer local (Suc oi) oms ms') = take (Suc oi) ms'"
      "\<forall>k<length oms. desc_media (fix_offer local (Suc oi) oms ms' ! (Suc oi + k)) = desc_media (oms ! k)"
    using Cons(1) [OF n(4)] by blast
  have f: "fix_offer local oi (om # oms) ms = fix_offer local (Suc oi) oms ms'" by (simp add: ms'_def)
  have t: "take oi (fix_offer local (Suc oi) oms ms') = take oi ms'"
    using arg_cong [OF a(5), of "take oi"] by (simp add: min_def)
  have h: "fix_offer local (Suc oi) oms ms' ! oi = ms' ! oi"
    using arg_cong [OF a(5), of "\<lambda>l. l ! oi"] by simp
  show ?case
    unfolding f
  proof (intro exI [of _ "new + added"] conjI)
    show "\<forall>k<length (om # oms). desc_media (fix_offer local (Suc oi) oms ms' ! (oi + k)) = desc_media ((om # oms) ! k)"
      using a(6) h n(6) by (simp add: All_less_Suc2)
  qed (use a n t in auto)
qed (simp add: exI [of _ "{#}"])

end
