(* ===== verification/Sdp_Neg_Props.thy ===== *)
theory Sdp_Neg_Props
  imports Sdp_Neg_Flow
begin

text \<open>What the offer/answer negotiator guarantees.\<close>

section \<open>An answer from the remote side\<close>

text \<open>C25: When a remote answer to an offered line is accepted, both lines are cut down to formats they
  have in common: the formats left in the offer are offered ones, those left in the answer are answered
  ones and no more than those of the offer, and the two lists agree position by position (same static
  number, or encodings that match), so that both sides take the same codec first. A static format is kept
  in the offer when the answer has it. When no two offered formats agree with the same answered one, the
  lists have the same length. The direction of the local line is cut down to what the remote one
  allows. This holds for every set of format callbacks that rewrite only \<^verbatim>\<open>fmtp\<close> attributes.\<close>

theorem answer_narrows_offer:
  assumes "format_callbacks E" "process_m_answer E offer answer False = (PJ_SUCCESS, offer', answer')"
    "desc_port offer \<noteq> 0" "desc_port answer \<noteq> 0"
  shows "desc_fmt offer' \<noteq> [] \<and> set (desc_fmt offer') \<subseteq> set (desc_fmt offer) \<and>
    desc_fmt answer' \<noteq> [] \<and> length (desc_fmt answer') \<le> length (desc_fmt offer') \<and>
    (\<forall>k<length (desc_fmt answer'). desc_fmt answer' ! k \<in> set (desc_fmt answer)
       \<and> formats_agree offer answer (desc_fmt offer' ! k) (desc_fmt answer' ! k)) \<and>
    (\<forall>f\<in>set (desc_fmt offer). pj_strtoul f < 96 \<longrightarrow> f \<in> set (desc_fmt answer) \<longrightarrow> f \<in> set (desc_fmt offer')) \<and>
    (unambiguous offer answer \<longrightarrow> length (desc_fmt answer') = length (desc_fmt offer')) \<and>
    desc_port offer' = desc_port offer \<and> desc_port answer' = desc_port answer \<and>
    (may_send (local_dir offer') \<longleftrightarrow> may_send (local_dir offer) \<and> may_recv (remote_dir answer)) \<and>
    (may_recv (local_dir offer') \<longleftrightarrow> may_recv (local_dir offer) \<and> may_send (remote_dir answer))"
proof -
  let ?o = "update_media_direction answer offer"
  have s: "sym_formats E ?o answer = (PJ_SUCCESS, offer', answer')"
    using assms(2-4) by (auto simp: process_m_answer_def split: if_splits)
  have a: "formats_agree ?o answer = formats_agree offer answer" by (simp add: formats_agree_def fun_eq_iff)
  then have u: "unambiguous ?o answer = unambiguous offer answer" by (simp add: unambiguous_def)
  show ?thesis
    using format_callbacks.sym_formats_ok [OF assms(1) s]
    by (simp add: a u local_dir_updated adjusted_dir_meet)
qed

text \<open>A line with an active port, some formats and attributes of the form \<^verbatim>\<open>rtpmap\<close>.\<close>

definition audio :: "string list \<Rightarrow> string list \<Rightarrow> pjmedia_sdp_media" where
  "audio fmts maps = \<lparr>desc_media = ''audio'', desc_port = 4000, desc_port_count = 1, desc_transport = ''RTP/AVP'',
     desc_fmt = fmts, m_conn = None, m_bandw = [],
     m_attr = map (\<lambda>v. \<lparr>attr_name = ''rtpmap'', attr_value = v\<rparr>) maps\<rparr>"

definition voice_offer :: pjmedia_sdp_media where
  "voice_offer = audio [''8'', ''0'', ''97''] [''97 iLBC/8000'']"

definition voice_answer :: pjmedia_sdp_media where
  "voice_answer = audio [''100'', ''0''] [''100 iLBC/8000'']"

lemma voice_process:
  "process_m_answer codec_env voice_offer voice_answer False =
     (PJ_SUCCESS, audio [''97'', ''0''] [''97 iLBC/8000''], audio [''100'', ''0''] [''100 iLBC/8000''])"
  by code_simp

theorem answer_narrows_offer_witness:
  "formats_agree voice_offer voice_answer ''97'' ''100'' \<and> formats_agree voice_offer voice_answer ''0'' ''0''"
proof -
  have p: "desc_port voice_offer \<noteq> 0" "desc_port voice_answer \<noteq> 0"
    by (simp_all add: voice_offer_def voice_answer_def audio_def)
  have "\<forall>k<2. formats_agree voice_offer voice_answer ([''97'', ''0''] ! k) ([''100'', ''0''] ! k)"
    using answer_narrows_offer [OF codecs.format_callbacks_axioms voice_process p]
    by (simp add: audio_def numeral_2_eq_2)
  then show ?thesis by (simp add: All_less_Suc2 numeral_2_eq_2)
qed

section \<open>An answer to the remote side\<close>

text \<open>C26: When an offer of the remote side has been negotiated with success, the active local description is an
  answer to it: it has one line for each line of the offer, in the order, with the media type and the transport
  of the offer, and at least one line is active. Every active line answers an active line of the offer with
  a line of the local description of its own: port, media and transport are those of the local line, it has at most
  three formats, each one agrees with a codec of both sides, and the directions are those both sides
  allow. The remote description becomes active as it came, and the version of the session is one more
  than that of the active description, or of the initial one when there is none.\<close>

theorem local_answer_fits_offer:
  assumes "format_callbacks E" "neg_state neg = PJMEDIA_SDP_NEG_STATE_WAIT_NEGO" "\<not> has_remote_answer neg"
    "neg_local_sdp neg = Some local" "neg_remote_sdp neg = Some offer"
    "pjmedia_sdp_neg_negotiate E allow_asym neg = Some (PJ_SUCCESS, neg')"
  shows "\<exists>answer. active_local_sdp neg' = Some answer \<and> active_remote_sdp neg' = Some offer \<and>
    neg_state neg' = PJMEDIA_SDP_NEG_STATE_DONE \<and>
    origin_version answer = origin_version (the (if active_local_sdp neg = None then initial_sdp neg
                                                 else active_local_sdp neg)) + 1 \<and>
    length (s_media answer) = length (s_media offer) \<and> (\<exists>am\<in>set (s_media answer). desc_port am \<noteq> 0) \<and>
    (\<forall>i<length (s_media offer). desc_media (s_media answer ! i) = desc_media (s_media offer ! i) \<and>
       desc_transport (s_media answer ! i) = desc_transport (s_media offer ! i)) \<and>
    (\<exists>sel. inj_on sel {i. i < length (s_media offer) \<and> desc_port (s_media answer ! i) \<noteq> 0} \<and>
       (\<forall>i<length (s_media offer). desc_port (s_media answer ! i) \<noteq> 0 \<longrightarrow> sel i < length (s_media local) \<and>
          answers_line (s_media offer ! i) (s_media local ! sel i) (s_media answer ! i)))"
proof -
  obtain answer previous where
    c: "create_answer E (prefer_remote_codec_order neg) local offer = Some (PJ_SUCCESS, answer)" and
    p: "(case active_local_sdp neg of Some a \<Rightarrow> Some a | None \<Rightarrow> initial_sdp neg) = Some previous" and
    n: "active_local_sdp neg' = Some (answer\<lparr>origin_version := origin_version previous + 1\<rparr>)"
      "active_remote_sdp neg' = Some offer" "neg_state neg' = PJMEDIA_SDP_NEG_STATE_DONE"
    using assms(2-) by (auto simp: pjmedia_sdp_neg_negotiate_def negotiate_local_answer_def
        split: option.splits if_splits)
  have v: "previous = the (if active_local_sdp neg = None then initial_sdp neg else active_local_sdp neg)"
    using p by (auto split: option.splits)
  show ?thesis
    using format_callbacks.create_answer_ok [OF assms(1) c] n
    by (intro exI [of _ "answer\<lparr>origin_version := origin_version previous + 1\<rparr>"]) (simp add: v)
qed

definition call_of :: "string \<Rightarrow> pjmedia_sdp_media list \<Rightarrow> pjmedia_sdp_session" where
  "call_of user medias = \<lparr>origin_user = user, origin_id = 7, origin_version = 3, origin_net_type = ''IN'',
     origin_addr_type = ''IP4'', origin_addr = ''10.0.0.1'', s_name = ''call'',
     s_conn = Some \<lparr>conn_net_type = ''IN'', conn_addr_type = ''IP4'', conn_addr = ''10.0.0.1''\<rparr>, s_bandw = [],
     time_start = 0, time_stop = 0, s_attr = [], s_media = medias\<rparr>"

text \<open>Voice and a video line that the local side does not have.\<close>

definition remote_call :: pjmedia_sdp_session where
  "remote_call = call_of ''bob'' [voice_offer, voice_offer\<lparr>desc_media := ''video''\<rparr>]"

definition local_call :: pjmedia_sdp_session where
  "local_call = call_of ''alice'' [voice_answer]"

definition called :: pjmedia_sdp_neg where
  "called = (case pjmedia_sdp_neg_create_w_remote_offer (Some local_call) remote_call of Inr neg \<Rightarrow> neg)"

lemma called_simps:
  "neg_state called = PJMEDIA_SDP_NEG_STATE_WAIT_NEGO" "\<not> has_remote_answer called"
  "neg_local_sdp called = Some local_call" "neg_remote_sdp called = Some remote_call"
  by code_simp+

lemma called_negotiates: "map_option fst (pjmedia_sdp_neg_negotiate codec_env False called) = Some PJ_SUCCESS"
  by code_simp

theorem local_answer_fits_offer_witness:
  "\<exists>answer. active_local_sdp (snd (the (pjmedia_sdp_neg_negotiate codec_env False called))) = Some answer \<and>
     length (s_media answer) = 2 \<and> desc_media (s_media answer ! 1) = ''video''"
proof -
  obtain neg' where n: "pjmedia_sdp_neg_negotiate codec_env False called = Some (PJ_SUCCESS, neg')"
    using called_negotiates by auto
  have "s_media remote_call = [voice_offer, voice_offer\<lparr>desc_media := ''video''\<rparr>]"
    by (simp add: remote_call_def call_of_def)
  then show ?thesis
    using local_answer_fits_offer [OF codecs.format_callbacks_axioms called_simps n] by (auto simp: n)
qed

section \<open>The life of a negotiator\<close>


text \<open>The first negotiation fails because the lines have different types; then the session is modified.\<close>

definition hopeless_call :: pjmedia_sdp_session where
  "hopeless_call = call_of ''alice'' [voice_answer\<lparr>desc_media := ''text''\<rparr>]"

definition hopeless_neg :: pjmedia_sdp_neg where
  "hopeless_neg = (case pjmedia_sdp_neg_create_w_remote_offer (Some hopeless_call) remote_call of Inr neg \<Rightarrow> neg)"

definition failed_neg :: pjmedia_sdp_neg where
  "failed_neg = (case run_call codec_env (Negotiate False) hopeless_neg of Some (neg, st) \<Rightarrow> neg)"

lemma hopeless_created:
  "pjmedia_sdp_neg_create_w_remote_offer (Some hopeless_call) remote_call = Inr hopeless_neg"
  by code_simp

lemma hopeless_fails:
  "neg_state hopeless_neg = PJMEDIA_SDP_NEG_STATE_WAIT_NEGO"
  "run_call codec_env (Negotiate False) hopeless_neg = Some (failed_neg, PJMEDIA_SDPNEG_ENOMEDIA)"
  by code_simp+

lemma failed_neg_state:
  "neg_state failed_neg = PJMEDIA_SDP_NEG_STATE_DONE" "active_local_sdp failed_neg = None"
  "pjmedia_sdp_validate local_call = PJ_SUCCESS"
  by code_simp+

lemma failed_neg_reached: "negotiates codec_env failed_neg"
  by (rule negotiates.call [OF negotiates.remote_offer [OF hopeless_created] _ hopeless_fails(2)])
    (simp add: hopeless_fails)


section \<open>Modifying the session\<close>


text \<open>The active description has video and audio; the new one offers audio only.\<close>

definition active_neg :: pjmedia_sdp_neg where
  "active_neg = zero_neg\<lparr>neg_state := PJMEDIA_SDP_NEG_STATE_DONE, initial_sdp := Some local_call,
     active_local_sdp := Some (call_of ''carol'' [voice_offer\<lparr>desc_media := ''video''\<rparr>, voice_offer]),
     active_remote_sdp := Some remote_call\<rparr>"


end
