(* ===== verification/Stun_Tsx.thy ===== *)
theory Stun_Tsx
  imports Timer_Heap_Ops
begin

text \<open>
  STUN client transactions (\<^verbatim>\<open>pjnath/src/pjnath/stun_transaction.c\<close>): a request that is sent again with
  doubling intervals until a response comes or the attempts are used up. Both timers are entries of the
  modelled timer heap. The callbacks of the user act on the whole world, so that they may call the
  transaction again; the trace records what is sent and what is reported.
\<close>

unbundle bit_operations_syntax

section \<open>Messages\<close>

text \<open>The part of a decoded message the transaction reads.\<close>

datatype stun_attr = Errcode_attr int string | Other_attr "16 word"

definition PJ_STUN_ATTR_ERROR_CODE :: "16 word" where
  "PJ_STUN_ATTR_ERROR_CODE = 0x0009"

primrec attr_type :: "stun_attr \<Rightarrow> 16 word" where
  "attr_type (Errcode_attr code reason) = PJ_STUN_ATTR_ERROR_CODE"
| "attr_type (Other_attr t) = t"

primrec err_code :: "stun_attr \<Rightarrow> int" where
  "err_code (Errcode_attr code reason) = code"
| "err_code (Other_attr t) = 0"

record pj_stun_msg =
  hdr_type :: "16 word"
  msg_attrs :: "stun_attr list"

definition PJ_STUN_IS_SUCCESS_RESPONSE :: "16 word \<Rightarrow> bool" where
  "PJ_STUN_IS_SUCCESS_RESPONSE msg_type \<longleftrightarrow> msg_type AND 0x0110 = 0x0100"

definition PJ_STUN_IS_ERROR_RESPONSE :: "16 word \<Rightarrow> bool" where
  "PJ_STUN_IS_ERROR_RESPONSE msg_type \<longleftrightarrow> msg_type AND 0x0110 = 0x0110"

definition pj_stun_msg_find_attr :: "pj_stun_msg \<Rightarrow> 16 word \<Rightarrow> nat \<Rightarrow> stun_attr option" where
  "pj_stun_msg_find_attr m t index = find (\<lambda>a. attr_type a = t) (drop index (msg_attrs m))"

section \<open>The transaction\<close>

definition TIMER_ACTIVE :: int where "TIMER_ACTIVE = 1"

definition PJ_STUN_MAX_TRANSMIT_COUNT :: "32 word" where "PJ_STUN_MAX_TRANSMIT_COUNT = 7"

definition PJ_STUN_RTO_VALUE :: int where "PJ_STUN_RTO_VALUE = 100"

definition PJ_STUN_TIMEOUT_VALUE :: int where "PJ_STUN_TIMEOUT_VALUE = 16 * PJ_STUN_RTO_VALUE"

text \<open>
  \<open>cb_complete\<close> and \<open>cb_destroy\<close> tell whether the callback is set; what a callback does is a matter of
  the environment. The timers are addresses of entries in the heap.
\<close>

record pj_stun_client_tsx =
  cb_complete :: bool
  cb_destroy :: bool
  stx_user_data :: nat
  stx_complete :: bool
  require_retransmit :: bool
  rto_msec :: "32 word"
  rt_timer :: nat
  transmit_count :: "32 word"
  retransmit_time :: pj_time_val
  destroy_timer :: nat
  last_pkt :: "8 word list"

datatype stun_action =
    St_sent "8 word list"
  | St_completed pj_status "pj_stun_msg option"
  | St_destroyed

record stun_world =
  stx :: pj_stun_client_tsx
  st_heap :: pj_timer_heap_t
  st_ticks :: pj_time_val
  st_trace :: "stun_action list"

record stun_env =
  on_complete :: "pj_status \<Rightarrow> pj_stun_msg option \<Rightarrow> stun_world \<Rightarrow> stun_world"
  on_send_msg :: "8 word list \<Rightarrow> stun_world \<Rightarrow> stun_world \<times> pj_status"
  on_destroy :: "stun_world \<Rightarrow> stun_world"

abbreviation st_id :: "nat \<Rightarrow> stun_world \<Rightarrow> int" where
  "st_id e w \<equiv> te_id (nodes (st_heap w) e)"

definition st_set_id :: "nat \<Rightarrow> int \<Rightarrow> stun_world \<Rightarrow> stun_world" where
  "st_set_id e i w = w\<lparr>st_heap := set_te_id (st_heap w) e i\<rparr>"

definition st_emit :: "stun_action \<Rightarrow> stun_world \<Rightarrow> stun_world" where
  "st_emit a w = w\<lparr>st_trace := st_trace w @ [a]\<rparr>"

text \<open>The idiom \<^verbatim>\<open>if (timer.id != 0) { pj_timer_heap_cancel(...); timer.id = 0; }\<close>.\<close>

definition st_stop :: "nat \<Rightarrow> stun_world \<Rightarrow> stun_world" where
  "st_stop e w =
     (if st_id e w \<noteq> 0
      then st_set_id e 0 (w\<lparr>st_heap := fst (pj_timer_heap_cancel (st_heap w) e)\<rparr>)
      else w)"

text \<open>Scheduling the retransmission timer, as both places do it.\<close>

definition st_start_retransmit :: "stun_world \<Rightarrow> stun_world \<times> pj_status" where
  "st_start_retransmit w =
     (let e = rt_timer (stx w);
          (h, status) = pj_timer_heap_schedule (st_heap w) (st_ticks w) e (retransmit_time (stx w));
          w = w\<lparr>st_heap := h\<rparr>
      in if status \<noteq> PJ_SUCCESS then (st_set_id e 0 w, status)
         else (st_set_id e TIMER_ACTIVE w, PJ_SUCCESS))"

text \<open>
  \<open>mem\<close> are the zeroed entries of the new transaction, \<open>rt\<close> and \<open>dt\<close> their addresses;
  \<open>retransmit_timer_cb\<close> and \<open>destroy_timer_cb\<close> name the two callbacks.
\<close>

definition retransmit_timer_cb :: nat where "retransmit_timer_cb = 1"
definition destroy_timer_cb :: nat where "destroy_timer_cb = 2"

definition stun_entry :: "nat \<Rightarrow> pj_timer_entry" where
  "stun_entry cb = \<lparr>te_id = 0, te_cb = Some cb, timer_id = 0, timer_value = Time_val 0 0\<rparr>"

definition pj_stun_client_tsx_create ::
    "32 word \<Rightarrow> pj_timer_heap_t \<Rightarrow> pj_time_val \<Rightarrow> nat \<Rightarrow> nat \<Rightarrow> bool \<Rightarrow> bool \<Rightarrow> stun_world" where
  "pj_stun_client_tsx_create rto h ticks rt dt has_complete has_destroy =
     \<lparr>stx = \<lparr>cb_complete = has_complete, cb_destroy = has_destroy, stx_user_data = 0,
        stx_complete = False, require_retransmit = False, rto_msec = rto, rt_timer = rt,
        transmit_count = 0, retransmit_time = Time_val 0 0, destroy_timer = dt, last_pkt = []\<rparr>,
      st_heap = h\<lparr>nodes := (nodes h)(rt := stun_entry retransmit_timer_cb,
                                     dt := stun_entry destroy_timer_cb)\<rparr>,
      st_ticks = ticks, st_trace = []\<rparr>"

definition pj_stun_client_tsx_schedule_destroy ::
    "pj_time_val \<Rightarrow> stun_world \<Rightarrow> stun_world \<times> pj_status" where
  "pj_stun_client_tsx_schedule_destroy delay w =
     (if assert_fails (cb_destroy (stx w)) then (w, PJ_EINVAL)
      else
        let w = st_stop (destroy_timer (stx w)) w;
            w = st_stop (rt_timer (stx w)) w;
            (h, status) = pj_timer_heap_schedule (st_heap w) (st_ticks w) (destroy_timer (stx w)) delay;
            w = w\<lparr>st_heap := h\<rparr>
        in if status \<noteq> PJ_SUCCESS then (w, status)
           else
             let w = st_set_id (destroy_timer (stx w)) TIMER_ACTIVE w
             in (w\<lparr>stx := (stx w)\<lparr>cb_complete := False\<rparr>\<rparr>, PJ_SUCCESS))"

definition pj_stun_client_tsx_destroy :: "stun_world \<Rightarrow> stun_world \<times> pj_status" where
  "pj_stun_client_tsx_destroy w =
     (let w = st_stop (rt_timer (stx w)) w;
          w = st_stop (destroy_timer (stx w)) w
      in (w, PJ_SUCCESS))"

definition pj_stun_client_tsx_is_complete :: "stun_world \<Rightarrow> bool" where
  "pj_stun_client_tsx_is_complete w = stx_complete (stx w)"

definition pj_stun_client_tsx_set_data :: "nat \<Rightarrow> stun_world \<Rightarrow> stun_world \<times> pj_status" where
  "pj_stun_client_tsx_set_data data w = (w\<lparr>stx := (stx w)\<lparr>stx_user_data := data\<rparr>\<rparr>, PJ_SUCCESS)"

definition pj_stun_client_tsx_get_data :: "stun_world \<Rightarrow> nat" where
  "pj_stun_client_tsx_get_data w = stx_user_data (stx w)"

section \<open>Sending\<close>

text \<open>
  The delay before the next attempt. Shifting the milliseconds wraps at 32 bits, as \<^verbatim>\<open>unsigned\<close> does.
\<close>

definition next_retransmit_time :: "pj_stun_client_tsx \<Rightarrow> pj_time_val" where
  "next_retransmit_time t =
     (if transmit_count t = 0 then Time_val 0 (uint (rto_msec t))
      else if transmit_count t < PJ_STUN_MAX_TRANSMIT_COUNT - 1 then
        let m = word_of_int (PJ_TIME_VAL_MSEC (retransmit_time t)) :: 32 word;
            m = push_bit 1 m
        in Time_val (uint (m div 1000)) (uint (m mod 1000))
      else Time_val (PJ_STUN_TIMEOUT_VALUE div 1000) (PJ_STUN_TIMEOUT_VALUE mod 1000))"

definition tsx_transmit_msg :: "stun_env \<Rightarrow> stun_world \<Rightarrow> stun_world \<times> pj_status" where
  "tsx_transmit_msg E w =
     (if assert_fails (st_id (rt_timer (stx w)) w = 0 \<or> \<not> require_retransmit (stx w)) then (w, PJ_EBUSY)
      else
        let (w, status) =
              (if require_retransmit (stx w)
               then st_start_retransmit
                      (w\<lparr>stx := (stx w)\<lparr>retransmit_time := next_retransmit_time (stx w)\<rparr>\<rparr>)
               else (w, PJ_SUCCESS))
        in if status \<noteq> PJ_SUCCESS then (w, status)
           else
             let w = w\<lparr>stx := (stx w)\<lparr>transmit_count := transmit_count (stx w) + 1\<rparr>\<rparr>;
                 (w, status) = on_send_msg E (last_pkt (stx w)) (st_emit (St_sent (last_pkt (stx w))) w)
             in if status = PJNATH_ESTUNDESTROYED then (w, status)
                else if status \<noteq> PJ_SUCCESS then (st_stop (rt_timer (stx w)) w, status)
                else (w, status))"

definition pj_stun_client_tsx_send_msg ::
    "stun_env \<Rightarrow> bool \<Rightarrow> 8 word list \<Rightarrow> stun_world \<Rightarrow> stun_world \<times> pj_status" where
  "pj_stun_client_tsx_send_msg E retransmit pkt w =
     (if assert_fails (pkt \<noteq> []) then (w, PJ_EINVAL)
      else if assert_fails (st_id (rt_timer (stx w)) w = 0) then (w, PJ_EBUSY)
      else
        let w = w\<lparr>stx := (stx w)\<lparr>last_pkt := pkt, require_retransmit := retransmit\<rparr>\<rparr>;
            (w, status) =
              (if \<not> retransmit then
                 let timeout = rto_msec (stx w) * 16
                 in st_start_retransmit
                      (w\<lparr>stx := (stx w)\<lparr>transmit_count := PJ_STUN_MAX_TRANSMIT_COUNT,
                         retransmit_time := Time_val (uint (timeout div 1000)) (uint (timeout mod 1000))\<rparr>\<rparr>)
               else (w, PJ_SUCCESS))
        in if status \<noteq> PJ_SUCCESS then (w, status)
           else
             let (w, status) = tsx_transmit_msg E w
             in if status \<noteq> PJ_SUCCESS then (st_stop (rt_timer (stx w)) w, status)
                else (w, PJ_SUCCESS))"

section \<open>Timers and responses\<close>

text \<open>The end of a transaction is reported once, and not at all when the callback was withdrawn.\<close>

definition tsx_finish :: "stun_env \<Rightarrow> pj_status \<Rightarrow> pj_stun_msg option \<Rightarrow> stun_world \<Rightarrow> stun_world" where
  "tsx_finish E status response w =
     (if \<not> stx_complete (stx w) then
        let w = w\<lparr>stx := (stx w)\<lparr>stx_complete := True\<rparr>\<rparr>
        in if cb_complete (stx w)
           then on_complete E status response (st_emit (St_completed status response) w) else w
      else w)"

definition retransmit_timer_callback :: "stun_env \<Rightarrow> stun_world \<Rightarrow> stun_world" where
  "retransmit_timer_callback E w =
     (if PJ_STUN_MAX_TRANSMIT_COUNT \<le> transmit_count (stx w) then
        tsx_finish E PJNATH_ESTUNTIMEDOUT None (st_set_id (rt_timer (stx w)) 0 w)
      else
        let (w, status) = tsx_transmit_msg E (st_set_id (rt_timer (stx w)) 0 w)
        in if status = PJNATH_ESTUNDESTROYED then w
           else if status \<noteq> PJ_SUCCESS
             then tsx_finish E status None (st_set_id (rt_timer (stx w)) 0 w)
           else w)"

definition pj_stun_client_tsx_retransmit :: "stun_env \<Rightarrow> stun_world \<Rightarrow> stun_world \<times> pj_status" where
  "pj_stun_client_tsx_retransmit E w =
     (if st_id (destroy_timer (stx w)) w \<noteq> 0 then (w, PJ_SUCCESS)
      else tsx_transmit_msg E (st_stop (rt_timer (stx w)) w))"

definition destroy_timer_callback :: "stun_env \<Rightarrow> stun_world \<Rightarrow> stun_world" where
  "destroy_timer_callback E w =
     on_destroy E (st_emit St_destroyed (st_set_id (destroy_timer (stx w)) 0 w))"

definition pj_stun_client_tsx_on_rx_msg ::
    "stun_env \<Rightarrow> pj_stun_msg \<Rightarrow> stun_world \<Rightarrow> stun_world \<times> pj_status" where
  "pj_stun_client_tsx_on_rx_msg E m w =
     (if \<not> PJ_STUN_IS_SUCCESS_RESPONSE (hdr_type m) \<and> \<not> PJ_STUN_IS_ERROR_RESPONSE (hdr_type m)
      then (w, PJNATH_EINSTUNMSGTYPE)
      else
        let w = st_stop (rt_timer (stx w)) w;
            err_attr = pj_stun_msg_find_attr m PJ_STUN_ATTR_ERROR_CODE 0
        in case err_attr of
             None \<Rightarrow> (tsx_finish E PJ_SUCCESS (Some m) w, PJ_SUCCESS)
           | Some a \<Rightarrow>
               if err_code a \<le> 200 then (w, PJ_SUCCESS)
               else (tsx_finish E (PJ_STATUS_FROM_STUN_CODE (err_code a)) (Some m) w, PJ_SUCCESS))"

text \<open>The entry at the root of the heap expires: the poll takes it out and runs its callback.\<close>

definition st_fire :: "stun_env \<Rightarrow> stun_world \<Rightarrow> stun_world" where
  "st_fire E w =
     (let (h, e) = remove_node (st_heap w) 0;
          w = w\<lparr>st_heap := h\<rparr>
      in if e = rt_timer (stx w) then retransmit_timer_callback E w
         else if e = destroy_timer (stx w) then destroy_timer_callback E w
         else w)"

end
