(* ===== verification/Stun_Tsx_Inv.thy ===== *)
theory Stun_Tsx_Inv
  imports Stun_Tsx Timer_Heap_Poll
begin

text \<open>
  The invariant of a STUN transaction: the field \<open>id\<close> of each of its timers is set exactly while the
  timer is armed, and its end is reported at most once. It is kept by every operation, whatever the
  callbacks of the user do through the interface.
\<close>

section \<open>Flagged timers\<close>

text \<open>
  The discipline of the code on any timer service: a flag tells whether the timer is armed. What the
  two idioms do follows from the contract of the service alone.
\<close>

context timer_service
begin

lemma stop_flagged:
  assumes "ok h" "get_id h e \<noteq> 0 \<longleftrightarrow> view h e \<noteq> None"
    and g: "h' = (if get_id h e \<noteq> 0 then set_id (stop h e) e 0 else h)"
  shows "ok h'" "view h' = (view h)(e := None)" "get_id h' = (get_id h)(e := 0)"
  using assms(1,2) by (auto simp: g service_simps fun_eq_iff)

lemma start_flagged:
  assumes "ok h" "view h e = None"
  shows "ok (set_id (sched h now e d) e i)"
    "view (set_id (sched h now e d) e i) = (view h)(e \<mapsto> PJ_TIME_VAL_ADD now d)"
    "get_id (set_id (sched h now e d) e i) = (get_id h)(e := i)"
  using assms by (simp_all add: service_simps)

end

section \<open>The invariant\<close>

definition st_view :: "stun_world \<Rightarrow> nat \<Rightarrow> pj_time_val option" where
  "st_view w = th_view (st_heap w)"

definition completions :: "stun_action list \<Rightarrow> nat" where
  "completions tr = length (filter (\<lambda>a. case a of St_completed s r \<Rightarrow> True | _ \<Rightarrow> False) tr)"

lemma completions_simps [simp]:
  "completions [] = 0" "completions (tr @ tr') = completions tr + completions tr'"
  "completions (St_sent p # tr) = completions tr"
  "completions (St_completed s r # tr) = Suc (completions tr)"
  "completions (St_destroyed # tr) = completions tr"
  by (simp_all add: completions_def)

definition st_timers :: "stun_world \<Rightarrow> nat set" where
  "st_timers w = {rt_timer (stx w), destroy_timer (stx w)}"

definition stun_inv :: "stun_world \<Rightarrow> bool" where
  "stun_inv w \<longleftrightarrow> th_inv (st_heap w) \<and> rt_timer (stx w) \<noteq> destroy_timer (stx w) \<and>
     (\<forall>e\<in>st_timers w. st_id e w \<noteq> 0 \<longleftrightarrow> st_view w e \<noteq> None) \<and>
     completions (st_trace w) \<le> (if stx_complete (stx w) then 1 else 0)"

text \<open>What an operation keeps besides: the place of the timers, the fact of completion, and the trace so far.\<close>

definition stun_keeps :: "stun_world \<Rightarrow> stun_world \<Rightarrow> bool" where
  "stun_keeps w w' \<longleftrightarrow> stun_inv w' \<and> rt_timer (stx w') = rt_timer (stx w) \<and>
     destroy_timer (stx w') = destroy_timer (stx w) \<and> (stx_complete (stx w) \<longrightarrow> stx_complete (stx w')) \<and>
     (\<exists>more. st_trace w' = st_trace w @ more)"

lemma stun_keeps_refl: "stun_inv w \<Longrightarrow> stun_keeps w w"
  by (simp add: stun_keeps_def)

lemma stun_keeps_trans [trans]: "stun_keeps u v \<Longrightarrow> stun_keeps v w \<Longrightarrow> stun_keeps u w"
  by (auto simp: stun_keeps_def)

lemma stun_keepsD:
  assumes "stun_keeps w w'"
  shows "stun_inv w'" "rt_timer (stx w') = rt_timer (stx w)" "destroy_timer (stx w') = destroy_timer (stx w)"
  using assms by (simp_all add: stun_keeps_def)

text \<open>Updates of the transaction and of the trace do not touch the heap.\<close>

lemma st_simps [simp]:
  "stx (st_set_id e i w) = stx w" "st_ticks (st_set_id e i w) = st_ticks w"
  "st_trace (st_set_id e i w) = st_trace w" "st_heap (st_set_id e i w) = set_te_id (st_heap w) e i"
  "stx (st_emit a w) = stx w" "st_ticks (st_emit a w) = st_ticks w"
  "st_trace (st_emit a w) = st_trace w @ [a]" "st_heap (st_emit a w) = st_heap w"
  "stx (st_stop e w) = stx w" "st_ticks (st_stop e w) = st_ticks w" "st_trace (st_stop e w) = st_trace w"
  by (simp_all add: st_set_id_def st_emit_def st_stop_def)

lemma set_te_id_idem: "te_id (nodes h e) = i \<Longrightarrow> set_te_id h e i = h"
  by (simp add: set_te_id_def fun_upd_idem)

lemma st_stop_timer:
  assumes "stun_inv w" "e \<in> st_timers w"
  shows "th_inv (st_heap (st_stop e w))" "st_view (st_stop e w) = (st_view w)(e := None)"
    "st_id x (st_stop e w) = (if x = e then 0 else st_id x w)"
proof -
  have h: "th_inv (st_heap w)" "st_id e w \<noteq> 0 \<longleftrightarrow> th_view (st_heap w) e \<noteq> None"
    using assms by (auto simp: stun_inv_def st_view_def)
  have "st_heap (st_stop e w) = (if st_id e w \<noteq> 0
      then set_te_id (fst (pj_timer_heap_cancel (st_heap w) e)) e 0 else st_heap w)"
    by (simp add: st_stop_def st_set_id_def)
  note s = ts.stop_flagged [OF h this]
  show "th_inv (st_heap (st_stop e w))" by (rule s)
  show "st_view (st_stop e w) = (st_view w)(e := None)" using s(2) by (simp add: st_view_def)
  show "st_id x (st_stop e w) = (if x = e then 0 else st_id x w)" using s(3) by (simp add: fun_eq_iff)
qed

lemma st_stop_keeps:
  assumes "stun_inv w" "e \<in> st_timers w"
  shows "stun_keeps w (st_stop e w)"
  using assms st_stop_timer [OF assms]
  by (auto simp: stun_keeps_def stun_inv_def st_timers_def)

text \<open>Arming an idle timer.\<close>

lemma st_schedule:
  assumes "th_inv (st_heap w)" "st_view w e = None"
    and g: "pj_timer_heap_schedule (st_heap w) (st_ticks w) e d = (h, status)"
  shows "status = PJ_SUCCESS" "th_inv (set_te_id h e i)"
    "th_view (set_te_id h e i) = (st_view w)(e \<mapsto> PJ_TIME_VAL_ADD (st_ticks w) d)"
    "te_id (nodes (set_te_id h e i) x) = (if x = e then i else st_id x w)"
proof -
  have v: "th_view (st_heap w) e = None" using assms(2) by (simp add: st_view_def)
  have h: "h = fst (pj_timer_heap_schedule (st_heap w) (st_ticks w) e d)" using g by simp
  note s = ts.start_flagged [OF assms(1) v, of "st_ticks w" d i, folded h]
  show "status = PJ_SUCCESS"
    using schedule_view(1) [OF assms(1), of e "st_ticks w" d] v g by (auto simp: th_view_def split: if_splits)
  show "th_inv (set_te_id h e i)" by (rule s)
  show "th_view (set_te_id h e i) = (st_view w)(e \<mapsto> PJ_TIME_VAL_ADD (st_ticks w) d)"
    using s(2) by (simp add: st_view_def)
  show "te_id (nodes (set_te_id h e i) x) = (if x = e then i else st_id x w)"
    using s(3) by (simp add: fun_eq_iff)
qed

lemma st_start_ok:
  assumes "stun_inv w" "st_id (rt_timer (stx w)) w = 0"
  defines "r \<equiv> st_start_retransmit w"
  shows "snd r = PJ_SUCCESS" "stun_keeps w (fst r)" "stx (fst r) = stx w" "st_trace (fst r) = st_trace w"
    "st_ticks (fst r) = st_ticks w"
    "st_view (fst r) = (st_view w)(rt_timer (stx w) \<mapsto> PJ_TIME_VAL_ADD (st_ticks w) (retransmit_time (stx w)))"
    "st_id x (fst r) = (if x = rt_timer (stx w) then TIMER_ACTIVE else st_id x w)"
proof -
  let ?e = "rt_timer (stx w)"
  obtain h status where g: "pj_timer_heap_schedule (st_heap w) (st_ticks w) ?e (retransmit_time (stx w)) =
    (h, status)" by fastforce
  have "th_inv (st_heap w)" "st_view w ?e = None"
    using assms by (auto simp: stun_inv_def st_timers_def)
  note s = st_schedule [OF this g]
  have r: "r = (st_set_id ?e TIMER_ACTIVE (w\<lparr>st_heap := h\<rparr>), PJ_SUCCESS)"
    using g s(1) by (simp add: r_def st_start_retransmit_def)
  show "snd r = PJ_SUCCESS" "stx (fst r) = stx w" "st_trace (fst r) = st_trace w"
    "st_ticks (fst r) = st_ticks w" by (simp_all add: r)
  show "st_view (fst r) = (st_view w)(?e \<mapsto> PJ_TIME_VAL_ADD (st_ticks w) (retransmit_time (stx w)))"
    by (simp add: r st_view_def [of "st_set_id _ _ _"] s)
  show "st_id x (fst r) = (if x = ?e then TIMER_ACTIVE else st_id x w)" by (simp add: r s)
  show "stun_keeps w (fst r)"
    using assms(1) by (auto simp: r stun_keeps_def stun_inv_def st_timers_def st_view_def s TIMER_ACTIVE_def)
qed

lemma stx_update_keeps:
  assumes "stun_inv w" "rt_timer t = rt_timer (stx w)" "destroy_timer t = destroy_timer (stx w)"
    "stx_complete (stx w) \<longrightarrow> stx_complete t"
  shows "stun_keeps w (w\<lparr>stx := t\<rparr>)"
  using assms by (auto simp: stun_keeps_def stun_inv_def st_timers_def st_view_def split: if_splits)

lemma emit_keeps:
  assumes "stun_inv w" "completions [a] = 0"
  shows "stun_keeps w (st_emit a w)"
  using assms by (auto simp: stun_keeps_def stun_inv_def st_timers_def st_view_def)

section \<open>The operations\<close>

lemma stop_rt_keeps:
  assumes "stun_keeps w w'"
  shows "stun_keeps w (st_stop (rt_timer (stx w')) w')" "stun_keeps w (st_stop (destroy_timer (stx w')) w')"
  using stun_keepsD(1) [OF assms] st_stop_keeps
  by (auto intro: stun_keeps_trans [OF assms] simp: st_timers_def)

lemma destroy_keeps:
  assumes "stun_inv w"
  shows "stun_keeps w (fst (pj_stun_client_tsx_destroy w))"
proof -
  have "stun_keeps w (st_stop (rt_timer (stx w)) w)"
    using stop_rt_keeps(1) [OF stun_keeps_refl [OF assms]] .
  from stop_rt_keeps(2) [OF this] show ?thesis
    by (simp add: pj_stun_client_tsx_destroy_def Let_def)
qed

lemma schedule_destroy_keeps:
  assumes inv: "stun_inv w"
  shows "stun_keeps w (fst (pj_stun_client_tsx_schedule_destroy delay w))"
    "snd (pj_stun_client_tsx_schedule_destroy delay w) = PJ_SUCCESS"
    "st_view (fst (pj_stun_client_tsx_schedule_destroy delay w)) =
       (st_view w)(rt_timer (stx w) := None, destroy_timer (stx w) \<mapsto> PJ_TIME_VAL_ADD (st_ticks w) delay)"
proof -
  let ?rt = "rt_timer (stx w)" and ?dt = "destroy_timer (stx w)"
  define u where "u = st_stop ?rt (st_stop ?dt w)"
  have "stun_keeps w (st_stop ?dt w)" using stop_rt_keeps(2) [OF stun_keeps_refl [OF inv]] .
  from stop_rt_keeps(1) [OF this] have u: "stun_keeps w u" by (simp add: u_def)
  have stx: "stx u = stx w" "st_ticks u = st_ticks w" "st_trace u = st_trace w" by (simp_all add: u_def)
  have rd: "?rt \<noteq> ?dt" using inv by (simp add: stun_inv_def)
  have "?rt \<in> st_timers w" "?dt \<in> st_timers w" by (simp_all add: st_timers_def)
  note d = st_stop_timer [OF inv this(2)]
  have "stun_inv (st_stop ?dt w)" using \<open>stun_keeps w (st_stop ?dt w)\<close> by (rule stun_keepsD)
  moreover have "?rt \<in> st_timers (st_stop ?dt w)" by (simp add: st_timers_def)
  ultimately have view: "st_view u = (st_view w)(?dt := None, ?rt := None)"
    using st_stop_timer(2) d(2) by (simp add: u_def)
  obtain h status where g: "pj_timer_heap_schedule (st_heap u) (st_ticks u) ?dt delay = (h, status)"
    by fastforce
  have inv_u: "th_inv (st_heap u)" using u by (simp add: stun_keeps_def stun_inv_def)
  have "st_view u ?dt = None" by (simp add: view)
  note s = st_schedule [OF inv_u this g]
  have r: "pj_stun_client_tsx_schedule_destroy delay w =
    ((st_set_id ?dt TIMER_ACTIVE (u\<lparr>st_heap := h\<rparr>))\<lparr>stx := (stx w)\<lparr>cb_complete := False\<rparr>\<rparr>, PJ_SUCCESS)"
    using g s(1) stx by (simp add: pj_stun_client_tsx_schedule_destroy_def Let_def u_def)
  show "snd (pj_stun_client_tsx_schedule_destroy delay w) = PJ_SUCCESS" by (simp add: r)
  show v: "st_view (fst (pj_stun_client_tsx_schedule_destroy delay w)) =
       (st_view w)(?rt := None, ?dt \<mapsto> PJ_TIME_VAL_ADD (st_ticks w) delay)"
    using rd by (auto simp: r st_view_def [of "_\<lparr>stx := _\<rparr>"] s view stx fun_eq_iff)
  have "stun_inv u" using u by (rule stun_keepsD)
  then show "stun_keeps w (fst (pj_stun_client_tsx_schedule_destroy delay w))"
    using rd stx by (auto simp: r stun_keeps_def stun_inv_def st_timers_def st_view_def s view TIMER_ACTIVE_def)
qed

text \<open>The contract of the user: a callback may do anything that keeps the invariant.\<close>

locale stun_user =
  fixes E :: stun_env
  assumes complete_behaves: "stun_inv w \<Longrightarrow> stun_keeps w (on_complete E status m w)"
    and send_behaves: "stun_inv w \<Longrightarrow> stun_keeps w (fst (on_send_msg E pkt w))"
    and destroy_behaves: "stun_inv w \<Longrightarrow> stun_keeps w (on_destroy E w)"
begin

lemma finish_keeps:
  assumes "stun_inv w"
  shows "stun_keeps w (tsx_finish E status m w)"
proof -
  let ?v = "w\<lparr>stx := (stx w)\<lparr>stx_complete := True\<rparr>\<rparr>"
  have v: "stun_keeps w ?v" using assms by (intro stx_update_keeps) simp_all
  have "stun_keeps w (st_emit (St_completed status m) ?v)" if "\<not> stx_complete (stx w)"
    using assms that by (auto simp: stun_keeps_def stun_inv_def st_timers_def st_view_def)
  then have "stun_keeps w (on_complete E status m (st_emit (St_completed status m) ?v))"
    if "\<not> stx_complete (stx w)"
    using that complete_behaves stun_keeps_trans stun_keepsD(1) by blast
  then show ?thesis using v assms by (auto simp: tsx_finish_def Let_def stun_keeps_refl)
qed

lemma transmit_keeps:
  assumes inv: "stun_inv w" and idle: "require_retransmit (stx w) \<longrightarrow> st_id (rt_timer (stx w)) w = 0"
  shows "stun_keeps w (fst (tsx_transmit_msg E w))"
    "snd (tsx_transmit_msg E w) \<notin> {PJ_SUCCESS, PJNATH_ESTUNDESTROYED} \<Longrightarrow>
       st_id (rt_timer (stx w)) (fst (tsx_transmit_msg E w)) = 0"
proof -
  let ?t = "w\<lparr>stx := (stx w)\<lparr>retransmit_time := next_retransmit_time (stx w)\<rparr>\<rparr>"
  define u where "u = (if require_retransmit (stx w) then fst (st_start_retransmit ?t) else w)"
  define v where "v = u\<lparr>stx := (stx u)\<lparr>transmit_count := transmit_count (stx u) + 1\<rparr>\<rparr>"
  define s where "s = on_send_msg E (last_pkt (stx v)) (st_emit (St_sent (last_pkt (stx v))) v)"
  have t: "stun_keeps w ?t" using inv by (intro stx_update_keeps) simp_all
  have start: "snd (st_start_retransmit ?t) = PJ_SUCCESS" "stun_keeps ?t (fst (st_start_retransmit ?t))"
    if "require_retransmit (stx w)"
    using idle that st_start_ok [OF stun_keepsD(1) [OF t]] by simp_all
  have "stun_keeps w u"
    using start t inv stun_keeps_trans stun_keeps_refl by (auto simp: u_def)
  also have "stun_keeps u v"
    unfolding v_def using \<open>stun_keeps w u\<close> by (intro stx_update_keeps) (simp_all add: stun_keepsD)
  also (stun_keeps_trans) have "stun_keeps v (st_emit (St_sent (last_pkt (stx v))) v)"
    using stun_keepsD(1) [OF \<open>stun_keeps u v\<close>] by (rule emit_keeps) simp
  also (stun_keeps_trans) have "stun_keeps (st_emit (St_sent (last_pkt (stx v))) v) (fst s)"
    using calculation by (simp add: s_def send_behaves stun_keepsD(1))
  finally (stun_keeps_trans) have s: "stun_keeps w (fst s)" .
  have "stun_keeps (fst s) (st_stop (rt_timer (stx (fst s))) (fst s))"
    using stun_keepsD(1) [OF s] by (intro st_stop_keeps) (simp_all add: st_timers_def)
  then have "stun_keeps w (st_stop (rt_timer (stx (fst s))) (fst s))" by (rule stun_keeps_trans [OF s])
  moreover have "tsx_transmit_msg E w =
      (if snd s \<noteq> PJNATH_ESTUNDESTROYED \<and> snd s \<noteq> PJ_SUCCESS
       then (st_stop (rt_timer (stx (fst s))) (fst s), snd s) else s)"
    using start(1)
    by (cases "st_start_retransmit ?t")
      (auto simp: tsx_transmit_msg_def Let_def u_def v_def s_def split: prod.splits)
  moreover have "st_id (rt_timer (stx w)) (st_stop (rt_timer (stx (fst s))) (fst s)) = 0"
    using st_stop_timer(3) [OF stun_keepsD(1) [OF s], of "rt_timer (stx (fst s))"] stun_keepsD(2) [OF s]
    by (simp add: st_timers_def)
  ultimately show "stun_keeps w (fst (tsx_transmit_msg E w))"
    "snd (tsx_transmit_msg E w) \<notin> {PJ_SUCCESS, PJNATH_ESTUNDESTROYED} \<Longrightarrow>
       st_id (rt_timer (stx w)) (fst (tsx_transmit_msg E w)) = 0"
    using s by (simp_all split: if_splits)
qed

lemma send_msg_keeps:
  assumes inv: "stun_inv w" and idle: "st_id (rt_timer (stx w)) w = 0"
  shows "stun_keeps w (fst (pj_stun_client_tsx_send_msg E retransmit pkt w))"
proof -
  let ?w1 = "w\<lparr>stx := (stx w)\<lparr>last_pkt := pkt, require_retransmit := retransmit\<rparr>\<rparr>"
  let ?timeout = "rto_msec (stx w) * 16"
  let ?t = "?w1\<lparr>stx := (stx ?w1)\<lparr>transmit_count := PJ_STUN_MAX_TRANSMIT_COUNT,
      retransmit_time := Time_val (uint (?timeout div 1000)) (uint (?timeout mod 1000))\<rparr>\<rparr>"
  define u where "u = (if retransmit then ?w1 else fst (st_start_retransmit ?t))"
  have w1: "stun_keeps w ?w1" and t: "stun_keeps w ?t" using inv by (auto intro!: stx_update_keeps)
  have idle': "st_id (rt_timer (stx ?t)) ?t = 0" using idle by simp
  note start = st_start_ok [OF stun_keepsD(1) [OF t] idle']
  have u: "stun_keeps w u" using w1 stun_keeps_trans [OF t start(2)] by (auto simp: u_def)
  have "require_retransmit (stx u) \<longrightarrow> st_id (rt_timer (stx u)) u = 0"
    using idle start(3) by (auto simp: u_def)
  then have r: "stun_keeps w (fst (tsx_transmit_msg E u))"
    using stun_keeps_trans [OF u transmit_keeps(1)] u stun_keepsD(1) by blast
  have "pj_stun_client_tsx_send_msg E retransmit pkt w = (case tsx_transmit_msg E u of (w, status) \<Rightarrow>
      if status \<noteq> PJ_SUCCESS then (st_stop (rt_timer (stx w)) w, status) else (w, PJ_SUCCESS))"
    using start(1)
    by (cases "st_start_retransmit ?t")
      (auto simp: pj_stun_client_tsx_send_msg_def Let_def u_def)
  then show ?thesis using r stop_rt_keeps(1) [OF r] by (auto split: prod.splits)
qed

lemma retransmit_keeps:
  assumes inv: "stun_inv w"
  shows "stun_keeps w (fst (pj_stun_client_tsx_retransmit E w))"
proof -
  have e: "rt_timer (stx w) \<in> st_timers w" by (simp add: st_timers_def)
  note s = st_stop_keeps [OF inv e] st_stop_timer [OF inv e]
  have "stun_keeps w (fst (tsx_transmit_msg E (st_stop (rt_timer (stx w)) w)))"
    using stun_keeps_trans [OF s(1) transmit_keeps(1)] stun_keepsD(1) [OF s(1)] s(4) by simp
  then show ?thesis using inv by (simp add: pj_stun_client_tsx_retransmit_def stun_keeps_refl)
qed

lemma on_rx_msg_keeps:
  assumes "stun_inv w"
  shows "stun_keeps w (fst (pj_stun_client_tsx_on_rx_msg E m w))"
proof -
  have s: "stun_keeps w (st_stop (rt_timer (stx w)) w)"
    using stop_rt_keeps(1) [OF stun_keeps_refl [OF assms]] .
  then have "stun_keeps w (tsx_finish E status r (st_stop (rt_timer (stx w)) w))" for status r
    using stun_keeps_trans [OF s finish_keeps] stun_keepsD(1) by blast
  then show ?thesis
    using s assms
    by (simp add: pj_stun_client_tsx_on_rx_msg_def Let_def stun_keeps_refl split: option.split)
qed

lemma retransmit_callback_keeps:
  assumes "stun_inv (st_set_id (rt_timer (stx w)) 0 w)"
  shows "stun_keeps (st_set_id (rt_timer (stx w)) 0 w) (retransmit_timer_callback E w)"
proof -
  let ?v = "st_set_id (rt_timer (stx w)) 0 w"
  define r where "r = tsx_transmit_msg E ?v"
  have t: "stun_keeps ?v (fst r)" "snd r \<notin> {PJ_SUCCESS, PJNATH_ESTUNDESTROYED} \<Longrightarrow>
      st_id (rt_timer (stx w)) (fst r) = 0"
    using transmit_keeps [OF assms] by (simp_all add: r_def set_te_id_def)
  have rt: "rt_timer (stx (fst r)) = rt_timer (stx w)" using stun_keepsD(2) [OF t(1)] by simp
  have "st_set_id (rt_timer (stx w)) 0 (fst r) = fst r"
    if "snd r \<notin> {PJ_SUCCESS, PJNATH_ESTUNDESTROYED}"
    using t(2) [OF that] by (simp add: st_set_id_def set_te_id_idem)
  moreover have "stun_keeps ?v (tsx_finish E (snd r) None (fst r))"
    by (rule stun_keeps_trans [OF t(1) finish_keeps [OF stun_keepsD(1) [OF t(1)]]])
  ultimately have "stun_keeps ?v (tsx_finish E (snd r) None (st_set_id (rt_timer (stx (fst r))) 0 (fst r)))"
    if "snd r \<notin> {PJ_SUCCESS, PJNATH_ESTUNDESTROYED}"
    using that by (simp add: rt)
  then show ?thesis
    using t(1) finish_keeps [OF assms]
    by (cases r) (auto simp: retransmit_timer_callback_def r_def [symmetric])
qed

lemma destroy_callback_keeps:
  assumes "stun_inv (st_set_id (destroy_timer (stx w)) 0 w)"
  shows "stun_keeps (st_set_id (destroy_timer (stx w)) 0 w) (destroy_timer_callback E w)"
proof -
  have e: "stun_keeps (st_set_id (destroy_timer (stx w)) 0 w)
      (st_emit St_destroyed (st_set_id (destroy_timer (stx w)) 0 w))"
    using assms by (rule emit_keeps) simp
  from stun_keeps_trans [OF e destroy_behaves [OF stun_keepsD(1) [OF e]]] show ?thesis
    by (simp add: destroy_timer_callback_def)
qed

end

section \<open>Expiry\<close>

lemma st_fired:
  assumes inv: "stun_inv w" and ne: "cur_size (st_heap w) \<noteq> 0"
  defines "e \<equiv> heap (st_heap w) ! 0"
  defines "v \<equiv> w\<lparr>st_heap := fst (remove_node (st_heap w) 0)\<rparr>"
  assumes e: "e \<in> st_timers w"
  shows "stun_keeps w (st_set_id e 0 v)" "st_view (st_set_id e 0 v) = (st_view w)(e := None)"
    "st_fire E w = (if e = rt_timer (stx w) then retransmit_timer_callback E v else destroy_timer_callback E v)"
proof -
  have h: "th_inv (st_heap w)" using inv by (simp add: stun_inv_def)
  note r = remove_root [OF h ne]
  have c: "th_inv (set_te_id h' x 0) = th_inv h'" "th_view (set_te_id h' x 0) = th_view h'" for h' x
    by (simp_all add: set_te_id_def th_inv_cong)
  show view: "st_view (st_set_id e 0 v) = (st_view w)(e := None)"
    by (simp add: st_view_def c v_def r(5) e_def)
  have id: "st_id x (st_set_id e 0 v) = (if x = e then 0 else st_id x w)" for x
    using remove_node_inv(5) [OF h, of 0] ne by (simp add: v_def set_te_id_def e_def)
  have "th_inv (st_heap (st_set_id e 0 v))" using r(2) by (simp add: c v_def)
  then show "stun_keeps w (st_set_id e 0 v)"
    using inv by (auto simp: stun_keeps_def stun_inv_def st_timers_def view id [simplified]) (auto simp: v_def)
  show "st_fire E w = (if e = rt_timer (stx w) then retransmit_timer_callback E v else destroy_timer_callback E v)"
    using e r(1) by (auto simp: st_fire_def Let_def v_def e_def st_timers_def split: prod.splits)
qed

context stun_user
begin

lemma fire_keeps:
  assumes "stun_inv w" "cur_size (st_heap w) \<noteq> 0" "heap (st_heap w) ! 0 \<in> st_timers w"
  shows "stun_keeps w (st_fire E w)"
proof -
  let ?v = "w\<lparr>st_heap := fst (remove_node (st_heap w) 0)\<rparr>"
  note f = st_fired [OF assms]
  have "stun_keeps (st_set_id (rt_timer (stx w)) 0 ?v) (retransmit_timer_callback E ?v)"
    if "heap (st_heap w) ! 0 = rt_timer (stx w)"
    using retransmit_callback_keeps [of ?v] stun_keepsD(1) [OF f(1)] that by simp
  moreover have "stun_keeps (st_set_id (destroy_timer (stx w)) 0 ?v) (destroy_timer_callback E ?v)"
    if "heap (st_heap w) ! 0 = destroy_timer (stx w)"
    using destroy_callback_keeps [of ?v] stun_keepsD(1) [OF f(1)] that by simp
  ultimately show ?thesis
    using f(1) assms(3) by (auto simp: f(3) st_timers_def intro: stun_keeps_trans)
qed

end

end
