(* ===== verification/Stun_Tsx_Props.thy ===== *)
theory Stun_Tsx_Props
  imports Stun_Tsx_Inv
begin

text \<open>
  What a STUN transaction promises: runs of events are safe, an unanswered request is sent seven times
  on a fixed schedule and then reported, and a response ends the retransmissions.
\<close>

section \<open>The session as the user\<close>

text \<open>
  The callbacks of \<^verbatim>\<open>stun_session.c\<close>, for a response without a challenge and an application that does
  not call back: the end of a transaction schedules its destruction two seconds later
  (\<^verbatim>\<open>destroy_tdata\<close>), and the destruction stops the timers.
\<close>

definition stun_tsx_on_complete :: "pj_status \<Rightarrow> pj_stun_msg option \<Rightarrow> stun_world \<Rightarrow> stun_world" where
  "stun_tsx_on_complete status m w = fst (pj_stun_client_tsx_schedule_destroy (Time_val 2 0) w)"

definition stun_tsx_on_destroy :: "stun_world \<Rightarrow> stun_world" where
  "stun_tsx_on_destroy w = fst (pj_stun_client_tsx_destroy w)"

text \<open>\<open>snd_fn\<close> is the status with which the application's socket takes a packet.\<close>

definition sess_env :: "(8 word list \<Rightarrow> stun_world \<Rightarrow> pj_status) \<Rightarrow> stun_env" where
  "sess_env snd_fn =
     \<lparr>on_complete = stun_tsx_on_complete, on_send_msg = (\<lambda>pkt w. (w, snd_fn pkt w)),
      on_destroy = stun_tsx_on_destroy\<rparr>"

interpretation sess: stun_user "sess_env snd_fn" for snd_fn
  by unfold_locales
    (simp_all add: sess_env_def stun_tsx_on_complete_def stun_tsx_on_destroy_def
      schedule_destroy_keeps destroy_keeps stun_keeps_refl)

section \<open>Runs\<close>

text \<open>\<open>Others\<close> is what other users of the timer heap do to it.\<close>

inductive stun_step :: "stun_env \<Rightarrow> stun_world \<Rightarrow> stun_world \<Rightarrow> bool" for E where
  Send: "st_id (rt_timer (stx w)) w = 0 \<Longrightarrow>
    stun_step E w (fst (pj_stun_client_tsx_send_msg E retransmit pkt w))"
| Resend: "stun_step E w (fst (pj_stun_client_tsx_retransmit E w))"
| Recv: "stun_step E w (fst (pj_stun_client_tsx_on_rx_msg E m w))"
| Retire: "stun_step E w (fst (pj_stun_client_tsx_schedule_destroy delay w))"
| Destroy: "stun_step E w (fst (pj_stun_client_tsx_destroy w))"
| Set_data: "stun_step E w (fst (pj_stun_client_tsx_set_data data w))"
| Fire: "cur_size (st_heap w) \<noteq> 0 \<Longrightarrow> heap (st_heap w) ! 0 \<in> st_timers w \<Longrightarrow> stun_step E w (st_fire E w)"
| Clock: "stun_step E w (w\<lparr>st_ticks := t\<rparr>)"
| Others: "th_inv h \<Longrightarrow> \<forall>e\<in>st_timers w. th_view h e = st_view w e \<and> te_id (nodes h e) = st_id e w \<Longrightarrow>
    stun_step E w (w\<lparr>st_heap := h\<rparr>)"

inductive_cases stun_stepE: "stun_step E w w'"


lemma clock_keeps: "stun_inv w \<Longrightarrow> stun_keeps w (w\<lparr>st_ticks := t\<rparr>)"
  by (simp add: stun_keeps_def stun_inv_def st_timers_def st_view_def)

lemma others_keep:
  assumes "stun_inv w" "th_inv h"
    "\<forall>e\<in>st_timers w. th_view h e = st_view w e \<and> te_id (nodes h e) = st_id e w"
  shows "stun_keeps w (w\<lparr>st_heap := h\<rparr>)"
proof -
  have "st_timers (w\<lparr>st_heap := h\<rparr>) = st_timers w" by (simp add: st_timers_def)
  then show ?thesis using assms by (simp add: stun_keeps_def stun_inv_def st_view_def del: th_view_simps)
qed

context stun_user
begin

lemma stun_step_keeps:
  assumes "stun_step E w w'" "stun_inv w"
  shows "stun_keeps w w'"
  using assms(1)
proof cases
  case Send
  then show ?thesis using send_msg_keeps assms(2) by simp
next
  case Fire
  then show ?thesis using fire_keeps assms(2) by simp
next
  case Set_data
  then show ?thesis using stx_update_keeps [OF assms(2)] by (simp add: pj_stun_client_tsx_set_data_def)
next
  case Others
  then show ?thesis using others_keep [OF assms(2)] by simp
qed (simp_all add: assms(2) retransmit_keeps on_rx_msg_keeps schedule_destroy_keeps destroy_keeps clock_keeps)

lemma stun_steps_keep:
  assumes "(stun_step E)\<^sup>*\<^sup>* w w'" "stun_inv w"
  shows "stun_keeps w w'"
  using assms by (induction) (auto intro: stun_keeps_refl stun_keeps_trans stun_step_keeps dest: stun_keepsD(1))

end

lemma stun_create_inv:
  assumes "th_inv h" "\<not> pending h rt" "\<not> pending h dt" "rt \<noteq> dt"
  shows "stun_inv (pj_stun_client_tsx_create rto h t rt dt c d)"
    "st_view (pj_stun_client_tsx_create rto h t rt dt c d) = th_view h"
  using assms th_inv_idle2 [OF assms(1-3), of "stun_entry retransmit_timer_cb" "stun_entry destroy_timer_cb"]
  by (auto simp: stun_inv_def st_view_def st_timers_def pj_stun_client_tsx_create_def stun_entry_def pending_def)

text \<open>C29: whatever sequence of sends, retransmission requests, responses, expiries and destructions a
  STUN transaction goes through, with any user that keeps to the interface, the timer heap stays well
  formed, a timer's flag is set exactly while the timer is armed, and the end is reported at most once.\<close>

theorem stun_run_safe:
  assumes "stun_user E" "th_inv h" "\<not> pending h rt" "\<not> pending h dt" "rt \<noteq> dt"
    "(stun_step E)\<^sup>*\<^sup>* (pj_stun_client_tsx_create rto h t rt dt c d) w"
  shows "th_inv (st_heap w) \<and> (\<forall>e\<in>{rt, dt}. st_id e w = 0 \<longleftrightarrow> th_view (st_heap w) e = None) \<and>
    completions (st_trace w) \<le> 1"
proof -
  note c = stun_create_inv [OF assms(2-5)]
  have k: "stun_keeps (pj_stun_client_tsx_create rto h t rt dt c d) w"
    by (rule stun_user.stun_steps_keep [OF assms(1,6) c(1)])
  have t: "st_timers w = {rt, dt}"
    using k by (simp add: stun_keeps_def st_timers_def pj_stun_client_tsx_create_def)
  have i: "stun_inv w" using k by (rule stun_keepsD)
  then have "completions (st_trace w) \<le> 1" by (auto simp: stun_inv_def split: if_splits)
  moreover have "\<forall>e\<in>{rt, dt}. st_id e w = 0 \<longleftrightarrow> th_view (st_heap w) e = None"
    using i unfolding stun_inv_def t st_view_def by metis
  ultimately show ?thesis using i by (simp add: stun_inv_def)
qed

section \<open>The retransmission schedule\<close>

text \<open>The world at the time the earliest timer expires, after its callback has run.\<close>

definition next_event :: "stun_env \<Rightarrow> stun_world \<Rightarrow> stun_world" where
  "next_event E w =
     (if cur_size (st_heap w) = 0 then w else st_fire E (w\<lparr>st_ticks := slot_value (st_heap w) 0\<rparr>))"

definition sends_quietly :: "stun_env \<Rightarrow> bool" where
  "sends_quietly E \<longleftrightarrow> (\<forall>pkt w. on_send_msg E pkt w = (w, PJ_SUCCESS))"

text \<open>The interval that follows the transmission after \<open>k\<close> others.\<close>

definition stun_interval :: "int \<Rightarrow> nat \<Rightarrow> int" where
  "stun_interval rto k = (if k < 6 then rto * 2 ^ k else PJ_STUN_TIMEOUT_VALUE)"

lemma next_time_value:
  assumes r: "uint (rto_msec t) \<le> 2 ^ 26" and k: "transmit_count t = of_nat k" "k \<le> 6"
    and p: "0 < k \<Longrightarrow> PJ_TIME_VAL_MSEC (retransmit_time t) = stun_interval (uint (rto_msec t)) (k - 1)"
  shows "PJ_TIME_VAL_MSEC (next_retransmit_time t) = stun_interval (uint (rto_msec t)) k"
proof -
  consider "k = 0" | "0 < k" "k < 6" | "k = 6" using k(2) by linarith
  then show ?thesis
  proof cases
    case 1
    then show ?thesis using k by (simp add: next_retransmit_time_def stun_interval_def PJ_TIME_VAL_MSEC_def)
  next
    case 2
    let ?m = "PJ_TIME_VAL_MSEC (retransmit_time t)"
    have m: "?m = uint (rto_msec t) * 2 ^ (k - 1)"
      using p 2 less_imp_diff_less [of k 6 1] by (simp add: stun_interval_def)
    have "(2::int) ^ (k - 1) \<le> 2 ^ 4" using 2 by (intro power_increasing) auto
    then have b: "0 \<le> ?m" "?m \<le> 2 ^ 26 * 2 ^ 4"
      using mult_mono [OF r, of "2 ^ (k - 1)" "2 ^ 4"] unfolding m by simp_all
    have c: "transmit_count t \<noteq> 0" "transmit_count t < PJ_STUN_MAX_TRANSMIT_COUNT - 1"
    proof -
      have "k \<in> {1, 2, 3, 4, 5}" using 2 by auto
      then show "transmit_count t \<noteq> 0" "transmit_count t < PJ_STUN_MAX_TRANSMIT_COUNT - 1"
        using k by (auto simp: PJ_STUN_MAX_TRANSMIT_COUNT_def)
    qed
    have "uint (push_bit 1 (word_of_int ?m :: 32 word)) = 2 * ?m"
      using b by (simp add: uint_word_of_int take_bit_eq_mod push_bit_eq_mult uint_word_ariths)
    then have "PJ_TIME_VAL_MSEC (next_retransmit_time t) = 2 * ?m"
      using c by (simp add: next_retransmit_time_def Let_def PJ_TIME_VAL_MSEC_def uint_div_distrib uint_mod_distrib)
    moreover have "(2::int) * 2 ^ (k - 1) = 2 ^ k" using 2 by (simp add: power_eq_if)
    ultimately show ?thesis using 2 m by (simp add: stun_interval_def)
  next
    case 3
    then show ?thesis
      using k by (simp add: next_retransmit_time_def stun_interval_def PJ_TIME_VAL_MSEC_def
        PJ_STUN_MAX_TRANSMIT_COUNT_def PJ_STUN_TIMEOUT_VALUE_def PJ_STUN_RTO_VALUE_def)
  qed
qed

lemma transmit_quiet:
  assumes q: "sends_quietly E" and inv: "stun_inv w" and idle: "st_id (rt_timer (stx w)) w = 0"
    and req: "require_retransmit (stx w)"
  defines "r \<equiv> tsx_transmit_msg E w"
  shows "snd r = PJ_SUCCESS" "stun_inv (fst r)" "st_ticks (fst r) = st_ticks w"
    "stx (fst r) = (stx w)\<lparr>retransmit_time := next_retransmit_time (stx w),
        transmit_count := transmit_count (stx w) + 1\<rparr>"
    "st_trace (fst r) = st_trace w @ [St_sent (last_pkt (stx w))]"
    "st_view (fst r) = (st_view w)(rt_timer (stx w) \<mapsto>
        PJ_TIME_VAL_ADD (st_ticks w) (next_retransmit_time (stx w)))"
proof -
  let ?t = "w\<lparr>stx := (stx w)\<lparr>retransmit_time := next_retransmit_time (stx w)\<rparr>\<rparr>"
  have "stun_keeps w ?t" using inv by (intro stx_update_keeps) simp_all
  moreover have "st_id (rt_timer (stx ?t)) ?t = 0" using idle by simp
  ultimately have st: "snd (st_start_retransmit ?t) = PJ_SUCCESS" "stx (fst (st_start_retransmit ?t)) = stx ?t"
    "st_trace (fst (st_start_retransmit ?t)) = st_trace ?t" "st_ticks (fst (st_start_retransmit ?t)) = st_ticks ?t"
    "st_view (fst (st_start_retransmit ?t)) = (st_view ?t)(rt_timer (stx ?t) \<mapsto>
       PJ_TIME_VAL_ADD (st_ticks ?t) (retransmit_time (stx ?t)))" "stun_inv (fst (st_start_retransmit ?t))"
    using st_start_ok [OF stun_keepsD(1)] stun_keepsD(1) by blast+
  define u where "u = fst (st_start_retransmit ?t)"
  have r: "r = (st_emit (St_sent (last_pkt (stx w))) (u\<lparr>stx := (stx u)\<lparr>transmit_count := transmit_count (stx u) + 1\<rparr>\<rparr>), PJ_SUCCESS)"
    using q req st(1,2) unfolding r_def tsx_transmit_msg_def sends_quietly_def u_def
    by (cases "st_start_retransmit ?t") (simp add: Let_def)
  show "snd r = PJ_SUCCESS" "st_ticks (fst r) = st_ticks w"
    "stx (fst r) = (stx w)\<lparr>retransmit_time := next_retransmit_time (stx w),
        transmit_count := transmit_count (stx w) + 1\<rparr>"
    "st_trace (fst r) = st_trace w @ [St_sent (last_pkt (stx w))]"
    using st by (simp_all add: r u_def)
  show "st_view (fst r) = (st_view w)(rt_timer (stx w) \<mapsto>
        PJ_TIME_VAL_ADD (st_ticks w) (next_retransmit_time (stx w)))"
    using st(5) by (simp add: r u_def st_view_def)
  show "stun_inv (fst r)"
    using st(6) by (auto simp: r u_def stun_inv_def st_timers_def st_view_def split: if_splits)
qed

text \<open>The state between the transmission after \<open>k\<close> others and the next expiry.\<close>

definition waiting :: "8 word list \<Rightarrow> int \<Rightarrow> int \<Rightarrow> stun_action list \<Rightarrow> nat \<Rightarrow> stun_world \<Rightarrow> bool" where
  "waiting pkt rto start tr k w \<longleftrightarrow>
     stun_inv w \<and> require_retransmit (stx w) \<and> cb_complete (stx w) \<and> \<not> stx_complete (stx w) \<and> last_pkt (stx w) = pkt \<and> uint (rto_msec (stx w)) = rto \<and>
     transmit_count (stx w) = of_nat (k + 1) \<and>
     PJ_TIME_VAL_MSEC (retransmit_time (stx w)) = stun_interval rto k \<and>
     st_view w = [rt_timer (stx w) \<mapsto> PJ_TIME_VAL_ADD (st_ticks w) (retransmit_time (stx w))] \<and>
     PJ_TIME_VAL_MSEC (st_ticks w) = start + (\<Sum>i<k. stun_interval rto i) \<and>
     st_trace w = tr @ replicate (k + 1) (St_sent pkt)"

lemma waitingD:
  assumes "waiting pkt rto start tr k w"
  shows "st_trace w = tr @ replicate (k + 1) (St_sent pkt)"
    "PJ_TIME_VAL_MSEC (st_ticks w) = start + (\<Sum>i<k. stun_interval rto i)"
  using assms by (simp_all add: waiting_def)

lemma ADD_msec: "PJ_TIME_VAL_MSEC (PJ_TIME_VAL_ADD s t) = PJ_TIME_VAL_MSEC s + PJ_TIME_VAL_MSEC t"
  unfolding PJ_TIME_VAL_ADD_def normalize_value by (simp add: PJ_TIME_VAL_MSEC_def)

text \<open>With one armed timer, that timer is at the root.\<close>

lemma single_root:
  assumes "th_inv h" "th_view h = [e \<mapsto> t]"
  shows "cur_size h \<noteq> 0" "heap h ! 0 = e" "slot_value h 0 = t"
proof -
  have v: "th_view h e = Some t" using assms(2) by simp
  show ne: "cur_size h \<noteq> 0" by (rule root_least(1) [OF assms(1) v])
  have "th_view h (heap h ! 0) = Some (slot_value h 0)" by (rule root_pending(2) [OF assms(1) ne])
  then show "heap h ! 0 = e" "slot_value h 0 = t" by (auto simp: assms(2) split: if_splits)
qed

text \<open>Sending in an idle world starts the next stage.\<close>

lemma transmit_waiting:
  assumes q: "sends_quietly E" and inv: "stun_inv w" and idle: "st_view w = Map.empty"
    and t: "require_retransmit (stx w)" "cb_complete (stx w)" "\<not> stx_complete (stx w)"
    and r: "uint (rto_msec (stx w)) \<le> 2 ^ 26" and k: "transmit_count (stx w) = of_nat k" "k \<le> 6"
    and p: "0 < k \<Longrightarrow> PJ_TIME_VAL_MSEC (retransmit_time (stx w)) = stun_interval (uint (rto_msec (stx w))) (k - 1)"
    and c: "PJ_TIME_VAL_MSEC (st_ticks w) = start + (\<Sum>i<k. stun_interval (uint (rto_msec (stx w))) i)"
    and tr: "st_trace w = tr @ replicate k (St_sent (last_pkt (stx w)))"
  shows "snd (tsx_transmit_msg E w) = PJ_SUCCESS"
    "waiting (last_pkt (stx w)) (uint (rto_msec (stx w))) start tr k (fst (tsx_transmit_msg E w))"
proof -
  have "st_id (rt_timer (stx w)) w = 0" using inv idle by (auto simp: stun_inv_def st_timers_def)
  note s = transmit_quiet [OF q inv this t(1)]
  show "snd (tsx_transmit_msg E w) = PJ_SUCCESS" by (rule s(1))
  show "waiting (last_pkt (stx w)) (uint (rto_msec (stx w))) start tr k (fst (tsx_transmit_msg E w))"
    using s idle t k c tr next_time_value [OF r k p]
    by (simp add: waiting_def replicate_append_same)
qed

lemma waiting_fired:
  assumes w: "waiting pkt rto start tr k w"
  obtains v where "next_event E w = retransmit_timer_callback E v" "stun_inv (st_set_id (rt_timer (stx v)) 0 v)"
    "st_view (st_set_id (rt_timer (stx v)) 0 v) = Map.empty" "stx v = stx w" "st_trace v = st_trace w"
    "PJ_TIME_VAL_MSEC (st_ticks v) = PJ_TIME_VAL_MSEC (st_ticks w) + stun_interval rto k"
proof -
  let ?t = "PJ_TIME_VAL_ADD (st_ticks w) (retransmit_time (stx w))"
  let ?w = "w\<lparr>st_ticks := ?t\<rparr>"
  let ?v = "?w\<lparr>st_heap := fst (remove_node (st_heap w) 0)\<rparr>"
  have inv: "stun_inv w" and view: "th_view (st_heap w) = [rt_timer (stx w) \<mapsto> ?t]"
    using w by (simp_all add: waiting_def st_view_def)
  have h: "th_inv (st_heap w)" using inv by (simp add: stun_inv_def)
  note root = single_root [OF h view]
  have i: "stun_inv ?w" using stun_keepsD(1) [OF clock_keeps [OF inv]] .
  have "heap (st_heap ?w) ! 0 \<in> st_timers ?w" using root(2) by (simp add: st_timers_def)
  note f = st_fired [OF i _ this]
  have "next_event E w = retransmit_timer_callback E ?v"
    using f(3) root by (simp add: next_event_def)
  moreover have "stun_inv (st_set_id (rt_timer (stx ?v)) 0 ?v)"
    "st_view (st_set_id (rt_timer (stx ?v)) 0 ?v) = Map.empty"
    using stun_keepsD(1) [OF f(1)] f(2) root view by (simp_all add: st_view_def [of w] st_view_def [of ?w])
  moreover have "PJ_TIME_VAL_MSEC (st_ticks ?v) = PJ_TIME_VAL_MSEC (st_ticks w) + stun_interval rto k"
    using w by (simp add: ADD_msec waiting_def)
  ultimately show thesis by (intro that [of ?v]) simp_all
qed

lemma waiting_next:
  assumes q: "sends_quietly E" and r: "rto \<le> 2 ^ 26" and k: "k < 6" and w: "waiting pkt rto start tr k w"
  shows "waiting pkt rto start tr (Suc k) (next_event E w)"
proof -
  obtain v where v: "next_event E w = retransmit_timer_callback E v" "stun_inv (st_set_id (rt_timer (stx v)) 0 v)"
    "st_view (st_set_id (rt_timer (stx v)) 0 v) = Map.empty" "stx v = stx w" "st_trace v = st_trace w"
    "PJ_TIME_VAL_MSEC (st_ticks v) = PJ_TIME_VAL_MSEC (st_ticks w) + stun_interval rto k"
    using waiting_fired [OF w] by blast
  let ?u = "st_set_id (rt_timer (stx v)) 0 v"
  have f: "uint (rto_msec (stx ?u)) = rto" "last_pkt (stx ?u) = pkt" "transmit_count (stx ?u) = of_nat (Suc k)"
    "require_retransmit (stx ?u)" "cb_complete (stx ?u)" "\<not> stx_complete (stx ?u)"
    "PJ_TIME_VAL_MSEC (retransmit_time (stx ?u)) = stun_interval rto k"
    "st_trace ?u = tr @ replicate (Suc k) (St_sent pkt)"
    "PJ_TIME_VAL_MSEC (st_ticks ?u) = start + (\<Sum>i<Suc k. stun_interval rto i)"
    using w v by (simp_all add: waiting_def)
  have t: "snd (tsx_transmit_msg E ?u) = PJ_SUCCESS" "waiting pkt rto start tr (Suc k) (fst (tsx_transmit_msg E ?u))"
    using transmit_waiting [OF q v(2,3) f(4-6) _ f(3), of start tr] r k f by simp_all
  have "k \<in> {0, 1, 2, 3, 4, 5}" using k by auto
  then have "transmit_count (stx v) < PJ_STUN_MAX_TRANSMIT_COUNT"
    using f(3) by (auto simp: PJ_STUN_MAX_TRANSMIT_COUNT_def)
  then have "next_event E w = fst (tsx_transmit_msg E ?u)"
    using t(1) unfolding v(1) retransmit_timer_callback_def
    by (cases "tsx_transmit_msg E ?u") (simp add: not_le [symmetric] del: st_simps)
  then show ?thesis using t(2) by simp
qed

lemma waiting_chain:
  assumes "sends_quietly E" "rto \<le> 2 ^ 26" "k \<le> 6" "waiting pkt rto start tr 0 w"
  shows "waiting pkt rto start tr k ((next_event E ^^ k) w)"
  using assms(3)
proof (induction k)
  case (Suc k)
  then show ?case using waiting_next [OF assms(1,2), of k] by simp
qed (simp add: assms(4))

lemma interval_sum: "k \<le> 6 \<Longrightarrow> (\<Sum>i<k. stun_interval rto i) = rto * (2 ^ k - 1)"
  by (induction k) (auto simp: stun_interval_def algebra_simps)

lemma waiting_timeout:
  assumes w: "waiting pkt rto start tr 6 w"
  shows "\<exists>u. next_event E w = on_complete E PJNATH_ESTUNTIMEDOUT None u \<and> st_view u = Map.empty \<and> stx_complete (stx u) \<and>
    st_trace u = tr @ replicate 7 (St_sent pkt) @ [St_completed PJNATH_ESTUNTIMEDOUT None] \<and>
    PJ_TIME_VAL_MSEC (st_ticks u) = start + 63 * rto + PJ_STUN_TIMEOUT_VALUE"
proof -
  obtain v where v: "next_event E w = retransmit_timer_callback E v"
    "st_view (st_set_id (rt_timer (stx v)) 0 v) = Map.empty" "stx v = stx w" "st_trace v = st_trace w"
    "PJ_TIME_VAL_MSEC (st_ticks v) = PJ_TIME_VAL_MSEC (st_ticks w) + stun_interval rto 6"
    using waiting_fired [OF w] by blast
  define u where "u = st_emit (St_completed PJNATH_ESTUNTIMEDOUT None)
      ((st_set_id (rt_timer (stx v)) 0 v)\<lparr>stx := (stx v)\<lparr>stx_complete := True\<rparr>\<rparr>)"
  have "transmit_count (stx v) = 7" using w v(3) by (simp add: waiting_def)
  then have "next_event E w = on_complete E PJNATH_ESTUNTIMEDOUT None u"
    using w v(1,3) by (simp add: retransmit_timer_callback_def PJ_STUN_MAX_TRANSMIT_COUNT_def tsx_finish_def
        u_def Let_def waiting_def)
  moreover have "st_view u = Map.empty" using v(2) by (simp add: u_def st_view_def)
  moreover have "st_trace u = tr @ replicate 7 (St_sent pkt) @ [St_completed PJNATH_ESTUNTIMEDOUT None]"
    using w v(4) by (simp add: u_def waiting_def)
  moreover have "PJ_TIME_VAL_MSEC (st_ticks u) = start + 63 * rto + PJ_STUN_TIMEOUT_VALUE"
    using w v(5) interval_sum [of 6 rto] by (simp add: u_def waiting_def stun_interval_def)
  ultimately show ?thesis by (intro exI [of _ u]) (simp add: u_def)
qed

lemma send_msg_waiting:
  assumes q: "sends_quietly E" and inv: "stun_inv w" and idle: "st_view w = Map.empty"
    and t: "transmit_count (stx w) = 0" "cb_complete (stx w)" "\<not> stx_complete (stx w)"
      "uint (rto_msec (stx w)) \<le> 2 ^ 26"
  shows "waiting pkt (uint (rto_msec (stx w))) (PJ_TIME_VAL_MSEC (st_ticks w)) (st_trace w) 0
    (fst (pj_stun_client_tsx_send_msg E True pkt w))"
proof -
  let ?w = "w\<lparr>stx := (stx w)\<lparr>last_pkt := pkt, require_retransmit := True\<rparr>\<rparr>"
  have "stun_keeps w ?w" using inv by (intro stx_update_keeps) simp_all
  then have i: "stun_inv ?w" by (rule stun_keepsD)
  have "st_view ?w = Map.empty" using idle by (simp add: st_view_def)
  from transmit_waiting [OF q i this, of 0 "PJ_TIME_VAL_MSEC (st_ticks w)" "st_trace w"]
  have "snd (tsx_transmit_msg E ?w) = PJ_SUCCESS"
    "waiting pkt (uint (rto_msec (stx w))) (PJ_TIME_VAL_MSEC (st_ticks w)) (st_trace w) 0 (fst (tsx_transmit_msg E ?w))"
    using t by simp_all
  then show ?thesis
    by (cases "tsx_transmit_msg E ?w") (simp add: pj_stun_client_tsx_send_msg_def Let_def)
qed

text \<open>C30: a request on a datagram transport that is never answered is sent seven times, after
  0, 1, 3, 7, 15, 31 and 63 times the initial interval, and 1.6 seconds after the last copy the
  transaction is complete and reports the timeout; no timer is armed then. The timer heap holds no
  other entry, and the interval is at most 2 to the 26 ms, so that no shift overflows.\<close>

theorem stun_times_out:
  fixes E w pkt k
  assumes "sends_quietly E" "stun_inv w" "st_view w = Map.empty" "transmit_count (stx w) = 0"
    "cb_complete (stx w)" "\<not> stx_complete (stx w)" "uint (rto_msec (stx w)) \<le> 2 ^ 26"
  defines "w\<^sub>1 \<equiv> fst (pj_stun_client_tsx_send_msg E True pkt w)"
  shows "(k \<le> 6 \<longrightarrow>
      st_trace ((next_event E ^^ k) w\<^sub>1) = st_trace w @ replicate (k + 1) (St_sent pkt) \<and>
      PJ_TIME_VAL_MSEC (st_ticks ((next_event E ^^ k) w\<^sub>1)) =
        PJ_TIME_VAL_MSEC (st_ticks w) + uint (rto_msec (stx w)) * (2 ^ k - 1)) \<and>
    (\<exists>u. (next_event E ^^ 7) w\<^sub>1 = on_complete E PJNATH_ESTUNTIMEDOUT None u \<and>
      st_view u = Map.empty \<and> stx_complete (stx u) \<and>
      st_trace u = st_trace w @ replicate 7 (St_sent pkt) @ [St_completed PJNATH_ESTUNTIMEDOUT None] \<and>
      PJ_TIME_VAL_MSEC (st_ticks u) =
        PJ_TIME_VAL_MSEC (st_ticks w) + 63 * uint (rto_msec (stx w)) + 1600)"
proof -
  note c = waiting_chain [OF assms(1,7) _ send_msg_waiting [OF assms(1-7), of pkt], folded w\<^sub>1_def]
  have "(next_event E ^^ 7) w\<^sub>1 = next_event E ((next_event E ^^ 6) w\<^sub>1)" by (simp add: numeral_eq_Suc)
  moreover note waiting_timeout [OF c [of 6]]
  moreover have "st_trace ((next_event E ^^ k) w\<^sub>1) = st_trace w @ replicate (k + 1) (St_sent pkt) \<and>
      PJ_TIME_VAL_MSEC (st_ticks ((next_event E ^^ k) w\<^sub>1)) =
        PJ_TIME_VAL_MSEC (st_ticks w) + uint (rto_msec (stx w)) * (2 ^ k - 1)" if "k \<le> 6"
    using waitingD [OF c [OF that]] interval_sum [OF that] by simp
  ultimately show ?thesis by (simp add: PJ_STUN_TIMEOUT_VALUE_def PJ_STUN_RTO_VALUE_def)
qed

text \<open>A transaction in an empty heap, and the session's callbacks over a socket that always sends.\<close>

definition stun_heap0 :: pj_timer_heap_t where
  "stun_heap0 = pj_timer_heap_create (\<lambda>a. stun_entry 0) 2"

definition stun_world0 :: stun_world where
  "stun_world0 = pj_stun_client_tsx_create 100 stun_heap0 (Time_val 10 0) 1 2 True True"

definition quiet_sess :: stun_env where
  "quiet_sess = sess_env (\<lambda>pkt w. PJ_SUCCESS)"

lemma stun_world0_ok:
  "th_inv stun_heap0" "\<not> pending stun_heap0 e" "stun_inv stun_world0" "st_view stun_world0 = Map.empty"
  "sends_quietly quiet_sess" "stx_complete (stx stun_world0) = False" "cb_complete (stx stun_world0)"
  "rto_msec (stx stun_world0) = 100" "transmit_count (stx stun_world0) = 0" "st_trace stun_world0 = []"
  "st_ticks stun_world0 = Time_val 10 0"
proof -
  show h: "th_inv stun_heap0" unfolding stun_heap0_def by (rule th_inv_create) (simp add: stun_entry_def)
  have p: "\<not> pending stun_heap0 e" for e
    by (simp add: stun_heap0_def pending_def pj_timer_heap_create_def Let_def stun_entry_def)
  then show "\<not> pending stun_heap0 e" .
  note c = stun_create_inv [OF h p p, of 1 2 100 "Time_val 10 0" True True, folded stun_world0_def]
  show "stun_inv stun_world0" using c by simp
  show "st_view stun_world0 = Map.empty" using c p by (simp add: fun_eq_iff)
qed (simp_all add: stun_world0_def pj_stun_client_tsx_create_def sends_quietly_def quiet_sess_def sess_env_def)

theorem stun_times_out_witness:
  "PJ_TIME_VAL_MSEC (st_ticks ((next_event quiet_sess ^^ 3)
     (fst (pj_stun_client_tsx_send_msg quiet_sess True [0, 1] stun_world0)))) = 10700"
  using stun_times_out [of quiet_sess stun_world0 3 "[0, 1]"]
  by (simp add: stun_world0_ok PJ_TIME_VAL_MSEC_def)

theorem stun_run_safe_witness:
  "completions (st_trace (fst (pj_stun_client_tsx_send_msg quiet_sess True [0, 1] stun_world0))) \<le> 1"
proof -
  have id: "st_id (rt_timer (stx stun_world0)) stun_world0 = 0"
    using stun_world0_ok(3,4) by (auto simp: stun_inv_def st_timers_def)
  have "stun_step quiet_sess stun_world0 (fst (pj_stun_client_tsx_send_msg quiet_sess True [0, 1] stun_world0))"
    using id by (rule stun_step.Send)
  then show ?thesis
    using stun_run_safe [OF sess.stun_user_axioms stun_world0_ok(1,2,2) _ r_into_rtranclp, of 1 2]
    unfolding quiet_sess_def stun_world0_def by (metis one_eq_numeral_iff num.distinct(1))
qed

text \<open>C31: a message that is no response is refused and changes nothing. A response disarms the
  retransmission timer at once. If it is final, the transaction is complete and reports the message
  with the status of its error code; a code of 200 or less stops the retransmissions and leaves the
  transaction incomplete, with no timer that could still end it.\<close>

theorem stun_response_ends:
  fixes E m w
  assumes "stun_inv w" "cb_complete (stx w)" "\<not> stx_complete (stx w)"
  defines "r \<equiv> pj_stun_client_tsx_on_rx_msg E m w"
    and "err \<equiv> pj_stun_msg_find_attr m PJ_STUN_ATTR_ERROR_CODE 0"
  shows "if hdr_type m AND 0x0110 \<notin> {0x0100, 0x0110} then r = (w, PJNATH_EINSTUNMSGTYPE)
    else \<exists>u. st_view u = (st_view w)(rt_timer (stx w) := None) \<and> snd r = PJ_SUCCESS \<and>
      (case err of
         None \<Rightarrow> stx_complete (stx u) \<and> fst r = on_complete E PJ_SUCCESS (Some m) u
       | Some a \<Rightarrow>
           if 200 < err_code a
           then stx_complete (stx u) \<and> fst r = on_complete E (PJ_STATUS_FROM_STUN_CODE (err_code a)) (Some m) u
           else fst r = u \<and> \<not> stx_complete (stx u) \<and> st_trace u = st_trace w)"
proof (cases "hdr_type m AND 0x0110 \<notin> {0x0100, 0x0110}")
  case True
  then show ?thesis
    by (simp add: r_def pj_stun_client_tsx_on_rx_msg_def PJ_STUN_IS_SUCCESS_RESPONSE_def PJ_STUN_IS_ERROR_RESPONSE_def)
next
  case False
  let ?s = "st_stop (rt_timer (stx w)) w"
  have v: "st_view ?s = (st_view w)(rt_timer (stx w) := None)"
    using assms(1) by (intro st_stop_timer(2)) (simp_all add: st_timers_def)
  let ?c = "\<lambda>st. st_emit (St_completed st (Some m)) (?s\<lparr>stx := (stx w)\<lparr>stx_complete := True\<rparr>\<rparr>)"
  have c: "st_view (?c st) = (st_view w)(rt_timer (stx w) := None)" "stx_complete (stx (?c st))"
    "tsx_finish E st (Some m) ?s = on_complete E st (Some m) (?c st)" for st
    using v assms(2,3) by (simp_all add: st_view_def tsx_finish_def)
  have r: "r = (case err of None \<Rightarrow> (tsx_finish E PJ_SUCCESS (Some m) ?s, PJ_SUCCESS)
    | Some a \<Rightarrow> if err_code a \<le> 200 then (?s, PJ_SUCCESS)
        else (tsx_finish E (PJ_STATUS_FROM_STUN_CODE (err_code a)) (Some m) ?s, PJ_SUCCESS))"
    using False by (auto simp: r_def err_def pj_stun_client_tsx_on_rx_msg_def Let_def
      PJ_STUN_IS_SUCCESS_RESPONSE_def PJ_STUN_IS_ERROR_RESPONSE_def)
  show ?thesis
  proof (cases err)
    case None
    then show ?thesis using False c r by (auto intro: exI [of _ "?c PJ_SUCCESS"])
  next
    case (Some a)
    then show ?thesis
      using False c v r assms(3)
      by (cases "200 < err_code a") (auto intro: exI [of _ "?c (PJ_STATUS_FROM_STUN_CODE (err_code a))"])
  qed
qed

theorem stun_response_ends_witness:
  "\<not> stx_complete (stx (fst (pj_stun_client_tsx_on_rx_msg quiet_sess
      \<lparr>hdr_type = 0x0111, msg_attrs = [Other_attr 6, Errcode_attr 100 ''Trying'']\<rparr> stun_world0)))"
  using stun_response_ends [OF stun_world0_ok(3,7), where E = quiet_sess and
      m = "\<lparr>hdr_type = 0x0111, msg_attrs = [Other_attr 6, Errcode_attr 100 ''Trying'']\<rparr>"]
  by (auto simp: stun_world0_ok pj_stun_msg_find_attr_def PJ_STUN_ATTR_ERROR_CODE_def)

end
