(* ===== verification/Inv_World.thy ===== *)
theory Inv_World
  imports Tsx_World Sdp_Neg_Flow
begin

text \<open>
  The state an INVITE session works on (\<^verbatim>\<open>pjsip/include/pjsip-ua/sip_inv.h\<close>,
  \<^verbatim>\<open>pjsip/src/pjsip-ua/sip_inv.c\<close>): the session with its negotiator, the transactions and buffers of
  its dialog by address, the target set of a redirected call, and a trace of what the session does.

  The dialog, the session timer, the 100rel extension, authentication and the application are functions
  of the environment. They act on the whole world, as a send of the dialog reports the new transaction
  state back to the session before it returns. A read through a null pointer, or of the message of an
  event that carries none, sets \<open>iw_fault\<close>; what the model does afterwards has no counterpart in C.
\<close>

section \<open>Data\<close>

datatype pjsip_inv_state =
  PJSIP_INV_STATE_NULL | PJSIP_INV_STATE_CALLING | PJSIP_INV_STATE_INCOMING | PJSIP_INV_STATE_EARLY
| PJSIP_INV_STATE_CONNECTING | PJSIP_INV_STATE_CONFIRMED | PJSIP_INV_STATE_DISCONNECTED

fun inv_state_num :: "pjsip_inv_state \<Rightarrow> nat" where
  "inv_state_num PJSIP_INV_STATE_NULL = 0"
| "inv_state_num PJSIP_INV_STATE_CALLING = 1"
| "inv_state_num PJSIP_INV_STATE_INCOMING = 2"
| "inv_state_num PJSIP_INV_STATE_EARLY = 3"
| "inv_state_num PJSIP_INV_STATE_CONNECTING = 4"
| "inv_state_num PJSIP_INV_STATE_CONFIRMED = 5"
| "inv_state_num PJSIP_INV_STATE_DISCONNECTED = 6"

lemma inv_state_num_inj: "inv_state_num s = inv_state_num s' \<longleftrightarrow> s = s'"
  by (cases s; cases s') simp_all

instantiation pjsip_inv_state :: linorder
begin

definition less_eq_pjsip_inv_state :: "pjsip_inv_state \<Rightarrow> pjsip_inv_state \<Rightarrow> bool" where
  "s \<le> s' \<longleftrightarrow> inv_state_num s \<le> inv_state_num s'"

definition less_pjsip_inv_state :: "pjsip_inv_state \<Rightarrow> pjsip_inv_state \<Rightarrow> bool" where
  "s < s' \<longleftrightarrow> inv_state_num s < inv_state_num s'"

instance
  by standard (auto simp: less_eq_pjsip_inv_state_def less_pjsip_inv_state_def inv_state_num_inj [symmetric])

end

lemmas inv_state_order = less_eq_pjsip_inv_state_def less_pjsip_inv_state_def

text \<open>
  The two pools of a session, which hold the descriptions, are live until it ends.

  A received message as the session reads it: whether it has a body, whether the body is SDP, the error of
  its parser, the parsed description, the To tag, and the transaction it belongs to.
\<close>

record inv_rx_data = pjsip_rx_data +
  rd_body :: bool
  rd_sdp_body :: bool
  rd_sdp_err :: pj_status
  rd_sdp :: "pjmedia_sdp_session option"
  rd_to_tag :: "8 word list"
  rd_tsx :: nat

record tsx_inv_data =
  sdp_done :: bool
  done_tag :: "8 word list"
  done_early :: bool

text \<open>The session's slot of \<open>mod_data\<close> in a transaction, and the body of a buffer.\<close>

record inv_transaction = pjsip_transaction +
  inv_data :: "tsx_inv_data option"

record inv_tx_data = pjsip_tx_data +
  tx_body :: "pjmedia_sdp_session option"
  tx_pending :: bool

record pjsip_inv_session =
  inv_state :: pjsip_inv_state
  cancelling :: bool
  pending_cancel :: bool
  inv_cause :: nat
  inv_notify :: bool
  cb_called :: "pjsip_inv_state set"
  inv_role :: pjsip_role_e
  require_100rel :: bool
  require_timer :: bool
  inv_neg :: "pjmedia_sdp_neg option"
  invite_tsx :: "nat option"
  invite_req :: "nat option"
  last_answer :: "nat option"
  last_ack :: "nat option"
  last_ack_cseq :: nat
  pools_live :: bool

text \<open>A target of a redirected call: whether its URI is one of SIP, and the status it was given.\<close>

record pjsip_target =
  target_is_sip :: bool
  target_code :: nat

datatype pjsip_redirect_op =
  PJSIP_REDIRECT_REJECT | PJSIP_REDIRECT_ACCEPT | PJSIP_REDIRECT_PENDING | PJSIP_REDIRECT_STOP

text \<open>
  Events: a transaction changed its state, with the message that made it, if any; a message outside a
  transaction; and an action of the user, or none.
\<close>

datatype inv_event =
  Ev_tsx nat "inv_rx_data option"
| Ev_rx inv_rx_data
| Ev_user

text \<open>
  What the session does: requests and responses with their bodies, the states it enters, the
  notifications, the calls of the negotiator with the state they find, and the end of its usage of the dialog.
\<close>

datatype inv_action =
  Sent_request pjsip_method "pjmedia_sdp_session option"
| Sent_response nat nat "pjmedia_sdp_session option"
| State_set pjsip_inv_state pjsip_inv_state
| State_cb pjsip_inv_state
| Media_update pj_status
| Neg_call neg_call pjmedia_sdp_neg_state
| Inc_session
| Dec_session
| Restarted
| Ended

record inv_world =
  inv :: pjsip_inv_session
  dlg_role :: pjsip_role_e
  dlg_established :: bool
  remote_tag :: bool
  iw_tsx :: "nat \<Rightarrow> inv_transaction"
  iw_td :: "nat \<Rightarrow> inv_tx_data"
  iw_next :: nat
  targets :: "pjsip_target list"
  cur_target :: nat
  iw_trace :: "inv_action list"
  iw_fault :: bool

section \<open>The environment\<close>

text \<open>
  \<open>status_of\<close> are the results of creating messages; \<open>dlg_send\<close> and \<open>dlg_respond\<close> send them and may call
  the session back. Of the session timer only statuses and codes are seen. A callback that is not set is \<open>None\<close>.
\<close>

record inv_env =
  neg_cbs :: neg_env
  create_status :: "pjsip_method \<Rightarrow> inv_world \<Rightarrow> pj_status"
  response_status :: "inv_rx_data \<Rightarrow> nat \<Rightarrow> inv_world \<Rightarrow> pj_status"
  cancel_status :: "nat \<Rightarrow> inv_world \<Rightarrow> pj_status"
  auth_status :: "inv_rx_data \<Rightarrow> nat \<Rightarrow> inv_world \<Rightarrow> pj_status"
  dlg_send :: "nat \<Rightarrow> bool \<Rightarrow> inv_world \<Rightarrow> inv_world \<times> pj_status"
  dlg_respond :: "nat \<Rightarrow> nat \<Rightarrow> inv_world \<Rightarrow> inv_world \<times> pj_status"
  set_timeout :: "nat \<Rightarrow> inv_world \<Rightarrow> inv_world"
  tsx_terminate_call :: "nat \<Rightarrow> nat \<Rightarrow> inv_world \<Rightarrow> inv_world"
  find_invite_tsx :: "inv_rx_data \<Rightarrow> inv_world \<Rightarrow> nat option"
  timer_process_resp :: "inv_rx_data \<Rightarrow> inv_world \<Rightarrow> inv_world \<times> pj_status \<times> nat"
  timer_process_req :: "inv_rx_data \<Rightarrow> inv_world \<Rightarrow> inv_world \<times> pj_status \<times> nat"
  timer_update_req :: "nat \<Rightarrow> inv_world \<Rightarrow> inv_world \<times> pj_status"
  timer_update_resp :: "nat \<Rightarrow> inv_world \<Rightarrow> inv_world \<times> pj_status"
  rel_is_reliable :: "inv_rx_data \<Rightarrow> bool"
  rel_create_prack :: "inv_rx_data \<Rightarrow> inv_world \<Rightarrow> inv_world \<times> pj_status \<times> nat"
  rel_send_prack :: "nat \<Rightarrow> inv_world \<Rightarrow> inv_world"
  rel_tx_response :: "nat \<Rightarrow> inv_world \<Rightarrow> inv_world \<times> pj_status"
  rel_on_rx_prack :: "inv_rx_data \<Rightarrow> inv_world \<Rightarrow> inv_world \<times> pj_status"
  targets_of :: "inv_rx_data \<Rightarrow> pjsip_target list"
  add_usage_status :: "inv_world \<Rightarrow> pj_status"
  on_state_changed :: "inv_event \<Rightarrow> inv_world \<Rightarrow> inv_world"
  on_tsx_state_changed :: "nat \<Rightarrow> inv_world \<Rightarrow> inv_world"
  on_media_update :: "pj_status \<Rightarrow> inv_world \<Rightarrow> inv_world"
  on_rx_offer :: "pjmedia_sdp_session \<Rightarrow> inv_world \<Rightarrow> inv_world"
  on_send_ack :: "(inv_rx_data \<Rightarrow> inv_world \<Rightarrow> inv_world) option"
  on_create_offer :: "(inv_world \<Rightarrow> inv_world \<times> pjmedia_sdp_session option) option"
  on_redirected :: "(nat \<Rightarrow> pjsip_redirect_op) option"

section \<open>Reading and writing\<close>

definition iw_emit :: "inv_action \<Rightarrow> inv_world \<Rightarrow> inv_world" where
  "iw_emit a w = w\<lparr>iw_trace := iw_trace w @ [a]\<rparr>"

definition iw_crash :: "inv_world \<Rightarrow> inv_world" where
  "iw_crash w = w\<lparr>iw_fault := True\<rparr>"

abbreviation upd_inv :: "(pjsip_inv_session \<Rightarrow> pjsip_inv_session) \<Rightarrow> inv_world \<Rightarrow> inv_world" where
  "upd_inv f w \<equiv> w\<lparr>inv := f (inv w)\<rparr>"

abbreviation upd_td :: "nat \<Rightarrow> (inv_tx_data \<Rightarrow> inv_tx_data) \<Rightarrow> inv_world \<Rightarrow> inv_world" where
  "upd_td d f w \<equiv> w\<lparr>iw_td := (iw_td w)(d := f (iw_td w d))\<rparr>"

abbreviation upd_itsx :: "nat \<Rightarrow> (inv_transaction \<Rightarrow> inv_transaction) \<Rightarrow> inv_world \<Rightarrow> inv_world" where
  "upd_itsx t f w \<equiv> w\<lparr>iw_tsx := (iw_tsx w)(t := f (iw_tsx w t))\<rparr>"

definition td_ref :: "int \<Rightarrow> nat \<Rightarrow> inv_world \<Rightarrow> inv_world" where
  "td_ref i d w = upd_td d (\<lambda>td. td\<lparr>tx_ref_cnt := tx_ref_cnt td + i\<rparr>) w"

abbreviation set_body :: "nat \<Rightarrow> pjmedia_sdp_session option \<Rightarrow> inv_world \<Rightarrow> inv_world" where
  "set_body d b w \<equiv> upd_td d (\<lambda>td. td\<lparr>tx_body := b\<rparr>) w"

text \<open>\<^verbatim>\<open>PJSIP_IS_STATUS_IN_CLASS\<close>, and the two methods that are not numbered.\<close>

definition code_class :: "nat \<Rightarrow> nat \<Rightarrow> bool" where
  "code_class code c \<longleftrightarrow> code div 100 = c div 100"

definition plain_method :: "pjsip_method_e \<Rightarrow> pjsip_method" where
  "plain_method m = \<lparr>method_id = m, method_name = []\<rparr>"

definition pjsip_update_method :: pjsip_method where
  "pjsip_update_method = \<lparr>method_id = PJSIP_OTHER_METHOD, method_name = [85, 80, 68, 65, 84, 69]\<rparr>"

definition pjsip_prack_method :: pjsip_method where
  "pjsip_prack_method = \<lparr>method_id = PJSIP_OTHER_METHOD, method_name = [80, 82, 65, 67, 75]\<rparr>"

section \<open>The negotiator of the session\<close>

text \<open>
  A call of the negotiator is recorded with the state it finds. It faults when there is no negotiator, or
  when the negotiator itself follows a null pointer.
\<close>

definition neg_do :: "inv_env \<Rightarrow> neg_call \<Rightarrow> inv_world \<Rightarrow> inv_world \<times> pj_status" where
  "neg_do E c w =
     (case inv_neg (inv w) of
        None \<Rightarrow> (iw_crash w, PJ_EUNKNOWN)
      | Some n \<Rightarrow>
          let w = iw_emit (Neg_call c (neg_state n)) w
          in case run_call (neg_cbs E) c n of
               None \<Rightarrow> (iw_crash w, PJ_EUNKNOWN)
             | Some (n', status) \<Rightarrow> (upd_inv (\<lambda>s. s\<lparr>inv_neg := Some n'\<rparr>) w, status))"

text \<open>
  Calls that allocate from the provisional pool of the session: it is gone once the session has ended.
\<close>

definition neg_do_prov :: "inv_env \<Rightarrow> neg_call \<Rightarrow> inv_world \<Rightarrow> inv_world \<times> pj_status" where
  "neg_do_prov E c w = neg_do E c (if pools_live (inv w) then w else iw_crash w)"

text \<open>\<^verbatim>\<open>pjmedia_sdp_neg_get_state\<close> reads through its argument: the assertion on it is compiled out.\<close>

definition get_neg_state :: "inv_world \<Rightarrow> inv_world \<times> pjmedia_sdp_neg_state" where
  "get_neg_state w =
     (case inv_neg (inv w) of
        None \<Rightarrow> (iw_crash w, PJMEDIA_SDP_NEG_STATE_NULL)
      | Some n \<Rightarrow> (w, neg_state n))"

definition neg_state_or_null :: "inv_world \<Rightarrow> pjmedia_sdp_neg_state" where
  "neg_state_or_null w =
     (case inv_neg (inv w) of None \<Rightarrow> PJMEDIA_SDP_NEG_STATE_NULL | Some n \<Rightarrow> neg_state n)"

definition neg_has_local_answer :: "inv_world \<Rightarrow> bool" where
  "neg_has_local_answer w =
     (case inv_neg (inv w) of None \<Rightarrow> False | Some n \<Rightarrow> pjmedia_sdp_neg_has_local_answer n)"

definition neg_local_of :: "inv_world \<Rightarrow> pjmedia_sdp_session option" where
  "neg_local_of w = Option.bind (inv_neg (inv w)) neg_local_sdp"

definition neg_active_local_of :: "inv_world \<Rightarrow> pjmedia_sdp_session option" where
  "neg_active_local_of w = Option.bind (inv_neg (inv w)) active_local_sdp"

definition neg_create :: "(pj_status + pjmedia_sdp_neg) \<Rightarrow> inv_world \<Rightarrow> inv_world \<times> pj_status" where
  "neg_create r w =
     (case r of Inl status \<Rightarrow> (w, status)
      | Inr n \<Rightarrow> (upd_inv (\<lambda>s. s\<lparr>inv_neg := Some n\<rparr>) w, PJ_SUCCESS))"

section \<open>Messages of the dialog\<close>

definition new_tdata :: "pjsip_msg_type_e \<Rightarrow> pjsip_method \<Rightarrow> nat \<Rightarrow> nat \<Rightarrow> inv_tx_data" where
  "new_tdata type m code cs =
     \<lparr>tx_type = type, tx_method = m, tx_code = code,
      tx_cseq = Some \<lparr>cseq_num = cs, cseq_method = m\<rparr>, tx_branch = [], tx_ref_cnt = 1,
      tx_mod_data = None, tx_tp_sel = None, tx_body = None, tx_pending = False\<rparr>"

definition alloc_tdata :: "inv_tx_data \<Rightarrow> inv_world \<Rightarrow> inv_world \<times> nat" where
  "alloc_tdata td w = (w\<lparr>iw_td := (iw_td w)(iw_next w := td), iw_next := Suc (iw_next w)\<rparr>, iw_next w)"

definition dlg_create_request :: "inv_env \<Rightarrow> pjsip_method \<Rightarrow> nat \<Rightarrow> inv_world \<Rightarrow> inv_world \<times> pj_status \<times> nat" where
  "dlg_create_request E m cs w =
     (if create_status E m w \<noteq> PJ_SUCCESS then (w, create_status E m w, 0)
      else let (w, d) = alloc_tdata (new_tdata PJSIP_REQUEST_MSG m 0 cs) w in (w, PJ_SUCCESS, d))"

definition dlg_create_response :: "inv_env \<Rightarrow> inv_rx_data \<Rightarrow> nat \<Rightarrow> inv_world \<Rightarrow> inv_world \<times> pj_status \<times> nat" where
  "dlg_create_response E rdata code w =
     (if response_status E rdata code w \<noteq> PJ_SUCCESS then (w, response_status E rdata code w, 0)
      else
        let c = (case rx_cseq rdata of None \<Rightarrow> 0 | Some h \<Rightarrow> cseq_num h);
            (w, d) = alloc_tdata (new_tdata PJSIP_RESPONSE_MSG (rx_method rdata) code c) w
        in (w, PJ_SUCCESS, d))"

text \<open>Modifying a response adds the reference that sending it takes.\<close>

definition dlg_modify_response :: "nat \<Rightarrow> nat \<Rightarrow> inv_world \<Rightarrow> inv_world \<times> pj_status" where
  "dlg_modify_response d code w =
     (if assert_fails (tx_type (iw_td w d) = PJSIP_RESPONSE_MSG) then (w, PJSIP_ENOTRESPONSEMSG)
      else if assert_fails (100 \<le> code \<and> code \<le> 699) then (w, PJ_EINVAL)
      else (td_ref 1 d (upd_td d (\<lambda>td. td\<lparr>tx_code := code\<rparr>) w), PJ_SUCCESS))"

definition send_request :: "inv_env \<Rightarrow> nat \<Rightarrow> bool \<Rightarrow> inv_world \<Rightarrow> inv_world \<times> pj_status" where
  "send_request E d attach w =
     dlg_send E d attach (iw_emit (Sent_request (tx_method (iw_td w d)) (tx_body (iw_td w d))) w)"

definition send_response :: "inv_env \<Rightarrow> nat \<Rightarrow> nat \<Rightarrow> inv_world \<Rightarrow> inv_world \<times> pj_status" where
  "send_response E t d w =
     dlg_respond E t d (iw_emit (Sent_response t (tx_code (iw_td w d)) (tx_body (iw_td w d))) w)"

text \<open>A request sent again with credentials is a copy of the last one in a new buffer.\<close>

definition auth_reinit_req :: "inv_env \<Rightarrow> inv_rx_data \<Rightarrow> nat \<Rightarrow> inv_world \<Rightarrow> inv_world \<times> pj_status \<times> nat" where
  "auth_reinit_req E rdata t w =
     (case last_tx (iw_tsx w t) of
        None \<Rightarrow> (iw_crash w, PJ_EUNKNOWN, 0)
      | Some d \<Rightarrow>
          if auth_status E rdata t w \<noteq> PJ_SUCCESS then (w, auth_status E rdata t w, 0)
          else let (w, d') = alloc_tdata (iw_td w d) w in (w, PJ_SUCCESS, d'))"

end
