(* ===== verification/Inv_Session.thy ===== *)
theory Inv_Session
  imports Inv_World
begin

text \<open>
  The operations of an INVITE session (\<^verbatim>\<open>pjsip/src/pjsip-ua/sip_inv.c\<close>): negotiation, answers, ending,
  sending, the change of state, the ACK, offers in re-INVITE and UPDATE, creation and termination.
\<close>

section \<open>Cause, negotiation and answers\<close>

definition inv_set_cause :: "nat \<Rightarrow> inv_world \<Rightarrow> inv_world" where
  "inv_set_cause cause_code w =
     (if inv_cause (inv w) < cause_code then upd_inv (\<lambda>s. s\<lparr>inv_cause := cause_code\<rparr>) w else w)"

definition inv_negotiate_sdp :: "inv_env \<Rightarrow> inv_world \<Rightarrow> inv_world \<times> pj_status" where
  "inv_negotiate_sdp E w =
     (if assert_fails (snd (get_neg_state w) = PJMEDIA_SDP_NEG_STATE_WAIT_NEGO) then (w, PJMEDIA_SDPNEG_EINSTATE)
      else
        let (w, status) = neg_do_prov E (Negotiate False) w;
            w = iw_emit (Media_update status) w;
            w = (if inv_notify (inv w) then on_media_update E status w else w)
        in if inv_state (inv w) \<noteq> PJSIP_INV_STATE_DISCONNECTED then (w, status)
           else (w, PJSIP_ERRNO_FROM_SIP_STATUS (inv_cause (inv w))))"

text \<open>Writing \<open>sdp_done\<close> into the slot of a transaction; the slot must exist.\<close>

definition mark_sdp_done :: "nat \<Rightarrow> inv_world \<Rightarrow> inv_world" where
  "mark_sdp_done t w =
     (case inv_data (iw_tsx w t) of
        None \<Rightarrow> iw_crash w
      | Some d \<Rightarrow> upd_itsx t (\<lambda>x. x\<lparr>inv_data := Some (d\<lparr>sdp_done := True\<rparr>)\<rparr>) w)"

definition attach_inv_data :: "nat \<Rightarrow> inv_world \<Rightarrow> inv_world" where
  "attach_inv_data t w =
     (if inv_data (iw_tsx w t) = None
      then upd_itsx t (\<lambda>x. x\<lparr>inv_data := Some \<lparr>sdp_done = False, done_tag = [], done_early = False\<rparr>\<rparr>) w
      else w)"

definition inv_has_pending_answer ::
    "inv_env \<Rightarrow> nat option \<Rightarrow> inv_world \<Rightarrow> inv_world \<times> pjmedia_sdp_session option" where
  "inv_has_pending_answer E t w =
     (if neg_state_or_null w = PJMEDIA_SDP_NEG_STATE_DONE then (w, None)
      else if neg_state_or_null w = PJMEDIA_SDP_NEG_STATE_WAIT_NEGO \<and> neg_has_local_answer w then
        let (w, status) = inv_negotiate_sdp E w
        in if status \<noteq> PJ_SUCCESS then (w, None)
           else
             let w = (case t of None \<Rightarrow> w | Some t \<Rightarrow> mark_sdp_done t w)
             in (w, neg_active_local_of w)
      else (w, None))"

text \<open>The local description that comes with an answer, if it may come now.\<close>

definition answer_local_sdp ::
    "inv_env \<Rightarrow> nat \<Rightarrow> pjmedia_sdp_session option \<Rightarrow> inv_world \<Rightarrow> inv_world \<times> pj_status" where
  "answer_local_sdp E st_code local_sdp w =
     (case local_sdp of
        None \<Rightarrow> (w, PJ_SUCCESS)
      | Some l \<Rightarrow>
          if st_code div 100 = 1 \<or> st_code div 100 = 2 then
            (if inv_neg (inv w) = None then neg_create (pjmedia_sdp_neg_create_w_local_offer l) w
             else if neg_state_or_null w = PJMEDIA_SDP_NEG_STATE_REMOTE_OFFER
               then neg_do_prov E (Set_local_answer (Some l)) w
             else (w, PJMEDIA_SDPNEG_EINSTATE))
          else (w, PJ_SUCCESS))"

text \<open>The description a 2xx or 18x answer carries, after the negotiation it completes.\<close>

definition answer_sdp ::
    "inv_env \<Rightarrow> nat \<Rightarrow> inv_world \<Rightarrow> inv_world \<times> pj_status \<times> pjmedia_sdp_session option" where
  "answer_sdp E st_code w =
     (if st_code div 100 = 2 \<or> (st_code div 10 = 18 \<and> st_code \<noteq> 180) then
        if neg_state_or_null w = PJMEDIA_SDP_NEG_STATE_LOCAL_OFFER then (w, PJ_SUCCESS, neg_local_of w)
        else if neg_state_or_null w = PJMEDIA_SDP_NEG_STATE_WAIT_NEGO \<and> neg_has_local_answer w then
          case invite_tsx (inv w) of
            None \<Rightarrow> (iw_crash w, PJ_EUNKNOWN, None)
          | Some t \<Rightarrow>
              let (w, status) = inv_negotiate_sdp E w
              in if status \<noteq> PJ_SUCCESS then (w, status, None)
                 else let w = mark_sdp_done t w in (w, PJ_SUCCESS, neg_active_local_of w)
        else (w, PJ_SUCCESS, None)
      else (w, PJ_SUCCESS, None))"

definition process_answer ::
    "inv_env \<Rightarrow> nat \<Rightarrow> nat \<Rightarrow> pjmedia_sdp_session option \<Rightarrow> inv_world \<Rightarrow> inv_world \<times> pj_status" where
  "process_answer E st_code d local_sdp w =
     (let (w, status) = answer_local_sdp E st_code local_sdp w
      in if status \<noteq> PJ_SUCCESS then (w, status)
         else
           let (w, status, sdp) = answer_sdp E st_code w
           in if status \<noteq> PJ_SUCCESS then (w, status)
              else (if sdp \<noteq> None then set_body d sdp w
                    else if require_100rel (inv w) then set_body d None w
                    else w, PJ_SUCCESS))"

definition pjsip_inv_initial_answer ::
    "inv_env \<Rightarrow> inv_rx_data \<Rightarrow> nat \<Rightarrow> pjmedia_sdp_session option \<Rightarrow> inv_world
     \<Rightarrow> inv_world \<times> pj_status \<times> nat option" where
  "pjsip_inv_initial_answer E rdata st_code sdp w =
     (if assert_fails (invite_tsx (inv w) \<noteq> None) then (w, PJ_EBUG, None)
      else
        let (w, status, d) = dlg_create_response E rdata st_code w
        in if status \<noteq> PJ_SUCCESS then (w, status, None)
           else
             let (w, status, st_code2) = timer_process_req E rdata w
             in if status \<noteq> PJ_SUCCESS then
                  let (w, _) = dlg_modify_response d st_code2 w;
                      (w, status2) = timer_update_resp E d w
                  in if status2 = PJ_SUCCESS then (w, status, Some d) else (td_ref (-1) d w, status, None)
                else
                  let (w, status) = process_answer E st_code d sdp w
                  in if status \<noteq> PJ_SUCCESS then (td_ref (-1) d w, status, None)
                     else
                       let w = upd_inv (\<lambda>s. s\<lparr>last_answer := Some d\<rparr>) w;
                           w = td_ref 1 d w;
                           (w, _) = timer_update_resp E d w
                       in (w, PJ_SUCCESS, Some d))"

definition pjsip_inv_answer ::
    "inv_env \<Rightarrow> nat \<Rightarrow> pjmedia_sdp_session option \<Rightarrow> inv_world \<Rightarrow> inv_world \<times> pj_status \<times> nat option" where
  "pjsip_inv_answer E st_code local_sdp w =
     (if assert_fails (invite_tsx (inv w) \<noteq> None) then (w, PJ_EBUG, None)
      else if assert_fails (last_answer (inv w) \<noteq> None) then (w, PJ_EINVALIDOP, None)
      else
        case last_answer (inv w) of
          None \<Rightarrow> (iw_crash w, PJ_EUNKNOWN, None)
        | Some last_res \<Rightarrow>
            let (w, status) = dlg_modify_response last_res st_code w
            in if status \<noteq> PJ_SUCCESS then (w, status, None)
               else
                 let w = (if 300 \<le> st_code then set_body last_res None w else w);
                     (w, status) = process_answer E st_code last_res local_sdp w
                 in if status \<noteq> PJ_SUCCESS then (td_ref (-1) last_res w, status, None)
                    else let (w, _) = timer_update_resp E last_res w in (w, PJ_SUCCESS, Some last_res))"

section \<open>Ending and sending\<close>

text \<open>What ending an unconfirmed session takes: a CANCEL, or, for the UAS, a final response.\<close>

definition cancel_session :: "inv_env \<Rightarrow> inv_world \<Rightarrow> inv_world \<times> pj_status \<times> nat option" where
  "cancel_session E w =
     (case invite_tsx (inv w) of
        None \<Rightarrow> (iw_crash w, PJ_EBUG, None)
      | Some t \<Rightarrow>
          (case last_tx (iw_tsx w t) of
             None \<Rightarrow> (iw_crash w, PJ_EUNKNOWN, None)
           | Some d0 \<Rightarrow>
               if cancel_status E d0 w \<noteq> PJ_SUCCESS then (w, cancel_status E d0 w, None)
               else
                 let cs = (case tx_cseq (iw_td w d0) of None \<Rightarrow> 0 | Some h \<Rightarrow> cseq_num h);
                     (w, d) = alloc_tdata (new_tdata PJSIP_REQUEST_MSG (plain_method PJSIP_CANCEL_METHOD) 0 cs) w
                 in (set_timeout E t w, PJ_SUCCESS, Some d)))"

definition end_unconfirmed :: "inv_env \<Rightarrow> inv_world \<Rightarrow> inv_world \<times> pj_status \<times> nat option" where
  "end_unconfirmed E w =
     (if inv_role (inv w) = PJSIP_ROLE_UAC then
        if assert_fails (invite_tsx (inv w) \<noteq> None) then (w, PJ_EBUG, None)
        else
          (case invite_tsx (inv w) of
             None \<Rightarrow> (iw_crash w, PJ_EUNKNOWN, None)
           | Some t \<Rightarrow>
               if status_code (iw_tsx w t) < 100
               then (upd_inv (\<lambda>s. s\<lparr>cancelling := True, pending_cancel := True\<rparr>) w, PJ_SUCCESS, None)
               else cancel_session E w)
      else
        let w = (if invite_tsx (inv w) = None then iw_crash w else w);
            w = upd_inv (\<lambda>s. s\<lparr>inv_cause := 0\<rparr>) w;
            w = inv_set_cause 486 w
        in pjsip_inv_answer E 486 None w)"

text \<open>The message that ends the session, or none when a CANCEL has to wait.\<close>

definition pjsip_inv_end_session ::
    "inv_env \<Rightarrow> nat \<Rightarrow> inv_world \<Rightarrow> inv_world \<times> pj_status \<times> nat option" where
  "pjsip_inv_end_session E st_code w =
     (let w = inv_set_cause st_code w;
          st = inv_state (inv w)
      in if st = PJSIP_INV_STATE_DISCONNECTED then (w, PJSIP_ESESSIONTERMINATED, None)
         else if st = PJSIP_INV_STATE_NULL then (w, PJ_EINVALIDOP, None)
         else
           let (w, status, p) =
                 (if st = PJSIP_INV_STATE_CONNECTING \<or> st = PJSIP_INV_STATE_CONFIRMED
                  then let (w, status, d) = dlg_create_request E (plain_method PJSIP_BYE_METHOD) 0 w
                       in (w, status, Some d)
                  else end_unconfirmed E w)
           in if status \<noteq> PJ_SUCCESS \<or> p = None then (w, status, None)
              else (upd_inv (\<lambda>s. s\<lparr>cancelling := True\<rparr>) w, PJ_SUCCESS, p))"

definition pjsip_inv_send_msg :: "inv_env \<Rightarrow> nat \<Rightarrow> inv_world \<Rightarrow> inv_world \<times> pj_status" where
  "pjsip_inv_send_msg E d w =
     (if tx_type (iw_td w d) = PJSIP_REQUEST_MSG then
        if method_id (tx_method (iw_td w d)) = PJSIP_INVITE_METHOD \<and> invite_tsx (inv w) \<noteq> None
        then (td_ref (-1) d w, PJ_EINVALIDOP)
        else send_request E d True w
      else if require_100rel (inv w) then rel_tx_response E d w
      else
        case invite_tsx (inv w) of
          None \<Rightarrow> (iw_crash w, PJ_EUNKNOWN)
        | Some t \<Rightarrow> send_response E t d w)"

text \<open>\<^verbatim>\<open>if (status == PJ_SUCCESS && tdata) pjsip_inv_send_msg(inv, tdata)\<close> after ending the session.\<close>

definition end_and_send :: "inv_env \<Rightarrow> nat \<Rightarrow> inv_world \<Rightarrow> inv_world" where
  "end_and_send E st_code w =
     (let (w, status, p) = pjsip_inv_end_session E st_code w
      in case p of
           None \<Rightarrow> w
         | Some d \<Rightarrow> if status = PJ_SUCCESS then fst (pjsip_inv_send_msg E d w) else w)"

section \<open>The change of state\<close>

text \<open>The end of the session: its buffers, its usage of the dialog and its pools are given up.\<close>

definition inv_release :: "inv_world \<Rightarrow> inv_world" where
  "inv_release w =
     (let w = (case last_ack (inv w) of None \<Rightarrow> w | Some d \<Rightarrow> upd_inv (\<lambda>s. s\<lparr>last_ack := None\<rparr>) (td_ref (-1) d w));
          w = (case invite_req (inv w) of None \<Rightarrow> w | Some d \<Rightarrow> upd_inv (\<lambda>s. s\<lparr>invite_req := None\<rparr>) (td_ref (-1) d w));
          w = iw_emit Ended w
      in if pools_live (inv w) then upd_inv (\<lambda>s. s\<lparr>pools_live := False\<rparr>) w else iw_crash w)"

definition enter_inv_state :: "inv_env \<Rightarrow> pjsip_inv_state \<Rightarrow> inv_event \<Rightarrow> inv_world \<Rightarrow> inv_world" where
  "enter_inv_state E st e w =
     (let prev_state = inv_state (inv w);
          dont_notify = (st = PJSIP_INV_STATE_CALLING \<and> PJSIP_INV_STATE_CALLING \<in> cb_called (inv w));
          w = iw_emit (State_set prev_state st)
                (upd_inv (\<lambda>s. s\<lparr>inv_state := st, cb_called := insert st (cb_called s)\<rparr>) w);
          w = (if inv_notify (inv w) \<and> \<not> dont_notify
               then on_state_changed E e (iw_emit (State_cb st) w) else w)
      in if inv_state (inv w) = PJSIP_INV_STATE_DISCONNECTED \<and> prev_state \<noteq> PJSIP_INV_STATE_DISCONNECTED
         then inv_release w else w)"

definition inv_set_state :: "inv_env \<Rightarrow> pjsip_inv_state \<Rightarrow> inv_event \<Rightarrow> inv_world \<Rightarrow> inv_world" where
  "inv_set_state E st e w =
     (if st = PJSIP_INV_STATE_CONFIRMED then
        let (w, neg_st) = get_neg_state w
        in if neg_st \<noteq> PJMEDIA_SDP_NEG_STATE_DONE then end_and_send E 406 w
           else enter_inv_state E st e w
      else enter_inv_state E st e w)"

text \<open>\<^verbatim>\<open>inv_set_cause(...); inv_set_state(inv, PJSIP_INV_STATE_DISCONNECTED, e)\<close>.\<close>

definition inv_disconnect :: "inv_env \<Rightarrow> nat \<Rightarrow> inv_event \<Rightarrow> inv_world \<Rightarrow> inv_world" where
  "inv_disconnect E code e w = inv_set_state E PJSIP_INV_STATE_DISCONNECTED e (inv_set_cause code w)"

section \<open>The ACK\<close>

definition pjsip_inv_create_ack :: "inv_env \<Rightarrow> nat \<Rightarrow> inv_world \<Rightarrow> inv_world \<times> pj_status" where
  "pjsip_inv_create_ack E cs w =
     (let w = (case last_ack (inv w) of None \<Rightarrow> w
               | Some d \<Rightarrow> upd_inv (\<lambda>s. s\<lparr>last_ack := None\<rparr>) (td_ref (-1) d w));
          (w, status, d) = dlg_create_request E (plain_method PJSIP_ACK_METHOD) cs w
      in if status \<noteq> PJ_SUCCESS then (w, status)
         else
           let w = upd_inv (\<lambda>s. s\<lparr>last_ack := Some d\<rparr>) w;
               (w, sdp) = inv_has_pending_answer E (invite_tsx (inv w)) w;
               w = (if sdp \<noteq> None then set_body d sdp w else w);
               w = upd_inv (\<lambda>s. s\<lparr>last_ack_cseq := cs\<rparr>) w
           in (td_ref 1 d w, PJ_SUCCESS))"

definition rx_cseq_num :: "inv_rx_data \<Rightarrow> nat" where
  "rx_cseq_num rdata = (case rx_cseq rdata of None \<Rightarrow> 0 | Some h \<Rightarrow> cseq_num h)"

text \<open>The status of creating the ACK is not looked at.\<close>

definition send_last_ack :: "inv_env \<Rightarrow> inv_event \<Rightarrow> inv_world \<Rightarrow> inv_world \<times> pj_status" where
  "send_last_ack E e w =
     (case last_ack (inv w) of
        None \<Rightarrow> (iw_crash w, PJ_EUNKNOWN)
      | Some d \<Rightarrow>
          let (w, status) = send_request E d False w
          in if status \<noteq> PJ_SUCCESS then (w, status)
             else (if inv_state (inv w) < PJSIP_INV_STATE_CONFIRMED
                   then inv_set_state E PJSIP_INV_STATE_CONFIRMED e w else w, PJ_SUCCESS))"

definition event_rdata :: "inv_event \<Rightarrow> inv_rx_data option" where
  "event_rdata e = (case e of Ev_tsx t r \<Rightarrow> r | Ev_rx r \<Rightarrow> Some r | Ev_user \<Rightarrow> None)"

definition ack_is_cached :: "inv_rx_data \<Rightarrow> inv_world \<Rightarrow> bool" where
  "ack_is_cached rdata w =
     (case last_ack (inv w) of
        None \<Rightarrow> False
      | Some d \<Rightarrow> rx_cseq_num rdata = last_ack_cseq (inv w) \<and> \<not> tx_pending (iw_td w d))"

definition inv_send_ack :: "inv_env \<Rightarrow> inv_event \<Rightarrow> inv_world \<Rightarrow> inv_world \<times> pj_status" where
  "inv_send_ack E e w =
     (if e = Ev_user then (w, PJ_EBUG)
      else
        case event_rdata e of
          None \<Rightarrow> (iw_crash w, PJ_EUNKNOWN)
        | Some rdata \<Rightarrow>
            if ack_is_cached rdata w then send_last_ack E e (td_ref 1 (the (last_ack (inv w))) w)
            else
              case on_send_ack E of
                Some f \<Rightarrow> (f rdata w, PJ_SUCCESS)
              | None \<Rightarrow> send_last_ack E e (fst (pjsip_inv_create_ack E (rx_cseq_num rdata) w)))"

end
