(* ===== verification/Inv_Calls.thy ===== *)
theory Inv_Calls
  imports Inv_Session
begin

text \<open>
  Offers and answers in incoming messages, redirection, and the calls of the application
  (\<^verbatim>\<open>pjsip/src/pjsip-ua/sip_inv.c\<close>, and the target set of \<^verbatim>\<open>pjsip/src/pjsip/sip_util.c\<close>).
\<close>

section \<open>Incoming descriptions\<close>

text \<open>
  A second description in a transaction is ignored, except when a 2xx of another branch of a forked
  INVITE answers again: then the original offer is put back.
\<close>

definition reoffer_forked ::
    "inv_env \<Rightarrow> nat \<Rightarrow> inv_rx_data \<Rightarrow> tsx_inv_data \<Rightarrow> inv_world \<Rightarrow> inv_world \<times> pj_status option" where
  "reoffer_forked E t rdata d w =
     (if \<not> sdp_done d then (w, None)
      else if role (iw_tsx w t) = PJSIP_ROLE_UAC \<and> rx_code rdata div 100 = 2 \<and> done_early d
          \<and> done_tag d \<noteq> rd_to_tag rdata then
        case Option.bind (last_tx (iw_tsx w t)) (\<lambda>td. tx_body (iw_td w td)) of
          None \<Rightarrow> (iw_crash w, Some PJ_EUNKNOWN)
        | Some reoffer_sdp \<Rightarrow>
            let (w, status) = neg_do_prov E (Modify_local_offer reoffer_sdp) w
            in (w, if status \<noteq> PJ_SUCCESS then Some status else None)
      else (w, Some PJ_SUCCESS))"

definition take_remote_offer ::
    "inv_env \<Rightarrow> pjmedia_sdp_session \<Rightarrow> inv_world \<Rightarrow> inv_world \<times> pj_status" where
  "take_remote_offer E sdp w =
     (let (w, status) =
            (if inv_neg (inv w) = None then neg_create (pjmedia_sdp_neg_create_w_remote_offer None sdp) w
             else neg_do_prov E (Set_remote_offer sdp) w)
      in if status \<noteq> PJ_SUCCESS then (w, PJMEDIA_SDP_EINSDP)
         else
           let w = (if inv_notify (inv w) then on_rx_offer E sdp w else w);
               (w, neg_st) = get_neg_state w
           in (w, if neg_st \<noteq> PJMEDIA_SDP_NEG_STATE_WAIT_NEGO then PJ_EINVALIDOP else PJ_SUCCESS))"

definition take_remote_answer ::
    "inv_env \<Rightarrow> nat \<Rightarrow> inv_rx_data \<Rightarrow> pjmedia_sdp_session \<Rightarrow> inv_world \<Rightarrow> inv_world \<times> pj_status" where
  "take_remote_answer E t rdata sdp w =
     (let (w, status) = neg_do_prov E (Set_remote_answer sdp) w
      in if status \<noteq> PJ_SUCCESS then (w, PJMEDIA_SDP_EINSDP)
         else
           let (w, _) = inv_negotiate_sdp E w;
               d = \<lparr>sdp_done = True, done_tag = rd_to_tag rdata, done_early = (rx_code rdata div 100 = 1)\<rparr>
           in (upd_itsx t (\<lambda>x. x\<lparr>inv_data := Some d\<rparr>) w, PJ_SUCCESS))"

definition inv_check_sdp_in_incoming_msg ::
    "inv_env \<Rightarrow> nat \<Rightarrow> inv_rx_data \<Rightarrow> inv_world \<Rightarrow> inv_world \<times> pj_status" where
  "inv_check_sdp_in_incoming_msg E t rdata w =
     (if \<not> rd_body rdata then (w, PJ_SUCCESS)
      else if \<not> rd_sdp_body rdata then (w, PJMEDIA_SDP_EINSDP)
      else
        let w = attach_inv_data t w;
            (w, stop) = reoffer_forked E t rdata (the (inv_data (iw_tsx w t))) w
        in case stop of
             Some status \<Rightarrow> (w, status)
           | None \<Rightarrow>
               if rd_sdp_err rdata \<noteq> PJ_SUCCESS then (w, PJMEDIA_SDP_EINSDP)
               else
                 case rd_sdp rdata of
                   None \<Rightarrow> (iw_crash w, PJ_EUNKNOWN)
                 | Some sdp \<Rightarrow>
                     if inv_neg (inv w) = None \<or> neg_state_or_null w = PJMEDIA_SDP_NEG_STATE_DONE
                     then take_remote_offer E sdp w
                     else if neg_state_or_null w = PJMEDIA_SDP_NEG_STATE_LOCAL_OFFER
                     then take_remote_answer E t rdata sdp w
                     else (w, PJ_SUCCESS))"

text \<open>Withdrawing an offer that got no answer.\<close>

definition cancel_if_local_offer :: "inv_env \<Rightarrow> inv_world \<Rightarrow> inv_world" where
  "cancel_if_local_offer E w =
     (let (w, neg_st) = get_neg_state w
      in if neg_st = PJMEDIA_SDP_NEG_STATE_LOCAL_OFFER then fst (neg_do E Cancel_offer w) else w)"

section \<open>Restarting and redirection\<close>

definition drop_last_answer :: "inv_world \<Rightarrow> inv_world" where
  "drop_last_answer w =
     (case last_answer (inv w) of None \<Rightarrow> w
      | Some d \<Rightarrow> upd_inv (\<lambda>s. s\<lparr>last_answer := None\<rparr>) (td_ref (-1) d w))"

definition pjsip_inv_uac_restart :: "inv_env \<Rightarrow> bool \<Rightarrow> inv_world \<Rightarrow> inv_world" where
  "pjsip_inv_uac_restart E new_offer w =
     (let w = iw_emit Restarted (upd_inv (\<lambda>s. s\<lparr>inv_state := PJSIP_INV_STATE_NULL, invite_tsx := None\<rparr>) w);
          w = drop_last_answer w
      in if new_offer \<and> inv_neg (inv w) \<noteq> None \<and> neg_state_or_null w = PJMEDIA_SDP_NEG_STATE_LOCAL_OFFER
         then fst (neg_do E Cancel_offer w) else w)"

fun next_zero :: "pjsip_target list \<Rightarrow> nat \<Rightarrow> nat option" where
  "next_zero [] i = None"
| "next_zero (t # ts) i = (if target_code t = 0 then Some i else next_zero ts (Suc i))"

text \<open>The next target without a status, unless some target has succeeded or failed globally.\<close>

definition pjsip_target_set_get_next :: "pjsip_target list \<Rightarrow> nat option" where
  "pjsip_target_set_get_next ts =
     (if \<exists>t\<in>set ts. code_class (target_code t) 200 \<or> code_class (target_code t) 600 then None
      else next_zero ts 0)"

definition pjsip_target_assign_status :: "nat \<Rightarrow> nat \<Rightarrow> pjsip_target list \<Rightarrow> pjsip_target list" where
  "pjsip_target_assign_status i code ts = (if i < length ts then ts[i := (ts ! i)\<lparr>target_code := code\<rparr>] else ts)"

definition open_targets :: "pjsip_target list \<Rightarrow> nat" where
  "open_targets ts = length (filter (\<lambda>t. target_code t = 0) ts)"

lemma next_zero_Some: "next_zero ts i = Some j \<Longrightarrow> i \<le> j \<and> j - i < length ts \<and> target_code (ts ! (j - i)) = 0"
  by (induction ts arbitrary: i) (force simp: Suc_diff_le split: if_splits)+

lemma get_next_open:
  assumes "pjsip_target_set_get_next ts = Some i"
  shows "i < length ts" "target_code (ts ! i) = 0"
  using assms next_zero_Some [of ts 0 i] by (auto simp: pjsip_target_set_get_next_def split: if_splits)

lemma open_assign_less:
  assumes "i < length ts" "target_code (ts ! i) = 0" "code \<noteq> 0"
  shows "open_targets (pjsip_target_assign_status i code ts) < open_targets ts"
proof -
  have "ts = take i ts @ ts ! i # drop (Suc i) ts" using assms(1) by (rule id_take_nth_drop)
  then have "open_targets ts = open_targets (take i ts @ ts ! i # drop (Suc i) ts)" by (rule arg_cong)
  then have "open_targets ts = open_targets (take i ts) + Suc (open_targets (drop (Suc i) ts))"
    using assms(2) by (simp add: open_targets_def)
  moreover have "pjsip_target_assign_status i code ts =
      take i ts @ (ts ! i)\<lparr>target_code := code\<rparr> # drop (Suc i) ts"
    using assms(1) by (simp add: pjsip_target_assign_status_def upd_conv_take_nth_drop)
  ultimately show ?thesis using assms(3) by (simp add: open_targets_def)
qed

text \<open>
  The search for the next target: URIs of another scheme get 416, targets the application rejects get
  487. \<open>decide\<close> is the application's decision on a target, \<open>cur\<close> the current one.
\<close>

function next_target ::
    "(nat \<Rightarrow> pjsip_redirect_op) \<Rightarrow> nat \<Rightarrow> pjsip_target list \<Rightarrow> pjsip_target list \<times> nat \<times> pjsip_redirect_op option" where
  "next_target decide cur ts =
     (case pjsip_target_set_get_next ts of
        None \<Rightarrow> (ts, cur, None)
      | Some i \<Rightarrow>
          if \<not> target_is_sip (ts ! i) then next_target decide cur (pjsip_target_assign_status i 416 ts)
          else if decide i = PJSIP_REDIRECT_REJECT then next_target decide i (pjsip_target_assign_status i 487 ts)
          else (ts, i, Some (decide i)))"
  by pat_completeness auto
termination
  by (relation "measure (\<lambda>(decide, cur, ts). open_targets ts)") (auto intro: open_assign_less get_next_open)

declare next_target.simps [simp del]

text \<open>Acting on a decision to go on or to stop: \<^verbatim>\<open>pjsip_inv_process_redirect\<close> without its recursion.\<close>

definition redirect_act :: "inv_env \<Rightarrow> pjsip_redirect_op \<Rightarrow> inv_event \<Rightarrow> inv_world \<Rightarrow> inv_world \<times> pj_status" where
  "redirect_act E op e w =
     (let w = iw_emit Dec_session w
      in if op = PJSIP_REDIRECT_ACCEPT then
           (case invite_req (inv w) of
              None \<Rightarrow> (iw_crash w, PJ_EUNKNOWN)
            | Some d \<Rightarrow> pjsip_inv_send_msg E d (pjsip_inv_uac_restart E False (td_ref 1 d w)))
         else (inv_disconnect E 487 e w, PJ_SUCCESS))"

definition inv_uac_recurse :: "inv_env \<Rightarrow> nat \<Rightarrow> inv_event \<Rightarrow> inv_world \<Rightarrow> inv_world \<times> bool" where
  "inv_uac_recurse E code e w =
     (case on_redirected E of
        None \<Rightarrow> (w, False)
      | Some decide \<Rightarrow>
          let (ts, cur, found) =
                next_target decide (cur_target w) (pjsip_target_assign_status (cur_target w) code (targets w));
              w = w\<lparr>targets := ts, cur_target := cur\<rparr>
          in case found of
               None \<Rightarrow> (w, False)
             | Some op \<Rightarrow>
                 let w = iw_emit Inc_session w
                 in if op = PJSIP_REDIRECT_PENDING then (upd_inv (\<lambda>s. s\<lparr>invite_tsx := None\<rparr>) w, True)
                    else (fst (redirect_act E op e w), True))"

definition pjsip_inv_process_redirect ::
    "inv_env \<Rightarrow> pjsip_redirect_op \<Rightarrow> inv_event \<Rightarrow> inv_world \<Rightarrow> inv_world \<times> pj_status" where
  "pjsip_inv_process_redirect E op e w =
     (if assert_fails (op \<noteq> PJSIP_REDIRECT_PENDING) then (w, PJ_EINVAL)
      else if op = PJSIP_REDIRECT_REJECT then
        let (w, found) = inv_uac_recurse E 487 Ev_user (iw_emit Dec_session w)
        in if found then (w, PJ_SUCCESS) else (inv_disconnect E 487 e w, PJSIP_ESESSIONTERMINATED)
      else if op = PJSIP_REDIRECT_PENDING then (iw_emit Dec_session w, PJ_SUCCESS)
      else redirect_act E op e w)"

section \<open>Calls of the application\<close>

text \<open>
  Creating a session. The two descriptions of the role are all that differs; \<open>start_session\<close> is the new
  structure, \<open>options\<close> the two extensions that may be required.
\<close>

definition start_session :: "pjsip_role_e \<Rightarrow> bool \<times> bool \<Rightarrow> pjsip_inv_session" where
  "start_session r options =
     \<lparr>inv_state = PJSIP_INV_STATE_NULL, cancelling = False, pending_cancel = False, inv_cause = 0,
      inv_notify = True, cb_called = {}, inv_role = r, require_100rel = fst options,
      require_timer = snd options, inv_neg = None, invite_tsx = None, invite_req = None,
      last_answer = None, last_ack = None, last_ack_cseq = 0, pools_live = True\<rparr>"

definition pjsip_inv_create_uac ::
    "inv_env \<Rightarrow> pjmedia_sdp_session option \<Rightarrow> bool \<times> bool \<Rightarrow> inv_world \<Rightarrow> inv_world \<times> pj_status" where
  "pjsip_inv_create_uac E local_sdp options w =
     (let w = w\<lparr>inv := start_session PJSIP_ROLE_UAC options\<rparr>;
          (w, status) = (case local_sdp of None \<Rightarrow> (w, PJ_SUCCESS)
                         | Some l \<Rightarrow> neg_create (pjmedia_sdp_neg_create_w_local_offer l) w)
      in if status \<noteq> PJ_SUCCESS then (w, status)
         else if add_usage_status E w \<noteq> PJ_SUCCESS then (w, add_usage_status E w)
         else (iw_emit Inc_session w, PJ_SUCCESS))"

definition pjsip_inv_create_uas ::
    "inv_env \<Rightarrow> inv_rx_data \<Rightarrow> pjmedia_sdp_session option \<Rightarrow> bool \<times> bool \<Rightarrow> inv_world
     \<Rightarrow> inv_world \<times> pj_status" where
  "pjsip_inv_create_uas E rdata local_sdp options w =
     (if assert_fails (rx_type rdata = PJSIP_REQUEST_MSG \<and> method_id (rx_method rdata) = PJSIP_INVITE_METHOD)
      then (w, PJ_EINVALIDOP)
      else
        let w = w\<lparr>inv := start_session PJSIP_ROLE_UAS options\<rparr>
        in if rd_sdp_err rdata \<noteq> PJ_SUCCESS then (w, rd_sdp_err rdata)
           else
             let (w, status) =
                   (case rd_sdp rdata of
                      Some remote \<Rightarrow> neg_create (pjmedia_sdp_neg_create_w_remote_offer local_sdp remote) w
                    | None \<Rightarrow>
                        (case local_sdp of
                           Some l \<Rightarrow> neg_create (pjmedia_sdp_neg_create_w_local_offer l) w
                         | None \<Rightarrow> (w, PJ_SUCCESS)))
             in if status \<noteq> PJ_SUCCESS then (w, status)
                else if add_usage_status E w \<noteq> PJ_SUCCESS then (w, add_usage_status E w)
                else
                  let w = iw_emit Inc_session w;
                      t = rd_tsx rdata;
                      w = upd_inv (\<lambda>s. s\<lparr>invite_tsx := Some t\<rparr>) w;
                      d = \<lparr>sdp_done = False, done_tag = [], done_early = False\<rparr>
                  in (upd_itsx t (\<lambda>x. x\<lparr>inv_data := Some d\<rparr>) w, PJ_SUCCESS))"

definition pjsip_inv_terminate :: "inv_env \<Rightarrow> nat \<Rightarrow> bool \<Rightarrow> inv_world \<Rightarrow> inv_world" where
  "pjsip_inv_terminate E st_code notify w =
     (let w = upd_inv (\<lambda>s. s\<lparr>inv_notify := notify\<rparr>) w;
          w = (case invite_tsx (inv w) of
                 None \<Rightarrow> w
               | Some t \<Rightarrow> if state (iw_tsx w t) \<le> PJSIP_TSX_STATE_COMPLETED
                            then tsx_terminate_call E t st_code w else w);
          w = inv_set_cause st_code w
      in if inv_state (inv w) \<noteq> PJSIP_INV_STATE_DISCONNECTED
         then inv_set_state E PJSIP_INV_STATE_DISCONNECTED Ev_user w else w)"

text \<open>The INVITE carries the local offer, or the answer that waits to be negotiated.\<close>

definition invite_has_sdp :: "inv_world \<Rightarrow> bool" where
  "invite_has_sdp w \<longleftrightarrow> inv_neg (inv w) \<noteq> None \<and>
     (neg_state_or_null w = PJMEDIA_SDP_NEG_STATE_LOCAL_OFFER \<or>
      (neg_state_or_null w = PJMEDIA_SDP_NEG_STATE_WAIT_NEGO \<and> neg_has_local_answer w))"

definition pjsip_inv_invite :: "inv_env \<Rightarrow> inv_world \<Rightarrow> inv_world \<times> pj_status \<times> nat option" where
  "pjsip_inv_invite E w =
     (if assert_fails (inv_state (inv w) = PJSIP_INV_STATE_NULL \<or> inv_state (inv w) = PJSIP_INV_STATE_CONFIRMED)
      then (w, PJ_EINVALIDOP, None)
      else
        let (w, status, d) = dlg_create_request E (plain_method PJSIP_INVITE_METHOD) 0 w
        in if status \<noteq> PJ_SUCCESS then (w, status, None)
           else
             let w = (if invite_has_sdp w then
                        case neg_local_of w of None \<Rightarrow> iw_crash w | Some sdp \<Rightarrow> set_body d (Some sdp) w
                      else w);
                 (w, status) = timer_update_req E d w
             in if status \<noteq> PJ_SUCCESS then (w, status, None) else (w, PJ_SUCCESS, Some d))"

text \<open>\<open>contact\<close> tells whether a new contact is given and can be parsed.\<close>

definition reinvite_offer :: "inv_env \<Rightarrow> pjmedia_sdp_session \<Rightarrow> inv_world \<Rightarrow> inv_world \<times> pj_status" where
  "reinvite_offer E offer w =
     (if inv_neg (inv w) = None then neg_create (pjmedia_sdp_neg_create_w_local_offer offer) w
      else
        case neg_state_or_null w of
          PJMEDIA_SDP_NEG_STATE_NULL \<Rightarrow> (w, PJ_EBUG)
        | PJMEDIA_SDP_NEG_STATE_REMOTE_OFFER \<Rightarrow> neg_do_prov E (Set_local_answer (Some offer)) w
        | PJMEDIA_SDP_NEG_STATE_DONE \<Rightarrow> neg_do_prov E (Modify_local_offer offer) w
        | _ \<Rightarrow> (w, PJ_SUCCESS))"

definition pjsip_inv_reinvite ::
    "inv_env \<Rightarrow> bool option \<Rightarrow> pjmedia_sdp_session option \<Rightarrow> inv_world
     \<Rightarrow> inv_world \<times> pj_status \<times> nat option" where
  "pjsip_inv_reinvite E contact new_offer w =
     (if invite_tsx (inv w) \<noteq> None then (w, PJ_EINVALIDOP, None)
      else if contact = Some False then (w, PJSIP_EINVALIDURI, None)
      else
        let (w, status) = (case new_offer of None \<Rightarrow> (w, PJ_SUCCESS) | Some offer \<Rightarrow> reinvite_offer E offer w)
        in if status \<noteq> PJ_SUCCESS then (w, status, None) else pjsip_inv_invite E w)"

definition pjsip_inv_update ::
    "inv_env \<Rightarrow> bool option \<Rightarrow> pjmedia_sdp_session option \<Rightarrow> inv_world
     \<Rightarrow> inv_world \<times> pj_status \<times> nat option" where
  "pjsip_inv_update E contact offer w =
     (if assert_fails (dlg_established w) then (w, PJ_EINVALIDOP, None)
      else if assert_fails (inv_state (inv w) < PJSIP_INV_STATE_DISCONNECTED) then (w, PJ_EINVALIDOP, None)
      else
        let (w, status) =
              (case offer of
                 None \<Rightarrow> (w, PJ_SUCCESS)
               | Some l \<Rightarrow>
                   let (w, neg_st) = get_neg_state w
                   in if neg_st \<noteq> PJMEDIA_SDP_NEG_STATE_DONE then (w, PJ_EINVALIDOP)
                      else neg_do_prov E (Modify_local_offer l) w)
        in if status \<noteq> PJ_SUCCESS then (w, status, None)
           else if contact = Some False then (w, PJSIP_EINVALIDURI, None)
           else
             let sdp = neg_local_of w;
                 (w, status, d) = dlg_create_request E pjsip_update_method 0 w
             in if status \<noteq> PJ_SUCCESS then (w, status, None)
                else
                  let w = (if offer \<noteq> None then set_body d sdp w else w);
                      (w, status) = timer_update_req E d w
                  in if status \<noteq> PJ_SUCCESS then (td_ref (-1) d w, status, None)
                     else (w, PJ_SUCCESS, Some d))"

definition pjsip_inv_set_sdp_answer :: "inv_env \<Rightarrow> pjmedia_sdp_session \<Rightarrow> inv_world \<Rightarrow> inv_world \<times> pj_status" where
  "pjsip_inv_set_sdp_answer E sdp w = neg_do_prov E (Set_local_answer (Some sdp)) w"

definition pjsip_inv_set_local_sdp :: "inv_env \<Rightarrow> pjmedia_sdp_session \<Rightarrow> inv_world \<Rightarrow> inv_world \<times> pj_status" where
  "pjsip_inv_set_local_sdp E sdp w =
     (case inv_neg (inv w) of
        None \<Rightarrow> neg_create (pjmedia_sdp_neg_create_w_local_offer sdp) w
      | Some n \<Rightarrow>
          if neg_state n = PJMEDIA_SDP_NEG_STATE_REMOTE_OFFER \<or> neg_state n = PJMEDIA_SDP_NEG_STATE_WAIT_NEGO
          then pjsip_inv_set_sdp_answer E sdp w
          else if neg_state n = PJMEDIA_SDP_NEG_STATE_DONE then neg_do E (Modify_local_offer sdp) w
          else (w, PJMEDIA_SDPNEG_EINSTATE))"

end
