(* ===== verification/Inv_Handlers.thy ===== *)
theory Inv_Handlers
  imports Inv_Calls
begin

text \<open>
  The event handlers of an INVITE session (\<^verbatim>\<open>pjsip/src/pjsip-ua/sip_inv.c\<close>), one per state, the requests
  they respond to, and the callbacks of the module.
\<close>

section \<open>Responding to requests\<close>

definition respond_with :: "inv_env \<Rightarrow> nat \<Rightarrow> inv_rx_data \<Rightarrow> nat \<Rightarrow> inv_world \<Rightarrow> inv_world \<times> pj_status" where
  "respond_with E t rdata code w =
     (let (w, status, d) = dlg_create_response E rdata code w
      in if status \<noteq> PJ_SUCCESS then (w, status) else send_response E t d w)"

text \<open>A CANCEL is answered, and an INVITE that is still open gets 487 in its last response.\<close>

definition terminate_invite_487 :: "inv_env \<Rightarrow> nat \<Rightarrow> inv_world \<Rightarrow> inv_world" where
  "terminate_invite_487 E t w =
     (case last_tx (iw_tsx w t) of
        None \<Rightarrow> iw_crash w
      | Some d \<Rightarrow>
          let (w, status) = dlg_modify_response d 487 w
          in if status = PJ_SUCCESS then
               let w = set_body d None w
               in fst (if require_100rel (inv w) then rel_tx_response E d w else send_response E t d w)
             else w)"

definition inv_respond_incoming_cancel :: "inv_env \<Rightarrow> nat \<Rightarrow> inv_rx_data \<Rightarrow> inv_world \<Rightarrow> inv_world" where
  "inv_respond_incoming_cancel E cancel_tsx rdata w =
     (let found = find_invite_tsx E rdata w;
          (w, status) = respond_with E cancel_tsx rdata (if found = None then 481 else 200) w
      in if status \<noteq> PJ_SUCCESS then w
         else
           case found of
             None \<Rightarrow> w
           | Some t \<Rightarrow> if status_code (iw_tsx w t) < 200 then terminate_invite_487 E t w else w)"

definition inv_respond_incoming_bye :: "inv_env \<Rightarrow> nat \<Rightarrow> inv_rx_data \<Rightarrow> inv_event \<Rightarrow> inv_world \<Rightarrow> inv_world" where
  "inv_respond_incoming_bye E bye_tsx rdata e w =
     (let (w, status) = respond_with E bye_tsx rdata 200 w
      in if status \<noteq> PJ_SUCCESS then w
         else if inv_state (inv w) \<noteq> PJSIP_INV_STATE_DISCONNECTED then inv_disconnect E 200 e w
         else w)"

definition inv_handle_bye_response ::
    "inv_env \<Rightarrow> nat \<Rightarrow> inv_rx_data option \<Rightarrow> inv_event \<Rightarrow> inv_world \<Rightarrow> inv_world" where
  "inv_handle_bye_response E t rdata e w =
     (case rdata of
        None \<Rightarrow> inv_disconnect E 200 e w
      | Some rdata \<Rightarrow>
          if status_code (iw_tsx w t) = 401 \<or> status_code (iw_tsx w t) = 407 then
            let (w, status, d) = auth_reinit_req E rdata t w
            in if status \<noteq> PJ_SUCCESS then inv_disconnect E 200 e w else fst (pjsip_inv_send_msg E d w)
          else inv_disconnect E 200 e w)"

text \<open>The session timer reads a response; a failure may end the session.\<close>

definition handle_timer_response :: "inv_env \<Rightarrow> inv_rx_data option \<Rightarrow> bool \<Rightarrow> inv_world \<Rightarrow> inv_world \<times> pj_status" where
  "handle_timer_response E rdata end_sess_on_failure w =
     (case rdata of
        None \<Rightarrow> (iw_crash w, PJ_EUNKNOWN)
      | Some rdata \<Rightarrow>
          let (w, status, st_code) = timer_process_resp E rdata w
          in (if status \<noteq> PJ_SUCCESS \<and> end_sess_on_failure then end_and_send E st_code w else w, status))"

section \<open>UPDATE and PRACK\<close>

text \<open>The response to an UPDATE with an offer, after the application had its say.\<close>

definition negotiate_update ::
    "inv_env \<Rightarrow> inv_rx_data \<Rightarrow> inv_world \<Rightarrow> inv_world \<times> pj_status \<times> nat" where
  "negotiate_update E rdata w =
     (let (w, _) = inv_check_sdp_in_incoming_msg E (rd_tsx rdata) rdata w;
          (w, neg_st) = get_neg_state w;
          (w, ok) = (if neg_st \<noteq> PJMEDIA_SDP_NEG_STATE_WAIT_NEGO then (w, False)
                     else let (w, status) = inv_negotiate_sdp E w in (w, status = PJ_SUCCESS))
      in if \<not> ok then
           let (w, neg_st) = get_neg_state w;
               w = (if neg_st \<noteq> PJMEDIA_SDP_NEG_STATE_DONE then fst (neg_do E Cancel_offer w) else w)
           in dlg_create_response E rdata 488 w
         else
           let (w, status, d) = dlg_create_response E rdata 200 w
           in (if status = PJ_SUCCESS then set_body d (neg_active_local_of w) w else w, status, d))"

definition update_response ::
    "inv_env \<Rightarrow> inv_rx_data \<Rightarrow> inv_world \<Rightarrow> inv_world \<times> pj_status \<times> nat" where
  "update_response E rdata w =
     (let (w, neg_st) = get_neg_state w
      in if neg_st = PJMEDIA_SDP_NEG_STATE_LOCAL_OFFER then dlg_create_response E rdata 491 w
         else if neg_st = PJMEDIA_SDP_NEG_STATE_REMOTE_OFFER \<or> neg_st = PJMEDIA_SDP_NEG_STATE_WAIT_NEGO
           then dlg_create_response E rdata 500 w
         else if \<not> rd_body rdata then dlg_create_response E rdata 200 w
         else negotiate_update E rdata w)"

definition inv_respond_incoming_update :: "inv_env \<Rightarrow> inv_rx_data \<Rightarrow> inv_world \<Rightarrow> inv_world" where
  "inv_respond_incoming_update E rdata w =
     (let (w, status, st_code) = timer_process_req E rdata w;
          (w, status, d) = (if status \<noteq> PJ_SUCCESS then dlg_create_response E rdata st_code w
                            else update_response E rdata w)
      in if status \<noteq> PJ_SUCCESS then w
         else
           let (w, status) = timer_update_resp E d w
           in if status \<noteq> PJ_SUCCESS then td_ref (-1) d w
              else fst (send_response E (rd_tsx rdata) d w))"

text \<open>The slot of the transaction is only looked at on the last branch; elsewhere no offer is withdrawn.\<close>

definition withdraw_unanswered :: "inv_env \<Rightarrow> nat \<Rightarrow> inv_world \<Rightarrow> inv_world" where
  "withdraw_unanswered E t w =
     (let w = attach_inv_data t w;
          (w, neg_st) = get_neg_state w
      in if neg_st = PJMEDIA_SDP_NEG_STATE_LOCAL_OFFER \<and> \<not> sdp_done (the (inv_data (iw_tsx w t)))
         then mark_sdp_done t (fst (neg_do E Cancel_offer w)) else w)"

definition inv_handle_update_response :: "inv_env \<Rightarrow> nat \<Rightarrow> inv_rx_data option \<Rightarrow> inv_world \<Rightarrow> inv_world" where
  "inv_handle_update_response E t rdata w =
     (let completed = (state (iw_tsx w t) = PJSIP_TSX_STATE_COMPLETED);
          code = status_code (iw_tsx w t)
      in if completed \<and> (code = 401 \<or> code = 407) then
           (case rdata of
              None \<Rightarrow> iw_crash w
            | Some r \<Rightarrow>
                let (w, status, d) = auth_reinit_req E r t w;
                    w = (if status = PJ_SUCCESS then fst (pjsip_inv_send_msg E d w) else w)
                in fst (get_neg_state w))
         else if completed \<and> code = 422 then
           fst (get_neg_state (fst (handle_timer_response E rdata False w)))
         else if completed \<and> code div 100 = 2 \<and> rdata = None then iw_crash w
         else if completed \<and> code div 100 = 2 \<and> rd_body (the rdata) then
           let (w, _) = handle_timer_response E rdata False w;
               (w, _) = inv_check_sdp_in_incoming_msg E t (the rdata) w
           in fst (get_neg_state w)
         else
           withdraw_unanswered E t
             (if completed \<and> role (iw_tsx w t) = PJSIP_ROLE_UAC
              then fst (handle_timer_response E rdata False w) else w))"

definition inv_handle_incoming_reliable_response :: "inv_env \<Rightarrow> inv_rx_data \<Rightarrow> inv_world \<Rightarrow> inv_world" where
  "inv_handle_incoming_reliable_response E rdata w =
     (let (w, status, d) = rel_create_prack E rdata w
      in if status \<noteq> PJ_SUCCESS then w
         else
           let (w, sdp) = inv_has_pending_answer E (Some (rd_tsx rdata)) w;
               w = (if sdp \<noteq> None then set_body d sdp w else w)
           in rel_send_prack E d w)"

definition inv_respond_incoming_prack :: "inv_env \<Rightarrow> inv_rx_data \<Rightarrow> inv_world \<Rightarrow> inv_world" where
  "inv_respond_incoming_prack E rdata w =
     (let (w, status) = rel_on_rx_prack E rdata w
      in if status \<noteq> PJ_SUCCESS \<or> \<not> rd_body rdata then w
         else
           let (w, status) = inv_check_sdp_in_incoming_msg E (rd_tsx rdata) rdata w
           in case invite_tsx (inv w) of
                None \<Rightarrow> w
              | Some t \<Rightarrow> if status = PJ_SUCCESS then mark_sdp_done t (attach_inv_data t w) else w)"

section \<open>Responses to requests of the session\<close>

definition resend_with_auth :: "inv_env \<Rightarrow> nat \<Rightarrow> inv_rx_data option \<Rightarrow> inv_world \<Rightarrow> inv_world" where
  "resend_with_auth E t rdata w =
     (case rdata of
        None \<Rightarrow> iw_crash w
      | Some r \<Rightarrow>
          let (w, status, d) = auth_reinit_req E r t w
          in if status = PJ_SUCCESS then fst (pjsip_inv_send_msg E d w) else w)"

definition handle_uac_tsx_response ::
    "inv_env \<Rightarrow> nat \<Rightarrow> inv_rx_data option \<Rightarrow> inv_event \<Rightarrow> inv_world \<Rightarrow> inv_world \<times> bool" where
  "handle_uac_tsx_response E t rdata e w =
     (let code = status_code (iw_tsx w t);
          m = method_id (tsx_method (iw_tsx w t));
          completed = (state (iw_tsx w t) = PJSIP_TSX_STATE_COMPLETED)
      in if inv_state (inv w) \<noteq> PJSIP_INV_STATE_DISCONNECTED \<and>
            (code = 481 \<and> m \<noteq> PJSIP_CANCEL_METHOD \<or> code = 408 \<or> code = PJSIP_SC_TSX_TIMEOUT
              \<or> code = PJSIP_SC_TSX_TRANSPORT_ERROR) then
           let w = inv_disconnect E code e w;
               (w, status, bye) = dlg_create_request E (plain_method PJSIP_BYE_METHOD) 0 w
           in (if status = PJ_SUCCESS then fst (pjsip_inv_send_msg E bye w) else w, True)
         else if completed \<and> (code = 401 \<or> code = 407) then
           (resend_with_auth E t rdata
              (if m = PJSIP_INVITE_METHOD then upd_inv (\<lambda>s. s\<lparr>invite_tsx := None\<rparr>) w else w), True)
         else if completed \<and> code = 422 then (fst (handle_timer_response E rdata False w), True)
         else (w, False))"

text \<open>A rejected call goes to the next target, is sent again with credentials, or ends.\<close>

definition recurse_or_end :: "inv_env \<Rightarrow> nat \<Rightarrow> inv_event \<Rightarrow> inv_world \<Rightarrow> inv_world" where
  "recurse_or_end E code e w =
     (let (w, found) = inv_uac_recurse E code e w in if found then w else inv_disconnect E code e w)"

definition handle_uac_call_rejection ::
    "inv_env \<Rightarrow> nat \<Rightarrow> inv_rx_data option \<Rightarrow> inv_event \<Rightarrow> inv_world \<Rightarrow> inv_world" where
  "handle_uac_call_rejection E t rdata e w =
     (let code = status_code (iw_tsx w t)
      in if code_class code 300 then
           if on_redirected E = None then inv_disconnect E code e w
           else
             (case rdata of
                None \<Rightarrow> iw_crash w
              | Some r \<Rightarrow> recurse_or_end E code e (w\<lparr>targets := targets w @ targets_of E r\<rparr>))
         else if (code = 401 \<or> code = 407) \<and> \<not> cancelling (inv w) then
           (case rdata of
              None \<Rightarrow> iw_crash w
            | Some r \<Rightarrow>
                let (w, status, d) = auth_reinit_req E r t w
                in if status \<noteq> PJ_SUCCESS then recurse_or_end E code e w
                   else fst (pjsip_inv_send_msg E d (pjsip_inv_uac_restart E False w)))
         else if state (iw_tsx w t) = PJSIP_TSX_STATE_COMPLETED \<and> code = 422 then
           fst (handle_timer_response E rdata True w)
         else if code_class code 600 then inv_disconnect E code e w
         else recurse_or_end E code e w)"

end
