(* ===== verification/Inv_States.thy ===== *)
theory Inv_States
  imports Inv_Handlers
begin

text \<open>
  The handlers of the states of an INVITE session and the callbacks of its module
  (\<^verbatim>\<open>pjsip/src/pjsip-ua/sip_inv.c\<close>). \<open>t\<close> is the transaction of the event and \<open>rdata\<close> its message, if
  the event was made by one.
\<close>

section \<open>Before the session is confirmed\<close>

text \<open>A provisional response, which may carry a description and may have to be acknowledged.\<close>

definition take_provisional :: "inv_env \<Rightarrow> nat \<Rightarrow> inv_rx_data option \<Rightarrow> inv_world \<Rightarrow> inv_world" where
  "take_provisional E t rdata w =
     (case rdata of
        None \<Rightarrow> iw_crash w
      | Some r \<Rightarrow>
          let (w, _) = inv_check_sdp_in_incoming_msg E t r w
          in if rel_is_reliable E r then inv_handle_incoming_reliable_response E r w else w)"

definition calling_proceeding :: "inv_env \<Rightarrow> nat \<Rightarrow> inv_rx_data option \<Rightarrow> inv_world \<Rightarrow> inv_world" where
  "calling_proceeding E t rdata w =
     (let w = (if pending_cancel (inv w)
               then end_and_send E 487 (upd_inv (\<lambda>s. s\<lparr>pending_cancel := False\<rparr>) w) else w)
      in if remote_tag w
         then take_provisional E t rdata (inv_set_state E PJSIP_INV_STATE_EARLY (Ev_tsx t rdata) w)
         else w)"

text \<open>A 2xx to the INVITE: the timer headers, CONNECTING, the description, and the ACK.\<close>

definition calling_success :: "inv_env \<Rightarrow> nat \<Rightarrow> inv_rx_data option \<Rightarrow> bool \<Rightarrow> inv_world \<Rightarrow> inv_world" where
  "calling_success E t rdata send w =
     (let (w, status) = handle_timer_response E rdata True w
      in if status \<noteq> PJ_SUCCESS then w
         else
           let w = inv_set_state E PJSIP_INV_STATE_CONNECTING (Ev_tsx t rdata) w;
               (w, _) = inv_check_sdp_in_incoming_msg E t (the rdata) w
           in if send then fst (inv_send_ack E (Ev_tsx t rdata) w) else w)"

text \<open>The codes of a request of the session that end it: its dialog is gone, or it was not answered.\<close>

definition ends_usage :: "inv_transaction \<Rightarrow> bool" where
  "ends_usage x \<longleftrightarrow>
     (status_code x = 481 \<and> method_id (tsx_method x) \<noteq> PJSIP_CANCEL_METHOD) \<or> status_code x = 408 \<or>
     status_code x = PJSIP_SC_TSX_TIMEOUT \<or> status_code x = PJSIP_SC_TSX_TRANSPORT_ERROR"

definition inv_on_state_calling :: "inv_env \<Rightarrow> nat \<Rightarrow> inv_rx_data option \<Rightarrow> inv_world \<Rightarrow> inv_world" where
  "inv_on_state_calling E t rdata w =
     (let x = iw_tsx w t; e = Ev_tsx t rdata
      in if Some t = invite_tsx (inv w) then
           (case state x of
              PJSIP_TSX_STATE_CALLING \<Rightarrow> inv_set_state E PJSIP_INV_STATE_CALLING e w
            | PJSIP_TSX_STATE_PROCEEDING \<Rightarrow> calling_proceeding E t rdata w
            | PJSIP_TSX_STATE_COMPLETED \<Rightarrow>
                if status_code x div 100 = 2 then calling_success E t rdata False w
                else handle_uac_call_rejection E t rdata e w
            | PJSIP_TSX_STATE_TERMINATED \<Rightarrow>
                if status_code x div 100 = 2 then calling_success E t rdata True w
                else inv_disconnect E (status_code x) e w
            | _ \<Rightarrow> w)
         else if role x = PJSIP_ROLE_UAC \<and> ends_usage x then inv_disconnect E (status_code x) e w
         else w)"

definition inv_on_state_incoming :: "inv_env \<Rightarrow> nat \<Rightarrow> inv_rx_data option \<Rightarrow> inv_world \<Rightarrow> inv_world" where
  "inv_on_state_incoming E t rdata w =
     (let x = iw_tsx w t; e = Ev_tsx t rdata
      in if Some t = invite_tsx (inv w) then
           (case state x of
              PJSIP_TSX_STATE_TRYING \<Rightarrow> inv_set_state E PJSIP_INV_STATE_INCOMING e w
            | PJSIP_TSX_STATE_PROCEEDING \<Rightarrow>
                if 100 < status_code x then inv_set_state E PJSIP_INV_STATE_EARLY e w else w
            | PJSIP_TSX_STATE_COMPLETED \<Rightarrow>
                if status_code x div 100 = 2 then inv_set_state E PJSIP_INV_STATE_CONNECTING e w
                else inv_disconnect E (status_code x) e w
            | PJSIP_TSX_STATE_TERMINATED \<Rightarrow> inv_disconnect E (status_code x) e w
            | _ \<Rightarrow> w)
         else
           case rdata of
             Some r \<Rightarrow>
               if method_id (tsx_method x) = PJSIP_CANCEL_METHOD \<and> role x = PJSIP_ROLE_UAS
                  \<and> state x < PJSIP_TSX_STATE_COMPLETED
               then inv_respond_incoming_cancel E t r w else w
           | None \<Rightarrow> w)"

text \<open>The INVITE is handed to the session; a redirected call needs the request again.\<close>

definition save_invite_req :: "inv_env \<Rightarrow> nat \<Rightarrow> inv_world \<Rightarrow> inv_world" where
  "save_invite_req E t w =
     (if on_redirected E = None then w
      else
        let w = (case invite_req (inv w) of None \<Rightarrow> w
                 | Some d \<Rightarrow> upd_inv (\<lambda>s. s\<lparr>invite_req := None\<rparr>) (td_ref (-1) d w))
        in case last_tx (iw_tsx w t) of
             None \<Rightarrow> iw_crash w
           | Some d \<Rightarrow> td_ref 1 d (upd_inv (\<lambda>s. s\<lparr>invite_req := Some d\<rparr>) w))"

definition inv_on_state_null :: "inv_env \<Rightarrow> nat \<Rightarrow> inv_rx_data option \<Rightarrow> inv_world \<Rightarrow> inv_world" where
  "inv_on_state_null E t rdata w =
     (let x = iw_tsx w t; e = Ev_tsx t rdata
      in if method_id (tsx_method x) \<noteq> PJSIP_INVITE_METHOD then w
         else
           let w = (if invite_tsx (inv w) = None then upd_inv (\<lambda>s. s\<lparr>invite_tsx := Some t\<rparr>) w else w)
           in if dlg_role w = PJSIP_ROLE_UAC then
                let w = save_invite_req E t w
                in if state x = PJSIP_TSX_STATE_CALLING then inv_set_state E PJSIP_INV_STATE_CALLING e w
                   else inv_on_state_calling E t rdata w
              else
                case state x of
                  PJSIP_TSX_STATE_TRYING \<Rightarrow> inv_set_state E PJSIP_INV_STATE_INCOMING e w
                | PJSIP_TSX_STATE_PROCEEDING \<Rightarrow>
                    let w = inv_set_state E PJSIP_INV_STATE_INCOMING e w
                    in if 100 < status_code (iw_tsx w t) \<and> status_code (iw_tsx w t) < 200
                       then inv_set_state E PJSIP_INV_STATE_EARLY e w else w
                | PJSIP_TSX_STATE_TERMINATED \<Rightarrow> inv_disconnect E (status_code x) e w
                | _ \<Rightarrow> inv_on_state_incoming E t rdata w)"

text \<open>A 2xx in EARLY: the state goes first, and a UAC sends the ACK.\<close>

definition early_success :: "inv_env \<Rightarrow> nat \<Rightarrow> inv_rx_data option \<Rightarrow> bool \<Rightarrow> inv_world \<Rightarrow> inv_world" where
  "early_success E t rdata final w =
     (let e = Ev_tsx t rdata;
          w = inv_set_state E PJSIP_INV_STATE_CONNECTING e w;
          (w, status) = (if rdata = None then (w, PJ_SUCCESS) else handle_timer_response E rdata True w)
      in if status \<noteq> PJ_SUCCESS then w
         else
           let w = (case rdata of None \<Rightarrow> w | Some r \<Rightarrow> fst (inv_check_sdp_in_incoming_msg E t r w))
           in if final \<and> role (iw_tsx w t) = PJSIP_ROLE_UAC then fst (inv_send_ack E e w) else w)"

definition early_invite :: "inv_env \<Rightarrow> nat \<Rightarrow> inv_rx_data option \<Rightarrow> inv_world \<Rightarrow> inv_world" where
  "early_invite E t rdata w =
     (let x = iw_tsx w t; e = Ev_tsx t rdata
      in case state x of
           PJSIP_TSX_STATE_PROCEEDING \<Rightarrow>
             let w = inv_set_state E PJSIP_INV_STATE_EARLY e w
             in if rdata = None then w else take_provisional E t rdata w
         | PJSIP_TSX_STATE_COMPLETED \<Rightarrow>
             if status_code x div 100 = 2 then early_success E t rdata False w
             else if role x = PJSIP_ROLE_UAC then handle_uac_call_rejection E t rdata e w
             else inv_disconnect E (status_code x) e w
         | PJSIP_TSX_STATE_CONFIRMED \<Rightarrow>
             if status_code x div 100 = 2 then early_success E t rdata True w
             else inv_disconnect E (status_code x) e w
         | PJSIP_TSX_STATE_TERMINATED \<Rightarrow>
             if status_code x div 100 = 2 then early_success E t rdata True w
             else inv_disconnect E (status_code x) e w
         | _ \<Rightarrow> w)"

text \<open>After a BYE in EARLY the INVITE that is still open is ended as well.\<close>

definition bye_in_early :: "inv_env \<Rightarrow> inv_world \<Rightarrow> inv_world" where
  "bye_in_early E w =
     (case invite_tsx (inv w) of
        None \<Rightarrow> iw_crash w
      | Some i \<Rightarrow>
          if role (iw_tsx w i) = PJSIP_ROLE_UAC then set_timeout E i w
          else if status_code (iw_tsx w i) < 200 then
            (case last_tx (iw_tsx w i) of
               None \<Rightarrow> iw_crash w
             | Some d \<Rightarrow>
                 fst (send_response E i d
                   (td_ref 1 d (upd_td d (\<lambda>td. td\<lparr>tx_code := 487, tx_body := None\<rparr>) w))))
          else w)"

section \<open>Kinds of events\<close>

text \<open>The conditions by which the handlers tell the requests in the dialog apart.\<close>

definition is_update :: "inv_transaction \<Rightarrow> bool" where
  "is_update x \<longleftrightarrow> pjsip_method_cmp (tsx_method x) pjsip_update_method"

definition incoming_update :: "inv_transaction \<Rightarrow> bool" where
  "incoming_update x \<longleftrightarrow> role x = PJSIP_ROLE_UAS \<and> state x = PJSIP_TSX_STATE_TRYING \<and> is_update x"

definition outgoing_update_done :: "inv_transaction \<Rightarrow> bool" where
  "outgoing_update_done x \<longleftrightarrow> role x = PJSIP_ROLE_UAC \<and>
     (state x = PJSIP_TSX_STATE_COMPLETED \<or> state x = PJSIP_TSX_STATE_TERMINATED) \<and> is_update x"

definition incoming_prack :: "inv_transaction \<Rightarrow> bool" where
  "incoming_prack x \<longleftrightarrow> role x = PJSIP_ROLE_UAS \<and> state x = PJSIP_TSX_STATE_TRYING \<and>
     pjsip_method_cmp (tsx_method x) pjsip_prack_method"

definition incoming_request :: "pjsip_method_e \<Rightarrow> inv_transaction \<Rightarrow> inv_rx_data option \<Rightarrow> bool" where
  "incoming_request m x rdata \<longleftrightarrow> role x = PJSIP_ROLE_UAS \<and> method_id (tsx_method x) = m \<and>
     status_code x < 200 \<and> rdata \<noteq> None"

definition outgoing_bye_done :: "inv_transaction \<Rightarrow> bool" where
  "outgoing_bye_done x \<longleftrightarrow> method_id (tsx_method x) = PJSIP_BYE_METHOD \<and> role x = PJSIP_ROLE_UAC \<and>
     (state x = PJSIP_TSX_STATE_COMPLETED \<or> state x = PJSIP_TSX_STATE_TERMINATED)"

text \<open>An event of a transaction that is just being tried was made by its request.\<close>

definition update_event :: "inv_env \<Rightarrow> inv_rx_data option \<Rightarrow> inv_world \<Rightarrow> inv_world" where
  "update_event E rdata w = (case rdata of None \<Rightarrow> iw_crash w | Some r \<Rightarrow> inv_respond_incoming_update E r w)"

definition prack_event :: "inv_env \<Rightarrow> inv_rx_data option \<Rightarrow> inv_world \<Rightarrow> inv_world" where
  "prack_event E rdata w = (case rdata of None \<Rightarrow> iw_crash w | Some r \<Rightarrow> inv_respond_incoming_prack E r w)"

text \<open>The branches that \<^verbatim>\<open>inv_on_state_connecting\<close> and \<^verbatim>\<open>inv_on_state_confirmed\<close> end with.\<close>

definition in_dialog_event :: "inv_env \<Rightarrow> nat \<Rightarrow> inv_rx_data option \<Rightarrow> inv_world \<Rightarrow> inv_world" where
  "in_dialog_event E t rdata w =
     (let x = iw_tsx w t; e = Ev_tsx t rdata
      in if incoming_update x then update_event E rdata w
         else if outgoing_update_done x then
           let (w, handled) = handle_uac_tsx_response E t rdata e w
           in if handled then w else inv_handle_update_response E t rdata w
         else if incoming_prack x then prack_event E rdata w
         else if role x = PJSIP_ROLE_UAC then fst (handle_uac_tsx_response E t rdata e w)
         else w)"

definition inv_on_state_early :: "inv_env \<Rightarrow> nat \<Rightarrow> inv_rx_data option \<Rightarrow> inv_world \<Rightarrow> inv_world" where
  "inv_on_state_early E t rdata w =
     (let x = iw_tsx w t; e = Ev_tsx t rdata
      in if Some t = invite_tsx (inv w) then early_invite E t rdata w
         else if inv_role (inv w) = PJSIP_ROLE_UAS \<and> role x = PJSIP_ROLE_UAS
             \<and> method_id (tsx_method x) = PJSIP_CANCEL_METHOD \<and> state x < PJSIP_TSX_STATE_COMPLETED \<and> rdata \<noteq> None
           then inv_respond_incoming_cancel E t (the rdata) w
         else if incoming_update x then update_event E rdata w
         else if outgoing_update_done x then inv_handle_update_response E t rdata w
         else if incoming_prack x then prack_event E rdata w
         else if role x = PJSIP_ROLE_UAC then fst (handle_uac_tsx_response E t rdata e w)
         else if incoming_request PJSIP_BYE_METHOD x rdata
           then bye_in_early E (inv_respond_incoming_bye E t (the rdata) e w)
         else w)"

section \<open>Connecting and confirmed\<close>

definition connecting_invite :: "inv_env \<Rightarrow> nat \<Rightarrow> inv_rx_data option \<Rightarrow> inv_world \<Rightarrow> inv_world" where
  "connecting_invite E t rdata w =
     (let x = iw_tsx w t; e = Ev_tsx t rdata
      in case state x of
           PJSIP_TSX_STATE_CONFIRMED \<Rightarrow>
             if status_code x div 100 = 2 then
               inv_set_state E PJSIP_INV_STATE_CONFIRMED e
                 (case rdata of None \<Rightarrow> w | Some r \<Rightarrow> fst (inv_check_sdp_in_incoming_msg E t r w))
             else w
         | PJSIP_TSX_STATE_TERMINATED \<Rightarrow>
             if status_code x div 100 \<noteq> 2 then
               if role x = PJSIP_ROLE_UAC then inv_disconnect E (status_code x) e w
               else
                 let (w, status, bye) = dlg_create_request E (plain_method PJSIP_BYE_METHOD) 0 w
                 in if status = PJ_SUCCESS then fst (pjsip_inv_send_msg E bye w) else w
             else w
         | _ \<Rightarrow> w)"

definition inv_on_state_connecting :: "inv_env \<Rightarrow> nat \<Rightarrow> inv_rx_data option \<Rightarrow> inv_world \<Rightarrow> inv_world" where
  "inv_on_state_connecting E t rdata w =
     (let x = iw_tsx w t; e = Ev_tsx t rdata
      in if Some t = invite_tsx (inv w) then connecting_invite E t rdata w
         else if incoming_request PJSIP_BYE_METHOD x rdata then inv_respond_incoming_bye E t (the rdata) e w
         else if outgoing_bye_done x then inv_handle_bye_response E t rdata e w
         else if incoming_request PJSIP_CANCEL_METHOD x rdata then fst (respond_with E t (the rdata) 200 w)
         else in_dialog_event E t rdata w)"

text \<open>The offer of a 2xx to a re-INVITE without one: the application's, or the active description.\<close>

definition reinvite_own_offer ::
    "inv_env \<Rightarrow> inv_world \<Rightarrow> inv_world \<times> pj_status \<times> pjmedia_sdp_session option" where
  "reinvite_own_offer E w =
     (let (w, status, sdp) =
            (case on_create_offer E of
               None \<Rightarrow> (w, PJ_SUCCESS, None)
             | Some f \<Rightarrow>
                 let (w, sdp) = f w
                 in case sdp of
                      None \<Rightarrow> (w, PJ_SUCCESS, None)
                    | Some l \<Rightarrow>
                        let (w, status) = neg_do_prov E (Modify_local_offer l) w
                        in (w, status, if status = PJ_SUCCESS then neg_local_of w else sdp))
      in if sdp \<noteq> None then (w, status, sdp)
         else
           let (w, status) = neg_do_prov E Send_local_offer w
           in (w, status, if status = PJ_SUCCESS then neg_local_of w else None))"

text \<open>The 2xx to a re-INVITE whose description, if it has one, was accepted, or a 500.\<close>

definition answer_reinvite :: "inv_env \<Rightarrow> inv_rx_data \<Rightarrow> inv_world \<Rightarrow> inv_world" where
  "answer_reinvite E rdata w =
     (let (w, status, d) = dlg_create_response E rdata 200 w
      in if status \<noteq> PJ_SUCCESS then w
         else
           let (w, status) =
                 (if rd_sdp rdata \<noteq> None then process_answer E 200 d None w
                  else
                    let (w, status, sdp) = reinvite_own_offer E w
                    in (if sdp \<noteq> None then set_body d sdp w else w, status))
           in if status \<noteq> PJ_SUCCESS then
                let (w, rc, d) = dlg_create_response E rdata 500 (td_ref (-1) d w)
                in if rc = PJ_SUCCESS then fst (pjsip_inv_send_msg E d w) else w
              else
                let (w, _) = timer_update_resp E d w
                in fst (pjsip_inv_send_msg E d w))"

definition respond_timed :: "inv_env \<Rightarrow> nat \<Rightarrow> inv_rx_data \<Rightarrow> nat \<Rightarrow> inv_world \<Rightarrow> inv_world" where
  "respond_timed E t rdata code w =
     (let (w, status, d) = dlg_create_response E rdata code w
      in if status \<noteq> PJ_SUCCESS then w
         else let (w, _) = timer_update_resp E d w in fst (send_response E t d w))"

text \<open>A re-INVITE that is let in: the timer, the negotiation that may be open, the description, the answer.\<close>

definition accept_reinvite :: "inv_env \<Rightarrow> nat \<Rightarrow> inv_rx_data \<Rightarrow> inv_world \<Rightarrow> inv_world" where
  "accept_reinvite E t rdata w =
     (let w = upd_inv (\<lambda>s. s\<lparr>invite_tsx := Some t\<rparr>) w;
          (w, status, st_code) = timer_process_req E rdata w
      in if status \<noteq> PJ_SUCCESS then respond_timed E t rdata st_code w
         else
           let (w, neg_st) = get_neg_state w
           in if neg_st \<noteq> PJMEDIA_SDP_NEG_STATE_DONE then respond_timed E t rdata 491 w
              else
                let (w, status) = inv_check_sdp_in_incoming_msg E t rdata w
                in if status \<noteq> PJ_SUCCESS then
                     let (w, neg_st) = get_neg_state w;
                         w = (if neg_st = PJMEDIA_SDP_NEG_STATE_REMOTE_OFFER
                              then fst (neg_do E Cancel_offer w) else w)
                     in fst (respond_with E t rdata 488 w)
                   else answer_reinvite E rdata w)"

text \<open>It is refused while another INVITE is open: 491 for one of its own, 500 for one of the other side.\<close>

definition incoming_reinvite :: "inv_env \<Rightarrow> nat \<Rightarrow> inv_rx_data \<Rightarrow> inv_world \<Rightarrow> inv_world" where
  "incoming_reinvite E t rdata w =
     (case invite_tsx (inv w) of
        Some i \<Rightarrow>
          if i \<noteq> t then
            fst (respond_with E t rdata (if role (iw_tsx w i) = PJSIP_ROLE_UAC then 491 else 500) w)
          else accept_reinvite E t rdata w
      | None \<Rightarrow> accept_reinvite E t rdata w)"

text \<open>The transaction of a re-INVITE of the other side, and of one of the session.\<close>

definition uas_reinvite_event :: "inv_env \<Rightarrow> nat \<Rightarrow> inv_rx_data option \<Rightarrow> inv_world \<Rightarrow> inv_world" where
  "uas_reinvite_event E t rdata w =
     (let x = iw_tsx w t
      in if state x = PJSIP_TSX_STATE_TRYING then
           (case rdata of None \<Rightarrow> iw_crash w | Some r \<Rightarrow> incoming_reinvite E t r w)
         else if state x = PJSIP_TSX_STATE_CONFIRMED \<and> status_code x div 100 = 2 then
           (case rdata of
              None \<Rightarrow> w
            | Some r \<Rightarrow> cancel_if_local_offer E (fst (inv_check_sdp_in_incoming_msg E t r w)))
         else w)"

definition reinvite_success :: "inv_env \<Rightarrow> nat \<Rightarrow> inv_rx_data option \<Rightarrow> inv_world \<Rightarrow> inv_world" where
  "reinvite_success E t rdata w =
     (let (w, status) = handle_timer_response E rdata True w
      in if status \<noteq> PJ_SUCCESS then w
         else
           let (w, _) = inv_check_sdp_in_incoming_msg E t (the rdata) w;
               w = cancel_if_local_offer E w
           in fst (inv_send_ack E (Ev_tsx t rdata) w))"

definition uac_reinvite_event :: "inv_env \<Rightarrow> nat \<Rightarrow> inv_rx_data option \<Rightarrow> inv_world \<Rightarrow> inv_world" where
  "uac_reinvite_event E t rdata w =
     (let x = iw_tsx w t
      in if state x = PJSIP_TSX_STATE_CALLING then upd_inv (\<lambda>s. s\<lparr>invite_tsx := Some t\<rparr>) w
         else if state x = PJSIP_TSX_STATE_TERMINATED \<and> status_code x div 100 = 2 then reinvite_success E t rdata w
         else
           let (w, handled) = handle_uac_tsx_response E t rdata (Ev_tsx t rdata) w
           in if handled then w
              else if 300 \<le> status_code x \<and> status_code x < 700 then
                let w = cancel_if_local_offer E w
                in if Some t = invite_tsx (inv w) then upd_inv (\<lambda>s. s\<lparr>invite_tsx := None\<rparr>) w else w
              else w)"

definition inv_on_state_confirmed :: "inv_env \<Rightarrow> nat \<Rightarrow> inv_rx_data option \<Rightarrow> inv_world \<Rightarrow> inv_world" where
  "inv_on_state_confirmed E t rdata w =
     (let x = iw_tsx w t; e = Ev_tsx t rdata
      in if outgoing_bye_done x then inv_handle_bye_response E t rdata e w
         else if incoming_request PJSIP_BYE_METHOD x rdata then inv_respond_incoming_bye E t (the rdata) e w
         else if incoming_request PJSIP_CANCEL_METHOD x rdata then fst (respond_with E t (the rdata) 200 w)
         else if method_id (tsx_method x) = PJSIP_INVITE_METHOD \<and> role x = PJSIP_ROLE_UAS
           then uas_reinvite_event E t rdata w
         else if method_id (tsx_method x) = PJSIP_INVITE_METHOD \<and> role x = PJSIP_ROLE_UAC
           then uac_reinvite_event E t rdata w
         else in_dialog_event E t rdata w)"

definition inv_on_state_disconnected :: "inv_env \<Rightarrow> nat \<Rightarrow> inv_rx_data option \<Rightarrow> inv_world \<Rightarrow> inv_world" where
  "inv_on_state_disconnected E t rdata w =
     (let x = iw_tsx w t; e = Ev_tsx t rdata
      in if role x = PJSIP_ROLE_UAS \<and> status_code x < 200 \<and> rdata \<noteq> None then
           if method_id (tsx_method x) = PJSIP_BYE_METHOD then inv_respond_incoming_bye E t (the rdata) e w
           else if method_id (tsx_method x) = PJSIP_CANCEL_METHOD then fst (respond_with E t (the rdata) 200 w)
           else w
         else if role x = PJSIP_ROLE_UAC then fst (handle_uac_tsx_response E t rdata e w)
         else w)"

section \<open>The callbacks of the module\<close>

fun inv_state_handler ::
    "pjsip_inv_state \<Rightarrow> inv_env \<Rightarrow> nat \<Rightarrow> inv_rx_data option \<Rightarrow> inv_world \<Rightarrow> inv_world" where
  "inv_state_handler PJSIP_INV_STATE_NULL = inv_on_state_null"
| "inv_state_handler PJSIP_INV_STATE_CALLING = inv_on_state_calling"
| "inv_state_handler PJSIP_INV_STATE_INCOMING = inv_on_state_incoming"
| "inv_state_handler PJSIP_INV_STATE_EARLY = inv_on_state_early"
| "inv_state_handler PJSIP_INV_STATE_CONNECTING = inv_on_state_connecting"
| "inv_state_handler PJSIP_INV_STATE_CONFIRMED = inv_on_state_confirmed"
| "inv_state_handler PJSIP_INV_STATE_DISCONNECTED = inv_on_state_disconnected"

definition mod_inv_on_tsx_state :: "inv_env \<Rightarrow> nat \<Rightarrow> inv_rx_data option \<Rightarrow> inv_world \<Rightarrow> inv_world" where
  "mod_inv_on_tsx_state E t rdata w =
     (let w = inv_state_handler (inv_state (inv w)) E t rdata w;
          w = (if inv_notify (inv w) then on_tsx_state_changed E t w else w)
      in if PJSIP_TSX_STATE_CONFIRMED \<le> state (iw_tsx w t) \<and> invite_tsx (inv w) = Some t
         then drop_last_answer (upd_inv (\<lambda>s. s\<lparr>invite_tsx := None\<rparr>) w) else w)"

text \<open>The ACK to a 2xx, which comes outside the transaction of its INVITE.\<close>

definition rx_ack_sdp :: "inv_env \<Rightarrow> nat \<Rightarrow> inv_rx_data \<Rightarrow> inv_world \<Rightarrow> inv_world" where
  "rx_ack_sdp E t rdata w =
     (if inv_state (inv w) < PJSIP_INV_STATE_DISCONNECTED then
        let (w, _) = inv_check_sdp_in_incoming_msg E t rdata w;
            (w, neg_st) = get_neg_state w
        in if neg_st = PJMEDIA_SDP_NEG_STATE_LOCAL_OFFER \<and> inv_state (inv w) = PJSIP_INV_STATE_CONFIRMED
           then fst (neg_do E Cancel_offer w) else w
      else w)"

definition rx_ack :: "inv_env \<Rightarrow> nat \<Rightarrow> inv_rx_data \<Rightarrow> inv_world \<Rightarrow> inv_world" where
  "rx_ack E t rdata w =
     (let w = (if state (iw_tsx w t) \<le> PJSIP_TSX_STATE_COMPLETED then
                 let w = rx_ack_sdp E t rdata w;
                     w = tsx_terminate_call E t (status_code (iw_tsx w t)) w
                 in drop_last_answer (upd_inv (\<lambda>s. s\<lparr>invite_tsx := None\<rparr>) w)
               else w)
      in if inv_state (inv w) = PJSIP_INV_STATE_CONNECTING
         then inv_set_state E PJSIP_INV_STATE_CONFIRMED (Ev_rx rdata) w else w)"

definition mod_inv_on_rx_request :: "inv_env \<Rightarrow> inv_rx_data \<Rightarrow> inv_world \<Rightarrow> inv_world \<times> bool" where
  "mod_inv_on_rx_request E rdata w =
     (let m = method_id (rx_method rdata)
      in if m \<in> {PJSIP_INVITE_METHOD, PJSIP_BYE_METHOD, PJSIP_CANCEL_METHOD} then (w, True)
         else if m = PJSIP_ACK_METHOD then
           (case invite_tsx (inv w) of
              None \<Rightarrow> (w, True)
            | Some t \<Rightarrow>
                if state (iw_tsx w t) < PJSIP_TSX_STATE_COMPLETED \<or> rx_cseq_num rdata \<noteq> cseq (iw_tsx w t)
                then (w, True) else (rx_ack E t rdata w, False))
         else (w, False))"

definition mod_inv_on_rx_response :: "inv_env \<Rightarrow> inv_rx_data \<Rightarrow> inv_world \<Rightarrow> inv_world \<times> bool" where
  "mod_inv_on_rx_response E rdata w =
     (if rx_type rdata = PJSIP_RESPONSE_MSG \<and> rx_code rdata div 100 = 2
         \<and> (case rx_cseq rdata of None \<Rightarrow> False | Some h \<Rightarrow> method_id (cseq_method h) = PJSIP_INVITE_METHOD)
         \<and> invite_tsx (inv w) = None
      then (fst (inv_send_ack E (Ev_rx rdata) w), True) else (w, False))"

end
