(* ===== verification/Inv_Inv.thy ===== *)
theory Inv_Inv
  imports Inv_States
begin

text \<open>
  The life of an INVITE session as its trace shows it. A session only moves forward through its states,
  except for the restart of a call that is not answered yet; it is told of the state it is in; and it
  gives up its resources once, on entering DISCONNECTED. The locale \<open>inv_user\<close> states what the dialog,
  the extensions and the application have to keep for this, and the lemmas show that every operation and
  handler of the session keeps it in turn.
\<close>

section \<open>Paths of a session\<close>

text \<open>A trace read as a path from a state and the liveness of the pools; \<open>None\<close> when it is no path.\<close>

fun inv_path :: "inv_action list \<Rightarrow> pjsip_inv_state \<times> bool \<Rightarrow> (pjsip_inv_state \<times> bool) option" where
  "inv_path [] p = Some p"
| "inv_path (State_set a b # tr) (s, live) =
     (if a = s \<and> s \<le> b \<and> s \<noteq> PJSIP_INV_STATE_DISCONNECTED \<and> live then inv_path tr (b, live) else None)"
| "inv_path (State_cb b # tr) (s, live) = (if b = s \<and> live then inv_path tr (s, live) else None)"
| "inv_path (Restarted # tr) (s, live) =
     (if s < PJSIP_INV_STATE_CONNECTING \<and> live then inv_path tr (PJSIP_INV_STATE_NULL, live) else None)"
| "inv_path (Ended # tr) (s, live) =
     (if s = PJSIP_INV_STATE_DISCONNECTED \<and> live then inv_path tr (s, False) else None)"
| "inv_path (a # tr) p = inv_path tr p"

lemma inv_path_append: "inv_path (tr @ tr') p = Option.bind (inv_path tr p) (inv_path tr')"
  by (induction tr p rule: inv_path.induct) auto

text \<open>The negotiator keeps its descriptions in step with its state unless a call was made out of order.\<close>

definition neg_legal :: "inv_action list \<Rightarrow> bool" where
  "neg_legal tr \<longleftrightarrow> list_all (\<lambda>a. case a of Neg_call c s \<Rightarrow> call_legal c s | _ \<Rightarrow> True) tr"

definition neg_sound :: "inv_world \<Rightarrow> bool" where
  "neg_sound w \<longleftrightarrow> (neg_legal (iw_trace w) \<longrightarrow> (\<forall>n. inv_neg (inv w) = Some n \<longrightarrow> neg_ok n))"

definition follows :: "inv_world \<Rightarrow> inv_world \<Rightarrow> bool" where
  "follows w w' \<longleftrightarrow> inv_role (inv w') = inv_role (inv w) \<and>
     (pending_cancel (inv w') \<longrightarrow> pending_cancel (inv w) \<or> inv_role (inv w) = PJSIP_ROLE_UAC) \<and>
     (neg_sound w \<longrightarrow> neg_sound w') \<and>
     (\<exists>tr. iw_trace w' = iw_trace w @ tr \<and>
        inv_path tr (inv_state (inv w), pools_live (inv w)) = Some (inv_state (inv w'), pools_live (inv w')))"

text \<open>Between events a session that has ended is in DISCONNECTED, and only then.\<close>

definition sess_ok :: "inv_world \<Rightarrow> bool" where
  "sess_ok w \<longleftrightarrow> (inv_state (inv w) = PJSIP_INV_STATE_DISCONNECTED \<longleftrightarrow> \<not> pools_live (inv w)) \<and>
     (pending_cancel (inv w) \<longrightarrow> inv_role (inv w) = PJSIP_ROLE_UAC)"

definition same :: "inv_world \<Rightarrow> inv_world \<Rightarrow> bool" where
  "same w w' \<longleftrightarrow> follows w w' \<and> inv_state (inv w') = inv_state (inv w) \<and> pools_live (inv w') = pools_live (inv w)"

definition forward :: "inv_world \<Rightarrow> inv_world \<Rightarrow> bool" where
  "forward w w' \<longleftrightarrow> (sess_ok w \<longrightarrow> follows w w' \<and> sess_ok w')"

lemma follows_refl: "follows w w"
  by (simp add: follows_def)

lemma follows_trans: "follows u v \<Longrightarrow> follows v w \<Longrightarrow> follows u w"
  by (fastforce simp: follows_def inv_path_append)

lemma same_refl [simp]: "same w w"
  by (simp add: same_def follows_refl)

lemma same_then_same: "same u v \<Longrightarrow> same v w \<Longrightarrow> same u w"
  by (auto simp: same_def intro: follows_trans)

lemma forward_refl [simp]: "forward w w"
  by (simp add: forward_def follows_refl)

lemma forward_trans: "forward u v \<Longrightarrow> forward v w \<Longrightarrow> forward u w"
  by (auto simp: forward_def intro: follows_trans)

lemma sameD:
  assumes "same w w'"
  shows "inv_state (inv w') = inv_state (inv w)" "pools_live (inv w') = pools_live (inv w)"
    "inv_role (inv w') = inv_role (inv w)"
  using assms by (simp_all add: same_def follows_def)

lemma same_sess_ok: "same w w' \<Longrightarrow> sess_ok w \<Longrightarrow> sess_ok w'"
  by (auto simp: same_def follows_def sess_ok_def)

lemma same_forward: "same w w' \<Longrightarrow> forward w w'"
  using same_sess_ok by (auto simp: forward_def same_def)

section \<open>Updates\<close>

text \<open>The lemmas that reduce the effect of an operation to the effect of what it does last.\<close>

named_theorems inv_same
named_theorems inv_forward

lemma followsI:
  assumes "inv_role (inv w') = inv_role (inv w)"
    "pending_cancel (inv w') \<Longrightarrow> pending_cancel (inv w) \<or> inv_role (inv w) = PJSIP_ROLE_UAC"
    "neg_sound w \<Longrightarrow> neg_sound w'" "iw_trace w' = iw_trace w @ tr"
    "inv_path tr (inv_state (inv w), pools_live (inv w)) = Some (inv_state (inv w'), pools_live (inv w'))"
  shows "follows w w'"
  using assms unfolding follows_def by blast

lemma same_upd_inv:
  assumes "same w0 w" "inv_state s = inv_state (inv w)" "pools_live s = pools_live (inv w)"
    "inv_role s = inv_role (inv w)" "inv_neg s = inv_neg (inv w)"
    "pending_cancel s \<Longrightarrow> pending_cancel (inv w) \<or> inv_role (inv w) = PJSIP_ROLE_UAC"
  shows "same w0 (w\<lparr>inv := s\<rparr>)"
proof (rule same_then_same [OF assms(1)])
  have "follows w (w\<lparr>inv := s\<rparr>)"
    by (rule followsI [where tr = "[]"]) (simp_all add: assms(2-5) assms(6) neg_sound_def)
  then show "same w (w\<lparr>inv := s\<rparr>)" by (simp add: same_def assms(2,3))
qed

lemma same_world:
  assumes "inv w' = inv w" "iw_trace w' = iw_trace w"
  shows "same w w'"
proof -
  have "follows w w'" by (rule followsI [where tr = "[]"]) (simp_all add: assms neg_sound_def)
  then show ?thesis by (simp add: same_def assms(1))
qed

lemma same_upds [inv_same]:
  assumes "same w0 w"
  shows "same w0 (w\<lparr>iw_td := td\<rparr>)" "same w0 (w\<lparr>iw_tsx := x\<rparr>)" "same w0 (w\<lparr>iw_next := n\<rparr>)"
    "same w0 (w\<lparr>iw_fault := b\<rparr>)" "same w0 (w\<lparr>targets := ts\<rparr>)" "same w0 (w\<lparr>cur_target := i\<rparr>)"
    "same w0 (iw_crash w)" "same w0 (td_ref j d w)"
  by (rule same_then_same [OF assms], rule same_world, simp_all add: iw_crash_def td_ref_def)+

lemma neg_legal_simps [simp]:
  "neg_legal []" "neg_legal (tr @ tr') \<longleftrightarrow> neg_legal tr \<and> neg_legal tr'"
  "neg_legal (Neg_call c s # tr) \<longleftrightarrow> call_legal c s \<and> neg_legal tr"
  "(\<And>c s. a \<noteq> Neg_call c s) \<Longrightarrow> neg_legal (a # tr) \<longleftrightarrow> neg_legal tr"
  by (auto simp: neg_legal_def split: inv_action.splits)

lemma iw_emit_simps [simp]: "inv (iw_emit a w) = inv w" "iw_trace (iw_emit a w) = iw_trace w @ [a]"
  by (simp_all add: iw_emit_def)

text \<open>What the session records besides its states leaves the path alone.\<close>

definition quiet_action :: "inv_action \<Rightarrow> bool" where
  "quiet_action a \<longleftrightarrow> (case a of Sent_request m b \<Rightarrow> True | Sent_response t c b \<Rightarrow> True | Media_update s \<Rightarrow> True
     | Inc_session \<Rightarrow> True | Dec_session \<Rightarrow> True | _ \<Rightarrow> False)"

lemma quiet_action_simps [simp]:
  "quiet_action (Sent_request m b)" "quiet_action (Sent_response t c b)" "quiet_action (Media_update s)"
  "quiet_action Inc_session" "quiet_action Dec_session"
  by (simp_all add: quiet_action_def)

lemma same_emit [inv_same]:
  assumes "same w0 w" "quiet_action a"
  shows "same w0 (iw_emit a w)"
proof (rule same_then_same [OF assms(1)])
  have "follows w (iw_emit a w)"
    by (rule followsI [where tr = "[a]"])
      (use assms(2) in \<open>cases a; simp add: neg_sound_def quiet_action_def\<close>)+
  then show "same w (iw_emit a w)" by (simp add: same_def)
qed

lemma same_neg_do [inv_same]:
  assumes "same w0 w"
  shows "same w0 (fst (neg_do E c w))"
proof (rule same_then_same [OF assms])
  show "same w (fst (neg_do E c w))"
  proof (cases "inv_neg (inv w)")
    case None
    then show ?thesis using same_upds(7) [OF same_refl] by (simp add: neg_do_def)
  next
    case (Some n)
    let ?w = "iw_emit (Neg_call c (neg_state n)) w"
    have e: "same w ?w"
      unfolding same_def by (rule conjI, rule followsI [where tr = "[Neg_call c (neg_state n)]"])
        (simp_all add: neg_sound_def)
    have "same w (upd_inv (\<lambda>s. s\<lparr>inv_neg := Some n'\<rparr>) ?w)"
      if "run_call (neg_cbs E) c n = Some (n', st)" for n' st
      unfolding same_def by (rule conjI, rule followsI [where tr = "[Neg_call c (neg_state n)]"])
        (use Some that in \<open>auto simp: neg_sound_def dest: run_call_ok\<close>)
    then show ?thesis
      using Some e same_upds(7) [OF e] by (auto simp: neg_do_def Let_def split: option.splits)
  qed
qed

lemma same_neg_create:
  assumes "same w0 w" "\<And>n. r = Inr n \<Longrightarrow> neg_ok n"
  shows "same w0 (fst (neg_create r w))"
proof (rule same_then_same [OF assms(1)])
  have "same w (upd_inv (\<lambda>s. s\<lparr>inv_neg := Some n\<rparr>) w)" if "r = Inr n" for n
    unfolding same_def by (rule conjI, rule followsI [where tr = "[]"])
      (use assms(2) that in \<open>auto simp: neg_sound_def\<close>)
  then show "same w (fst (neg_create r w))" by (auto simp: neg_create_def split: sum.splits)
qed

lemma same_neg_creates [inv_same]:
  assumes "same w0 w"
  shows "same w0 (fst (neg_create (pjmedia_sdp_neg_create_w_local_offer l) w))"
    "same w0 (fst (neg_create (pjmedia_sdp_neg_create_w_remote_offer i r) w))"
  by (rule same_neg_create [OF assms], erule created_ok)+

lemma same_get_neg_state [inv_same]: "same w0 w \<Longrightarrow> same w0 (fst (get_neg_state w))"
  by (auto simp: get_neg_state_def split: option.splits intro: inv_same)

lemma same_neg_do_prov [inv_same]: "same w0 w \<Longrightarrow> same w0 (fst (neg_do_prov E c w))"
  by (auto simp: neg_do_prov_def intro: inv_same)

lemma same_alloc [inv_same]: "same w0 w \<Longrightarrow> same w0 (fst (alloc_tdata td w))"
  by (auto simp: alloc_tdata_def intro!: inv_same)

lemma same_create [inv_same]:
  assumes "same w0 w"
  shows "same w0 (fst (dlg_create_request E m cs w))" "same w0 (fst (dlg_create_response E r c w))"
    "same w0 (fst (dlg_modify_response d code w))" "same w0 (fst (auth_reinit_req E r t w))"
    "same w0 (mark_sdp_done t w)" "same w0 (attach_inv_data t w)"
  using assms
  by (auto simp: dlg_create_request_def dlg_create_response_def dlg_modify_response_def auth_reinit_req_def
      mark_sdp_done_def attach_inv_data_def assert_fails_def Let_def split_beta split: option.splits intro!: inv_same)

text \<open>Updates of the session that leave its state, its pools, its role and its negotiator alone.\<close>

lemma same_session [inv_same]:
  assumes "same w0 w"
  shows "same w0 (inv_set_cause c w)" "same w0 (drop_last_answer w)"
    "same w0 (upd_inv (\<lambda>s. s\<lparr>inv_cause := n\<rparr>) w)"
    "same w0 (upd_inv (\<lambda>s. s\<lparr>invite_tsx := o1\<rparr>) w)" "same w0 (upd_inv (\<lambda>s. s\<lparr>invite_req := o1\<rparr>) w)"
    "same w0 (upd_inv (\<lambda>s. s\<lparr>last_answer := o1\<rparr>) w)" "same w0 (upd_inv (\<lambda>s. s\<lparr>last_ack := o1\<rparr>) w)"
    "same w0 (upd_inv (\<lambda>s. s\<lparr>last_ack_cseq := n\<rparr>) w)" "same w0 (upd_inv (\<lambda>s. s\<lparr>cancelling := b\<rparr>) w)"
    "same w0 (upd_inv (\<lambda>s. s\<lparr>inv_notify := b\<rparr>) w)"
    "same w0 (upd_inv (\<lambda>s. s\<lparr>pending_cancel := False\<rparr>) w)"
  using assms
  by (auto simp: inv_set_cause_def drop_last_answer_def td_ref_def split: option.splits
      intro!: same_upd_inv same_upds(1) [OF same_upd_inv] same_upds(1))

section \<open>The contract\<close>

text \<open>
  A message that is sent may report the progress of its transaction back to the session, which moves it
  forward; a request sent while the call is being set up does not. The other parts of the environment
  leave the state of the session alone: the extensions, and the callbacks that come before the session
  has finished its own step.
\<close>

locale inv_user =
  fixes E :: inv_env
  assumes send_forward: "forward w (fst (dlg_send E d a w))"
    and send_calling: "inv_state (inv w) = PJSIP_INV_STATE_CALLING \<Longrightarrow> same w (fst (dlg_send E d a w))"
    and respond_forward: "forward w (fst (dlg_respond E t d w))"
    and rel_respond_forward: "forward w (fst (rel_tx_response E d w))"
    and prack_forward: "forward w (rel_send_prack E d w)"
    and terminate_forward: "forward w (tsx_terminate_call E t c w)"
    and tsx_changed_forward: "forward w (on_tsx_state_changed E t w)"
    and send_ack_forward: "on_send_ack E = Some f \<Longrightarrow> forward w (f rdata w)"
    and timeout_same: "same w (set_timeout E t w)" "iw_td (set_timeout E t w) = iw_td w"
    and timer_same: "same w (fst (timer_process_resp E rdata w))" "same w (fst (timer_process_req E rdata w))"
      "same w (fst (timer_update_req E d w))" "same w (fst (timer_update_resp E d w))"
    and rel_same: "same w (fst (rel_create_prack E rdata w))" "same w (fst (rel_on_rx_prack E rdata w))"
    and state_changed_same: "same w (on_state_changed E e w)"
    and media_same: "same w (on_media_update E s w)" "same w (on_rx_offer E sdp w)"
    and create_offer_same: "on_create_offer E = Some g \<Longrightarrow> same w (fst (g w))"
begin

lemma env_same [inv_same]:
  assumes "same w0 w"
  shows "same w0 (set_timeout E t w)" "same w0 (fst (timer_process_resp E rdata w))"
    "same w0 (fst (timer_process_req E rdata w))" "same w0 (fst (timer_update_req E d w))"
    "same w0 (fst (timer_update_resp E d w))" "same w0 (fst (rel_create_prack E rdata w))"
    "same w0 (fst (rel_on_rx_prack E rdata w))" "same w0 (on_state_changed E e w)"
    "same w0 (on_media_update E s w)" "same w0 (on_rx_offer E sdp w)"
  by (blast intro: same_then_same [OF assms] timeout_same timer_same rel_same state_changed_same media_same)+

lemma env_forward [inv_forward]:
  assumes "forward w0 w"
  shows "forward w0 (fst (dlg_send E d a w))" "forward w0 (fst (dlg_respond E t d w))"
    "forward w0 (fst (rel_tx_response E d w))" "forward w0 (rel_send_prack E d w)"
    "forward w0 (tsx_terminate_call E t c w)" "forward w0 (on_tsx_state_changed E t w)"
  by (blast intro: forward_trans [OF assms] send_forward respond_forward rel_respond_forward prack_forward
      terminate_forward tsx_changed_forward)+

section \<open>Negotiation and answers\<close>

lemma same_negotiate [inv_same]: "same w0 w \<Longrightarrow> same w0 (fst (inv_negotiate_sdp E w))"
  by (auto simp: inv_negotiate_sdp_def Let_def split_beta assert_fails_def intro!: inv_same)

lemma same_pending_answer [inv_same]: "same w0 w \<Longrightarrow> same w0 (fst (inv_has_pending_answer E t w))"
  by (auto simp: inv_has_pending_answer_def Let_def split_beta split: option.splits intro!: inv_same)

lemma same_answer_sdp [inv_same]:
  assumes "same w0 w"
  shows "same w0 (fst (answer_local_sdp E c l w))" "same w0 (fst (answer_sdp E c w))"
  using assms
  by (auto simp: answer_local_sdp_def answer_sdp_def Let_def split_beta split: option.splits intro!: inv_same)

lemma same_process_answer [inv_same]: "same w0 w \<Longrightarrow> same w0 (fst (process_answer E c d l w))"
  by (auto simp: process_answer_def Let_def split_beta intro!: inv_same)

lemma same_initial_answer [inv_same]: "same w0 w \<Longrightarrow> same w0 (fst (pjsip_inv_initial_answer E rdata c l w))"
  by (auto simp: pjsip_inv_initial_answer_def Let_def split_beta assert_fails_def intro!: inv_same)

lemma same_answer [inv_same]: "same w0 w \<Longrightarrow> same w0 (fst (pjsip_inv_answer E c l w))"
  by (auto simp: pjsip_inv_answer_def Let_def split_beta assert_fails_def split: option.splits intro!: inv_same)

section \<open>Ending and sending\<close>

lemma same_cancel [inv_same]: "same w0 w \<Longrightarrow> same w0 (fst (cancel_session E w))"
  by (auto simp: cancel_session_def Let_def split_beta split: option.splits intro!: inv_same)

lemma same_end_unconfirmed [inv_same]: "same w0 w \<Longrightarrow> same w0 (fst (end_unconfirmed E w))"
  by (auto simp: end_unconfirmed_def Let_def split_beta assert_fails_def split: option.splits
      intro!: inv_same intro: same_upd_inv)

lemma same_end_session [inv_same]: "same w0 w \<Longrightarrow> same w0 (fst (pjsip_inv_end_session E c w))"
  by (auto simp: pjsip_inv_end_session_def Let_def split_beta intro!: inv_same)

lemma forward_then: "forward v w \<Longrightarrow> forward u v \<Longrightarrow> forward u w"
  by (rule forward_trans)

lemmas same_fwd = inv_same [OF same_refl, THEN same_forward, THEN forward_then]
lemmas same_state = inv_same [OF same_refl, THEN sameD(1)]

lemma forward_send [inv_forward]:
  assumes "forward w0 w"
  shows "forward w0 (fst (send_request E d a w))" "forward w0 (fst (send_response E t d w))"
  using assms by (auto simp: send_request_def send_response_def intro!: inv_forward same_fwd)

lemma forward_send_msg [inv_forward]: "forward w0 w \<Longrightarrow> forward w0 (fst (pjsip_inv_send_msg E d w))"
  by (auto simp: pjsip_inv_send_msg_def split: option.splits intro!: inv_forward same_fwd)

lemma forward_end_and_send [inv_forward]: "forward w0 w \<Longrightarrow> forward w0 (end_and_send E c w)"
  by (auto simp: end_and_send_def Let_def split_beta split: option.splits intro!: inv_forward same_fwd)

text \<open>Ending a call that is being set up sends a CANCEL at most, and leaves it where it is.\<close>

lemma same_end_calling:
  assumes "inv_state (inv w) \<in> {PJSIP_INV_STATE_NULL, PJSIP_INV_STATE_CALLING}" "inv_role (inv w) = PJSIP_ROLE_UAC"
  shows "same w (end_and_send E c w)"
proof -
  let ?r = "pjsip_inv_end_session E c w"
  have s: "same w (fst ?r)" by (rule same_end_session) simp
  show ?thesis
  proof (cases "snd (snd ?r)")
    case None
    then show ?thesis using s by (simp add: end_and_send_def split_beta)
  next
    case (Some d)
    have c: "inv_state (inv w) = PJSIP_INV_STATE_CALLING"
      using assms Some by (auto simp: pjsip_inv_end_session_def Let_def same_state)
    have "tx_type (iw_td (fst ?r) d) = PJSIP_REQUEST_MSG"
      "method_id (tx_method (iw_td (fst ?r) d)) = PJSIP_CANCEL_METHOD"
      using assms Some c
      by (auto simp: pjsip_inv_end_session_def end_unconfirmed_def cancel_session_def Let_def same_state
          inv_set_cause_def assert_fails_def timeout_same(2) alloc_tdata_def new_tdata_def plain_method_def
          split: if_splits option.splits prod.splits)
    then have "fst (pjsip_inv_send_msg E d (fst ?r)) = fst (send_request E d True (fst ?r))"
      by (simp add: pjsip_inv_send_msg_def)
    moreover have "same w (fst (send_request E d True (fst ?r)))"
      unfolding send_request_def
      by (rule same_then_same [OF same_emit [OF s] send_calling]) (simp_all add: c sameD(1) [OF s])
    ultimately show ?thesis using s Some by (simp add: end_and_send_def split_beta)
  qed
qed

section \<open>The change of state\<close>

lemma inv_release_forward:
  assumes "follows w0 w" "inv_state (inv w) = PJSIP_INV_STATE_DISCONNECTED" "pools_live (inv w)" "sess_ok w0"
  shows "follows w0 (inv_release w) \<and> sess_ok (inv_release w)"
proof -
  define w1 where "w1 = (case last_ack (inv w) of None \<Rightarrow> w
    | Some d \<Rightarrow> upd_inv (\<lambda>s. s\<lparr>last_ack := None\<rparr>) (td_ref (-1) d w))"
  define w2 where "w2 = (case invite_req (inv w1) of None \<Rightarrow> w1
    | Some d \<Rightarrow> upd_inv (\<lambda>s. s\<lparr>invite_req := None\<rparr>) (td_ref (-1) d w1))"
  have s: "same w w2"
    unfolding w1_def w2_def
    by (auto split: option.splits intro!: inv_same same_upd_inv same_upds(1) [OF same_upd_inv] simp: td_ref_def)
  let ?w3 = "upd_inv (\<lambda>s. s\<lparr>pools_live := False\<rparr>) (iw_emit Ended w2)"
  have r: "inv_release w = ?w3"
    unfolding inv_release_def Let_def w1_def [symmetric] w2_def [symmetric]
    using sameD(2) [OF s] assms(3) by simp
  have "follows w2 ?w3"
    by (rule followsI [where tr = "[Ended]"]) (use assms(2,3) sameD [OF s] in \<open>simp_all add: neg_sound_def\<close>)
  then have f: "follows w0 ?w3" using assms(1) s by (auto simp: same_def intro: follows_trans)
  moreover have "sess_ok ?w3"
    using assms(2,4) sameD [OF s] f by (auto simp: sess_ok_def follows_def)
  ultimately show ?thesis by (simp add: r)
qed

lemma enter_state [simp]: "inv_state (inv (enter_inv_state E st e w)) = st"
proof -
  have "inv_state (inv (inv_release w)) = inv_state (inv w)" for w
    by (auto simp: inv_release_def Let_def iw_crash_def td_ref_def split: option.splits)
  then show ?thesis by (simp add: enter_inv_state_def Let_def same_state)
qed

lemma forward_enter:
  assumes "forward w0 w" "inv_state (inv w) \<noteq> PJSIP_INV_STATE_DISCONNECTED" "inv_state (inv w) \<le> st"
  shows "forward w0 (enter_inv_state E st e w)"
proof (rule forward_trans [OF assms(1)], unfold forward_def, rule impI)
  assume ok: "sess_ok w"
  let ?w1 = "iw_emit (State_set (inv_state (inv w)) st)
    (upd_inv (\<lambda>s. s\<lparr>inv_state := st, cb_called := insert st (cb_called s)\<rparr>) w)"
  have live: "pools_live (inv w)" using ok assms(2) by (simp add: sess_ok_def)
  have 1: "follows w ?w1"
    by (rule followsI [where tr = "[State_set (inv_state (inv w)) st]"])
      (use assms(2,3) live in \<open>simp_all add: neg_sound_def\<close>)
  have "follows ?w1 (iw_emit (State_cb st) ?w1)"
    by (rule followsI [where tr = "[State_cb st]"]) (use live in \<open>simp_all add: neg_sound_def\<close>)
  then have cb: "same ?w1 (on_state_changed E e (iw_emit (State_cb st) ?w1))"
    by (intro env_same(8)) (simp add: same_def)
  define w2 where "w2 = (if inv_notify (inv ?w1) \<and>
      \<not> (st = PJSIP_INV_STATE_CALLING \<and> PJSIP_INV_STATE_CALLING \<in> cb_called (inv w))
    then on_state_changed E e (iw_emit (State_cb st) ?w1) else ?w1)"
  have 2: "same ?w1 w2" using cb by (simp add: w2_def)
  have f: "follows w w2" using 1 2 by (auto simp: same_def intro: follows_trans)
  have e: "enter_inv_state E st e w =
      (if st = PJSIP_INV_STATE_DISCONNECTED then inv_release w2 else w2)"
    using sameD(1) [OF 2] assms(2) by (simp add: enter_inv_state_def Let_def w2_def)
  show "follows w (enter_inv_state E st e w) \<and> sess_ok (enter_inv_state E st e w)"
  proof (cases "st = PJSIP_INV_STATE_DISCONNECTED")
    case True
    then show ?thesis using inv_release_forward [OF f] sameD [OF 2] live ok e by simp
  next
    case False
    then show ?thesis
      using f e sameD [OF 2] live ok by (auto simp: sess_ok_def follows_def)
  qed
qed

lemma set_state_state [simp]:
  "st \<noteq> PJSIP_INV_STATE_CONFIRMED \<Longrightarrow> inv_state (inv (inv_set_state E st e w)) = st"
  by (simp add: inv_set_state_def)

lemma forward_set_state:
  assumes "forward w0 w" "inv_state (inv w) \<noteq> PJSIP_INV_STATE_DISCONNECTED" "inv_state (inv w) \<le> st"
  shows "forward w0 (inv_set_state E st e w)"
proof -
  let ?g = "fst (get_neg_state w)"
  have g: "forward w0 ?g" "inv_state (inv ?g) = inv_state (inv w)"
    using assms(1) by (auto simp: same_state intro: same_fwd)
  then have "forward w0 (enter_inv_state E st e ?g)" "forward w0 (end_and_send E 406 ?g)"
    using assms by (auto intro!: forward_enter forward_end_and_send)
  then show ?thesis
    using forward_enter [OF assms] by (auto simp: inv_set_state_def split_beta)
qed

lemma inv_state_le_disconnected [simp]: "s \<le> PJSIP_INV_STATE_DISCONNECTED"
  by (cases s) (simp_all add: inv_state_order)

lemma forward_disconnect [inv_forward]:
  assumes "forward w0 w" "inv_state (inv w) \<noteq> PJSIP_INV_STATE_DISCONNECTED"
  shows "forward w0 (inv_disconnect E c e w)"
  unfolding inv_disconnect_def
  by (rule forward_set_state) (use assms in \<open>auto simp: same_state intro!: inv_forward same_fwd\<close>)

end

end
