(* ===== verification/Inv_Handler_Inv.thy ===== *)
theory Inv_Handler_Inv
  imports Inv_Inv
begin

text \<open>
  The operations and handlers of an INVITE session move it forward, for every environment that keeps the
  contract \<open>inv_user\<close>.
\<close>

lemma before_confirmed:
  "(s :: pjsip_inv_state) < PJSIP_INV_STATE_CONFIRMED \<Longrightarrow> s \<noteq> PJSIP_INV_STATE_DISCONNECTED \<and> s \<le> PJSIP_INV_STATE_CONFIRMED"
  "s < PJSIP_INV_STATE_CONNECTING \<Longrightarrow> s \<noteq> PJSIP_INV_STATE_DISCONNECTED"
  by (cases s; simp add: inv_state_order)+

context inv_user
begin

section \<open>Acknowledging and describing\<close>

lemma same_create_ack [inv_same]: "same w0 w \<Longrightarrow> same w0 (fst (pjsip_inv_create_ack E cs w))"
  by (auto simp: pjsip_inv_create_ack_def Let_def split_beta split: option.splits intro!: inv_same intro: same_upd_inv)

lemma forward_send_last_ack [inv_forward]:
  assumes "forward w0 w"
  shows "forward w0 (fst (send_last_ack E e w))"
proof -
  have "forward w0 (fst (send_request E d False w))" for d by (rule forward_send [OF assms])
  then show ?thesis
    using before_confirmed(1) assms
    by (auto simp: send_last_ack_def split_beta split: option.splits intro!: forward_set_state
        intro: same_fwd)
qed

lemma forward_send_ack [inv_forward]:
  assumes "forward w0 w"
  shows "forward w0 (fst (inv_send_ack E e w))"
proof -
  have "forward w0 (fst (send_last_ack E e (td_ref 1 d w)))" for d
    by (intro inv_forward same_fwd assms)
  moreover have "forward w0 (fst (send_last_ack E e (fst (pjsip_inv_create_ack E cs w))))" for cs
    by (rule forward_send_last_ack, rule forward_then [OF same_forward [OF same_create_ack [OF same_refl]] assms])
  ultimately show ?thesis
    using assms forward_trans [OF assms send_ack_forward]
    by (auto simp: inv_send_ack_def split: option.splits intro!: same_fwd)
qed

lemma same_reoffer [inv_same]: "same w0 w \<Longrightarrow> same w0 (fst (reoffer_forked E t r d w))"
  by (auto simp: reoffer_forked_def Let_def split_beta split: option.splits intro!: inv_same)

lemma same_remote_sdp [inv_same]:
  assumes "same w0 w"
  shows "same w0 (fst (take_remote_offer E sdp w))" "same w0 (fst (take_remote_answer E t r sdp w))"
  using assms
  by (auto simp: take_remote_offer_def take_remote_answer_def Let_def split_beta intro!: inv_same)

lemma same_check_sdp [inv_same]: "same w0 w \<Longrightarrow> same w0 (fst (inv_check_sdp_in_incoming_msg E t r w))"
  by (auto simp: inv_check_sdp_in_incoming_msg_def Let_def split_beta split: option.splits intro!: inv_same)

lemma same_cancel_offer [inv_same]: "same w0 w \<Longrightarrow> same w0 (cancel_if_local_offer E w)"
  by (auto simp: cancel_if_local_offer_def split_beta intro!: inv_same)

section \<open>Restarting and redirection\<close>

lemma follows_restart:
  assumes "inv_state (inv w) < PJSIP_INV_STATE_CONNECTING" "pools_live (inv w)"
  shows "follows w (iw_emit Restarted (upd_inv (\<lambda>s. s\<lparr>inv_state := PJSIP_INV_STATE_NULL, invite_tsx := None\<rparr>) w))"
  by (rule followsI [where tr = "[Restarted]"]) (use assms in \<open>simp_all add: neg_sound_def\<close>)

lemma forward_restart:
  assumes "forward w0 w" "inv_state (inv w) < PJSIP_INV_STATE_CONNECTING"
  shows "forward w0 (pjsip_inv_uac_restart E b w)"
proof (rule forward_trans [OF assms(1)])
  let ?w1 = "iw_emit Restarted (upd_inv (\<lambda>s. s\<lparr>inv_state := PJSIP_INV_STATE_NULL, invite_tsx := None\<rparr>) w)"
  have "forward w ?w1"
    using before_confirmed(2) [OF assms(2)] follows_restart [OF assms(2)] by (auto simp: forward_def sess_ok_def)
  then show "forward w (pjsip_inv_uac_restart E b w)"
    by (auto simp: pjsip_inv_uac_restart_def Let_def intro!: same_fwd)
qed

lemma forward_redirect_act:
  assumes "forward w0 w" "inv_state (inv w) < PJSIP_INV_STATE_CONNECTING"
  shows "forward w0 (fst (redirect_act E op e w))"
proof -
  have "forward w0 (pjsip_inv_uac_restart E False (td_ref 1 d (iw_emit Dec_session w)))" for d
    by (rule forward_restart) (use assms in \<open>auto simp: same_state intro!: same_fwd\<close>)
  then show ?thesis
    using assms before_confirmed(2) [OF assms(2)]
    by (auto simp: redirect_act_def Let_def split: option.splits intro!: inv_forward same_fwd)
qed

lemma recurse_state: "snd (inv_uac_recurse E c e w) = False \<Longrightarrow> inv (fst (inv_uac_recurse E c e w)) = inv w"
  by (auto simp: inv_uac_recurse_def Let_def split_beta split: option.splits)

lemma forward_recurse:
  assumes "forward w0 w" "inv_state (inv w) < PJSIP_INV_STATE_CONNECTING"
  shows "forward w0 (fst (inv_uac_recurse E c e w))"
proof -
  have "forward w0 (fst (redirect_act E op e (iw_emit Inc_session (w\<lparr>targets := ts, cur_target := i\<rparr>))))" for op ts i
    by (rule forward_redirect_act) (use assms in \<open>auto simp: same_state intro!: same_fwd\<close>)
  moreover have "forward w0 (upd_inv (\<lambda>s. s\<lparr>invite_tsx := None\<rparr>)
      (iw_emit Inc_session (w\<lparr>targets := ts, cur_target := i\<rparr>)))" for ts i
    using assms(1) by (intro same_fwd) simp_all
  moreover have "forward w0 (w\<lparr>targets := ts, cur_target := i\<rparr>)" for ts i
    using assms(1) by (intro same_fwd)
  ultimately show ?thesis
    using assms(1) by (auto simp: inv_uac_recurse_def Let_def split_beta split: option.splits)
qed

lemma forward_process_redirect:
  assumes "forward w0 w" "inv_state (inv w) < PJSIP_INV_STATE_CONNECTING"
  shows "forward w0 (fst (pjsip_inv_process_redirect E op e w))"
proof -
  let ?r = "inv_uac_recurse E 487 Ev_user (iw_emit Dec_session w)"
  have "forward w0 (fst ?r)"
    by (rule forward_recurse) (use assms in \<open>auto simp: same_state intro!: same_fwd\<close>)
  moreover have "forward w0 (inv_disconnect E 487 e (fst ?r))" if "\<not> snd ?r"
    using that before_confirmed(2) [OF assms(2)] calculation
    by (intro inv_forward) (simp_all add: recurse_state)
  ultimately show ?thesis
    using assms forward_redirect_act [OF assms]
    by (auto simp: pjsip_inv_process_redirect_def split_beta assert_fails_def intro!: same_fwd)
qed

section \<open>Calls of the application\<close>

lemma forward_terminate [inv_forward]:
  assumes "forward w0 w"
  shows "forward w0 (pjsip_inv_terminate E c b w)"
proof -
  let ?w1 = "upd_inv (\<lambda>s. s\<lparr>inv_notify := b\<rparr>) w"
  define w2 where "w2 = (case invite_tsx (inv ?w1) of None \<Rightarrow> ?w1
    | Some t \<Rightarrow> if state (iw_tsx ?w1 t) \<le> PJSIP_TSX_STATE_COMPLETED then tsx_terminate_call E t c ?w1 else ?w1)"
  have "forward w0 w2"
    using assms by (auto simp: w2_def split: option.splits intro!: inv_forward same_fwd)
  then have "forward w0 (inv_set_cause c w2)" by (intro same_fwd)
  then have "forward w0 (if inv_state (inv (inv_set_cause c w2)) \<noteq> PJSIP_INV_STATE_DISCONNECTED
      then inv_set_state E PJSIP_INV_STATE_DISCONNECTED Ev_user (inv_set_cause c w2) else inv_set_cause c w2)"
    by (auto intro: forward_set_state)
  then show ?thesis unfolding pjsip_inv_terminate_def Let_def w2_def [symmetric] .
qed

lemma same_invite [inv_same]: "same w0 w \<Longrightarrow> same w0 (fst (pjsip_inv_invite E w))"
  by (auto simp: pjsip_inv_invite_def Let_def split_beta assert_fails_def split: option.splits intro!: inv_same)

lemma same_reinvite [inv_same]: "same w0 w \<Longrightarrow> same w0 (fst (pjsip_inv_reinvite E c l w))"
  by (auto simp: pjsip_inv_reinvite_def reinvite_offer_def Let_def split_beta
      split: option.splits pjmedia_sdp_neg_state.splits intro!: inv_same)

lemma same_update [inv_same]: "same w0 w \<Longrightarrow> same w0 (fst (pjsip_inv_update E c l w))"
  by (auto simp: pjsip_inv_update_def Let_def split_beta assert_fails_def split: option.splits intro!: inv_same)

lemma same_set_sdp [inv_same]:
  assumes "same w0 w"
  shows "same w0 (fst (pjsip_inv_set_sdp_answer E sdp w))" "same w0 (fst (pjsip_inv_set_local_sdp E sdp w))"
  using assms
  by (auto simp: pjsip_inv_set_sdp_answer_def pjsip_inv_set_local_sdp_def split: option.splits intro!: inv_same)

section \<open>Requests and responses\<close>

lemma forward_respond_with [inv_forward]: "forward w0 w \<Longrightarrow> forward w0 (fst (respond_with E t r c w))"
  by (auto simp: respond_with_def split_beta intro!: inv_forward same_fwd)

lemma forward_terminate_487 [inv_forward]: "forward w0 w \<Longrightarrow> forward w0 (terminate_invite_487 E t w)"
  by (auto simp: terminate_invite_487_def Let_def split_beta split: option.splits intro!: inv_forward same_fwd)

lemma forward_incoming_cancel [inv_forward]: "forward w0 w \<Longrightarrow> forward w0 (inv_respond_incoming_cancel E t r w)"
  by (auto simp: inv_respond_incoming_cancel_def Let_def split_beta split: option.splits intro!: inv_forward)

lemma forward_incoming_bye [inv_forward]: "forward w0 w \<Longrightarrow> forward w0 (inv_respond_incoming_bye E t r e w)"
  by (auto simp: inv_respond_incoming_bye_def split_beta intro!: inv_forward)

lemma forward_bye_response [inv_forward]:
  "forward w0 w \<Longrightarrow> inv_state (inv w) \<noteq> PJSIP_INV_STATE_DISCONNECTED
   \<Longrightarrow> forward w0 (inv_handle_bye_response E t r e w)"
  by (auto simp: inv_handle_bye_response_def split_beta same_state split: option.splits intro!: inv_forward same_fwd)

lemma forward_timer_response [inv_forward]: "forward w0 w \<Longrightarrow> forward w0 (fst (handle_timer_response E r b w))"
  by (auto simp: handle_timer_response_def split_beta split: option.splits intro!: inv_forward same_fwd)

lemma same_timer_response:
  assumes "\<not> b \<or> snd (handle_timer_response E r b w) = PJ_SUCCESS" "same w0 w"
  shows "same w0 (fst (handle_timer_response E r b w))"
  using assms by (auto simp: handle_timer_response_def split_beta split: option.splits intro!: inv_same)

lemma same_negotiate_update [inv_same]: "same w0 w \<Longrightarrow> same w0 (fst (negotiate_update E r w))"
  by (auto simp: negotiate_update_def Let_def split_beta intro!: inv_same)

lemma same_update_response [inv_same]: "same w0 w \<Longrightarrow> same w0 (fst (update_response E r w))"
  by (auto simp: update_response_def Let_def split_beta intro!: inv_same)

lemma same_withdraw [inv_same]: "same w0 w \<Longrightarrow> same w0 (withdraw_unanswered E t w)"
  by (auto simp: withdraw_unanswered_def Let_def split_beta intro!: inv_same)

lemmas same_fwd2 = inv_same [OF same_refl, THEN same_forward, THEN forward_then]

lemma forward_incoming_update [inv_forward]: "forward w0 w \<Longrightarrow> forward w0 (inv_respond_incoming_update E r w)"
  by (auto simp: inv_respond_incoming_update_def Let_def split_beta intro!: inv_forward same_fwd2)

lemma forward_update_response [inv_forward]:
  "forward w0 w \<Longrightarrow> forward w0 (inv_handle_update_response E t r w)"
  by (auto simp: inv_handle_update_response_def Let_def split_beta split: option.splits
      intro!: inv_forward same_fwd2)

lemma forward_reliable_response [inv_forward]:
  "forward w0 w \<Longrightarrow> forward w0 (inv_handle_incoming_reliable_response E r w)"
  by (auto simp: inv_handle_incoming_reliable_response_def Let_def split_beta intro!: inv_forward same_fwd2)

lemma forward_incoming_prack [inv_forward]: "forward w0 w \<Longrightarrow> forward w0 (inv_respond_incoming_prack E r w)"
  by (auto simp: inv_respond_incoming_prack_def Let_def split_beta split: option.splits intro!: inv_forward same_fwd2)

lemma forward_resend [inv_forward]: "forward w0 w \<Longrightarrow> forward w0 (resend_with_auth E t r w)"
  by (auto simp: resend_with_auth_def split_beta split: option.splits intro!: inv_forward same_fwd2)

lemma forward_tsx_response [inv_forward]:
  "forward w0 w \<Longrightarrow> forward w0 (fst (handle_uac_tsx_response E t r e w))"
  by (auto simp: handle_uac_tsx_response_def Let_def split_beta intro!: inv_forward same_fwd2)

lemma forward_recurse_or_end:
  assumes "forward w0 w" "inv_state (inv w) < PJSIP_INV_STATE_CONNECTING"
  shows "forward w0 (recurse_or_end E c e w)"
  using assms forward_recurse [OF assms] before_confirmed(2) [OF assms(2)] recurse_state
  by (auto simp: recurse_or_end_def split_beta intro!: forward_disconnect)

lemma forward_call_rejection:
  assumes "forward w0 w" "inv_state (inv w) < PJSIP_INV_STATE_CONNECTING"
  shows "forward w0 (handle_uac_call_rejection E t r e w)"
proof -
  have "forward w0 (recurse_or_end E c e (w\<lparr>targets := ts\<rparr>))" for c ts
    by (rule forward_recurse_or_end) (use assms in \<open>auto intro!: same_fwd2\<close>)
  moreover have "forward w0 (recurse_or_end E c e (fst (auth_reinit_req E x t w)))"
    "forward w0 (pjsip_inv_uac_restart E False (fst (auth_reinit_req E x t w)))" for c x
    by (rule forward_recurse_or_end forward_restart;
        use assms in \<open>auto simp: same_state intro!: same_fwd2\<close>)+
  ultimately show ?thesis
    using assms before_confirmed(2) [OF assms(2)] forward_recurse_or_end [OF assms]
    by (auto simp: handle_uac_call_rejection_def Let_def split_beta split: option.splits
        intro!: inv_forward same_fwd2)
qed

end

end
