(* ===== verification/Inv_Run.thy ===== *)
theory Inv_Run
  imports Inv_Handler_Inv
begin

text \<open>
  The handlers of the states and the callbacks of the module move an INVITE session forward, and so does
  every run of events and calls of the application.
\<close>

context inv_user
begin

section \<open>The handlers of the states\<close>

lemmas inv_same_state = inv_same [OF same_refl, THEN sameD(1)]

lemma forward_take_provisional [inv_forward]: "forward w0 w \<Longrightarrow> forward w0 (take_provisional E t r w)"
  by (auto simp: take_provisional_def split_beta split: option.splits intro!: inv_forward same_fwd2)

lemma forward_calling_proceeding:
  assumes "forward w0 w" "inv_state (inv w) \<in> {PJSIP_INV_STATE_NULL, PJSIP_INV_STATE_CALLING}"
  shows "forward w0 (calling_proceeding E t r w)"
proof (rule forward_trans [OF assms(1)])
  let ?v = "if pending_cancel (inv w)
    then end_and_send E 487 (upd_inv (\<lambda>s. s\<lparr>pending_cancel := False\<rparr>) w) else w"
  have a: "same w ?v" if "sess_ok w"
    using that assms(2) same_then_same [OF same_session(11) [OF same_refl] same_end_calling]
    by (auto simp: sess_ok_def)
  have v: "forward w ?v" using same_forward [OF a] unfolding forward_def by blast
  have n: "inv_state (inv ?v) \<in> {PJSIP_INV_STATE_NULL, PJSIP_INV_STATE_CALLING}" if "sess_ok w"
    using sameD(1) [OF a [OF that]] assms(2) by simp
  have "forward w (inv_set_state E PJSIP_INV_STATE_EARLY e ?v)" if "sess_ok w" for e
    by (rule forward_set_state [OF v]) (use n [OF that] in \<open>auto simp: inv_state_order\<close>)
  then have "forward w (inv_set_state E PJSIP_INV_STATE_EARLY e ?v)" for e by (auto simp: forward_def)
  then show "forward w (calling_proceeding E t r w)"
    using v by (auto simp: calling_proceeding_def Let_def intro!: forward_take_provisional)
qed

lemma forward_calling_success:
  assumes "forward w0 w" "inv_state (inv w) < PJSIP_INV_STATE_CONNECTING"
  shows "forward w0 (calling_success E t r b w)"
proof -
  let ?h = "handle_timer_response E r True w"
  let ?v = "inv_set_state E PJSIP_INV_STATE_CONNECTING (Ev_tsx t r) (fst ?h)"
  have h: "forward w0 (fst ?h)" using assms(1) by (rule forward_timer_response)
  have "forward w0 ?v" if "snd ?h = PJ_SUCCESS"
    by (rule forward_set_state [OF h])
      (use assms(2) sameD(1) [OF same_timer_response [OF _ same_refl], of True r w] that in \<open>auto simp: inv_state_order\<close>)
  then show ?thesis
    using h by (auto simp: calling_success_def Let_def split_beta intro!: forward_send_ack same_fwd2)
qed

lemma forward_calling:
  assumes "forward w0 w" "inv_state (inv w) \<in> {PJSIP_INV_STATE_NULL, PJSIP_INV_STATE_CALLING}"
  shows "forward w0 (inv_on_state_calling E t r w)"
proof -
  have s: "inv_state (inv w) < PJSIP_INV_STATE_CONNECTING" "inv_state (inv w) \<le> PJSIP_INV_STATE_CALLING"
    "inv_state (inv w) \<noteq> PJSIP_INV_STATE_DISCONNECTED"
    using assms(2) by (auto simp: inv_state_order)
  show ?thesis
    using assms(1) forward_calling_proceeding [OF assms] forward_calling_success [OF assms(1) s(1)]
      forward_call_rejection [OF assms(1) s(1)] forward_set_state [OF assms(1) s(3,2)]
      forward_disconnect [OF assms(1) s(3)]
    by (auto simp: inv_on_state_calling_def Let_def split: pjsip_tsx_state_e.splits)
qed

lemma forward_incoming:
  assumes "forward w0 w" "inv_state (inv w) \<in> {PJSIP_INV_STATE_NULL, PJSIP_INV_STATE_INCOMING}"
  shows "forward w0 (inv_on_state_incoming E t r w)"
proof -
  have s: "inv_state (inv w) \<noteq> PJSIP_INV_STATE_DISCONNECTED" "inv_state (inv w) \<le> PJSIP_INV_STATE_INCOMING"
    "inv_state (inv w) \<le> PJSIP_INV_STATE_EARLY" "inv_state (inv w) \<le> PJSIP_INV_STATE_CONNECTING"
    using assms(2) by (auto simp: inv_state_order)
  show ?thesis
    using assms(1) forward_disconnect [OF assms(1) s(1)] forward_set_state [OF assms(1) s(1) s(2)]
      forward_set_state [OF assms(1) s(1) s(3)] forward_set_state [OF assms(1) s(1) s(4)]
      forward_incoming_cancel [OF assms(1)]
    by (auto simp: inv_on_state_incoming_def Let_def split: pjsip_tsx_state_e.splits option.splits)
qed

lemma same_save_invite [inv_same]: "same w0 w \<Longrightarrow> same w0 (save_invite_req E t w)"
  by (auto simp: save_invite_req_def Let_def td_ref_def split: option.splits
      intro!: same_upds(1) [OF same_upd_inv] same_upds(1) same_upds(7) same_upd_inv)

text \<open>A session without a state takes the INVITE, and reads its transaction again after entering INCOMING.\<close>

lemma forward_null:
  assumes "forward w0 w" "inv_state (inv w) = PJSIP_INV_STATE_NULL"
  shows "forward w0 (inv_on_state_null E t r w)"
proof -
  define v where "v = (if invite_tsx (inv w) = None then upd_inv (\<lambda>s. s\<lparr>invite_tsx := Some t\<rparr>) w else w)"
  let ?u = "save_invite_req E t v"
  have v: "forward w0 v" "inv_state (inv v) = PJSIP_INV_STATE_NULL"
    using assms by (auto simp: v_def intro: same_fwd2)
  have u: "forward w0 ?u" "inv_state (inv ?u) = PJSIP_INV_STATE_NULL"
    using v sameD(1) [OF same_save_invite [OF same_refl]]
      forward_then [OF same_forward [OF same_save_invite [OF same_refl]]] by auto
  have n: "PJSIP_INV_STATE_NULL \<le> s" "PJSIP_INV_STATE_NULL \<noteq> PJSIP_INV_STATE_DISCONNECTED" for s
    by (auto simp: inv_state_order)
  have su: "forward w0 (inv_set_state E st e ?u)" and sv: "forward w0 (inv_set_state E st e v)" for st e
    using u v n by (auto intro!: forward_set_state)
  have "forward w0 (inv_set_state E PJSIP_INV_STATE_EARLY e (inv_set_state E PJSIP_INV_STATE_INCOMING e' v))" for e e'
    by (rule forward_set_state [OF sv]) (simp_all add: inv_state_order)
  moreover have "forward w0 (inv_on_state_calling E t r ?u)" "forward w0 (inv_on_state_incoming E t r v)"
    using u v by (auto intro: forward_calling forward_incoming)
  moreover have "forward w0 (inv_disconnect E c e v)" for c e
    using v n by (auto intro: forward_disconnect)
  ultimately show ?thesis
    unfolding inv_on_state_null_def Let_def v_def [symmetric] using su sv assms(1)
    by (auto split: pjsip_tsx_state_e.splits)
qed

lemma forward_early_success:
  assumes "forward w0 w" "inv_state (inv w) \<noteq> PJSIP_INV_STATE_DISCONNECTED"
    "inv_state (inv w) \<le> PJSIP_INV_STATE_CONNECTING"
  shows "forward w0 (early_success E t r b w)"
proof -
  have "forward w0 (inv_set_state E PJSIP_INV_STATE_CONNECTING (Ev_tsx t r) w)"
    by (rule forward_set_state [OF assms])
  then show ?thesis
    by (auto simp: early_success_def Let_def split_beta split: option.splits
        intro!: forward_send_ack forward_timer_response same_fwd2)
qed

lemma forward_early_invite:
  assumes "forward w0 w" "inv_state (inv w) = PJSIP_INV_STATE_EARLY"
  shows "forward w0 (early_invite E t r w)"
proof -
  have s: "inv_state (inv w) \<noteq> PJSIP_INV_STATE_DISCONNECTED" "inv_state (inv w) \<le> PJSIP_INV_STATE_EARLY"
    "inv_state (inv w) \<le> PJSIP_INV_STATE_CONNECTING" "inv_state (inv w) < PJSIP_INV_STATE_CONNECTING"
    using assms(2) by (auto simp: inv_state_order)
  show ?thesis
    using assms(1) forward_early_success [OF assms(1) s(1,3)] forward_call_rejection [OF assms(1) s(4)]
      forward_set_state [OF assms(1) s(1,2)] forward_disconnect [OF assms(1) s(1)]
    by (auto simp: early_invite_def Let_def split: pjsip_tsx_state_e.splits intro!: forward_take_provisional)
qed

lemma forward_bye_in_early [inv_forward]: "forward w0 w \<Longrightarrow> forward w0 (bye_in_early E w)"
  by (auto simp: bye_in_early_def td_ref_def split: option.splits intro!: inv_forward same_fwd2)

lemma forward_events [inv_forward]:
  assumes "forward w0 w"
  shows "forward w0 (update_event E r w)" "forward w0 (prack_event E r w)" "forward w0 (in_dialog_event E t r w)"
  using assms
  by (auto simp: update_event_def prack_event_def in_dialog_event_def Let_def split_beta split: option.splits
      intro!: inv_forward same_fwd2)

lemma forward_early:
  assumes "forward w0 w" "inv_state (inv w) = PJSIP_INV_STATE_EARLY"
  shows "forward w0 (inv_on_state_early E t r w)"
  using assms forward_early_invite [OF assms]
  by (auto simp: inv_on_state_early_def Let_def intro!: inv_forward)

lemma forward_connecting:
  assumes "forward w0 w" "inv_state (inv w) = PJSIP_INV_STATE_CONNECTING"
  shows "forward w0 (inv_on_state_connecting E t r w)"
proof -
  have s: "inv_state (inv w) \<noteq> PJSIP_INV_STATE_DISCONNECTED" using assms(2) by simp
  have "forward w0 (inv_set_state E PJSIP_INV_STATE_CONFIRMED e v)"
    if "v = w \<or> (\<exists>x. v = fst (inv_check_sdp_in_incoming_msg E t x w))" for e v
    by (rule forward_set_state)
      (use that assms in \<open>auto simp: inv_same_state inv_state_order intro!: same_fwd2\<close>)
  then have "forward w0 (connecting_invite E t r w)"
    using assms(1) forward_disconnect [OF assms(1) s]
    by (auto simp: connecting_invite_def Let_def split_beta split: pjsip_tsx_state_e.splits option.splits
        intro!: forward_send_msg same_fwd2)
  then show ?thesis
    using assms(1) s by (auto simp: inv_on_state_connecting_def Let_def intro!: inv_forward)
qed

lemma same_own_offer:
  assumes "same w0 w"
  shows "same w0 (fst (reinvite_own_offer E w))"
  using assms same_then_same [OF assms create_offer_same]
  by (auto simp: reinvite_own_offer_def Let_def split_beta split: option.splits intro!: inv_same)

lemma forward_answer_reinvite [inv_forward]:
  assumes "forward w0 w"
  shows "forward w0 (answer_reinvite E r w)"
proof -
  have "forward w0 (fst (reinvite_own_offer E (fst (dlg_create_response E r c w))))" for c
    by (rule forward_then [OF same_forward [OF same_own_offer [OF same_refl]]]) (intro same_fwd2 assms)
  then show ?thesis
    using assms
    by (auto simp: answer_reinvite_def Let_def split_beta intro!: forward_send_msg same_fwd2)
qed

lemma forward_accept_reinvite [inv_forward]:
  assumes "forward w0 w"
  shows "forward w0 (respond_timed E t r c w)" "forward w0 (accept_reinvite E t r w)"
  using assms
  by (auto simp: respond_timed_def accept_reinvite_def Let_def split_beta intro!: inv_forward same_fwd2)

lemma forward_uas_reinvite [inv_forward]:
  assumes "forward w0 w"
  shows "forward w0 (incoming_reinvite E t x w)" "forward w0 (uas_reinvite_event E t r w)"
  using assms
  by (auto simp: incoming_reinvite_def uas_reinvite_event_def Let_def split: option.splits
      intro!: inv_forward same_fwd2)

lemma forward_uac_reinvite [inv_forward]:
  assumes "forward w0 w"
  shows "forward w0 (reinvite_success E t r w)" "forward w0 (uac_reinvite_event E t r w)"
proof -
  show s: "forward w0 (reinvite_success E t r w)"
    using assms by (auto simp: reinvite_success_def Let_def split_beta intro!: inv_forward same_fwd2)
  show "forward w0 (uac_reinvite_event E t r w)"
    using assms s
    by (auto simp: uac_reinvite_event_def Let_def split_beta intro!: forward_tsx_response same_fwd2)
qed

lemma forward_confirmed:
  assumes "forward w0 w" "inv_state (inv w) = PJSIP_INV_STATE_CONFIRMED"
  shows "forward w0 (inv_on_state_confirmed E t r w)"
  using assms by (auto simp: inv_on_state_confirmed_def Let_def intro!: inv_forward)

lemma forward_disconnected: "forward w0 w \<Longrightarrow> forward w0 (inv_on_state_disconnected E t r w)"
  by (auto simp: inv_on_state_disconnected_def Let_def intro!: inv_forward)

lemma forward_handler: "forward w (inv_state_handler (inv_state (inv w)) E t r w)"
  by (cases "inv_state (inv w)")
    (auto intro: forward_null forward_calling forward_incoming forward_early forward_connecting
      forward_confirmed forward_disconnected)

section \<open>The callbacks of the module\<close>

lemma forward_tsx_state: "forward w (mod_inv_on_tsx_state E t r w)"
proof -
  have "forward w (inv_state_handler (inv_state (inv w)) E t r w)" by (rule forward_handler)
  then show ?thesis by (auto simp: mod_inv_on_tsx_state_def Let_def intro!: inv_forward same_fwd2)
qed

lemma forward_rx_ack: "forward w (rx_ack E t r w)"
proof -
  have "forward w (rx_ack_sdp E t r w)"
    by (auto simp: rx_ack_sdp_def Let_def split_beta intro!: same_fwd2)
  then have "forward w (tsx_terminate_call E t c (rx_ack_sdp E t r w))" for c by (intro inv_forward)
  then show ?thesis
    by (auto simp: rx_ack_def Let_def intro!: forward_set_state same_fwd2 simp: inv_same_state inv_state_order)
qed

lemma forward_rx: "forward w (fst (mod_inv_on_rx_request E r w))" "forward w (fst (mod_inv_on_rx_response E r w))"
  by (auto simp: mod_inv_on_rx_request_def mod_inv_on_rx_response_def Let_def forward_rx_ack
      split: option.splits intro!: inv_forward)

end

section \<open>Runs\<close>

text \<open>
  What happens to a session: an event of a transaction, which the transaction layer has brought into a
  new state; a message outside a transaction; and the calls of the application.
\<close>

datatype inv_op =
  Tsx_event nat inv_transaction "inv_rx_data option"
| Request_event inv_rx_data
| Response_event inv_rx_data
| Call_initial_answer inv_rx_data nat "pjmedia_sdp_session option"
| Call_answer nat "pjmedia_sdp_session option"
| Call_end_session nat
| Call_send_msg nat
| Call_terminate nat bool
| Call_invite
| Call_reinvite "bool option" "pjmedia_sdp_session option"
| Call_update "bool option" "pjmedia_sdp_session option"
| Call_sdp_answer pjmedia_sdp_session
| Call_local_sdp pjmedia_sdp_session
| Call_redirect pjsip_redirect_op
| Call_restart bool

fun run_op :: "inv_env \<Rightarrow> inv_op \<Rightarrow> inv_world \<Rightarrow> inv_world" where
  "run_op E (Tsx_event t x rdata) w = mod_inv_on_tsx_state E t rdata (upd_itsx t (\<lambda>_. x) w)"
| "run_op E (Request_event rdata) w = fst (mod_inv_on_rx_request E rdata w)"
| "run_op E (Response_event rdata) w = fst (mod_inv_on_rx_response E rdata w)"
| "run_op E (Call_initial_answer rdata code sdp) w = fst (pjsip_inv_initial_answer E rdata code sdp w)"
| "run_op E (Call_answer code sdp) w = fst (pjsip_inv_answer E code sdp w)"
| "run_op E (Call_end_session code) w = fst (pjsip_inv_end_session E code w)"
| "run_op E (Call_send_msg d) w = fst (pjsip_inv_send_msg E d w)"
| "run_op E (Call_terminate code b) w = pjsip_inv_terminate E code b w"
| "run_op E Call_invite w = fst (pjsip_inv_invite E w)"
| "run_op E (Call_reinvite c sdp) w = fst (pjsip_inv_reinvite E c sdp w)"
| "run_op E (Call_update c sdp) w = fst (pjsip_inv_update E c sdp w)"
| "run_op E (Call_sdp_answer sdp) w = fst (pjsip_inv_set_sdp_answer E sdp w)"
| "run_op E (Call_local_sdp sdp) w = fst (pjsip_inv_set_local_sdp E sdp w)"
| "run_op E (Call_redirect op) w = fst (pjsip_inv_process_redirect E op Ev_user w)"
| "run_op E (Call_restart b) w = pjsip_inv_uac_restart E b w"

text \<open>Redirection and restart are for calls that have not been answered.\<close>

fun op_legal :: "inv_op \<Rightarrow> inv_world \<Rightarrow> bool" where
  "op_legal (Call_redirect op) w \<longleftrightarrow> inv_state (inv w) < PJSIP_INV_STATE_CONNECTING"
| "op_legal (Call_restart b) w \<longleftrightarrow> inv_state (inv w) < PJSIP_INV_STATE_CONNECTING"
| "op_legal _ w \<longleftrightarrow> True"

inductive inv_reaches :: "inv_env \<Rightarrow> inv_world \<Rightarrow> bool" for E where
  uac: "inv_reaches E w'" if "iw_trace w = []" "pjsip_inv_create_uac E sdp options w = (w', PJ_SUCCESS)"
| uas: "inv_reaches E w'" if "iw_trace w = []" "pjsip_inv_create_uas E rdata sdp options w = (w', PJ_SUCCESS)"
| op: "inv_reaches E (run_op E f w)" if "inv_reaches E w" "op_legal f w"

context inv_user
begin

lemma forward_op: "op_legal f w \<Longrightarrow> forward w (run_op E f w)"
  by (cases f) (auto simp: forward_rx
      intro!: forward_trans [OF same_forward [OF same_upds(2) [OF same_refl]] forward_tsx_state]
      inv_forward same_fwd2 forward_process_redirect forward_restart)

end

text \<open>A new session has no state, and its negotiator is created from the descriptions that are there.\<close>

definition run_ok :: "inv_world \<Rightarrow> bool" where
  "run_ok w \<longleftrightarrow> sess_ok w \<and> neg_sound w \<and>
     inv_path (iw_trace w) (PJSIP_INV_STATE_NULL, True) = Some (inv_state (inv w), pools_live (inv w))"

lemma create_ok:
  assumes "iw_trace w = []"
  shows "pjsip_inv_create_uac E sdp options w = (w', PJ_SUCCESS) \<Longrightarrow> run_ok w'"
    "pjsip_inv_create_uas E rdata sdp options w = (w', PJ_SUCCESS) \<Longrightarrow> run_ok w'"
  using assms created_ok
  by (auto simp: pjsip_inv_create_uac_def pjsip_inv_create_uas_def Let_def start_session_def neg_create_def
      run_ok_def sess_ok_def neg_sound_def split: option.splits prod.splits if_splits sum.splits)

context inv_user
begin

lemma forward_run_ok: "forward w w' \<Longrightarrow> run_ok w \<Longrightarrow> run_ok w'"
  by (auto simp: run_ok_def forward_def follows_def inv_path_append)

lemma reaches_ok: "inv_reaches E w \<Longrightarrow> run_ok w"
  by (induction rule: inv_reaches.induct) (auto intro: create_ok forward_run_ok forward_op)

end

section \<open>What a path says\<close>

fun released :: "pjsip_inv_state \<times> bool \<Rightarrow> nat" where
  "released (s, live) = (if live then 0 else 1)"

lemma inv_path_ended: "inv_path tr p = Some q \<Longrightarrow> count_list tr Ended + released p = released q"
  by (induction tr p rule: inv_path.induct) (auto split: if_splits)

lemma inv_path_states:
  "inv_path tr p = Some q \<Longrightarrow> State_set s s' \<in> set tr \<Longrightarrow> s \<le> s' \<and> s \<noteq> PJSIP_INV_STATE_DISCONNECTED"
  by (induction tr p rule: inv_path.induct) (auto split: if_splits)

text \<open>Once a session has ended, nothing that counts for the path follows.\<close>

lemma inv_path_over:
  assumes "inv_path tr (PJSIP_INV_STATE_DISCONNECTED, False) = Some q"
  shows "q = (PJSIP_INV_STATE_DISCONNECTED, False)"
  using assms
  by (induction tr "(PJSIP_INV_STATE_DISCONNECTED, False)" rule: inv_path.induct) (auto simp: inv_state_order)

lemma over_forward:
  assumes "forward w w'" "sess_ok w" "inv_state (inv w) = PJSIP_INV_STATE_DISCONNECTED"
  shows "inv_state (inv w') = PJSIP_INV_STATE_DISCONNECTED"
  using assms inv_path_over by (fastforce simp: forward_def follows_def sess_ok_def)

end
