(* ===== verification/Inv_Dialog.thy ===== *)
theory Inv_Dialog
  imports Inv_Run Sdp_Match
begin

text \<open>
  The dialog as the environment of its session (\<^verbatim>\<open>pjsip/src/pjsip/sip_dialog.c\<close>,
  \<^verbatim>\<open>pjsip/src/pjsip/sip_transaction.c\<close>), over a transport that takes every message: sending a request
  or a response changes the state of its transaction, and the session is told before the call returns.
  This is a mutual recursion of the session with itself, cut at a depth. At the bottom messages are
  taken without a report. The extensions do nothing, and the application does not act in its callbacks.
\<close>

section \<open>The environment\<close>

definition quiet_env :: "neg_env \<Rightarrow> inv_env" where
  "quiet_env N =
     \<lparr>neg_cbs = N,
      create_status = \<lambda>m w. PJ_SUCCESS, response_status = \<lambda>r c w. PJ_SUCCESS,
      cancel_status = \<lambda>d w. PJ_SUCCESS, auth_status = \<lambda>r t w. PJ_SUCCESS,
      dlg_send = \<lambda>d a w. (w, PJ_SUCCESS), dlg_respond = \<lambda>t d w. (w, PJ_SUCCESS),
      set_timeout = \<lambda>t w. w, tsx_terminate_call = \<lambda>t c w. w, find_invite_tsx = \<lambda>r w. invite_tsx (inv w),
      timer_process_resp = \<lambda>r w. (w, PJ_SUCCESS, 0), timer_process_req = \<lambda>r w. (w, PJ_SUCCESS, 0),
      timer_update_req = \<lambda>d w. (w, PJ_SUCCESS), timer_update_resp = \<lambda>d w. (w, PJ_SUCCESS),
      rel_is_reliable = \<lambda>r. False, rel_create_prack = \<lambda>r w. (w, PJ_EINVALIDOP, 0),
      rel_send_prack = \<lambda>d w. w, rel_tx_response = \<lambda>d w. (w, PJ_SUCCESS),
      rel_on_rx_prack = \<lambda>r w. (w, PJ_EINVALIDOP), targets_of = \<lambda>r. [],
      add_usage_status = \<lambda>w. PJ_SUCCESS, on_state_changed = \<lambda>e w. w, on_tsx_state_changed = \<lambda>t w. w,
      on_media_update = \<lambda>s w. w, on_rx_offer = \<lambda>sdp w. w, on_send_ack = None, on_create_offer = None,
      on_redirected = None\<rparr>"

text \<open>An ACK has no transaction; any other request gets a new one, and keeps the data of its sender if asked to.\<close>

definition fresh_tsx :: "inv_world \<Rightarrow> nat" where
  "fresh_tsx w = (if invite_tsx (inv w) = Some (iw_next w) then Suc (iw_next w) else iw_next w)"

definition pjsip_dlg_send_request ::
    "inv_env \<Rightarrow> nat \<Rightarrow> bool \<Rightarrow> inv_world \<Rightarrow> inv_world \<times> pj_status" where
  "pjsip_dlg_send_request E d attach w =
     (if method_id (tx_method (iw_td w d)) = PJSIP_ACK_METHOD then (w, PJ_SUCCESS)
      else
        let t = fresh_tsx w;
            data = (if attach then Some \<lparr>sdp_done = False, done_tag = [], done_early = False\<rparr> else None);
            w = upd_itsx t (\<lambda>x. x\<lparr>role := PJSIP_ROLE_UAC, tsx_method := tx_method (iw_td w d), status_code := 0,
                  state := PJSIP_TSX_STATE_CALLING, last_tx := Some d, inv_data := data\<rparr>) w
        in (mod_inv_on_tsx_state E t None (w\<lparr>iw_next := Suc t\<rparr>), PJ_SUCCESS))"

definition pjsip_dlg_send_response :: "inv_env \<Rightarrow> nat \<Rightarrow> nat \<Rightarrow> inv_world \<Rightarrow> inv_world \<times> pj_status" where
  "pjsip_dlg_send_response E t d w =
     (if PJSIP_TSX_STATE_COMPLETED \<le> state (iw_tsx w t) then (w, PJ_SUCCESS)
      else
        let code = tx_code (iw_td w d);
            st = (if code < 200 then PJSIP_TSX_STATE_PROCEEDING else PJSIP_TSX_STATE_COMPLETED)
        in (mod_inv_on_tsx_state E t None
              (upd_itsx t (\<lambda>x. x\<lparr>status_code := code, state := st, last_tx := Some d\<rparr>) w), PJ_SUCCESS))"

definition dialog_tsx_terminate :: "inv_env \<Rightarrow> nat \<Rightarrow> nat \<Rightarrow> inv_world \<Rightarrow> inv_world" where
  "dialog_tsx_terminate E t code w =
     (if PJSIP_TSX_STATE_TERMINATED \<le> state (iw_tsx w t) then w
      else mod_inv_on_tsx_state E t None
             (upd_itsx t (\<lambda>x. x\<lparr>status_code := code, state := PJSIP_TSX_STATE_TERMINATED\<rparr>) w))"

definition dialog_env :: "inv_env \<Rightarrow> inv_env" where
  "dialog_env E = E\<lparr>dlg_send := pjsip_dlg_send_request E, dlg_respond := pjsip_dlg_send_response E,
     tsx_terminate_call := dialog_tsx_terminate E\<rparr>"

fun dialog_at :: "neg_env \<Rightarrow> nat \<Rightarrow> inv_env" where
  "dialog_at N 0 = quiet_env N"
| "dialog_at N (Suc n) = dialog_env (dialog_at N n)"

section \<open>The contract\<close>

interpretation quiet: inv_user "quiet_env N" for N
  by unfold_locales (simp_all add: quiet_env_def)

text \<open>A new transaction of a call that is being set up is none of the session's business.\<close>

lemma new_tsx_ignored:
  assumes "inv_state (inv w) = PJSIP_INV_STATE_CALLING" "Some t \<noteq> invite_tsx (inv w)"
    "status_code (iw_tsx w t) = 0" "\<And>t w. on_tsx_state_changed E t w = w"
  shows "mod_inv_on_tsx_state E t None w = w"
  using assms
  by (auto simp: mod_inv_on_tsx_state_def inv_on_state_calling_def ends_usage_def Let_def
      PJSIP_SC_TSX_TIMEOUT_def PJSIP_SC_TSX_TRANSPORT_ERROR_def)

lemma fresh_tsx_new: "Some (fresh_tsx w) \<noteq> invite_tsx (inv w)"
  by (auto simp: fresh_tsx_def)

context inv_user
begin

lemma forward_report:
  assumes "inv w' = inv w" "iw_trace w' = iw_trace w"
  shows "forward w (mod_inv_on_tsx_state E t r w')"
  by (rule forward_trans [OF same_forward [OF same_world [OF assms]] forward_tsx_state])

lemma dialog_env_user:
  assumes quiet: "\<And>t w. on_tsx_state_changed E t w = w"
  shows "inv_user (dialog_env E)"
proof
  fix w d t c e r s sdp f g a
  show "forward w (fst (dlg_send (dialog_env E) d a w))"
    by (auto simp: dialog_env_def pjsip_dlg_send_request_def Let_def intro!: forward_report)
  show "forward w (fst (dlg_respond (dialog_env E) t d w))"
    by (auto simp: dialog_env_def pjsip_dlg_send_response_def Let_def intro!: forward_report)
  show "forward w (tsx_terminate_call (dialog_env E) t c w)"
    by (auto simp: dialog_env_def dialog_tsx_terminate_def intro!: forward_report)
  show "same w (fst (dlg_send (dialog_env E) d a w))" if "inv_state (inv w) = PJSIP_INV_STATE_CALLING"
    using that fresh_tsx_new [of w]
    by (auto simp: dialog_env_def pjsip_dlg_send_request_def Let_def new_tsx_ignored quiet
        intro!: same_world)
  show "forward w (f r w)" if "on_send_ack (dialog_env E) = Some f"
    using that send_ack_forward by (simp add: dialog_env_def)
  show "same w (fst (g w))" if "on_create_offer (dialog_env E) = Some g"
    using that create_offer_same by (simp add: dialog_env_def)
qed (simp_all add: dialog_env_def rel_respond_forward prack_forward tsx_changed_forward timeout_same timer_same
  rel_same state_changed_same media_same)

end

lemma dialog_at_quiet: "on_tsx_state_changed (dialog_at N n) t w = w"
  by (induction n) (simp_all add: dialog_env_def quiet_env_def)

interpretation dialog: inv_user "dialog_at N n" for N n
  by (induction n) (simp_all add: quiet.inv_user_axioms inv_user.dialog_env_user dialog_at_quiet)

end
