(* ===== verification/Inv_Sample.thy ===== *)
theory Inv_Sample
  imports Inv_Dialog Sdp_Neg_Props
begin

text \<open>Calls of the samples: an empty world, messages with and without a description, and events.\<close>

definition no_method :: pjsip_method where
  "no_method = plain_method PJSIP_OTHER_METHOD"

definition blank_tsx :: inv_transaction where
  "blank_tsx = \<lparr>tsx_addr = 0, tsx_user = True, role = PJSIP_ROLE_UAC, tsx_method = no_method, cseq = 0,
     transaction_key = [], hashed_key = 0, branch = [], status_code = 0, state = PJSIP_TSX_STATE_NULL,
     handle_200resp = True, state_handler = None, transport = None, is_reliable = True, addr_len = 0,
     res_addr_transport = None, res_addr_len = 0, transport_flag = {}, transport_err = PJ_SUCCESS,
     tp_sel = None, pending_tx = None, last_tx = None, retransmit_count = 0, retransmit_timer = 0,
     timeout_timer = 0, util_data = None, tsx_mutex = 0, tsx_alive = True, inv_data = None\<rparr>"

definition blank_world :: "pjsip_role_e \<Rightarrow> inv_world" where
  "blank_world r = \<lparr>inv = start_session r (False, False), dlg_role = r, dlg_established = True,
     remote_tag = True, iw_tsx = \<lambda>t. blank_tsx, iw_td = \<lambda>d. new_tdata PJSIP_REQUEST_MSG no_method 0 0,
     iw_next = 0, targets = [], cur_target = 0, iw_trace = [], iw_fault = False\<rparr>"

text \<open>Responses and requests of the other side, by method, code and description.\<close>

definition rx_msg :: "pjsip_msg_type_e \<Rightarrow> pjsip_method_e \<Rightarrow> nat \<Rightarrow> pjmedia_sdp_session option \<Rightarrow> nat \<Rightarrow> inv_rx_data" where
  "rx_msg type m code sdp t = \<lparr>rx_type = type, rx_method = plain_method m, rx_code = code, rx_via = None,
     rx_cseq = Some \<lparr>cseq_num = 1, cseq_method = plain_method m\<rparr>, rx_from_tag = [], rx_call_id = [],
     rd_body = (sdp \<noteq> None), rd_sdp_body = (sdp \<noteq> None), rd_sdp_err = PJ_SUCCESS, rd_sdp = sdp,
     rd_to_tag = [], rd_tsx = t\<rparr>"

definition tsx_at :: "pjsip_role_e \<Rightarrow> pjsip_method_e \<Rightarrow> pjsip_tsx_state_e \<Rightarrow> nat \<Rightarrow> nat option \<Rightarrow> inv_transaction" where
  "tsx_at r m st code d = blank_tsx\<lparr>role := r, tsx_method := plain_method m, status_code := code, state := st, last_tx := d\<rparr>"

definition response_event :: "nat \<Rightarrow> pjsip_method_e \<Rightarrow> pjsip_tsx_state_e \<Rightarrow> nat \<Rightarrow> pjmedia_sdp_session option \<Rightarrow> inv_op" where
  "response_event t m st code sdp = Tsx_event t (tsx_at PJSIP_ROLE_UAC m st code (Some 0))
     (Some (rx_msg PJSIP_RESPONSE_MSG m code sdp t))"

definition request_event :: "nat \<Rightarrow> pjsip_method_e \<Rightarrow> pjmedia_sdp_session option \<Rightarrow> inv_op" where
  "request_event t m sdp = Tsx_event t (tsx_at PJSIP_ROLE_UAS m PJSIP_TSX_STATE_TRYING 0 None)
     (Some (rx_msg PJSIP_REQUEST_MSG m 0 sdp t))"

fun run_ops :: "inv_env \<Rightarrow> inv_op list \<Rightarrow> inv_world \<Rightarrow> inv_world" where
  "run_ops E [] w = w"
| "run_ops E (f # fs) w = run_ops E fs (run_op E f w)"

text \<open>A call out: the INVITE with the offer, a ringing tone, the answer in the 200, and the BYE of the other side.\<close>

definition out_call :: "nat \<Rightarrow> inv_world" where
  "out_call n = fst (pjsip_inv_create_uac (dialog_at codec_env n) (Some remote_call) (False, False)
     (blank_world PJSIP_ROLE_UAC))"

definition out_ops :: "inv_op list" where
  "out_ops = [Call_invite, Call_send_msg 0,
     response_event 1 PJSIP_INVITE_METHOD PJSIP_TSX_STATE_PROCEEDING 180 None,
     response_event 1 PJSIP_INVITE_METHOD PJSIP_TSX_STATE_TERMINATED 200 (Some local_call)]"

end
