(* ===== verification/Inv_Props.thy ===== *)
theory Inv_Props
  imports Inv_Sample
begin

text \<open>The properties of INVITE sessions, with calls that show them.\<close>

section \<open>Runs\<close>


fun plain_op :: "inv_op \<Rightarrow> bool" where
  "plain_op (Call_redirect op) \<longleftrightarrow> False"
| "plain_op (Call_restart b) \<longleftrightarrow> False"
| "plain_op _ \<longleftrightarrow> True"

lemma plain_legal: "plain_op f \<Longrightarrow> op_legal f w"
  by (cases f) simp_all

lemma reaches_ops:
  assumes "inv_reaches E w" "list_all plain_op fs"
  shows "inv_reaches E (run_ops E fs w)"
  using assms by (induction fs arbitrary: w) (auto intro: inv_reaches.op plain_legal)

lemma run_ops_append: "run_ops E (fs @ gs) w = run_ops E gs (run_ops E fs w)"
  by (induction fs arbitrary: w) simp_all

lemma out_call_created:
  "pjsip_inv_create_uac (dialog_at codec_env n) (Some remote_call) (False, False) (blank_world PJSIP_ROLE_UAC)
     = (out_call n, PJ_SUCCESS)"
proof -
  have s: "add_usage_status (dialog_at codec_env n) w = PJ_SUCCESS" for w
    by (induction n) (simp_all add: dialog_env_def quiet_env_def)
  have "isl (pjmedia_sdp_neg_create_w_local_offer remote_call) = False" by code_simp
  then show ?thesis
    by (auto simp: out_call_def pjsip_inv_create_uac_def neg_create_def s Let_def split: prod.splits sum.splits)
qed

lemma out_reaches:
  assumes "list_all plain_op fs"
  shows "inv_reaches (dialog_at codec_env n) (run_ops (dialog_at codec_env n) fs (out_call n))"
  by (rule reaches_ops [OF inv_reaches.uac [OF _ out_call_created] assms]) (simp add: blank_world_def)

lemma out_ops_plain: "list_all plain_op out_ops"
  by (simp add: out_ops_def response_event_def)

text \<open>The call is set up, and terminated by the application.\<close>

definition finished_call :: inv_world where
  "finished_call = run_ops (dialog_at codec_env 2) (out_ops @ [Call_terminate 487 True]) (out_call 2)"

lemma terminate_state:
  assumes "inv_user E"
  shows "inv_state (inv (pjsip_inv_terminate E c b w)) = PJSIP_INV_STATE_DISCONNECTED"
  by (simp add: pjsip_inv_terminate_def Let_def inv_user.set_state_state [OF assms])



lemma out_call_world:
  "neg_legal (iw_trace (out_call 2))" "map_option neg_state (inv_neg (inv (out_call 2))) = Some PJMEDIA_SDP_NEG_STATE_LOCAL_OFFER"
  by code_simp+


section \<open>Ends\<close>

context inv_user
begin

text \<open>What is over stays over, whatever a handler does next.\<close>

lemma over_after:
  assumes "forward w v" "sess_ok w" "inv_state (inv v) = PJSIP_INV_STATE_DISCONNECTED" "forward v w'"
  shows "inv_state (inv w') = PJSIP_INV_STATE_DISCONNECTED \<and> \<not> pools_live (inv w') \<and>
    (\<exists>tr. iw_trace w' = iw_trace v @ tr) \<and>
    (inv_state (inv w) \<noteq> PJSIP_INV_STATE_DISCONNECTED \<longrightarrow>
      (\<exists>tr. iw_trace w' = iw_trace w @ tr \<and> count_list tr Ended = 1))"
proof -
  have v: "sess_ok v" using assms(1,2) by (simp add: forward_def)
  have d: "inv_state (inv w') = PJSIP_INV_STATE_DISCONNECTED" by (rule over_forward [OF assms(4) v assms(3)])
  have w: "follows w w'" "sess_ok w'" "follows v w'"
    using forward_trans [OF assms(1,4)] assms(2,4) v by (simp_all add: forward_def)
  then obtain tr where tr: "iw_trace w' = iw_trace w @ tr"
      "inv_path tr (inv_state (inv w), pools_live (inv w)) = Some (inv_state (inv w'), pools_live (inv w'))"
    by (auto simp: follows_def)
  have "count_list tr Ended = 1" if "inv_state (inv w) \<noteq> PJSIP_INV_STATE_DISCONNECTED"
    using inv_path_ended [OF tr(2)] that assms(2) w(2) d by (simp add: sess_ok_def)
  then show ?thesis using d w tr(1) by (auto simp: sess_ok_def follows_def)
qed

text \<open>The tail of the callback of the module.\<close>

lemma tsx_state_tail: "forward (inv_state_handler (inv_state (inv w)) E t r w) (mod_inv_on_tsx_state E t r w)"
  by (auto simp: mod_inv_on_tsx_state_def Let_def intro!: inv_forward same_fwd2)

lemma follows_trace: "forward w w' \<Longrightarrow> sess_ok w \<Longrightarrow> \<exists>tr. iw_trace w' = iw_trace w @ tr"
  by (auto simp: forward_def follows_def)

lemma respond_trace:
  assumes "snd (respond_with E t r c w) = PJ_SUCCESS" "sess_ok w"
  shows "\<exists>tr. iw_trace (fst (respond_with E t r c w)) = iw_trace w @ Sent_response t c None # tr"
proof -
  define w1 where "w1 = fst (dlg_create_response E r c w)"
  let ?d = "snd (snd (dlg_create_response E r c w))"
  let ?w2 = "iw_emit (Sent_response t c None) w1"
  have s: "same w w1" unfolding w1_def by (intro inv_same) simp
  have "response_status E r c w = PJ_SUCCESS"
    using assms(1) by (auto simp: respond_with_def dlg_create_response_def split: if_splits)
  then have d: "tx_code (iw_td w1 ?d) = c" "tx_body (iw_td w1 ?d) = None" "iw_trace w1 = iw_trace w"
    and e: "fst (respond_with E t r c w) = fst (dlg_respond E t ?d ?w2)"
    by (auto simp: respond_with_def dlg_create_response_def send_response_def alloc_tdata_def new_tdata_def
        w1_def Let_def split_beta)
  have "sess_ok ?w2" by (rule same_sess_ok [OF same_emit [OF s] assms(2)]) simp
  from follows_trace [OF respond_forward this] show ?thesis by (auto simp: e d(3))
qed

lemma bye_state:
  assumes "snd (respond_with E t r 200 w) = PJ_SUCCESS"
  shows "inv_state (inv (inv_respond_incoming_bye E t r e w)) = PJSIP_INV_STATE_DISCONNECTED"
  using assms by (auto simp: inv_respond_incoming_bye_def inv_disconnect_def split_beta)

end

lemma bye_handled:
  assumes "inv_state (inv w) \<in> {PJSIP_INV_STATE_EARLY, PJSIP_INV_STATE_CONNECTING, PJSIP_INV_STATE_CONFIRMED}"
    "role (iw_tsx w t) = PJSIP_ROLE_UAS" "method_id (tsx_method (iw_tsx w t)) = PJSIP_BYE_METHOD"
    "status_code (iw_tsx w t) < 200" "Some t \<noteq> invite_tsx (inv w)"
  shows "inv_state_handler (inv_state (inv w)) E t (Some r) w =
    (let w' = inv_respond_incoming_bye E t r (Ev_tsx t (Some r)) w
     in if inv_state (inv w) = PJSIP_INV_STATE_EARLY then bye_in_early E w' else w')"
  using assms
  by (auto simp: inv_on_state_early_def inv_on_state_connecting_def inv_on_state_confirmed_def Let_def
      incoming_request_def outgoing_bye_done_def incoming_update_def outgoing_update_done_def incoming_prack_def
      is_update_def pjsip_method_cmp_def pjsip_update_method_def pjsip_prack_method_def)

text \<open>C34: A BYE of the other side ends the session. In EARLY, CONNECTING and CONFIRMED it is answered with 200
  first; then, if that could be sent, the session is in DISCONNECTED and has released its resources, exactly
  once, whatever the dialog and the application do meanwhile.\<close>

theorem bye_ends_session:
  assumes "inv_user E" "sess_ok w"
    "inv_state (inv w) \<in> {PJSIP_INV_STATE_EARLY, PJSIP_INV_STATE_CONNECTING, PJSIP_INV_STATE_CONFIRMED}"
    "role (iw_tsx w t) = PJSIP_ROLE_UAS" "method_id (tsx_method (iw_tsx w t)) = PJSIP_BYE_METHOD"
    "status_code (iw_tsx w t) < 200" "Some t \<noteq> invite_tsx (inv w)"
    "snd (respond_with E t r 200 w) = PJ_SUCCESS"
  defines "w' \<equiv> mod_inv_on_tsx_state E t (Some r) w"
  shows "inv_state (inv w') = PJSIP_INV_STATE_DISCONNECTED \<and> \<not> pools_live (inv w') \<and>
    (\<exists>tr. iw_trace w' = iw_trace w @ Sent_response t 200 None # tr \<and> count_list tr Ended = 1)"
proof -
  let ?v = "inv_respond_incoming_bye E t r (Ev_tsx t (Some r)) w"
  let ?h = "inv_state_handler (inv_state (inv w)) E t (Some r) w"
  have f: "forward w ?v" by (rule inv_user.forward_incoming_bye [OF assms(1)]) simp
  have "forward ?v ?h"
    unfolding bye_handled [OF assms(3-7)] Let_def
    by (simp add: inv_user.forward_bye_in_early [OF assms(1)])
  then have g: "forward ?v w'"
    unfolding w'_def by (rule forward_trans [OF _ inv_user.tsx_state_tail [OF assms(1)]])
  have d: "inv_state (inv ?v) = PJSIP_INV_STATE_DISCONNECTED" by (rule inv_user.bye_state [OF assms(1,8)])
  note o = inv_user.over_after [OF assms(1) f assms(2) d g]
  let ?u = "fst (respond_with E t r 200 w)"
  have u: "forward w ?u" by (rule inv_user.forward_respond_with [OF assms(1)]) simp
  have "?v = (if inv_state (inv ?u) \<noteq> PJSIP_INV_STATE_DISCONNECTED
      then inv_disconnect E 200 (Ev_tsx t (Some r)) ?u else ?u)"
    using assms(8) by (simp add: inv_respond_incoming_bye_def split_beta)
  then have "forward ?u ?v" using inv_user.forward_disconnect [OF assms(1), of ?u ?u] by simp
  moreover have "sess_ok ?u" using u assms(2) by (simp add: forward_def)
  ultimately have "\<exists>tr. iw_trace w' = iw_trace ?u @ tr"
    using g by (blast intro: inv_user.follows_trace [OF assms(1)] forward_trans)
  then obtain tr where tr: "iw_trace w' = iw_trace w @ Sent_response t 200 None # tr"
    using inv_user.respond_trace [OF assms(1,8,2)] by auto
  have "inv_state (inv w) \<noteq> PJSIP_INV_STATE_DISCONNECTED" using assms(3) by auto
  then show ?thesis using o tr by auto
qed

lemma dialog_sends:
  "snd (dlg_send (dialog_at N n) d a w) = PJ_SUCCESS" "snd (dlg_respond (dialog_at N n) t d w) = PJ_SUCCESS"
  "create_status (dialog_at N n) m w = PJ_SUCCESS" "response_status (dialog_at N n) r c w = PJ_SUCCESS"
proof -
  show "create_status (dialog_at N n) m w = PJ_SUCCESS" "response_status (dialog_at N n) r c w = PJ_SUCCESS"
    by (induction n) (simp_all add: dialog_env_def quiet_env_def)
  show "snd (dlg_send (dialog_at N n) d a w) = PJ_SUCCESS" "snd (dlg_respond (dialog_at N n) t d w) = PJ_SUCCESS"
    by (cases n; simp add: dialog_env_def quiet_env_def pjsip_dlg_send_request_def pjsip_dlg_send_response_def
        Let_def)+
qed

lemma dialog_responds: "snd (respond_with (dialog_at N n) t r c w) = PJ_SUCCESS"
  by (simp add: respond_with_def dlg_create_response_def send_response_def dialog_sends split_beta Let_def)

text \<open>A call that is up, and the transaction \<open>x\<close> at the address \<open>t\<close>.\<close>

definition talking :: "nat \<Rightarrow> inv_transaction \<Rightarrow> inv_world" where
  "talking t x = (blank_world PJSIP_ROLE_UAC)\<lparr>iw_tsx := (\<lambda>t. blank_tsx)(t := x),
     inv := (start_session PJSIP_ROLE_UAC (False, False))\<lparr>inv_state := PJSIP_INV_STATE_CONFIRMED\<rparr>\<rparr>"

lemma talking_simps:
  "sess_ok (talking t x)" "inv_state (inv (talking t x)) = PJSIP_INV_STATE_CONFIRMED" "iw_tsx (talking t x) t = x"
  "invite_tsx (inv (talking t x)) = None" "iw_trace (talking t x) = []"
  by (simp_all add: talking_def start_session_def sess_ok_def blank_world_def)

lemma tsx_at_simps [simp]:
  "role (tsx_at r m st c d) = r" "tsx_method (tsx_at r m st c d) = plain_method m" "state (tsx_at r m st c d) = st"
  "status_code (tsx_at r m st c d) = c" "last_tx (tsx_at r m st c d) = d"
  by (simp_all add: tsx_at_def)

lemma plain_method_simps [simp]: "method_id (plain_method m) = m" "method_name (plain_method m) = []"
  by (simp_all add: plain_method_def)

theorem bye_ends_session_witness:
  "inv_state (inv (mod_inv_on_tsx_state (dialog_at codec_env 1) 5 (Some (rx_msg PJSIP_REQUEST_MSG PJSIP_BYE_METHOD 0 None 5))
     (talking 5 (tsx_at PJSIP_ROLE_UAS PJSIP_BYE_METHOD PJSIP_TSX_STATE_TRYING 0 None)))) = PJSIP_INV_STATE_DISCONNECTED"
  by (rule bye_ends_session [THEN conjunct1, OF dialog.inv_user_axioms talking_simps(1)])
    (simp_all add: talking_simps dialog_responds del: One_nat_def dialog_at.simps)

text \<open>Sending a new request of the dialog in a session that is over.\<close>

context inv_user
begin

lemma send_new_request:
  assumes "create_status E m w = PJ_SUCCESS" "method_id m \<noteq> PJSIP_INVITE_METHOD" "sess_ok w"
  defines "c \<equiv> dlg_create_request E m 0 w"
  shows "fst (snd c) = PJ_SUCCESS"
    "\<exists>tr. iw_trace (fst (pjsip_inv_send_msg E (snd (snd c)) (fst c))) = iw_trace w @ Sent_request m None # tr"
proof -
  let ?w1 = "fst c"
  let ?w2 = "iw_emit (Sent_request m None) ?w1"
  have s: "same w ?w1" unfolding c_def by (intro inv_same) simp
  show "fst (snd c) = PJ_SUCCESS" using assms(1) by (simp add: c_def dlg_create_request_def split_beta Let_def)
  have td: "tx_type (iw_td ?w1 (snd (snd c))) = PJSIP_REQUEST_MSG" "tx_method (iw_td ?w1 (snd (snd c))) = m"
    "tx_body (iw_td ?w1 (snd (snd c))) = None" "iw_trace ?w1 = iw_trace w"
    using assms(1) by (simp_all add: c_def dlg_create_request_def alloc_tdata_def new_tdata_def)
  have "fst (pjsip_inv_send_msg E (snd (snd c)) ?w1) = fst (dlg_send E (snd (snd c)) True ?w2)"
    using assms(2) by (simp add: pjsip_inv_send_msg_def send_request_def td)
  moreover have "sess_ok ?w2" by (rule same_sess_ok [OF same_emit [OF s] assms(3)]) simp
  ultimately show "\<exists>tr. iw_trace (fst (pjsip_inv_send_msg E (snd (snd c)) ?w1)) = iw_trace w @ Sent_request m None # tr"
    using follows_trace [OF send_forward] td(4) by fastforce
qed

end

text \<open>C35: A session whose dialog the other side no longer knows, or that gets no answer, ends. When a request of
  the session in CONNECTING or CONFIRMED fails with 481 (not for a CANCEL), with 408, with a timeout or with an
  error of the transport, the session enters DISCONNECTED and releases its resources exactly once, and a BYE
  is sent all the same if one can be created.\<close>

theorem lost_dialog_ends_session:
  fixes rdata :: "inv_rx_data option"
  assumes "inv_user E" "sess_ok w" "inv_state (inv w) \<in> {PJSIP_INV_STATE_CONNECTING, PJSIP_INV_STATE_CONFIRMED}"
    "Some t \<noteq> invite_tsx (inv w)" "role (iw_tsx w t) = PJSIP_ROLE_UAC" "ends_usage (iw_tsx w t)"
    "method_id (tsx_method (iw_tsx w t)) = PJSIP_INVITE_METHOD \<Longrightarrow> state (iw_tsx w t) \<noteq> PJSIP_TSX_STATE_CALLING"
    "method_id (tsx_method (iw_tsx w t)) \<noteq> PJSIP_BYE_METHOD"
  defines "w' \<equiv> mod_inv_on_tsx_state E t rdata w"
  shows "inv_state (inv w') = PJSIP_INV_STATE_DISCONNECTED \<and> \<not> pools_live (inv w') \<and>
    (\<exists>tr. iw_trace w' = iw_trace w @ tr \<and> count_list tr Ended = 1 \<and>
      ((\<forall>w. create_status E (plain_method PJSIP_BYE_METHOD) w = PJ_SUCCESS) \<longrightarrow>
        Sent_request (plain_method PJSIP_BYE_METHOD) None \<in> set tr))"
proof -
  let ?e = "Ev_tsx t rdata"
  define v where "v = inv_disconnect E (status_code (iw_tsx w t)) ?e w"
  let ?c = "dlg_create_request E (plain_method PJSIP_BYE_METHOD) 0 v"
  define u where "u = (if fst (snd ?c) = PJ_SUCCESS then fst (pjsip_inv_send_msg E (snd (snd ?c)) (fst ?c)) else fst ?c)"
  have nd: "inv_state (inv w) \<noteq> PJSIP_INV_STATE_DISCONNECTED" using assms(3) by auto
  have h: "handle_uac_tsx_response E t rdata ?e w = (u, True)"
    using assms(6) nd by (auto simp: handle_uac_tsx_response_def ends_usage_def Let_def split_beta v_def u_def)
  have c2: "status_code (iw_tsx w t) div 100 \<noteq> 2"
    using assms(6) by (auto simp: ends_usage_def PJSIP_SC_TSX_TIMEOUT_def PJSIP_SC_TSX_TRANSPORT_ERROR_def)
  have s: "inv_state_handler (inv_state (inv w)) E t rdata w = u"
    using assms(3-8) h c2
    by (auto simp: inv_on_state_connecting_def inv_on_state_confirmed_def in_dialog_event_def incoming_request_def
        outgoing_bye_done_def incoming_update_def incoming_prack_def uac_reinvite_event_def Let_def)
  have v: "forward w v" "inv_state (inv v) = PJSIP_INV_STATE_DISCONNECTED"
    unfolding v_def using inv_user.forward_disconnect [OF assms(1) forward_refl nd]
    by (simp_all add: inv_disconnect_def inv_user.set_state_state [OF assms(1)])
  have u: "forward v u"
    unfolding u_def using same_forward [OF same_create(1) [OF same_refl]]
    by (auto intro!: inv_user.forward_send_msg [OF assms(1)])
  have g: "forward u w'" "forward v w'"
    using inv_user.tsx_state_tail [OF assms(1), of w t rdata] u forward_trans unfolding w'_def s by blast+
  note o = inv_user.over_after [OF assms(1) v(1) assms(2) v(2) g(2)]
  have ok: "sess_ok v" "sess_ok u" using v(1) u assms(2) by (simp_all add: forward_def)
  obtain tr1 where t1: "iw_trace v = iw_trace w @ tr1" using inv_user.follows_trace [OF assms(1) v(1) assms(2)] by auto
  obtain tr2 where t2: "iw_trace w' = iw_trace u @ tr2" using inv_user.follows_trace [OF assms(1) g(1) ok(2)] by auto
  obtain tr where t: "iw_trace w' = iw_trace w @ tr" "count_list tr Ended = 1" using o nd by blast
  have "\<exists>tr3. tr = tr1 @ Sent_request (plain_method PJSIP_BYE_METHOD) None # tr3"
    if "\<forall>w. create_status E (plain_method PJSIP_BYE_METHOD) w = PJ_SUCCESS"
    using inv_user.send_new_request [OF assms(1) _ _ ok(1), of "plain_method PJSIP_BYE_METHOD"] that t1 t2 t(1)
    by (auto simp: u_def)
  then have "(\<forall>w. create_status E (plain_method PJSIP_BYE_METHOD) w = PJ_SUCCESS) \<longrightarrow>
      Sent_request (plain_method PJSIP_BYE_METHOD) None \<in> set tr" by auto
  then show ?thesis using o t by blast
qed

theorem lost_dialog_ends_session_witness:
  "let w' = mod_inv_on_tsx_state (dialog_at codec_env 1) 5 None
     (talking 5 (tsx_at PJSIP_ROLE_UAC PJSIP_INVITE_METHOD PJSIP_TSX_STATE_TERMINATED 408 None))
   in inv_state (inv w') = PJSIP_INV_STATE_DISCONNECTED \<and>
      Sent_request (plain_method PJSIP_BYE_METHOD) None \<in> set (iw_trace w')"
  using lost_dialog_ends_session [where E = "dialog_at codec_env 1" and t = 5 and rdata = None and
      w = "talking 5 (tsx_at PJSIP_ROLE_UAC PJSIP_INVITE_METHOD PJSIP_TSX_STATE_TERMINATED 408 None)"]
  by (auto simp: dialog.inv_user_axioms talking_simps ends_usage_def dialog_sends Let_def simp del: One_nat_def dialog_at.simps)

end
