(* ===== verification/Inv_Flow_Props.thy ===== *)
theory Inv_Flow_Props
  imports Inv_Props
begin

text \<open>What INVITE sessions do on answers, CANCEL, glare, redirection and an end that comes too early.\<close>

section \<open>Ending in the callback\<close>

lemma enter_releases_again:
  assumes "w1 = on_state_changed E e (iw_emit (State_cb st) (iw_emit (State_set (inv_state (inv w)) st)
      (upd_inv (\<lambda>s. s\<lparr>inv_state := st, cb_called := insert st (cb_called s)\<rparr>) w)))"
    "inv_notify (inv w)" "st \<noteq> PJSIP_INV_STATE_CALLING" "inv_state (inv w) \<noteq> PJSIP_INV_STATE_DISCONNECTED"
    "inv_state (inv w1) = PJSIP_INV_STATE_DISCONNECTED"
  shows "enter_inv_state E st e w = inv_release w1"
  using assms by (simp add: enter_inv_state_def Let_def)

lemma release_again:
  assumes "\<not> pools_live (inv w)"
  shows "iw_fault (inv_release w)" "iw_trace (inv_release w) = iw_trace w @ [Ended]"
  using assms by (auto simp: inv_release_def Let_def iw_crash_def td_ref_def split: option.splits)

text \<open>C36: An application that terminates the session in the callback for a change of its state makes the session
  release its resources twice: once inside the callback, and again when the change that was reported
  finds the session in DISCONNECTED. The second time the pools are gone, which faults.\<close>

theorem nested_end_releases_twice:
  fixes e :: inv_event
  assumes "inv_user E0" "\<And>e w. on_state_changed E e w = pjsip_inv_terminate E0 code b w"
    "sess_ok w" "inv_notify (inv w)" "inv_state (inv w) < st"
    "st \<notin> {PJSIP_INV_STATE_CALLING, PJSIP_INV_STATE_CONFIRMED, PJSIP_INV_STATE_DISCONNECTED}"
  defines "w' \<equiv> inv_set_state E st e w"
  shows "iw_fault w' \<and> count_list (iw_trace w') Ended = count_list (iw_trace w) Ended + 2"
proof -
  let ?w0 = "upd_inv (\<lambda>s. s\<lparr>inv_state := st, cb_called := insert st (cb_called s)\<rparr>) w"
  let ?w1 = "iw_emit (State_cb st) (iw_emit (State_set (inv_state (inv w)) st) ?w0)"
  let ?w2 = "pjsip_inv_terminate E0 code b ?w1"
  have nd: "inv_state (inv w) \<noteq> PJSIP_INV_STATE_DISCONNECTED"
    using assms(5) by (cases st) (auto simp: inv_state_order)
  then have ok: "sess_ok ?w1" using assms(3,6) by (simp add: sess_ok_def)
  have d: "inv_state (inv ?w2) = PJSIP_INV_STATE_DISCONNECTED" by (rule terminate_state [OF assms(1)])
  have f: "forward ?w1 ?w2" by (rule inv_user.forward_terminate [OF assms(1)]) simp
  have "inv_state (inv ?w1) \<noteq> PJSIP_INV_STATE_DISCONNECTED" using assms(6) by simp
  then have o: "\<not> pools_live (inv ?w2)" "count_list (iw_trace ?w2) Ended = Suc (count_list (iw_trace w) Ended)"
    using inv_user.over_after [OF assms(1) f ok d forward_refl] by auto
  have "w' = enter_inv_state E st e w" using assms(6) by (simp add: w'_def inv_set_state_def)
  also have "\<dots> = inv_release ?w2"
    by (rule enter_releases_again) (use assms(2,4,6) nd d in simp_all)
  finally show ?thesis using release_again [OF o(1)] o(2) by simp
qed

definition hasty_env :: inv_env where
  "hasty_env = (quiet_env codec_env)\<lparr>on_state_changed := \<lambda>e w. pjsip_inv_terminate (quiet_env codec_env) 486 True w\<rparr>"

text \<open>The callee hangs up in the callback that tells it of the call.\<close>

theorem nested_end_releases_twice_witness:
  "count_list (iw_trace (inv_set_state hasty_env PJSIP_INV_STATE_INCOMING Ev_user (blank_world PJSIP_ROLE_UAS))) Ended = 2"
proof -
  have "count_list (iw_trace (inv_set_state hasty_env PJSIP_INV_STATE_INCOMING Ev_user (blank_world PJSIP_ROLE_UAS))) Ended
      = count_list (iw_trace (blank_world PJSIP_ROLE_UAS)) Ended + 2"
    by (rule nested_end_releases_twice [THEN conjunct2, OF quiet.inv_user_axioms])
      (simp_all add: hasty_env_def blank_world_def start_session_def sess_ok_def inv_state_order)
  then show ?thesis by (simp add: blank_world_def)
qed

section \<open>Redirection\<close>

lemma next_zero_first:
  assumes "next_zero ts i = Some j"
  shows "\<forall>k<j - i. target_code (ts ! k) \<noteq> 0"
  using assms
proof (induction ts arbitrary: i)
  case (Cons t ts)
  show ?case
  proof (cases "target_code t = 0")
    case True
    then show ?thesis using Cons.prems by simp
  next
    case False
    then have n: "next_zero ts (Suc i) = Some j" using Cons.prems by simp
    show ?thesis
    proof (intro allI impI)
      fix k assume "k < j - i"
      then show "target_code ((t # ts) ! k) \<noteq> 0"
        using False Cons.IH [OF n] by (cases k) auto
    qed
  qed
qed simp

lemma next_zero_none: "next_zero ts i = None \<Longrightarrow> t \<in> set ts \<Longrightarrow> target_code t \<noteq> 0"
  by (induction ts arbitrary: i) (auto split: if_splits)

text \<open>What the search does to the targets it passes.\<close>

definition passed :: "(nat \<Rightarrow> pjsip_redirect_op) \<Rightarrow> nat \<Rightarrow> pjsip_target \<Rightarrow> pjsip_target \<Rightarrow> bool" where
  "passed decide i t t' \<longleftrightarrow> t' = t \<or>
     (target_code t = 0 \<and> \<not> target_is_sip t \<and> t' = t\<lparr>target_code := 416\<rparr>) \<or>
     (target_code t = 0 \<and> target_is_sip t \<and> decide i = PJSIP_REDIRECT_REJECT \<and> t' = t\<lparr>target_code := 487\<rparr>)"

definition all_passed :: "(nat \<Rightarrow> pjsip_redirect_op) \<Rightarrow> pjsip_target list \<Rightarrow> pjsip_target list \<Rightarrow> bool" where
  "all_passed decide ts ts' \<longleftrightarrow> length ts' = length ts \<and> (\<forall>i<length ts. passed decide i (ts ! i) (ts' ! i))"

lemma assign_simps [simp]:
  "length (pjsip_target_assign_status i c ts) = length ts"
  "k < length ts \<Longrightarrow> target_is_sip (pjsip_target_assign_status i c ts ! k) = target_is_sip (ts ! k)"
  by (cases "k = i"; simp add: pjsip_target_assign_status_def)+

lemma all_passed_refl: "all_passed decide ts ts"
  by (simp add: all_passed_def passed_def)

lemma all_passed_assign:
  assumes "all_passed decide (pjsip_target_assign_status i c ts) ts'" "i < length ts" "target_code (ts ! i) = 0"
    "(c = 416 \<and> \<not> target_is_sip (ts ! i)) \<or>
     (c = 487 \<and> target_is_sip (ts ! i) \<and> decide i = PJSIP_REDIRECT_REJECT)"
  shows "all_passed decide ts ts'"
  unfolding all_passed_def
proof (intro conjI allI impI)
  show "length ts' = length ts" using assms(1,2) by (simp add: all_passed_def pjsip_target_assign_status_def)
  fix k assume k: "k < length ts"
  then have "passed decide k (ts[i := (ts ! i)\<lparr>target_code := c\<rparr>] ! k) (ts' ! k)"
    using assms(1,2) by (simp add: all_passed_def pjsip_target_assign_status_def)
  then show "passed decide k (ts ! k) (ts' ! k)"
    using assms(2-4) by (cases "k = i") (auto simp: passed_def)
qed

text \<open>C37: A redirected call looks for its next target in order. Targets without a status whose URI is not one of SIP
  get 416, those the application rejects get 487, and no other target changes. The target found is one
  of SIP without a status that the application does not reject, and every target before it has a status.
  None is found only when every target has a status, or one has succeeded or declined for the whole
  call.\<close>

theorem redirect_finds_next_target:
  assumes "next_target decide cur ts = (ts', cur', found)"
  shows "all_passed decide ts ts' \<and>
    (case found of
       Some op \<Rightarrow> cur' < length ts \<and> target_is_sip (ts ! cur') \<and> target_code (ts' ! cur') = 0 \<and>
         op = decide cur' \<and> op \<noteq> PJSIP_REDIRECT_REJECT \<and> (\<forall>k<cur'. target_code (ts' ! k) \<noteq> 0)
     | None \<Rightarrow> (\<forall>t\<in>set ts'. target_code t \<noteq> 0) \<or>
         (\<exists>t\<in>set ts'. code_class (target_code t) 200 \<or> code_class (target_code t) 600))"
  using assms
proof (induction decide cur ts rule: next_target.induct)
  case (1 decide cur ts)
  show ?case
  proof (cases "pjsip_target_set_get_next ts")
    case None
    then show ?thesis
      using "1.prems" next_zero_none [of ts 0]
      by (auto simp: next_target.simps [of decide cur ts] pjsip_target_set_get_next_def all_passed_refl split: if_splits)
  next
    case (Some i)
    note g = get_next_open [OF Some]
    have f: "\<forall>k<i. target_code (ts ! k) \<noteq> 0"
      using Some next_zero_first [of ts 0 i] by (auto simp: pjsip_target_set_get_next_def split: if_splits)
    consider "\<not> target_is_sip (ts ! i)" | "target_is_sip (ts ! i)" "decide i = PJSIP_REDIRECT_REJECT"
      | "target_is_sip (ts ! i)" "decide i \<noteq> PJSIP_REDIRECT_REJECT" by blast
    then show ?thesis
    proof cases
      case 1
      then have "next_target decide cur (pjsip_target_assign_status i 416 ts) = (ts', cur', found)"
        using "1.prems" Some by (simp add: next_target.simps [of decide cur ts])
      note ih = "1.IH"(1) [OF Some 1 this]
      show ?thesis
        using ih all_passed_assign [OF conjunct1 [OF ih] g] 1
        by (auto split: option.splits)
    next
      case 2
      then have "next_target decide i (pjsip_target_assign_status i 487 ts) = (ts', cur', found)"
        using "1.prems" Some by (simp add: next_target.simps [of decide cur ts])
      note ih = "1.IH"(2) [OF Some _ 2(2) this]
      show ?thesis
        using ih all_passed_assign [of decide i 487 ts ts'] g 2
        by (auto split: option.splits)
    next
      case 3
      then have "ts' = ts" "cur' = i" "found = Some (decide i)"
        using "1.prems" Some by (auto simp: next_target.simps [of decide cur ts])
      then show ?thesis using g f 3 by (simp add: all_passed_refl)
    qed
  qed
qed

text \<open>A target of another scheme is passed, then one the application rejects, and the third is taken.\<close>

definition three_targets :: "pjsip_target list" where
  "three_targets = map (\<lambda>b. \<lparr>target_is_sip = b, target_code = 0\<rparr>) [False, True, True]"

definition picky :: "nat \<Rightarrow> pjsip_redirect_op" where
  "picky i = (if i = 1 then PJSIP_REDIRECT_REJECT else PJSIP_REDIRECT_ACCEPT)"

lemma three_targets_next:
  "next_target picky 0 three_targets =
     ([\<lparr>target_is_sip = False, target_code = 416\<rparr>, \<lparr>target_is_sip = True, target_code = 487\<rparr>,
       \<lparr>target_is_sip = True, target_code = 0\<rparr>], 2, Some PJSIP_REDIRECT_ACCEPT)"
  by (simp add: three_targets_def picky_def next_target.simps pjsip_target_set_get_next_def code_class_def
      pjsip_target_assign_status_def numeral_2_eq_2)

theorem redirect_finds_next_target_witness:
  "target_is_sip (three_targets ! 2) \<and> picky 2 \<noteq> PJSIP_REDIRECT_REJECT"
  using redirect_finds_next_target [OF three_targets_next] by simp

section \<open>Answers\<close>

lemma dialog_fields [simp]:
  "on_state_changed (dialog_at N n) e w = w" "on_media_update (dialog_at N n) st w = w"
  "on_rx_offer (dialog_at N n) sdp w = w" "on_send_ack (dialog_at N n) = None"
  "timer_process_resp (dialog_at N n) r w = (w, PJ_SUCCESS, 0)" "set_timeout (dialog_at N n) t w = w"
  "find_invite_tsx (dialog_at N n) r w = invite_tsx (inv w)"
  "on_tsx_state_changed (dialog_at N n) t w = w" "create_status (dialog_at N n) m w = PJ_SUCCESS"
  "response_status (dialog_at N n) r c w = PJ_SUCCESS"
  by (induction n) (simp_all add: dialog_env_def quiet_env_def)

lemma dialog_send_ack [simp]:
  "method_id (tx_method (iw_td w d)) = PJSIP_ACK_METHOD \<Longrightarrow> dlg_send (dialog_at N n) d a w = (w, PJ_SUCCESS)"
  by (cases n) (simp_all add: dialog_env_def quiet_env_def pjsip_dlg_send_request_def)

lemma new_bye_ignored:
  assumes "inv_state (inv w) = PJSIP_INV_STATE_CONNECTING" "Some t \<noteq> invite_tsx (inv w)"
    "role (iw_tsx w t) = PJSIP_ROLE_UAC" "state (iw_tsx w t) = PJSIP_TSX_STATE_CALLING"
    "status_code (iw_tsx w t) = 0"
  shows "mod_inv_on_tsx_state (dialog_at N n) t None w = w"
  using assms not_sym [OF assms(2)]
  by (simp add: mod_inv_on_tsx_state_def inv_on_state_connecting_def in_dialog_event_def incoming_request_def
      outgoing_bye_done_def incoming_update_def outgoing_update_done_def incoming_prack_def Let_def
      handle_uac_tsx_response_def PJSIP_SC_TSX_TIMEOUT_def PJSIP_SC_TSX_TRANSPORT_ERROR_def)

lemma dialog_send_connecting:
  assumes "inv_state (inv w) = PJSIP_INV_STATE_CONNECTING"
  shows "inv (fst (dlg_send (dialog_at N n) d a w)) = inv w"
    "iw_trace (fst (dlg_send (dialog_at N n) d a w)) = iw_trace w"
proof -
  have "inv (fst (pjsip_dlg_send_request (dialog_at N m) d a w)) = inv w \<and>
      iw_trace (fst (pjsip_dlg_send_request (dialog_at N m) d a w)) = iw_trace w" for m
  proof (cases "method_id (tx_method (iw_td w d)) = PJSIP_ACK_METHOD")
    case False
    let ?x = "(iw_tsx w (fresh_tsx w))\<lparr>role := PJSIP_ROLE_UAC, tsx_method := tx_method (iw_td w d),
      status_code := 0, state := PJSIP_TSX_STATE_CALLING, last_tx := Some d,
      inv_data := if a then Some \<lparr>sdp_done = False, done_tag = [], done_early = False\<rparr> else None\<rparr>"
    let ?w = "w\<lparr>iw_tsx := (iw_tsx w)(fresh_tsx w := ?x), iw_next := Suc (fresh_tsx w)\<rparr>"
    have "mod_inv_on_tsx_state (dialog_at N m) (fresh_tsx w) None ?w = ?w"
      by (rule new_bye_ignored) (use assms fresh_tsx_new [of w] in simp_all)
    then show ?thesis using False by (simp add: pjsip_dlg_send_request_def Let_def)
  qed (simp add: pjsip_dlg_send_request_def)
  then show "inv (fst (dlg_send (dialog_at N n) d a w)) = inv w"
    "iw_trace (fst (dlg_send (dialog_at N n) d a w)) = iw_trace w"
    by (cases n; simp add: dialog_env_def quiet_env_def)+
qed

text \<open>Ending a session in CONNECTING over the dialog sends a BYE and leaves the state to its answer.\<close>

lemma end_connecting:
  fixes N :: neg_env and n c :: nat
  assumes "inv_state (inv w) = PJSIP_INV_STATE_CONNECTING"
  defines "w' \<equiv> end_and_send (dialog_at N n) c w"
  shows "inv_state (inv w') = PJSIP_INV_STATE_CONNECTING" "cancelling (inv w')" "inv_neg (inv w') = inv_neg (inv w)"
    "iw_trace w' = iw_trace w @ [Sent_request (plain_method PJSIP_BYE_METHOD) None]"
proof -
  let ?w1 = "inv_set_cause c w"
  let ?d = "iw_next ?w1"
  let ?td = "new_tdata PJSIP_REQUEST_MSG (plain_method PJSIP_BYE_METHOD) 0 0"
  let ?w2 = "?w1\<lparr>iw_td := (iw_td ?w1)(?d := ?td), iw_next := Suc ?d\<rparr>"
  let ?w3 = "iw_emit (Sent_request (plain_method PJSIP_BYE_METHOD) None) (upd_inv (\<lambda>s. s\<lparr>cancelling := True\<rparr>) ?w2)"
  have s: "inv_state (inv ?w1) = PJSIP_INV_STATE_CONNECTING" "inv_neg (inv ?w1) = inv_neg (inv w)"
    "iw_trace ?w1 = iw_trace w"
    using assms(1) by (simp_all add: inv_set_cause_def)
  have "pjsip_inv_end_session (dialog_at N n) c w =
      (upd_inv (\<lambda>s. s\<lparr>cancelling := True\<rparr>) ?w2, PJ_SUCCESS, Some ?d)"
    using s(1) by (simp add: pjsip_inv_end_session_def dlg_create_request_def alloc_tdata_def Let_def)
  then have w': "w' = fst (dlg_send (dialog_at N n) ?d True ?w3)"
    by (simp add: w'_def end_and_send_def pjsip_inv_send_msg_def send_request_def new_tdata_def)
  have "inv_state (inv ?w3) = PJSIP_INV_STATE_CONNECTING" using s(1) by simp
  note d = dialog_send_connecting [OF this, of N n ?d True]
  show "inv_state (inv w') = PJSIP_INV_STATE_CONNECTING" "cancelling (inv w')" "inv_neg (inv w') = inv_neg (inv w)"
    "iw_trace w' = iw_trace w @ [Sent_request (plain_method PJSIP_BYE_METHOD) None]"
    unfolding w' d using s by simp_all
qed

text \<open>The ACK is created in a new buffer, which the pending answer does not touch.\<close>

lemma pending_answer_frame:
  "last_ack (inv (fst (inv_has_pending_answer (dialog_at N n) t w))) = last_ack (inv w)"
  "tx_method (iw_td (fst (inv_has_pending_answer (dialog_at N n) t w)) d) = tx_method (iw_td w d)"
  by (auto simp: inv_has_pending_answer_def inv_negotiate_sdp_def neg_do_prov_def neg_do_def mark_sdp_done_def
      iw_crash_def iw_emit_def assert_fails_def Let_def split_beta split: option.splits)

lemma create_ack_buffer:
  fixes N :: neg_env and n :: nat
  defines "w' cs w \<equiv> fst (pjsip_inv_create_ack (dialog_at N n) cs w)"
  shows "\<exists>d. last_ack (inv (w' cs w)) = Some d \<and> tx_method (iw_td (w' cs w) d) = plain_method PJSIP_ACK_METHOD"
  by (auto simp: w'_def pjsip_inv_create_ack_def dlg_create_request_def alloc_tdata_def new_tdata_def td_ref_def
      pending_answer_frame Let_def split_beta split: option.splits)

lemma confirm_outcome:
  fixes N :: neg_env and n :: nat and e :: inv_event
  assumes "inv_state (inv w) = PJSIP_INV_STATE_CONNECTING"
  defines "w' \<equiv> inv_set_state (dialog_at N n) PJSIP_INV_STATE_CONFIRMED e w"
  shows "if neg_state_or_null w = PJMEDIA_SDP_NEG_STATE_DONE
    then inv_state (inv w') = PJSIP_INV_STATE_CONFIRMED \<and> neg_state_or_null w' = PJMEDIA_SDP_NEG_STATE_DONE \<and>
      (\<exists>tr. iw_trace w' = iw_trace w @ tr)
    else inv_state (inv w') = PJSIP_INV_STATE_CONNECTING \<and> cancelling (inv w') \<and>
      neg_state_or_null w' = neg_state_or_null w \<and>
      iw_trace w' = iw_trace w @ [Sent_request (plain_method PJSIP_BYE_METHOD) None]"
proof (cases "neg_state_or_null w = PJMEDIA_SDP_NEG_STATE_DONE")
  case True
  then have "get_neg_state w = (w, PJMEDIA_SDP_NEG_STATE_DONE)"
    by (auto simp: neg_state_or_null_def get_neg_state_def split: option.splits)
  then show ?thesis
    using True by (auto simp: w'_def inv_set_state_def enter_inv_state_def neg_state_or_null_def Let_def)
next
  case False
  obtain v s where v: "get_neg_state w = (v, s)" by fastforce
  then have s: "inv v = inv w" "iw_trace v = iw_trace w" "s \<noteq> PJMEDIA_SDP_NEG_STATE_DONE"
    using False by (auto simp: neg_state_or_null_def get_neg_state_def iw_crash_def split: option.splits)
  then have "w' = end_and_send (dialog_at N n) 406 v" by (simp add: w'_def inv_set_state_def v)
  then show ?thesis
    using False end_connecting [of v N n 406] assms(1) s by (simp add: neg_state_or_null_def)
qed

lemma ack_outcome:
  fixes N :: neg_env and n t :: nat
  assumes "inv_state (inv w) = PJSIP_INV_STATE_CONNECTING" "\<not> ack_is_cached r w" "sess_ok w"
  defines "w' \<equiv> fst (inv_send_ack (dialog_at N n) (Ev_tsx t (Some r)) w)"
  shows "\<exists>tr body. iw_trace w' = iw_trace w @ tr \<and> Sent_request (plain_method PJSIP_ACK_METHOD) body \<in> set tr \<and>
    (if neg_state_or_null w' = PJMEDIA_SDP_NEG_STATE_DONE then inv_state (inv w') = PJSIP_INV_STATE_CONFIRMED
     else inv_state (inv w') = PJSIP_INV_STATE_CONNECTING \<and> cancelling (inv w') \<and>
       Sent_request (plain_method PJSIP_BYE_METHOD) None \<in> set tr)"
proof -
  let ?E = "dialog_at N n"
  define v where "v = fst (pjsip_inv_create_ack ?E (rx_cseq_num r) w)"
  obtain d where d: "last_ack (inv v) = Some d" "tx_method (iw_td v d) = plain_method PJSIP_ACK_METHOD"
    using create_ack_buffer [of N n "rx_cseq_num r" w] by (auto simp: v_def)
  have s: "same w v" unfolding v_def by (rule dialog.same_create_ack) simp
  obtain tr where tr: "iw_trace v = iw_trace w @ tr" using s by (auto simp: same_def follows_def)
  let ?u = "iw_emit (Sent_request (plain_method PJSIP_ACK_METHOD) (tx_body (iw_td v d))) v"
  have td: "tx_method (iw_td ?u d) = plain_method PJSIP_ACK_METHOD" using d(2) by (simp add: iw_emit_def)
  have c: "inv_state (inv ?u) = PJSIP_INV_STATE_CONNECTING" using assms(1) sameD(1) [OF s] by simp
  have "send_request ?E d False v = (?u, PJ_SUCCESS)" using d(2) td by (simp add: send_request_def)
  then have "w' = inv_set_state ?E PJSIP_INV_STATE_CONFIRMED (Ev_tsx t (Some r)) ?u"
    using d c assms(2)
    by (simp add: w'_def inv_send_ack_def event_rdata_def send_last_ack_def v_def inv_state_order)
  then show ?thesis
    using confirm_outcome [OF c, of N n "Ev_tsx t (Some r)"] tr by (auto split: if_splits)
qed

definition ack_and_role :: "nat \<Rightarrow> inv_world \<Rightarrow> nat option \<times> pjsip_role_e" where
  "ack_and_role t w = (last_ack (inv w), role (iw_tsx w t))"

lemma check_sdp_frame:
  "ack_and_role x (fst (inv_check_sdp_in_incoming_msg (dialog_at N n) t r w)) = ack_and_role x w"
proof -
  have n: "ack_and_role x (fst (neg_do_prov (dialog_at N n) c w)) = ack_and_role x w"
    "ack_and_role x (fst (neg_do (dialog_at N n) c w)) = ack_and_role x w"
    "ack_and_role x (fst (neg_create y w)) = ack_and_role x w"
    "ack_and_role x (attach_inv_data t w) = ack_and_role x w"
    "ack_and_role x (iw_crash w) = ack_and_role x w" "ack_and_role x (fst (get_neg_state w)) = ack_and_role x w"
    "ack_and_role x (iw_emit a w) = ack_and_role x w"
    "ack_and_role x (upd_itsx t (\<lambda>z. z\<lparr>inv_data := d\<rparr>) w) = ack_and_role x w" for c y a d w
    by (auto simp: neg_do_prov_def neg_do_def neg_create_def attach_inv_data_def iw_crash_def iw_emit_def
        get_neg_state_def ack_and_role_def Let_def split: option.splits sum.splits)
  have "ack_and_role x (fst (inv_negotiate_sdp (dialog_at N n) w)) = ack_and_role x w" for w
    by (simp add: inv_negotiate_sdp_def assert_fails_def Let_def split_beta n)
  note n = n this
  have "ack_and_role x (fst (take_remote_offer (dialog_at N n) sdp w)) = ack_and_role x w"
    "ack_and_role x (fst (take_remote_answer (dialog_at N n) t r sdp w)) = ack_and_role x w"
    "ack_and_role x (fst (reoffer_forked (dialog_at N n) t r d w)) = ack_and_role x w" for sdp d w
    by (auto simp: take_remote_offer_def take_remote_answer_def reoffer_forked_def Let_def split_beta
        n split: option.splits)
  then show ?thesis
    by (auto simp: inv_check_sdp_in_incoming_msg_def Let_def split_beta n split: option.splits)
qed

text \<open>What the tail of the callback leaves alone.\<close>

lemma tsx_state_tail_frame:
  fixes N :: neg_env and n t :: nat and r :: "inv_rx_data option"
  assumes "inv_state_handler (inv_state (inv w)) (dialog_at N n) t r w = v"
  defines "w' \<equiv> mod_inv_on_tsx_state (dialog_at N n) t r w"
  shows "inv_state (inv w') = inv_state (inv v)" "cancelling (inv w') = cancelling (inv v)"
    "inv_neg (inv w') = inv_neg (inv v)" "iw_trace w' = iw_trace v" "pools_live (inv w') = pools_live (inv v)"
  using assms(1)
  by (auto simp: w'_def mod_inv_on_tsx_state_def drop_last_answer_def td_ref_def Let_def split: option.splits)


text \<open>A call that is ringing, and whose 200 brings no description.\<close>

definition ringing :: inv_world where
  "ringing = (blank_world PJSIP_ROLE_UAC)\<lparr>
     iw_tsx := (\<lambda>t. blank_tsx)(1 := tsx_at PJSIP_ROLE_UAC PJSIP_INVITE_METHOD PJSIP_TSX_STATE_TERMINATED 200 (Some 0)),
     inv := (start_session PJSIP_ROLE_UAC (False, False))\<lparr>inv_state := PJSIP_INV_STATE_EARLY, invite_tsx := Some 1\<rparr>\<rparr>"


section \<open>Requests that meet another\<close>

text \<open>A final response over the dialog, when its report is none of the session's business.\<close>

lemma respond_unreported:
  fixes N :: neg_env and n :: nat and r :: inv_rx_data
  assumes "state (iw_tsx w t) = PJSIP_TSX_STATE_TRYING" "200 \<le> c"
    and ign: "\<And>m v. inv v = inv w \<Longrightarrow>
      iw_tsx v t = (iw_tsx w t)\<lparr>status_code := c, state := PJSIP_TSX_STATE_COMPLETED, last_tx := Some (iw_next w)\<rparr>
      \<Longrightarrow> mod_inv_on_tsx_state (dialog_at N m) t None v = v"
  defines "x \<equiv> respond_with (dialog_at N n) t r c w"
  shows "snd x = PJ_SUCCESS" "inv (fst x) = inv w" "iw_trace (fst x) = iw_trace w @ [Sent_response t c None]"
    "\<And>y. y \<noteq> t \<Longrightarrow> iw_tsx (fst x) y = iw_tsx w y"
proof -
  let ?d = "iw_next w"
  let ?td = "new_tdata PJSIP_RESPONSE_MSG (rx_method r) c (case rx_cseq r of None \<Rightarrow> 0 | Some h \<Rightarrow> cseq_num h)"
  let ?w1 = "iw_emit (Sent_response t c None) (w\<lparr>iw_td := (iw_td w)(?d := ?td), iw_next := Suc ?d\<rparr>)"
  let ?w2 = "upd_itsx t (\<lambda>z. z\<lparr>status_code := c, state := PJSIP_TSX_STATE_COMPLETED, last_tx := Some ?d\<rparr>) ?w1"
  have x: "x = dlg_respond (dialog_at N n) t ?d ?w1"
    by (simp add: x_def respond_with_def dlg_create_response_def alloc_tdata_def send_response_def new_tdata_def Let_def)
  have "x = (?w1, PJ_SUCCESS) \<or> x = (?w2, PJ_SUCCESS)"
  proof (cases n)
    case 0
    then show ?thesis by (simp add: x quiet_env_def)
  next
    case (Suc m)
    have c: "tx_code (iw_td ?w1 ?d) = c" "state (iw_tsx ?w1 t) = PJSIP_TSX_STATE_TRYING"
      using assms(1) by (simp_all add: iw_emit_def new_tdata_def)
    have "mod_inv_on_tsx_state (dialog_at N m) t None ?w2 = ?w2"
      by (rule ign) (simp_all add: iw_emit_def)
    then show ?thesis
      using Suc c assms(2) by (simp add: x dialog_env_def pjsip_dlg_send_response_def Let_def)
  qed
  then show "snd x = PJ_SUCCESS" "inv (fst x) = inv w" "iw_trace (fst x) = iw_trace w @ [Sent_response t c None]"
    "\<And>y. y \<noteq> t \<Longrightarrow> iw_tsx (fst x) y = iw_tsx w y"
    by (auto simp: iw_emit_def)
qed

text \<open>C39: A re-INVITE that arrives while another INVITE of the session is open is refused, with 491 if the open one is
  the session's own and with 500 if it is the other side's; the response is all that happens. The session,
  its state, its negotiator and the open transaction included, stays as it was.\<close>

theorem reinvite_glare_refused:
  fixes N :: neg_env and n :: nat and r :: inv_rx_data
  assumes "inv_state (inv w) = PJSIP_INV_STATE_CONFIRMED" "invite_tsx (inv w) = Some i" "i \<noteq> t"
    "role (iw_tsx w t) = PJSIP_ROLE_UAS" "method_id (tsx_method (iw_tsx w t)) = PJSIP_INVITE_METHOD"
    "state (iw_tsx w t) = PJSIP_TSX_STATE_TRYING"
  defines "w' \<equiv> mod_inv_on_tsx_state (dialog_at N n) t (Some r) w"
  shows "inv w' = inv w \<and> iw_tsx w' i = iw_tsx w i \<and>
    iw_trace w' = iw_trace w @ [Sent_response t (if role (iw_tsx w i) = PJSIP_ROLE_UAC then 491 else 500) None]"
proof -
  let ?c = "if role (iw_tsx w i) = PJSIP_ROLE_UAC then 491 else 500 :: nat"
  have ign: "mod_inv_on_tsx_state (dialog_at N m) t None v = v"
    if "inv v = inv w" "iw_tsx v t = (iw_tsx w t)\<lparr>status_code := ?c, state := PJSIP_TSX_STATE_COMPLETED,
        last_tx := Some (iw_next w)\<rparr>" for m v
    using that assms(1-5)
    by (simp add: mod_inv_on_tsx_state_def inv_on_state_confirmed_def outgoing_bye_done_def incoming_request_def
        uas_reinvite_event_def Let_def)
  have "200 \<le> ?c" by simp
  note u = respond_unreported [OF assms(6) this ign, where r = r and n = n]
  let ?v = "fst (respond_with (dialog_at N n) t r ?c w)"
  have "inv_state_handler (inv_state (inv w)) (dialog_at N n) t (Some r) w = ?v"
    using assms(1-6)
    by (simp add: inv_on_state_confirmed_def outgoing_bye_done_def incoming_request_def uas_reinvite_event_def
        incoming_reinvite_def Let_def)
  then have "w' = ?v"
    using assms(2,3) u(2) by (auto simp: w'_def mod_inv_on_tsx_state_def Let_def)
  then show ?thesis using u assms(3) by simp
qed

text \<open>The re-INVITE 5 comes while the session's own re-INVITE 3 is open.\<close>

definition glaring :: inv_world where
  "glaring = (blank_world PJSIP_ROLE_UAC)\<lparr>
     iw_tsx := (\<lambda>t. blank_tsx)(5 := tsx_at PJSIP_ROLE_UAS PJSIP_INVITE_METHOD PJSIP_TSX_STATE_TRYING 0 None),
     inv := (start_session PJSIP_ROLE_UAC (False, False))\<lparr>inv_state := PJSIP_INV_STATE_CONFIRMED, invite_tsx := Some 3\<rparr>\<rparr>"

theorem reinvite_glare_refused_witness:
  "iw_trace (mod_inv_on_tsx_state (dialog_at codec_env 2) 5
     (Some (rx_msg PJSIP_REQUEST_MSG PJSIP_INVITE_METHOD 0 None 5)) glaring) = [Sent_response 5 491 None]"
proof -
  have "inv_state (inv glaring) = PJSIP_INV_STATE_CONFIRMED" "invite_tsx (inv glaring) = Some 3" "(3::nat) \<noteq> 5"
    "role (iw_tsx glaring 5) = PJSIP_ROLE_UAS" "method_id (tsx_method (iw_tsx glaring 5)) = PJSIP_INVITE_METHOD"
    "state (iw_tsx glaring 5) = PJSIP_TSX_STATE_TRYING"
    by (simp_all add: glaring_def)
  from reinvite_glare_refused [OF this, of codec_env 2 "rx_msg PJSIP_REQUEST_MSG PJSIP_INVITE_METHOD 0 None 5"]
  show ?thesis by (simp add: glaring_def blank_world_def blank_tsx_def)
qed

text \<open>The final response to the INVITE of a call that is not answered ends the session.\<close>

lemma rejection_reported:
  assumes "inv_state (inv w) \<in> {PJSIP_INV_STATE_INCOMING, PJSIP_INV_STATE_EARLY}" "invite_tsx (inv w) = Some i"
    "role (iw_tsx w i) = PJSIP_ROLE_UAS" "state (iw_tsx w i) = PJSIP_TSX_STATE_COMPLETED"
    "status_code (iw_tsx w i) = 487"
  shows "inv_state (inv (mod_inv_on_tsx_state (dialog_at N m) i None w)) = PJSIP_INV_STATE_DISCONNECTED"
proof -
  have "inv_state_handler (inv_state (inv w)) (dialog_at N m) i None w =
      inv_disconnect (dialog_at N m) 487 (Ev_tsx i None) w"
    using assms by (auto simp: inv_on_state_incoming_def inv_on_state_early_def early_invite_def Let_def)
  then have "inv_state (inv (mod_inv_on_tsx_state (dialog_at N m) i None w)) =
      inv_state (inv (inv_disconnect (dialog_at N m) 487 (Ev_tsx i None) w))"
    by (rule tsx_state_tail_frame(1))
  then show ?thesis by (simp add: inv_disconnect_def dialog.set_state_state)
qed

lemma terminate_487_ends:
  fixes N :: neg_env and n :: nat
  assumes "inv_state (inv w) \<in> {PJSIP_INV_STATE_INCOMING, PJSIP_INV_STATE_EARLY}" "invite_tsx (inv w) = Some i"
    "role (iw_tsx w i) = PJSIP_ROLE_UAS" "state (iw_tsx w i) < PJSIP_TSX_STATE_COMPLETED"
    "last_tx (iw_tsx w i) = Some d" "\<not> require_100rel (inv w)" "sess_ok w"
  defines "w' \<equiv> terminate_invite_487 (dialog_at N (Suc n)) i w"
  shows "inv_state (inv w') = PJSIP_INV_STATE_DISCONNECTED"
    "\<exists>tr. iw_trace w' = iw_trace w @ Sent_response i 487 None # tr"
proof -
  let ?w1 = "set_body d None (td_ref 1 d (upd_td d (\<lambda>td. td\<lparr>tx_code := 487\<rparr>) w))"
  let ?w2 = "iw_emit (Sent_response i 487 None) ?w1"
  let ?w3 = "upd_itsx i (\<lambda>z. z\<lparr>status_code := 487, state := PJSIP_TSX_STATE_COMPLETED, last_tx := Some d\<rparr>) ?w2"
  have td: "tx_code (iw_td ?w1 d) = 487" "tx_body (iw_td ?w1 d) = None" "inv ?w1 = inv w"
    "iw_tsx ?w1 = iw_tsx w" "iw_trace ?w1 = iw_trace w" "iw_td ?w2 = iw_td ?w1" "iw_tsx ?w2 = iw_tsx w"
    "inv ?w2 = inv w" "iw_trace ?w2 = iw_trace w @ [Sent_response i 487 None]"
    by (simp_all add: td_ref_def iw_emit_def)
  have "\<not> PJSIP_TSX_STATE_COMPLETED \<le> state (iw_tsx ?w2 i)" using assms(4) td by simp
  then have r: "fst (dlg_respond (dialog_at N (Suc n)) i d ?w2) = mod_inv_on_tsx_state (dialog_at N n) i None ?w3"
    using td by (simp add: dialog_env_def pjsip_dlg_send_response_def Let_def)
  have "w' = fst (send_response (dialog_at N (Suc n)) i d ?w1)"
    using assms(5,6) by (simp add: w'_def terminate_invite_487_def dlg_modify_response_def assert_fails_def Let_def td_ref_def)
  then have w': "w' = mod_inv_on_tsx_state (dialog_at N n) i None ?w3"
    using r td by (simp add: send_response_def)
  show "inv_state (inv w') = PJSIP_INV_STATE_DISCONNECTED"
    unfolding w' by (rule rejection_reported) (use assms(1-3) td in simp_all)
  have "sess_ok ?w3" using assms(7) td(8) by (simp add: sess_ok_def)
  from dialog.follows_trace [OF dialog.forward_tsx_state this, of N n i None]
  show "\<exists>tr. iw_trace w' = iw_trace w @ Sent_response i 487 None # tr" using td(9) by (auto simp: w')
qed

text \<open>C40: A CANCEL ends a call that is not answered. In INCOMING and EARLY the session of the callee answers the CANCEL
  with 200 and then its INVITE with 487, in this order; the report of the 487 takes the session to
  DISCONNECTED, where its resources are released exactly once.\<close>

theorem cancel_ends_call:
  fixes N :: neg_env and n :: nat and r :: inv_rx_data
  assumes "inv_state (inv w) \<in> {PJSIP_INV_STATE_INCOMING, PJSIP_INV_STATE_EARLY}" "sess_ok w"
    "inv_role (inv w) = PJSIP_ROLE_UAS" "\<not> require_100rel (inv w)"
    "role (iw_tsx w t) = PJSIP_ROLE_UAS" "method_id (tsx_method (iw_tsx w t)) = PJSIP_CANCEL_METHOD"
    "state (iw_tsx w t) = PJSIP_TSX_STATE_TRYING" "invite_tsx (inv w) = Some i" "i \<noteq> t"
    "role (iw_tsx w i) = PJSIP_ROLE_UAS" "state (iw_tsx w i) < PJSIP_TSX_STATE_COMPLETED"
    "status_code (iw_tsx w i) < 200" "last_tx (iw_tsx w i) = Some d"
  defines "w' \<equiv> mod_inv_on_tsx_state (dialog_at N (Suc n)) t (Some r) w"
  shows "inv_state (inv w') = PJSIP_INV_STATE_DISCONNECTED \<and> \<not> pools_live (inv w') \<and>
    (\<exists>tr. iw_trace w' = iw_trace w @ Sent_response t 200 None # Sent_response i 487 None # tr \<and>
      count_list tr Ended = 1)"
proof -
  let ?E = "dialog_at N (Suc n)"
  have ign: "mod_inv_on_tsx_state (dialog_at N m) t None v = v"
    if "inv v = inv w" "iw_tsx v t = (iw_tsx w t)\<lparr>status_code := 200, state := PJSIP_TSX_STATE_COMPLETED,
        last_tx := Some (iw_next w)\<rparr>" for m v
    using that assms(1,5,8,9)
    by (auto simp: mod_inv_on_tsx_state_def inv_on_state_incoming_def inv_on_state_early_def incoming_update_def
        outgoing_update_done_def incoming_prack_def incoming_request_def Let_def)
  have "200 \<le> (200::nat)" by simp
  note u = respond_unreported [OF assms(7) this ign, where r = r and n = "Suc n"]
  define v where "v = fst (respond_with ?E t r 200 w)"
  note v = u(2-4) [folded v_def]
  have iv: "iw_tsx v i = iw_tsx w i" using v(3) assms(9) by simp
  have ok: "sess_ok v" using assms(2) v(1) by (simp add: sess_ok_def)
  have "inv_state (inv v) \<in> {PJSIP_INV_STATE_INCOMING, PJSIP_INV_STATE_EARLY}" "invite_tsx (inv v) = Some i"
    "role (iw_tsx v i) = PJSIP_ROLE_UAS" "state (iw_tsx v i) < PJSIP_TSX_STATE_COMPLETED"
    "last_tx (iw_tsx v i) = Some d" "\<not> require_100rel (inv v)"
    using assms(1,4,8,10,11,13) by (simp_all add: v(1) iv)
  note e = terminate_487_ends [OF this ok, of N n]
  have h: "inv_state_handler (inv_state (inv w)) ?E t (Some r) w = terminate_invite_487 ?E i v"
    using assms(1,3,5-9,12) u(1)
    by (auto simp: inv_on_state_incoming_def inv_on_state_early_def inv_respond_incoming_cancel_def Let_def
        split_beta v_def [symmetric] iv less_pjsip_tsx_state_e_def simp del: dialog_at.simps)
  have f: "forward w (terminate_invite_487 ?E i v)"
    unfolding h [symmetric] by (rule dialog.forward_handler)
  note t = tsx_state_tail_frame [OF h, folded w'_def]
  have "inv_state (inv w) \<noteq> PJSIP_INV_STATE_DISCONNECTED" using assms(1) by auto
  then obtain tr where tr: "iw_trace w' = iw_trace w @ tr" "count_list tr Ended = 1" "\<not> pools_live (inv w')"
    using dialog.over_after [OF f assms(2) e(1) forward_refl] t by auto
  obtain tr2 where "iw_trace w' = iw_trace w @ Sent_response t 200 None # Sent_response i 487 None # tr2"
    using e(2) v(2) t(4) by auto
  then show ?thesis using tr e(1) t(1) by auto
qed

text \<open>The callee's phone rings, and the caller hangs up.\<close>

definition alerting :: inv_world where
  "alerting = (blank_world PJSIP_ROLE_UAS)\<lparr>
     iw_tsx := (\<lambda>t. blank_tsx)(5 := tsx_at PJSIP_ROLE_UAS PJSIP_CANCEL_METHOD PJSIP_TSX_STATE_TRYING 0 None,
       3 := tsx_at PJSIP_ROLE_UAS PJSIP_INVITE_METHOD PJSIP_TSX_STATE_PROCEEDING 180 (Some 7)),
     inv := (start_session PJSIP_ROLE_UAS (False, False))\<lparr>inv_state := PJSIP_INV_STATE_EARLY, invite_tsx := Some 3\<rparr>\<rparr>"

theorem cancel_ends_call_witness:
  "\<exists>tr. iw_trace (mod_inv_on_tsx_state (dialog_at codec_env 2) 5
     (Some (rx_msg PJSIP_REQUEST_MSG PJSIP_CANCEL_METHOD 0 None 5)) alerting)
     = Sent_response 5 200 None # Sent_response 3 487 None # tr \<and> count_list tr Ended = 1"
proof -
  have "inv_state (inv alerting) \<in> {PJSIP_INV_STATE_INCOMING, PJSIP_INV_STATE_EARLY}" "sess_ok alerting"
    "inv_role (inv alerting) = PJSIP_ROLE_UAS" "\<not> require_100rel (inv alerting)"
    "role (iw_tsx alerting 5) = PJSIP_ROLE_UAS" "method_id (tsx_method (iw_tsx alerting 5)) = PJSIP_CANCEL_METHOD"
    "state (iw_tsx alerting 5) = PJSIP_TSX_STATE_TRYING" "invite_tsx (inv alerting) = Some 3" "(3::nat) \<noteq> 5"
    "role (iw_tsx alerting 3) = PJSIP_ROLE_UAS" "state (iw_tsx alerting 3) < PJSIP_TSX_STATE_COMPLETED"
    "status_code (iw_tsx alerting 3) < 200" "last_tx (iw_tsx alerting 3) = Some 7" "iw_trace alerting = []"
    by (simp_all add: alerting_def start_session_def sess_ok_def blank_world_def less_pjsip_tsx_state_e_def)
  then show ?thesis
    using cancel_ends_call [of alerting 5 3 7 codec_env 1 "rx_msg PJSIP_REQUEST_MSG PJSIP_CANCEL_METHOD 0 None 5"]
    by (simp add: numeral_2_eq_2 del: dialog_at.simps)
qed

end
