(* ===== verification/Spec2Isabelle.thy ===== *)
theory Spec2Isabelle
  imports Timer_Heap_Props Hash_Table_Props Tsx_Key_Props Tsx_Props Tsx_Flow_Props Tsx_Layer_Props
    Jitter_Buffer_Props Rtp_Props Sdp_Parse_Props Sdp_Neg_Props Stun_Tsx_Props Inv_Flow_Props
begin

text \<open>
  A verification library for the PJSIP stack that \<^verbatim>\<open>PTT_Terminal\<close> builds for Android
  (\<^verbatim>\<open>src/jni/pjsip/sources\<close>). The Java application above the JNI library is a user interface; the
  logic is in the C libraries. This library models the path a call takes through them: a timer heap
  and a hash table in pjlib, the SIP transactions above both, the session descriptions and the
  offer/answer negotiator that the messages carry, and the RTP session and jitter buffer the media
  goes through once the call is up; the STUN client transactions that run on the same timer
  heap; and the INVITE session, which composes the dialog and its transactions with the negotiator.

  \<^bold>\<open>Conventions.\<close> \<open>Pj_Prelude\<close> holds what all components share: the status codes, the time values
  with their order (an instance of \<open>linorder\<close>), word arithmetic, and the facts on lists and maps the
  proofs use. A C struct is a \<open>record\<close>, an enumeration a \<open>datatype\<close>, an unsigned or sequence number
  whose overflow matters a word of its width. Every operation is a function on values that returns the
  new state with its status code; the early returns of the C code are branches. \<^verbatim>\<open>config_site.h\<close> sets
  \<^verbatim>\<open>PJ_ENABLE_EXTRA_CHECK\<close> to 0, so \<^verbatim>\<open>PJ_ASSERT_RETURN\<close> returns nothing in this build: the guards are
  in the definitions, behind the switch \<open>assert_fails\<close> of the prelude, which is constantly false.
  Names are those of the C code where Isabelle allows them.

  \<^bold>\<open>Timer heap\<close> (\<^verbatim>\<open>pjlib/src/pj/timer.c\<close>, \<^verbatim>\<open>types.c\<close>). \<open>Timer_Heap\<close> is the array heap, the id table
  with its free list, the sift loops, schedule, cancel and poll. \<open>Timer_Heap_Inv\<close> proves the sift loops
  over a heap with a hole, \<open>Timer_Heap_Ops\<close> refines the operations to updates of a map from entries to
  expiry times, \<open>Timer_Heap_Poll\<close> shows that a poll ends and fires in order, \<open>Timer_Heap_Props\<close> states
  what clients may rely on. The locale \<open>timer_service\<close> is that contract, interpreted on the heap as \<open>ts\<close>.

  \<^bold>\<open>Hash table\<close> (\<^verbatim>\<open>pjlib/src/pj/hash.c\<close>). \<open>Hash_Table\<close> is the code, with its key forms (bytes, C strings,
  ready hash values); \<open>Hash_Table_Ops\<close> and \<open>Hash_Table_Props\<close> refine it to a finite map. The locale
  \<open>registry\<close> is the contract, interpreted on the table as \<open>hreg\<close>.

  \<^bold>\<open>SIP transactions\<close> (\<^verbatim>\<open>pjsip/src/pjsip/sip_transaction.c\<close>, \<^verbatim>\<open>sip_util_statefull.c\<close>). \<open>Tsx_Key\<close> builds the
  keys of RFC 3261 and RFC 2543. \<open>Tsx_World\<close> has the transaction record, the world it acts on (timer
  heap, table of transactions, buffers, transports, trace of actions) and the state change;
  \<open>Tsx_Send\<close> the sending and its callbacks, \<open>Tsx_Handlers\<close> the eight state handlers, their dispatch and
  the calls of the user, \<open>Tsx_Layer\<close> creation, registration, routing, shutdown and the two statefull
  utilities. Both timers of a transaction are entries of the modelled timer heap, and the table is the
  modelled hash table under the modelled keys. The timer heap corrupts itself when a pending entry is
  scheduled again (the guard is compiled out); \<open>Tsx_Inv\<close> therefore states which timer is idle when,
  that the key is registered, and that the handler fits the state. \<open>Tsx_Core\<close>, \<open>Tsx_Steps\<close>,
  \<open>Tsx_Send_Inv\<close>, \<open>Tsx_Handler_Inv\<close>, \<open>Tsx_Handle\<close>, \<open>Tsx_Create\<close> and \<open>Tsx_Entry\<close> carry the invariant
  through every operation, the last as a step relation; the locales \<open>tsx_user_module\<close> and
  \<open>tsx_environment\<close> say what the user's callback and the transport owe, and \<open>util\<close> interprets them on the
  module \<^verbatim>\<open>pjsip_endpt_send_request\<close> registers. \<open>Tsx_Flow\<close> computes single events. \<open>Tsx_Key_Props\<close>,
  \<open>Tsx_Props\<close>, \<open>Tsx_Flow_Props\<close> and \<open>Tsx_Layer_Props\<close> state the properties: safety of whole runs, timeouts
  that terminate and destroy, the ACK to a failure, the retransmission schedule, and routing.

  \<^bold>\<open>Jitter buffer\<close> (\<^verbatim>\<open>pjmedia/src/pjmedia/jbuf.c\<close>). \<open>Jb_Framelist\<close> is the circular frame list,
  \<open>Jb_Framelist_Inv\<close>, \<open>Jb_Framelist_Ops\<close> and \<open>Jb_Framelist_Queue\<close> refine it to a queue of numbered slots;
  \<open>Jb_Store\<close> states the contract as the locale \<open>frame_store\<close>, interpreted as \<open>fs\<close>. \<open>Jitter_Buffer\<close> adds
  burst adaptation, prefetching and both discard algorithms, \<open>Jitter_Buffer_Inv\<close> the invariant,
  \<open>Jitter_Buffer_Flow\<close> runs of calls, \<open>Jitter_Buffer_Props\<close> the properties.

  \<^bold>\<open>RTP sessions\<close> (\<^verbatim>\<open>pjmedia/src/pjmedia/rtp.c\<close>). \<open>Rtp\<close> has the header, its image in memory, encoding,
  decoding and sequence tracking; \<open>Rtp_Props\<close> the round trip and the tracker.

  \<^bold>\<open>Session descriptions\<close> (\<^verbatim>\<open>pjmedia/src/pjmedia/sdp.c\<close>, \<^verbatim>\<open>pjlib-util/src/pjlib-util/scanner.c\<close>). \<open>Scanner\<close>
  has the character classes, numbers and scanner operations, \<open>Sdp\<close> the data, attribute lists, validation
  and cloning, \<open>Sdp_Text\<close> printing and parsing with the capacities of buffer and arrays.
  \<open>Sdp_Text_Props\<close> proves that printing succeeds and what each line parses to, \<open>Sdp_Parse_Props\<close> the round
  trip of a whole description and what the parser makes of an arbitrary text.

  \<^bold>\<open>Offer/answer\<close> (\<^verbatim>\<open>pjmedia/src/pjmedia/sdp_neg.c\<close>, \<^verbatim>\<open>pjmedia-codec/amr_sdp_match.c\<close>,
  \<^verbatim>\<open>g7221_sdp_match.c\<close>). \<open>Sdp_Neg\<close> is the negotiator, \<open>Sdp_Match\<close> the format callbacks of the codecs and
  the locale \<open>format_callbacks\<close>, interpreted on them as \<open>codecs\<close>. \<open>Sdp_Neg_Fmt\<close>, \<open>Sdp_Neg_Remote\<close> and
  \<open>Sdp_Neg_Local\<close> follow an offer through a remote and a local answer, \<open>Sdp_Neg_Flow\<close> is the state machine
  with its legal calls and invariant, \<open>Sdp_Neg_Props\<close> the properties.

  \<^bold>\<open>STUN client transactions\<close> (\<^verbatim>\<open>pjnath/src/pjnath/stun_transaction.c\<close>). \<open>Stun_Tsx\<close> is the transaction over
  the modelled timer heap, with its two timers, its callbacks and the session that owns it;
  \<open>Stun_Tsx_Inv\<close> the invariant that a flag tells whether its timer is armed, kept by every operation under
  the locale \<open>stun_user\<close>, the contract of the callbacks; \<open>Stun_Tsx_Props\<close> interprets the locale on the
  session as \<open>sess\<close> and states the properties: safety of runs, the retransmission schedule up to the timeout,
  and what responses do.

  \<^bold>\<open>INVITE sessions\<close> (\<^verbatim>\<open>pjsip/src/pjsip-ua/sip_inv.c\<close>, the sending functions of \<^verbatim>\<open>sip_dialog.c\<close>, the target
  set of \<^verbatim>\<open>sip_util.c\<close>). \<open>Inv_World\<close> has the session with its negotiator, the transactions and buffers it
  works on, the trace of what it does, and the environment: the dialog, the session timer, reliable
  responses, authentication and the application are functions on the whole world, as they may call the
  session back. \<open>Inv_Session\<close> has answers, ending, the change of state and the ACK, \<open>Inv_Calls\<close> offers and
  answers in messages, redirection and the calls of the application, \<open>Inv_Handlers\<close> the responses to requests
  in the dialog, \<open>Inv_States\<close> the handlers of the seven states and the callbacks of the module. A read
  through a null pointer sets the fault flag of the world. \<open>Inv_Inv\<close> reads a trace as a path through the
  states and states what the environment owes as the locale \<open>inv_user\<close>; \<open>Inv_Inv\<close>, \<open>Inv_Handler_Inv\<close> and
  \<open>Inv_Run\<close> show inside it that every operation and handler moves the session forward, and close this under
  runs, an inductive predicate. \<open>Inv_Dialog\<close> interprets the locale on the model: \<open>quiet\<close> on an environment
  that takes every message, \<open>dialog\<close> on the dialog whose sends create and advance transactions and report to
  the session, a mutual recursion cut at any depth. \<open>Inv_Sample\<close> has sample calls; \<open>Inv_Props\<close> and
  \<open>Inv_Flow_Props\<close> state the properties: runs only go forward and release once, the negotiator stays in step,
  BYE, CANCEL and lost dialogs end the session, the ACK to a success, glare, redirection, and the double
  release when an application
  ends a session inside its callback.

  \<^bold>\<open>Loops and bounds.\<close> Loops that need not end are \<open>partial_function (option)\<close>: the size loop of the hash
  table, the poll, the two searches over discarded frames, the eviction loop of the jitter buffer and
  the shutdown loop of the layer; that they return is proved (\<open>hash_create_returns\<close>, \<open>poll_returns\<close>, and
  \<open>jbuf_run_safe\<close> for the jitter buffer, for buffers of fewer than 2 to the 29 frames and frame times of at
  most 200 ms). All other recursion is structural or has a measure. The report of
  a dialog to its session is cut at a depth, a parameter of \<open>dialog_at\<close> over which the interpretation holds
  at every value. There is no fuel. A buffer for a
  printed description needs the 40 characters of margin the code itself asks for.

  \<^bold>\<open>Not modelled.\<close> Lists stand for C arrays: where the code checks or forgets their capacity the
  capacity is in the model (\<open>Sdp_Text\<close>, the keys, the frame list), elsewhere it is not (the lines of a
  negotiated description). Strings hold no NUL. Mutexes and group locks are recorded as a depth; the
  models are of one thread, and two threads in one transaction are not covered. Pool allocation is
  taken to succeed. Floating point statistics, logging and trace output are left out. Outside the
  modelled components, sockets, transports, the message parser and printer, DNS and the random
  numbers appear as parameters. Of INVITE sessions, \<^verbatim>\<open>pjsip_inv_verify_request\<close> and the headers of
  messages are left out, and the session timer and reliable responses are parameters. Of dialogs only
  sending is modelled. Event packages, registration, ICE and TURN, RTCP, streams, the conference bridge,
  codecs, the PJSUA library, its applications and bindings, and the Java application are not modelled. The
  vendored codecs are third-party code.

  \<^bold>\<open>What could follow.\<close> The dialog's route set and dispatch, \<^verbatim>\<open>sip_timer.c\<close> and \<^verbatim>\<open>sip_100rel.c\<close> in place of
  their parameters, and \<^verbatim>\<open>rtcp.c\<close> beside the RTP session.
\<close>

end
